(* ===== verification/Prelude.thy ===== *)
theory Prelude
  imports Main "HOL-Library.Word" "HOL-Library.Monad_Syntax"
begin

section \<open>Shared vocabulary of the development\<close>

text \<open>
  The types and helper functions every component uses, with the lemmas about them.

  \<^item> A byte is \<^typ>\<open>8 word\<close>; a \<^verbatim>\<open>std::span<const std::uint8_t>\<close> is a list of bytes.
  \<^item> Sizes, offsets and counters are \<^typ>\<open>nat\<close>. Where the source's unsigned arithmetic can leave
    its width, the model writes the wrap-around (\<open>wrap64\<close>, \<open>wrap32\<close>); values that are only
    masked and compared bit by bit are kept as words in the components that use them.
  \<^item> A C++ evaluation that has no defined result (an index outside a span, a loop that never ends)
    is \<^term>\<open>None\<close>; \<open>Some r\<close> is a normal return. A theorem that a routine is always
    \<open>Some _\<close> is therefore a memory-safety and termination theorem.
\<close>

unbundle bit_operations_syntax

named_theorems safe_simps \<open>reads that are known to be inside the span\<close>
named_theorems bound_intros \<open>width and size bounds of decoded values\<close>

type_synonym byte = "8 word"
type_synonym bytes = "byte list"
type_synonym u32 = "32 word"
type_synonym u64 = "64 word"

subsection \<open>Unsigned widths on natural numbers\<close>

definition u64_max :: nat where
  "u64_max = 18446744073709551615"

definition u32_max :: nat where
  "u32_max = 4294967295"

definition wrap64 :: "nat \<Rightarrow> nat" where
  "wrap64 n = n mod 18446744073709551616"

definition wrap32 :: "nat \<Rightarrow> nat" where
  "wrap32 n = n mod 4294967296"

lemma wrap64_id [simp]: "n \<le> u64_max \<Longrightarrow> wrap64 n = n"
  by (simp add: wrap64_def u64_max_def)

lemma wrap64_le [bound_intros]: "wrap64 n \<le> u64_max"
proof -
  have "n mod 18446744073709551616 < 18446744073709551616" by simp
  then show ?thesis unfolding wrap64_def u64_max_def by linarith
qed

lemma wrap64_less [bound_intros]: "wrap64 n < 18446744073709551616"
  by (simp add: wrap64_def)

lemma wrap32_id [simp]: "n \<le> u32_max \<Longrightarrow> wrap32 n = n"
  by (simp add: wrap32_def u32_max_def)

lemma wrap32_less [bound_intros]: "wrap32 n < 4294967296"
  by (simp add: wrap32_def)

subsection \<open>Reads from a span\<close>

text \<open>
  \<open>at b p\<close> is the C++ expression \<open>b[p]\<close>: defined only inside the span.
  \<open>subspan b off len\<close> is \<open>b.subspan(off, len)\<close>, whose precondition is that the
  range lies inside \<open>b\<close>.
\<close>

definition at :: "bytes \<Rightarrow> nat \<Rightarrow> byte option" where
  "at b p = (if p < length b then Some (b ! p) else None)"

definition subspan :: "bytes \<Rightarrow> nat \<Rightarrow> nat \<Rightarrow> bytes option" where
  "subspan b off len =
     (if off \<le> length b \<and> len \<le> length b - off then Some (take len (drop off b)) else None)"

lemma at_Some [safe_simps]: "p < length b \<Longrightarrow> at b p = Some (b ! p)"
  by (simp add: at_def)

lemma at_eq_Some_iff: "at b p = Some v \<longleftrightarrow> p < length b \<and> v = b ! p"
  by (auto simp: at_def)

lemma at_None_iff: "at b p = None \<longleftrightarrow> length b \<le> p"
  by (simp add: at_def)

lemma subspan_Some [safe_simps]:
  "off + len \<le> length b \<Longrightarrow> subspan b off len = Some (take len (drop off b))"
  by (simp add: subspan_def)

lemma subspan_eq_Some_iff:
  "subspan b off len = Some r \<longleftrightarrow> off + len \<le> length b \<and> r = take len (drop off b)"
  by (auto simp: subspan_def)

lemma length_subspan: "subspan b off len = Some r \<Longrightarrow> length r = len"
  by (auto simp: subspan_eq_Some_iff)

lemma nth_subspan:
  "subspan b off len = Some r \<Longrightarrow> i < len \<Longrightarrow> r ! i = b ! (off + i)"
  by (auto simp: subspan_eq_Some_iff)

subsection \<open>Early return\<close>

text \<open>
  A routine that may stop with an early \<^verbatim>\<open>return\<close>: \<open>None\<close> is an undefined
  evaluation, \<open>Inl\<close> the returned result, \<open>Inr\<close> the value passed on to the next statement.
\<close>

type_synonym ('e, 'a) outcome = "('e + 'a) option"

definition stop :: "'e \<Rightarrow> ('e, 'a) outcome" where
  "stop e = Some (Inl e)"

definition pass :: "'a \<Rightarrow> ('e, 'a) outcome" where
  "pass a = Some (Inr a)"

definition step :: "('e, 'a) outcome \<Rightarrow> ('a \<Rightarrow> ('e, 'b) outcome) \<Rightarrow> ('e, 'b) outcome" where
  "step m f = (case m of None \<Rightarrow> None | Some (Inl e) \<Rightarrow> Some (Inl e) | Some (Inr a) \<Rightarrow> f a)"

text \<open>A raw evaluation, and a callee whose early return is turned into the caller's.\<close>

definition access :: "'a option \<Rightarrow> ('e, 'a) outcome" where
  "access m = map_option Inr m"

definition or_stop :: "('e, 'a) outcome \<Rightarrow> ('e \<Rightarrow> 'f) \<Rightarrow> ('f, 'a) outcome" where
  "or_stop m h = map_option (map_sum h id) m"

definition defined :: "'a option \<Rightarrow> bool" where
  "defined m \<longleftrightarrow> m \<noteq> None"

lemma step_simps [simp]:
  "step (pass a) f = f a" "step (stop e) f = stop e" "step None f = None"
  by (simp_all add: step_def pass_def stop_def)

lemma access_Some [simp]: "access (Some a) = pass a"
  by (simp add: access_def pass_def)

lemma step_eq_pass_iff: "step m f = pass b \<longleftrightarrow> (\<exists>a. m = pass a \<and> f a = pass b)"
  by (auto simp: step_def pass_def split: option.splits sum.splits)

lemma access_eq_pass_iff [simp]: "access m = pass a \<longleftrightarrow> m = Some a"
  by (auto simp: access_def pass_def)

lemma or_stop_eq_pass_iff [simp]: "or_stop m h = pass a \<longleftrightarrow> m = pass a"
  by (cases m; cases "the m") (auto simp: or_stop_def pass_def)

lemma or_stop_simps [simp]:
  "or_stop (pass a) h = pass a" "or_stop (stop e) h = stop (h e)" "or_stop None h = None"
  by (simp_all add: or_stop_def pass_def stop_def)

lemma stop_neq_pass [simp]: "stop e \<noteq> pass a" "pass a \<noteq> stop e"
  by (simp_all add: stop_def pass_def)

lemma pass_inject [simp]: "pass a = pass b \<longleftrightarrow> a = b"
  by (simp add: pass_def)

lemma stop_inject [simp]: "stop a = stop b \<longleftrightarrow> a = b"
  by (simp add: stop_def)

lemma defined_simps [simp]:
  "defined (pass a)" "defined (stop e)" "defined (Some x)" "\<not> defined None"
  "defined (access m) \<longleftrightarrow> defined m" "defined (or_stop k h) \<longleftrightarrow> defined k"
  by (simp_all add: defined_def pass_def stop_def access_def or_stop_def)

lemma defined_step [intro]:
  "defined m \<Longrightarrow> (\<And>a. m = pass a \<Longrightarrow> defined (f a)) \<Longrightarrow> defined (step m f)"
  by (auto simp: step_def defined_def pass_def split: option.splits sum.splits)

subsection \<open>Little-endian values\<close>

text \<open>
  The value of a byte sequence, least significant byte first. The readers of the components
  combine bytes with shifts and ors; \<open>le_value\<close> is the specification they are proved
  against.
\<close>

fun le_value :: "bytes \<Rightarrow> nat" where
  "le_value [] = 0"
| "le_value (b # bs) = unat b + 256 * le_value bs"

lemma unat_byte_less [bound_intros]: "unat (b :: byte) < 256"
  using unsigned_less [of b, where ?'a = nat] by simp

lemma unat_byte_le [bound_intros]: "unat (b :: byte) \<le> 255"
  using unat_byte_less [of b] by simp

lemma le_value_less: "le_value bs < 256 ^ length bs"
proof (induction bs)
  case Nil
  then show ?case by simp
next
  case (Cons b bs)
  have "unat b + 256 * le_value bs < 256 + 256 * le_value bs"
    using unat_byte_less [of b] by simp
  also have "\<dots> = 256 * Suc (le_value bs)" by simp
  also have "\<dots> \<le> 256 * 256 ^ length bs"
    using Cons by (meson Suc_leI mult_le_mono2)
  finally show ?case by simp
qed

lemma le_value_append: "le_value (xs @ ys) = le_value xs + 256 ^ length xs * le_value ys"
  by (induction xs) (simp_all add: algebra_simps)

lemma le_value_inj: "length xs = length ys \<Longrightarrow> le_value xs = le_value ys \<Longrightarrow> xs = ys"
proof (induction xs ys rule: list_induct2)
  case Nil
  then show ?case by simp
next
  case (Cons x xs y ys)
  have "unat x = (unat x + 256 * le_value xs) mod 256" by (simp add: unat_byte_less)
  also have "\<dots> = (unat y + 256 * le_value ys) mod 256" using Cons.prems by simp
  also have "\<dots> = unat y" by (simp add: unat_byte_less)
  finally have "unat x = unat y" .
  with Cons show ?case by (simp add: word_unat_eq_iff)
qed

text \<open>Disjoint or is addition, so a shift-and-or chain is the little-endian value.\<close>

lemma or_push_bit_nat:
  assumes "a < 2 ^ n"
  shows "a OR push_bit n b = a + 2 ^ n * (b :: nat)"
proof -
  have high: "\<not> bit a k" if "n \<le> k" for k
    using assms that bit_take_bit_iff [of n a k] by (simp add: take_bit_nat_eq_self)
  have "a AND push_bit n b = 0"
    by (rule bit_eqI) (use high in \<open>auto simp: bit_and_iff bit_push_bit_iff\<close>)
  then have "a OR push_bit n b = a + push_bit n b"
    by (simp add: disjunctive_add_eq_or)
  then show ?thesis by (simp add: push_bit_eq_mult mult.commute)
qed

text \<open>The usual four-byte and eight-byte chains, on numbers and on words.\<close>

definition or4 :: "byte \<Rightarrow> byte \<Rightarrow> byte \<Rightarrow> byte \<Rightarrow> nat" where
  "or4 a b c d = unat a OR push_bit 8 (unat b) OR push_bit 16 (unat c) OR push_bit 24 (unat d)"

lemma or4_le_value: "or4 a b c d = le_value [a, b, c, d]"
proof -
  have 1: "unat a OR push_bit 8 (unat b) = unat a + 256 * unat b"
    using or_push_bit_nat [of "unat a" 8 "unat b"] unat_byte_less [of a] by simp
  have 2: "(unat a + 256 * unat b) OR push_bit 16 (unat c) =
    unat a + 256 * unat b + 65536 * unat c"
    using or_push_bit_nat [of "unat a + 256 * unat b" 16 "unat c"]
      unat_byte_le [of a] unat_byte_le [of b] by simp
  have 3: "(unat a + 256 * unat b + 65536 * unat c) OR push_bit 24 (unat d) =
    unat a + 256 * unat b + 65536 * unat c + 16777216 * unat d"
    using or_push_bit_nat [of "unat a + 256 * unat b + 65536 * unat c" 24 "unat d"]
      unat_byte_le [of a] unat_byte_le [of b] unat_byte_le [of c] by simp
  show ?thesis by (simp add: or4_def or.assoc [symmetric] 1 2 3)
qed

lemma take4_drop:
  "off + 4 \<le> length d \<Longrightarrow>
    take 4 (drop off d) = [d ! off, d ! (off + 1), d ! (off + 2), d ! (off + 3)]"
  by (simp add: take_Suc_conv_app_nth numeral_eq_Suc)

lemma or4_less [bound_intros]: "or4 a b c d < 4294967296"
  using le_value_less [of "[a, b, c, d]"] by (simp add: or4_le_value)

definition word_or4 :: "byte \<Rightarrow> byte \<Rightarrow> byte \<Rightarrow> byte \<Rightarrow> u32" where
  "word_or4 a b c d = ucast a OR push_bit 8 (ucast b) OR push_bit 16 (ucast c) OR push_bit 24 (ucast d)"

lemma unat_word_or4: "unat (word_or4 a b c d) = le_value [a, b, c, d]"
proof -
  have small: "take_bit 32 (push_bit n (unat x)) = push_bit n (unat x)"
    if "n \<le> 24" for n and x :: byte
  proof -
    have "(2::nat) ^ n \<le> 2 ^ 24" by (rule power_increasing) (use that in simp_all)
    then have "unat x * 2 ^ n < 256 * 2 ^ 24"
      using unat_byte_less [of x] by (intro mult_less_le_imp_less) simp_all
    then show ?thesis by (simp add: push_bit_eq_mult take_bit_nat_eq_self)
  qed
  have byte: "take_bit 32 (unat x) = unat x" for x :: byte
    using small [of 0 x] by simp
  have "unat (word_or4 a b c d) = or4 a b c d"
    by (simp add: word_or4_def or4_def unsigned_or_eq unsigned_push_bit_eq unsigned_ucast_eq
        small byte)
  then show ?thesis by (simp add: or4_le_value)
qed

text \<open>Little-endian encoding, the inverse of \<open>le_value\<close>.\<close>

fun le_bytes :: "nat \<Rightarrow> nat \<Rightarrow> bytes" where
  "le_bytes 0 n = []"
| "le_bytes (Suc k) n = word_of_nat n # le_bytes k (n div 256)"

lemma length_le_bytes [simp]: "length (le_bytes k n) = k"
  by (induction k arbitrary: n) simp_all

lemma le_value_le_bytes: "le_value (le_bytes k n) = n mod 256 ^ k"
proof (induction k arbitrary: n)
  case (Suc k)
  have "unat (word_of_nat n :: byte) = n mod 256" by (simp add: unat_of_nat)
  then show ?case using Suc [of "n div 256"] by (simp add: mod_mult2_eq)
qed simp

lemma le_bytes_le_value: "le_bytes (length bs) (le_value bs) = bs"
  by (rule le_value_inj) (use le_value_less [of bs] in \<open>simp_all add: le_value_le_bytes\<close>)

text \<open>
  The contract of a total little-endian reader: the value of the four bytes inside the data, zero
  outside.
\<close>

locale le_reader =
  fixes read32 :: "bytes \<Rightarrow> nat \<Rightarrow> nat"
  assumes read32_inside: "off + 4 \<le> length d \<Longrightarrow> read32 d off = le_value (take 4 (drop off d))"
    and read32_outside: "length d < off + 4 \<Longrightarrow> read32 d off = 0"
begin

lemma read32_less: "read32 d off < 4294967296"
proof (cases "off + 4 \<le> length d")
  case True
  then show ?thesis using le_value_less [of "take 4 (drop off d)"] by (simp add: read32_inside)
qed (simp add: read32_outside)

lemma read32_encoded:
  "n < 4294967296 \<Longrightarrow> read32 (pre @ le_bytes 4 n @ post) (length pre) = n"
  by (simp add: read32_inside le_value_le_bytes)

lemma read32_local:
  "take (off + 4) d = take (off + 4) e \<Longrightarrow> off + 4 \<le> length d \<Longrightarrow> off + 4 \<le> length e \<Longrightarrow>
    read32 d off = read32 e off"
  by (simp add: read32_inside) (metis drop_take add_diff_cancel_left')

end

subsection \<open>Decimal and hexadecimal text\<close>

text \<open>\<open>std::to_string\<close> on an unsigned value, and \<open>std::hex\<close> output.\<close>

definition hex_digit :: "nat \<Rightarrow> char" where
  "hex_digit d = (if d < 10 then char_of (48 + d) else char_of (87 + d))"

fun digits_base :: "nat \<Rightarrow> nat \<Rightarrow> string" where
  "digits_base base n =
     (if base < 2 \<or> n < base then [hex_digit n]
      else digits_base base (n div base) @ [hex_digit (n mod base)])"

declare digits_base.simps [simp del]

definition to_dec :: "nat \<Rightarrow> string" where
  "to_dec n = digits_base 10 n"

definition to_hex :: "nat \<Rightarrow> string" where
  "to_hex n = digits_base 16 n"

text \<open>\<open>std::setw(w)\<close> with fill character \<open>'0'\<close>.\<close>

definition pad_zero :: "nat \<Rightarrow> string \<Rightarrow> string" where
  "pad_zero w s = replicate (w - length s) (CHR ''0'') @ s"

lemma length_pad_zero: "w \<le> length (pad_zero w s)"
  by (simp add: pad_zero_def)

lemma digits_base_not_Nil: "digits_base base n \<noteq> []"
  by (subst digits_base.simps) simp

lemma length_digits_base_le:
  "2 \<le> base \<Longrightarrow> 0 < k \<Longrightarrow> n < base ^ k \<Longrightarrow> length (digits_base base n) \<le> k"
proof (induction base n arbitrary: k rule: digits_base.induct)
  case (1 base n)
  show ?case
  proof (cases "n < base")
    case True
    then show ?thesis using "1.prems" by (simp add: digits_base.simps [of base n])
  next
    case False
    then obtain j where k: "k = Suc j" and j: "0 < j"
      using "1.prems" by (cases k; cases "k - 1") auto
    have "n div base < base ^ j"
      using "1.prems" k by (simp add: less_mult_imp_div_less mult.commute)
    with 1 False j have "length (digits_base base (n div base)) \<le> j" by simp
    with False "1.prems" k show ?thesis by (simp add: digits_base.simps [of base n])
  qed
qed

end
