(* ===== verification/StdPath.thy ===== *)
theory StdPath
  imports Prelude
begin

section \<open>Lexical paths\<close>

text \<open>
  What the sources use of \<^verbatim>\<open>std::filesystem::path\<close> on POSIX, as functions on the native
  string: decomposition (\<open>filename\<close>, \<open>extension\<close>, \<open>stem\<close>, \<open>parent_path\<close>),
  \<open>replace_extension\<close> without argument, \<open>operator/\<close>, iteration over the components of a
  relative path, and \<open>lexically_normal\<close>.
\<close>

type_synonym path = string

abbreviation slash :: char where "slash \<equiv> CHR ''/''"
abbreviation dot :: char where "dot \<equiv> CHR ''.''"

definition is_absolute :: "path \<Rightarrow> bool" where
  "is_absolute p \<longleftrightarrow> (case p of [] \<Rightarrow> False | c # _ \<Rightarrow> c = slash)"

text \<open>Splitting at every separator, empty pieces kept.\<close>

fun split_on :: "'a \<Rightarrow> 'a list \<Rightarrow> 'a list list" where
  "split_on c [] = [[]]"
| "split_on c (x # xs) =
     (if x = c then [] # split_on c xs
      else (case split_on c xs of [] \<Rightarrow> [[x]] | y # ys \<Rightarrow> (x # y) # ys))"

fun join_with :: "'a \<Rightarrow> 'a list list \<Rightarrow> 'a list" where
  "join_with c [] = []"
| "join_with c [x] = x"
| "join_with c (x # y # zs) = x @ c # join_with c (y # zs)"

lemma split_on_not_Nil [simp]: "split_on c xs \<noteq> []"
  by (induction xs) (auto split: list.splits)

lemma split_on_free: "p \<in> set (split_on c xs) \<Longrightarrow> c \<notin> set p"
  by (induction xs arbitrary: p) (auto split: list.splits if_splits)

lemma split_on_subset: "p \<in> set (split_on c xs) \<Longrightarrow> set p \<subseteq> set xs"
proof (induction xs arbitrary: p)
  case (Cons x xs)
  then show ?case by (fastforce split: list.splits if_splits)
qed simp

lemma split_on_no_sep: "c \<notin> set xs \<Longrightarrow> split_on c xs = [xs]"
  by (induction xs) auto

lemma split_on_append_sep:
  "c \<notin> set xs \<Longrightarrow> split_on c (xs @ c # ys) = xs # split_on c ys"
  by (induction xs) auto

lemma join_with_Cons: "zs \<noteq> [] \<Longrightarrow> join_with c (x # zs) = x @ c # join_with c zs"
  by (cases zs) simp_all

lemma join_split: "join_with c (split_on c xs) = xs"
proof (induction xs)
  case (Cons x xs)
  then show ?case
    by (cases "split_on c xs"; cases "tl (split_on c xs)") (auto simp: join_with_Cons)
qed simp

lemma split_join:
  "ps \<noteq> [] \<Longrightarrow> (\<And>p. p \<in> set ps \<Longrightarrow> c \<notin> set p) \<Longrightarrow> split_on c (join_with c ps) = ps"
  by (induction c ps rule: join_with.induct) (simp_all add: split_on_no_sep split_on_append_sep)

definition filename :: "path \<Rightarrow> path" where
  "filename p = rev (takeWhile (\<lambda>c. c \<noteq> slash) (rev p))"

definition extension :: "path \<Rightarrow> path" where
  "extension p =
     (let f = filename p; tail = takeWhile (\<lambda>c. c \<noteq> dot) (rev f)
      in if f = ''.'' \<or> f = ''..'' \<or> length f \<le> length tail + 1 then [] else dot # rev tail)"

definition stem :: "path \<Rightarrow> path" where
  "stem p = (let f = filename p in take (length f - length (extension p)) f)"

definition drop_extension :: "path \<Rightarrow> path" where
  "drop_extension p = take (length p - length (extension p)) p"

definition strip_trailing :: "path \<Rightarrow> path" where
  "strip_trailing p = rev (dropWhile (\<lambda>c. c = slash) (rev p))"

definition parent_path :: "path \<Rightarrow> path" where
  "parent_path p =
     (let dir = take (length p - length (filename p)) p; s = strip_trailing dir
      in if s = [] \<and> dir \<noteq> [] then ''/'' else s)"

definition path_join :: "path \<Rightarrow> path \<Rightarrow> path" where
  "path_join a b =
     (if is_absolute b then b
      else if a = [] \<or> last a = slash then a @ b
      else a @ slash # b)"

text \<open>
  \<open>lexically_normal\<close>: the stack of kept components and whether the result ends in a
  separator (a dot, an empty piece or a parent reference that removed its predecessor came
  last).
\<close>

fun normal_step :: "bool \<Rightarrow> string \<Rightarrow> string list \<times> bool \<Rightarrow> string list \<times> bool" where
  "normal_step absolute c (kept, trail) =
     (if c = [] \<or> c = ''.'' then (kept, True)
      else if c = ''..'' then
        (case kept of
           [] \<Rightarrow> if absolute then ([], True) else ([c], False)
         | k # ks \<Rightarrow> if k = ''..'' then (c # kept, False) else (ks, True))
      else (c # kept, False))"

definition lexically_normal :: "path \<Rightarrow> path" where
  "lexically_normal p =
     (if p = [] then []
      else
        let absolute = is_absolute p;
            (kept, trail) = fold (normal_step absolute) (split_on slash p) ([], False);
            body = join_with slash (rev kept);
            tail = (if trail \<and> kept \<noteq> [] \<and> hd kept \<noteq> ''..'' then ''/'' else [])
        in if absolute then slash # body @ tail
           else if kept = [] then ''.'' else body @ tail)"

lemma normal_step_pieces: "[] \<notin> set (fst s) \<Longrightarrow> [] \<notin> set (fst (normal_step a c s))"
  by (cases s) (auto split: list.splits)

lemma normal_fold_pieces:
  "[] \<notin> set (fst s) \<Longrightarrow> [] \<notin> set (fst (fold (normal_step a) cs s))"
  by (induction cs arbitrary: s) (simp_all add: normal_step_pieces del: normal_step.simps)

lemma join_with_eq_Nil: "join_with c xs = [] \<longleftrightarrow> xs = [] \<or> xs = [[]]"
  by (cases "(c, xs)" rule: join_with.cases) simp_all

lemma lexically_normal_not_Nil: "p \<noteq> [] \<Longrightarrow> lexically_normal p \<noteq> []"
  using normal_fold_pieces [of "([], False)" "is_absolute p" "split_on slash p"]
  by (auto simp: lexically_normal_def Let_def join_with_eq_Nil split: prod.splits)

lemma filename_no_slash: "slash \<notin> set (filename p)"
  by (auto simp: filename_def dest: set_takeWhileD)

lemma stem_extension: "stem p @ extension p = filename p"
proof -
  let ?f = "filename p"
  let ?t = "takeWhile (\<lambda>c. c \<noteq> dot) (rev ?f)"
  show ?thesis
  proof (cases "?f = ''.'' \<or> ?f = ''..'' \<or> length ?f \<le> length ?t + 1")
    case True
    then have "extension p = []" unfolding extension_def Let_def by (rule if_P)
    then show ?thesis by (simp add: stem_def)
  next
    case False
    then have ext: "extension p = dot # rev ?t" unfolding extension_def Let_def by (rule if_not_P)
    define d where "d = dropWhile (\<lambda>c. c \<noteq> dot) (rev ?f)"
    have split: "rev ?f = ?t @ d" by (simp add: d_def)
    have "d \<noteq> []" using False arg_cong [OF split, of length] by auto
    moreover have "hd d = dot" using \<open>d \<noteq> []\<close> hd_dropWhile unfolding d_def by blast
    ultimately obtain ds where d: "d = dot # ds" by (cases d) simp_all
    define t where "t = rev ?t"
    have f: "?f = rev ds @ dot # t" using arg_cong [OF split, of rev] d by (simp add: t_def)
    have "stem p = take (length ?f - length (dot # t)) ?f"
      by (simp only: stem_def Let_def ext t_def)
    also have "\<dots> = rev ds" by (simp only: f) simp
    finally have "stem p @ extension p = rev ds @ dot # t" by (simp only: ext t_def)
    then show ?thesis by (simp only: f)
  qed
qed

end
