(* ===== verification/ZipNames.thy ===== *)
theory ZipNames
  imports StdPath
begin

section \<open>Member names of ZIP containers\<close>

text \<open>
  Models the name policy of \<^verbatim>\<open>src/extract/container_ingress.cpp\<close>
  (\<^verbatim>\<open>lower_ascii\<close>, \<^verbatim>\<open>windows_reserved_component\<close>,
  \<^verbatim>\<open>safe_relative_name\<close>): which member names may become a relative output path, and the
  normalized spelling. Names are byte strings; the three results the C++ returns by reference
  (accepted, normalized name, ASCII-only) are a triple.
\<close>

definition to_lower :: "char \<Rightarrow> char" where
  "to_lower c = (if 65 \<le> (of_char c :: nat) \<and> (of_char c :: nat) \<le> 90
                 then char_of ((of_char c :: nat) + 32) else c)"

definition lower_ascii :: "string \<Rightarrow> string" where
  "lower_ascii s = map to_lower s"

definition starts_with :: "string \<Rightarrow> string \<Rightarrow> bool" where
  "starts_with pre s \<longleftrightarrow> take (length pre) s = pre"

definition windows_reserved_component :: "string \<Rightarrow> bool" where
  "windows_reserved_component component =
     (let low = lower_ascii component; base = takeWhile (\<lambda>c. c \<noteq> dot) low
      in if base = ''con'' \<or> base = ''prn'' \<or> base = ''aux'' \<or> base = ''nul'' \<or>
            base = ''conin$'' \<or> base = ''conout$'' then True
         else length base = 4 \<and> (starts_with ''com'' base \<or> starts_with ''lpt'' base) \<and>
           49 \<le> (of_char (base ! 3) :: nat) \<and> (of_char (base ! 3) :: nat) \<le> 57)"

abbreviation backslash :: char where "backslash \<equiv> CHR 0x5C"
abbreviation colon :: char where "colon \<equiv> CHR 0x3A"

text \<open>The character scan: refuse control characters and colons, note non-ASCII bytes.\<close>

definition refused_char :: "char \<Rightarrow> bool" where
  "refused_char c \<longleftrightarrow> (of_char c :: nat) < 32 \<or> (of_char c :: nat) = 127 \<or> c = colon"

definition is_ascii :: "char \<Rightarrow> bool" where
  "is_ascii c \<longleftrightarrow> (of_char c :: nat) < 128"

definition slashed :: "char \<Rightarrow> char" where
  "slashed c = (if c = backslash then slash else c)"

fun scan_name :: "string \<Rightarrow> bool \<Rightarrow> string \<Rightarrow> bool \<times> bool \<times> string" where
  "scan_name [] portable tmp = (True, portable, tmp)"
| "scan_name (c # cs) portable tmp =
     (if refused_char c then (False, portable, tmp)
      else scan_name cs (portable \<and> is_ascii c) (tmp @ [slashed c]))"

definition bad_component :: "string \<Rightarrow> bool" where
  "bad_component part \<longleftrightarrow>
     part = [] \<or> part = ''.'' \<or> part = ''..'' \<or> last part = dot \<or> last part = CHR '' '' \<or>
     windows_reserved_component part"

fun collect_parts :: "string list \<Rightarrow> string \<Rightarrow> bool \<times> string" where
  "collect_parts [] normalized = (normalized \<noteq> [], normalized)"
| "collect_parts (part # rest) normalized =
     (if bad_component part then (False, normalized)
      else collect_parts rest
             ((if normalized \<noteq> [] then normalized @ [slash] else normalized) @ part))"

definition safe_relative_name :: "string \<Rightarrow> bool \<Rightarrow> nat \<Rightarrow> bool \<times> string \<times> bool" where
  "safe_relative_name raw directory max_bytes =
     (if raw = [] \<or> max_bytes < length raw \<or> hd raw = slash \<or> hd raw = backslash
      then (False, [], True)
      else
        let (scanned, portable, tmp0) = scan_name raw True [];
            tmp = (if directory then strip_trailing tmp0 else tmp0)
        in if \<not> scanned then (False, [], portable)
           else if tmp = [] then (directory, [], portable)
           else
             let (accepted, normalized) = collect_parts (split_on slash tmp) []
             in (accepted, normalized, portable))"

subsection \<open>What an accepted name looks like\<close>

definition clean_char :: "char \<Rightarrow> bool" where
  "clean_char c \<longleftrightarrow> \<not> refused_char c \<and> c \<noteq> backslash"

definition clean_component :: "string \<Rightarrow> bool" where
  "clean_component part \<longleftrightarrow> \<not> bad_component part \<and> slash \<notin> set part \<and> (\<forall>c \<in> set part. clean_char c)"

lemma clean_slash: "clean_char slash"
  by (simp add: clean_char_def refused_char_def)

lemma clean_slashed: "\<not> refused_char c \<Longrightarrow> clean_char (slashed c)"
  by (cases "c = backslash") (simp_all add: slashed_def clean_slash, simp add: clean_char_def)

lemma slashed_neq: "c \<noteq> slash \<Longrightarrow> c \<noteq> backslash \<Longrightarrow> slashed c \<noteq> slash"
  by (simp add: slashed_def)

lemma scan_name_eq:
  "scan_name cs portable tmp = (True, portable', tmp') \<Longrightarrow>
    tmp' = tmp @ map slashed cs \<and>
    portable' = (portable \<and> (\<forall>c \<in> set cs. is_ascii c)) \<and>
    (\<forall>c \<in> set cs. \<not> refused_char c)"
  by (induction cs portable tmp rule: scan_name.induct) (auto split: if_splits)

lemma scan_name_accepts:
  "\<forall>c \<in> set cs. \<not> refused_char c \<Longrightarrow>
    scan_name cs portable tmp =
      (True, portable \<and> (\<forall>c \<in> set cs. is_ascii c),
       tmp @ map slashed cs)"
  by (induction cs portable tmp rule: scan_name.induct) auto

lemma collect_parts_eq:
  "parts \<noteq> [] \<Longrightarrow> collect_parts parts normalized = (True, result) \<Longrightarrow>
    result = (if normalized \<noteq> [] then normalized @ slash # join_with slash parts
              else join_with slash parts) \<and>
    (\<forall>p \<in> set parts. \<not> bad_component p)"
proof (induction parts normalized rule: collect_parts.induct)
  case (2 part rest normalized)
  have ok: "\<not> bad_component part" using "2.prems" by (simp split: if_splits)
  then have ne: "part \<noteq> []" by (auto simp: bad_component_def)
  show ?case
  proof (cases "rest = []")
    case True
    then show ?thesis using "2.prems" ok by auto
  next
    case False
    from "2.IH" [OF ok False] "2.prems" ok ne show ?thesis
      using join_with_Cons [OF False, of slash part] by auto
  qed
qed simp

lemma collect_parts_accepts:
  "\<forall>p \<in> set parts. \<not> bad_component p \<Longrightarrow> parts \<noteq> [] \<or> normalized \<noteq> [] \<Longrightarrow>
    fst (collect_parts parts normalized)"
proof (induction parts normalized rule: collect_parts.induct)
  case (2 part rest normalized)
  then have "part \<noteq> []" by (auto simp: bad_component_def)
  with 2 show ?case by simp
qed simp

lemma set_strip_trailing: "set (strip_trailing s) \<subseteq> set s"
  unfolding strip_trailing_def by (metis set_dropWhileD set_rev subsetI)

lemma hd_strip_trailing: "s \<noteq> [] \<Longrightarrow> hd s \<noteq> slash \<Longrightarrow> strip_trailing s \<noteq> [] \<and> hd (strip_trailing s) = hd s"
proof (induction s rule: rev_induct)
  case (snoc x xs)
  then show ?case by (cases xs) (auto simp: strip_trailing_def)
qed simp

lemma safe_relative_name_scanned:
  assumes "raw \<noteq> []" "length raw \<le> max_bytes" "hd raw \<noteq> slash" "hd raw \<noteq> backslash"
    and "scan_name raw True [] = (True, portable, tmp0)"
    and "(if directory then strip_trailing tmp0 else tmp0) = tmp" and "tmp \<noteq> []"
  shows "safe_relative_name raw directory max_bytes =
    (fst (collect_parts (split_on slash tmp) []), snd (collect_parts (split_on slash tmp) []), portable)"
  using assms by (simp add: safe_relative_name_def Let_def split: prod.splits)

text \<open>
  An accepted name is a non-empty list of clean components joined by separators.
\<close>

lemma safe_relative_name_components:
  assumes "safe_relative_name raw directory max_bytes = (True, normalized, portable)"
  obtains parts where "parts \<noteq> []" and "normalized = join_with slash parts"
    and "\<forall>p \<in> set parts. clean_component p"
    and "portable \<longleftrightarrow> (\<forall>c \<in> set raw. is_ascii c)"
    and "length normalized \<le> length raw" and "length raw \<le> max_bytes"
proof -
  obtain ok tmp0 where scan: "scan_name raw True [] = (ok, portable, tmp0)"
    and raw: "raw \<noteq> []" "length raw \<le> max_bytes" "hd raw \<noteq> slash" "hd raw \<noteq> backslash"
    using assms by (auto simp: safe_relative_name_def Let_def split: if_splits prod.splits)
  have ok: "ok" using assms scan raw by (auto simp: safe_relative_name_def Let_def split: if_splits)
  from scan_name_eq [OF scan [unfolded ok [THEN eqTrueI]]]
  have tmp0: "tmp0 = map slashed raw" and port: "portable = (\<forall>c \<in> set raw. is_ascii c)"
    and clean: "\<forall>c \<in> set raw. \<not> refused_char c"
    by auto
  define tmp where "tmp = (if directory then strip_trailing tmp0 else tmp0)"
  have hd0: "hd tmp0 \<noteq> slash" using raw slashed_neq by (simp add: tmp0 hd_map)
  have ne: "tmp \<noteq> []" using hd_strip_trailing [of tmp0] hd0 raw by (simp add: tmp_def tmp0)
  have "collect_parts (split_on slash tmp) [] = (True, normalized)"
    using safe_relative_name_scanned
        [OF raw scan [unfolded ok [THEN eqTrueI]] tmp_def [symmetric] ne] assms
    by (simp add: prod_eq_iff)
  from collect_parts_eq [OF split_on_not_Nil this]
  have norm: "normalized = join_with slash (split_on slash tmp)"
    and good: "\<forall>p \<in> set (split_on slash tmp). \<not> bad_component p" by auto
  have chars: "clean_char c" if "c \<in> set tmp0" for c
    using that clean clean_slashed unfolding tmp0 by auto
  have sub: "set tmp \<subseteq> set tmp0" unfolding tmp_def using set_strip_trailing by auto
  have "clean_component p" if "p \<in> set (split_on slash tmp)" for p
    using that good split_on_free [OF that] split_on_subset [OF that] sub chars
    unfolding clean_component_def by blast
  moreover have "length tmp \<le> length raw"
    by (auto simp: tmp_def tmp0 strip_trailing_def intro: order_trans [OF length_dropWhile_le])
  ultimately show ?thesis
    using that [OF split_on_not_Nil norm] port raw(2) norm by (simp add: join_split)
qed

subsection \<open>Accepted names are fixed points of the policy\<close>

lemma clean_component_ne: "clean_component p \<Longrightarrow> p \<noteq> []"
  by (auto simp: clean_component_def bad_component_def)

lemma join_clean_chars:
  "\<forall>p \<in> set parts. clean_component p \<Longrightarrow> c \<in> set (join_with slash parts) \<Longrightarrow> clean_char c"
  by (induction slash parts rule: join_with.induct)
    (auto simp: clean_component_def intro: clean_slash)

lemma join_clean_hd:
  "\<forall>p \<in> set parts. clean_component p \<Longrightarrow> parts \<noteq> [] \<Longrightarrow>
    join_with slash parts \<noteq> [] \<and> hd (join_with slash parts) \<noteq> slash"
proof (induction slash parts rule: join_with.induct)
  case (2 x)
  then have "x \<noteq> []" "slash \<notin> set x" by (auto simp: clean_component_ne clean_component_def)
  then show ?case using hd_in_set by fastforce
next
  case (3 x y zs)
  then have "x \<noteq> []" "slash \<notin> set x" by (auto simp: clean_component_ne clean_component_def)
  then show ?case using hd_in_set by fastforce
qed simp

lemma join_clean_last:
  "\<forall>p \<in> set parts. clean_component p \<Longrightarrow> parts \<noteq> [] \<Longrightarrow> last (join_with slash parts) \<noteq> slash"
proof (induction slash parts rule: join_with.induct)
  case (2 x)
  then have "x \<noteq> []" "slash \<notin> set x" by (auto simp: clean_component_ne clean_component_def)
  then show ?case using last_in_set by fastforce
next
  case (3 x y zs)
  have "join_with slash (y # zs) \<noteq> []" using join_clean_hd [of "y # zs"] "3.prems" by simp
  with 3 show ?case by simp
qed simp

lemma strip_trailing_id: "s \<noteq> [] \<Longrightarrow> last s \<noteq> slash \<Longrightarrow> strip_trailing s = s"
  by (cases s rule: rev_cases) (simp_all add: strip_trailing_def)

lemma fold_normal_clean:
  "\<forall>p \<in> set parts. clean_component p \<Longrightarrow>
    fold (normal_step a) parts (kept, False) = (rev parts @ kept, False)"
  by (induction parts arbitrary: kept) (auto simp: clean_component_def bad_component_def)

lemma lexically_normal_clean:
  assumes clean: "\<forall>p \<in> set parts. clean_component p" and ne: "parts \<noteq> []"
  shows "lexically_normal (join_with slash parts) = join_with slash parts"
    and "\<not> is_absolute (join_with slash parts)"
proof -
  let ?n = "join_with slash parts"
  have n: "?n \<noteq> []" "hd ?n \<noteq> slash" using join_clean_hd [OF clean ne] by auto
  then show rel: "\<not> is_absolute ?n" by (auto simp: is_absolute_def split: list.splits)
  have "split_on slash ?n = parts"
    using ne clean by (intro split_join) (auto simp: clean_component_def)
  then show "lexically_normal ?n = ?n"
    using n(1) rel ne by (simp add: lexically_normal_def fold_normal_clean [OF clean])
qed

lemma slashed_clean: "clean_char c \<Longrightarrow> slashed c = c"
  by (simp add: clean_char_def slashed_def)

lemma clean_not_refused: "clean_char c \<Longrightarrow> \<not> refused_char c \<and> c \<noteq> backslash"
  by (simp add: clean_char_def)

lemma safe_relative_name_clean:
  assumes clean: "\<forall>p \<in> set parts. clean_component p" and ne: "parts \<noteq> []"
    and fits: "length (join_with slash parts) \<le> max_bytes"
  shows "safe_relative_name (join_with slash parts) directory max_bytes =
    (True, join_with slash parts, \<forall>c \<in> set (join_with slash parts). is_ascii c)"
proof -
  let ?n = "join_with slash parts"
  have n: "?n \<noteq> []" "hd ?n \<noteq> slash" using join_clean_hd [OF clean ne] by auto
  have chars: "clean_char c" if "c \<in> set ?n" for c using join_clean_chars [OF clean that] .
  have hb: "hd ?n \<noteq> backslash" using chars [OF hd_in_set [OF n(1)]] clean_not_refused by blast
  have "map slashed ?n = ?n" using chars slashed_clean by (simp add: map_idI)
  then have scan: "scan_name ?n True [] = (True, \<forall>c \<in> set ?n. is_ascii c, ?n)"
    using scan_name_accepts [of ?n True "[]"] chars clean_not_refused by auto
  have strip: "(if directory then strip_trailing ?n else ?n) = ?n"
    using strip_trailing_id [OF n(1) join_clean_last [OF clean ne]] by simp
  have split: "split_on slash ?n = parts"
    using ne clean by (intro split_join) (auto simp: clean_component_def)
  have fc: "fst (collect_parts parts [])"
    using clean ne by (intro collect_parts_accepts) (auto simp: clean_component_def)
  obtain r where r: "collect_parts parts [] = (True, r)" using fc by (cases "collect_parts parts []") auto
  have "collect_parts parts [] = (True, ?n)" using collect_parts_eq [OF ne r] r by simp
  then show ?thesis
    using safe_relative_name_scanned [OF n(1) fits n(2) hb scan strip n(1)] split by simp
qed

subsection \<open>Properties\<close>

text \<open>C5: A member name that the policy accepts cannot leave the output directory: the normalized name is a
  relative path that is its own lexical normal form, within the length budget, made of components that
  are neither empty nor dot nor parent references nor reserved device names, without backslashes,
  colons or control characters.\<close>

theorem accepted_name_cannot_escape:
  assumes "safe_relative_name raw directory max_bytes = (True, normalized, portable)"
  shows "\<not> is_absolute normalized \<and> lexically_normal normalized = normalized \<and>
    0 < length normalized \<and> length normalized \<le> max_bytes \<and>
    (\<forall>part \<in> set (split_on slash normalized).
       part \<noteq> [] \<and> part \<noteq> ''.'' \<and> part \<noteq> ''..'' \<and> \<not> windows_reserved_component part \<and>
       (\<forall>c \<in> set part. \<not> refused_char c \<and> c \<noteq> backslash))"
proof -
  obtain parts where parts: "parts \<noteq> []" "normalized = join_with slash parts"
    "\<forall>p \<in> set parts. clean_component p" "length normalized \<le> max_bytes"
    using safe_relative_name_components [OF assms] by (metis order_trans)
  have "split_on slash normalized = parts"
    using parts by (simp add: split_join clean_component_def)
  moreover have "normalized \<noteq> []" using join_clean_hd [OF parts(3,1)] parts(2) by simp
  ultimately show ?thesis
    using lexically_normal_clean [OF parts(3,1)] parts clean_not_refused
    by (auto simp: clean_component_def bad_component_def)
qed

text \<open>Normalization is stable: an accepted name, presented again in its normalized spelling as a file or
  as a directory, is accepted unchanged, so the path that is checked for collisions is the path that is
  written.\<close>

lemma accepted_name_stable:
  assumes "safe_relative_name raw directory max_bytes = (True, normalized, portable)"
  shows "\<exists>portable'. safe_relative_name normalized directory' max_bytes = (True, normalized, portable')"
proof -
  obtain parts where "parts \<noteq> []" "normalized = join_with slash parts"
    "\<forall>p \<in> set parts. clean_component p" "length normalized \<le> max_bytes"
    using safe_relative_name_components [OF assms] by (metis order_trans)
  then show ?thesis using safe_relative_name_clean by blast
qed

lemma sample_name_accepted:
  "safe_relative_name [CHR ''a'', backslash, CHR ''b'', dot, CHR ''c''] False 4096 =
    (True, ''a/b.c'', True)"
  by (simp add: safe_relative_name_def refused_char_def slashed_def is_ascii_def bad_component_def
      windows_reserved_component_def lower_ascii_def to_lower_def starts_with_def)

theorem accepted_name_cannot_escape_witness: "lexically_normal ''a/b.c'' = ''a/b.c''"
  using accepted_name_cannot_escape [OF sample_name_accepted] by blast

lemma accepted_name_stable_witness:
  "\<exists>p. safe_relative_name ''a/b.c'' True 4096 = (True, ''a/b.c'', p)"
  by (rule accepted_name_stable [OF sample_name_accepted])

end
