(* ===== verification/Hashing.thy ===== *)
theory Hashing
  imports Prelude
begin

section \<open>Message digests: SHA-1, SHA-256, HMAC and PBKDF2\<close>

text \<open>
  Models \<^verbatim>\<open>src/core/sha1.cpp\<close> and \<^verbatim>\<open>src/core/sha256.cpp\<close>. Both files keep a
  64-byte buffer, a fill count and a byte counter, absorb the input in pieces and pad at the end.
  The stream state is one record, polymorphic in the chaining value. The locale \<open>md_hash\<close>
  holds the contract of that buffering (any way of cutting the input into pieces gives the digest
  of the whole, which is the padded-block fold of FIPS 180-4), and is interpreted on both
  compression functions.
\<close>

subsection \<open>The buffered stream\<close>

record 'h md_stream =
  md_h :: 'h
  md_buf :: bytes
  md_used :: nat
  md_bytes :: nat

definition md_start :: "'h \<Rightarrow> 'h md_stream" where
  "md_start h0 = \<lparr>md_h = h0, md_buf = replicate 64 0, md_used = 0, md_bytes = 0\<rparr>"

text \<open>\<open>std::copy_n\<close> into the buffer at an index.\<close>

definition overwrite :: "'a list \<Rightarrow> nat \<Rightarrow> 'a list \<Rightarrow> 'a list" where
  "overwrite buf i xs = take i buf @ xs @ drop (i + length xs) buf"

text \<open>
  The loop of \<open>update\<close>: it ends only because a full buffer is emptied at once, so the model
  is a partial function and its termination is proved below.
\<close>

partial_function (option) md_absorb ::
  "('h \<Rightarrow> bytes \<Rightarrow> 'h) \<Rightarrow> bytes \<Rightarrow> nat \<Rightarrow> 'h md_stream \<Rightarrow> 'h md_stream option" where
  "md_absorb blk d p s =
     (if p < length d then
        (let n = min (64 - md_used s) (length d - p);
             s1 = s\<lparr>md_buf := overwrite (md_buf s) (md_used s) (take n (drop p d)),
                    md_used := md_used s + n\<rparr>;
             s2 = (if md_used s1 = 64
                   then s1\<lparr>md_h := blk (md_h s1) (md_buf s1), md_used := 0\<rparr> else s1)
         in md_absorb blk d (p + n) s2)
      else Some s)"

declare md_absorb.simps [code]

definition md_update :: "('h \<Rightarrow> bytes \<Rightarrow> 'h) \<Rightarrow> bytes \<Rightarrow> 'h md_stream \<Rightarrow> 'h md_stream option" where
  "md_update blk d s = md_absorb blk d 0 (s\<lparr>md_bytes := wrap64 (md_bytes s + length d)\<rparr>)"

definition md_put :: "byte \<Rightarrow> 'h md_stream \<Rightarrow> 'h md_stream" where
  "md_put b s = s\<lparr>md_buf := (md_buf s)[md_used s := b], md_used := md_used s + 1\<rparr>"

lemma md_used_put [simp]: "md_used (md_put b s) = Suc (md_used s)"
  by (simp add: md_put_def)

function md_zero_to :: "nat \<Rightarrow> 'h md_stream \<Rightarrow> 'h md_stream" where
  "md_zero_to k s = (if md_used s < k then md_zero_to k (md_put 0 s) else s)"
  by pat_completeness auto
termination
  by (relation "measure (\<lambda>(k, s). k - md_used s)") auto

declare md_zero_to.simps [simp del]

definition md_flush :: "('h \<Rightarrow> bytes \<Rightarrow> 'h) \<Rightarrow> 'h md_stream \<Rightarrow> 'h md_stream" where
  "md_flush blk s = s\<lparr>md_h := blk (md_h s) (md_buf s), md_used := 0\<rparr>"

text \<open>The eight length bytes, most significant first.\<close>

definition be64_bytes :: "nat \<Rightarrow> bytes" where
  "be64_bytes n = map (\<lambda>i. word_of_nat (drop_bit (i * 8) n)) [7, 6, 5, 4, 3, 2, 1, 0]"

definition md_finish :: "('h \<Rightarrow> bytes \<Rightarrow> 'h) \<Rightarrow> 'h md_stream \<Rightarrow> 'h" where
  "md_finish blk s =
     (let bits = wrap64 (md_bytes s * 8);
          s1 = md_put 0x80 s;
          s2 = (if 56 < md_used s1 then md_flush blk (md_zero_to 64 s1) else s1);
          s3 = md_zero_to 56 s2;
          s4 = fold md_put (be64_bytes bits) s3
      in blk (md_h s4) (md_buf s4))"

subsection \<open>The padded-block specification\<close>

fun full_blocks :: "nat \<Rightarrow> 'a list \<Rightarrow> 'a list list" where
  "full_blocks k xs =
     (if k = 0 \<or> length xs < k then [] else take k xs # full_blocks k (drop k xs))"

declare full_blocks.simps [simp del]

definition md_padding :: "nat \<Rightarrow> bytes" where
  "md_padding len = 0x80 # replicate ((119 - len mod 64) mod 64) 0 @ be64_bytes (wrap64 (len * 8))"

definition md_spec :: "('h \<Rightarrow> bytes \<Rightarrow> 'h) \<Rightarrow> 'h \<Rightarrow> bytes \<Rightarrow> 'h" where
  "md_spec blk h0 xs = foldl blk h0 (full_blocks 64 (xs @ md_padding (length xs)))"

text \<open>The stream holds the input \<open>xs\<close>: whole blocks compressed, the rest buffered.\<close>

definition md_holds :: "('h \<Rightarrow> bytes \<Rightarrow> 'h) \<Rightarrow> 'h \<Rightarrow> bytes \<Rightarrow> 'h md_stream \<Rightarrow> bool" where
  "md_holds blk h0 xs s \<longleftrightarrow>
     length (md_buf s) = 64 \<and> md_used s = length xs mod 64 \<and>
     take (md_used s) (md_buf s) = drop (length xs - md_used s) xs \<and>
     md_h s = foldl blk h0 (full_blocks 64 xs)"

lemma full_blocks_short: "length xs < k \<Longrightarrow> full_blocks k xs = []"
  by (subst full_blocks.simps) simp

lemma full_blocks_one: "0 < k \<Longrightarrow> length xs = k \<Longrightarrow> full_blocks k xs = [xs]"
  by (subst full_blocks.simps) (simp add: full_blocks_short)

lemma full_blocks_Cons:
  "0 < k \<Longrightarrow> length b = k \<Longrightarrow> full_blocks k (b @ xs) = b # full_blocks k xs"
  by (subst full_blocks.simps) simp

lemma full_blocks_append:
  assumes "0 < k"
  shows "full_blocks k (xs @ ys) =
    full_blocks k xs @ full_blocks k (drop (length xs - length xs mod k) xs @ ys)"
proof (induction xs rule: length_induct)
  case (1 xs)
  show ?case
  proof (cases "length xs < k")
    case True
    then show ?thesis by (simp add: full_blocks_short)
  next
    case False
    let ?t = "drop k xs"
    from False assms have lt: "length ?t < length xs" by simp
    have split: "xs = take k xs @ ?t" by simp
    have len: "length (take k xs) = k" using False by simp
    have cut: "drop (length ?t - length ?t mod k) ?t = drop (length xs - length xs mod k) xs"
    proof -
      have "length xs mod k = length ?t mod k"
        using le_mod_geq [of k "length xs"] False by simp
      moreover have "length ?t mod k \<le> length ?t" and "length ?t = length xs - k"
        by simp_all
      ultimately have "length ?t - length ?t mod k + k = length xs - length xs mod k"
        using False by linarith
      then show ?thesis by simp
    qed
    have "full_blocks k (xs @ ys) = take k xs # full_blocks k (?t @ ys)"
      using full_blocks_Cons [OF assms len, of "?t @ ys"] split by (metis append.assoc)
    moreover have "full_blocks k (?t @ ys) =
      full_blocks k ?t @ full_blocks k (drop (length xs - length xs mod k) xs @ ys)"
      using 1 lt cut by metis
    moreover have "take k xs # full_blocks k ?t = full_blocks k xs"
      using full_blocks_Cons [OF assms len, of ?t] split by metis
    ultimately show ?thesis by simp
  qed
qed

subsection \<open>Absorbing keeps the representation\<close>

lemma length_overwrite:
  "i + length xs \<le> length buf \<Longrightarrow> length (overwrite buf i xs) = length buf"
  by (simp add: overwrite_def)

lemma md_holdsD:
  assumes "md_holds blk h0 xs s"
  shows "length (md_buf s) = 64" and "md_used s = length xs mod 64"
    and "take (md_used s) (md_buf s) = drop (length xs - md_used s) xs"
    and "md_h s = foldl blk h0 (full_blocks 64 xs)"
  using assms unfolding md_holds_def by blast+

lemma md_holds_count [simp]: "md_holds blk h0 xs (s\<lparr>md_bytes := n\<rparr>) = md_holds blk h0 xs s"
  by (simp add: md_holds_def)

lemma md_holds_start: "md_holds blk h0 [] (md_start h0)"
  by (simp add: md_holds_def md_start_def full_blocks_short)

lemma md_holds_piece:
  assumes holds: "md_holds blk h0 xs s"
    and fit: "md_used s + length t \<le> 64"
    and s1: "s1 = s\<lparr>md_buf := overwrite (md_buf s) (md_used s) t, md_used := md_used s + length t\<rparr>"
  shows "md_holds blk h0 (xs @ t)
    (if md_used s1 = 64 then s1\<lparr>md_h := blk (md_h s1) (md_buf s1), md_used := 0\<rparr> else s1)"
proof -
  define rest where "rest = drop (length xs - md_used s) xs"
  from md_holdsD [OF holds] have buf: "length (md_buf s) = 64"
    and used: "md_used s = length xs mod 64"
    and held: "take (md_used s) (md_buf s) = rest" and h: "md_h s = foldl blk h0 (full_blocks 64 xs)"
    unfolding rest_def by blast+
  have lrest: "length rest = md_used s" using used by (simp add: rest_def)
  have blocks: "full_blocks 64 (xs @ t) = full_blocks 64 xs @ full_blocks 64 (rest @ t)"
    using full_blocks_append [of 64 xs t] used by (simp add: rest_def)
  have buf1: "md_buf s1 = rest @ t @ drop (md_used s + length t) (md_buf s)"
    by (simp add: s1 overwrite_def held)
  have modl: "(length xs + length t) mod 64 = (md_used s + length t) mod 64"
    using used by (simp add: mod_add_left_eq)
  show ?thesis
  proof (cases "md_used s + length t = 64")
    case True
    then have "md_buf s1 = rest @ t" using buf buf1 by simp
    moreover have "full_blocks 64 (rest @ t) = [rest @ t]"
      using True lrest by (simp add: full_blocks_one)
    ultimately show ?thesis
      using True buf modl lrest h blocks by (simp add: md_holds_def s1)
  next
    case False
    then have lt: "md_used s + length t < 64" using fit by simp
    then have "full_blocks 64 (rest @ t) = []" using lrest by (simp add: full_blocks_short)
    moreover have "drop (length xs + length t - (md_used s + length t)) (xs @ t) = rest @ t"
      using used by (simp add: rest_def)
    moreover have "length (md_buf s1) = 64" using buf buf1 lrest fit by simp
    moreover have "take (md_used s + length t) (md_buf s1) = rest @ t"
      using buf1 lrest by simp
    ultimately show ?thesis
      using lt modl h blocks False by (simp add: md_holds_def s1)
  qed
qed

lemma md_absorb_holds:
  "md_holds blk h0 xs s \<Longrightarrow>
    \<exists>s'. md_absorb blk d p s = Some s' \<and> md_holds blk h0 (xs @ drop p d) s' \<and>
      md_bytes s' = md_bytes s"
proof (induction "length d - p" arbitrary: p s xs rule: less_induct)
  case less
  show ?case
  proof (cases "p < length d")
    case False
    then show ?thesis using less.prems by (simp add: md_absorb.simps)
  next
    case True
    define n where "n = min (64 - md_used s) (length d - p)"
    define t where "t = take n (drop p d)"
    define s1 where "s1 = s\<lparr>md_buf := overwrite (md_buf s) (md_used s) t, md_used := md_used s + n\<rparr>"
    define s2 where "s2 = (if md_used s1 = 64
      then s1\<lparr>md_h := blk (md_h s1) (md_buf s1), md_used := 0\<rparr> else s1)"
    have used: "md_used s < 64" using less.prems by (simp add: md_holds_def)
    have lt: "length t = n" by (simp add: t_def n_def)
    have pos: "0 < n" using True used by (simp add: n_def)
    have fit: "md_used s + length t \<le> 64" using used lt by (simp add: n_def)
    have holds: "md_holds blk h0 (xs @ t) s2"
      using md_holds_piece [OF less.prems fit, of s1] lt unfolding s2_def by (simp add: s1_def)
    have dec: "length d - (p + n) < length d - p" using True pos by simp
    have step: "md_absorb blk d p s = md_absorb blk d (p + n) s2"
      using True by (subst md_absorb.simps) (simp add: Let_def n_def t_def s1_def s2_def)
    have rest: "t @ drop (p + n) d = drop p d"
      using append_take_drop_id [of n "drop p d"] by (simp add: t_def add.commute)
    have cnt: "md_bytes s2 = md_bytes s" by (simp add: s2_def s1_def)
    from less.hyps [OF dec holds] show ?thesis
      unfolding step using rest cnt by (metis append.assoc)
  qed
qed

lemma md_update_holds:
  assumes "md_holds blk h0 xs s" and "md_bytes s = wrap64 (length xs)"
  shows "\<exists>s'. md_update blk d s = Some s' \<and> md_holds blk h0 (xs @ d) s' \<and>
    md_bytes s' = wrap64 (length (xs @ d))"
proof -
  let ?s = "s\<lparr>md_bytes := wrap64 (md_bytes s + length d)\<rparr>"
  have "md_holds blk h0 xs ?s" using assms(1) by simp
  from md_absorb_holds [OF this, of d 0] show ?thesis
    using assms(2) by (auto simp: md_update_def wrap64_def mod_add_left_eq)
qed

subsection \<open>Padding completes the last blocks\<close>

text \<open>The same representation with a buffer that may be full.\<close>

definition md_raw :: "('h \<Rightarrow> bytes \<Rightarrow> 'h) \<Rightarrow> 'h \<Rightarrow> bytes \<Rightarrow> 'h md_stream \<Rightarrow> bool" where
  "md_raw blk h0 xs s \<longleftrightarrow>
     length (md_buf s) = 64 \<and> md_used s \<le> 64 \<and>
     (\<exists>ys. xs = ys @ take (md_used s) (md_buf s) \<and> length ys mod 64 = 0 \<and>
       md_h s = foldl blk h0 (full_blocks 64 ys))"

lemma md_holds_raw:
  assumes "md_holds blk h0 xs s"
  shows "md_raw blk h0 xs s"
proof -
  let ?ys = "take (length xs - md_used s) xs"
  note d = md_holdsD [OF assms]
  have xs: "xs = ?ys @ take (md_used s) (md_buf s)" using d(3) by simp
  have len: "length ?ys mod 64 = 0"
    using d(2) by (simp add: minus_mod_eq_mult_div)
  have "full_blocks 64 xs = full_blocks 64 ?ys"
    using full_blocks_append [of 64 ?ys "drop (length xs - md_used s) xs"] len d(2)
    by (simp add: full_blocks_short)
  then show ?thesis using xs len d(1,2,4) unfolding md_raw_def by auto
qed

lemma md_raw_put:
  assumes "md_raw blk h0 xs s" and "md_used s < 64"
  shows "md_raw blk h0 (xs @ [b]) (md_put b s)"
  using assms unfolding md_raw_def md_put_def by (auto simp: take_Suc_conv_app_nth)

lemma md_raw_fold_put:
  "md_raw blk h0 xs s \<Longrightarrow> md_used s + length ys \<le> 64 \<Longrightarrow>
    md_raw blk h0 (xs @ ys) (fold md_put ys s) \<and>
    md_used (fold md_put ys s) = md_used s + length ys"
proof (induction ys arbitrary: xs s)
  case (Cons y ys)
  have "md_raw blk h0 (xs @ [y]) (md_put y s)" using Cons.prems by (intro md_raw_put) simp_all
  from Cons.IH [OF this] Cons.prems show ?case by simp
qed simp

lemma md_zero_to_fold: "md_zero_to k s = fold md_put (replicate (k - md_used s) 0) s"
proof (induction k s rule: md_zero_to.induct)
  case (1 k s)
  show ?case
  proof (cases "md_used s < k")
    case True
    then have "replicate (k - md_used s) (0::byte) = 0 # replicate (k - md_used (md_put 0 s)) 0"
      by (simp add: Suc_diff_Suc flip: replicate_Suc)
    with 1 True show ?thesis by (simp add: md_zero_to.simps [of k s])
  qed (simp add: md_zero_to.simps [of k s])
qed

lemma md_raw_flush:
  assumes "md_raw blk h0 xs s" and "md_used s = 64"
  shows "md_raw blk h0 xs (md_flush blk s)" and "md_used (md_flush blk s) = 0"
    and "blk (md_h s) (md_buf s) = foldl blk h0 (full_blocks 64 xs)"
proof -
  from assms obtain ys where buf: "length (md_buf s) = 64" and xs: "xs = ys @ md_buf s"
    and len: "length ys mod 64 = 0" and h: "md_h s = foldl blk h0 (full_blocks 64 ys)"
    by (auto simp: md_raw_def)
  have "full_blocks 64 xs = full_blocks 64 ys @ [md_buf s]"
    using full_blocks_append [of 64 ys "md_buf s"] len buf xs by (simp add: full_blocks_one)
  then show eq: "blk (md_h s) (md_buf s) = foldl blk h0 (full_blocks 64 xs)" by (simp add: h)
  have "length xs mod 64 = 0" using xs len buf by simp
  then show "md_raw blk h0 xs (md_flush blk s)"
    using eq buf by (simp add: md_raw_def md_flush_def)
  show "md_used (md_flush blk s) = 0" by (simp add: md_flush_def)
qed

lemma length_be64_bytes [simp]: "length (be64_bytes n) = 8"
  by (simp add: be64_bytes_def)

lemma md_raw_tail:
  fixes n :: nat
  assumes "md_raw blk h0 xs s" and "md_used s \<le> 56"
    and s'_def: "s' = fold md_put (be64_bytes n) (md_zero_to 56 s)"
  shows "blk (md_h s') (md_buf s') =
    foldl blk h0 (full_blocks 64 (xs @ replicate (56 - md_used s) 0 @ be64_bytes n))"
proof -
  have z: "md_raw blk h0 (xs @ replicate (56 - md_used s) 0) (md_zero_to 56 s)"
    "md_used (md_zero_to 56 s) = 56"
    using md_raw_fold_put [OF assms(1), of "replicate (56 - md_used s) 0"] assms(2)
    by (simp_all add: md_zero_to_fold)
  from md_raw_fold_put [OF z(1), of "be64_bytes n"] z(2)
  have "md_raw blk h0 ((xs @ replicate (56 - md_used s) 0) @ be64_bytes n) s'"
    and "md_used s' = 64" by (simp_all add: s'_def)
  from md_raw_flush(3) [OF this] show ?thesis by simp
qed

lemma md_finish_spec:
  assumes holds: "md_holds blk h0 xs s" and cnt: "md_bytes s = wrap64 (length xs)"
  shows "md_finish blk s = md_spec blk h0 xs"
proof -
  define r where "r = length xs mod 64"
  define bits where "bits = wrap64 (md_bytes s * 8)"
  define s1 where "s1 = md_put 0x80 s"
  have used: "md_used s = r" and r64: "r < 64" using md_holdsD(2) [OF holds] by (simp_all add: r_def)
  have bits: "bits = wrap64 (length xs * 8)"
    by (simp add: bits_def cnt wrap64_def mod_mult_left_eq)
  have raw1: "md_raw blk h0 (xs @ [0x80]) s1" unfolding s1_def
    using md_holds_raw [OF holds] used r64 by (intro md_raw_put) simp_all
  have used1: "md_used s1 = Suc r" by (simp add: s1_def used)
  show ?thesis
  proof (cases "56 < md_used s1")
    case False
    then have "(119 - r) mod 64 = 55 - r" using used1
      by (simp add: le_mod_geq)
    then have pad: "md_padding (length xs) = 0x80 # replicate (55 - r) 0 @ be64_bytes bits"
      by (simp add: md_padding_def bits flip: r_def)
    from md_raw_tail [OF raw1 _ refl, of bits] False used1 show ?thesis
      by (simp add: md_finish_def Let_def md_spec_def pad flip: s1_def bits_def)
  next
    case True
    let ?z = "md_zero_to 64 s1"
    have z: "md_raw blk h0 ((xs @ [0x80]) @ replicate (63 - r) 0) ?z" "md_used ?z = 64"
      using md_raw_fold_put [OF raw1, of "replicate (63 - r) 0"] used1 r64
      by (simp_all add: md_zero_to_fold)
    have "(119 - r) mod 64 = (63 - r) + 56" using True used1 r64 by simp
    then have pad: "md_padding (length xs) =
      0x80 # replicate (63 - r) 0 @ replicate 56 0 @ be64_bytes bits"
      by (simp only: md_padding_def bits r_def replicate_add append_assoc)
    from md_raw_tail [OF md_raw_flush(1) [OF z] _ refl, of bits] md_raw_flush(2) [OF z] True show ?thesis
      by (simp add: md_finish_def Let_def md_spec_def pad flip: s1_def bits_def)
  qed
qed

subsection \<open>The contract of a digest\<close>

text \<open>
  The operations a file offers: the digest of one span (\<^verbatim>\<open>shaN_bytes\<close>) and of a list of
  spans (\<^verbatim>\<open>shaN_parts\<close>), both by one stream; \<open>emit\<close> renders the chaining value.
\<close>

definition md_digest :: "('h \<Rightarrow> bytes \<Rightarrow> 'h) \<Rightarrow> 'h \<Rightarrow> ('h \<Rightarrow> 'd) \<Rightarrow> bytes list \<Rightarrow> 'd option" where
  "md_digest blk h0 emit parts =
     map_option (\<lambda>s. emit (md_finish blk s))
       (fold (\<lambda>d r. Option.bind r (md_update blk d)) parts (Some (md_start h0)))"

lemma md_parts_hold:
  "md_holds blk h0 xs s \<Longrightarrow> md_bytes s = wrap64 (length xs) \<Longrightarrow>
    \<exists>s'. fold (\<lambda>d r. Option.bind r (md_update blk d)) parts (Some s) = Some s' \<and>
      md_holds blk h0 (xs @ concat parts) s' \<and> md_bytes s' = wrap64 (length (xs @ concat parts))"
proof (induction parts arbitrary: xs s)
  case (Cons d parts)
  from md_update_holds [OF Cons.prems] obtain s1 where
    "md_update blk d s = Some s1" and "md_holds blk h0 (xs @ d) s1"
    and "md_bytes s1 = wrap64 (length (xs @ d))" by blast
  with Cons.IH [of "xs @ d" s1] show ?case by simp
qed simp

lemma md_digest_spec: "md_digest blk h0 emit parts = Some (emit (md_spec blk h0 (concat parts)))"
proof -
  have "md_bytes (md_start h0) = wrap64 (length ([] :: bytes))" by (simp add: md_start_def)
  from md_parts_hold [OF md_holds_start this, of blk parts] obtain s where
    s: "fold (\<lambda>d r. Option.bind r (md_update blk d)) parts (Some (md_start h0)) = Some s"
    and holds: "md_holds blk h0 (concat parts) s"
    and cnt: "md_bytes s = wrap64 (length (concat parts))" by auto
  show ?thesis using md_finish_spec [OF holds cnt] by (simp add: md_digest_def s)
qed

locale md_hash =
  fixes one_shot :: "bytes \<Rightarrow> 'd option"
    and in_parts :: "bytes list \<Rightarrow> 'd option"
    and reference :: "bytes \<Rightarrow> 'd"
    and good :: "'d \<Rightarrow> bool"
  assumes one_shot_ref: "one_shot xs = Some (reference xs)"
    and in_parts_ref: "in_parts ps = Some (reference (concat ps))"
    and reference_good: "good (reference xs)"
begin

lemma one_shot_total: "\<exists>d. one_shot xs = Some d \<and> good d"
  using one_shot_ref reference_good by auto

lemma cut_independent: "concat ps = concat qs \<Longrightarrow> in_parts ps = in_parts qs"
  by (simp add: in_parts_ref)

lemma parts_one_shot: "in_parts ps = one_shot (concat ps)"
  by (simp add: in_parts_ref one_shot_ref)

end

subsection \<open>SHA-1\<close>

type_synonym sha1_h = "u32 \<times> u32 \<times> u32 \<times> u32 \<times> u32"

definition rol :: "u32 \<Rightarrow> nat \<Rightarrow> u32" where
  "rol x n = push_bit n x OR drop_bit (32 - n) x"

text \<open>The big-endian word at index \<open>i\<close> of a block.\<close>

definition be_word :: "bytes \<Rightarrow> nat \<Rightarrow> u32" where
  "be_word b i = push_bit 24 (ucast (b ! (i * 4))) OR push_bit 16 (ucast (b ! (i * 4 + 1))) OR
     push_bit 8 (ucast (b ! (i * 4 + 2))) OR ucast (b ! (i * 4 + 3))"

fun sha1_expand :: "nat \<Rightarrow> u32 list \<Rightarrow> u32 list" where
  "sha1_expand 0 w = w"
| "sha1_expand (Suc n) w =
     (let i = length w in
      sha1_expand n (w @ [rol (w ! (i - 3) XOR w ! (i - 8) XOR w ! (i - 14) XOR w ! (i - 16)) 1]))"

definition sha1_fk :: "nat \<Rightarrow> u32 \<Rightarrow> u32 \<Rightarrow> u32 \<Rightarrow> u32 \<times> u32" where
  "sha1_fk i bb c d =
     (if i < 20 then ((bb AND c) OR (NOT bb AND d), 0x5a827999)
      else if i < 40 then (bb XOR c XOR d, 0x6ed9eba1)
      else if i < 60 then ((bb AND c) OR (bb AND d) OR (c AND d), 0x8f1bbcdc)
      else (bb XOR c XOR d, 0xca62c1d6))"

definition sha1_round :: "u32 list \<Rightarrow> nat \<Rightarrow> sha1_h \<Rightarrow> sha1_h" where
  "sha1_round w i = (\<lambda>(a, bb, c, d, e).
     let (f, k) = sha1_fk i bb c d; t = rol a 5 + f + e + k + w ! i
     in (t, a, rol bb 30, c, d))"

definition sha1_block :: "sha1_h \<Rightarrow> bytes \<Rightarrow> sha1_h" where
  "sha1_block h b =
     (let w = sha1_expand 64 (map (be_word b) [0..<16]);
          (a, bb, c, d, e) = fold (sha1_round w) [0..<80] h;
          (h0, h1, h2, h3, h4) = h
      in (h0 + a, h1 + bb, h2 + c, h3 + d, h4 + e))"

definition sha1_init :: sha1_h where
  "sha1_init = (0x67452301, 0xefcdab89, 0x98badcfe, 0x10325476, 0xc3d2e1f0)"

definition be_bytes32 :: "u32 \<Rightarrow> bytes" where
  "be_bytes32 x = [ucast (drop_bit 24 x AND 0xff), ucast (drop_bit 16 x AND 0xff),
     ucast (drop_bit 8 x AND 0xff), ucast (x AND 0xff)]"

definition sha1_emit :: "sha1_h \<Rightarrow> bytes" where
  "sha1_emit = (\<lambda>(h0, h1, h2, h3, h4). concat (map be_bytes32 [h0, h1, h2, h3, h4]))"

definition sha1_bytes :: "bytes \<Rightarrow> bytes option" where
  "sha1_bytes d = md_digest sha1_block sha1_init sha1_emit [d]"

definition sha1_parts :: "bytes list \<Rightarrow> bytes option" where
  "sha1_parts ps = md_digest sha1_block sha1_init sha1_emit ps"

definition sha1_spec :: "bytes \<Rightarrow> bytes" where
  "sha1_spec d = sha1_emit (md_spec sha1_block sha1_init d)"

lemma length_sha1_emit: "length (sha1_emit h) = 20"
  by (cases h) (simp add: sha1_emit_def be_bytes32_def)

interpretation sha1: md_hash sha1_bytes sha1_parts sha1_spec "\<lambda>d. length d = 20"
  by unfold_locales
    (simp_all add: sha1_bytes_def sha1_parts_def sha1_spec_def md_digest_spec length_sha1_emit)

subsection \<open>SHA-256\<close>

type_synonym sha256_h = "u32 \<times> u32 \<times> u32 \<times> u32 \<times> u32 \<times> u32 \<times> u32 \<times> u32"

definition sha256_K :: "u32 list" where
  "sha256_K =
     concat
       [[0x428a2f98, 0x71374491, 0xb5c0fbcf, 0xe9b5dba5, 0x3956c25b, 0x59f111f1, 0x923f82a4, 0xab1c5ed5],
        [0xd807aa98, 0x12835b01, 0x243185be, 0x550c7dc3, 0x72be5d74, 0x80deb1fe, 0x9bdc06a7, 0xc19bf174],
        [0xe49b69c1, 0xefbe4786, 0x0fc19dc6, 0x240ca1cc, 0x2de92c6f, 0x4a7484aa, 0x5cb0a9dc, 0x76f988da],
        [0x983e5152, 0xa831c66d, 0xb00327c8, 0xbf597fc7, 0xc6e00bf3, 0xd5a79147, 0x06ca6351, 0x14292967],
        [0x27b70a85, 0x2e1b2138, 0x4d2c6dfc, 0x53380d13, 0x650a7354, 0x766a0abb, 0x81c2c92e, 0x92722c85],
        [0xa2bfe8a1, 0xa81a664b, 0xc24b8b70, 0xc76c51a3, 0xd192e819, 0xd6990624, 0xf40e3585, 0x106aa070],
        [0x19a4c116, 0x1e376c08, 0x2748774c, 0x34b0bcb5, 0x391c0cb3, 0x4ed8aa4a, 0x5b9cca4f, 0x682e6ff3],
        [0x748f82ee, 0x78a5636f, 0x84c87814, 0x8cc70208, 0x90befffa, 0xa4506ceb, 0xbef9a3f7, 0xc67178f2]]"

definition rr :: "u32 \<Rightarrow> nat \<Rightarrow> u32" where
  "rr x n = drop_bit n x OR push_bit (32 - n) x"

fun sha256_expand :: "nat \<Rightarrow> u32 list \<Rightarrow> u32 list" where
  "sha256_expand 0 w = w"
| "sha256_expand (Suc n) w =
     (let i = length w;
          s0 = rr (w ! (i - 15)) 7 XOR rr (w ! (i - 15)) 18 XOR drop_bit 3 (w ! (i - 15));
          s1 = rr (w ! (i - 2)) 17 XOR rr (w ! (i - 2)) 19 XOR drop_bit 10 (w ! (i - 2))
      in sha256_expand n (w @ [w ! (i - 16) + s0 + w ! (i - 7) + s1]))"

definition sha256_round :: "u32 list \<Rightarrow> nat \<Rightarrow> sha256_h \<Rightarrow> sha256_h" where
  "sha256_round w i = (\<lambda>(a, b, c, d, e, f, g, hh).
     let S1 = rr e 6 XOR rr e 11 XOR rr e 25;
         ch = (e AND f) XOR (NOT e AND g);
         t1 = hh + S1 + ch + sha256_K ! i + w ! i;
         S0 = rr a 2 XOR rr a 13 XOR rr a 22;
         maj = (a AND b) XOR (a AND c) XOR (b AND c);
         t2 = S0 + maj
     in (t1 + t2, a, b, c, d + t1, e, f, g))"

definition sha256_block :: "sha256_h \<Rightarrow> bytes \<Rightarrow> sha256_h" where
  "sha256_block h p =
     (let w = sha256_expand 48 (map (be_word p) [0..<16]);
          (a, b, c, d, e, f, g, hh) = fold (sha256_round w) [0..<64] h;
          (h0, h1, h2, h3, h4, h5, h6, h7) = h
      in (h0 + a, h1 + b, h2 + c, h3 + d, h4 + e, h5 + f, h6 + g, h7 + hh))"

definition sha256_init :: sha256_h where
  "sha256_init = (0x6a09e667, 0xbb67ae85, 0x3c6ef372, 0xa54ff53a,
     0x510e527f, 0x9b05688c, 0x1f83d9ab, 0x5be0cd19)"

text \<open>Each word as eight lower-case hexadecimal digits.\<close>

definition sha256_emit :: "sha256_h \<Rightarrow> string" where
  "sha256_emit = (\<lambda>(h0, h1, h2, h3, h4, h5, h6, h7).
     concat (map (\<lambda>x. pad_zero 8 (to_hex (unat x))) [h0, h1, h2, h3, h4, h5, h6, h7]))"

text \<open>Both entry points skip an empty span.\<close>

definition sha256_bytes :: "bytes \<Rightarrow> string option" where
  "sha256_bytes d = md_digest sha256_block sha256_init sha256_emit (if d = [] then [] else [d])"

definition sha256_parts :: "bytes list \<Rightarrow> string option" where
  "sha256_parts ps = md_digest sha256_block sha256_init sha256_emit (filter (\<lambda>d. d \<noteq> []) ps)"

definition sha256_spec :: "bytes \<Rightarrow> string" where
  "sha256_spec d = sha256_emit (md_spec sha256_block sha256_init d)"

lemma length_sha256_emit: "length (sha256_emit h) = 64"
proof -
  have "length (pad_zero 8 (to_hex (unat (x :: u32)))) = 8" for x
  proof -
    have "length (to_hex (unat x)) \<le> 8"
      using length_digits_base_le [of 16 8 "unat x"] unsigned_less [of x, where ?'a = nat]
      by (simp add: to_hex_def)
    then show ?thesis by (simp add: pad_zero_def)
  qed
  then show ?thesis by (simp add: sha256_emit_def split: prod.splits)
qed

lemma concat_filter_nonempty: "concat (filter (\<lambda>d. d \<noteq> []) ps) = concat ps"
  by (induction ps) auto

interpretation sha256: md_hash sha256_bytes sha256_parts sha256_spec "\<lambda>d. length d = 64"
  by unfold_locales
    (simp_all add: sha256_bytes_def sha256_parts_def sha256_spec_def md_digest_spec
      length_sha256_emit concat_filter_nonempty)

subsection \<open>HMAC-SHA1 and PBKDF2\<close>

definition hmac_key :: "bytes \<Rightarrow> bytes option" where
  "hmac_key key =
     (if 64 < length key
      then map_option (\<lambda>x. x @ replicate (64 - length x) 0) (sha1_bytes key)
      else Some (key @ replicate (64 - length key) 0))"

definition hmac_sha1 :: "bytes \<Rightarrow> bytes \<Rightarrow> bytes option" where
  "hmac_sha1 key data = do {
     k \<leftarrow> hmac_key key;
     inner \<leftarrow> sha1_bytes (map (\<lambda>b. b XOR 0x36) k @ data);
     sha1_bytes (map (\<lambda>b. b XOR 0x5c) k @ inner)
   }"

fun pbkdf2_mix :: "bytes \<Rightarrow> nat \<Rightarrow> bytes \<Rightarrow> bytes \<Rightarrow> bytes option" where
  "pbkdf2_mix k 0 u t = Some t"
| "pbkdf2_mix k (Suc n) u t = do {
     u' \<leftarrow> hmac_sha1 k u;
     pbkdf2_mix k n u' (map2 (XOR) t u')
   }"

text \<open>
  The outer loop writes at most 20 bytes per turn and ends when the output is full; \<open>out\<close> is
  what has been written so far, so \<open>done\<close> is its length.
\<close>

partial_function (option) pbkdf2_loop ::
  "bytes \<Rightarrow> bytes \<Rightarrow> nat \<Rightarrow> nat \<Rightarrow> u32 \<Rightarrow> bytes \<Rightarrow> bytes option" where
  "pbkdf2_loop k salt iterations n_out blockid out =
     (if length out < n_out then do {
        u \<leftarrow> hmac_sha1 k (salt @ be_bytes32 blockid);
        t \<leftarrow> pbkdf2_mix k (iterations - 1) u u;
        pbkdf2_loop k salt iterations n_out (blockid + 1)
          (out @ take (min (length t) (n_out - length out)) t)
      }
      else Some out)"

definition pbkdf2_hmac_sha1 :: "bytes \<Rightarrow> bytes \<Rightarrow> nat \<Rightarrow> nat \<Rightarrow> bytes option" where
  "pbkdf2_hmac_sha1 password salt iterations n_out =
     pbkdf2_loop password salt iterations n_out 1 []"

subsection \<open>What HMAC and PBKDF2 compute\<close>

text \<open>RFC 2104 and RFC 8018 over the digest specification.\<close>

definition hmac_pad :: "bytes \<Rightarrow> bytes" where
  "hmac_pad key = (let x = (if 64 < length key then sha1_spec key else key)
                   in x @ replicate (64 - length x) 0)"

definition hmac_spec :: "bytes \<Rightarrow> bytes \<Rightarrow> bytes" where
  "hmac_spec key data =
     sha1_spec (map (\<lambda>b. b XOR 0x5c) (hmac_pad key) @
       sha1_spec (map (\<lambda>b. b XOR 0x36) (hmac_pad key) @ data))"

fun prf_iter :: "bytes \<Rightarrow> bytes \<Rightarrow> nat \<Rightarrow> bytes" where
  "prf_iter k d 0 = hmac_spec k d"
| "prf_iter k d (Suc j) = hmac_spec k (prf_iter k d j)"

definition pbkdf2_T :: "bytes \<Rightarrow> bytes \<Rightarrow> nat \<Rightarrow> nat \<Rightarrow> bytes" where
  "pbkdf2_T k salt iterations i =
     (let d = salt @ be_bytes32 (word_of_nat (Suc i))
      in fold (\<lambda>j t. map2 (XOR) t (prf_iter k d j)) [1..<iterations] (prf_iter k d 0))"

lemma hmac_sha1_spec: "hmac_sha1 key data = Some (hmac_spec key data)"
  by (simp add: hmac_sha1_def hmac_key_def hmac_spec_def hmac_pad_def sha1.one_shot_ref Let_def)

lemma length_hmac_spec [simp]: "length (hmac_spec key data) = 20"
  by (simp add: hmac_spec_def sha1.reference_good)

lemma length_prf_iter [simp]: "length (prf_iter k d j) = 20"
  by (cases j) simp_all

lemma pbkdf2_mix_spec:
  "pbkdf2_mix k n (prf_iter k d j) t =
    Some (fold (\<lambda>j t. map2 (XOR) t (prf_iter k d j)) [Suc j..<Suc j + n] t)"
proof (induction n arbitrary: j t)
  case (Suc n)
  have "[Suc j..<Suc j + Suc n] = Suc j # [Suc (Suc j)..<Suc (Suc j) + n]"
    by (simp add: upt_conv_Cons)
  then show ?case using Suc.IH [of "Suc j"] by (simp add: hmac_sha1_spec)
qed simp

lemma length_fold_mix:
  "length t = 20 \<Longrightarrow>
    length (fold (\<lambda>j t. map2 (XOR) t (prf_iter k d j)) js t) = 20"
  by (induction js arbitrary: t) simp_all

lemma length_pbkdf2_T [simp]: "length (pbkdf2_T k salt iterations i) = 20"
  by (simp add: pbkdf2_T_def Let_def length_fold_mix)

lemma length_pbkdf2_Ts [simp]:
  "length (concat (map (pbkdf2_T k salt iterations) [0..<m])) = 20 * m"
  by (induction m) simp_all

lemma pbkdf2_loop_spec:
  "pbkdf2_loop k salt iterations n (word_of_nat (Suc m))
      (take n (concat (map (pbkdf2_T k salt iterations) [0..<m]))) =
    Some (take n (concat (map (pbkdf2_T k salt iterations) [0..<max m ((n + 19) div 20)])))"
proof (induction "n - 20 * m" arbitrary: m rule: less_induct)
  case less
  let ?T = "pbkdf2_T k salt iterations"
  let ?out = "take n (concat (map ?T [0..<m]))"
  show ?case
  proof (cases "length ?out < n")
    case False
    then have "(n + 19) div 20 \<le> m" by simp
    with False show ?thesis by (simp add: pbkdf2_loop.simps max_absorb1)
  next
    case True
    let ?d = "salt @ be_bytes32 (word_of_nat (Suc m))"
    have short: "20 * m < n" using True by simp
    have mix: "pbkdf2_mix k (iterations - 1) (prf_iter k ?d 0) (prf_iter k ?d 0) = Some (?T m)"
      using pbkdf2_mix_spec [of k "iterations - 1" ?d 0 "prf_iter k ?d 0"]
      by (cases iterations) (simp_all add: pbkdf2_T_def Let_def)
    have out: "?out @ take (min (length (?T m)) (n - length ?out)) (?T m) =
      take n (concat (map ?T [0..<Suc m]))"
      using short by (simp add: min_def)
    have nxt: "word_of_nat (Suc m) + 1 = (word_of_nat (Suc (Suc m)) :: u32)" by simp
    have "max (Suc m) ((n + 19) div 20) = max m ((n + 19) div 20)" using short by simp
    moreover have "n - 20 * Suc m < n - 20 * m" using short by simp
    ultimately show ?thesis
      using less.hyps [of "Suc m"] True mix out nxt
      by (subst pbkdf2_loop.simps) (simp only: hmac_sha1_spec prf_iter.simps bind.bind_lunit if_True)
  qed
qed

lemma pbkdf2_spec:
  "pbkdf2_hmac_sha1 password salt iterations n =
    Some (take n (concat (map (pbkdf2_T password salt iterations) [0..<(n + 19) div 20])))"
  using pbkdf2_loop_spec [of password salt iterations n 0]
  by (simp add: pbkdf2_hmac_sha1_def)

subsection \<open>Properties\<close>

text \<open>C34: SHA-1 of the code is the padded-block hash, in one call or in parts: the buffered stream with its
  partial blocks, its two padding branches and its running length computes the fold of the
  compression function over the padded message, however the message is cut into pieces.\<close>

theorem sha1_stream_correct:
  "sha1_bytes d = Some (sha1_spec d) \<and> sha1_parts ps = Some (sha1_spec (concat ps)) \<and> length (sha1_spec d) = 20"
  using sha1.one_shot_ref [of d] sha1.in_parts_ref [of ps] sha1.one_shot_total [of d] by auto

text \<open>C35: SHA-256 of the code is the padded-block hash, in one call or in parts with empty parts skipped,
  and its text always has 64 hexadecimal digits.\<close>

theorem sha256_stream_correct:
  "sha256_bytes d = Some (sha256_spec d) \<and> sha256_parts ps = Some (sha256_spec (concat ps)) \<and>
   length (sha256_spec d) = 64"
  using sha256.one_shot_ref [of d] sha256.in_parts_ref [of ps] sha256.one_shot_total [of d] by auto

text \<open>C36: The derived keys are those of the standards: HMAC-SHA-1 is the RFC 2104 construction, and the
  PBKDF2 loop, whose counter is a 32-bit word, terminates and fills the output with the first
  bytes of the concatenated RFC 8018 blocks.\<close>

theorem pbkdf2_terminates_correct:
  "hmac_sha1 key data = Some (hmac_spec key data) \<and>
   pbkdf2_hmac_sha1 password salt iterations n =
     Some (take n (concat (map (pbkdf2_T password salt iterations) [0..<(n + 19) div 20])))"
  by (simp only: hmac_sha1_spec pbkdf2_spec)

end
