(* ===== verification/Evidence.thy ===== *)
theory Evidence
  imports Prelude
begin

section \<open>The evidence model: coordinates, ranges and findings\<close>

text \<open>
  Models \<^verbatim>\<open>include/prts/finding.hpp\<close>, the vocabulary in which every detector reports.
  A range always says in which coordinate space and relative to which object its offset is
  meant; the constructors below are the only way the producers set both. A finding's confidence
  is kept in hundredths (the sources only ever store two-digit literals), its fields are a map.
\<close>

datatype coordinate_space =
    SpaceUnknown | FileOffset | Rva | Va | SerializedOffset | MemoryRegionRelative | Token | Index

fun coordinate_space_name :: "coordinate_space \<Rightarrow> string" where
  "coordinate_space_name FileOffset = ''FILE_OFFSET''"
| "coordinate_space_name Rva = ''RVA''"
| "coordinate_space_name Va = ''VA''"
| "coordinate_space_name SerializedOffset = ''SERIALIZED_OFFSET''"
| "coordinate_space_name MemoryRegionRelative = ''MEMORY_REGION_RELATIVE''"
| "coordinate_space_name Token = ''TOKEN''"
| "coordinate_space_name Index = ''INDEX''"
| "coordinate_space_name SpaceUnknown = ''UNKNOWN''"

datatype coordinate_basis =
    BasisUnknown | CurrentInputFile | CurrentInputImage | ArtifactFile | ArtifactImage
  | ProcessImage | MemoryRegion

fun coordinate_basis_name :: "coordinate_basis \<Rightarrow> string" where
  "coordinate_basis_name CurrentInputFile = ''CURRENT_INPUT_FILE''"
| "coordinate_basis_name CurrentInputImage = ''CURRENT_INPUT_IMAGE''"
| "coordinate_basis_name ArtifactFile = ''ARTIFACT_FILE''"
| "coordinate_basis_name ArtifactImage = ''ARTIFACT_IMAGE''"
| "coordinate_basis_name ProcessImage = ''PROCESS_IMAGE''"
| "coordinate_basis_name MemoryRegion = ''MEMORY_REGION''"
| "coordinate_basis_name BasisUnknown = ''UNKNOWN''"

record range_ref =
  r_offset :: nat
  r_size :: nat
  r_label :: string
  r_space :: coordinate_space
  r_basis :: coordinate_basis
  r_artifact :: string
  r_process :: "nat option"
  r_image_base :: "nat option"

text \<open>The three-argument constructor leaves space and basis unknown.\<close>

definition range_ref :: "nat \<Rightarrow> nat \<Rightarrow> string \<Rightarrow> range_ref" where
  "range_ref value sz label =
     \<lparr>r_offset = value, r_size = sz, r_label = label, r_space = SpaceUnknown,
      r_basis = BasisUnknown, r_artifact = [], r_process = None, r_image_base = None\<rparr>"

definition typed_range ::
  "nat \<Rightarrow> nat \<Rightarrow> string \<Rightarrow> coordinate_space \<Rightarrow> coordinate_basis \<Rightarrow> string \<Rightarrow>
   nat option \<Rightarrow> nat option \<Rightarrow> range_ref" where
  "typed_range value sz label space basis artifact process image_base =
     (range_ref value sz label)\<lparr>r_space := space, r_basis := basis, r_artifact := artifact,
        r_process := process, r_image_base := image_base\<rparr>"

definition file_offset_range_in ::
  "coordinate_basis \<Rightarrow> string \<Rightarrow> nat option \<Rightarrow> nat \<Rightarrow> nat \<Rightarrow> string \<Rightarrow> range_ref" where
  "file_offset_range_in basis artifact process value sz label =
     typed_range value sz label FileOffset basis artifact process None"

text \<open>The call with the default arguments, as the container detectors make it.\<close>

abbreviation file_offset_range :: "nat \<Rightarrow> nat \<Rightarrow> string \<Rightarrow> range_ref" where
  "file_offset_range \<equiv> file_offset_range_in CurrentInputFile [] None"

definition rva_range ::
  "coordinate_basis \<Rightarrow> string \<Rightarrow> nat option \<Rightarrow> nat option \<Rightarrow> nat \<Rightarrow> nat \<Rightarrow> string \<Rightarrow> range_ref" where
  "rva_range basis artifact process image_base value sz label =
     typed_range value sz label Rva basis artifact process image_base"

definition va_range ::
  "coordinate_basis \<Rightarrow> string \<Rightarrow> nat option \<Rightarrow> nat option \<Rightarrow> nat \<Rightarrow> nat \<Rightarrow> string \<Rightarrow> range_ref" where
  "va_range basis artifact process image_base value sz label =
     typed_range value sz label Va basis artifact process image_base"

definition memory_relative_range ::
  "coordinate_basis \<Rightarrow> string \<Rightarrow> nat option \<Rightarrow> nat \<Rightarrow> nat \<Rightarrow> string \<Rightarrow> range_ref" where
  "memory_relative_range basis artifact process value sz label =
     typed_range value sz label MemoryRegionRelative basis artifact process None"

record finding =
  f_kind :: string
  f_family :: string
  f_variant :: string
  f_state :: string
  f_confidence :: "nat option"
  f_evidence :: "string list"
  f_negative :: "string list"
  f_ranges :: "range_ref list"
  f_fields :: "string \<rightharpoonup> string"
  f_actions :: "string list"

definition empty_finding :: finding where
  "empty_finding =
     \<lparr>f_kind = [], f_family = [], f_variant = [], f_state = ''SUSPECTED'', f_confidence = None,
      f_evidence = [], f_negative = [], f_ranges = [], f_fields = Map.empty, f_actions = []\<rparr>"

record embedded_object =
  o_kind :: string
  o_offset :: nat
  o_size :: nat
  o_validated :: bool
  o_state :: string
  o_confidence :: "nat option"
  o_detail :: string

text \<open>A range lies inside a file of the given size.\<close>

definition range_within :: "nat \<Rightarrow> range_ref \<Rightarrow> bool" where
  "range_within file_size r \<longleftrightarrow> r_offset r + r_size r \<le> file_size"

text \<open>A range that may be shown as a position of the analysed file.\<close>

definition is_file_range :: "range_ref \<Rightarrow> bool" where
  "is_file_range r \<longleftrightarrow> r_space r = FileOffset \<and> r_basis r = CurrentInputFile"

lemma file_offset_range_sel [simp]:
  "r_offset (file_offset_range v n l) = v" "r_size (file_offset_range v n l) = n"
  "is_file_range (file_offset_range v n l)"
  by (simp_all add: file_offset_range_in_def typed_range_def range_ref_def is_file_range_def)

lemma coordinate_space_name_inj: "inj coordinate_space_name"
proof (rule injI)
  fix x y :: coordinate_space
  assume "coordinate_space_name x = coordinate_space_name y"
  then show "x = y" by (cases x; cases y) simp_all
qed

lemma coordinate_basis_name_inj: "inj coordinate_basis_name"
proof (rule injI)
  fix x y :: coordinate_basis
  assume "coordinate_basis_name x = coordinate_basis_name y"
  then show "x = y" by (cases x; cases y) simp_all
qed

end
