(* ===== verification/V8CodeCache.thy ===== *)
theory V8CodeCache
  imports Evidence
begin

section \<open>V8 code-cache headers\<close>

text \<open>
  Models \<^verbatim>\<open>include/prts/v8_code_cache.hpp\<close> and \<^verbatim>\<open>src/extract/v8_code_cache.cpp\<close>:
  the bounded header check of a serialized V8 code cache, which accepts a file only when exactly
  one of two header layouts closes over its size, and the finding made from it. Header words are
  32-bit words, sizes are naturals.
\<close>

datatype v8_layout = NoLayout | ModernLayout | LegacyLayout

primrec v8_layout_text :: "v8_layout \<Rightarrow> string" where
  "v8_layout_text NoLayout = []"
| "v8_layout_text ModernLayout = ''modern_7_word_header''"
| "v8_layout_text LegacyLayout = ''legacy_6_word_header''"

datatype v8_error =
    SizeFieldExceeded | HeaderTruncated | BothLayouts | NotClosed | EmptyHash | EmptyPayload
  | SourceLengthExceeded

primrec v8_error_text :: "v8_error \<Rightarrow> string" where
  "v8_error_text SizeFieldExceeded =
     ''V8 code-cache file exceeds the bounded 32-bit serialized length field''"
| "v8_error_text HeaderTruncated = ''V8 code-cache header is truncated''"
| "v8_error_text BothLayouts =
     ''V8 code-cache header matches both legacy and modern payload layouts''"
| "v8_error_text NotClosed =
     ''V8 serializer magic is present but payload length does not close over the file''"
| "v8_error_text EmptyHash = ''V8 code-cache header has an empty version or flag hash''"
| "v8_error_text EmptyPayload = ''V8 code-cache payload is empty''"
| "v8_error_text SourceLengthExceeded =
     ''V8 code-cache source-hash length exceeds the logical file size''"

record v8_info =
  v8_candidate :: bool
  v8_valid :: bool
  v8_magic :: u32
  v8_version_hash :: u32
  v8_source_hash :: u32
  v8_flag_hash :: u32
  v8_snapshot_checksum :: u32
  v8_payload_length :: u32
  v8_checksum :: u32
  v8_source_length :: u32
  v8_wrapped_arguments :: bool
  v8_is_module :: bool
  v8_magic_low16 :: "16 word"
  v8_header_size :: nat
  v8_payload_offset :: nat
  v8_payload_size :: nat
  v8_layout :: v8_layout
  v8_error :: "v8_error option"
  v8_error_offset :: nat

definition v8_empty :: v8_info where
  "v8_empty = \<lparr>v8_candidate = False, v8_valid = False, v8_magic = 0, v8_version_hash = 0,
     v8_source_hash = 0, v8_flag_hash = 0, v8_snapshot_checksum = 0, v8_payload_length = 0,
     v8_checksum = 0, v8_source_length = 0, v8_wrapped_arguments = False, v8_is_module = False,
     v8_magic_low16 = 0, v8_header_size = 0, v8_payload_offset = 0, v8_payload_size = 0,
     v8_layout = NoLayout, v8_error = None, v8_error_offset = 0\<rparr>"

definition kMagicPrefix :: u32 where "kMagicPrefix = 0xC0DE0000"
definition kMagicMask :: u32 where "kMagicMask = 0xFFFF0000"
definition kSourceLengthMask :: u32 where "kSourceLengthMask = push_bit 29 1 - 1"
definition kWrappedArgumentsBit :: u32 where "kWrappedArgumentsBit = push_bit 29 1"
definition kModuleBit :: u32 where "kModuleBit = push_bit 30 1"
definition kLegacyModuleBit :: u32 where "kLegacyModuleBit = push_bit 31 1"
definition kLegacyHeaderSize :: nat where "kLegacyHeaderSize = 24"
definition kModernHeaderSize :: nat where "kModernHeaderSize = 32"

definition has_bytes :: "bytes \<Rightarrow> nat \<Rightarrow> nat \<Rightarrow> bool" where
  "has_bytes data off cnt \<longleftrightarrow> off \<le> length data \<and> cnt \<le> length data - off"

definition v8_u32 :: "bytes \<Rightarrow> nat \<Rightarrow> u32" where
  "v8_u32 data off =
     (if \<not> has_bytes data off 4 then 0
      else word_or4 (data ! off) (data ! (off + 1)) (data ! (off + 2)) (data ! (off + 3)))"

definition hex32 :: "u32 \<Rightarrow> string" where
  "hex32 v = ''0x'' @ pad_zero 8 (to_hex (unat v))"

definition decode_source_hash :: "bool \<Rightarrow> v8_info \<Rightarrow> v8_info" where
  "decode_source_hash modern info =
     (if modern then
        info\<lparr>v8_source_length := v8_source_hash info AND kSourceLengthMask,
             v8_wrapped_arguments := (v8_source_hash info AND kWrappedArgumentsBit) \<noteq> 0,
             v8_is_module := (v8_source_hash info AND kModuleBit) \<noteq> 0\<rparr>
      else
        info\<lparr>v8_source_length := v8_source_hash info AND NOT kLegacyModuleBit,
             v8_is_module := (v8_source_hash info AND kLegacyModuleBit) \<noteq> 0\<rparr>)"

definition v8_fail :: "v8_error \<Rightarrow> nat \<Rightarrow> v8_info \<Rightarrow> v8_info" where
  "v8_fail e off info = info\<lparr>v8_error := Some e, v8_error_offset := off\<rparr>"

definition v8_logical_size :: "bytes \<Rightarrow> nat \<Rightarrow> nat" where
  "v8_logical_size data file_size = (if file_size = 0 then length data else file_size)"

text \<open>The checks after the layout is known.\<close>

definition v8_check_fields :: "nat \<Rightarrow> bool \<Rightarrow> v8_info \<Rightarrow> v8_info" where
  "v8_check_fields logical_size modern out =
     (if v8_version_hash out = 0 \<or> v8_flag_hash out = 0
      then v8_fail EmptyHash (if v8_version_hash out = 0 then 4 else 12) out
      else if v8_payload_length out = 0 then v8_fail EmptyPayload (if modern then 20 else 16) out
      else if logical_size < unat (v8_source_length out) then v8_fail SourceLengthExceeded 8 out
      else out\<lparr>v8_valid := True\<rparr>)"

definition v8_legacy_geometry :: "bytes \<Rightarrow> nat \<Rightarrow> bool" where
  "v8_legacy_geometry data logical_size \<longleftrightarrow>
     kLegacyHeaderSize \<le> logical_size \<and>
     unat (v8_u32 data 16) + kLegacyHeaderSize = logical_size"

definition v8_modern_geometry :: "bytes \<Rightarrow> nat \<Rightarrow> bool" where
  "v8_modern_geometry data logical_size \<longleftrightarrow>
     kModernHeaderSize \<le> length data \<and> kModernHeaderSize \<le> logical_size \<and>
     unat (v8_u32 data 20) + kModernHeaderSize = logical_size"

definition parse_v8_code_cache :: "bytes \<Rightarrow> nat \<Rightarrow> v8_info" where
  "parse_v8_code_cache data file_size =
     (let logical_size = v8_logical_size data file_size in
      if logical_size < 4 \<or> length data < 4 then v8_empty
      else
        let out = v8_empty\<lparr>v8_magic := v8_u32 data 0\<rparr> in
        if (v8_magic out AND kMagicMask) \<noteq> kMagicPrefix then out
        else
          let out = out\<lparr>v8_candidate := True,
                        v8_magic_low16 := ucast (v8_magic out AND 0xffff)\<rparr> in
          if u32_max < logical_size then v8_fail SizeFieldExceeded 0 out
          else if length data < kLegacyHeaderSize then v8_fail HeaderTruncated (length data) out
          else
            let out = out\<lparr>v8_version_hash := v8_u32 data 4, v8_source_hash := v8_u32 data 8,
                          v8_flag_hash := v8_u32 data 12\<rparr>;
                legacy_geometry = v8_legacy_geometry data logical_size;
                modern = v8_modern_geometry data logical_size
            in if legacy_geometry = modern
               then v8_fail (if legacy_geometry then BothLayouts else NotClosed) 16 out
               else
                 let len = (if modern then v8_u32 data 20 else v8_u32 data 16);
                     header = (if modern then kModernHeaderSize else kLegacyHeaderSize);
                     out = out\<lparr>v8_layout := (if modern then ModernLayout else LegacyLayout),
                               v8_header_size := header, v8_payload_offset := header,
                               v8_payload_length := len, v8_payload_size := unat len,
                               v8_snapshot_checksum := (if modern then v8_u32 data 16 else 0),
                               v8_checksum := (if modern then v8_u32 data 24 else v8_u32 data 20)\<rparr>
                 in v8_check_fields logical_size modern (decode_source_hash modern out))"

definition bool_text :: "bool \<Rightarrow> string" where
  "bool_text b = (if b then ''true'' else ''false'')"

definition v8_fields :: "v8_info \<Rightarrow> string \<rightharpoonup> string" where
  "v8_fields info =
     (let base = Map.empty
          (''offset_space'' \<mapsto> ''current_input_file'', ''magic'' \<mapsto> hex32 (v8_magic info),
           ''magic_low16'' \<mapsto> to_dec (unat (v8_magic_low16 info)),
           ''version_hash'' \<mapsto> hex32 (v8_version_hash info),
           ''source_hash'' \<mapsto> hex32 (v8_source_hash info),
           ''source_length'' \<mapsto> to_dec (unat (v8_source_length info)),
           ''source_hash_wrapped_arguments'' \<mapsto> bool_text (v8_wrapped_arguments info),
           ''source_hash_is_module'' \<mapsto> bool_text (v8_is_module info),
           ''flag_hash'' \<mapsto> hex32 (v8_flag_hash info),
           ''header_size'' \<mapsto> to_dec (v8_header_size info),
           ''payload_offset'' \<mapsto> to_dec (v8_payload_offset info),
           ''payload_size'' \<mapsto> to_dec (v8_payload_size info),
           ''payload_length_field'' \<mapsto> to_dec (unat (v8_payload_length info)),
           ''checksum'' \<mapsto> hex32 (v8_checksum info))
      in if v8_header_size info = kModernHeaderSize
         then base(''read_only_snapshot_checksum'' \<mapsto> hex32 (v8_snapshot_checksum info))
         else base)"

definition v8_code_cache_finding :: "v8_info \<Rightarrow> finding" where
  "v8_code_cache_finding info =
     (let f = empty_finding\<lparr>f_kind := ''bytecode'', f_family := ''V8 JavaScript code cache'',
            f_variant := (if v8_layout info = NoLayout then ''serializer-header-candidate''
                          else v8_layout_text (v8_layout info)),
            f_fields := v8_fields info\<rparr>
      in if \<not> v8_valid info then
           f\<lparr>f_state := ''FAILED'', f_confidence := Some 35,
             f_evidence := [''V8 serializer magic is present at file offset 0''],
             f_negative := (case v8_error info of None \<Rightarrow> []
               | Some e \<Rightarrow> [v8_error_text e @ '' at 0x'' @ to_hex (v8_error_offset info)]),
             f_actions :=
               [''inspect the producer/runtime version before using a V8-aware cache tool'']\<rparr>
         else
           f\<lparr>f_state := ''LIKELY'', f_confidence := Some 82,
             f_evidence :=
               [''V8 serializer magic and bounded version/source/flag fields validated'',
                ''aligned payload length closes exactly over the current input file''],
             f_negative :=
               [''source compatibility and runtime acceptance cannot be checked without the paired JavaScript source and V8 consumer'',
                ''serialized cache payload remains opaque; no bytecode deserialization or execution was attempted''],
             f_ranges := [file_offset_range (v8_header_size info) (v8_payload_size info)
               ''V8 serialized code-cache payload''],
             f_actions :=
               [''pair the cache with its JavaScript source and matching Node/V8 build'',
                ''use a V8-aware inspector or consumer-side cachedDataRejected check before deeper analysis'']\<rparr>)"

subsection \<open>Lemmas\<close>

lemma unat_v8_u32:
  "unat (v8_u32 d off) = (if off + 4 \<le> length d then le_value (take 4 (drop off d)) else 0)"
  by (auto simp: v8_u32_def has_bytes_def unat_word_or4 take4_drop)

interpretation v8: le_reader "\<lambda>d off. unat (v8_u32 d off)"
  by unfold_locales (simp_all add: unat_v8_u32)

lemma v8_u32_word:
  "off + 4 \<le> length d \<Longrightarrow> take 4 (drop off d) = le_bytes 4 (unat w) \<Longrightarrow> v8_u32 d off = w"
  using unsigned_less [of w, where ?'a = nat]
  by (simp add: word_unat_eq_iff unat_v8_u32 le_value_le_bytes)

lemma decode_source_hash_simps [simp]:
  "v8_candidate (decode_source_hash m i) = v8_candidate i"
  "v8_valid (decode_source_hash m i) = v8_valid i"
  "v8_version_hash (decode_source_hash m i) = v8_version_hash i"
  "v8_source_hash (decode_source_hash m i) = v8_source_hash i"
  "v8_flag_hash (decode_source_hash m i) = v8_flag_hash i"
  "v8_payload_length (decode_source_hash m i) = v8_payload_length i"
  "v8_payload_size (decode_source_hash m i) = v8_payload_size i"
  "v8_payload_offset (decode_source_hash m i) = v8_payload_offset i"
  "v8_header_size (decode_source_hash m i) = v8_header_size i"
  "v8_snapshot_checksum (decode_source_hash m i) = v8_snapshot_checksum i"
  "v8_checksum (decode_source_hash m i) = v8_checksum i"
  "v8_layout (decode_source_hash m i) = v8_layout i"
  by (simp_all add: decode_source_hash_def)

lemma v8_fail_valid [simp]: "v8_valid (v8_fail e off i) = v8_valid i"
  by (simp add: v8_fail_def)

lemmas v8_parse_defs = parse_v8_code_cache_def v8_check_fields_def v8_empty_def v8_fail_def Let_def

lemma v8_valid_closes_range:
  "v8_valid (parse_v8_code_cache data file_size) \<Longrightarrow>
    v8_header_size (parse_v8_code_cache data file_size) +
    v8_payload_size (parse_v8_code_cache data file_size) = v8_logical_size data file_size"
  by (simp add: v8_parse_defs split: if_splits)
    (auto simp: v8_legacy_geometry_def v8_modern_geometry_def)

subsection \<open>Properties\<close>

text \<open>C32: A V8 code cache is accepted only when exactly one header layout closes over the logical file
  size: header and non-empty payload then tile the file exactly, the layout and header size agree,
  and the decoded source length fits.\<close>

theorem v8_valid_closes:
  assumes "v8_valid (parse_v8_code_cache data file_size)"
  defines "r \<equiv> parse_v8_code_cache data file_size" and "n \<equiv> v8_logical_size data file_size"
  shows "v8_payload_offset r + v8_payload_size r = n \<and> v8_payload_offset r = v8_header_size r \<and>
    0 < v8_payload_size r \<and> v8_header_size r \<le> length data \<and> n \<le> u32_max \<and>
    unat (v8_source_length r) \<le> n \<and> v8_version_hash r \<noteq> 0 \<and> v8_flag_hash r \<noteq> 0 \<and>
    (v8_layout r = ModernLayout \<and> v8_header_size r = 32 \<and> \<not> v8_legacy_geometry data n \<or>
     v8_layout r = LegacyLayout \<and> v8_header_size r = 24 \<and> \<not> v8_modern_geometry data n)"
  using assms(1) unfolding r_def n_def
  by (simp add: v8_parse_defs split: if_splits)
    (auto simp: v8_legacy_geometry_def v8_modern_geometry_def kLegacyHeaderSize_def
      kModernHeaderSize_def unat_gt_0)

text \<open>The two header layouts, written out.\<close>

definition v8_modern_file ::
  "u32 \<Rightarrow> u32 \<Rightarrow> u32 \<Rightarrow> u32 \<Rightarrow> u32 \<Rightarrow> u32 \<Rightarrow> bytes \<Rightarrow> bytes" where
  "v8_modern_file magic ver src flag snapshot checksum payload =
     concat (map (\<lambda>w. le_bytes 4 (unat w))
       [magic, ver, src, flag, snapshot, word_of_nat (length payload), checksum, 0]) @ payload"

text \<open>Reading back a written modern header gives the written fields: for any file with non-zero hashes,
  a payload that closes and a snapshot checksum that does not happen to look like a closing legacy
  payload length, the parser accepts the file with exactly the version, source, flag, snapshot and
  checksum words that were written, and splits the source hash into length, wrapped-arguments bit and
  module bit.\<close>

lemma v8_modern_roundtrip:
  fixes checksum :: u32
  assumes magic: "(magic AND kMagicMask) = kMagicPrefix"
    and nonzero: "ver \<noteq> 0" "flag \<noteq> 0" "payload \<noteq> []"
    and fits: "length payload + 32 \<le> u32_max"
    and src: "unat (src AND kSourceLengthMask) \<le> length payload + 32"
    and unlike_legacy: "unat snapshot \<noteq> length payload + 8"
  defines "r \<equiv> parse_v8_code_cache (v8_modern_file magic ver src flag snapshot checksum payload) 0"
  shows "v8_valid r \<and> v8_layout r = ModernLayout \<and> v8_version_hash r = ver \<and>
    v8_source_hash r = src \<and> v8_flag_hash r = flag \<and> v8_snapshot_checksum r = snapshot \<and>
    v8_checksum r = checksum \<and> v8_payload_size r = length payload \<and>
    v8_source_length r = (src AND kSourceLengthMask) \<and>
    v8_wrapped_arguments r = ((src AND kWrappedArgumentsBit) \<noteq> 0) \<and>
    v8_is_module r = ((src AND kModuleBit) \<noteq> 0)"
proof -
  let ?d = "v8_modern_file magic ver src flag snapshot checksum payload"
  have len: "length ?d = length payload + 32" by (simp add: v8_modern_file_def)
  have plen: "unat (word_of_nat (length payload) :: u32) = length payload"
    using fits by (simp add: unsigned_of_nat take_bit_nat_eq_self u32_max_def)
  have words: "v8_u32 ?d 0 = magic" "v8_u32 ?d 4 = ver" "v8_u32 ?d 8 = src" "v8_u32 ?d 12 = flag"
    "v8_u32 ?d 16 = snapshot" "v8_u32 ?d 20 = word_of_nat (length payload)" "v8_u32 ?d 24 = checksum"
    by (rule v8_u32_word; simp add: v8_modern_file_def)+
  have pz: "(word_of_nat (length payload) :: u32) \<noteq> 0"
    using nonzero(3) plen by (metis length_0_conv unat_0)
  have geo: "v8_modern_geometry ?d (length ?d)" "\<not> v8_legacy_geometry ?d (length ?d)"
    using unlike_legacy by (simp_all add: v8_modern_geometry_def v8_legacy_geometry_def words len
        plen kModernHeaderSize_def kLegacyHeaderSize_def)
  have size: "v8_logical_size ?d 0 = length payload + 32" by (simp add: v8_logical_size_def len)
  show ?thesis
    using nonzero(1,2) magic fits src pz geo
    by (simp add: r_def parse_v8_code_cache_def size v8_check_fields_def words len plen
        kLegacyHeaderSize_def v8_empty_def decode_source_hash_def not_less)
qed

text \<open>The finding never overstates the header check: it is only ever FAILED or LIKELY, it is LIKELY
  exactly for an accepted header, and every range it shows is a position of the current input file
  that lies inside the logical file.\<close>

lemma v8_finding_sound:
  defines "r \<equiv> \<lambda>data file_size. parse_v8_code_cache data file_size"
  shows "f_state (v8_code_cache_finding (r data file_size)) =
      (if v8_valid (r data file_size) then ''LIKELY'' else ''FAILED'') \<and>
    list_all (\<lambda>x. is_file_range x \<and> range_within (v8_logical_size data file_size) x)
      (f_ranges (v8_code_cache_finding (r data file_size)))"
  using v8_valid_closes_range [of data file_size]
  by (auto simp: r_def v8_code_cache_finding_def Let_def empty_finding_def range_within_def)

lemma v8_modern_roundtrip_witness:
  "v8_valid (parse_v8_code_cache (v8_modern_file 0xC0DE0639 7 0x20000003 9 1 2 [1, 2, 3, 4]) 0)"
proof -
  have 1: "(0xC0DE0639 AND kMagicMask) = kMagicPrefix"
    by (simp add: kMagicMask_def kMagicPrefix_def)
  have 2: "(7::u32) \<noteq> 0" "(9::u32) \<noteq> 0" "[1, 2, 3, 4 :: byte] \<noteq> []" by simp_all
  have 3: "length [1, 2, 3, 4 :: byte] + 32 \<le> u32_max" by (simp add: u32_max_def)
  have 4: "unat (0x20000003 AND kSourceLengthMask) \<le> length [1, 2, 3, 4 :: byte] + 32"
    by (simp add: kSourceLengthMask_def)
  have 5: "unat (1::u32) \<noteq> length [1, 2, 3, 4 :: byte] + 8" by simp
  from v8_modern_roundtrip [OF 1 2 3 4 5] show ?thesis by blast
qed

theorem v8_valid_closes_witness:
  "v8_payload_offset (parse_v8_code_cache
      ([0x39, 6, 0xDE, 0xC0, 7, 0, 0, 0, 2, 0, 0, 0, 9, 0, 0, 0, 1, 0, 0, 0, 5, 0, 0, 0] @ [1]) 0) = 24"
proof -
  let ?d = "[0x39, 6, 0xDE, 0xC0, 7, 0, 0, 0, 2, 0, 0, 0, 9, 0, 0, 0, 1, 0, 0, 0, 5, 0, 0, 0] @ [1]"
  have "v8_valid (parse_v8_code_cache ?d 0)"
    by (simp add: v8_parse_defs v8_logical_size_def v8_u32_def has_bytes_def word_or4_def
        kMagicMask_def kMagicPrefix_def kLegacyHeaderSize_def kModernHeaderSize_def u32_max_def
        v8_legacy_geometry_def v8_modern_geometry_def decode_source_hash_def kLegacyModuleBit_def)
  from v8_valid_closes [OF this] show ?thesis
    by (auto simp: v8_modern_geometry_def v8_logical_size_def kModernHeaderSize_def)
qed

end
