(* ===== verification/ZipInspect.thy ===== *)
theory ZipInspect
  imports ZipNames Hashing V8CodeCache
begin

section \<open>ZIP container inspection\<close>

text \<open>
  Models \<^verbatim>\<open>include/prts/container_ingress.hpp\<close> and the inspection half of
  \<^verbatim>\<open>src/extract/container_ingress.cpp\<close>. The third-party archive reader (miniz) is a
  parameter: a function from the archive bytes to an error or to an \<open>mz_reader\<close>, which answers
  the questions the code asks. Nothing is assumed about its answers: every offset and length it
  gives is checked against the bytes by the modelled code.
\<close>

subsection \<open>Data\<close>

datatype layer_state =
    NotEvaluated | LayerCandidate | LayerRefused | LayerPartial | LayerFailed | LayerConfirmed
  | LayerConfirmedGated

datatype ingress_state =
    Absent | Malformed | IngressRefused | CredentialRequired | ConfirmedGated | IngressConfirmed

datatype member_state =
    NoMemberState | UnsafePath | PortabilityUnverified | LinkRefused | SpecialFileRefused
  | IsDirectory | DuplicatePathRefused | CaseCollisionRefused | MemberCredentialRequired
  | UnsupportedMethod | BudgetRefused | SafeToMaterialize

datatype zip_reason =
    InputBudget | MemberBudget
  | CentralDirectoryInvalid string | PrefixDirectoryInvalid string
  | EntryUnreadable nat string | CentralGeometry nat | CentralTruncated nat | LocalGeometry nat
  | LocalTruncated nat | NameMismatch nat | PayloadGeometry nat | FlagsMismatch nat
  | MethodMismatch nat | CrcMismatch nat | DescriptorMismatch nat | LibraryHeader nat string
  | AggregateOverflow

primrec zip_reason_text :: "zip_reason \<Rightarrow> string" where
  "zip_reason_text InputBudget = ''container input bytes exceed L0 safety budget''"
| "zip_reason_text MemberBudget = ''member count exceeds L1 inventory budget''"
| "zip_reason_text (CentralDirectoryInvalid e) = ''ZIP central-directory validation failed: '' @ e"
| "zip_reason_text (PrefixDirectoryInvalid e) =
     ''prefix-adjusted ZIP central-directory validation failed: '' @ e"
| "zip_reason_text (EntryUnreadable i e) =
     ''cannot read ZIP central-directory entry '' @ to_dec i @ '': '' @ e"
| "zip_reason_text (CentralGeometry i) =
     ''invalid ZIP central-directory entry geometry at index '' @ to_dec i"
| "zip_reason_text (CentralTruncated i) =
     ''truncated ZIP central-directory variable fields at index '' @ to_dec i"
| "zip_reason_text (LocalGeometry i) = ''invalid ZIP local-header geometry at index '' @ to_dec i"
| "zip_reason_text (LocalTruncated i) = ''truncated ZIP local-header fields at index '' @ to_dec i"
| "zip_reason_text (NameMismatch i) = ''ZIP local/central filename mismatch at index '' @ to_dec i"
| "zip_reason_text (PayloadGeometry i) =
     ''ZIP compressed payload geometry exceeds member-data region at index '' @ to_dec i"
| "zip_reason_text (FlagsMismatch i) = ''ZIP local/central flags mismatch at index '' @ to_dec i"
| "zip_reason_text (MethodMismatch i) =
     ''ZIP local/central compression-method mismatch at index '' @ to_dec i"
| "zip_reason_text (CrcMismatch i) = ''ZIP local/central CRC or size mismatch at index '' @ to_dec i"
| "zip_reason_text (DescriptorMismatch i) =
     ''ZIP data descriptor does not match central-directory CRC/sizes at index '' @ to_dec i"
| "zip_reason_text (LibraryHeader i e) =
     ''ZIP library header validation failed at index '' @ to_dec i @ '': '' @ e"
| "zip_reason_text AggregateOverflow = ''ZIP aggregate member sizes overflow uint64 accounting''"

datatype member_reason =
    PathNotPortable | PathNotAscii | SymlinkForbidden | ObjectForbidden
  | PathDuplicated | PathCaseCollision | MemberEncrypted | MethodUnsupported
  | SizeOverLimit | RatioOverLimit

primrec member_reason_text :: "member_reason \<Rightarrow> string" where
  "member_reason_text PathNotPortable = ''member path is not a portable safe relative path''"
| "member_reason_text PathNotAscii =
     ''non-ASCII path requires a Unicode normalization/casefold policy''"
| "member_reason_text SymlinkForbidden = ''ZIP symlink materialization is forbidden''"
| "member_reason_text ObjectForbidden = ''non-regular ZIP filesystem object is forbidden''"
| "member_reason_text PathDuplicated = ''normalized path is duplicated''"
| "member_reason_text PathCaseCollision = ''portable ASCII case-fold path collision''"
| "member_reason_text MemberEncrypted =
     ''encrypted ZIP member; no credential guessing is attempted''"
| "member_reason_text MethodUnsupported =
     ''compression/encryption method is unsupported by the bounded decoder''"
| "member_reason_text SizeOverLimit = ''declared uncompressed member size exceeds limit''"
| "member_reason_text RatioOverLimit = ''declared expansion ratio exceeds limit''"

record layer_status =
  l_name :: string
  l_state :: layer_state
  l_evidence :: "string list"
  l_failure :: "zip_reason option"
  l_budget_kind :: string
  l_budget_used :: nat
  l_budget_limit :: nat

record ingress_limits =
  max_input_bytes :: nat
  max_members :: nat
  max_path_bytes :: nat
  max_member_uncompressed_bytes :: nat
  max_total_declared_uncompressed_bytes :: nat
  max_total_materialized_bytes :: nat
  max_probe_bytes :: nat
  max_child_candidates :: nat
  max_recursive_depth :: nat
  max_expansion_ratio :: nat

definition default_limits :: ingress_limits where
  "default_limits = \<lparr>max_input_bytes = 512 * 1024 * 1024, max_members = 4096, max_path_bytes = 4096,
     max_member_uncompressed_bytes = 128 * 1024 * 1024,
     max_total_declared_uncompressed_bytes = 2 * 1024 * 1024 * 1024,
     max_total_materialized_bytes = 256 * 1024 * 1024, max_probe_bytes = 4 * 1024 * 1024,
     max_child_candidates = 128, max_recursive_depth = 4, max_expansion_ratio = 1000\<rparr>"

record member =
  e_index :: nat
  e_name :: string
  e_normalized :: path
  e_state :: member_state
  e_failure :: "member_reason option"
  e_coordinate :: string
  e_compressed_sha256 :: string
  e_compressed_size :: nat
  e_uncompressed_size :: nat
  e_local_header_offset :: nat
  e_data_offset :: nat
  e_central_directory_offset :: nat
  e_crc32 :: nat
  e_method :: nat
  e_flags :: nat
  e_directory :: bool
  e_symlink :: bool
  e_special_file :: bool
  e_encrypted :: bool
  e_supported_method :: bool
  e_safe_path :: bool
  e_portable_path :: bool
  e_duplicate_path :: bool
  e_case_collision :: bool
  e_data_descriptor :: bool
  e_safe_to_materialize :: bool

record ingress_info =
  i_kind :: string
  i_state :: ingress_state
  i_source_identity :: string
  i_parent_sha256 :: string
  i_failure :: "zip_reason option"
  i_recognized :: bool
  i_structurally_valid :: bool
  i_zip64 :: bool
  i_credential_required :: bool
  i_policy_gated :: bool
  i_parent_size :: nat
  i_archive_base_offset :: nat
  i_central_directory_offset :: nat
  i_member_count :: nat
  i_regular_file_count :: nat
  i_encrypted_file_count :: nat
  i_safe_materialization_count :: nat
  i_total_compressed_bytes :: nat
  i_total_declared_uncompressed_bytes :: nat
  i_limits :: ingress_limits
  i_anomalies :: "string list"
  i_layers :: "layer_status list"
  i_members :: "member list"

text \<open>What the code reads of miniz: one directory entry, and an opened archive.\<close>

record mz_stat =
  m_central_dir_ofs :: u64
  m_local_header_ofs :: u64
  m_comp_size :: u64
  m_uncomp_size :: u64
  m_crc32 :: u32
  m_bit_flag :: "16 word"
  m_method :: "16 word"
  m_version_made_by :: "16 word"
  m_external_attr :: u32
  m_is_encrypted :: bool
  m_is_supported :: bool
  m_is_directory :: bool

record mz_reader =
  mz_num_files :: u32
  mz_central_directory_file_ofs :: u64
  mz_is_zip64 :: bool
  mz_file_stat :: "nat \<Rightarrow> string + mz_stat"
  mz_validate_headers :: "nat \<Rightarrow> string option"

type_synonym mz_init = "bytes \<Rightarrow> string + mz_reader"

subsection \<open>Reading the bytes\<close>

definition kLocalHeaderSig :: nat where "kLocalHeaderSig = 0x04034b50"
definition kCentralHeaderSig :: nat where "kCentralHeaderSig = 0x02014b50"
definition kEocdSig :: nat where "kEocdSig = 0x06054b50"
definition kDataDescriptorSig :: nat where "kDataDescriptorSig = 0x08074b50"
definition kZipFlagEncrypted :: nat where "kZipFlagEncrypted = 1"
definition kZipFlagDataDescriptor :: nat where "kZipFlagDataDescriptor = 8"
definition kZipFlagStrongEncryption :: nat where "kZipFlagStrongEncryption = 0x40"
definition kMaxAnomalySamples :: nat where "kMaxAnomalySamples = 128"

definition zip_le16 :: "bytes \<Rightarrow> nat \<Rightarrow> nat" where
  "zip_le16 b off =
     (if length b < off \<or> length b - off < 2 then 0
      else unat (b ! off) OR push_bit 8 (unat (b ! (off + 1))))"

definition zip_le32 :: "bytes \<Rightarrow> nat \<Rightarrow> nat" where
  "zip_le32 b off =
     (if length b < off \<or> length b - off < 4 then 0
      else or4 (b ! off) (b ! (off + 1)) (b ! (off + 2)) (b ! (off + 3)))"

definition zip_le64 :: "bytes \<Rightarrow> nat \<Rightarrow> nat" where
  "zip_le64 b off = zip_le32 b off OR push_bit 32 (zip_le32 b (wrap64 (off + 4)))"

definition add_u64 :: "nat \<Rightarrow> nat \<Rightarrow> nat option" where
  "add_u64 a b = (if u64_max - b < a then None else Some (wrap64 (a + b)))"

definition span_in_bounds :: "bytes \<Rightarrow> nat \<Rightarrow> nat \<Rightarrow> bool" where
  "span_in_bounds b off len \<longleftrightarrow> off \<le> length b \<and> len \<le> length b - off"

definition push_anomaly :: "string \<Rightarrow> ingress_info \<Rightarrow> ingress_info" where
  "push_anomaly s out =
     (if length (i_anomalies out) < kMaxAnomalySamples
      then out\<lparr>i_anomalies := i_anomalies out @ [s]\<rparr> else out)"

definition layer :: "string \<Rightarrow> string \<Rightarrow> nat \<Rightarrow> layer_status" where
  "layer name budget_kind limit =
     \<lparr>l_name = name, l_state = NotEvaluated, l_evidence = [], l_failure = None,
      l_budget_kind = budget_kind, l_budget_used = 0, l_budget_limit = limit\<rparr>"

definition initial_layers :: "ingress_limits \<Rightarrow> nat \<Rightarrow> layer_status list" where
  "initial_layers limits input_bytes =
     [(layer ''L0_TRANSPORT_CONTAINER'' ''input_bytes'' (max_input_bytes limits))
        \<lparr>l_budget_used := input_bytes\<rparr>,
      layer ''L1_MEMBER_IDENTITY'' ''member_count'' (max_members limits),
      layer ''L2_INNER_FORMAT_MEDIA'' ''probe_bytes'' (max_probe_bytes limits),
      layer ''L3_EXECUTABLE_DATA_ROLE'' ''candidate_count'' (max_child_candidates limits),
      layer ''L4_CHILD_ANALYSIS_ELIGIBILITY'' ''materialized_bytes''
        (max_total_materialized_bytes limits),
      layer ''L5_SEMANTIC_ROUTING_PROVENANCE'' ''recursive_depth'' (max_recursive_depth limits)]"

definition with_layer :: "nat \<Rightarrow> (layer_status \<Rightarrow> layer_status) \<Rightarrow> ingress_info \<Rightarrow> ingress_info" where
  "with_layer k f out = out\<lparr>i_layers := (i_layers out)[k := f (i_layers out ! k)]\<rparr>"

definition layer_evidence :: "nat \<Rightarrow> string \<Rightarrow> ingress_info \<Rightarrow> ingress_info" where
  "layer_evidence k s = with_layer k (\<lambda>l. l\<lparr>l_evidence := l_evidence l @ [s]\<rparr>)"

definition layer_set :: "nat \<Rightarrow> layer_state \<Rightarrow> ingress_info \<Rightarrow> ingress_info" where
  "layer_set k st = with_layer k (\<lambda>l. l\<lparr>l_state := st\<rparr>)"

definition fail_structure :: "zip_reason \<Rightarrow> ingress_info \<Rightarrow> ingress_info" where
  "fail_structure reason out =
     layer_set 1 NotEvaluated
       (with_layer 0 (\<lambda>l. l\<lparr>l_state := LayerFailed, l_failure := Some reason\<rparr>)
         (out\<lparr>i_state := Malformed, i_structurally_valid := False, i_failure := Some reason\<rparr>))"

text \<open>One layout of a data descriptor, with or without its signature; then both.\<close>

definition descriptor_at :: "bytes \<Rightarrow> nat \<Rightarrow> nat \<Rightarrow> nat \<Rightarrow> nat \<Rightarrow> bool" where
  "descriptor_at data p crc csize usize \<longleftrightarrow>
     (if \<not> span_in_bounds data p 12 then False
      else if zip_le32 data p \<noteq> crc then False
      else if zip_le32 data (wrap64 (p + 4)) = csize \<and> zip_le32 data (wrap64 (p + 8)) = usize then True
      else if \<not> span_in_bounds data p 20 then False
      else zip_le64 data (wrap64 (p + 4)) = csize \<and> zip_le64 data (wrap64 (p + 12)) = usize)"

definition descriptor_matches :: "bytes \<Rightarrow> nat \<Rightarrow> nat \<Rightarrow> nat \<Rightarrow> nat \<Rightarrow> bool" where
  "descriptor_matches data off crc csize usize \<longleftrightarrow>
     descriptor_at data off crc csize usize \<or>
     (span_in_bounds data off 4 \<and> zip_le32 data off = kDataDescriptorSig \<and>
      descriptor_at data (wrap64 (off + 4)) crc csize usize)"

subsection \<open>Locating the directory\<close>

text \<open>The backward scan, from \<open>pos\<close> down to \<open>floor\<close>.\<close>

fun eocd_scan :: "bytes \<Rightarrow> nat \<Rightarrow> nat \<Rightarrow> nat option" where
  "eocd_scan data floor pos =
     (if zip_le32 data pos = kEocdSig \<and> pos + 22 + zip_le16 data (pos + 20) = length data
      then Some pos
      else if pos \<le> floor then None
      else eocd_scan data floor (pos - 1))"

declare eocd_scan.simps [simp del]

definition strict_eocd_offset :: "bytes \<Rightarrow> nat option" where
  "strict_eocd_offset data =
     (if length data < 22 then None
      else eocd_scan data (if 65557 < length data then length data - 65557 else 0) (length data - 22))"

definition classic_prefix_base :: "bytes \<Rightarrow> nat \<Rightarrow> nat option" where
  "classic_prefix_base data eocd =
     (if \<not> span_in_bounds data eocd 22 then None
      else
        let cd_size32 = zip_le32 data (eocd + 12); cd_off32 = zip_le32 data (eocd + 16) in
        if cd_size32 = 0xffffffff \<or> cd_off32 = 0xffffffff then None
        else if eocd < cd_size32 then None
        else
          let physical_cd = eocd - cd_size32 in
          if physical_cd < cd_off32 then None
          else
            let base = physical_cd - cd_off32 in
            if base = 0 \<or> length data \<le> base then None
            else if \<not> span_in_bounds data physical_cd 4 \<or> zip_le32 data physical_cd \<noteq> kCentralHeaderSig
            then None
            else Some base)"

definition has_strict_zip_eocd :: "bytes \<Rightarrow> bool" where
  "has_strict_zip_eocd data \<longleftrightarrow> strict_eocd_offset data \<noteq> None"

subsection \<open>Checking one directory entry\<close>

definition byte_char :: "byte \<Rightarrow> char" where
  "byte_char b = char_of (unat b)"

text \<open>
  The geometry checks. The result is the physical offset of the central entry, the raw name, the
  offset of the local header and the offset of the payload.
\<close>

definition central_name ::
  "bytes \<Rightarrow> nat \<Rightarrow> nat \<Rightarrow> (zip_reason, string) outcome" where
  "central_name data i central_off =
     (if \<not> span_in_bounds data central_off 46 \<or> zip_le32 data central_off \<noteq> kCentralHeaderSig
      then stop (CentralGeometry i)
      else
        let name_len = zip_le16 data (wrap64 (central_off + 28));
            extra_len = zip_le16 data (wrap64 (central_off + 30));
            comment_len = zip_le16 data (wrap64 (central_off + 32))
        in case add_u64 (wrap64 (central_off + 46)) (name_len + extra_len + comment_len) of
             None \<Rightarrow> stop (CentralTruncated i)
           | Some central_end \<Rightarrow>
               if length data < central_end then stop (CentralTruncated i)
               else step (access (subspan data (wrap64 (central_off + 46)) name_len))
                      (\<lambda>raw. pass (map byte_char raw)))"

definition local_payload ::
  "bytes \<Rightarrow> nat \<Rightarrow> nat \<Rightarrow> string \<Rightarrow> (zip_reason, nat) outcome" where
  "local_payload data i local_off raw_name =
     (if \<not> span_in_bounds data local_off 30 \<or> zip_le32 data local_off \<noteq> kLocalHeaderSig
      then stop (LocalGeometry i)
      else
        let name_len = zip_le16 data (wrap64 (local_off + 26));
            extra_len = zip_le16 data (wrap64 (local_off + 28))
        in case add_u64 (wrap64 (local_off + 30)) (name_len + extra_len) of
             None \<Rightarrow> stop (LocalTruncated i)
           | Some data_off \<Rightarrow>
               if length data < data_off then stop (LocalTruncated i)
               else if name_len \<noteq> length raw_name \<or> \<not> span_in_bounds data (wrap64 (local_off + 30)) name_len
               then stop (NameMismatch i)
               else step (access (subspan data (wrap64 (local_off + 30)) name_len))
                      (\<lambda>local_name. if map byte_char local_name \<noteq> raw_name then stop (NameMismatch i)
                                    else pass data_off))"

text \<open>Flags, method, CRC and sizes of the local header against what the reader reports.\<close>

definition member_consistent ::
  "bytes \<Rightarrow> nat \<Rightarrow> mz_stat \<Rightarrow> nat \<Rightarrow> nat \<Rightarrow> zip_reason option" where
  "member_consistent data i st local_off data_off =
     (if zip_le16 data (wrap64 (local_off + 6)) \<noteq> unat (m_bit_flag st) then Some (FlagsMismatch i)
      else if zip_le16 data (wrap64 (local_off + 8)) \<noteq> unat (m_method st) then Some (MethodMismatch i)
      else if unat (m_bit_flag st) AND kZipFlagDataDescriptor = 0 then
        let local_crc = zip_le32 data (wrap64 (local_off + 14));
            local_comp = zip_le32 data (wrap64 (local_off + 18));
            local_uncomp = zip_le32 data (wrap64 (local_off + 22))
        in if local_crc \<noteq> unat (m_crc32 st) \<or>
              (local_comp \<noteq> 0xffffffff \<and> local_comp \<noteq> unat (m_comp_size st)) \<or>
              (local_uncomp \<noteq> 0xffffffff \<and> local_uncomp \<noteq> unat (m_uncomp_size st))
           then Some (CrcMismatch i) else None
      else if \<not> descriptor_matches data (wrap64 (data_off + unat (m_comp_size st)))
                  (unat (m_crc32 st)) (unat (m_comp_size st)) (unat (m_uncomp_size st))
      then Some (DescriptorMismatch i) else None)"

text \<open>The member record, its payload hashed; lines 412 to 435.\<close>

definition coordinate_for :: "nat \<Rightarrow> nat \<Rightarrow> nat \<Rightarrow> string" where
  "coordinate_for index data_offset compressed_size =
     ''zip:member['' @ to_dec index @ '']:compressed@'' @ to_dec data_offset @ ''+'' @ to_dec compressed_size"

definition unix_creator :: "mz_stat \<Rightarrow> bool" where
  "unix_creator st \<longleftrightarrow>
     (let creator = unat (drop_bit 8 (m_version_made_by st)) in creator = 3 \<or> creator = 19)"

definition unix_type :: "mz_stat \<Rightarrow> nat" where
  "unix_type st = unat (drop_bit 16 (m_external_attr st)) AND 0xF000"

definition build_member ::
  "ingress_limits \<Rightarrow> nat \<Rightarrow> mz_stat \<Rightarrow> string \<Rightarrow> nat \<Rightarrow> nat \<Rightarrow> nat \<Rightarrow> string \<Rightarrow> member" where
  "build_member limits i st raw_name central_off local_off data_off sha =
     (let (safe, normalized, portable) =
            safe_relative_name raw_name (m_is_directory st) (max_path_bytes limits)
      in \<lparr>e_index = i, e_name = raw_name, e_normalized = normalized, e_state = NoMemberState,
          e_failure = None, e_coordinate = coordinate_for i data_off (unat (m_comp_size st)),
          e_compressed_sha256 = sha, e_compressed_size = unat (m_comp_size st),
          e_uncompressed_size = unat (m_uncomp_size st), e_local_header_offset = local_off,
          e_data_offset = data_off, e_central_directory_offset = central_off,
          e_crc32 = unat (m_crc32 st), e_method = unat (m_method st), e_flags = unat (m_bit_flag st),
          e_directory = m_is_directory st,
          e_symlink = (unix_creator st \<and> unix_type st = 0xA000),
          e_special_file = (unix_creator st \<and> unix_type st \<noteq> 0 \<and> unix_type st \<noteq> 0x8000 \<and>
            unix_type st \<noteq> 0x4000 \<and> unix_type st \<noteq> 0xA000),
          e_encrypted = (m_is_encrypted st \<or>
            unat (m_bit_flag st) AND (kZipFlagEncrypted OR kZipFlagStrongEncryption) \<noteq> 0),
          e_supported_method = m_is_supported st, e_safe_path = safe, e_portable_path = portable,
          e_duplicate_path = False, e_case_collision = False,
          e_data_descriptor = (unat (m_bit_flag st) AND kZipFlagDataDescriptor \<noteq> 0),
          e_safe_to_materialize = False\<rparr>)"

definition read_member ::
  "bytes \<Rightarrow> mz_reader \<Rightarrow> ingress_limits \<Rightarrow> nat \<Rightarrow> nat \<Rightarrow> nat \<Rightarrow> (zip_reason, member) outcome" where
  "read_member data rd limits base cd_off i =
     (case mz_file_stat rd i of
        Inl e \<Rightarrow> stop (EntryUnreadable i e)
      | Inr st \<Rightarrow>
          let central_off = wrap64 (base + unat (mz_central_directory_file_ofs rd) + unat (m_central_dir_ofs st));
              local_off = wrap64 (base + unat (m_local_header_ofs st)); csize = unat (m_comp_size st)
          in step (central_name data i central_off) (\<lambda>raw_name.
             step (local_payload data i local_off raw_name) (\<lambda>data_off.
               if \<not> span_in_bounds data data_off csize \<or> cd_off < wrap64 (data_off + csize)
               then stop (PayloadGeometry i)
               else case member_consistent data i st local_off data_off of
                 Some r \<Rightarrow> stop r
               | None \<Rightarrow>
                   (case (if \<not> m_is_encrypted st \<and> m_is_supported st \<and> \<not> m_is_directory st
                          then mz_validate_headers rd i else None) of
                      Some e \<Rightarrow> stop (LibraryHeader i e)
                    | None \<Rightarrow>
                        step (access (subspan data data_off csize)) (\<lambda>payload.
                        step (access (sha256_bytes payload)) (\<lambda>sha.
                          pass (build_member limits i st raw_name central_off local_off data_off sha)))))))"

subsection \<open>Registering members\<close>

text \<open>
  The two hash maps from a normalized (respectively folded) path to a member index. The code
  indexes the member vector with what it finds there; an index outside it would be undefined.
\<close>

record seen =
  exact_seen :: "string \<rightharpoonup> nat"
  case_seen :: "string \<rightharpoonup> nat"

definition mark_member :: "nat \<Rightarrow> (member \<Rightarrow> member) \<Rightarrow> ingress_info \<Rightarrow> ingress_info option" where
  "mark_member k f out =
     (if k < length (i_members out)
      then Some (out\<lparr>i_members := (i_members out)[k := f (i_members out ! k)]\<rparr>) else None)"

type_synonym registration = "seen \<times> ingress_info \<times> member"

definition note_exact :: "registration \<Rightarrow> registration option" where
  "note_exact = (\<lambda>(sn, out, e).
     case exact_seen sn (e_normalized e) of
       Some k \<Rightarrow> map_option (\<lambda>out'. (sn,
           push_anomaly (''duplicate normalized member path: '' @ e_normalized e) out',
           e\<lparr>e_duplicate_path := True\<rparr>))
         (mark_member k (\<lambda>m. m\<lparr>e_duplicate_path := True\<rparr>) out)
     | None \<Rightarrow>
         Some (sn\<lparr>exact_seen := (exact_seen sn)(e_normalized e \<mapsto> length (i_members out))\<rparr>, out, e))"

definition note_case :: "registration \<Rightarrow> registration option" where
  "note_case = (\<lambda>(sn, out, e).
     let folded = lower_ascii (e_normalized e) in
     case case_seen sn folded of
       Some k \<Rightarrow>
         if k < length (i_members out) then
           let other = e_normalized (i_members out ! k) in
           if other \<noteq> e_normalized e then
             map_option (\<lambda>out'. (sn,
                 push_anomaly (''portable case collision: '' @ other @ '' <> '' @ e_normalized e) out',
                 e\<lparr>e_case_collision := True\<rparr>))
               (mark_member k (\<lambda>m. m\<lparr>e_case_collision := True\<rparr>) out)
           else Some (sn, out, e)
         else None
     | None \<Rightarrow> Some (sn\<lparr>case_seen := (case_seen sn)(folded \<mapsto> length (i_members out))\<rparr>, out, e))"

definition register_path :: "registration \<Rightarrow> registration option" where
  "register_path s =
     (if e_safe_path (snd (snd s)) \<and> e_normalized (snd (snd s)) \<noteq> []
      then Option.bind (note_exact s) note_case else Some s)"

definition count_member :: "member \<Rightarrow> ingress_info \<Rightarrow> ingress_info" where
  "count_member e out =
     (if e_directory e then out
      else
        let out' = out\<lparr>i_regular_file_count := i_regular_file_count out + 1\<rparr>
        in if e_encrypted e then out'\<lparr>i_encrypted_file_count := i_encrypted_file_count out' + 1\<rparr> else out')"

definition append_member :: "member \<Rightarrow> ingress_info \<Rightarrow> (ingress_info, ingress_info) outcome" where
  "append_member e out =
     (if u64_max - e_compressed_size e < i_total_compressed_bytes out \<or>
         u64_max - e_uncompressed_size e < i_total_declared_uncompressed_bytes out
      then stop (fail_structure AggregateOverflow out)
      else pass (out
        \<lparr>i_total_compressed_bytes := wrap64 (i_total_compressed_bytes out + e_compressed_size e),
         i_total_declared_uncompressed_bytes :=
           wrap64 (i_total_declared_uncompressed_bytes out + e_uncompressed_size e),
         i_members := i_members out @ [e]\<rparr>))"

fun inspect_members ::
  "bytes \<Rightarrow> mz_reader \<Rightarrow> ingress_limits \<Rightarrow> nat list \<Rightarrow> seen \<Rightarrow> ingress_info \<Rightarrow>
   (ingress_info, seen \<times> ingress_info) outcome" where
  "inspect_members data rd limits [] sn out = pass (sn, out)"
| "inspect_members data rd limits (i # rest) sn out =
     step (or_stop (read_member data rd limits (i_archive_base_offset out)
              (i_central_directory_offset out) i) (\<lambda>r. fail_structure r out)) (\<lambda>e.
     step (access (register_path (sn, out, e))) (\<lambda>(sn', out', e').
     step (append_member e' (count_member e' out')) (\<lambda>out''.
       inspect_members data rd limits rest sn' out'')))"

subsection \<open>The verdict on each member and on the container\<close>

definition ratio_exceeded :: "ingress_limits \<Rightarrow> member \<Rightarrow> bool" where
  "ratio_exceeded limits e \<longleftrightarrow>
     (if e_compressed_size e = 0 then (if e_uncompressed_size e = 0 then max_expansion_ratio limits < 1 else True)
      else max_expansion_ratio limits * e_compressed_size e < e_uncompressed_size e)"

definition finalize_member_state :: "ingress_limits \<Rightarrow> member \<Rightarrow> member" where
  "finalize_member_state limits e0 =
     (let e = e0\<lparr>e_safe_to_materialize := False, e_failure := None\<rparr> in
      if \<not> e_safe_path e then
        e\<lparr>e_state := UnsafePath, e_failure := Some PathNotPortable\<rparr>
      else if \<not> e_portable_path e then
        e\<lparr>e_state := PortabilityUnverified,
          e_failure := Some PathNotAscii\<rparr>
      else if e_symlink e then
        e\<lparr>e_state := LinkRefused, e_failure := Some SymlinkForbidden\<rparr>
      else if e_special_file e then
        e\<lparr>e_state := SpecialFileRefused, e_failure := Some ObjectForbidden\<rparr>
      else if e_directory e then e\<lparr>e_state := IsDirectory\<rparr>
      else if e_duplicate_path e then
        e\<lparr>e_state := DuplicatePathRefused, e_failure := Some PathDuplicated\<rparr>
      else if e_case_collision e then
        e\<lparr>e_state := CaseCollisionRefused, e_failure := Some PathCaseCollision\<rparr>
      else if e_encrypted e then
        e\<lparr>e_state := MemberCredentialRequired,
          e_failure := Some MemberEncrypted\<rparr>
      else if \<not> e_supported_method e then
        e\<lparr>e_state := UnsupportedMethod,
          e_failure := Some MethodUnsupported\<rparr>
      else if max_member_uncompressed_bytes limits < e_uncompressed_size e then
        e\<lparr>e_state := BudgetRefused, e_failure := Some SizeOverLimit\<rparr>
      else if ratio_exceeded limits e then
        e\<lparr>e_state := BudgetRefused, e_failure := Some RatioOverLimit\<rparr>
      else e\<lparr>e_state := SafeToMaterialize, e_safe_to_materialize := True\<rparr>)"

fun finalize_members :: "ingress_limits \<Rightarrow> member list \<Rightarrow> ingress_info \<Rightarrow> ingress_info" where
  "finalize_members limits [] out = out"
| "finalize_members limits (e0 # rest) out =
     (let e = finalize_member_state limits e0;
          out1 = out\<lparr>i_members := i_members out @ [e]\<rparr>;
          out2 = (if e_safe_to_materialize e
                  then out1\<lparr>i_safe_materialization_count := i_safe_materialization_count out1 + 1\<rparr> else out1);
          out3 = (if \<not> e_directory e \<and> \<not> e_safe_to_materialize e then out2\<lparr>i_policy_gated := True\<rparr> else out2)
      in finalize_members limits rest out3)"

definition conclude :: "ingress_limits \<Rightarrow> ingress_info \<Rightarrow> ingress_info" where
  "conclude limits out0 =
     (let out1 = finalize_members limits (i_members out0) (out0\<lparr>i_members := []\<rparr>);
          out2 = (if max_total_declared_uncompressed_bytes limits < i_total_declared_uncompressed_bytes out1
                  then push_anomaly ''aggregate declared uncompressed bytes exceed default ingress policy''
                         (out1\<lparr>i_policy_gated := True\<rparr>)
                  else out1);
          out3 = out2\<lparr>i_credential_required := (i_encrypted_file_count out2 \<noteq> 0), i_structurally_valid := True\<rparr>;
          out4 = layer_evidence 0
                   ''every central entry matched its local filename/flags/method and CRC/size contract''
                   (layer_set 0 LayerConfirmed out3);
          out5 = layer_evidence 1
                   ''member index, safe path, compressed identity, size, CRC, and parent-file offsets recorded''
                   (layer_set 1 (if i_policy_gated out4 then LayerConfirmedGated else LayerConfirmed) out4);
          out6 = with_layer 1 (\<lambda>l. l\<lparr>l_budget_used := i_member_count out5\<rparr>) out5
      in out6\<lparr>i_state :=
           (if i_regular_file_count out6 \<noteq> 0 \<and> i_encrypted_file_count out6 = i_regular_file_count out6
            then CredentialRequired
            else if i_policy_gated out6 then ConfirmedGated else IngressConfirmed)\<rparr>)"

subsection \<open>The inspection\<close>

definition empty_ingress :: ingress_info where
  "empty_ingress =
     \<lparr>i_kind = ''unknown'', i_state = Absent, i_source_identity = [], i_parent_sha256 = [],
      i_failure = None, i_recognized = False, i_structurally_valid = False, i_zip64 = False,
      i_credential_required = False, i_policy_gated = False, i_parent_size = 0,
      i_archive_base_offset = 0, i_central_directory_offset = 0, i_member_count = 0,
      i_regular_file_count = 0, i_encrypted_file_count = 0, i_safe_materialization_count = 0,
      i_total_compressed_bytes = 0, i_total_declared_uncompressed_bytes = 0,
      i_limits = default_limits, i_anomalies = [], i_layers = [], i_members = []\<rparr>"

text \<open>Opening the archive, directly or behind a self-extracting prefix; lines 302 to 320.\<close>

definition open_archive ::
  "mz_init \<Rightarrow> bytes \<Rightarrow> nat \<Rightarrow> ingress_info \<Rightarrow> (ingress_info, mz_reader \<times> ingress_info) outcome" where
  "open_archive init data eocd out =
     (case init data of
        Inr rd \<Rightarrow> pass (rd, out)
      | Inl first_error \<Rightarrow>
          (case classic_prefix_base data eocd of
             None \<Rightarrow> stop (fail_structure (CentralDirectoryInvalid first_error) out)
           | Some prefix \<Rightarrow>
               let out1 = out\<lparr>i_archive_base_offset := prefix\<rparr>
               in step (access (subspan data prefix (length data - prefix))) (\<lambda>archive.
                    case init archive of
                      Inl e \<Rightarrow> stop (fail_structure (PrefixDirectoryInvalid e) out1)
                    | Inr rd \<Rightarrow> pass (rd, layer_evidence 0
                        ''self-extracting/prefixed ZIP base proven from EOCD central-directory geometry''
                        out1))))"

definition begin_inventory :: "mz_reader \<Rightarrow> ingress_info \<Rightarrow> ingress_info" where
  "begin_inventory rd out =
     layer_evidence 0 ''miniz central-directory reader accepted archive geometry''
       ((with_layer 1 (\<lambda>l. l\<lparr>l_budget_used := unat (mz_num_files rd)\<rparr>)
          (out\<lparr>i_member_count := unat (mz_num_files rd)\<rparr>))
        \<lparr>i_central_directory_offset :=
           wrap64 (i_archive_base_offset out + unat (mz_central_directory_file_ofs rd)),
         i_zip64 := mz_is_zip64 rd\<rparr>)"

definition inspect_body ::
  "mz_init \<Rightarrow> bytes \<Rightarrow> ingress_limits \<Rightarrow> nat \<Rightarrow> ingress_info \<Rightarrow> (ingress_info, ingress_info) outcome" where
  "inspect_body init data limits eocd out =
     step (access (sha256_bytes data)) (\<lambda>sha.
     step (open_archive init data eocd (out\<lparr>i_parent_sha256 := sha\<rparr>)) (\<lambda>(rd, out1).
       let out2 = begin_inventory rd out1 in
       if max_members limits < i_member_count out2 then
         stop (with_layer 1 (\<lambda>l. l\<lparr>l_state := LayerRefused, l_failure := Some MemberBudget\<rparr>)
           (layer_set 0 LayerPartial (out2\<lparr>i_state := IngressRefused, i_failure := Some MemberBudget\<rparr>)))
       else
         step (inspect_members data rd limits [0..<i_member_count out2]
                 \<lparr>exact_seen = Map.empty, case_seen = Map.empty\<rparr> out2) (\<lambda>(sn, out3).
           pass (conclude limits out3))))"

definition inspect_zip_container ::
  "mz_init \<Rightarrow> bytes \<Rightarrow> string \<Rightarrow> ingress_limits \<Rightarrow> ingress_info option" where
  "inspect_zip_container init data source_identity limits =
     (let out0 = empty_ingress\<lparr>i_source_identity := source_identity, i_parent_size := length data,
                   i_limits := limits, i_layers := initial_layers limits (length data)\<rparr>
      in case strict_eocd_offset data of
           None \<Rightarrow> Some out0
         | Some eocd \<Rightarrow>
             let out1 = layer_evidence 0 ''EOCD with self-consistent comment length reaches EOF''
                          (layer_set 0 LayerCandidate (out0\<lparr>i_recognized := True, i_kind := ''zip''\<rparr>))
             in if max_input_bytes limits < length data then
                  Some (with_layer 0 (\<lambda>l. l\<lparr>l_state := LayerRefused, l_failure := Some InputBudget\<rparr>)
                    (out1\<lparr>i_state := IngressRefused, i_failure := Some InputBudget\<rparr>))
                else map_option (case_sum id id) (inspect_body init data limits eocd out1))"

end
