(* ===== verification/Outcomes.thy ===== *)
theory Outcomes
  imports Prelude "HOL-Library.Multiset" "HOL-Library.Product_Lexorder"
begin

section \<open>Outcomes, ranges and fields: what the bounded parsers decide\<close>

text \<open>
  Shared by the format recognizers: a small calculus for outcomes (what a stage stops with and what
  it passes on, and when it decides a condition), the overlap test on neighbours after sorting
  proved equivalent to pairwise disjointness of the ranges, and little-endian fields as numbers.
\<close>

subsection \<open>What an outcome meets\<close>

definition meets :: "('e \<Rightarrow> bool) \<Rightarrow> ('a \<Rightarrow> bool) \<Rightarrow> ('e, 'a) outcome \<Rightarrow> bool" where
  "meets Q P m \<longleftrightarrow> (case m of None \<Rightarrow> False | Some (Inl e) \<Rightarrow> Q e | Some (Inr a) \<Rightarrow> P a)"

lemma meets_simps [simp]:
  "meets Q P (pass a) \<longleftrightarrow> P a" "meets Q P (stop e) \<longleftrightarrow> Q e" "\<not> meets Q P None"
  by (simp_all add: meets_def pass_def stop_def)

lemma meets_step [simp]: "meets Q P (step m f) \<longleftrightarrow> meets Q (\<lambda>a. meets Q P (f a)) m"
  by (auto simp: meets_def step_def split: option.splits sum.splits)

lemma meets_access: "meets Q P (access m) \<longleftrightarrow> (\<exists>a. m = Some a \<and> P a)"
  by (auto simp: meets_def access_def split: option.splits)

lemma meets_access_Some [simp]: "meets Q P (access (Some a)) \<longleftrightarrow> P a"
  by (simp add: meets_access)

lemma meets_or_stop [simp]: "meets Q P (or_stop m h) \<longleftrightarrow> meets (Q \<circ> h) P m"
  by (auto simp: meets_def or_stop_def split: option.splits sum.splits)

lemma meets_mono: "meets Q P m \<Longrightarrow> (\<And>e. Q e \<Longrightarrow> Q' e) \<Longrightarrow> (\<And>a. P a \<Longrightarrow> P' a) \<Longrightarrow> meets Q' P' m"
  by (auto simp: meets_def split: option.splits sum.splits)

lemma meets_pass_conj: "meets Q P m \<Longrightarrow> m = pass a \<Longrightarrow> P a"
  by auto

lemma meets_cases:
  assumes "meets Q P m"
  obtains e where "m = stop e" "Q e" | a where "m = pass a" "P a"
  using assms by (auto simp: meets_def pass_def stop_def split: option.splits sum.splits)

lemma meets_defined: "meets Q P m \<Longrightarrow> defined m"
  by (auto simp: meets_def defined_def split: option.splits)

text \<open>The same for the evaluations that are defined, for facts that need no bounds.\<close>

definition keeps :: "('e \<Rightarrow> bool) \<Rightarrow> ('a \<Rightarrow> bool) \<Rightarrow> ('e, 'a) outcome \<Rightarrow> bool" where
  "keeps Q P m \<longleftrightarrow> m = None \<or> meets Q P m"

lemma keeps_simps [simp]:
  "keeps Q P (pass a) \<longleftrightarrow> P a" "keeps Q P (stop e) \<longleftrightarrow> Q e" "keeps Q P None"
  by (simp_all add: keeps_def) (simp_all add: pass_def stop_def)

lemma keeps_step [simp]: "keeps Q P (step m f) \<longleftrightarrow> keeps Q (\<lambda>a. keeps Q P (f a)) m"
  by (auto simp: keeps_def meets_def step_def split: option.splits sum.splits)

lemma keeps_access [simp]: "keeps Q P (access m) \<longleftrightarrow> (\<forall>a. m = Some a \<longrightarrow> P a)"
  by (cases m) (simp_all add: access_def keeps_def meets_def)

lemma keeps_or_stop [simp]: "keeps Q P (or_stop m h) \<longleftrightarrow> keeps (Q \<circ> h) P m"
  by (auto simp: keeps_def or_stop_def meets_def split: option.splits sum.splits)

lemma keeps_mono: "keeps Q P m \<Longrightarrow> (\<And>e. Q e \<Longrightarrow> Q' e) \<Longrightarrow> (\<And>a. P a \<Longrightarrow> P' a) \<Longrightarrow> keeps Q' P' m"
  unfolding keeps_def using meets_mono by blast

lemma keeps_all: "(\<And>e. Q e) \<Longrightarrow> (\<And>a. P a) \<Longrightarrow> keeps Q P m"
  by (auto simp: keeps_def meets_def split: option.splits sum.splits)

text \<open>
  A stage decides a condition: with it the stage passes with a result, without it the stage stops
  with a refused one.
\<close>

abbreviation decides_by :: "('e \<Rightarrow> bool) \<Rightarrow> bool \<Rightarrow> ('a \<Rightarrow> bool) \<Rightarrow> ('e, 'a) outcome \<Rightarrow> bool" where
  "decides_by refusal C P m \<equiv> meets (\<lambda>o'. refusal o' \<and> \<not> C) (\<lambda>a. C \<and> P a) m"

lemma decides_step:
  assumes "decides_by Q C P m" and "\<And>a. C \<Longrightarrow> P a \<Longrightarrow> decides_by Q D R (f a)"
  shows "decides_by Q (C \<and> D) R (step m f)"
  unfolding meets_step by (rule meets_mono [OF assms(1)]) (auto intro: meets_mono [OF assms(2)])

lemma decides_step2:
  assumes "decides_by Q C (\<lambda>(x, y). P x y) m" and "\<And>x y. C \<Longrightarrow> P x y \<Longrightarrow> decides_by Q D R (f x y)"
  shows "decides_by Q (C \<and> D) R (step m (\<lambda>(x, y). f x y))"
  using assms(1) by (rule decides_step) (use assms(2) in auto)

lemma decides_mono:
  "decides_by Q C P m \<Longrightarrow> C = D \<Longrightarrow> (\<And>a. C \<Longrightarrow> P a \<Longrightarrow> R a) \<Longrightarrow> decides_by Q D R m"
  by (auto elim!: meets_mono)

text \<open>The result of a recognizer whose stages stop and pass with a result of the same type.\<close>

definition settle :: "('a, 'a) outcome \<Rightarrow> 'a option" where
  "settle m = map_option (\<lambda>r. case r of Inl a \<Rightarrow> a | Inr a \<Rightarrow> a) m"

lemma settle_simps [simp]: "settle (pass a) = Some a" "settle (stop a) = Some a" "settle None = None"
  by (simp_all add: settle_def pass_def stop_def)

lemma settle_meets:
  assumes "decides_by Q C P m"
  obtains (stopped) a where "settle m = Some a" "Q a" "\<not> C" | (passed) a where "settle m = Some a" "C" "P a"
  using assms by (cases rule: meets_cases) auto

subsection \<open>Disjoint ranges\<close>

text \<open>Adjacent ranges of the sorted list overlap.\<close>

fun overlapping :: "(nat \<times> nat) list \<Rightarrow> bool" where
  "overlapping (a # b # rest) \<longleftrightarrow> fst b < snd a \<or> overlapping (b # rest)"
| "overlapping _ \<longleftrightarrow> False"

definition apart :: "nat \<times> nat \<Rightarrow> nat \<times> nat \<Rightarrow> bool" where
  "apart a b \<longleftrightarrow> snd a \<le> fst b \<or> snd b \<le> fst a"

lemma sorted_wrt_symmetric:
  assumes sym: "\<And>a b. R a b \<Longrightarrow> R b a" and eq: "mset xs = mset ys"
  shows "sorted_wrt R xs = sorted_wrt R ys"
  using eq
proof (induction xs arbitrary: ys)
  case Nil
  then show ?case by simp
next
  case (Cons x xs)
  then have "x \<in> set ys" by (metis list.set_intros(1) mset_eq_setD)
  then obtain us vs where ys: "ys = us @ x # vs" by (meson split_list)
  then have rest: "mset xs = mset (us @ vs)" using Cons.prems by simp
  then have sets: "set xs = set us \<union> set vs" by (metis mset_eq_setD set_append)
  have "sorted_wrt R ys \<longleftrightarrow> sorted_wrt R (us @ vs) \<and> (\<forall>u \<in> set us \<union> set vs. R x u)"
    unfolding ys by (auto simp: sorted_wrt_append dest: sym)
  then show ?case using Cons.IH [OF rest] sets by auto
qed

lemma not_overlapping_sorted:
  assumes "sorted xs" and "\<forall>r \<in> set xs. fst r < snd r"
  shows "\<not> overlapping xs \<longleftrightarrow> sorted_wrt (\<lambda>a b. snd a \<le> fst b) xs"
  using assms
proof (induction xs rule: overlapping.induct)
  case (1 a b rest)
  have "\<forall>r \<in> set rest. snd a \<le> fst r" if "snd a \<le> fst b" "\<forall>r \<in> set rest. snd b \<le> fst r"
    using that "1.prems"(2) by (metis less_imp_le_nat list.set_intros(1) list.set_intros(2) order_trans)
  then show ?case using 1 by auto
qed simp_all

lemma sorted_apart:
  assumes "sorted xs" and "\<forall>r \<in> set xs. fst r < snd r"
  shows "sorted_wrt apart xs \<longleftrightarrow> sorted_wrt (\<lambda>a b. snd a \<le> fst b) xs"
  using assms
proof (induction xs)
  case (Cons a xs)
  have "apart a b \<longleftrightarrow> snd a \<le> fst b" if "b \<in> set xs" for b
  proof -
    have "a \<le> b" "fst b < snd b" using Cons.prems that by auto
    then show ?thesis by (auto simp: apart_def less_eq_prod_def)
  qed
  then show ?case using Cons by auto
qed simp

lemma overlapping_sort_iff:
  assumes "\<forall>r \<in> set xs. fst r < snd r"
  shows "overlapping (sort xs) \<longleftrightarrow> \<not> sorted_wrt apart xs"
proof -
  have "sorted_wrt apart (sort xs) = sorted_wrt apart xs"
    by (rule sorted_wrt_symmetric) (auto simp: apart_def)
  then show ?thesis
    using assms not_overlapping_sorted [of "sort xs"] sorted_apart [of "sort xs"] by auto
qed

lemma sorted_wrt_upt_step:
  fixes f :: "nat \<Rightarrow> 'a::order"
  assumes "\<And>i. i < n \<Longrightarrow> i \<noteq> 0 \<Longrightarrow> f (i - 1) < f i"
  shows "sorted_wrt (\<lambda>x y. f x < f y) [0..<n]"
proof -
  have "j < n \<Longrightarrow> i < j \<Longrightarrow> f i < f j" for i j
  proof (induction j)
    case (Suc j)
    then show ?case using assms [of "Suc j"] by (cases "i = j") auto
  qed simp
  then show ?thesis by (simp add: sorted_wrt_iff_nth_less)
qed

subsection \<open>Little-endian fields\<close>

definition le_at :: "bytes \<Rightarrow> nat \<Rightarrow> nat \<Rightarrow> nat" where
  "le_at data off n = le_value (take n (drop off data))"

lemma le_at_less: "le_at data off n < 256 ^ n"
proof -
  have "le_at data off n < 256 ^ length (take n (drop off data))" unfolding le_at_def by (rule le_value_less)
  also have "\<dots> \<le> 256 ^ n" by (rule power_increasing) simp_all
  finally show ?thesis .
qed

lemma le_at_u64: "le_at data off 8 \<le> u64_max"
  using le_at_less [of data off 8] by (simp add: u64_max_def)

lemma le_at_u32: "le_at data off 4 < 4294967296"
  using le_at_less [of data off 4] by simp

end
