(* ===== verification/ZipSafety.thy ===== *)
theory ZipSafety
  imports ZipInspect Outcomes
begin

section \<open>What ZIP inspection guarantees\<close>

text \<open>
  Lemmas and properties of \<open>inspect_zip_container\<close>: it never reads outside the input,
  whatever the archive reader answers; a member is declared safe to materialize only when its
  name, kind, sizes and payload range are right; members whose paths collide are all refused; a
  container that fails a check has no safe member; the totals and counts are exact.
\<close>

subsection \<open>Projections\<close>

lemmas layer_defs = with_layer_def layer_evidence_def layer_set_def fail_structure_def push_anomaly_def

lemma with_layer_sel [simp]:
  "i_kind (with_layer k f out) = i_kind out"
  "i_state (with_layer k f out) = i_state out"
  "i_source_identity (with_layer k f out) = i_source_identity out"
  "i_parent_sha256 (with_layer k f out) = i_parent_sha256 out"
  "i_failure (with_layer k f out) = i_failure out"
  "i_recognized (with_layer k f out) = i_recognized out"
  "i_structurally_valid (with_layer k f out) = i_structurally_valid out"
  "i_zip64 (with_layer k f out) = i_zip64 out"
  "i_credential_required (with_layer k f out) = i_credential_required out"
  "i_policy_gated (with_layer k f out) = i_policy_gated out"
  "i_parent_size (with_layer k f out) = i_parent_size out"
  "i_archive_base_offset (with_layer k f out) = i_archive_base_offset out"
  "i_central_directory_offset (with_layer k f out) = i_central_directory_offset out"
  "i_member_count (with_layer k f out) = i_member_count out"
  "i_regular_file_count (with_layer k f out) = i_regular_file_count out"
  "i_encrypted_file_count (with_layer k f out) = i_encrypted_file_count out"
  "i_safe_materialization_count (with_layer k f out) = i_safe_materialization_count out"
  "i_total_compressed_bytes (with_layer k f out) = i_total_compressed_bytes out"
  "i_total_declared_uncompressed_bytes (with_layer k f out) = i_total_declared_uncompressed_bytes out"
  "i_limits (with_layer k f out) = i_limits out"
  "i_members (with_layer k f out) = i_members out"
  by (simp_all add: with_layer_def)

lemma layer_set_sel [simp]:
  "i_kind (layer_set k st out) = i_kind out"
  "i_state (layer_set k st out) = i_state out"
  "i_source_identity (layer_set k st out) = i_source_identity out"
  "i_parent_sha256 (layer_set k st out) = i_parent_sha256 out"
  "i_failure (layer_set k st out) = i_failure out"
  "i_recognized (layer_set k st out) = i_recognized out"
  "i_structurally_valid (layer_set k st out) = i_structurally_valid out"
  "i_zip64 (layer_set k st out) = i_zip64 out"
  "i_credential_required (layer_set k st out) = i_credential_required out"
  "i_policy_gated (layer_set k st out) = i_policy_gated out"
  "i_parent_size (layer_set k st out) = i_parent_size out"
  "i_archive_base_offset (layer_set k st out) = i_archive_base_offset out"
  "i_central_directory_offset (layer_set k st out) = i_central_directory_offset out"
  "i_member_count (layer_set k st out) = i_member_count out"
  "i_regular_file_count (layer_set k st out) = i_regular_file_count out"
  "i_encrypted_file_count (layer_set k st out) = i_encrypted_file_count out"
  "i_safe_materialization_count (layer_set k st out) = i_safe_materialization_count out"
  "i_total_compressed_bytes (layer_set k st out) = i_total_compressed_bytes out"
  "i_total_declared_uncompressed_bytes (layer_set k st out) = i_total_declared_uncompressed_bytes out"
  "i_limits (layer_set k st out) = i_limits out"
  "i_members (layer_set k st out) = i_members out"
  by (simp_all add: layer_set_def)

lemma layer_evidence_sel [simp]:
  "i_kind (layer_evidence k s out) = i_kind out"
  "i_state (layer_evidence k s out) = i_state out"
  "i_source_identity (layer_evidence k s out) = i_source_identity out"
  "i_parent_sha256 (layer_evidence k s out) = i_parent_sha256 out"
  "i_failure (layer_evidence k s out) = i_failure out"
  "i_recognized (layer_evidence k s out) = i_recognized out"
  "i_structurally_valid (layer_evidence k s out) = i_structurally_valid out"
  "i_zip64 (layer_evidence k s out) = i_zip64 out"
  "i_credential_required (layer_evidence k s out) = i_credential_required out"
  "i_policy_gated (layer_evidence k s out) = i_policy_gated out"
  "i_parent_size (layer_evidence k s out) = i_parent_size out"
  "i_archive_base_offset (layer_evidence k s out) = i_archive_base_offset out"
  "i_central_directory_offset (layer_evidence k s out) = i_central_directory_offset out"
  "i_member_count (layer_evidence k s out) = i_member_count out"
  "i_regular_file_count (layer_evidence k s out) = i_regular_file_count out"
  "i_encrypted_file_count (layer_evidence k s out) = i_encrypted_file_count out"
  "i_safe_materialization_count (layer_evidence k s out) = i_safe_materialization_count out"
  "i_total_compressed_bytes (layer_evidence k s out) = i_total_compressed_bytes out"
  "i_total_declared_uncompressed_bytes (layer_evidence k s out) = i_total_declared_uncompressed_bytes out"
  "i_limits (layer_evidence k s out) = i_limits out"
  "i_members (layer_evidence k s out) = i_members out"
  by (simp_all add: layer_evidence_def)

lemma push_anomaly_sel [simp]:
  "i_kind (push_anomaly s out) = i_kind out"
  "i_state (push_anomaly s out) = i_state out"
  "i_source_identity (push_anomaly s out) = i_source_identity out"
  "i_parent_sha256 (push_anomaly s out) = i_parent_sha256 out"
  "i_failure (push_anomaly s out) = i_failure out"
  "i_recognized (push_anomaly s out) = i_recognized out"
  "i_structurally_valid (push_anomaly s out) = i_structurally_valid out"
  "i_zip64 (push_anomaly s out) = i_zip64 out"
  "i_credential_required (push_anomaly s out) = i_credential_required out"
  "i_policy_gated (push_anomaly s out) = i_policy_gated out"
  "i_parent_size (push_anomaly s out) = i_parent_size out"
  "i_archive_base_offset (push_anomaly s out) = i_archive_base_offset out"
  "i_central_directory_offset (push_anomaly s out) = i_central_directory_offset out"
  "i_member_count (push_anomaly s out) = i_member_count out"
  "i_regular_file_count (push_anomaly s out) = i_regular_file_count out"
  "i_encrypted_file_count (push_anomaly s out) = i_encrypted_file_count out"
  "i_safe_materialization_count (push_anomaly s out) = i_safe_materialization_count out"
  "i_total_compressed_bytes (push_anomaly s out) = i_total_compressed_bytes out"
  "i_total_declared_uncompressed_bytes (push_anomaly s out) = i_total_declared_uncompressed_bytes out"
  "i_limits (push_anomaly s out) = i_limits out"
  "i_members (push_anomaly s out) = i_members out"
  by (simp_all add: push_anomaly_def)

lemma span_in_bounds_iff: "span_in_bounds b off len \<longleftrightarrow> off + len \<le> length b"
  by (auto simp: span_in_bounds_def)

lemma add_u64_Some_iff:
  "b \<le> u64_max \<Longrightarrow> add_u64 a b = Some c \<longleftrightarrow> a + b \<le> u64_max \<and> c = a + b"
  by (auto simp: add_u64_def)

lemma zip_le16_less: "zip_le16 b off < 65536"
proof -
  have "unat (b ! off) OR push_bit 8 (unat (b ! (off + 1))) = unat (b ! off) + 256 * unat (b ! (off + 1))"
    using or_push_bit_nat [of "unat (b ! off)" 8] unat_byte_less [of "b ! off"] by simp
  then show ?thesis
    using unat_byte_le [of "b ! off"] unat_byte_le [of "b ! (off + 1)"] by (simp add: zip_le16_def)
qed

lemma zip_lengths_small:
  "zip_le16 b p + zip_le16 b q + zip_le16 b r \<le> u64_max" "zip_le16 b p + zip_le16 b q \<le> u64_max"
  using zip_le16_less [of b p] zip_le16_less [of b q] zip_le16_less [of b r]
  by (simp_all add: u64_max_def)

lemma zip_le16_read:
  "length b = n \<Longrightarrow> off + 2 \<le> n \<Longrightarrow> zip_le16 b off = unat (b ! off) + 256 * unat (b ! (off + 1))"
proof -
  assume "length b = n" "off + 2 \<le> n"
  then have "\<not> (length b < off \<or> length b - off < 2)" by linarith
  then show ?thesis
    using or_push_bit_nat [of "unat (b ! off)" 8 "unat (b ! (off + 1))"] unat_byte_less [of "b ! off"]
    by (simp add: zip_le16_def)
qed

lemma zip_le32_read:
  "length b = n \<Longrightarrow> off + 4 \<le> n \<Longrightarrow> zip_le32 b off =
    le_value [b ! off, b ! (off + 1), b ! (off + 2), b ! (off + 3)]"
proof -
  assume "length b = n" "off + 4 \<le> n"
  then have "\<not> (length b < off \<or> length b - off < 4)" by linarith
  then show ?thesis by (simp add: zip_le32_def or4_le_value)
qed

lemma zip_le32_value:
  "zip_le32 d off = (if off + 4 \<le> length d then le_value (take 4 (drop off d)) else 0)"
proof (cases "off + 4 \<le> length d")
  case True
  then show ?thesis by (simp add: zip_le32_read [OF refl] take4_drop)
next
  case False
  then have "length d < off \<or> length d - off < 4" by linarith
  with False show ?thesis by (simp add: zip_le32_def)
qed

lemma zip_le16_at: "off + 2 \<le> length b \<Longrightarrow> zip_le16 b off = le_at b off 2"
  by (simp add: zip_le16_read [OF refl] le_at_def take_Suc_conv_app_nth numeral_eq_Suc)

lemma zip_le32_at: "off + 4 \<le> length b \<Longrightarrow> zip_le32 b off = le_at b off 4"
  by (simp add: zip_le32_value le_at_def)

lemma zip_le64_at:
  assumes "off + 8 \<le> length b" "length b \<le> u64_max"
  shows "zip_le64 b off = le_at b off 8"
proof -
  have "take 8 (drop off b) = take 4 (drop off b) @ take 4 (drop (off + 4) b)"
    using take_add [of 4 4 "drop off b"] by (simp add: add.commute)
  then have "le_at b off 8 = le_at b off 4 + 2 ^ 32 * le_at b (off + 4) 4"
    using assms(1) by (simp add: le_at_def le_value_append)
  moreover have "zip_le64 b off = le_at b off 4 OR push_bit 32 (le_at b (off + 4) 4)"
    using assms by (simp add: zip_le64_def zip_le32_at)
  ultimately show ?thesis
    using or_push_bit_nat [of "le_at b off 4" 32 "le_at b (off + 4) 4"] le_at_u32 [of b off] by simp
qed

interpretation zip_reads: le_reader zip_le32
  by unfold_locales (simp_all add: zip_le32_value)

subsection \<open>Reading a member is memory safe\<close>

lemma within_width: "span_in_bounds data off n \<Longrightarrow> length data \<le> u64_max \<Longrightarrow> off + n \<le> u64_max"
  by (simp add: span_in_bounds_iff)

lemma central_name_pass:
  assumes "length data \<le> u64_max" "central_name data i off = pass name"
  shows "off + 46 + length name \<le> length data"
    and "name = map byte_char (take (length name) (drop (off + 46) data))"
    and "zip_le32 data off = kCentralHeaderSig"
    and "zip_le16 data (off + 28) = length name"
proof -
  show "off + 46 + length name \<le> length data"
    and "name = map byte_char (take (length name) (drop (off + 46) data))"
    and "zip_le32 data off = kCentralHeaderSig"
    and "zip_le16 data (off + 28) = length name"
    using assms(2) within_width [of data off 46] assms(1)
    by (auto simp: central_name_def Let_def step_eq_pass_iff subspan_eq_Some_iff
        add_u64_Some_iff [OF zip_lengths_small(1)] min_def add.commute add.left_commute
        split: option.splits if_splits)
qed

lemma central_name_defined:
  assumes "length data \<le> u64_max"
  shows "defined (central_name data i off)"
  using assms within_width [of data off 46]
  by (auto simp: central_name_def Let_def add_u64_Some_iff [OF zip_lengths_small(1)] subspan_Some
      split: option.splits)

lemma local_payload_pass:
  assumes "length data \<le> u64_max" "local_payload data i off name = pass data_off"
  shows "off + 30 + length name \<le> data_off" "data_off \<le> length data"
    and "name = map byte_char (take (length name) (drop (off + 30) data))"
    and "zip_le32 data off = kLocalHeaderSig"
    and "zip_le16 data (off + 26) = length name"
    and "data_off = off + 30 + length name + zip_le16 data (off + 28)"
  using assms(2) within_width [of data off 30] assms(1)
  by (auto simp: local_payload_def Let_def step_eq_pass_iff subspan_eq_Some_iff
      add_u64_Some_iff [OF zip_lengths_small(2)] min_def add.commute add.left_commute
      split: option.splits if_splits)

lemma local_payload_defined:
  assumes "length data \<le> u64_max"
  shows "defined (local_payload data i off name)"
  using assms within_width [of data off 30]
  by (auto simp: local_payload_def Let_def add_u64_Some_iff [OF zip_lengths_small(2)]
      span_in_bounds_iff subspan_Some intro!: defined_step split: option.splits)

text \<open>
  What a member record says about the bytes it was read from. The fields of the local header are
  read off the file as little-endian numbers: flags at byte 6, method at 8, CRC-32 at 14, sizes at
  18 and 22, name and extra lengths at 26 and 28. When bit 3 of the flags is set, CRC-32 and sizes
  are those of the data descriptor behind the payload, with or without its signature, with sizes of
  four or eight bytes.
\<close>

definition sizes_agree :: "bytes \<Rightarrow> member \<Rightarrow> bool" where
  "sizes_agree data m \<longleftrightarrow>
     (let lo = e_local_header_offset m in
      le_at data (lo + 14) 4 = e_crc32 m \<and>
      (le_at data (lo + 18) 4 = 0xffffffff \<or> le_at data (lo + 18) 4 = e_compressed_size m) \<and>
      (le_at data (lo + 22) 4 = 0xffffffff \<or> le_at data (lo + 22) 4 = e_uncompressed_size m))"

definition descriptor_fields :: "bytes \<Rightarrow> nat \<Rightarrow> nat \<Rightarrow> nat \<Rightarrow> nat \<Rightarrow> bool" where
  "descriptor_fields data p crc csize usize \<longleftrightarrow>
     le_at data p 4 = crc \<and>
     (p + 12 \<le> length data \<and> le_at data (p + 4) 4 = csize \<and> le_at data (p + 8) 4 = usize \<or>
      p + 20 \<le> length data \<and> le_at data (p + 4) 8 = csize \<and> le_at data (p + 12) 8 = usize)"

definition descriptor_agrees :: "bytes \<Rightarrow> member \<Rightarrow> bool" where
  "descriptor_agrees data m \<longleftrightarrow>
     (let q = e_data_offset m + e_compressed_size m;
          fields_at = (\<lambda>p. descriptor_fields data p (e_crc32 m) (e_compressed_size m) (e_uncompressed_size m))
      in fields_at q \<or> le_at data q 4 = 0x08074b50 \<and> fields_at (q + 4))"

definition headers_agree :: "bytes \<Rightarrow> member \<Rightarrow> bool" where
  "headers_agree data m \<longleftrightarrow>
     (let lo = e_local_header_offset m in
      le_at data (lo + 6) 2 = e_flags m \<and> le_at data (lo + 8) 2 = e_method m \<and>
      le_at data (lo + 26) 2 = length (e_name m) \<and>
      le_at data (e_central_directory_offset m + 28) 2 = length (e_name m) \<and>
      e_data_offset m = lo + 30 + length (e_name m) + le_at data (lo + 28) 2 \<and>
      e_data_descriptor m = odd (e_flags m div 8) \<and>
      (if e_data_descriptor m then descriptor_agrees data m else sizes_agree data m))"

definition member_bytes_ok :: "bytes \<Rightarrow> nat \<Rightarrow> member \<Rightarrow> bool" where
  "member_bytes_ok data cd_off m \<longleftrightarrow>
     e_name m = map byte_char (take (length (e_name m)) (drop (e_central_directory_offset m + 46) data)) \<and>
     e_name m = map byte_char (take (length (e_name m)) (drop (e_local_header_offset m + 30) data)) \<and>
     zip_le32 data (e_central_directory_offset m) = kCentralHeaderSig \<and>
     zip_le32 data (e_local_header_offset m) = kLocalHeaderSig \<and>
     e_local_header_offset m + 30 + length (e_name m) \<le> e_data_offset m \<and>
     e_data_offset m + e_compressed_size m \<le> min cd_off (length data) \<and>
     e_uncompressed_size m \<le> u64_max \<and> headers_agree data m \<and>
     e_compressed_sha256 m = sha256_spec (take (e_compressed_size m) (drop (e_data_offset m) data))"

text \<open>
  What the archive reader reports of the entry with this index: sizes, checksum, flags and method as
  they are, and the kind of file from the upper half of the external attributes, which counts only
  when the creator of the entry is a Unix (3) or Darwin (19) system.
\<close>

definition member_reported :: "mz_reader \<Rightarrow> member \<Rightarrow> bool" where
  "member_reported rd m \<longleftrightarrow>
     (\<exists>st. mz_file_stat rd (e_index m) = Inr st \<and>
        e_compressed_size m = unat (m_comp_size st) \<and> e_uncompressed_size m = unat (m_uncomp_size st) \<and>
        e_crc32 m = unat (m_crc32 st) \<and> e_flags m = unat (m_bit_flag st) \<and> e_method m = unat (m_method st) \<and>
        e_directory m = m_is_directory st \<and> e_supported_method m = m_is_supported st \<and>
        e_encrypted m = (m_is_encrypted st \<or> odd (e_flags m) \<or> odd (e_flags m div 64)) \<and>
        (let unix = unat (m_version_made_by st) div 256 \<in> {3, 19};
             file_type = unat (m_external_attr st) div 2 ^ 28
         in e_symlink m = (unix \<and> file_type = 10) \<and>
            e_special_file m = (unix \<and> file_type \<notin> {0, 4, 8, 10})))"

definition member_name_ok :: "ingress_limits \<Rightarrow> member \<Rightarrow> bool" where
  "member_name_ok limits m \<longleftrightarrow>
     safe_relative_name (e_name m) (e_directory m) (max_path_bytes limits) =
       (e_safe_path m, e_normalized m, e_portable_path m)"

lemma unat_u64_le: "unat (x :: u64) \<le> u64_max"
  using unsigned_less [of x, where ?'a = nat] by (simp add: u64_max_def)

lemma build_member_sel:
  "e_index (build_member limits i st name co lo dof sha) = i"
  "e_name (build_member limits i st name co lo dof sha) = name"
  "e_local_header_offset (build_member limits i st name co lo dof sha) = lo"
  "e_central_directory_offset (build_member limits i st name co lo dof sha) = co"
  "e_data_offset (build_member limits i st name co lo dof sha) = dof"
  "e_compressed_size (build_member limits i st name co lo dof sha) = unat (m_comp_size st)"
  "e_uncompressed_size (build_member limits i st name co lo dof sha) = unat (m_uncomp_size st)"
  "e_compressed_sha256 (build_member limits i st name co lo dof sha) = sha"
  "e_crc32 (build_member limits i st name co lo dof sha) = unat (m_crc32 st)"
  "e_method (build_member limits i st name co lo dof sha) = unat (m_method st)"
  "e_flags (build_member limits i st name co lo dof sha) = unat (m_bit_flag st)"
  "e_data_descriptor (build_member limits i st name co lo dof sha) =
     (unat (m_bit_flag st) AND kZipFlagDataDescriptor \<noteq> 0)"
  "\<not> e_safe_to_materialize (build_member limits i st name co lo dof sha)"
  "member_name_ok limits (build_member limits i st name co lo dof sha)"
  by (simp_all add: build_member_def member_name_ok_def split: prod.splits)

lemmas headers_agree_sel = headers_agree_def sizes_agree_def descriptor_agrees_def

lemma read_member_defined:
  assumes "length data \<le> u64_max"
  shows "defined (read_member data rd limits base cd_off i)"
proof -
  have hash: "defined (sha256_bytes p)" for p
    using sha256.one_shot_total [of p] by (auto simp: defined_def)
  show ?thesis
    using assms
    by (auto simp: read_member_def Let_def span_in_bounds_iff subspan_Some hash
        intro!: defined_step central_name_defined local_payload_defined split: sum.splits option.splits)
qed

lemma and_or_nat: "a AND (b OR c) = (a AND b) OR (a AND c)" for a b c :: nat
  by (rule bit_eqI) (auto simp: bit_and_iff bit_or_iff)

lemma encrypted_bits: "n AND (kZipFlagEncrypted OR kZipFlagStrongEncryption) \<noteq> 0 \<longleftrightarrow> odd n \<or> odd (n div 64)"
proof -
  have "n AND 1 = 0 \<longleftrightarrow> even n" "n AND 64 = 0 \<longleftrightarrow> even (n div 64)"
    using and_exp_eq_0_iff_not_bit [of n 0] and_exp_eq_0_iff_not_bit [of n 6] by (simp_all add: bit_iff_odd)
  moreover have "n AND (kZipFlagEncrypted OR kZipFlagStrongEncryption) = (n AND 1) OR (n AND 64)"
    unfolding kZipFlagEncrypted_def kZipFlagStrongEncryption_def by (rule and_or_nat)
  ultimately show ?thesis by (metis or_eq_0_iff)
qed

lemma high_nibble: "x < 65536 \<Longrightarrow> x AND 0xF000 = x div 4096 * 4096" for x :: nat
proof -
  assume x: "x < 65536"
  have "x AND push_bit 12 (mask 4) = push_bit 12 (drop_bit 12 x AND mask 4)"
    by (rule bit_eqI) (auto simp: bit_and_iff bit_push_bit_iff bit_drop_bit_eq)
  moreover have "drop_bit 12 x AND mask 4 = x div 4096"
    using x by (simp add: take_bit_eq_mask [symmetric] take_bit_eq_mod drop_bit_eq_div)
  moreover have "push_bit 12 (mask 4) = (0xF000 :: nat)" by (simp add: push_bit_eq_mult mask_eq_exp_minus_1)
  ultimately show ?thesis by (simp add: push_bit_eq_mult)
qed

lemma unix_type_value: "unix_type st = unat (m_external_attr st) div 2 ^ 28 * 4096"
proof -
  let ?a = "unat (m_external_attr st)"
  have "?a < 2 ^ 32" using unsigned_less [of "m_external_attr st", where ?'a = nat] by simp
  then have "?a div 65536 < 65536" by (simp add: less_mult_imp_div_less)
  then show ?thesis
    unfolding unix_type_def unat_drop_bit_eq
    by (simp add: drop_bit_eq_div high_nibble div_mult2_eq [symmetric])
qed

lemma build_member_reported:
  assumes "mz_file_stat rd i = Inr st"
  shows "member_reported rd (build_member limits i st name co lo dof sha)"
proof -
  let ?t = "unat (m_external_attr st) div 2 ^ 28"
  have made: "unix_creator st \<longleftrightarrow> unat (m_version_made_by st) div 256 \<in> {3, 19}"
    unfolding unix_creator_def Let_def unat_drop_bit_eq by (simp add: drop_bit_eq_div)
  have types: "unix_type st = 0xA000 \<longleftrightarrow> ?t = 10" "unix_type st = 0 \<longleftrightarrow> ?t = 0" "unix_type st = 0x8000 \<longleftrightarrow> ?t = 8"
    "unix_type st = 0x4000 \<longleftrightarrow> ?t = 4"
    unfolding unix_type_value by auto
  show ?thesis
    unfolding member_reported_def using assms
    by (intro exI [of _ st])
      (auto simp: build_member_def made types encrypted_bits Let_def simp del: neq0_conv split: prod.splits)
qed

text \<open>The checks of lines 381 to 408 are the agreement of the headers.\<close>

lemma descriptor_at_fields:
  assumes "length data \<le> u64_max" "descriptor_at data p crc csize usize"
  shows "descriptor_fields data p crc csize usize"
proof (cases "zip_le32 data (wrap64 (p + 4)) = csize \<and> zip_le32 data (wrap64 (p + 8)) = usize")
  case True
  have "p + 12 \<le> length data" using assms(2) by (auto simp: descriptor_at_def span_in_bounds_iff split: if_splits)
  then show ?thesis using assms True
    by (auto simp: descriptor_at_def descriptor_fields_def zip_le32_at split: if_splits)
next
  case False
  then have "p + 20 \<le> length data" using assms(2) by (auto simp: descriptor_at_def span_in_bounds_iff split: if_splits)
  then show ?thesis using assms False
    by (auto simp: descriptor_at_def descriptor_fields_def zip_le32_at zip_le64_at split: if_splits)
qed

lemma flag_bit3: "(n AND kZipFlagDataDescriptor \<noteq> 0) = odd (n div 8)"
  using and_exp_eq_0_iff_not_bit [of n 3] by (simp add: kZipFlagDataDescriptor_def bit_iff_odd)

lemma member_consistent_agree:
  assumes small: "length data \<le> u64_max" and none: "member_consistent data i st lo dof = None"
    and lo: "lo + 30 \<le> length data" and inside: "dof + unat (m_comp_size st) \<le> length data"
    and m: "m = build_member limits i st name co lo dof sha"
  shows "le_at data (lo + 6) 2 = e_flags m" "le_at data (lo + 8) 2 = e_method m"
    "if e_data_descriptor m then descriptor_agrees data m else sizes_agree data m"
proof -
  have wraps: "wrap64 (lo + k) = lo + k" if "k \<le> 30" for k using that lo small by simp
  show "le_at data (lo + 6) 2 = e_flags m" "le_at data (lo + 8) 2 = e_method m"
    using none lo by (auto simp: m build_member_sel member_consistent_def wraps zip_le16_at split: if_splits)
  show "if e_data_descriptor m then descriptor_agrees data m else sizes_agree data m"
  proof (cases "unat (m_bit_flag st) AND kZipFlagDataDescriptor = 0")
    case True
    then show ?thesis using none lo
      by (auto simp: m build_member_sel sizes_agree_def member_consistent_def Let_def wraps zip_le32_at
          split: if_splits)
  next
    case False
    let ?q = "dof + unat (m_comp_size st)"
    have q: "wrap64 ?q = ?q" using inside small by simp
    then have d: "descriptor_matches data ?q (unat (m_crc32 st)) (unat (m_comp_size st)) (unat (m_uncomp_size st))"
      using none False by (simp add: member_consistent_def split: if_splits)
    have "descriptor_fields data ?q (unat (m_crc32 st)) (unat (m_comp_size st)) (unat (m_uncomp_size st)) \<or>
      le_at data ?q 4 = 0x08074b50 \<and>
      descriptor_fields data (?q + 4) (unat (m_crc32 st)) (unat (m_comp_size st)) (unat (m_uncomp_size st))"
      using d descriptor_at_fields [OF small] small
      by (auto simp: descriptor_matches_def span_in_bounds_iff zip_le32_at kDataDescriptorSig_def)
    with False show ?thesis by (simp add: m build_member_sel descriptor_agrees_def Let_def)
  qed
qed

lemma read_member_pass:
  assumes "length data \<le> u64_max" "read_member data rd limits base cd_off i = pass m"
  shows "e_index m = i \<and> member_bytes_ok data cd_off m \<and> member_name_ok limits m \<and> member_reported rd m \<and>
    \<not> e_safe_to_materialize m"
proof -
  obtain st name data_off sha where st: "mz_file_stat rd i = Inr st"
    and name: "central_name data i (wrap64 (base + unat (mz_central_directory_file_ofs rd) +
        unat (m_central_dir_ofs st))) = pass name"
    and dof: "local_payload data i (wrap64 (base + unat (m_local_header_ofs st))) name = pass data_off"
    and inside: "span_in_bounds data data_off (unat (m_comp_size st))"
      "wrap64 (data_off + unat (m_comp_size st)) \<le> cd_off"
    and none: "member_consistent data i st (wrap64 (base + unat (m_local_header_ofs st))) data_off = None"
    and sha: "sha256_bytes (take (unat (m_comp_size st)) (drop data_off data)) = Some sha"
    and m: "m = build_member limits i st name (wrap64 (base + unat (mz_central_directory_file_ofs rd) +
        unat (m_central_dir_ofs st))) (wrap64 (base + unat (m_local_header_ofs st))) data_off sha"
    using assms(2)
    by (auto simp: read_member_def Let_def step_eq_pass_iff subspan_eq_Some_iff not_less
        split: sum.splits option.splits if_splits)
  have "sha = sha256_spec (take (unat (m_comp_size st)) (drop data_off data))"
    using sha sha256.one_shot_ref by simp
  moreover have "data_off + unat (m_comp_size st) \<le> cd_off"
    using inside within_width [OF inside(1) assms(1)] by simp
  moreover have "headers_agree data m"
  proof -
    note c = central_name_pass [OF assms(1) name] and l = local_payload_pass [OF assms(1) dof]
    have "data_off + unat (m_comp_size st) \<le> length data" using inside(1) by (simp add: span_in_bounds_iff)
    note agree = member_consistent_agree [OF assms(1) none _ this m]
    have "e_data_descriptor m = odd (e_flags m div 8)" by (simp add: m build_member_sel flag_bit3 [symmetric])
    moreover have "le_at data (e_local_header_offset m + 26) 2 = length (e_name m)"
      "le_at data (e_central_directory_offset m + 28) 2 = length (e_name m)"
      "e_data_offset m = e_local_header_offset m + 30 + length (e_name m) + le_at data (e_local_header_offset m + 28) 2"
      using c(1,4) l(1,2,5,6) by (simp_all add: m build_member_sel zip_le16_at)
    moreover have "e_local_header_offset m = wrap64 (base + unat (m_local_header_ofs st))"
      by (simp add: m build_member_sel)
    ultimately show ?thesis
      using agree l(1,2) unfolding headers_agree_def Let_def by simp
  qed
  ultimately show ?thesis
    using central_name_pass [OF assms(1) name] local_payload_pass [OF assms(1) dof] inside(1)
    by (simp add: m member_bytes_ok_def build_member_sel build_member_reported [OF st] span_in_bounds_iff unat_u64_le)
qed

subsection \<open>Registering paths\<close>

text \<open>
  A member takes part in the collision bookkeeping when its path was accepted. \<open>unflag\<close>
  forgets the two collision marks, the only fields registration changes.
\<close>

definition registered :: "member \<Rightarrow> bool" where
  "registered m \<longleftrightarrow> e_safe_path m \<and> e_normalized m \<noteq> []"

definition flagged :: "member \<Rightarrow> bool" where
  "flagged m \<longleftrightarrow> e_duplicate_path m \<or> e_case_collision m"

definition folded_path :: "member \<Rightarrow> string" where
  "folded_path m = lower_ascii (e_normalized m)"

definition unflag :: "member \<Rightarrow> member" where
  "unflag m = m\<lparr>e_duplicate_path := False, e_case_collision := False\<rparr>"

lemma unflag_sel [simp]:
  "registered (unflag m) = registered m" "folded_path (unflag m) = folded_path m"
  "e_normalized (unflag m) = e_normalized m" "e_safe_to_materialize (unflag m) = e_safe_to_materialize m"
  "e_index (unflag m) = e_index m" "member_bytes_ok data cd (unflag m) = member_bytes_ok data cd m"
  "member_name_ok limits (unflag m) = member_name_ok limits m" "e_directory (unflag m) = e_directory m"
  "e_encrypted (unflag m) = e_encrypted m" "e_compressed_size (unflag m) = e_compressed_size m"
  "e_uncompressed_size (unflag m) = e_uncompressed_size m" "unflag (unflag m) = unflag m"
  "member_reported rd (unflag m) = member_reported rd m"
  by (simp_all add: unflag_def registered_def folded_path_def member_bytes_ok_def member_name_ok_def headers_agree_sel
      member_reported_def)

text \<open>\<open>ms'\<close> is \<open>ms\<close> with possibly more marks.\<close>

definition more_marks :: "member list \<Rightarrow> member list \<Rightarrow> bool" where
  "more_marks ms ms' \<longleftrightarrow> map unflag ms' = map unflag ms \<and>
     (\<forall>i < length ms. flagged (ms ! i) \<longrightarrow> flagged (ms' ! i))"

lemma more_marksD:
  assumes "more_marks ms ms'"
  shows "length ms' = length ms" "\<And>i. i < length ms \<Longrightarrow> unflag (ms' ! i) = unflag (ms ! i)"
    "\<And>i. i < length ms \<Longrightarrow> flagged (ms ! i) \<Longrightarrow> flagged (ms' ! i)"
    "map unflag ms' = map unflag ms"
proof -
  show len: "length ms' = length ms" and "map unflag ms' = map unflag ms"
    using assms unfolding more_marks_def by (metis length_map)+
  show "unflag (ms' ! i) = unflag (ms ! i)" if "i < length ms" for i
    using that assms len unfolding more_marks_def by (metis nth_map)
  show "flagged (ms' ! i)" if "i < length ms" "flagged (ms ! i)" for i
    using that assms unfolding more_marks_def by blast
qed

lemma more_marks_refl [simp]: "more_marks ms ms"
  by (simp add: more_marks_def)

lemma more_marks_trans: "more_marks a b \<Longrightarrow> more_marks b c \<Longrightarrow> more_marks a c"
  using more_marksD(1) [of a b] by (auto simp: more_marks_def)

lemma more_marks_update:
  assumes "unflag x = unflag (ms ! k)" "flagged x"
  shows "more_marks ms (ms[k := x])"
  using assms by (cases "k < length ms")
    (auto simp: more_marks_def nth_list_update map_update list_update_same_conv list_update_beyond)

text \<open>The invariant of the two hash maps and of the marks.\<close>

definition seen_inv :: "seen \<Rightarrow> member list \<Rightarrow> bool" where
  "seen_inv sn ms \<longleftrightarrow>
     (\<forall>p k. exact_seen sn p = Some k \<longrightarrow> k < length ms \<and> registered (ms ! k) \<and> e_normalized (ms ! k) = p) \<and>
     (\<forall>f k. case_seen sn f = Some k \<longrightarrow> k < length ms \<and> registered (ms ! k) \<and> folded_path (ms ! k) = f) \<and>
     (\<forall>m \<in> set ms. registered m \<longrightarrow> e_normalized m \<in> dom (exact_seen sn) \<and> folded_path m \<in> dom (case_seen sn)) \<and>
     (\<forall>i < length ms. \<forall>j < length ms. i \<noteq> j \<longrightarrow> registered (ms ! i) \<longrightarrow> registered (ms ! j) \<longrightarrow>
        folded_path (ms ! i) = folded_path (ms ! j) \<longrightarrow> flagged (ms ! i))"

lemma seen_inv_start: "seen_inv \<lparr>exact_seen = Map.empty, case_seen = Map.empty\<rparr> []"
  by (simp add: seen_inv_def)

lemma seen_invD:
  assumes "seen_inv sn ms"
  shows "\<And>p k. exact_seen sn p = Some k \<Longrightarrow> k < length ms \<and> registered (ms ! k) \<and> e_normalized (ms ! k) = p"
    "\<And>f k. case_seen sn f = Some k \<Longrightarrow> k < length ms \<and> registered (ms ! k) \<and> folded_path (ms ! k) = f"
    "\<And>m. m \<in> set ms \<Longrightarrow> registered m \<Longrightarrow> e_normalized m \<in> dom (exact_seen sn)"
    "\<And>m. m \<in> set ms \<Longrightarrow> registered m \<Longrightarrow> folded_path m \<in> dom (case_seen sn)"
    "\<And>i j. i < length ms \<Longrightarrow> j < length ms \<Longrightarrow> i \<noteq> j \<Longrightarrow> registered (ms ! i) \<Longrightarrow> registered (ms ! j) \<Longrightarrow>
        folded_path (ms ! i) = folded_path (ms ! j) \<Longrightarrow> flagged (ms ! i)"
  using assms unfolding seen_inv_def by blast+

lemma seen_inv_more_marks:
  assumes "seen_inv sn ms" "more_marks ms ms'"
  shows "seen_inv sn ms'"
proof -
  note mm = more_marksD [OF assms(2)]
  have reg: "registered (ms' ! i) = registered (ms ! i)" "folded_path (ms' ! i) = folded_path (ms ! i)"
    "e_normalized (ms' ! i) = e_normalized (ms ! i)" if "i < length ms" for i
    using arg_cong [OF mm(2) [OF that], of registered] arg_cong [OF mm(2) [OF that], of folded_path]
      arg_cong [OF mm(2) [OF that], of e_normalized] by simp_all
  have dom: "e_normalized m \<in> dom (exact_seen sn) \<and> folded_path m \<in> dom (case_seen sn)"
    if "m \<in> set ms'" "registered m" for m
  proof -
    obtain i where "i < length ms" "m = ms' ! i" using \<open>m \<in> set ms'\<close> mm(1) by (metis in_set_conv_nth)
    then show ?thesis using reg [of i] \<open>registered m\<close> seen_invD(3,4) [OF assms(1), of "ms ! i"] by simp
  qed
  show ?thesis
    unfolding seen_inv_def
    using reg mm(1,3) dom seen_invD(1,2,5) [OF assms(1)] by (auto; metis)
qed

lemma seen_inv_snoc:
  assumes inv: "seen_inv sn ms"
    and ex: "registered e \<Longrightarrow> exact_seen sn' =
      (if e_normalized e \<in> dom (exact_seen sn) then exact_seen sn else (exact_seen sn)(e_normalized e \<mapsto> length ms))"
    and ca: "registered e \<Longrightarrow> case_seen sn' =
      (if folded_path e \<in> dom (case_seen sn) then case_seen sn else (case_seen sn)(folded_path e \<mapsto> length ms))"
    and same: "\<not> registered e \<Longrightarrow> sn' = sn"
    and marks: "\<And>i. registered e \<Longrightarrow> i < length ms \<Longrightarrow> registered (ms ! i) \<Longrightarrow>
      folded_path (ms ! i) = folded_path e \<Longrightarrow> flagged (ms ! i) \<and> flagged e"
  shows "seen_inv sn' (ms @ [e])"
proof -
  note D = seen_invD [OF inv]
  have 1: "k < length (ms @ [e]) \<and> registered ((ms @ [e]) ! k) \<and> e_normalized ((ms @ [e]) ! k) = p"
    if "exact_seen sn' p = Some k" for p k
    using that D(1) [of p k] ex same by (cases "registered e") (auto simp: nth_append split: if_splits)
  have 2: "k < length (ms @ [e]) \<and> registered ((ms @ [e]) ! k) \<and> folded_path ((ms @ [e]) ! k) = f"
    if "case_seen sn' f = Some k" for f k
    using that D(2) [of f k] ca same by (cases "registered e") (auto simp: nth_append split: if_splits)
  have 3: "e_normalized m \<in> dom (exact_seen sn') \<and> folded_path m \<in> dom (case_seen sn')"
    if "m \<in> set (ms @ [e])" "registered m" for m
    using that D(3,4) [of m] ex ca same by (cases "registered e"; cases "m = e") auto
  have 4: "flagged ((ms @ [e]) ! i)"
    if "i < length (ms @ [e])" "j < length (ms @ [e])" "i \<noteq> j" "registered ((ms @ [e]) ! i)"
      "registered ((ms @ [e]) ! j)" "folded_path ((ms @ [e]) ! i) = folded_path ((ms @ [e]) ! j)" for i j
    using that D(5) [of i j] marks [of i] marks [of j]
    by (cases "i < length ms"; cases "j < length ms") (auto simp: nth_append)
  show ?thesis unfolding seen_inv_def using 1 2 3 4 by blast
qed

text \<open>What one registration does: it never fails, only adds marks, and keeps the invariant.\<close>

definition same_but_marks :: "ingress_info \<Rightarrow> ingress_info \<Rightarrow> bool" where
  "same_but_marks out out' \<longleftrightarrow> more_marks (i_members out) (i_members out') \<and>
     out'\<lparr>i_members := [], i_anomalies := []\<rparr> = out\<lparr>i_members := [], i_anomalies := []\<rparr>"

lemma same_but_marks_refl [simp]: "same_but_marks out out"
  by (simp add: same_but_marks_def)

lemma same_but_marks_trans: "same_but_marks a b \<Longrightarrow> same_but_marks b c \<Longrightarrow> same_but_marks a c"
  unfolding same_but_marks_def using more_marks_trans by auto

lemma mark_member_marks:
  assumes "k < length (i_members out)" "\<And>m. unflag (f m) = unflag m" "\<And>m. flagged (f m)"
  shows "\<exists>out'. mark_member k f out = Some out' \<and> i_members out' = (i_members out)[k := f (i_members out ! k)] \<and>
    same_but_marks out out'"
  using assms by (simp add: mark_member_def same_but_marks_def more_marks_update)

lemma same_but_marks_anomaly: "same_but_marks out (push_anomaly s out') = same_but_marks out out'"
  by (simp add: same_but_marks_def push_anomaly_def)

lemma unflag_marked [simp]:
  "unflag (m\<lparr>e_duplicate_path := b\<rparr>) = unflag m" "unflag (m\<lparr>e_case_collision := b\<rparr>) = unflag m"
  "flagged (m\<lparr>e_duplicate_path := True\<rparr>)" "flagged (m\<lparr>e_case_collision := True\<rparr>)"
  by (simp_all add: unflag_def flagged_def)

lemma note_exact_step:
  assumes inv: "seen_inv sn (i_members out)"
  shows "\<exists>sn' out' e'. note_exact (sn, out, e) = Some (sn', out', e') \<and> same_but_marks out out' \<and>
    unflag e' = unflag e \<and> case_seen sn' = case_seen sn \<and>
    exact_seen sn' = (if e_normalized e \<in> dom (exact_seen sn) then exact_seen sn
      else (exact_seen sn)(e_normalized e \<mapsto> length (i_members out))) \<and>
    (\<forall>k. exact_seen sn (e_normalized e) = Some k \<longrightarrow> flagged e' \<and> flagged (i_members out' ! k)) \<and>
    (flagged e \<longrightarrow> flagged e')"
proof (cases "exact_seen sn (e_normalized e)")
  case None
  then show ?thesis by (auto simp: note_exact_def)
next
  case (Some k)
  have "k < length (i_members out)" using seen_invD(1) [OF inv Some] by simp
  from mark_member_marks [OF this, of "\<lambda>m. m\<lparr>e_duplicate_path := True\<rparr>"] this Some
  show ?thesis by (auto simp: note_exact_def same_but_marks_anomaly)
qed

lemma note_case_step:
  assumes inv: "\<And>k. case_seen sn (folded_path e) = Some k \<Longrightarrow> k < length (i_members out)"
  shows "\<exists>sn' out' e'. note_case (sn, out, e) = Some (sn', out', e') \<and> same_but_marks out out' \<and>
    unflag e' = unflag e \<and> exact_seen sn' = exact_seen sn \<and>
    case_seen sn' = (if folded_path e \<in> dom (case_seen sn) then case_seen sn
      else (case_seen sn)(folded_path e \<mapsto> length (i_members out))) \<and>
    (\<forall>k. case_seen sn (folded_path e) = Some k \<longrightarrow> e_normalized (i_members out ! k) \<noteq> e_normalized e \<longrightarrow>
      flagged e' \<and> flagged (i_members out' ! k)) \<and>
    (flagged e \<longrightarrow> flagged e')"
proof (cases "case_seen sn (folded_path e)")
  case None
  then show ?thesis by (auto simp: note_case_def folded_path_def [symmetric])
next
  case (Some k)
  have k: "k < length (i_members out)" using inv [OF Some] .
  from mark_member_marks [OF this, of "\<lambda>m. m\<lparr>e_case_collision := True\<rparr>"] this Some
  show ?thesis
    by (cases "e_normalized (i_members out ! k) = e_normalized e")
      (auto simp: note_case_def folded_path_def [symmetric] same_but_marks_anomaly)
qed

lemma unflag_registered:
  "unflag a = unflag b \<Longrightarrow> registered a = registered b \<and> folded_path a = folded_path b \<and>
    e_normalized a = e_normalized b"
  by (metis unflag_sel(1,2,3))

lemma register_path_step:
  assumes inv: "seen_inv sn (i_members out)" (is "seen_inv sn ?ms")
  shows "\<exists>sn' out' e'. register_path (sn, out, e) = Some (sn', out', e') \<and> same_but_marks out out' \<and>
    unflag e' = unflag e \<and> seen_inv sn' (i_members out' @ [e'])"
proof (cases "registered e")
  case False
  then show ?thesis
    by (auto simp: register_path_def registered_def intro!: seen_inv_snoc [OF inv])
next
  case True
  obtain sn1 out1 e1 where s1: "note_exact (sn, out, e) = Some (sn1, out1, e1)" "same_but_marks out out1"
    "unflag e1 = unflag e" "case_seen sn1 = case_seen sn"
    "exact_seen sn1 = (if e_normalized e \<in> dom (exact_seen sn) then exact_seen sn
      else (exact_seen sn)(e_normalized e \<mapsto> length ?ms))"
    "\<And>k. exact_seen sn (e_normalized e) = Some k \<Longrightarrow> flagged e1 \<and> flagged (i_members out1 ! k)"
    using note_exact_step [OF inv, of e] by blast
  have mm1: "more_marks ?ms (i_members out1)" using s1(2) by (simp add: same_but_marks_def)
  have e1: "registered e1" "folded_path e1 = folded_path e" "e_normalized e1 = e_normalized e"
    using unflag_registered [OF s1(3)] True by simp_all
  note D = seen_invD [OF inv]
  have bound: "k < length (i_members out1)" if "case_seen sn1 (folded_path e1) = Some k" for k
    using D(2) [of "folded_path e" k] that s1(4) e1 more_marksD(1) [OF mm1] by simp
  obtain sn' out' e' where s2: "note_case (sn1, out1, e1) = Some (sn', out', e')" "same_but_marks out1 out'"
    "unflag e' = unflag e1" "exact_seen sn' = exact_seen sn1"
    "case_seen sn' = (if folded_path e1 \<in> dom (case_seen sn1) then case_seen sn1
      else (case_seen sn1)(folded_path e1 \<mapsto> length (i_members out1)))"
    "\<And>k. case_seen sn1 (folded_path e1) = Some k \<Longrightarrow>
      e_normalized (i_members out1 ! k) \<noteq> e_normalized e1 \<Longrightarrow> flagged e' \<and> flagged (i_members out' ! k)"
    "flagged e1 \<Longrightarrow> flagged e'"
    using note_case_step [of sn1 e1 out1, OF bound] by blast
  have same: "same_but_marks out out'" using same_but_marks_trans s1(2) s2(2) .
  have mm2: "more_marks (i_members out1) (i_members out')" and mm: "more_marks ?ms (i_members out')"
    using s2(2) same by (simp_all add: same_but_marks_def)
  have e': "registered e'" "folded_path e' = folded_path e" "e_normalized e' = e_normalized e"
    using unflag_registered [OF s2(3)] e1 by simp_all
  have inv': "seen_inv sn (i_members out')" using seen_inv_more_marks [OF inv mm] .
  note D' = seen_invD [OF inv']
  have norm': "e_normalized (i_members out1 ! k) = e_normalized (i_members out' ! k)"
    if "k < length (i_members out')" for k
    using unflag_registered [OF more_marksD(2) [OF mm2, of k]] that more_marksD(1) [OF mm2] by simp
  have marks: "flagged (i_members out' ! i) \<and> flagged e'"
    if i: "i < length (i_members out')" "registered (i_members out' ! i)"
      "folded_path (i_members out' ! i) = folded_path e'" for i
  proof -
    obtain k where k: "case_seen sn (folded_path e) = Some k"
      using D'(4) [of "i_members out' ! i"] i e' by auto
    have k': "k < length (i_members out')" "registered (i_members out' ! k)"
      "folded_path (i_members out' ! k) = folded_path e"
      using D'(2) [OF k] by simp_all
    have other: "flagged (i_members out' ! i)" if "i \<noteq> k"
      using D'(5) [of i k] i k' e' that by simp
    show ?thesis
    proof (cases "e_normalized (i_members out' ! k) = e_normalized e")
      case False
      then show ?thesis
        using s2(6) [of k] k s1(4) e1 norm' [OF k'(1)] other by (cases "i = k") auto
    next
      case True
      then obtain j where j: "exact_seen sn (e_normalized e) = Some j"
        using D'(3) [of "i_members out' ! k"] k' by auto
      have j': "j < length (i_members out')" "registered (i_members out' ! j)"
        "e_normalized (i_members out' ! j) = e_normalized e"
        using D'(1) [OF j] by simp_all
      have "flagged (i_members out' ! j)"
        using s1(6) [OF j] more_marksD(3) [OF mm2, of j] j'(1) more_marksD(1) [OF mm2] by simp
      moreover have "flagged (i_members out' ! k)" if "k \<noteq> j"
        using D'(5) [of k j] k' j' that by (simp add: folded_path_def True)
      ultimately show ?thesis
        using s1(6) [OF j] s2(7) other by (cases "i = k"; cases "k = j") auto
    qed
  qed
  have len: "length (i_members out') = length ?ms" "length (i_members out1) = length ?ms"
    using more_marksD(1) mm mm1 by blast+
  have "seen_inv sn' (i_members out' @ [e'])"
    using s1(4,5) s2(4,5) e' e1 len marks by (intro seen_inv_snoc [OF inv']) simp_all
  moreover have "register_path (sn, out, e) = Some (sn', out', e')"
    using True s1(1) s2(1) by (simp add: register_path_def registered_def)
  ultimately show ?thesis using same s1(3) s2(3) by auto
qed

subsection \<open>The loop over the directory\<close>

text \<open>What holds after \<open>n\<close> entries, for a directory at \<open>cd\<close>.\<close>

definition inventory_inv :: "mz_reader \<Rightarrow> bytes \<Rightarrow> ingress_limits \<Rightarrow> nat \<Rightarrow> nat \<Rightarrow> ingress_info \<Rightarrow> bool" where
  "inventory_inv rd data limits cd n out \<longleftrightarrow>
     i_central_directory_offset out = cd \<and>
     map e_index (i_members out) = [0..<n] \<and>
     (\<forall>m \<in> set (i_members out). member_bytes_ok data cd m \<and> member_name_ok limits m \<and>
        member_reported rd m \<and> \<not> e_safe_to_materialize m) \<and>
     i_regular_file_count out = length (filter (\<lambda>m. \<not> e_directory m) (i_members out)) \<and>
     i_encrypted_file_count out = length (filter (\<lambda>m. \<not> e_directory m \<and> e_encrypted m) (i_members out)) \<and>
     i_total_compressed_bytes out = sum_list (map e_compressed_size (i_members out)) \<and>
     i_total_compressed_bytes out \<le> u64_max \<and>
     i_total_declared_uncompressed_bytes out = sum_list (map e_uncompressed_size (i_members out)) \<and>
     i_total_declared_uncompressed_bytes out \<le> u64_max"

text \<open>The fields the loop never writes.\<close>

definition loop_frame :: "ingress_info \<Rightarrow> ingress_info" where
  "loop_frame out = out\<lparr>i_members := [], i_anomalies := [], i_regular_file_count := 0,
     i_encrypted_file_count := 0, i_total_compressed_bytes := 0,
     i_total_declared_uncompressed_bytes := 0\<rparr>"

text \<open>A container that failed: nothing in it may be materialized.\<close>

definition failed_closed :: "ingress_info \<Rightarrow> bool" where
  "failed_closed out \<longleftrightarrow> i_state out \<in> {Malformed, IngressRefused} \<and> \<not> i_structurally_valid out \<and>
     i_failure out \<noteq> None \<and> (\<forall>m \<in> set (i_members out). \<not> e_safe_to_materialize m)"

lemma fail_structure_closed:
  "(\<forall>m \<in> set (i_members out). \<not> e_safe_to_materialize m) \<Longrightarrow> failed_closed (fail_structure r out)"
  by (simp add: failed_closed_def layer_defs)

lemma map_unflag_transfer:
  assumes "map unflag ms' = map unflag ms" "\<And>m. f (unflag m) = f m"
  shows "map f ms' = map f ms"
proof -
  have "map f ms' = map f (map unflag ms')" by (simp add: assms(2))
  also have "\<dots> = map f ms" by (simp add: assms)
  finally show ?thesis .
qed

lemma filter_unflag_transfer:
  assumes "map unflag ms' = map unflag ms" "\<And>m. P (unflag m) = P m"
  shows "length (filter P ms') = length (filter P ms)"
proof -
  have "length (filter P ms') = length (filter P (map unflag ms'))" by (simp add: filter_map o_def assms(2))
  also have "\<dots> = length (filter P ms)" by (simp add: filter_map o_def assms)
  finally show ?thesis .
qed

lemma all_unflag_transfer:
  assumes "map unflag ms' = map unflag ms" "\<And>m. P (unflag m) = P m"
  shows "(\<forall>m \<in> set ms'. P m) = (\<forall>m \<in> set ms. P m)"
proof -
  have "(\<forall>m \<in> set ms'. P m) = list_all P (map unflag ms')" by (simp add: list_all_iff assms(2))
  also have "\<dots> = (\<forall>m \<in> set ms. P m)" by (simp add: list_all_iff assms)
  finally show ?thesis .
qed

lemma same_but_marks_sel:
  assumes "same_but_marks out out'"
  shows "i_central_directory_offset out' = i_central_directory_offset out"
    "i_regular_file_count out' = i_regular_file_count out"
    "i_encrypted_file_count out' = i_encrypted_file_count out"
    "i_total_compressed_bytes out' = i_total_compressed_bytes out"
    "i_total_declared_uncompressed_bytes out' = i_total_declared_uncompressed_bytes out"
    "loop_frame out' = loop_frame out"
    "map unflag (i_members out') = map unflag (i_members out)"
proof -
  let ?r = "\<lambda>x. x\<lparr>i_members := [], i_anomalies := []\<rparr>"
  have eq: "?r out' = ?r out" using assms by (simp add: same_but_marks_def)
  show "i_central_directory_offset out' = i_central_directory_offset out"
    using arg_cong [OF eq, of i_central_directory_offset] by simp
  show "i_regular_file_count out' = i_regular_file_count out"
    using arg_cong [OF eq, of i_regular_file_count] by simp
  show "i_encrypted_file_count out' = i_encrypted_file_count out"
    using arg_cong [OF eq, of i_encrypted_file_count] by simp
  show "i_total_compressed_bytes out' = i_total_compressed_bytes out"
    using arg_cong [OF eq, of i_total_compressed_bytes] by simp
  show "i_total_declared_uncompressed_bytes out' = i_total_declared_uncompressed_bytes out"
    using arg_cong [OF eq, of i_total_declared_uncompressed_bytes] by simp
  show "loop_frame out' = loop_frame out"
    using arg_cong [OF eq, of loop_frame] by (simp add: loop_frame_def)
  show "map unflag (i_members out') = map unflag (i_members out)"
    using assms by (simp add: same_but_marks_def more_marks_def)
qed

lemma inventory_inv_marks:
  assumes inv: "inventory_inv rd data limits cd n out" and same: "same_but_marks out out'"
  shows "inventory_inv rd data limits cd n out'"
proof -
  note S = same_but_marks_sel [OF same]
  have "map e_index (i_members out') = map e_index (i_members out)"
    by (rule map_unflag_transfer [OF S(7)]) simp
  moreover have "map e_compressed_size (i_members out') = map e_compressed_size (i_members out)"
    by (rule map_unflag_transfer [OF S(7)]) simp
  moreover have "map e_uncompressed_size (i_members out') = map e_uncompressed_size (i_members out)"
    by (rule map_unflag_transfer [OF S(7)]) simp
  moreover have "length (filter (\<lambda>m. \<not> e_directory m) (i_members out')) =
      length (filter (\<lambda>m. \<not> e_directory m) (i_members out))"
    by (rule filter_unflag_transfer [OF S(7)]) simp
  moreover have "length (filter (\<lambda>m. \<not> e_directory m \<and> e_encrypted m) (i_members out')) =
      length (filter (\<lambda>m. \<not> e_directory m \<and> e_encrypted m) (i_members out))"
    by (rule filter_unflag_transfer [OF S(7)]) simp
  moreover have "(\<forall>m \<in> set (i_members out'). member_bytes_ok data cd m \<and> member_name_ok limits m \<and>
        member_reported rd m \<and> \<not> e_safe_to_materialize m) = (\<forall>m \<in> set (i_members out). member_bytes_ok data cd m \<and>
        member_name_ok limits m \<and> member_reported rd m \<and> \<not> e_safe_to_materialize m)"
    by (rule all_unflag_transfer [OF S(7)]) simp
  ultimately show ?thesis using inv S by (simp add: inventory_inv_def)
qed

lemma inventory_append:
  assumes inv: "inventory_inv rd data limits cd n out" and idx: "e_index e = n"
    and e: "member_bytes_ok data cd e" "member_name_ok limits e" "member_reported rd e" "\<not> e_safe_to_materialize e"
    and app: "append_member e (count_member e out) = pass out'"
    and small: "length data \<le> u64_max"
  shows "inventory_inv rd data limits cd (Suc n) out'" "i_members out' = i_members out @ [e]"
    "loop_frame out' = loop_frame out"
proof -
  have le: "e_compressed_size e \<le> u64_max" "e_uncompressed_size e \<le> u64_max"
    using e(1) small by (simp_all add: member_bytes_ok_def)
  have sums: "i_total_compressed_bytes out + e_compressed_size e \<le> u64_max"
    "i_total_declared_uncompressed_bytes out + e_uncompressed_size e \<le> u64_max"
    using app le by (auto simp: append_member_def count_member_def Let_def split: if_splits)
  have out': "out' = count_member e out\<lparr>i_total_compressed_bytes := i_total_compressed_bytes out + e_compressed_size e,
      i_total_declared_uncompressed_bytes := i_total_declared_uncompressed_bytes out + e_uncompressed_size e,
      i_members := i_members out @ [e]\<rparr>"
    using app sums by (auto simp: append_member_def count_member_def Let_def split: if_splits)
  show "i_members out' = i_members out @ [e]" by (simp add: out')
  show "loop_frame out' = loop_frame out" by (simp add: out' loop_frame_def count_member_def Let_def)
  show "inventory_inv rd data limits cd (Suc n) out'"
    using inv idx e sums by (simp add: out' inventory_inv_def count_member_def Let_def)
qed

lemma append_member_defined: "defined (append_member e out)"
  by (simp add: append_member_def)

lemma append_member_stop:
  "append_member e out = stop out' \<Longrightarrow> \<forall>m \<in> set (i_members out). \<not> e_safe_to_materialize m \<Longrightarrow>
    failed_closed out'"
  by (auto simp: append_member_def fail_structure_closed split: if_splits)

lemma outcome_cases:
  assumes "defined m"
  obtains (stop) e where "m = stop e" | (pass) a where "m = pass a"
  using assms by (cases m; cases "the m") (auto simp: defined_def stop_def pass_def)

text \<open>The loop either reports a closed failure or hands over a complete inventory.\<close>

definition loop_post ::
  "mz_reader \<Rightarrow> bytes \<Rightarrow> ingress_limits \<Rightarrow> nat \<Rightarrow> nat \<Rightarrow> ingress_info \<Rightarrow> (ingress_info, seen \<times> ingress_info) outcome \<Rightarrow> bool" where
  "loop_post rd data limits cd n out r \<longleftrightarrow>
     (case r of None \<Rightarrow> False
      | Some (Inl out') \<Rightarrow> failed_closed out'
      | Some (Inr (sn', out')) \<Rightarrow> seen_inv sn' (i_members out') \<and> inventory_inv rd data limits cd n out' \<and>
          loop_frame out' = loop_frame out)"

lemma loop_post_simps [simp]:
  "loop_post rd data limits cd n out (stop out') = failed_closed out'"
  "loop_post rd data limits cd n out (pass (sn', out')) =
     (seen_inv sn' (i_members out') \<and> inventory_inv rd data limits cd n out' \<and> loop_frame out' = loop_frame out)"
  by (simp_all add: loop_post_def stop_def pass_def)

lemma loop_post_frame:
  "loop_post rd data limits cd n out r \<Longrightarrow> loop_frame out = loop_frame out' \<Longrightarrow> loop_post rd data limits cd n out' r"
  by (auto simp: loop_post_def split: option.splits sum.splits)

lemma inspect_members_post:
  assumes small: "length data \<le> u64_max"
  shows "seen_inv sn (i_members out) \<Longrightarrow> inventory_inv rd data limits cd n out \<Longrightarrow>
    loop_post rd data limits cd (n + k) out (inspect_members data rd limits [n..<n + k] sn out)"
proof (induction k arbitrary: n sn out)
  case 0
  then show ?case by simp
next
  case (Suc k)
  have unsafe: "\<forall>m \<in> set (i_members out). \<not> e_safe_to_materialize m"
    and cd: "i_central_directory_offset out = cd"
    using Suc.prems(2) by (simp_all add: inventory_inv_def)
  have range: "[n..<n + Suc k] = n # [Suc n..<Suc n + k]" by (simp add: upt_conv_Cons)
  show ?case
  proof (rule outcome_cases [OF read_member_defined [OF small, of rd limits "i_archive_base_offset out" cd n]])
    fix r assume "read_member data rd limits (i_archive_base_offset out) cd n = stop r"
    then show ?thesis
      unfolding range inspect_members.simps cd by (simp add: fail_structure_closed unsafe)
  next
    fix e assume rm: "read_member data rd limits (i_archive_base_offset out) cd n = pass e"
    obtain sn' out1 e' where reg: "register_path (sn, out, e) = Some (sn', out1, e')"
      and same: "same_but_marks out out1" and e': "unflag e' = unflag e"
      and seen: "seen_inv sn' (i_members out1 @ [e'])"
      using register_path_step [OF Suc.prems(1), of e] by blast
    have inv1: "inventory_inv rd data limits cd n out1" using inventory_inv_marks [OF Suc.prems(2) same] .
    have ok: "e_index e' = n" "member_bytes_ok data cd e'" "member_name_ok limits e'"
      "member_reported rd e'" "\<not> e_safe_to_materialize e'"
      using read_member_pass [OF small rm] e' by (metis unflag_sel)+
    have frame1: "loop_frame out1 = loop_frame out" using same_but_marks_sel(6) [OF same] .
    show ?thesis
    proof (rule outcome_cases [OF append_member_defined [of e' "count_member e' out1"]])
      fix o' assume stopped: "append_member e' (count_member e' out1) = stop o'"
      have "\<forall>m \<in> set (i_members (count_member e' out1)). \<not> e_safe_to_materialize m"
        using inv1 by (simp add: inventory_inv_def count_member_def Let_def)
      with append_member_stop [OF stopped] have "failed_closed o'" .
      then show ?thesis
        unfolding range inspect_members.simps cd by (simp add: rm reg stopped)
    next
      fix out2 assume app: "append_member e' (count_member e' out1) = pass out2"
      note inv2 = inventory_append [OF inv1 ok app small]
      have "loop_post rd data limits cd (Suc n + k) out2 (inspect_members data rd limits [Suc n..<Suc n + k] sn' out2)"
        using seen inv2 by (intro Suc.IH) simp_all
      then have "loop_post rd data limits cd (n + Suc k) out (inspect_members data rd limits [Suc n..<Suc n + k] sn' out2)"
        using loop_post_frame [of rd data limits cd "Suc n + k" out2 _ out] inv2(3) frame1
        unfolding add_Suc_right add_Suc by metis
      then show ?thesis
        unfolding range inspect_members.simps cd by (simp add: rm reg app)
    qed
  qed
qed

subsection \<open>The verdict\<close>

text \<open>Finalizing writes three fields; \<open>erase\<close> forgets them.\<close>

definition erase :: "member \<Rightarrow> member" where
  "erase m = m\<lparr>e_state := NoMemberState, e_failure := None, e_safe_to_materialize := False\<rparr>"

lemma erase_upd:
  "erase (m\<lparr>e_state := s\<rparr>) = erase m" "erase (m\<lparr>e_failure := r\<rparr>) = erase m"
  "erase (m\<lparr>e_safe_to_materialize := b\<rparr>) = erase m"
  by (simp_all add: erase_def)

lemma erase_finalize: "erase (finalize_member_state limits m) = erase m"
  by (simp only: finalize_member_state_def Let_def if_distrib [of erase] erase_upd if_cancel)

lemma erase_sel:
  "e_index (erase m) = e_index m" "member_bytes_ok data cd (erase m) = member_bytes_ok data cd m"
  "member_name_ok limits (erase m) = member_name_ok limits m" "e_directory (erase m) = e_directory m"
  "e_encrypted (erase m) = e_encrypted m" "e_compressed_size (erase m) = e_compressed_size m"
  "e_uncompressed_size (erase m) = e_uncompressed_size m" "registered (erase m) = registered m"
  "flagged (erase m) = flagged m" "folded_path (erase m) = folded_path m"
  "e_safe_path (erase m) = e_safe_path m" "e_portable_path (erase m) = e_portable_path m"
  "e_symlink (erase m) = e_symlink m" "e_special_file (erase m) = e_special_file m"
  "e_duplicate_path (erase m) = e_duplicate_path m" "e_case_collision (erase m) = e_case_collision m"
  "member_reported rd (erase m) = member_reported rd m"
  "e_supported_method (erase m) = e_supported_method m" "ratio_exceeded limits (erase m) = ratio_exceeded limits m"
  by (simp_all add: erase_def member_bytes_ok_def headers_agree_sel member_name_ok_def registered_def flagged_def
      folded_path_def ratio_exceeded_def member_reported_def)

lemma finalize_member_sel:
  "e_index (finalize_member_state limits m) = e_index m"
  "member_bytes_ok data cd (finalize_member_state limits m) = member_bytes_ok data cd m"
  "member_name_ok limits (finalize_member_state limits m) = member_name_ok limits m"
  "e_directory (finalize_member_state limits m) = e_directory m"
  "e_encrypted (finalize_member_state limits m) = e_encrypted m"
  "e_compressed_size (finalize_member_state limits m) = e_compressed_size m"
  "e_uncompressed_size (finalize_member_state limits m) = e_uncompressed_size m"
  "registered (finalize_member_state limits m) = registered m"
  "flagged (finalize_member_state limits m) = flagged m"
  "folded_path (finalize_member_state limits m) = folded_path m"
  "member_reported rd (finalize_member_state limits m) = member_reported rd m"
  by (metis erase_finalize erase_sel)+

text \<open>The conditions under which a member may be written to disk.\<close>

definition materializable :: "ingress_limits \<Rightarrow> member \<Rightarrow> bool" where
  "materializable limits m \<longleftrightarrow>
     e_safe_path m \<and> e_portable_path m \<and> \<not> e_symlink m \<and> \<not> e_special_file m \<and> \<not> e_directory m \<and>
     \<not> e_duplicate_path m \<and> \<not> e_case_collision m \<and> \<not> e_encrypted m \<and> e_supported_method m \<and>
     e_uncompressed_size m \<le> max_member_uncompressed_bytes limits \<and> \<not> ratio_exceeded limits m"

lemma materializable_erase: "materializable limits (erase m) = materializable limits m"
  by (simp only: materializable_def erase_sel)

lemma finalize_verdict:
  "e_safe_to_materialize (finalize_member_state limits m) = materializable limits m"
  "(e_state (finalize_member_state limits m) = SafeToMaterialize) = materializable limits m"
  by (simp_all add: finalize_member_state_def Let_def materializable_def ratio_exceeded_def)

lemma finalize_member_safe:
  "e_safe_to_materialize (finalize_member_state limits m) \<longleftrightarrow> materializable limits (finalize_member_state limits m)"
  using finalize_verdict(1) [of limits m] materializable_erase erase_finalize by metis

lemma finalize_members_eq:
  "finalize_members limits ms out = out
     \<lparr>i_members := i_members out @ map (finalize_member_state limits) ms,
      i_safe_materialization_count := i_safe_materialization_count out +
        length (filter e_safe_to_materialize (map (finalize_member_state limits) ms)),
      i_policy_gated := (i_policy_gated out \<or>
        (\<exists>m \<in> set (map (finalize_member_state limits) ms). \<not> e_directory m \<and> \<not> e_safe_to_materialize m))\<rparr>"
  by (induction ms arbitrary: out) (simp_all add: Let_def)

subsection \<open>The whole inspection\<close>

text \<open>
  The result of an inspection that reached the end: the accounting is exact, the budgets hold,
  and every member's verdict is decided by \<open>materializable\<close>.
\<close>

definition accounting_ok :: "ingress_limits \<Rightarrow> ingress_info \<Rightarrow> bool" where
  "accounting_ok limits out \<longleftrightarrow>
     map e_index (i_members out) = [0..<i_member_count out] \<and>
     i_member_count out \<le> max_members limits \<and>
     i_regular_file_count out = length (filter (\<lambda>m. \<not> e_directory m) (i_members out)) \<and>
     i_encrypted_file_count out = length (filter (\<lambda>m. \<not> e_directory m \<and> e_encrypted m) (i_members out)) \<and>
     i_safe_materialization_count out = length (filter e_safe_to_materialize (i_members out)) \<and>
     i_total_compressed_bytes out = sum_list (map e_compressed_size (i_members out)) \<and>
     i_total_declared_uncompressed_bytes out = sum_list (map e_uncompressed_size (i_members out)) \<and>
     (i_credential_required out \<longleftrightarrow> (\<exists>m \<in> set (i_members out). \<not> e_directory m \<and> e_encrypted m)) \<and>
     (i_policy_gated out \<longleftrightarrow>
        (\<exists>m \<in> set (i_members out). \<not> e_directory m \<and> \<not> e_safe_to_materialize m) \<or>
        max_total_declared_uncompressed_bytes limits < i_total_declared_uncompressed_bytes out) \<and>
     i_state out =
       (if i_regular_file_count out \<noteq> 0 \<and> i_encrypted_file_count out = i_regular_file_count out
        then CredentialRequired else if i_policy_gated out then ConfirmedGated else IngressConfirmed)"

definition member_verdict_ok :: "bytes \<Rightarrow> ingress_limits \<Rightarrow> nat \<Rightarrow> member \<Rightarrow> bool" where
  "member_verdict_ok data limits cd m \<longleftrightarrow>
     member_bytes_ok data cd m \<and> member_name_ok limits m \<and>
     (e_safe_to_materialize m \<longleftrightarrow> materializable limits m)"

definition confirmed_state :: "ingress_state \<Rightarrow> bool" where
  "confirmed_state s \<longleftrightarrow> s \<in> {CredentialRequired, ConfirmedGated, IngressConfirmed}"

definition collisions_marked :: "member list \<Rightarrow> bool" where
  "collisions_marked ms \<longleftrightarrow>
     (\<forall>i < length ms. \<forall>j < length ms. i \<noteq> j \<longrightarrow> registered (ms ! i) \<longrightarrow> registered (ms ! j) \<longrightarrow>
        folded_path (ms ! i) = folded_path (ms ! j) \<longrightarrow> flagged (ms ! i))"

text \<open>All members are what the reader of the archive at the recorded base reports.\<close>

definition reported :: "mz_init \<Rightarrow> bytes \<Rightarrow> ingress_info \<Rightarrow> bool" where
  "reported init data out \<longleftrightarrow>
     (\<exists>rd. init (drop (i_archive_base_offset out) data) = Inr rd \<and> (\<forall>m \<in> set (i_members out). member_reported rd m))"

definition inspected_ok :: "bytes \<Rightarrow> ingress_limits \<Rightarrow> ingress_info \<Rightarrow> bool" where
  "inspected_ok data limits out \<longleftrightarrow>
     i_structurally_valid out \<and> confirmed_state (i_state out) \<and> i_failure out = None \<and>
     accounting_ok limits out \<and>
     (\<forall>m \<in> set (i_members out). member_verdict_ok data limits (i_central_directory_offset out) m) \<and>
     collisions_marked (i_members out)"

lemma filter_finalize:
  "(\<And>m. P (finalize_member_state limits m) = P m) \<Longrightarrow>
    length (filter P (map (finalize_member_state limits) ms)) = length (filter P ms)"
  by (simp add: filter_map o_def)

lemma map_finalize:
  "(\<And>m. f (finalize_member_state limits m) = f m) \<Longrightarrow>
    map f (map (finalize_member_state limits) ms) = map f ms"
  by simp

lemma collisions_finalize:
  "seen_inv sn ms \<Longrightarrow> collisions_marked (map (finalize_member_state limits) ms)"
  using seen_invD(5) [of sn ms] by (simp add: collisions_marked_def finalize_member_sel)

text \<open>What \<open>conclude\<close> leaves in each field.\<close>

lemma conclude_sel:
  fixes limits out0
  defines "out \<equiv> conclude limits out0"
  shows "i_members out = map (finalize_member_state limits) (i_members out0)"
    "i_structurally_valid out" "confirmed_state (i_state out)" "i_failure out = i_failure out0"
    "i_member_count out = i_member_count out0" "i_regular_file_count out = i_regular_file_count out0"
    "i_encrypted_file_count out = i_encrypted_file_count out0"
    "i_total_compressed_bytes out = i_total_compressed_bytes out0"
    "i_total_declared_uncompressed_bytes out = i_total_declared_uncompressed_bytes out0"
    "i_central_directory_offset out = i_central_directory_offset out0"
    "i_safe_materialization_count out = i_safe_materialization_count out0 +
       length (filter e_safe_to_materialize (map (finalize_member_state limits) (i_members out0)))"
    "i_credential_required out = (i_encrypted_file_count out0 \<noteq> 0)"
    "i_policy_gated out = (i_policy_gated out0 \<or>
       (\<exists>m \<in> set (map (finalize_member_state limits) (i_members out0)). \<not> e_directory m \<and> \<not> e_safe_to_materialize m) \<or>
       max_total_declared_uncompressed_bytes limits < i_total_declared_uncompressed_bytes out0)"
    "i_state out =
       (if i_regular_file_count out \<noteq> 0 \<and> i_encrypted_file_count out = i_regular_file_count out
        then CredentialRequired else if i_policy_gated out then ConfirmedGated else IngressConfirmed)"
  unfolding out_def
  by (simp_all add: conclude_def Let_def finalize_members_eq confirmed_state_def)

lemma conclude_frame:
  "i_recognized (conclude limits out) = i_recognized out" "i_kind (conclude limits out) = i_kind out"
  "i_limits (conclude limits out) = i_limits out"
  "i_parent_sha256 (conclude limits out) = i_parent_sha256 out"
  "i_archive_base_offset (conclude limits out) = i_archive_base_offset out"
  by (simp_all add: conclude_def Let_def finalize_members_eq)

lemma length_filter_pos: "length (filter P xs) \<noteq> 0 \<longleftrightarrow> (\<exists>x \<in> set xs. P x)"
  by (simp add: filter_empty_conv)

lemma conclude_ok:
  assumes inv: "inventory_inv rd data limits cd n out0" and seen: "seen_inv sn (i_members out0)"
    and start: "i_failure out0 = None" "i_member_count out0 = n" "n \<le> max_members limits"
      "i_safe_materialization_count out0 = 0" "\<not> i_policy_gated out0"
  shows "inspected_ok data limits (conclude limits out0)"
    and "\<forall>m \<in> set (i_members (conclude limits out0)). member_reported rd m"
proof -
  show "\<forall>m \<in> set (i_members (conclude limits out0)). member_reported rd m"
    using inv by (auto simp: conclude_sel(1) finalize_member_sel inventory_inv_def)
next
  let ?ms = "map (finalize_member_state limits) (i_members out0)"
  have enc: "(i_encrypted_file_count out0 \<noteq> 0) = (\<exists>m \<in> set ?ms. \<not> e_directory m \<and> e_encrypted m)"
    using inv by (simp add: inventory_inv_def finalize_member_sel filter_empty_conv)
  have "accounting_ok limits (conclude limits out0)"
    unfolding accounting_ok_def conclude_sel
    using inv start enc
    by (simp add: inventory_inv_def filter_finalize finalize_member_sel o_def)
  moreover have "\<forall>m \<in> set ?ms. member_verdict_ok data limits cd m"
    using inv by (auto simp: inventory_inv_def member_verdict_ok_def finalize_member_sel finalize_member_safe)
  ultimately show "inspected_ok data limits (conclude limits out0)"
    using inv start collisions_finalize [OF seen]
    by (simp add: inspected_ok_def conclude_sel(1-10) inventory_inv_def)
qed

text \<open>Opening the archive and starting the inventory.\<close>

definition fresh :: "ingress_info \<Rightarrow> bool" where
  "fresh out \<longleftrightarrow> i_members out = [] \<and> i_failure out = None \<and> i_safe_materialization_count out = 0 \<and>
     \<not> i_policy_gated out \<and> i_regular_file_count out = 0 \<and> i_encrypted_file_count out = 0 \<and>
     i_total_compressed_bytes out = 0 \<and> i_total_declared_uncompressed_bytes out = 0 \<and>
     \<not> i_structurally_valid out"

lemma fresh_layers [simp]:
  "fresh (with_layer k f out) = fresh out" "fresh (layer_set k st out) = fresh out"
  "fresh (layer_evidence k s out) = fresh out"
  by (simp_all add: fresh_def)

lemma open_archive_defined: "defined (open_archive init data eocd out)"
proof -
  have "\<exists>r. subspan data p (length data - p) = Some r" if "classic_prefix_base data eocd = Some p" for p
    using that by (auto simp: classic_prefix_base_def Let_def subspan_def split: if_splits)
  then show ?thesis
    by (auto simp: open_archive_def Let_def intro!: defined_step split: sum.splits option.splits)
qed

lemma open_archive_post:
  assumes "fresh out"
  shows "open_archive init data eocd out = stop out' \<Longrightarrow> failed_closed out'"
    and "open_archive init data eocd out = pass (rd, out1) \<Longrightarrow> fresh out1 \<and>
      (i_archive_base_offset out = 0 \<longrightarrow> init (drop (i_archive_base_offset out1) data) = Inr rd)"
proof -
  have access_stop: "access a = stop e \<longleftrightarrow> False" for a :: "bytes option" and e :: ingress_info
    by (auto simp: access_def stop_def)
  have step_stop: "step (access a) f = stop e \<longleftrightarrow> (\<exists>x. a = Some x \<and> f x = stop e)"
    for a :: "bytes option" and f :: "bytes \<Rightarrow> (ingress_info, mz_reader \<times> ingress_info) outcome" and e
    by (cases a) (auto simp: step_def access_def stop_def)
  have inner: "(case init x of Inl e \<Rightarrow> stop (F e) | Inr rd \<Rightarrow> pass (G rd)) = stop o' \<longleftrightarrow>
      (\<exists>e. init x = Inl e \<and> o' = F e)"
    for x and F :: "string \<Rightarrow> ingress_info" and G :: "mz_reader \<Rightarrow> mz_reader \<times> ingress_info" and o'
    by (cases "init x") auto
  have inner_pass: "(case init x of Inl e \<Rightarrow> stop (F e) | Inr rd \<Rightarrow> pass (rd, u)) = pass o' \<longleftrightarrow>
      (\<exists>rd. init x = Inr rd \<and> o' = (rd, u))"
    for x u and F :: "string \<Rightarrow> ingress_info" and o' :: "mz_reader \<times> ingress_info"
    by (cases "init x") auto
  show "failed_closed out'" if "open_archive init data eocd out = stop out'"
    using that assms
    by (auto simp: open_archive_def Let_def step_stop inner fresh_def
        intro!: fail_structure_closed split: sum.splits option.splits)
  show "fresh out1 \<and> (i_archive_base_offset out = 0 \<longrightarrow> init (drop (i_archive_base_offset out1) data) = Inr rd)"
    if "open_archive init data eocd out = pass (rd, out1)"
    using that assms
    by (auto simp: open_archive_def Let_def step_eq_pass_iff inner_pass fresh_def subspan_eq_Some_iff
        split: sum.splits option.splits)
qed

lemma begin_inventory_inv:
  assumes "fresh out"
  shows "inventory_inv rd data limits (i_central_directory_offset (begin_inventory rd out)) 0 (begin_inventory rd out)"
    "fresh (begin_inventory rd out)"
  using assms by (simp_all add: begin_inventory_def inventory_inv_def fresh_def)

text \<open>The three outcomes of an inspection, in one predicate.\<close>

definition body_post :: "mz_init \<Rightarrow> bytes \<Rightarrow> ingress_limits \<Rightarrow> (ingress_info, ingress_info) outcome \<Rightarrow> bool" where
  "body_post init data limits r \<longleftrightarrow>
     (\<exists>out. r = stop out \<and> failed_closed out) \<or> (\<exists>out. r = pass out \<and> inspected_ok data limits out \<and> reported init data out)"

lemma loop_frame_sel:
  assumes "loop_frame a = loop_frame b"
  shows "i_failure a = i_failure b" "i_member_count a = i_member_count b"
    "i_safe_materialization_count a = i_safe_materialization_count b" "i_policy_gated a = i_policy_gated b"
    "i_recognized a = i_recognized b" "i_kind a = i_kind b" "i_limits a = i_limits b"
    "i_parent_sha256 a = i_parent_sha256 b" "i_archive_base_offset a = i_archive_base_offset b"
  using arg_cong [OF assms, of i_failure] arg_cong [OF assms, of i_member_count]
    arg_cong [OF assms, of i_safe_materialization_count] arg_cong [OF assms, of i_policy_gated]
    arg_cong [OF assms, of i_recognized] arg_cong [OF assms, of i_kind] arg_cong [OF assms, of i_limits]
    arg_cong [OF assms, of i_parent_sha256] arg_cong [OF assms, of i_archive_base_offset]
  by (simp_all add: loop_frame_def)

lemma inspect_inventory_post:
  fixes rd :: mz_reader
  assumes small: "length data \<le> u64_max" and fresh: "fresh out1"
    and opened: "init (drop (i_archive_base_offset out1) data) = Inr rd"
  defines "out2 \<equiv> begin_inventory rd out1"
  assumes fits: "i_member_count out2 \<le> max_members limits"
  shows "body_post init data limits
    (step (inspect_members data rd limits [0..<i_member_count out2]
             \<lparr>exact_seen = Map.empty, case_seen = Map.empty\<rparr> out2) (\<lambda>(sn, out3). pass (conclude limits out3)))"
proof -
  let ?n = "i_member_count out2" and ?cd = "i_central_directory_offset out2"
  let ?r = "inspect_members data rd limits [0..<?n] \<lparr>exact_seen = Map.empty, case_seen = Map.empty\<rparr> out2"
  have inv: "inventory_inv rd data limits ?cd 0 out2" and fresh2: "fresh out2"
    using begin_inventory_inv [OF fresh] by (simp_all add: out2_def)
  have seen0: "seen_inv \<lparr>exact_seen = Map.empty, case_seen = Map.empty\<rparr> (i_members out2)"
    using fresh2 seen_inv_start by (simp add: fresh_def)
  have "loop_post rd data limits ?cd ?n out2 ?r"
    using inspect_members_post [OF small seen0 inv, of ?n] by simp
  then consider (stop) o' where "?r = stop o'" "failed_closed o'"
    | (pass) sn' o' where "?r = pass (sn', o')" "seen_inv sn' (i_members o')"
        "inventory_inv rd data limits ?cd ?n o'" "loop_frame o' = loop_frame out2"
    by (auto simp: loop_post_def stop_def pass_def split: option.splits sum.splits)
  then show ?thesis
  proof cases
    case stop
    then show ?thesis by (simp add: body_post_def)
  next
    case pass
    have "inspected_ok data limits (conclude limits o')" "\<forall>m \<in> set (i_members (conclude limits o')). member_reported rd m"
      using conclude_ok [OF pass(3,2)] loop_frame_sel [OF pass(4)] fresh2 fits by (simp_all add: fresh_def)
    moreover have "init (drop (i_archive_base_offset (conclude limits o')) data) = Inr rd"
      using opened loop_frame_sel(9) [OF pass(4)] by (simp add: conclude_frame out2_def begin_inventory_def)
    ultimately have "inspected_ok data limits (conclude limits o')" "reported init data (conclude limits o')"
      unfolding reported_def by blast+
    then show ?thesis by (simp add: body_post_def pass(1))
  qed
qed

lemma inspect_body_post:
  assumes small: "length data \<le> u64_max" and fresh: "fresh out" and base: "i_archive_base_offset out = 0"
  shows "body_post init data limits (inspect_body init data limits eocd out)"
proof -
  let ?out = "out\<lparr>i_parent_sha256 := sha256_spec data\<rparr>"
  have fresh': "fresh ?out" using fresh by (simp add: fresh_def)
  have hash: "sha256_bytes data = Some (sha256_spec data)" by (rule sha256.one_shot_ref)
  show ?thesis
  proof (rule outcome_cases [OF open_archive_defined [of init data eocd ?out]])
    fix o' assume "open_archive init data eocd ?out = stop o'"
    with open_archive_post(1) [OF fresh' this] show ?thesis
      by (simp add: inspect_body_def hash body_post_def)
  next
    fix a assume "open_archive init data eocd ?out = pass a"
    then obtain rd out1 where op: "open_archive init data eocd ?out = pass (rd, out1)" by (cases a) simp
    have fresh1: "fresh out1" and opened: "init (drop (i_archive_base_offset out1) data) = Inr rd"
      using open_archive_post(2) [OF fresh' op] base by simp_all
    note fresh2 = begin_inventory_inv(2) [OF fresh1, of rd]
    show ?thesis
    proof (cases "max_members limits < i_member_count (begin_inventory rd out1)")
      case True
      then show ?thesis
        using fresh2 by (auto simp: inspect_body_def hash op Let_def body_post_def failed_closed_def fresh_def)
    next
      case False
      then show ?thesis
        using inspect_inventory_post [where init = init and rd = rd and limits = limits, OF small fresh1 opened]
        by (simp add: inspect_body_def hash op Let_def not_less)
    qed
  qed
qed

definition not_a_zip :: "ingress_info \<Rightarrow> bool" where
  "not_a_zip out \<longleftrightarrow> i_state out = Absent \<and> \<not> i_recognized out \<and> i_members out = [] \<and>
     \<not> i_structurally_valid out"

lemma inspect_outcomes:
  assumes "length data \<le> u64_max"
  obtains out where "inspect_zip_container init data src limits = Some out"
    "not_a_zip out \<or> failed_closed out \<or> inspected_ok data limits out"
    "strict_eocd_offset data = None \<longleftrightarrow> not_a_zip out"
    "inspected_ok data limits out \<longrightarrow> length data \<le> max_input_bytes limits"
    "inspected_ok data limits out \<longrightarrow> reported init data out"
proof (cases "strict_eocd_offset data")
  case None
  then show ?thesis
    by (intro that) (auto simp: inspect_zip_container_def empty_ingress_def not_a_zip_def inspected_ok_def)
next
  case (Some eocd)
  let ?out0 = "empty_ingress\<lparr>i_source_identity := src, i_parent_size := length data,
                 i_limits := limits, i_layers := initial_layers limits (length data)\<rparr>"
  let ?out1 = "layer_evidence 0 ''EOCD with self-consistent comment length reaches EOF''
      (layer_set 0 LayerCandidate (?out0\<lparr>i_recognized := True, i_kind := ''zip''\<rparr>))"
  have fresh: "fresh ?out1" and base: "i_archive_base_offset ?out1 = 0" by (simp_all add: fresh_def empty_ingress_def)
  have closed: "\<not> not_a_zip out" if "failed_closed out" for out
    using that by (auto simp: failed_closed_def not_a_zip_def)
  have ok: "\<not> not_a_zip out" "\<not> failed_closed out" if "inspected_ok data limits out" for out
    using that by (auto simp: inspected_ok_def not_a_zip_def failed_closed_def)
  show ?thesis
  proof (cases "max_input_bytes limits < length data")
    case True
    let ?out = "with_layer 0 (\<lambda>l. l\<lparr>l_state := LayerRefused, l_failure := Some InputBudget\<rparr>)
                    (?out1\<lparr>i_state := IngressRefused, i_failure := Some InputBudget\<rparr>)"
    have "failed_closed ?out" by (simp add: failed_closed_def empty_ingress_def)
    moreover have "inspect_zip_container init data src limits = Some ?out"
      unfolding inspect_zip_container_def using Some True by (simp add: Let_def)
    ultimately obtain out where "failed_closed out" "inspect_zip_container init data src limits = Some out"
      by blast
    moreover from this have "\<not> inspected_ok data limits out" using ok(2) by blast
    ultimately show ?thesis using that [of out] closed [of out] Some by simp
  next
    case False
    have eq: "inspect_zip_container init data src limits =
        map_option (case_sum id id) (inspect_body init data limits eocd ?out1)"
      unfolding inspect_zip_container_def using Some False by (simp only: Let_def option.case if_False)
    from inspect_body_post [where init = init and limits = limits and eocd = eocd, OF assms fresh base] show ?thesis
      unfolding body_post_def
    proof (elim disjE exE conjE)
      fix out assume "inspect_body init data limits eocd ?out1 = stop out" "failed_closed out"
      then show ?thesis using that [of out] eq closed ok Some by (auto simp: stop_def)
    next
      fix out assume "inspect_body init data limits eocd ?out1 = pass out" "inspected_ok data limits out" "reported init data out"
      then show ?thesis using that [of out] eq closed ok Some False by (auto simp: pass_def)
    qed
  qed
qed

subsection \<open>Properties\<close>

text \<open>C9: Inspection is memory safe and terminates: for every input that fits the address space,
  every limit and every behaviour of the archive reader (whatever offsets, sizes and errors it
  reports), the code never reads outside the input, never indexes outside its member vector, and
  returns a result which is one of: no ZIP (exactly when the strict end record is absent), a closed
  failure with no member offered for materialization, or a complete inspection.\<close>

theorem zip_inspection_total:
  assumes "length data \<le> u64_max"
  shows "\<exists>out. inspect_zip_container init data src limits = Some out \<and>
    (not_a_zip out \<or> failed_closed out \<or> inspected_ok data limits out) \<and>
    (not_a_zip out \<longleftrightarrow> \<not> has_strict_zip_eocd data)"
proof -
  obtain out where "inspect_zip_container init data src limits = Some out"
    "not_a_zip out \<or> failed_closed out \<or> inspected_ok data limits out"
    "strict_eocd_offset data = None \<longleftrightarrow> not_a_zip out"
    using inspect_outcomes [OF assms] by metis
  then show ?thesis by (auto simp: has_strict_zip_eocd_def)
qed

lemma safe_member_inspected:
  assumes "length data \<le> u64_max" "inspect_zip_container init data src limits = Some out"
    and "m \<in> set (i_members out)" "e_safe_to_materialize m"
  shows "inspected_ok data limits out" "length data \<le> max_input_bytes limits" "reported init data out"
proof -
  have "not_a_zip out \<or> failed_closed out \<or> inspected_ok data limits out"
    and "inspected_ok data limits out \<longrightarrow> length data \<le> max_input_bytes limits"
    and "inspected_ok data limits out \<longrightarrow> reported init data out"
    using inspect_outcomes [OF assms(1), of init src limits] assms(2) by (metis option.inject)+
  then show "inspected_ok data limits out" "length data \<le> max_input_bytes limits" "reported init data out"
    using assms(3,4) by (auto simp: not_a_zip_def failed_closed_def)
qed

lemma zip_safe_member_facts:
  assumes "length data \<le> u64_max" "inspect_zip_container init data src limits = Some out"
    and "m \<in> set (i_members out)" "e_safe_to_materialize m"
  shows "materializable limits m \<and> member_bytes_ok data (i_central_directory_offset out) m \<and>
    member_name_ok limits m \<and> length data \<le> max_input_bytes limits \<and> reported init data out"
  using safe_member_inspected [OF assms] assms(3,4)
  by (auto simp: inspected_ok_def member_verdict_ok_def)

text \<open>C1: A member offered for materialization agrees with its headers and meets every safety
  rule. Its name and name length are those stored in its central entry and in its local header, and
  the name is accepted by the name policy; its flags and method are those of the local header; its
  CRC-32 and sizes are those of the local header (a size field of all ones defers to ZIP64) or, when
  bit 3 of the flags is set, of a data descriptor right behind the payload; all of these, and the kind
  of file, are what the reader of the archive at the recorded base reports for this index, and the
  kind is a plain unencrypted regular file within the size and expansion budgets; its payload starts right after
  the local header's name and extra fields and ends before the central directory, inside the input;
  and the recorded digest is the SHA-256 of exactly that payload.\<close>

theorem zip_safe_member_sound:
  assumes "length data \<le> u64_max" "inspect_zip_container init data src limits = Some out"
    and "m \<in> set (i_members out)" "e_safe_to_materialize m"
  shows "materializable limits m \<and> member_bytes_ok data (i_central_directory_offset out) m \<and>
    member_name_ok limits m \<and> length data \<le> max_input_bytes limits \<and> reported init data out"
  by (rule zip_safe_member_facts [OF assms])

text \<open>C4: Colliding paths are all refused: when two different members have accepted paths that are
  equal up to ASCII case, neither of them is offered for materialization, so two materialized
  members never name the same file, even on a case-insensitive file system.\<close>

theorem zip_collisions_refused:
  assumes "length data \<le> u64_max" "inspect_zip_container init data src limits = Some out"
    and "i < length (i_members out)" "j < length (i_members out)" "i \<noteq> j"
    and "e_safe_to_materialize (i_members out ! i)" "registered (i_members out ! j)"
  shows "folded_path (i_members out ! i) \<noteq> folded_path (i_members out ! j)"
proof
  assume same: "folded_path (i_members out ! i) = folded_path (i_members out ! j)"
  have mem: "i_members out ! i \<in> set (i_members out)" using assms(3) by simp
  have ok: "inspected_ok data limits out"
    using safe_member_inspected(1) [OF assms(1,2) mem assms(6)] .
  then have safe: "materializable limits (i_members out ! i)"
    using mem assms(6) by (auto simp: inspected_ok_def member_verdict_ok_def)
  have "e_normalized (i_members out ! i) \<noteq> []"
  proof
    assume "e_normalized (i_members out ! i) = []"
    with same assms(7) show False by (simp add: folded_path_def registered_def lower_ascii_def)
  qed
  then have "registered (i_members out ! i)" using safe by (simp add: registered_def materializable_def)
  then have "flagged (i_members out ! i)"
    using ok assms(3,4,5,7) same by (auto simp: inspected_ok_def collisions_marked_def)
  with safe show False by (simp add: flagged_def materializable_def)
qed


subsection \<open>The end record\<close>

text \<open>An end-of-central-directory record at \<open>p\<close> whose comment reaches the end of the input.\<close>

definition eocd_at :: "bytes \<Rightarrow> nat \<Rightarrow> bool" where
  "eocd_at data p \<longleftrightarrow> zip_le32 data p = kEocdSig \<and> p + 22 + zip_le16 data (p + 20) = length data"

lemma eocd_scan_iff:
  "floor \<le> pos \<Longrightarrow> eocd_scan data floor pos = Some p \<longleftrightarrow>
    floor \<le> p \<and> p \<le> pos \<and> eocd_at data p \<and> (\<forall>q. p < q \<and> q \<le> pos \<longrightarrow> \<not> eocd_at data q)"
proof (induction data floor pos rule: eocd_scan.induct)
  case (1 data floor pos)
  show ?case
  proof (cases "eocd_at data pos")
    case True
    then have "eocd_scan data floor pos = Some pos"
      by (subst eocd_scan.simps) (simp add: eocd_at_def)
    moreover have "p < pos \<or> p = pos" if "p \<le> pos" using that by linarith
    ultimately show ?thesis using True "1.prems" by auto
  next
    case no: False
    then have rec: "eocd_scan data floor pos = (if pos \<le> floor then None else eocd_scan data floor (pos - 1))"
      by (subst eocd_scan.simps) (auto simp: eocd_at_def)
    show ?thesis
    proof (cases "pos \<le> floor")
      case True
      then have "\<not> (floor \<le> p \<and> p \<le> pos \<and> eocd_at data p)"
        using no by (metis le_antisym le_trans)
      then show ?thesis using rec True by auto
    next
      case False
      have "q \<le> pos - 1 \<or> q = pos" if "q \<le> pos" for q using that by linarith
      moreover have "\<not> (zip_le32 data pos = kEocdSig \<and> pos + 22 + zip_le16 data (pos + 20) = length data)"
        using no by (simp add: eocd_at_def)
      ultimately show ?thesis
        using "1.IH" False no rec by (auto; fastforce)
    qed
  qed
qed

lemma eocd_at_window:
  assumes "eocd_at data p"
  shows "22 \<le> length data" "p \<le> length data - 22"
    "(if 65557 < length data then length data - 65557 else 0) \<le> p"
  using assms zip_le16_less [of data "p + 20"] by (auto simp: eocd_at_def)

text \<open>C25: Recognition is exact: the bounded backward scan finds the last end-of-central-directory
  record whose comment length reaches the end of the input, and finds one whenever there is one;
  the window of the scan never hides a record.\<close>

theorem eocd_scan_exact:
  "strict_eocd_offset data = Some p \<longleftrightarrow> eocd_at data p \<and> {q. eocd_at data q \<and> p < q} = {}"
proof (cases "length data < 22")
  case True
  then show ?thesis using eocd_at_window(1) [of data p] by (auto simp: strict_eocd_offset_def)
next
  case False
  define fl where "fl = (if 65557 < length data then length data - 65557 else 0)"
  have "fl \<le> length data - 22" by (auto simp: fl_def intro: diff_le_mono2)
  from eocd_scan_iff [OF this, of data p]
  have "strict_eocd_offset data = Some p \<longleftrightarrow> fl \<le> p \<and> p \<le> length data - 22 \<and> eocd_at data p \<and>
      (\<forall>q. p < q \<and> q \<le> length data - 22 \<longrightarrow> \<not> eocd_at data q)"
    using False by (simp add: strict_eocd_offset_def fl_def)
  moreover have "fl \<le> q \<and> q \<le> length data - 22" if "eocd_at data q" for q
    using eocd_at_window [OF that] by (simp add: fl_def)
  ultimately show ?thesis by blast
qed

subsection \<open>A concrete archive\<close>

text \<open>Two stored members, \<open>a\<close> and \<open>b\<close>, of one byte each.\<close>

definition sample_local :: "byte \<Rightarrow> bytes" where
  "sample_local c = [0x50, 0x4b, 3, 4, 20, 0, 0, 0, 0, 0, 0, 0, 0, 0, 7, 0, 0, 0, 1, 0, 0, 0, 1, 0, 0, 0,
     1, 0, 0, 0, c, 0x58]"

definition sample_central :: "byte \<Rightarrow> byte \<Rightarrow> bytes" where
  "sample_central c off = [0x50, 0x4b, 1, 2, 20, 0, 20, 0, 0, 0, 0, 0, 0, 0, 0, 0, 7, 0, 0, 0, 1, 0, 0, 0,
     1, 0, 0, 0, 1, 0, 0, 0, 0, 0, 0, 0, 0, 0, 0, 0, 0, 0, off, 0, 0, 0, c]"

definition sample_zip :: bytes where
  "sample_zip = sample_local 0x61 @ sample_local 0x62 @ sample_central 0x61 0 @ sample_central 0x62 32 @
     [0x50, 0x4b, 5, 6, 0, 0, 0, 0, 2, 0, 2, 0, 94, 0, 0, 0, 64, 0, 0, 0, 0, 0]"

definition sample_stat :: "nat \<Rightarrow> string + mz_stat" where
  "sample_stat i = Inr \<lparr>m_central_dir_ofs = (if i = 0 then 0 else 47), m_local_header_ofs = (if i = 0 then 0 else 32),
     m_comp_size = 1, m_uncomp_size = 1, m_crc32 = 7, m_bit_flag = 0, m_method = 0, m_version_made_by = 20,
     m_external_attr = 0, m_is_encrypted = False, m_is_supported = True, m_is_directory = False\<rparr>"

definition sample_reader :: mz_reader where
  "sample_reader = \<lparr>mz_num_files = 2, mz_central_directory_file_ofs = 64, mz_is_zip64 = False,
     mz_file_stat = sample_stat, mz_validate_headers = (\<lambda>i. None)\<rparr>"

definition sample_init :: mz_init where
  "sample_init data = Inr sample_reader"

lemma sample_zip_length: "length sample_zip = 180"
  by (simp add: sample_zip_def sample_local_def sample_central_def)

lemmas sample_reads = zip_le16_read [OF sample_zip_length] zip_le32_read [OF sample_zip_length]
  span_in_bounds_def sample_zip_length wrap64_def add_u64_def u64_max_def Let_def
lemmas sample_defs = sample_zip_def sample_local_def sample_central_def subspan_def byte_char_def
  nth_append char_of_def bit_0 kCentralHeaderSig_def kLocalHeaderSig_def kEocdSig_def

lemma sample_names:
  "central_name sample_zip 0 64 = pass ''a''" "central_name sample_zip 1 111 = pass ''b''"
  by (simp add: central_name_def sample_reads; simp add: sample_defs)+

lemma sample_payloads:
  "local_payload sample_zip 0 0 ''a'' = pass 31" "local_payload sample_zip 1 32 ''b'' = pass 63"
  by (simp add: local_payload_def sample_reads; simp add: sample_defs)+

lemma sample_consistent:
  "member_consistent sample_zip i (projr (sample_stat 0)) 0 31 = None"
  "member_consistent sample_zip i (projr (sample_stat 1)) 32 63 = None"
  by (simp add: member_consistent_def sample_stat_def sample_reads; simp add: sample_defs)+

lemma sample_eocd: "strict_eocd_offset sample_zip = Some 158"
  unfolding strict_eocd_offset_def sample_zip_length
  by (subst eocd_scan.simps) (simp add: sample_reads; simp add: sample_defs)

text \<open>The two member records; the argument says whether it is the second.\<close>

definition sample_member :: "bool \<Rightarrow> member" where
  "sample_member snd_one = build_member default_limits (if snd_one then 1 else 0)
     (projr (sample_stat (if snd_one then 1 else 0))) (if snd_one then ''b'' else ''a'')
     (if snd_one then 111 else 64) (if snd_one then 32 else 0) (if snd_one then 63 else 31) (sha256_spec [0x58])"

lemma sample_read:
  "read_member sample_zip sample_reader default_limits 0 64 0 = pass (sample_member False)"
  "read_member sample_zip sample_reader default_limits 0 64 (Suc 0) = pass (sample_member True)"
  using sample_names sample_payloads sample_consistent
  by (simp_all add: read_member_def sample_reader_def sample_stat_def sample_member_def sample_reads sha256.one_shot_ref)
    (simp_all add: sample_defs)

lemma sample_name_policy:
  "safe_relative_name ''a'' False 4096 = (True, ''a'', True)"
  "safe_relative_name ''b'' False 4096 = (True, ''b'', True)"
  by code_simp+

lemma sample_member_fields:
  "e_safe_path (sample_member k)" "e_normalized (sample_member k) = (if k then ''b'' else ''a'')"
  "\<not> e_directory (sample_member k)" "\<not> e_encrypted (sample_member k)"
  "e_compressed_size (sample_member k) = 1" "e_uncompressed_size (sample_member k) = 1"
  by (cases k; simp add: sample_member_def build_member_def sample_stat_def default_limits_def
      sample_name_policy kZipFlagEncrypted_def kZipFlagStrongEncryption_def)+

lemma sample_member_safe: "materializable default_limits (sample_member k)"
  by (cases k; simp add: materializable_def sample_member_def build_member_def sample_stat_def
      default_limits_def sample_name_policy ratio_exceeded_def unix_creator_def)

lemma sample_folded: "lower_ascii ''a'' = ''a''" "lower_ascii ''b'' = ''b''"
  by (simp_all add: lower_ascii_def to_lower_def)

lemma sample_loop:
  assumes "i_archive_base_offset out = 0" "i_central_directory_offset out = 64" "i_members out = []"
    "i_total_compressed_bytes out = 0" "i_total_declared_uncompressed_bytes out = 0"
  shows "\<exists>sn out'. inspect_members sample_zip sample_reader default_limits [0, Suc 0]
      \<lparr>exact_seen = Map.empty, case_seen = Map.empty\<rparr> out = pass (sn, out') \<and>
    i_members out' = [sample_member False, sample_member True] \<and> loop_frame out' = loop_frame out"
  using assms
  by (simp add: loop_frame_def sample_read register_path_def note_exact_def note_case_def sample_member_fields sample_folded
      append_member_def count_member_def Let_def u64_max_def wrap64_def)

lemma sample_inspected:
  "\<exists>out. inspect_zip_container sample_init sample_zip src default_limits = Some out \<and>
    i_members out = [finalize_member_state default_limits (sample_member False),
                     finalize_member_state default_limits (sample_member True)] \<and>
    i_structurally_valid out \<and> i_recognized out \<and> i_kind out = ''zip'' \<and> i_limits out = default_limits \<and>
    i_parent_sha256 out = sha256_spec sample_zip \<and> i_archive_base_offset out = 0"
proof -
  have open_eq: "open_archive sample_init sample_zip 158 out = pass (sample_reader, out)" for out
    by (simp add: open_archive_def sample_init_def)
  have two: "[0..<unat (mz_num_files sample_reader)] = [0, Suc 0]"
    by (simp add: sample_reader_def upt_rec)
  define out1 where "out1 = layer_evidence 0 ''EOCD with self-consistent comment length reaches EOF''
      (layer_set 0 LayerCandidate (empty_ingress\<lparr>i_source_identity := src, i_parent_size := length sample_zip,
         i_limits := default_limits, i_layers := initial_layers default_limits (length sample_zip),
         i_recognized := True, i_kind := ''zip''\<rparr>))"
  define out2 where "out2 = begin_inventory sample_reader (out1\<lparr>i_parent_sha256 := sha256_spec sample_zip\<rparr>)"
  have fields: "i_archive_base_offset out2 = 0" "i_central_directory_offset out2 = 64" "i_members out2 = []"
    "i_total_compressed_bytes out2 = 0" "i_total_declared_uncompressed_bytes out2 = 0"
    "i_member_count out2 = unat (mz_num_files sample_reader)"
    by (simp_all add: out2_def out1_def begin_inventory_def empty_ingress_def sample_reader_def wrap64_def)
  obtain sn out' where loop: "inspect_members sample_zip sample_reader default_limits [0, Suc 0]
      \<lparr>exact_seen = Map.empty, case_seen = Map.empty\<rparr> out2 = pass (sn, out')"
    and members: "i_members out' = [sample_member False, sample_member True]"
    and frame: "loop_frame out' = loop_frame out2"
    using sample_loop [OF fields(1-5)] by blast
  have kept: "i_recognized out2" "i_kind out2 = ''zip''" "i_limits out2 = default_limits"
    "i_parent_sha256 out2 = sha256_spec sample_zip"
    by (simp_all add: out2_def out1_def begin_inventory_def empty_ingress_def)
  have max: "max_members default_limits = 4096" "max_input_bytes default_limits = 536870912"
    by (simp_all add: default_limits_def)
  have files: "unat (mz_num_files sample_reader) = 2" by (simp add: sample_reader_def)
  have body: "inspect_body sample_init sample_zip default_limits 158 out1 = pass (conclude default_limits out')"
    by (simp add: inspect_body_def sha256.one_shot_ref open_eq Let_def out2_def [symmetric] fields
        loop [folded two, unfolded files] files max)
  have "inspect_zip_container sample_init sample_zip src default_limits = Some (conclude default_limits out')"
    unfolding inspect_zip_container_def sample_eocd
    using body by (simp add: out1_def Let_def sample_zip_length max pass_def)
  then show ?thesis using kept fields(1)
    by (simp add: conclude_sel conclude_frame members loop_frame_sel(5-) [OF frame])
qed

lemma sample_member_listed:
  "\<exists>out. inspect_zip_container sample_init sample_zip src default_limits = Some out \<and>
    length (i_members out) = 2 \<and> (\<forall>k < 2. e_safe_to_materialize (i_members out ! k) \<and>
      registered (i_members out ! k)) \<and> i_structurally_valid out"
proof -
  have reg: "registered (sample_member k)" for k by (simp add: registered_def sample_member_fields)
  have two: "k = 0 \<or> k = Suc 0" if "k < 2" for k :: nat using that by linarith
  show ?thesis
    using sample_inspected [of src] two
    by (auto simp: finalize_verdict sample_member_safe finalize_member_sel reg dest!: two)
qed

lemma sample_zip_small: "length sample_zip \<le> u64_max"
  by (simp add: sample_zip_length u64_max_def)

theorem zip_inspection_total_witness:
  "\<exists>out. inspect_zip_container sample_init sample_zip ''in'' default_limits = Some out \<and>
    (not_a_zip out \<or> failed_closed out \<or> inspected_ok sample_zip default_limits out) \<and>
    (not_a_zip out \<longleftrightarrow> \<not> has_strict_zip_eocd sample_zip)"
  by (rule zip_inspection_total [OF sample_zip_small])

theorem zip_safe_member_sound_witness:
  "\<exists>out m. inspect_zip_container sample_init sample_zip ''in'' default_limits = Some out \<and>
    m \<in> set (i_members out) \<and> materializable default_limits m \<and>
    member_bytes_ok sample_zip (i_central_directory_offset out) m \<and> reported sample_init sample_zip out"
proof -
  obtain out where out: "inspect_zip_container sample_init sample_zip ''in'' default_limits = Some out"
    "length (i_members out) = 2" "e_safe_to_materialize (i_members out ! 0)"
    using sample_member_listed [of "''in''"] by auto
  have "i_members out ! 0 \<in> set (i_members out)" using out(2) by simp
  with zip_safe_member_sound [OF sample_zip_small out(1) this out(3)] out(1) show ?thesis by blast
qed

theorem zip_collisions_refused_witness:
  "\<exists>out. inspect_zip_container sample_init sample_zip ''in'' default_limits = Some out \<and>
    folded_path (i_members out ! 0) \<noteq> folded_path (i_members out ! 1)"
proof -
  obtain out where out: "inspect_zip_container sample_init sample_zip ''in'' default_limits = Some out"
    "length (i_members out) = 2" "e_safe_to_materialize (i_members out ! 0)" "registered (i_members out ! 1)"
    using sample_member_listed [of "''in''"] by auto
  have "folded_path (i_members out ! 0) \<noteq> folded_path (i_members out ! 1)"
    by (rule zip_collisions_refused [OF sample_zip_small out(1) _ _ _ out(3,4)]) (simp_all add: out(2))
  with out(1) show ?thesis by blast
qed


end
