(* ===== verification/FileSystem.thy ===== *)
theory FileSystem
  imports StdPath
begin

section \<open>A file system with symbolic links\<close>

text \<open>
  What the sources use of \<^verbatim>\<open>std::filesystem\<close> and \<^verbatim>\<open>std::ofstream\<close>. A state maps
  physical locations (lists of names from the root of the file system) to nodes. A path given to
  the operating system is a list of names that is walked from the root: a symbolic link met on the
  way is followed (at most \<open>link_limit\<close> times, as POSIX does), so a path may name a
  location far from its spelling. \<open>os_env\<close> says which calls fail, and what part of the written bytes
  reaches the file when the stream is closed.
\<close>

datatype node = Dir | File bytes | Link "string list" | Other

type_synonym names = "string list"
type_synonym fs = "names \<rightharpoonup> node"

definition link_limit :: nat where
  "link_limit = 40"

text \<open>Following a directory path; the fuel counts links.\<close>

function walk :: "fs \<Rightarrow> nat \<Rightarrow> names \<Rightarrow> names \<Rightarrow> names option" where
  "walk fs n d [] = Some d"
| "walk fs n d (c # cs) =
     (case fs (d @ [c]) of
        Some Dir \<Rightarrow> walk fs n (d @ [c]) cs
      | Some (Link target) \<Rightarrow> (if n = 0 then None else walk fs (n - 1) [] (target @ cs))
      | _ \<Rightarrow> None)"
  by pat_completeness auto
termination
  by (relation "inv_image (less_than <*lex*> less_than) (\<lambda>(fs, n, d, cs). (n, length cs))") auto

text \<open>The location a path names: its parent is followed, its last name is not.\<close>

definition locate :: "fs \<Rightarrow> names \<Rightarrow> names option" where
  "locate fs p = (if p = [] then Some [] else
     map_option (\<lambda>d. d @ [last p]) (walk fs link_limit [] (butlast p)))"

record os_env =
  os_status_fault :: "names \<Rightarrow> string option"
  os_mkdir_fault :: "names \<Rightarrow> string option"
  os_open_fault :: bool
  os_write_fault :: "nat \<Rightarrow> bool"
  os_kept :: "bytes \<Rightarrow> bytes"
  os_remove_fault :: "string option"
  os_rename_fault :: "string option"

text \<open>\<open>symlink_status\<close>: an error, no such file, or the node itself.\<close>

datatype status = StatusError string | NotFound | Found node

definition symlink_status :: "os_env \<Rightarrow> fs \<Rightarrow> names \<Rightarrow> status" where
  "symlink_status os fs p =
     (case os_status_fault os p of
        Some e \<Rightarrow> StatusError e
      | None \<Rightarrow> (case Option.bind (locate fs p) fs of None \<Rightarrow> NotFound | Some nd \<Rightarrow> Found nd))"

text \<open>\<open>create_directory\<close> of something that is not there, and \<open>create_directories\<close>.\<close>

definition make_dir :: "os_env \<Rightarrow> fs \<Rightarrow> names \<Rightarrow> string + fs" where
  "make_dir os fs p =
     (case os_mkdir_fault os p of
        Some e \<Rightarrow> Inl e
      | None \<Rightarrow>
          (case locate fs p of
             None \<Rightarrow> Inl ''No such file or directory''
           | Some loc \<Rightarrow> (case fs loc of None \<Rightarrow> Inr (fs(loc \<mapsto> Dir)) | Some _ \<Rightarrow> Inl ''File exists'')))"

fun make_dirs :: "os_env \<Rightarrow> fs \<Rightarrow> names \<Rightarrow> names \<Rightarrow> string + fs" where
  "make_dirs os fs done [] = Inr fs"
| "make_dirs os fs done (c # cs) =
     (if walk fs link_limit [] (done @ [c]) \<noteq> None then make_dirs os fs (done @ [c]) cs
      else case make_dir os fs (done @ [c]) of
        Inl e \<Rightarrow> Inl e
      | Inr fs' \<Rightarrow> make_dirs os fs' (done @ [c]) cs)"

text \<open>
  Opening a file for writing creates it, or truncates the file that is there, a link in last
  position included; \<open>rename\<close> replaces a file at the destination.
\<close>

definition open_trunc :: "os_env \<Rightarrow> fs \<Rightarrow> names \<Rightarrow> (names \<times> fs) option" where
  "open_trunc os fs p =
     (if os_open_fault os then None
      else case locate fs p of
        None \<Rightarrow> None
      | Some loc \<Rightarrow>
          (case fs loc of
             None \<Rightarrow> Some (loc, fs(loc \<mapsto> File []))
           | Some (File _) \<Rightarrow> Some (loc, fs(loc \<mapsto> File []))
           | Some (Link target) \<Rightarrow>
               (case fs target of
                  None \<Rightarrow> Some (target, fs(target \<mapsto> File []))
                | Some (File _) \<Rightarrow> Some (target, fs(target \<mapsto> File []))
                | _ \<Rightarrow> None)
           | _ \<Rightarrow> None))"

definition remove_file :: "os_env \<Rightarrow> fs \<Rightarrow> names \<Rightarrow> fs" where
  "remove_file os fs p =
     (if os_remove_fault os \<noteq> None then fs
      else case locate fs p of None \<Rightarrow> fs | Some loc \<Rightarrow> fs(loc := None))"

text \<open>The message of the \<^verbatim>\<open>std::error_code\<close> that \<open>remove\<close> leaves behind.\<close>

definition remove_message :: "os_env \<Rightarrow> string" where
  "remove_message os = (case os_remove_fault os of None \<Rightarrow> ''Success'' | Some e \<Rightarrow> e)"

definition rename_file :: "os_env \<Rightarrow> fs \<Rightarrow> names \<Rightarrow> names \<Rightarrow> string + fs" where
  "rename_file os fs p q =
     (case os_rename_fault os of
        Some e \<Rightarrow> Inl e
      | None \<Rightarrow>
          (case (locate fs p, locate fs q) of
             (Some lp, Some lq) \<Rightarrow>
               (case fs lp of
                  Some (File b) \<Rightarrow>
                    (case fs lq of Some Dir \<Rightarrow> Inl ''Is a directory'' | _ \<Rightarrow> Inr ((fs(lp := None))(lq \<mapsto> File b)))
                | _ \<Rightarrow> Inl ''No such file or directory'')
           | _ \<Rightarrow> Inl ''No such file or directory''))"

subsection \<open>Walking survives additions\<close>

text \<open>\<open>fs'\<close> has everything \<open>fs\<close> has.\<close>

lemma map_leD: "fs \<subseteq>\<^sub>m fs' \<Longrightarrow> fs l = Some x \<Longrightarrow> fs' l = Some x"
  by (metis domI map_le_def)

lemma map_le_add: "fs l = None \<Longrightarrow> fs \<subseteq>\<^sub>m (fs :: fs)(l \<mapsto> x)"
  by (auto simp: map_le_def)

lemma walk_mono: "walk fs n d cs = Some r \<Longrightarrow> fs \<subseteq>\<^sub>m fs' \<Longrightarrow> walk fs' n d cs = Some r"
  by (induction fs n d cs rule: walk.induct)
    (auto dest: map_leD split: option.splits node.splits if_splits)

lemma walk_append:
  "walk fs n d xs = Some r \<Longrightarrow> \<exists>m \<le> n. walk fs n d (xs @ ys) = walk fs m r ys"
proof (induction fs n d xs rule: walk.induct)
  case (2 fs n d c cs)
  show ?case
  proof (cases "fs (d @ [c])")
    case None
    with "2.prems" show ?thesis by simp
  next
    case (Some nd)
    show ?thesis
    proof (cases nd)
      case Dir
      then show ?thesis using 2 Some by simp
    next
      case (Link t)
      then have "0 < n" using "2.prems" Some by (simp split: if_splits)
      then obtain m where "m \<le> n - 1" "walk fs (n - 1) [] (t @ cs @ ys) = walk fs m r ys"
        using 2(2) [OF Some Link] "2.prems" Some Link by auto
      then show ?thesis using Some Link \<open>0 < n\<close> by (intro exI [of _ m]) simp
    qed (use "2.prems" Some in simp_all)
  qed
qed auto

lemma walk_dirs:
  "(\<And>k. 0 < k \<Longrightarrow> k \<le> length cs \<Longrightarrow> fs (d @ take k cs) = Some Dir) \<Longrightarrow> walk fs n d cs = Some (d @ cs)"
proof (induction cs arbitrary: d)
  case (Cons c cs)
  have "fs (d @ [c]) = Some Dir" using Cons.prems [of 1] by simp
  moreover have "walk fs n (d @ [c]) cs = Some ((d @ [c]) @ cs)"
  proof (rule Cons.IH)
    fix k assume "0 < k" "k \<le> length cs"
    then show "fs ((d @ [c]) @ take k cs) = Some Dir" using Cons.prems [of "Suc k"] by simp
  qed
  ultimately show ?case by simp
qed simp

lemma walk_below:
  assumes "walk fs n [] p = Some d" "\<And>k. 0 < k \<Longrightarrow> k \<le> length cs \<Longrightarrow> fs (d @ take k cs) = Some Dir"
  shows "walk fs n [] (p @ cs) = Some (d @ cs)"
  using walk_append [OF assms(1), of cs] walk_dirs [of cs fs d, OF assms(2)] by metis

lemma locate_snoc: "walk fs link_limit [] p = Some d \<Longrightarrow> locate fs (p @ [c]) = Some (d @ [c])"
  by (simp add: locate_def)

lemma locate_mono: "locate fs p = Some l \<Longrightarrow> fs \<subseteq>\<^sub>m fs' \<Longrightarrow> locate fs' p = Some l"
  by (cases "p = []") (auto simp: locate_def dest: walk_mono)

lemma make_dir_adds:
  assumes "make_dir os fs p = Inr fs'"
  obtains loc where "locate fs p = Some loc" "fs loc = None" "fs' = fs(loc \<mapsto> Dir)"
  using assms by (auto simp: make_dir_def split: option.splits)

lemma make_dirs_adds:
  "make_dirs os fs done cs = Inr fs' \<Longrightarrow> fs \<subseteq>\<^sub>m fs' \<and> (\<forall>l. fs l = None \<longrightarrow> fs' l \<in> {None, Some Dir})"
proof (induction os fs "done" cs rule: make_dirs.induct)
  case (2 os fs "done" c cs)
  show ?case
  proof (cases "walk fs link_limit [] (done @ [c]) \<noteq> None")
    case True
    then show ?thesis using "2.IH"(1) "2.prems" by auto
  next
    case False
    then obtain fs1 where mk: "make_dir os fs (done @ [c]) = Inr fs1" and rest: "make_dirs os fs1 (done @ [c]) cs = Inr fs'"
      using "2.prems" by (auto split: sum.splits)
    from make_dir_adds [OF mk] obtain loc where "fs loc = None" "fs1 = fs(loc \<mapsto> Dir)" by metis
    moreover have "fs1 \<subseteq>\<^sub>m fs' \<and> (\<forall>l. fs1 l = None \<longrightarrow> fs' l \<in> {None, Some Dir})"
      using "2.IH"(2) [OF _ mk rest] False by blast
    ultimately show ?thesis by (auto simp: map_le_def dom_def split: if_splits)
  qed
qed simp

lemma make_dirs_walks:
  "make_dirs os fs done cs = Inr fs' \<Longrightarrow> walk fs link_limit [] done \<noteq> None \<Longrightarrow>
    walk fs' link_limit [] (done @ cs) \<noteq> None"
proof (induction os fs "done" cs rule: make_dirs.induct)
  case (2 os fs "done" c cs)
  show ?case
  proof (cases "walk fs link_limit [] (done @ [c]) \<noteq> None")
    case True
    then show ?thesis using "2.IH"(1) "2.prems" by simp
  next
    case False
    then obtain fs1 where mk: "make_dir os fs (done @ [c]) = Inr fs1" and rest: "make_dirs os fs1 (done @ [c]) cs = Inr fs'"
      using "2.prems" by (auto split: sum.splits)
    obtain d where d: "walk fs link_limit [] done = Some d" using "2.prems" by auto
    from make_dir_adds [OF mk] have fs1: "fs1 = fs(d @ [c] \<mapsto> Dir)" "fs (d @ [c]) = None"
      by (auto simp: locate_snoc [OF d])
    have "walk fs1 link_limit [] done = Some d"
      using walk_mono [OF d map_le_add [of fs "d @ [c]" Dir]] fs1 by simp
    then have "walk fs1 link_limit [] (done @ [c]) = Some (d @ [c])"
      by (rule walk_below) (simp add: fs1(1) take_Suc)
    then have "walk fs1 link_limit [] (done @ [c]) \<noteq> None" by simp
    then show ?thesis using "2.IH"(2) [OF _ mk rest] False by simp
  qed
qed simp

end
