(* ===== verification/ZipMaterialize.thy ===== *)
theory ZipMaterialize
  imports ZipSafety FileSystem
begin

section \<open>Materializing one ZIP member\<close>

text \<open>
  Models \<open>ensure_safe_output_parents\<close> and \<open>materialize_zip_member\<close> of
  \<^verbatim>\<open>src/extract/container_ingress.cpp\<close> over the file system of \<open>FileSystem\<close>. The streaming
  decompressor (miniz) is a parameter: opening the archive, an iterator, a read that returns the
  bytes it produced, and the final CRC verdict. The state is the file system, passed along. A success
  is related to the answers of the decompressor (\<open>decompressed\<close>), and both properties to the status
  calls on which the overwrite protection rests (\<open>target_status_read\<close>).
\<close>

subsection \<open>Data\<close>

datatype mat_state =
    MatRefused | MatMember member_state | MatBudgetRefused | IdentityMismatch | OutputPathRefused
  | DecompressionFailed | DecompressionOrCrcFailed | MaterializedVerified

datatype mat_reason =
    NotConfirmedZip | IndexOutside | MemberRefused "member_reason option" | DepthExhausted
  | BudgetTooSmall | InputChanged
  | RootUninspectable string | RootNotDirectory | RootUncreatable string
  | InvalidComponent | ComponentUninspectable string | ComponentNotDirectory | ComponentUncreatable string
  | DestinationExists | TemporaryExists | BaseOutside | ReopenFailed string | CannotCreateTemporary
  | CannotStart string | StreamMismatch | CannotFinalize string

primrec mat_reason_text :: "mat_reason \<Rightarrow> string" where
  "mat_reason_text NotConfirmedZip = ''container was not structurally confirmed as ZIP''"
| "mat_reason_text IndexOutside = ''member index is outside the inspected inventory''"
| "mat_reason_text (MemberRefused r) = (case r of None \<Rightarrow> [] | Some x \<Rightarrow> member_reason_text x)"
| "mat_reason_text DepthExhausted = ''recursive depth budget exhausted before child materialization''"
| "mat_reason_text BudgetTooSmall = ''remaining materialized-byte budget cannot admit this child''"
| "mat_reason_text InputChanged = ''input bytes changed since ZIP inspection''"
| "mat_reason_text (RootUninspectable e) = ''cannot inspect output root: '' @ e"
| "mat_reason_text RootNotDirectory = ''output root exists but is not a real directory''"
| "mat_reason_text (RootUncreatable e) = ''cannot create output root: '' @ e"
| "mat_reason_text InvalidComponent = ''validated path produced an invalid filesystem component''"
| "mat_reason_text (ComponentUninspectable e) = ''cannot inspect output path component: '' @ e"
| "mat_reason_text ComponentNotDirectory = ''output path component is a symlink or non-directory''"
| "mat_reason_text (ComponentUncreatable e) = ''cannot create output path component: '' @ e"
| "mat_reason_text DestinationExists = ''destination already exists; overwrite is forbidden''"
| "mat_reason_text TemporaryExists = ''temporary destination already exists''"
| "mat_reason_text BaseOutside = ''stored ZIP archive base is outside current parent bytes''"
| "mat_reason_text (ReopenFailed e) = ''cannot reopen verified ZIP at stored archive base: '' @ e"
| "mat_reason_text CannotCreateTemporary = ''cannot create temporary output file''"
| "mat_reason_text (CannotStart e) = ''cannot start ZIP member decompression: '' @ e"
| "mat_reason_text StreamMismatch = ''streamed output did not match declared size and ZIP CRC''"
| "mat_reason_text (CannotFinalize e) = ''cannot atomically finalize output file: '' @ e"

record mat_result =
  r_state :: mat_state
  r_failure :: "mat_reason option"
  r_output_path :: names
  r_parent_sha256 :: string
  r_member_name :: string
  r_compressed_sha256 :: string
  r_uncompressed_sha256 :: string
  r_coordinate :: string
  r_member_index :: nat
  r_compressed_size :: nat
  r_uncompressed_size :: nat
  r_bytes_written :: nat
  r_data_offset :: nat
  r_success :: bool

definition empty_mat_result :: mat_result where
  "empty_mat_result =
     \<lparr>r_state = MatRefused, r_failure = None, r_output_path = [], r_parent_sha256 = [],
      r_member_name = [], r_compressed_sha256 = [], r_uncompressed_sha256 = [], r_coordinate = [],
      r_member_index = 0, r_compressed_size = 0, r_uncompressed_size = 0, r_bytes_written = 0,
      r_data_offset = 0, r_success = False\<rparr>"

text \<open>The decompressor: open, start an iterator, read at most so many bytes, release with the CRC verdict.\<close>

record 'it mz_extractor =
  mz_open :: "bytes \<Rightarrow> string option"
  mz_iter_new :: "bytes \<Rightarrow> nat \<Rightarrow> string + 'it"
  mz_iter_read :: "'it \<Rightarrow> nat \<Rightarrow> bytes \<times> 'it"
  mz_iter_free :: "'it \<Rightarrow> bool"

subsection \<open>Output directories\<close>

definition path_parts :: "path \<Rightarrow> names" where
  "path_parts p = (if is_absolute p then [''/''] else []) @ filter (\<lambda>c. c \<noteq> []) (split_on slash p)"

text \<open>\<open>operator/=\<close> with one component: an absolute component replaces the path.\<close>

definition append_part :: "names \<Rightarrow> string \<Rightarrow> names" where
  "append_part cur part = (if part = ''/'' then [] else cur @ [part])"

fun ensure_components :: "os_env \<Rightarrow> fs \<Rightarrow> names \<Rightarrow> names \<Rightarrow> fs \<times> mat_reason option" where
  "ensure_components os fs cur [] = (fs, None)"
| "ensure_components os fs cur (part # rest) =
     (if part = [] \<or> part = ''.'' \<or> part = ''..'' then (fs, Some InvalidComponent)
      else
        let cur' = append_part cur part in
        case symlink_status os fs cur' of
          StatusError e \<Rightarrow> (fs, Some (ComponentUninspectable e))
        | Found nd \<Rightarrow>
            if nd \<noteq> Dir then (fs, Some ComponentNotDirectory) else ensure_components os fs cur' rest
        | NotFound \<Rightarrow>
            (case make_dir os fs cur' of
               Inl e \<Rightarrow> (fs, Some (ComponentUncreatable e))
             | Inr fs' \<Rightarrow> ensure_components os fs' cur' rest))"

definition ensure_safe_output_parents ::
  "os_env \<Rightarrow> fs \<Rightarrow> names \<Rightarrow> path \<Rightarrow> fs \<times> mat_reason option" where
  "ensure_safe_output_parents os fs root relative =
     (case symlink_status os fs root of
        StatusError e \<Rightarrow> (fs, Some (RootUninspectable e))
      | Found nd \<Rightarrow>
          if nd \<noteq> Dir then (fs, Some RootNotDirectory)
          else ensure_components os fs root (path_parts (parent_path relative))
      | NotFound \<Rightarrow>
          (case make_dirs os fs [] root of
             Inl e \<Rightarrow> (fs, Some (RootUncreatable e))
           | Inr fs' \<Rightarrow> ensure_components os fs' root (path_parts (parent_path relative))))"

subsection \<open>Streaming\<close>

definition kIoChunk :: nat where
  "kIoChunk = 1048576"

text \<open>
  The copy loop: bytes written so far, the iterator, and whether the stream is still good when the
  loop ends.
\<close>

function stream_loop ::
  "os_env \<Rightarrow> 'it mz_extractor \<Rightarrow> nat \<Rightarrow> nat \<Rightarrow> bytes \<Rightarrow> 'it \<Rightarrow> bytes \<times> 'it \<times> bool" where
  "stream_loop os mz declared budget written it =
     (if declared \<le> length written then (written, it, True)
      else
        let want = min kIoChunk (declared - length written); (got, it') = mz_iter_read mz it want in
        if got = [] \<or> want < length got \<or>
           wrap64 (budget + 18446744073709551616 - length got) < length written
        then (written, it', False)
        else if os_write_fault os (length written) then (written, it', False)
        else stream_loop os mz declared budget (written @ got) it')"
  by pat_completeness auto
termination
  by (relation "measure (\<lambda>(os, mz, declared, budget, written, it). declared - length written)")
    (auto intro: diff_less_mono2)

declare stream_loop.simps [simp del]

text \<open>\<open>sha256_file\<close>: the file is hashed in blocks of 64 KiB.\<close>

function file_chunks :: "nat \<Rightarrow> bytes \<Rightarrow> bytes list" where
  "file_chunks k b = (if k = 0 \<or> b = [] then [] else take k b # file_chunks k (drop k b))"
  by pat_completeness auto
termination
  by (relation "measure (\<lambda>(k, b). length b)") auto

declare file_chunks.simps [simp del]

definition sha256_file :: "fs \<Rightarrow> names \<Rightarrow> string option" where
  "sha256_file fs p =
     (case Option.bind (locate fs p) fs of
        Some (File b) \<Rightarrow> sha256_parts (file_chunks 65536 b)
      | _ \<Rightarrow> Some [])"

definition part_suffix :: "nat \<Rightarrow> string" where
  "part_suffix member_index = ''.auto-refirst-part-'' @ to_dec member_index"

lemma part_suffix_not_Nil [simp]: "part_suffix k \<noteq> []" "[] \<noteq> part_suffix k"
  by (simp_all add: part_suffix_def)

definition part_name :: "nat \<Rightarrow> names \<Rightarrow> names" where
  "part_name member_index dest =
     butlast dest @ [last dest @ part_suffix member_index]"

subsection \<open>The routine\<close>

text \<open>
  A step of the routine returns the file system with its answer; \<open>refuse\<close> is an early return.
\<close>

definition refuse ::
  "fs \<Rightarrow> mat_state \<Rightarrow> mat_reason \<Rightarrow> mat_result \<Rightarrow> fs \<times> mat_result" where
  "refuse fs st reason out = (fs, out\<lparr>r_state := st, r_failure := Some reason\<rparr>)"

text \<open>
  Decompressing into the temporary file and renaming it; lines 582 to 629. When the rename fails,
  the code removes the temporary file with the same error code object before it reads the message,
  so the reported message is that of the removal.
\<close>

definition finish_output ::
  "os_env \<Rightarrow> fs \<Rightarrow> names \<Rightarrow> names \<Rightarrow> nat \<Rightarrow> mat_result \<Rightarrow> (fs \<times> mat_result) option" where
  "finish_output os fs part dest written out =
     (case rename_file os fs part dest of
        Inl e \<Rightarrow> Some (refuse (remove_file os fs part) OutputPathRefused (CannotFinalize (remove_message os)) out)
      | Inr fs' \<Rightarrow>
          map_option (\<lambda>sha. (fs', out\<lparr>r_output_path := dest, r_bytes_written := written,
              r_uncompressed_sha256 := sha, r_state := MaterializedVerified, r_success := True\<rparr>))
            (sha256_file fs' dest))"

definition write_output ::
  "os_env \<Rightarrow> 'it mz_extractor \<Rightarrow> fs \<Rightarrow> bytes \<Rightarrow> nat \<Rightarrow> nat \<Rightarrow> nat \<Rightarrow> names \<Rightarrow> names \<Rightarrow> mat_result \<Rightarrow>
   (fs \<times> mat_result) option" where
  "write_output os mz fs archive member_index declared budget part dest out =
     (case open_trunc os fs part of
        None \<Rightarrow> Some (refuse fs OutputPathRefused CannotCreateTemporary out)
      | Some (loc, fs1) \<Rightarrow>
          (case mz_iter_new mz archive member_index of
             Inl e \<Rightarrow> Some (refuse (remove_file os fs1 part) DecompressionFailed (CannotStart e) out)
           | Inr it \<Rightarrow>
               let (content, it1, ok) = stream_loop os mz declared budget [] it;
                   (extra, it2) = (if ok then mz_iter_read mz it1 1 else ([], it1));
                   stream_ok = (ok \<and> extra = []);
                   crc_ok = mz_iter_free mz it2;
                   fs2 = fs1(loc \<mapsto> File (os_kept os content))
               in if \<not> stream_ok \<or> \<not> crc_ok \<or> length content \<noteq> declared
                  then Some (refuse (remove_file os fs2 part) DecompressionOrCrcFailed StreamMismatch out)
                  else finish_output os fs2 part dest (length content) out))"

definition produce_member ::
  "os_env \<Rightarrow> 'it mz_extractor \<Rightarrow> fs \<Rightarrow> bytes \<Rightarrow> ingress_info \<Rightarrow> nat \<Rightarrow> nat \<Rightarrow> names \<Rightarrow> nat \<Rightarrow> mat_result \<Rightarrow>
   (fs \<times> mat_result) option" where
  "produce_member os mz fs data info member_index declared dest budget out =
     (case symlink_status os fs dest of
        Found _ \<Rightarrow> Some (refuse fs OutputPathRefused DestinationExists out)
      | _ \<Rightarrow>
          let part = part_name member_index dest in
          (case symlink_status os fs part of
             Found _ \<Rightarrow> Some (refuse fs OutputPathRefused TemporaryExists out)
           | _ \<Rightarrow>
               if length data < i_archive_base_offset info
               then Some (refuse fs IdentityMismatch BaseOutside out)
               else
                 let archive = drop (i_archive_base_offset info) data in
                 case mz_open mz archive of
                   Some e \<Rightarrow> Some (refuse fs DecompressionFailed (ReopenFailed e) out)
                 | None \<Rightarrow> write_output os mz fs archive member_index declared budget part dest out))"

text \<open>The checks before anything is written; \<open>None\<close> as in the rest of the development.\<close>

definition materialize_zip_member ::
  "os_env \<Rightarrow> 'it mz_extractor \<Rightarrow> fs \<Rightarrow> bytes \<Rightarrow> ingress_info \<Rightarrow> nat \<Rightarrow> names \<Rightarrow> nat \<Rightarrow> nat \<Rightarrow>
   (fs \<times> mat_result) option" where
  "materialize_zip_member os mz fs data info member_index root current_depth remaining =
     (let out0 = empty_mat_result\<lparr>r_member_index := member_index, r_parent_sha256 := i_parent_sha256 info\<rparr> in
      if \<not> i_recognized info \<or> \<not> i_structurally_valid info \<or> i_kind info \<noteq> ''zip''
      then Some (refuse fs MatRefused NotConfirmedZip out0)
      else if length (i_members info) \<le> member_index \<or> e_index (i_members info ! member_index) \<noteq> member_index
      then Some (refuse fs MatRefused IndexOutside out0)
      else
        let e = i_members info ! member_index;
            out = out0\<lparr>r_member_name := e_name e, r_compressed_sha256 := e_compressed_sha256 e,
              r_compressed_size := e_compressed_size e, r_uncompressed_size := e_uncompressed_size e,
              r_data_offset := e_data_offset e, r_coordinate := e_coordinate e\<rparr>;
            budget = (if remaining = u64_max then max_total_materialized_bytes (i_limits info) else remaining)
        in if \<not> e_safe_to_materialize e
           then Some (refuse fs (MatMember (e_state e)) (MemberRefused (e_failure e)) out)
           else if max_recursive_depth (i_limits info) \<le> current_depth
           then Some (refuse fs MatBudgetRefused DepthExhausted out)
           else if budget < e_uncompressed_size e \<or>
                   max_total_materialized_bytes (i_limits info) < e_uncompressed_size e
           then Some (refuse fs MatBudgetRefused BudgetTooSmall out)
           else Option.bind (sha256_bytes data) (\<lambda>sha.
             if sha \<noteq> i_parent_sha256 info then Some (refuse fs IdentityMismatch InputChanged out)
             else case ensure_safe_output_parents os fs root (e_normalized e) of
               (fs1, Some reason) \<Rightarrow> Some (refuse fs1 OutputPathRefused reason out)
             | (fs1, None) \<Rightarrow>
                 produce_member os mz fs1 data info member_index (e_uncompressed_size e)
                   (fold (\<lambda>part cur. append_part cur part) (path_parts (e_normalized e)) root) budget out))"

subsection \<open>Directories are only added, below the root\<close>

lemma ensure_components_adds:
  "ensure_components os fs cur parts = (fs', r) \<Longrightarrow>
    fs \<subseteq>\<^sub>m fs' \<and> (\<forall>l. fs l = None \<longrightarrow> fs' l \<in> {None, Some Dir})"
proof (induction os fs cur parts rule: ensure_components.induct)
  case (2 os fs cur part rest)
  show ?case
  proof (cases "part = [] \<or> part = ''.'' \<or> part = ''..''")
    case True
    then show ?thesis using "2.prems" by auto
  next
    case ok: False
    show ?thesis
    proof (cases "symlink_status os fs (append_part cur part)")
      case (StatusError e)
      then show ?thesis using "2.prems" ok by auto
    next
      case (Found nd)
      then show ?thesis using "2.prems" "2.IH"(2) [OF ok refl Found] ok by (auto split: if_splits)
    next
      case NotFound
      show ?thesis
      proof (cases "make_dir os fs (append_part cur part)")
        case (Inl e)
        then show ?thesis using "2.prems" ok NotFound by auto
      next
        case (Inr fs1)
        from make_dir_adds [OF Inr] obtain loc where "fs loc = None" "fs1 = fs(loc \<mapsto> Dir)" by metis
        moreover have "fs1 \<subseteq>\<^sub>m fs' \<and> (\<forall>l. fs1 l = None \<longrightarrow> fs' l \<in> {None, Some Dir})"
          using "2.IH"(1) [OF ok refl NotFound Inr] "2.prems" ok NotFound Inr by simp
        ultimately show ?thesis by (auto simp: map_le_def dom_def split: if_splits)
      qed
    qed
  qed
qed simp

lemma status_Found:
  "symlink_status os fs p = Found nd \<Longrightarrow> \<exists>loc. locate fs p = Some loc \<and> fs loc = Some nd"
  by (auto simp: symlink_status_def Option.bind_eq_Some_conv split: option.splits)

lemma status_NotFound:
  "symlink_status os fs p = NotFound \<Longrightarrow> locate fs p = Some loc \<Longrightarrow> fs loc = None"
  by (auto simp: symlink_status_def split: option.splits)

text \<open>Walking the components: each is a real directory afterwards, and nothing else is new.\<close>

lemma ensure_components_dirs:
  "ensure_components os fs cur parts = (fs', None) \<Longrightarrow> walk fs link_limit [] cur = Some d \<Longrightarrow>
    ''/'' \<notin> set parts \<Longrightarrow>
    (\<forall>k. 0 < k \<longrightarrow> k \<le> length parts \<longrightarrow> fs' (d @ take k parts) = Some Dir) \<and>
    walk fs' link_limit [] cur = Some d \<and>
    (\<forall>l. fs l = None \<longrightarrow> fs' l \<noteq> None \<longrightarrow> (\<exists>k. 0 < k \<and> k \<le> length parts \<and> l = d @ take k parts))"
proof (induction os fs cur parts arbitrary: d rule: ensure_components.induct)
  case (2 os fs cur part rest)
  have ok: "\<not> (part = [] \<or> part = ''.'' \<or> part = ''..'')" using "2.prems"(1) by (auto split: if_splits)
  have ext: "append_part cur part = cur @ [part]" using "2.prems"(3) unfolding append_part_def by (metis list.set_intros(1))
  have loc: "locate fs (cur @ [part]) = Some (d @ [part])" using locate_snoc [OF "2.prems"(2)] .
  obtain fs1 where le: "fs \<subseteq>\<^sub>m fs1" and dir: "fs1 (d @ [part]) = Some Dir"
    and new: "\<And>l. fs l = None \<Longrightarrow> fs1 l \<noteq> None \<Longrightarrow> l = d @ [part]"
    and rest: "ensure_components os fs1 (cur @ [part]) rest = (fs', None)"
    and IH: "\<And>d'. walk fs1 link_limit [] (cur @ [part]) = Some d' \<Longrightarrow>
      (\<forall>k. 0 < k \<longrightarrow> k \<le> length rest \<longrightarrow> fs' (d' @ take k rest) = Some Dir) \<and>
      walk fs' link_limit [] (cur @ [part]) = Some d' \<and>
      (\<forall>l. fs1 l = None \<longrightarrow> fs' l \<noteq> None \<longrightarrow> (\<exists>k. 0 < k \<and> k \<le> length rest \<and> l = d' @ take k rest))"
  proof (cases "symlink_status os fs (append_part cur part)")
    case (StatusError e)
    then show ?thesis using "2.prems"(1) ok by simp
  next
    case (Found nd)
    have "nd = Dir" using Found "2.prems"(1) ok by (auto split: if_splits)
    then have "fs (d @ [part]) = Some Dir" using status_Found [OF Found] ext loc by auto
    moreover have "ensure_components os fs (cur @ [part]) rest = (fs', None)"
      using Found "2.prems"(1) ok ext \<open>nd = Dir\<close> by simp
    ultimately show ?thesis
      using that [of fs] "2.IH"(2) [OF ok refl Found] "2.prems"(3) ext \<open>nd = Dir\<close> by auto
  next
    case NotFound
    then obtain fs1 where mk: "make_dir os fs (append_part cur part) = Inr fs1"
      and rest: "ensure_components os fs1 (cur @ [part]) rest = (fs', None)"
      using "2.prems"(1) ok ext by (auto simp: Let_def split: sum.splits)
    from make_dir_adds [OF mk] have none: "fs (d @ [part]) = None"
      and fs1: "fs1 = fs(d @ [part] \<mapsto> Dir)"
      using ext loc by auto
    have le: "fs \<subseteq>\<^sub>m fs1" unfolding fs1 using none by (rule map_le_add)
    have plain: "''/'' \<notin> set rest" using "2.prems"(3) by simp
    have new: "l = d @ [part]" if "fs l = None" "fs1 l \<noteq> None" for l
      using that fs1 by (metis fun_upd_other)
    have dir: "fs1 (d @ [part]) = Some Dir" by (simp add: fs1)
    note ih = "2.IH"(1) [OF ok refl NotFound mk, unfolded ext, OF rest _ plain]
    show ?thesis by (rule that [OF le dir new rest ih])
  qed
  have w1: "walk fs1 link_limit [] cur = Some d" using walk_mono [OF "2.prems"(2) le] .
  then have "walk fs1 link_limit [] (cur @ [part]) = Some (d @ [part])"
    using walk_below [of fs1 link_limit cur d "[part]"] dir by (simp add: take_Suc)
  note ih = IH [OF this]
  have le': "fs1 \<subseteq>\<^sub>m fs'" using ensure_components_adds [OF rest] by simp
  have "fs' (d @ take k (part # rest)) = Some Dir" if k: "0 < k" "k \<le> length (part # rest)" for k
  proof (cases "k = 1")
    case True
    then show ?thesis using map_leD [OF le' dir] by simp
  next
    case False
    define j where "j = k - 1"
    have j: "k = Suc j" "0 < j" "j \<le> length rest" using k False by (simp_all add: j_def)
    have "fs' ((d @ [part]) @ take j rest) = Some Dir" using ih j(2,3) by blast
    then show ?thesis by (simp add: j(1))
  qed
  moreover have "\<exists>k. 0 < k \<and> k \<le> length (part # rest) \<and> l = d @ take k (part # rest)"
    if "fs l = None" "fs' l \<noteq> None" for l
  proof (cases "fs1 l = None")
    case True
    have "\<forall>l. fs1 l = None \<longrightarrow> fs' l \<noteq> None \<longrightarrow> (\<exists>k. 0 < k \<and> k \<le> length rest \<and> l = (d @ [part]) @ take k rest)"
      using ih by (elim conjE)
    with True that(2) obtain k where "k \<le> length rest" "l = (d @ [part]) @ take k rest" by blast
    then show ?thesis by (intro exI [of _ "Suc k"]) simp
  next
    case False
    then show ?thesis using new [OF that(1)] by (intro exI [of _ 1]) simp
  qed
  ultimately show ?case using walk_mono [OF w1 le'] by blast
qed auto

lemma ensure_parents_adds:
  "ensure_safe_output_parents os fs root relative = (fs', r) \<Longrightarrow>
    fs \<subseteq>\<^sub>m fs' \<and> (\<forall>l. fs l = None \<longrightarrow> fs' l \<in> {None, Some Dir})"
proof -
  assume e: "ensure_safe_output_parents os fs root relative = (fs', r)"
  let ?parts = "path_parts (parent_path relative)"
  show ?thesis
  proof (cases "symlink_status os fs root")
    case NotFound
    show ?thesis
    proof (cases "make_dirs os fs [] root")
      case (Inl a)
      then show ?thesis using e NotFound by (auto simp: ensure_safe_output_parents_def)
    next
      case (Inr fs1)
      then have "ensure_components os fs1 root ?parts = (fs', r)"
        using e NotFound by (simp add: ensure_safe_output_parents_def)
      from ensure_components_adds [OF this] make_dirs_adds [OF Inr] show ?thesis
        using map_le_trans by (auto; metis map_le_def domI)
    qed
  next
    case (Found nd)
    then show ?thesis using e ensure_components_adds [of os fs root ?parts fs' r]
      by (auto simp: ensure_safe_output_parents_def split: if_splits)
  next
    case (StatusError m)
    then show ?thesis using e by (auto simp: ensure_safe_output_parents_def)
  qed
qed

text \<open>Success: the root and every parent are real directories, reached without a link below the root.\<close>

definition parents_ready :: "fs \<Rightarrow> names \<Rightarrow> names \<Rightarrow> names \<Rightarrow> bool" where
  "parents_ready fs root d parents \<longleftrightarrow>
     walk fs link_limit [] root = Some d \<and>
     (\<forall>k. 0 < k \<longrightarrow> k \<le> length parents \<longrightarrow> fs (d @ take k parents) = Some Dir)"

lemma located_dir_walks:
  assumes "locate fs p = Some loc" "fs loc = Some Dir"
  shows "walk fs link_limit [] p = Some loc"
proof (cases p rule: rev_cases)
  case Nil
  then show ?thesis using assms by (simp add: locate_def)
next
  case (snoc q c)
  then obtain d where d: "walk fs link_limit [] q = Some d" "loc = d @ [c]"
    using assms(1) by (auto simp: locate_def)
  then show ?thesis using walk_below [OF d(1), of "[c]"] assms(2) snoc by (simp add: take_Suc)
qed

lemma ensure_parents_ready:
  assumes e: "ensure_safe_output_parents os fs root relative = (fs', None)"
    and plain: "''/'' \<notin> set (path_parts (parent_path relative))"
  shows "\<exists>d. parents_ready fs' root d (path_parts (parent_path relative))"
proof -
  let ?parts = "path_parts (parent_path relative)"
  obtain fs1 d where "walk fs1 link_limit [] root = Some d" "ensure_components os fs1 root ?parts = (fs', None)"
  proof (cases "symlink_status os fs root")
    case NotFound
    then obtain fs1 where mk: "make_dirs os fs [] root = Inr fs1"
      and rest: "ensure_components os fs1 root ?parts = (fs', None)"
      using e by (auto simp: ensure_safe_output_parents_def split: sum.splits)
    from make_dirs_walks [OF mk] have "walk fs1 link_limit [] root \<noteq> None" by simp
    then show ?thesis using that rest by auto
  next
    case (Found nd)
    then have "nd = Dir" "ensure_components os fs root ?parts = (fs', None)"
      using e by (auto simp: ensure_safe_output_parents_def split: if_splits)
    then show ?thesis using that status_Found [OF Found] located_dir_walks by blast
  next
    case (StatusError m)
    then show ?thesis using e by (simp add: ensure_safe_output_parents_def)
  qed
  from ensure_components_dirs [OF this(2,1) plain] show ?thesis
    unfolding parents_ready_def by blast
qed

subsection \<open>The streamed content\<close>

lemma stream_loop_length:
  "length written \<le> declared \<Longrightarrow> stream_loop os mz declared budget written it = (content, it', ok) \<Longrightarrow>
    length content \<le> declared \<and> (ok \<longrightarrow> length content = declared)"
proof (induction os mz declared budget written it rule: stream_loop.induct)
  case (1 os mz declared budget written it)
  obtain got it1 where rd: "mz_iter_read mz it (min kIoChunk (declared - length written)) = (got, it1)"
    by fastforce
  show ?case
  proof (cases "declared \<le> length written \<or> got = [] \<or> min kIoChunk (declared - length written) < length got \<or>
      wrap64 (budget + 18446744073709551616 - length got) < length written \<or> os_write_fault os (length written)")
    case True
    then show ?thesis using "1.prems" rd
      by (subst (asm) stream_loop.simps) (auto simp: Let_def split: if_splits)
  next
    case False
    then have "stream_loop os mz declared budget (written @ got) it1 = (content, it', ok)"
      using "1.prems"(2) rd by (subst (asm) stream_loop.simps) (simp add: Let_def)
    moreover have "length (written @ got) \<le> declared" using False by (simp; linarith)
    ultimately show ?thesis
      using "1.IH" [OF _ refl rd [symmetric] refl] False by blast
  qed
qed

text \<open>
  What the decompressor said. \<open>delivers mz it content it'\<close>: successive reads from \<open>it\<close> gave, in
  order and without a gap, exactly \<open>content\<close> and left \<open>it'\<close>. \<open>decompressed\<close>: those reads
  followed the start of the member's extraction, the next byte was asked for and there was none, and
  the release of the iterator, which compares the CRC-32, was positive.
\<close>

inductive delivers :: "'it mz_extractor \<Rightarrow> 'it \<Rightarrow> bytes \<Rightarrow> 'it \<Rightarrow> bool" for mz where
  delivers_none: "delivers mz it [] it"
| delivers_read: "mz_iter_read mz it want = (got, it1) \<Longrightarrow> length got \<le> want \<Longrightarrow> delivers mz it1 rest it2 \<Longrightarrow>
    delivers mz it (got @ rest) it2"

definition decompressed :: "'it mz_extractor \<Rightarrow> bytes \<Rightarrow> nat \<Rightarrow> bytes \<Rightarrow> bool" where
  "decompressed mz archive k content \<longleftrightarrow>
     (\<exists>it0 it1 it2. mz_iter_new mz archive k = Inr it0 \<and> delivers mz it0 content it1 \<and>
        mz_iter_read mz it1 1 = ([], it2) \<and> mz_iter_free mz it2)"

lemma stream_loop_delivers:
  "stream_loop os mz declared budget written it = (content, it', True) \<Longrightarrow>
    \<exists>rest. content = written @ rest \<and> delivers mz it rest it'"
proof (induction os mz declared budget written it rule: stream_loop.induct)
  case (1 os mz declared budget written it)
  obtain got it1 where rd: "mz_iter_read mz it (min kIoChunk (declared - length written)) = (got, it1)"
    by fastforce
  show ?case
  proof (cases "declared \<le> length written")
    case True
    then show ?thesis using "1.prems" by (subst (asm) stream_loop.simps) (auto intro: delivers_none)
  next
    case False
    then have go: "\<not> (got = [] \<or> min kIoChunk (declared - length written) < length got \<or>
        wrap64 (budget + 18446744073709551616 - length got) < length written)"
      "\<not> os_write_fault os (length written)"
      "stream_loop os mz declared budget (written @ got) it1 = (content, it', True)"
      using "1.prems" rd by (subst (asm) stream_loop.simps, simp add: Let_def split: if_splits)+
    from "1.IH" [OF False refl rd [symmetric] refl go] obtain rest where
      "content = (written @ got) @ rest" "delivers mz it1 rest it'" by blast
    moreover have "length got \<le> min kIoChunk (declared - length written)" using go(1) by linarith
    ultimately show ?thesis using delivers_read [OF rd, of rest it'] by simp
  qed
qed

lemma concat_file_chunks: "0 < k \<Longrightarrow> concat (file_chunks k b) = b"
proof (induction k b rule: file_chunks.induct)
  case (1 k b)
  then show ?case by (subst file_chunks.simps) (cases "b = []"; simp)
qed

lemma sha256_file_spec:
  "locate fs p = Some l \<Longrightarrow> fs l = Some (File b) \<Longrightarrow> sha256_file fs p = Some (sha256_spec b)"
  by (simp add: sha256_file_def sha256.in_parts_ref concat_file_chunks)

subsection \<open>Where the output lands\<close>

text \<open>
  The situation before writing: the parents are ready below \<open>d\<close>, the destination is
  \<open>d @ parts\<close>, and neither it nor the temporary file exists.
\<close>

lemma part_name_snoc: "part_name k (q @ [c]) = q @ [c @ part_suffix k]"
  by (simp add: part_name_def)

definition target_ready :: "fs \<Rightarrow> names \<Rightarrow> names \<Rightarrow> string \<Rightarrow> nat \<Rightarrow> bool" where
  "target_ready fs q d c k \<longleftrightarrow> walk fs link_limit [] q = Some d \<and> fs (d @ [c]) = None \<and>
     fs (d @ [c @ part_suffix k]) = None"

lemma target_ready_locate:
  assumes "target_ready fs q d c k" "fs \<subseteq>\<^sub>m fs'"
  shows "locate fs' (q @ [c]) = Some (d @ [c])"
    "locate fs' (part_name k (q @ [c])) = Some (d @ [c @ part_suffix k])"
  using assms locate_snoc [OF walk_mono [of fs link_limit "[]" q d fs']]
  by (simp_all add: target_ready_def part_name_snoc)

text \<open>How an attempt can end: the file system unchanged, a temporary file that could not be removed, or the file.\<close>

definition output_outcome ::
  "os_env \<Rightarrow> 'it mz_extractor \<Rightarrow> bytes \<Rightarrow> fs \<Rightarrow> names \<Rightarrow> string \<Rightarrow> nat \<Rightarrow> nat \<Rightarrow> mat_result \<Rightarrow> fs \<times> mat_result \<Rightarrow> bool" where
  "output_outcome os mz archive fs d c k declared out r \<longleftrightarrow>
     (case r of (fs', res) \<Rightarrow>
       (\<not> r_success res \<and> r_state res \<noteq> MaterializedVerified \<and>
          (fs' = fs \<or> (os_remove_fault os \<noteq> None \<and>
             (\<exists>b. fs' = fs(d @ [c @ part_suffix k] \<mapsto> File b))))) \<or>
       (r_success res \<and> r_state res = MaterializedVerified \<and>
          (\<exists>content. decompressed mz archive k content \<and> length content = declared \<and> r_bytes_written res = declared \<and>
             fs' = fs(d @ [c] \<mapsto> File (os_kept os content)) \<and>
             r_uncompressed_sha256 res = sha256_spec (os_kept os content))))"

lemma upd_undo: "fs p = None \<Longrightarrow> fs(p := None) = fs"
  by auto

lemma write_output_outcome:
  assumes ready: "target_ready fs q d c k"
    and fresh: "\<not> r_success out"
  shows "\<exists>r. write_output os mz fs archive k declared budget (part_name k (q @ [c])) (q @ [c]) out = Some r \<and>
    output_outcome os mz archive fs d c k declared out r"
proof -
  let ?pl = "d @ [c @ part_suffix k]" and ?dl = "d @ [c]"
  let ?part = "part_name k (q @ [c])"
  have none: "fs ?pl = None" "fs ?dl = None" using ready by (simp_all add: target_ready_def)
  have ne: "?pl \<noteq> ?dl" by simp
  have loc: "locate (fs(?pl \<mapsto> File b)) ?part = Some ?pl" "locate (fs(?pl \<mapsto> File b)) (q @ [c]) = Some ?dl"
    and loc0: "locate fs ?part = Some ?pl" for b
    using target_ready_locate [OF ready map_le_add [of fs ?pl "File b"]] target_ready_locate [OF ready map_le_refl] none
    by simp_all
  have removed: "output_outcome os mz archive fs d c k declared out (refuse (remove_file os (fs(?pl \<mapsto> File b)) ?part) st reason out)"
    if "st \<noteq> MaterializedVerified" for b st reason
    using that loc(1) [of b] fresh none
    by (cases "os_remove_fault os") (auto simp: output_outcome_def refuse_def remove_file_def upd_undo)
  show ?thesis
  proof (cases "os_open_fault os")
    case True
    then show ?thesis using fresh
      by (simp add: write_output_def open_trunc_def output_outcome_def refuse_def)
  next
    case False
    then have opened: "open_trunc os fs ?part = Some (?pl, fs(?pl \<mapsto> File []))"
      using loc0 none by (simp add: open_trunc_def)
    show ?thesis
    proof (cases "mz_iter_new mz archive k")
      case (Inl e)
      then show ?thesis using opened removed [of DecompressionFailed "[]"] by (simp add: write_output_def)
    next
      case (Inr it)
      obtain content it1 ok where str: "stream_loop os mz declared budget [] it = (content, it1, ok)"
        by (metis prod_cases3)
      obtain extra it2 where ex: "(if ok then mz_iter_read mz it1 1 else ([], it1)) = (extra, it2)"
        by fastforce
      let ?bad = "\<not> (ok \<and> extra = []) \<or> \<not> mz_iter_free mz it2 \<or> length content \<noteq> declared"
      let ?fs2 = "fs(?pl \<mapsto> File (os_kept os content))"
      have eq: "write_output os mz fs archive k declared budget ?part (q @ [c]) out =
          (if ?bad then Some (refuse (remove_file os ?fs2 ?part) DecompressionOrCrcFailed StreamMismatch out)
           else finish_output os ?fs2 ?part (q @ [c]) (length content) out)"
        using opened Inr str ex by (simp add: write_output_def)
      show ?thesis
      proof (cases ?bad)
        case True
        then show ?thesis unfolding eq using removed [of DecompressionOrCrcFailed] by simp
      next
        case good: False
        show ?thesis
        proof (cases "os_rename_fault os")
          case (Some e)
          then show ?thesis
            unfolding eq using good removed [of OutputPathRefused] by (simp add: finish_output_def rename_file_def)
        next
          case None
          let ?fs' = "fs(?dl \<mapsto> File (os_kept os content))"
          have "rename_file os ?fs2 ?part (q @ [c]) = Inr ((?fs2(?pl := None))(?dl \<mapsto> File (os_kept os content)))"
            using None loc none ne by (simp add: rename_file_def)
          also have "(?fs2(?pl := None))(?dl \<mapsto> File (os_kept os content)) = ?fs'"
            using none by auto
          finally have rn: "rename_file os ?fs2 ?part (q @ [c]) = Inr ?fs'" .
          have "locate ?fs' (q @ [c]) = Some ?dl"
            using target_ready_locate(1) [OF ready map_le_add [of fs ?dl]] none by simp
          then have "sha256_file ?fs' (q @ [c]) = Some (sha256_spec (os_kept os content))"
            by (rule sha256_file_spec) simp
          then have "write_output os mz fs archive k declared budget ?part (q @ [c]) out =
              Some (?fs', out\<lparr>r_output_path := q @ [c], r_bytes_written := length content,
                r_uncompressed_sha256 := sha256_spec (os_kept os content), r_state := MaterializedVerified,
                r_success := True\<rparr>)"
            unfolding eq if_not_P [OF good] finish_output_def rn by simp
          moreover have "length content = declared" using good by blast
          moreover have "decompressed mz archive k content"
            using Inr str ex good stream_loop_delivers [of os mz declared budget "[]" it content it1]
            by (auto simp: decompressed_def)
          ultimately show ?thesis by (auto simp: output_outcome_def)
        qed
      qed
    qed
  qed
qed

subsection \<open>The components of an accepted name\<close>

lemma join_snoc: "join_with c (qs @ [x]) = (if qs = [] then x else join_with c qs @ c # x)"
  by (induction c qs rule: join_with.induct) (auto simp: join_with_Cons)

lemma clean_parts_nonempty: "\<forall>p \<in> set ps. clean_component p \<Longrightarrow> filter (\<lambda>c. c \<noteq> []) ps = ps"
  by (auto simp: filter_id_conv clean_component_ne)

lemma path_parts_join:
  assumes "\<forall>p \<in> set ps. clean_component p"
  shows "path_parts (join_with slash ps) = ps"
proof (cases "ps = []")
  case True
  then show ?thesis by (simp add: path_parts_def is_absolute_def)
next
  case False
  then have "split_on slash (join_with slash ps) = ps"
    using assms by (intro split_join) (auto simp: clean_component_def)
  then show ?thesis
    using lexically_normal_clean(2) [OF assms False] clean_parts_nonempty [OF assms]
    by (simp add: path_parts_def)
qed

lemma parent_path_join:
  assumes "\<forall>p \<in> set (qs @ [x]). clean_component p"
  shows "parent_path (join_with slash (qs @ [x])) = join_with slash qs"
proof (cases "qs = []")
  case True
  have x: "slash \<notin> set x" using assms by (simp add: clean_component_def)
  then have "takeWhile (\<lambda>c. c \<noteq> slash) (rev x) = rev x"
    using x by (intro takeWhile_eq_all_conv [THEN iffD2]) auto
  then have "filename x = x" unfolding filename_def by (metis rev_rev_ident)
  then show ?thesis using True by (simp add: parent_path_def strip_trailing_def)
next
  case False
  let ?j = "join_with slash qs"
  have x: "slash \<notin> set x" using assms by (simp add: clean_component_def)
  have clean: "\<forall>p \<in> set qs. clean_component p" using assms by simp
  have ne: "?j \<noteq> []" "last ?j \<noteq> slash" using join_clean_hd [OF clean False] join_clean_last [OF clean False] by auto
  have "takeWhile (\<lambda>c. c \<noteq> slash) (rev x @ slash # rev ?j) = rev x"
    using x by (subst takeWhile_append2) auto
  then have "filename (?j @ slash # x) = x" by (simp add: filename_def)
  moreover have "strip_trailing (?j @ [slash]) = ?j"
    using strip_trailing_id [OF ne] by (simp add: strip_trailing_def)
  ultimately show ?thesis using False ne by (simp add: join_snoc parent_path_def Let_def)
qed

lemma fold_append_part:
  "''/'' \<notin> set ps \<Longrightarrow> fold (\<lambda>part cur. append_part cur part) ps root = root @ ps"
proof (induction ps arbitrary: root)
  case (Cons p ps)
  then have "p \<noteq> ''/''" by auto
  then have "append_part root p = root @ [p]" by (simp add: append_part_def)
  then show ?case using Cons by simp
qed simp

lemma clean_not_slash: "\<forall>p \<in> set ps. clean_component p \<Longrightarrow> ''/'' \<notin> set ps"
  by (auto simp: clean_component_def)

subsection \<open>The whole routine\<close>

text \<open>What the routine guarantees, for a member whose path has the components \<open>q @ [c]\<close>.\<close>

definition landed ::
  "os_env \<Rightarrow> 'it mz_extractor \<Rightarrow> bytes \<Rightarrow> nat \<Rightarrow> fs \<Rightarrow> fs \<Rightarrow> names \<Rightarrow> names \<Rightarrow> member \<Rightarrow> mat_result \<Rightarrow> bool" where
  "landed os mz archive k fs fs' root parts m res \<longleftrightarrow>
     (\<exists>d content. mz_open mz archive = None \<and> decompressed mz archive k content \<and>
        walk fs' link_limit [] root = Some d \<and>
        (\<forall>j. 0 < j \<longrightarrow> j < length parts \<longrightarrow> fs' (d @ take j parts) = Some Dir) \<and>
        fs (d @ parts) = None \<and> fs' (d @ parts) = Some (File (os_kept os content)) \<and>
        length content = e_uncompressed_size m \<and> r_bytes_written res = e_uncompressed_size m \<and>
        r_uncompressed_sha256 res = sha256_spec (os_kept os content) \<and>
        (\<forall>l. fs l = None \<longrightarrow> l \<noteq> d @ parts \<longrightarrow> fs' l \<in> {None, Some Dir}))"

definition only_dirs_added :: "fs \<Rightarrow> fs \<Rightarrow> bool" where
  "only_dirs_added fs fs' \<longleftrightarrow> fs \<subseteq>\<^sub>m fs' \<and> (\<forall>l. fs l = None \<longrightarrow> fs' l \<in> {None, Some Dir})"

lemma only_dirs_added_refl [simp]: "only_dirs_added fs fs"
  by (simp add: only_dirs_added_def)

definition produced ::
  "os_env \<Rightarrow> 'it mz_extractor \<Rightarrow> bytes \<Rightarrow> nat \<Rightarrow> fs \<Rightarrow> names \<Rightarrow> names \<Rightarrow> member \<Rightarrow> fs \<times> mat_result \<Rightarrow> bool" where
  "produced os mz archive k fs root parts m r \<longleftrightarrow>
     fs \<subseteq>\<^sub>m fst r \<and>
     (if r_success (snd r) then landed os mz archive k fs (fst r) root parts m (snd r)
      else os_remove_fault os = None \<longrightarrow> only_dirs_added fs (fst r))"

lemma produced_unwritten:
  "only_dirs_added fs fs' \<Longrightarrow> \<not> r_success out \<Longrightarrow> produced os mz archive k fs root parts m (refuse fs' st reason out)"
  by (simp add: produced_def refuse_def only_dirs_added_def)

lemma produced_outcome:
  assumes add: "only_dirs_added fs fs1" and ready: "parents_ready fs1 root d q"
    and opened: "mz_open mz archive = None"
    and none: "fs1 (d @ q @ [c]) = None" "fs1 (d @ q @ [c @ part_suffix k]) = None"
    and out: "output_outcome os mz archive fs1 (d @ q) c k (e_uncompressed_size m) out r"
  shows "produced os mz archive k fs root (q @ [c]) m r"
proof -
  obtain fs' res where r: "r = (fs', res)" by fastforce
  have le: "fs \<subseteq>\<^sub>m fs1" and dirs: "\<And>l. fs l = None \<Longrightarrow> fs1 l \<in> {None, Some Dir}"
    using add unfolding only_dirs_added_def by blast+
  from out [unfolded output_outcome_def r prod.case] show ?thesis
  proof (elim disjE conjE exE)
    assume "\<not> r_success res" "fs' = fs1"
    then show ?thesis using add le by (simp add: produced_def r)
  next
    fix b assume "\<not> r_success res" "os_remove_fault os \<noteq> None"
      "fs' = fs1(((d @ q) @ [c @ part_suffix k]) \<mapsto> File b)"
    then show ?thesis using map_le_trans [OF le map_le_add [of fs1 "(d @ q) @ [c @ part_suffix k]" "File b"]] none
      by (auto simp: produced_def r)
  next
    fix content
    assume A: "r_success res" "length content = e_uncompressed_size m" "r_bytes_written res = e_uncompressed_size m"
      and dec: "decompressed mz archive k content"
      and A':
      "fs' = fs1(((d @ q) @ [c]) \<mapsto> File (os_kept os content))"
      "r_uncompressed_sha256 res = sha256_spec (os_kept os content)"
    have fs': "fs' = fs1((d @ q @ [c]) \<mapsto> File (os_kept os content))" using A'(1) by simp
    have le': "fs1 \<subseteq>\<^sub>m fs'" unfolding fs' using none(1) by (rule map_le_add)
    have "fs (d @ q @ [c]) = None" using map_leD [OF le] none(1) by (metis not_None_eq)
    moreover have "fs' (d @ take j (q @ [c])) = Some Dir" if "0 < j" "j < length (q @ [c])" for j
      using ready that map_leD [OF le'] by (simp add: parents_ready_def)
    moreover have "walk fs' link_limit [] root = Some d"
      using ready walk_mono [OF _ le'] by (simp add: parents_ready_def)
    ultimately have "landed os mz archive k fs fs' root (q @ [c]) m res"
      unfolding landed_def using A(2,3) A'(2) dirs opened dec by (intro exI [of _ d] exI [of _ content]) (simp add: fs')
    then show ?thesis using A(1) map_le_trans [OF le le'] by (simp add: produced_def r)
  qed
qed

lemma produce_member_post:
  assumes clear: "os_status_fault os (root @ q @ [c]) = None"
      "os_status_fault os (part_name k (root @ q @ [c])) = None"
    and add: "only_dirs_added fs fs1" and ready: "parents_ready fs1 root d q" and out: "\<not> r_success out"
    and archive: "archive = drop (i_archive_base_offset info) data"
  shows "\<exists>r. produce_member os mz fs1 data info k (e_uncompressed_size m) (root @ q @ [c]) budget out = Some r \<and>
    produced os mz archive k fs root (q @ [c]) m r"
proof -
  have w: "walk fs1 link_limit [] (root @ q) = Some (d @ q)"
    using ready walk_below unfolding parents_ready_def by blast
  have loc: "locate fs1 (root @ q @ [c]) = Some (d @ q @ [c])"
    and locp: "locate fs1 (part_name k (root @ q @ [c])) = Some (d @ q @ [c @ part_suffix k])"
    using locate_snoc [OF w] part_name_snoc [of k "root @ q" c] by simp_all
  have unwritten: "produced os mz archive k fs root (q @ [c]) m (refuse fs1 st reason out)" for st reason
    using produced_unwritten [OF add out] .
  consider (dest) nd where "fs1 (d @ q @ [c]) = Some nd"
    | (part) nd where "fs1 (d @ q @ [c]) = None" "fs1 (d @ q @ [c @ part_suffix k]) = Some nd"
    | (free) "fs1 (d @ q @ [c]) = None" "fs1 (d @ q @ [c @ part_suffix k]) = None"
    by (cases "fs1 (d @ q @ [c])"; cases "fs1 (d @ q @ [c @ part_suffix k])") auto
  then show ?thesis
  proof cases
    case dest
    then show ?thesis using unwritten by (simp add: produce_member_def symlink_status_def clear loc)
  next
    case part
    then show ?thesis using unwritten by (simp add: produce_member_def symlink_status_def clear loc locp)
  next
    case free
    let ?wr = "write_output os mz fs1 (drop (i_archive_base_offset info) data) k (e_uncompressed_size m) budget
        (part_name k (root @ q @ [c])) (root @ q @ [c]) out"
    have "target_ready fs1 (root @ q) (d @ q) c k" using w free by (simp add: target_ready_def)
    from write_output_outcome [OF this out, of os mz archive "e_uncompressed_size m" budget] obtain r where
      r: "?wr = Some r" "output_outcome os mz archive fs1 (d @ q) c k (e_uncompressed_size m) out r"
      unfolding archive by fastforce
    have "mz_open mz archive = None \<Longrightarrow> produced os mz archive k fs root (q @ [c]) m r"
      using produced_outcome [OF add ready _ free r(2)] .
    then show ?thesis
      using unwritten r(1) free
      by (auto simp: produce_member_def symlink_status_def clear loc locp Let_def archive
          simp del: split_paired_Ex split: option.split)
  qed
qed

text \<open>The member is one that inspection offered, and its path has clean components.\<close>

lemma inspected_member_parts:
  assumes "length data \<le> u64_max" "inspect_zip_container init data src limits = Some info"
    and "k < length (i_members info)" "e_safe_to_materialize (i_members info ! k)"
  obtains q c where "\<forall>p \<in> set (q @ [c]). clean_component p"
    "e_normalized (i_members info ! k) = join_with slash (q @ [c])"
proof -
  let ?m = "i_members info ! k"
  have "?m \<in> set (i_members info)" using assms(3) by simp
  from zip_safe_member_facts [OF assms(1,2) this assms(4)]
  have "materializable limits ?m" "member_name_ok limits ?m" by simp_all
  then have "safe_relative_name (e_name ?m) (e_directory ?m) (max_path_bytes limits) =
      (True, e_normalized ?m, e_portable_path ?m)"
    by (simp add: member_name_ok_def materializable_def)
  from safe_relative_name_components [OF this] obtain parts where
    "parts \<noteq> []" "e_normalized ?m = join_with slash parts" "\<forall>p \<in> set parts. clean_component p"
    by metis
  then show ?thesis using that by (cases parts rule: rev_cases) auto
qed

lemma if_branch: "(b \<Longrightarrow> P x) \<Longrightarrow> (\<not> b \<Longrightarrow> P y) \<Longrightarrow> P (if b then x else y)"
  by simp

definition member_parts :: "member \<Rightarrow> names" where
  "member_parts m = split_on slash (e_normalized m)"

text \<open>
  The overwrite protection asks the status of the destination and of its temporary name; it
  works when both can be read.
\<close>

definition target_status_read :: "os_env \<Rightarrow> names \<Rightarrow> nat \<Rightarrow> member \<Rightarrow> bool" where
  "target_status_read os root k m \<longleftrightarrow>
     os_status_fault os (root @ member_parts m) = None \<and>
     os_status_fault os (part_name k (root @ member_parts m)) = None"

definition materialize_ok ::
  "os_env \<Rightarrow> 'it mz_extractor \<Rightarrow> fs \<Rightarrow> bytes \<Rightarrow> ingress_info \<Rightarrow> nat \<Rightarrow> names \<Rightarrow> nat \<Rightarrow> nat \<Rightarrow> fs \<times> mat_result \<Rightarrow> bool" where
  "materialize_ok os mz fs data info k root depth remaining r \<longleftrightarrow>
     fs \<subseteq>\<^sub>m fst r \<and>
     (if r_success (snd r)
      then k < length (i_members info) \<and> e_safe_to_materialize (i_members info ! k) \<and>
        depth < max_recursive_depth (i_limits info) \<and>
        e_uncompressed_size (i_members info ! k) \<le> max_total_materialized_bytes (i_limits info) \<and>
        e_uncompressed_size (i_members info ! k) \<le>
          (if remaining = u64_max then max_total_materialized_bytes (i_limits info) else remaining) \<and>
        i_parent_sha256 info = sha256_spec data \<and>
        landed os mz (drop (i_archive_base_offset info) data) k fs (fst r) root
          (member_parts (i_members info ! k)) (i_members info ! k) (snd r)
      else os_remove_fault os = None \<longrightarrow> only_dirs_added fs (fst r))"

lemma materialize_refused:
  "only_dirs_added fs fs' \<Longrightarrow> \<not> r_success out \<Longrightarrow>
    materialize_ok os mz fs data info k root depth remaining (refuse fs' st reason out)"
  by (simp add: materialize_ok_def refuse_def only_dirs_added_def)

text \<open>The part after the checks.\<close>

lemma materialize_write_post:
  assumes clear: "target_status_read os root k m" and m: "m = i_members info ! k"
    and parts: "\<forall>p \<in> set (q @ [c]). clean_component p" "e_normalized m = join_with slash (q @ [c])"
    and ok: "k < length (i_members info)" "e_safe_to_materialize m" "depth < max_recursive_depth (i_limits info)"
      "e_uncompressed_size m \<le> max_total_materialized_bytes (i_limits info)"
      "e_uncompressed_size m \<le> (if remaining = u64_max then max_total_materialized_bytes (i_limits info) else remaining)"
      "i_parent_sha256 info = sha256_spec data" and out: "\<not> r_success out"
  shows "\<exists>r. (case ensure_safe_output_parents os fs root (e_normalized m) of
       (fs1, Some reason) \<Rightarrow> Some (refuse fs1 OutputPathRefused reason out)
     | (fs1, None) \<Rightarrow>
         produce_member os mz fs1 data info k (e_uncompressed_size m)
           (fold (\<lambda>part cur. append_part cur part) (path_parts (e_normalized m)) root) budget out) = Some r \<and>
    materialize_ok os mz fs data info k root depth remaining r"
proof -
  have split: "split_on slash (e_normalized m) = q @ [c]"
    unfolding parts(2) using parts(1) by (intro split_join) (auto simp: clean_component_def)
  have pq: "path_parts (e_normalized m) = q @ [c]" "path_parts (parent_path (e_normalized m)) = q"
    using path_parts_join [OF parts(1)] path_parts_join [of q] parent_path_join [OF parts(1)] parts by simp_all
  have plain: "''/'' \<notin> set (q @ [c])" using clean_not_slash [OF parts(1)] .
  obtain fs1 r1 where ens: "ensure_safe_output_parents os fs root (e_normalized m) = (fs1, r1)" by fastforce
  have add: "only_dirs_added fs fs1" using ensure_parents_adds [OF ens] by (simp add: only_dirs_added_def)
  show ?thesis
  proof (cases r1)
    case (Some reason)
    then show ?thesis using ens materialize_refused [OF add out] by simp
  next
    case None
    have "''/'' \<notin> set q" using plain by simp
    then obtain d where ready: "parents_ready fs1 root d q"
      using ensure_parents_ready [of os fs root "e_normalized m" fs1] ens None pq(2) by auto
    have read: "os_status_fault os (root @ q @ [c]) = None" "os_status_fault os (part_name k (root @ q @ [c])) = None"
      using clear by (simp_all add: target_status_read_def member_parts_def split)
    from produce_member_post [OF read add ready out refl, of mz data info m budget]
    obtain r where r: "produce_member os mz fs1 data info k (e_uncompressed_size m) (root @ q @ [c]) budget out = Some r"
      "produced os mz (drop (i_archive_base_offset info) data) k fs root (q @ [c]) m r" by blast
    have "materialize_ok os mz fs data info k root depth remaining r"
      using r(2) ok split by (simp add: materialize_ok_def produced_def member_parts_def m)
    then show ?thesis using r(1) ens None pq(1) fold_append_part [OF plain, of root] by simp
  qed
qed

lemma materialize_post:
  assumes small: "length data \<le> u64_max" and insp: "inspect_zip_container init data src limits = Some info"
    and clear: "target_status_read os root k (i_members info ! k)"
  shows "\<exists>r. materialize_zip_member os mz fs data info k root depth remaining = Some r \<and>
    materialize_ok os mz fs data info k root depth remaining r"
proof -
  let ?P = "\<lambda>x. \<exists>r. x = Some r \<and> materialize_ok os mz fs data info k root depth remaining r"
  have refP: "?P (Some (refuse fs st reason out))" if "\<not> r_success out" for st reason out
    using materialize_refused [OF only_dirs_added_refl that] by blast
  have clean: "\<exists>q c. (\<forall>p \<in> set (q @ [c]). clean_component p) \<and> e_normalized (i_members info ! k) = join_with slash (q @ [c])"
    if "k < length (i_members info)" "e_safe_to_materialize (i_members info ! k)"
    using inspected_member_parts [OF small insp that] by metis
  show ?thesis
    unfolding materialize_zip_member_def Let_def sha256.one_shot_ref bind.simps(2)
  proof (intro if_branch [where P = ?P] refP)
    assume h: "\<not> (length (i_members info) \<le> k \<or> e_index (i_members info ! k) \<noteq> k)"
      "\<not> \<not> e_safe_to_materialize (i_members info ! k)" "\<not> max_recursive_depth (i_limits info) \<le> depth"
      "\<not> ((if remaining = u64_max then max_total_materialized_bytes (i_limits info) else remaining)
           < e_uncompressed_size (i_members info ! k) \<or>
         max_total_materialized_bytes (i_limits info) < e_uncompressed_size (i_members info ! k))"
      "\<not> sha256_spec data \<noteq> i_parent_sha256 info"
    then obtain q c where parts: "\<forall>p \<in> set (q @ [c]). clean_component p"
      "e_normalized (i_members info ! k) = join_with slash (q @ [c])"
      using clean by (meson not_le)
    show "?P (case ensure_safe_output_parents os fs root (e_normalized (i_members info ! k)) of
       (fs1, Some reason) \<Rightarrow> Some (refuse fs1 OutputPathRefused reason (empty_mat_result\<lparr>r_member_index := k,
          r_parent_sha256 := i_parent_sha256 info, r_member_name := e_name (i_members info ! k),
          r_compressed_sha256 := e_compressed_sha256 (i_members info ! k),
          r_compressed_size := e_compressed_size (i_members info ! k),
          r_uncompressed_size := e_uncompressed_size (i_members info ! k),
          r_data_offset := e_data_offset (i_members info ! k), r_coordinate := e_coordinate (i_members info ! k)\<rparr>))
     | (fs1, None) \<Rightarrow>
         produce_member os mz fs1 data info k (e_uncompressed_size (i_members info ! k))
           (fold (\<lambda>part cur. append_part cur part) (path_parts (e_normalized (i_members info ! k))) root)
           (if remaining = u64_max then max_total_materialized_bytes (i_limits info) else remaining)
           (empty_mat_result\<lparr>r_member_index := k,
          r_parent_sha256 := i_parent_sha256 info, r_member_name := e_name (i_members info ! k),
          r_compressed_sha256 := e_compressed_sha256 (i_members info ! k),
          r_compressed_size := e_compressed_size (i_members info ! k),
          r_uncompressed_size := e_uncompressed_size (i_members info ! k),
          r_data_offset := e_data_offset (i_members info ! k), r_coordinate := e_coordinate (i_members info ! k)\<rparr>))"
      by (rule materialize_write_post [OF clear refl parts])
        (use h in \<open>simp_all add: empty_mat_result_def not_less not_le\<close>)
  qed (simp_all add: empty_mat_result_def)
qed

subsection \<open>Properties\<close>

text \<open>The routine returns whatever fails.\<close>

lemma sha256_file_total: "sha256_file fs p \<noteq> None"
  by (simp add: sha256_file_def sha256.in_parts_ref del: not_None_eq split: option.split node.split)

lemma finish_output_total: "finish_output os fs part dest n out \<noteq> None"
  using sha256_file_total by (simp add: finish_output_def del: not_None_eq split: sum.split)

lemma write_output_total: "write_output os mz fs archive k declared budget part dest out \<noteq> None"
  by (simp add: write_output_def Let_def finish_output_total split_def del: not_None_eq
      split: option.split sum.split)

lemma produce_member_total: "produce_member os mz fs data info k declared dest budget out \<noteq> None"
  by (simp add: produce_member_def Let_def write_output_total del: not_None_eq split: status.split option.split)

lemma materialize_total: "materialize_zip_member os mz fs data info k root depth remaining \<noteq> None"
  by (simp add: materialize_zip_member_def Let_def sha256.one_shot_ref produce_member_total del: not_None_eq
      split: prod.split option.split)

text \<open>C3: Materialization always returns, whatever the decompressor and the system calls do; and it
  touches nothing that was there, provided the status of the destination and of its temporary name
  can be read (an error there disables the overwrite check; an error on the root or on a parent only
  refuses the member). Then, for every inspected archive and every file system (links included),
  each existing file, directory and link is the same afterwards, and when the attempt fails and the
  temporary file can be removed, nothing but directories was added.\<close>

theorem zip_materialize_preserves:
  assumes "length data \<le> u64_max" "inspect_zip_container init data src limits = Some info"
  shows "\<exists>fs' res. materialize_zip_member os mz fs data info k root depth remaining = Some (fs', res) \<and>
    (target_status_read os root k (i_members info ! k) \<longrightarrow> fs \<subseteq>\<^sub>m fs' \<and>
      (r_success res \<or> os_remove_fault os \<noteq> None \<or> (\<forall>l. fs l = None \<longrightarrow> fs' l \<in> {None, Some Dir})))"
proof -
  obtain fs' res where run: "materialize_zip_member os mz fs data info k root depth remaining = Some (fs', res)"
    using materialize_total [of os mz fs data info k root depth remaining] by auto
  have "fs \<subseteq>\<^sub>m fs'" "r_success res \<or> os_remove_fault os \<noteq> None \<or> only_dirs_added fs fs'"
    if "target_status_read os root k (i_members info ! k)"
    using materialize_post [OF assms that, of mz fs depth remaining] run
    by (auto simp: materialize_ok_def split: if_splits)
  then show ?thesis using run by (auto simp: only_dirs_added_def)
qed

text \<open>C2: A reported success is a correct extraction at the right place: the member was offered by the
  inspection of these very bytes and the depth and byte budgets admit it; the archive opened at the
  recorded base, the reads of this member's extraction delivered exactly the declared number of bytes
  and not one more, and the decompressor's CRC verdict on them was positive; the file did not exist
  before (the status of the destination and of its temporary name being readable) and now is at the
  member's path below the real directory the root names, with every parent below the root a real
  directory (no link was followed there). The file holds what closing the output stream kept of the
  delivered bytes (the code does not check that close), and the reported digest is the SHA-256 of
  the file's content.\<close>

theorem zip_materialize_success:
  assumes "length data \<le> u64_max" "inspect_zip_container init data src limits = Some info"
    and "target_status_read os root k (i_members info ! k)"
    and "materialize_zip_member os mz fs data info k root depth remaining = Some (fs', res)" "r_success res"
  shows "k < length (i_members info) \<and> e_safe_to_materialize (i_members info ! k) \<and>
    i_parent_sha256 info = sha256_spec data \<and> depth < max_recursive_depth (i_limits info) \<and>
    e_uncompressed_size (i_members info ! k) \<le>
      (if remaining = u64_max then max_total_materialized_bytes (i_limits info) else remaining) \<and>
    landed os mz (drop (i_archive_base_offset info) data) k fs fs' root
      (member_parts (i_members info ! k)) (i_members info ! k) res"
  using materialize_post [OF assms(1-3), of mz fs depth remaining] assms(4,5)
  by (simp add: materialize_ok_def)

subsection \<open>A concrete run\<close>

text \<open>
  The decompressor of the sample archive delivers one byte; the file system has an output directory; the
  environment never fails, and \<open>keep\<close> says what closing the stream leaves of the content.
\<close>

definition sample_mz :: "bytes mz_extractor" where
  "sample_mz = \<lparr>mz_open = (\<lambda>a. None), mz_iter_new = (\<lambda>a k. Inr [0x58]),
     mz_iter_read = (\<lambda>it n. (take n it, drop n it)), mz_iter_free = (\<lambda>it. True)\<rparr>"

definition sample_os :: "(names \<Rightarrow> string option) \<Rightarrow> (bytes \<Rightarrow> bytes) \<Rightarrow> os_env" where
  "sample_os fault keep = \<lparr>os_status_fault = fault, os_mkdir_fault = (\<lambda>p. None), os_open_fault = False,
     os_write_fault = (\<lambda>n. False), os_kept = keep, os_remove_fault = None, os_rename_fault = None\<rparr>"

definition sample_fs :: fs where
  "sample_fs = [[] \<mapsto> Dir, [''out''] \<mapsto> Dir]"

definition sample_info :: "ingress_info \<Rightarrow> bool" where
  "sample_info info \<longleftrightarrow> inspect_zip_container sample_init sample_zip ''in'' default_limits = Some info \<and>
     length (i_members info) = 2 \<and> e_safe_to_materialize (i_members info ! 0) \<and>
     e_index (i_members info ! 0) = 0 \<and> e_normalized (i_members info ! 0) = ''a'' \<and>
     e_uncompressed_size (i_members info ! 0) = 1 \<and>
     i_structurally_valid info \<and> i_recognized info \<and> i_kind info = ''zip'' \<and> i_limits info = default_limits \<and>
     i_parent_sha256 info = sha256_spec sample_zip \<and> i_archive_base_offset info = 0"

lemma sample_info_exists: "\<exists>info. sample_info info"
proof -
  have norm: "e_normalized (finalize_member_state default_limits m) = e_normalized m" for m
    using arg_cong [OF erase_finalize [of default_limits m], of e_normalized] by (simp add: erase_def)
  have "e_index (sample_member False) = 0" by (simp add: sample_member_def build_member_sel)
  then show ?thesis
    using sample_inspected [of "''in''"]
    by (auto simp: sample_info_def finalize_verdict sample_member_safe finalize_member_sel norm
        sample_member_fields)
qed

lemma sample_parts: "path_parts ''a'' = [''a'']" "path_parts (parent_path ''a'') = []"
  by (simp_all add: path_parts_def is_absolute_def parent_path_def filename_def strip_trailing_def)

lemma sample_walk: "walk fs link_limit [] [''out''] = Some [''out'']" if "fs [''out''] = Some Dir"
  using that by simp

lemma sample_stream: "stream_loop os sample_mz 1 268435456 [] [0x58] = ([0x58], [], True)"
  if "\<not> os_write_fault os 0"
  using that
  by (subst stream_loop.simps) (simp add: sample_mz_def kIoChunk_def wrap64_def stream_loop.simps)

definition sample_dest :: names where "sample_dest = [''out'', ''a'']"
definition sample_part :: names where "sample_part = [''out'', ''a'' @ part_suffix 0]"

lemma sample_paths: "part_name 0 sample_dest = sample_part" "sample_dest \<noteq> sample_part"
  "[''out''] \<noteq> sample_dest" "[''out''] \<noteq> sample_part"
  by (simp_all add: part_name_def sample_dest_def sample_part_def)

lemma sample_locate:
  "fs [''out''] = Some Dir \<Longrightarrow> locate fs sample_dest = Some sample_dest"
  "fs [''out''] = Some Dir \<Longrightarrow> locate fs sample_part = Some sample_part"
  "locate fs [''out''] = Some [''out'']"
  by (simp_all add: locate_def sample_dest_def sample_part_def)

text \<open>
  The run on the sample archive, for a destination that is free, or whose status cannot be read and that
  holds a file.
\<close>

lemma sample_run:
  assumes info: "sample_info info"
    and fs: "fs [''out''] = Some Dir" "fs sample_part = None" "fault [''out''] = None"
    and dest: "fs sample_dest = None \<or> (fault sample_dest \<noteq> None \<and> fs sample_dest = Some (File old))"
  shows "\<exists>res. materialize_zip_member (sample_os fault keep) sample_mz fs sample_zip info 0 [''out''] 0 u64_max =
      Some (fs(sample_dest \<mapsto> File (keep [0x58])), res) \<and> r_success res \<and> r_bytes_written res = 1"
proof -
  let ?os = "sample_os fault keep"
  let ?fs2 = "fs(sample_part \<mapsto> File (keep [0x58]))" and ?fs' = "fs(sample_dest \<mapsto> File (keep [0x58]))"
  have I: "i_recognized info" "i_structurally_valid info" "i_kind info = ''zip''" "length (i_members info) = 2"
    "e_index (i_members info ! 0) = 0" "e_safe_to_materialize (i_members info ! 0)"
    "max_recursive_depth (i_limits info) = 4" "max_total_materialized_bytes (i_limits info) = 268435456"
    "e_uncompressed_size (i_members info ! 0) = 1" "i_parent_sha256 info = sha256_spec sample_zip"
    "e_normalized (i_members info ! 0) = ''a''" "i_archive_base_offset info = 0"
    using info by (simp_all add: sample_info_def default_limits_def)
  have os: "os_write_fault ?os = (\<lambda>n. False)" "os_open_fault ?os = False" "os_kept ?os = keep"
    "os_rename_fault ?os = None" "os_status_fault ?os = fault"
    by (simp_all add: sample_os_def)
  have parents: "ensure_safe_output_parents ?os fs [''out''] ''a'' = (fs, None)"
    using fs by (simp add: ensure_safe_output_parents_def symlink_status_def os sample_locate sample_parts)
  have fold: "fold (\<lambda>part cur. append_part cur part) (path_parts ''a'') [''out''] = sample_dest"
    by (simp add: sample_parts append_part_def sample_dest_def)
  have free: "symlink_status ?os fs sample_dest \<noteq> Found nd" "symlink_status ?os fs sample_part \<noteq> Found nd" for nd
    using fs dest by (auto simp: symlink_status_def os sample_locate split: option.splits)
  have opened: "open_trunc ?os fs sample_part = Some (sample_part, fs(sample_part \<mapsto> File []))"
    using fs by (simp add: open_trunc_def os sample_locate)
  have "rename_file ?os ?fs2 sample_part sample_dest =
      Inr ((?fs2(sample_part := None))(sample_dest \<mapsto> File (keep [0x58])))"
    using fs dest sample_paths by (auto simp: rename_file_def os sample_locate)
  also have "(?fs2(sample_part := None))(sample_dest \<mapsto> File (keep [0x58])) = ?fs'"
    using fs(2) by (auto simp: fun_eq_iff)
  finally have ren: "rename_file ?os ?fs2 sample_part sample_dest = Inr ?fs'" .
  have "locate ?fs' sample_dest = Some sample_dest" using fs sample_paths by (intro sample_locate) simp
  then have sha: "sha256_file ?fs' sample_dest = Some (sha256_spec (keep [0x58]))"
    by (rule sha256_file_spec) simp
  have str: "stream_loop ?os sample_mz 1 268435456 [] [0x58] = ([0x58], [], True)"
    by (rule sample_stream) (simp add: os)
  have mz: "mz_open sample_mz = (\<lambda>a. None)" "mz_iter_new sample_mz = (\<lambda>a k. Inr [0x58])"
    "mz_iter_read sample_mz [] 1 = ([], [])" "mz_iter_free sample_mz = (\<lambda>it. True)"
    by (simp_all add: sample_mz_def)
  have wr: "\<exists>res. write_output ?os sample_mz fs archive 0 1 268435456 sample_part sample_dest out = Some (?fs', res) \<and>
      r_success res \<and> r_bytes_written res = 1" for archive out
    by (simp add: write_output_def opened mz str os finish_output_def ren sha del: One_nat_def)
  have pr: "\<exists>res. produce_member ?os sample_mz fs sample_zip info 0 1 sample_dest 268435456 out = Some (?fs', res) \<and>
      r_success res \<and> r_bytes_written res = 1" for out
    using wr [of "drop 0 sample_zip" out] free mz
    by (auto simp: produce_member_def sample_paths Let_def I(12) split: status.splits)
  show ?thesis
    unfolding materialize_zip_member_def Let_def I(11)
    using pr by (simp add: I(1-10) sha256.one_shot_ref parents fold)
qed

theorem zip_materialize_preserves_witness:
  "\<exists>info fs' res. inspect_zip_container sample_init sample_zip ''in'' default_limits = Some info \<and>
    materialize_zip_member (sample_os (\<lambda>p. None) id) sample_mz sample_fs sample_zip info 0 [''out''] 0 u64_max =
      Some (fs', res) \<and> sample_fs \<subseteq>\<^sub>m fs'"
proof -
  obtain info where info: "inspect_zip_container sample_init sample_zip ''in'' default_limits = Some info"
    using sample_info_exists by (auto simp: sample_info_def)
  have "target_status_read (sample_os (\<lambda>p. None) id) [''out''] 0 (i_members info ! 0)"
    by (simp add: target_status_read_def sample_os_def)
  with zip_materialize_preserves [OF sample_zip_small info, of "sample_os (\<lambda>p. None) id" sample_mz sample_fs 0
      "[''out'']" 0 u64_max] info
  show ?thesis by blast
qed

theorem zip_materialize_success_witness:
  "\<exists>info fs' res. inspect_zip_container sample_init sample_zip ''in'' default_limits = Some info \<and>
    materialize_zip_member (sample_os (\<lambda>p. None) id) sample_mz sample_fs sample_zip info 0 [''out''] 0 u64_max =
      Some (fs', res) \<and>
    landed (sample_os (\<lambda>p. None) id) sample_mz (drop (i_archive_base_offset info) sample_zip) 0 sample_fs fs'
      [''out''] (member_parts (i_members info ! 0)) (i_members info ! 0) res"
proof -
  obtain info where s: "sample_info info" using sample_info_exists by blast
  then have info: "inspect_zip_container sample_init sample_zip ''in'' default_limits = Some info"
    by (simp add: sample_info_def)
  have fs: "sample_fs [''out''] = Some Dir" "sample_fs sample_part = None" "sample_fs sample_dest = None"
    by (simp_all add: sample_fs_def sample_part_def sample_dest_def)
  obtain fs' res where run: "materialize_zip_member (sample_os (\<lambda>p. None) id) sample_mz sample_fs sample_zip info 0
      [''out''] 0 u64_max = Some (fs', res)" "r_success res"
    using sample_run [OF s fs(1,2) refl, of "[]" id] fs(3) by auto
  have "target_status_read (sample_os (\<lambda>p. None) id) [''out''] 0 (i_members info ! 0)"
    by (simp add: target_status_read_def sample_os_def)
  from zip_materialize_success [OF sample_zip_small info this run] run(1) info
  show ?thesis by blast
qed

text \<open>The result of closing the output stream is not checked: when the tail of the data is lost at
  close (a full disk), the routine still reports a verified materialization of the declared size,
  although the file holds less.\<close>

lemma zip_materialize_unflushed:
  "\<exists>info fs' res. inspect_zip_container sample_init sample_zip ''in'' default_limits = Some info \<and>
    materialize_zip_member (sample_os (\<lambda>p. None) (\<lambda>b. [])) sample_mz sample_fs sample_zip info 0 [''out''] 0 u64_max =
      Some (fs', res) \<and> r_success res \<and> r_bytes_written res = 1 \<and> fs' sample_dest = Some (File [])"
proof -
  obtain info where s: "sample_info info" using sample_info_exists by blast
  have fs: "sample_fs [''out''] = Some Dir" "sample_fs sample_part = None" "sample_fs sample_dest = None"
    by (simp_all add: sample_fs_def sample_part_def sample_dest_def)
  from sample_run [OF s fs(1,2) refl, of "[]" "\<lambda>b. []"] fs(3) s show ?thesis
    by (auto simp: sample_info_def)
qed

definition sample_fault :: "names \<Rightarrow> string option" where
  "sample_fault p = (if p = sample_dest then Some ''Input/output error'' else None)"

text \<open>The protection against overwriting fails open: when the status of the destination cannot be
  read, the routine takes it for absent, and the final rename replaces the file that was there.\<close>

lemma zip_materialize_status_fault_overwrites:
  "\<exists>info fs' res. inspect_zip_container sample_init sample_zip ''in'' default_limits = Some info \<and>
    materialize_zip_member (sample_os sample_fault (\<lambda>b. b))
        sample_mz (sample_fs(sample_dest \<mapsto> File [1, 2, 3])) sample_zip info 0 [''out''] 0 u64_max =
      Some (fs', res) \<and> r_success res \<and> fs' sample_dest = Some (File [0x58])"
proof -
  obtain info where s: "sample_info info" using sample_info_exists by blast
  let ?fs = "sample_fs(sample_dest \<mapsto> File [1, 2, 3])"
  have fs: "?fs [''out''] = Some Dir" "?fs sample_part = None" "?fs sample_dest = Some (File [1, 2, 3])"
    by (simp_all add: sample_fs_def sample_part_def sample_dest_def)
  have "sample_fault [''out''] = None" "?fs sample_dest = None \<or> sample_fault sample_dest \<noteq> None \<and>
      ?fs sample_dest = Some (File [1, 2, 3])"
    using sample_paths by (simp_all add: sample_fault_def)
  from sample_run [where keep = "\<lambda>b. b", OF s fs(1,2) this] obtain res where
    "materialize_zip_member (sample_os sample_fault (\<lambda>b. b)) sample_mz ?fs sample_zip info 0 [''out''] 0 u64_max =
      Some (?fs(sample_dest \<mapsto> File [0x58]), res)" "r_success res"
    by (elim exE conjE)
  moreover have "inspect_zip_container sample_init sample_zip ''in'' default_limits = Some info"
    using s by (simp add: sample_info_def)
  ultimately show ?thesis by (intro exI conjI) (assumption | rule fun_upd_same)+
qed

end
