(* ===== verification/UnrealText.thy ===== *)
theory UnrealText
  imports Prelude StdPath
begin

section \<open>Checked arithmetic, readers and text of the Unreal recognizer\<close>

text \<open>
  Models the helpers at the top of \<^verbatim>\<open>src/extract/unreal.cpp\<close>: overflow-checked
  arithmetic, bounds-checked little-endian readers, the big-endian and short readers that walk a
  raw pointer, ASCII lowering, UTF-8 encoding and validation, and the \<^verbatim>\<open>FString\<close> parser. The
  shift-and-or readers are proved to be the little-endian value of the bytes, and every text the
  parser accepts is proved to be valid UTF-8 without a NUL.
\<close>

subsection \<open>Checked arithmetic and readers\<close>

definition checked_add :: "nat \<Rightarrow> nat \<Rightarrow> nat option" where
  "checked_add a b = (if u64_max - a < b then None else Some (wrap64 (a + b)))"

definition checked_mul :: "nat \<Rightarrow> nat \<Rightarrow> nat option" where
  "checked_mul a b = (if a \<noteq> 0 \<and> u64_max div a < b then None else Some (wrap64 (a * b)))"

text \<open>The shift-and-or loops over consecutive bytes.\<close>

definition shift_or :: "bytes \<Rightarrow> nat" where
  "shift_or bs = fold (\<lambda>i acc. acc OR push_bit (8 * i) (unat (bs ! i))) [0..<length bs] 0"

definition shift_or_be :: "bytes \<Rightarrow> nat" where
  "shift_or_be bs = fold (\<lambda>b acc. push_bit 8 acc OR unat b) bs 0"

text \<open>
  The bounds-checked readers answer \<open>None\<close> for \<^verbatim>\<open>false\<close>; the pointer readers are undefined
  outside the data.
\<close>

definition read_le32 :: "bytes \<Rightarrow> nat \<Rightarrow> nat option" where
  "read_le32 data off =
     (case checked_add off 4 of
        None \<Rightarrow> None
      | Some e \<Rightarrow>
          if length data < e then None
          else Some (or4 (data ! off) (data ! (off + 1)) (data ! (off + 2)) (data ! (off + 3))))"

definition read_le64 :: "bytes \<Rightarrow> nat \<Rightarrow> nat option" where
  "read_le64 data off =
     (case checked_add off 8 of
        None \<Rightarrow> None
      | Some e \<Rightarrow> if length data < e then None else Some (shift_or (take 8 (drop off data))))"

definition read_le_n :: "bytes \<Rightarrow> nat \<Rightarrow> nat \<Rightarrow> nat option" where
  "read_le_n data p n = map_option shift_or (subspan data p n)"

definition read_be5 :: "bytes \<Rightarrow> nat \<Rightarrow> nat option" where
  "read_be5 data p = map_option shift_or_be (subspan data p 5)"

definition ascii_lower :: "string \<Rightarrow> string" where
  "ascii_lower value =
     map (\<lambda>c. if 65 \<le> (of_char c :: nat) \<and> (of_char c :: nat) \<le> 90
              then char_of ((of_char c :: nat) - 65 + 97) else c) value"

definition has_extension :: "path \<Rightarrow> string \<Rightarrow> bool" where
  "has_extension input wanted \<longleftrightarrow> ascii_lower (extension input) = wanted"

definition all_zero :: "bytes \<Rightarrow> nat \<Rightarrow> nat \<Rightarrow> bool" where
  "all_zero data b e \<longleftrightarrow>
     (if length data < e \<or> e < b then False else list_all (\<lambda>x. x = 0) (take (e - b) (drop b data)))"

subsection \<open>UTF-8\<close>

definition utf8_bytes :: "u32 \<Rightarrow> bytes" where
  "utf8_bytes cp =
     (if cp \<le> 0x7f then [ucast cp]
      else if cp \<le> 0x7ff then
        [ucast (0xc0 OR drop_bit 6 cp), ucast (0x80 OR (cp AND 0x3f))]
      else if cp \<le> 0xffff then
        [ucast (0xe0 OR drop_bit 12 cp), ucast (0x80 OR (drop_bit 6 cp AND 0x3f)),
         ucast (0x80 OR (cp AND 0x3f))]
      else
        [ucast (0xf0 OR drop_bit 18 cp), ucast (0x80 OR (drop_bit 12 cp AND 0x3f)),
         ucast (0x80 OR (drop_bit 6 cp AND 0x3f)), ucast (0x80 OR (cp AND 0x3f))])"

text \<open>The class of a lead byte above 0x7f: trailing count and payload bits.\<close>

definition utf8_lead :: "byte \<Rightarrow> (nat \<times> u32) option" where
  "utf8_lead lead =
     (if lead AND 0xe0 = 0xc0 then Some (1, ucast (lead AND 0x1f))
      else if lead AND 0xf0 = 0xe0 then Some (2, ucast (lead AND 0x0f))
      else if lead AND 0xf8 = 0xf0 then Some (3, ucast (lead AND 0x07))
      else None)"

text \<open>Consuming the trailing bytes; \<open>None\<close> when one of them is not a continuation byte.\<close>

fun utf8_trail :: "nat \<Rightarrow> u32 \<Rightarrow> bytes \<Rightarrow> (u32 \<times> bytes) option" where
  "utf8_trail 0 cp rest = Some (cp, rest)"
| "utf8_trail (Suc n) cp [] = None"
| "utf8_trail (Suc n) cp (b # rest) =
     (if b AND 0xc0 \<noteq> 0x80 then None else utf8_trail n (push_bit 6 cp OR ucast (b AND 0x3f)) rest)"

lemma utf8_trail_length: "utf8_trail n cp bs = Some (cp', rest) \<Longrightarrow> length rest + n = length bs"
  by (induction n cp bs rule: utf8_trail.induct) (auto split: if_splits)

function valid_utf8 :: "bytes \<Rightarrow> bool" where
  "valid_utf8 [] = True"
| "valid_utf8 (lead # rest) =
     (if lead \<le> 0x7f then valid_utf8 rest
      else case utf8_lead lead of
        None \<Rightarrow> False
      | Some (trailing, cp0) \<Rightarrow>
          if length rest < trailing then False
          else case utf8_trail trailing cp0 rest of
            None \<Rightarrow> False
          | Some (cp, rest') \<Rightarrow>
              if (trailing = 1 \<and> cp < 0x80) \<or> (trailing = 2 \<and> cp < 0x800) \<or>
                 (trailing = 3 \<and> cp < 0x10000) \<or> 0x10ffff < cp \<or> (0xd800 \<le> cp \<and> cp \<le> 0xdfff)
              then False else valid_utf8 rest')"
  by pat_completeness auto
termination
  by (relation "measure length") (auto dest: utf8_trail_length)

subsection \<open>The string parser\<close>

datatype fstring_error =
    LengthTruncated | ExceedsByteBudget | MountTruncated | LacksNul | NotCanonical
  | InvalidUtf16Length | ExceedsUnitBudget | Utf16Truncated | Utf16LacksNul | EmbeddedNul
  | TruncatedSurrogate | InvalidSurrogate | UnpairedSurrogate

primrec fstring_error_text :: "fstring_error \<Rightarrow> string" where
  "fstring_error_text LengthTruncated = ''Pak index mount point length is truncated''"
| "fstring_error_text ExceedsByteBudget = ''Pak index mount point exceeds the 4096-byte string budget''"
| "fstring_error_text MountTruncated = ''Pak index mount point is truncated''"
| "fstring_error_text LacksNul = ''Pak index mount point lacks its terminal NUL''"
| "fstring_error_text NotCanonical = ''Pak index mount point is not a canonical UTF-8 FString''"
| "fstring_error_text InvalidUtf16Length = ''Pak index mount point has an invalid UTF-16 length''"
| "fstring_error_text ExceedsUnitBudget = ''Pak index mount point exceeds the 2048-unit UTF-16 budget''"
| "fstring_error_text Utf16Truncated = ''Pak UTF-16 mount point is truncated''"
| "fstring_error_text Utf16LacksNul = ''Pak UTF-16 mount point lacks its terminal NUL''"
| "fstring_error_text EmbeddedNul = ''Pak UTF-16 mount point contains an embedded NUL''"
| "fstring_error_text TruncatedSurrogate = ''Pak UTF-16 mount point has a truncated surrogate pair''"
| "fstring_error_text InvalidSurrogate = ''Pak UTF-16 mount point has an invalid surrogate pair''"
| "fstring_error_text UnpairedSurrogate = ''Pak UTF-16 mount point has an unpaired low surrogate''"

text \<open>The lambda that reads one UTF-16 unit.\<close>

definition unit_at :: "bytes \<Rightarrow> nat \<Rightarrow> nat \<Rightarrow> u32 option" where
  "unit_at data cursor u =
     (case (at data (cursor + u * 2), at data (cursor + u * 2 + 1)) of
        (Some a, Some b) \<Rightarrow> Some (ucast a OR push_bit 8 (ucast b))
      | _ \<Rightarrow> None)"

text \<open>
  The decoding loop from unit \<open>i\<close>; a failing parse leaves the text decoded so far in the
  caller's variable, so the error carries it.
\<close>

function utf16_loop ::
  "bytes \<Rightarrow> nat \<Rightarrow> nat \<Rightarrow> nat \<Rightarrow> bytes \<Rightarrow> (fstring_error \<times> bytes, bytes) outcome" where
  "utf16_loop data cursor units i value =
     (if units \<le> i + 1 then pass value
      else step (access (unit_at data cursor i)) (\<lambda>cp.
        if cp = 0 then stop (EmbeddedNul, value)
        else if 0xd800 \<le> cp \<and> cp \<le> 0xdbff then
          if units \<le> i + 2 then stop (TruncatedSurrogate, value)
          else step (access (unit_at data cursor (i + 1))) (\<lambda>low.
            if low < 0xdc00 \<or> 0xdfff < low then stop (InvalidSurrogate, value)
            else utf16_loop data cursor units (i + 2)
                   (value @ utf8_bytes (0x10000 + push_bit 10 (cp - 0xd800) + (low - 0xdc00))))
        else if 0xdc00 \<le> cp \<and> cp \<le> 0xdfff then stop (UnpairedSurrogate, value)
        else utf16_loop data cursor units (i + 1) (value @ utf8_bytes cp)))"
  by pat_completeness auto
termination
  by (relation "measure (\<lambda>(data, cursor, units, i, value). units - i)") auto

declare utf16_loop.simps [simp del]

text \<open>The result is the text and the cursor after it.\<close>

definition parse_fstring ::
  "bytes \<Rightarrow> nat \<Rightarrow> bytes \<Rightarrow> (fstring_error \<times> bytes, bytes \<times> nat) outcome" where
  "parse_fstring data cursor0 value0 =
     (case read_le32 data cursor0 of
        None \<Rightarrow> stop (LengthTruncated, value0)
      | Some raw \<Rightarrow>
          let cursor = wrap64 (cursor0 + 4) in
          if raw = 0 then pass ([], cursor)
          else if raw < 0x80000000 then
            if 4096 < raw then stop (ExceedsByteBudget, value0)
            else (case checked_add cursor raw of
                    None \<Rightarrow> stop (MountTruncated, value0)
                  | Some e \<Rightarrow>
                      if length data < e then stop (MountTruncated, value0)
                      else step (access (at data (e - 1))) (\<lambda>z.
                        if z \<noteq> 0 then stop (LacksNul, value0)
                        else step (access (subspan data cursor (raw - 1))) (\<lambda>text.
                          if 0 \<in> set text \<or> \<not> valid_utf8 text then stop (NotCanonical, value0)
                          else pass (text, e))))
          else if raw = 0x80000000 then stop (InvalidUtf16Length, value0)
          else
            let units = 0x100000000 - raw in
            if 2048 < units then stop (ExceedsUnitBudget, value0)
            else (case checked_mul units 2 of
                    None \<Rightarrow> stop (ExceedsUnitBudget, value0)
                  | Some n \<Rightarrow>
                      (case checked_add cursor n of
                         None \<Rightarrow> stop (Utf16Truncated, value0)
                       | Some e \<Rightarrow>
                           if length data < e then stop (Utf16Truncated, value0)
                           else step (access (unit_at data cursor (units - 1))) (\<lambda>z.
                             if z \<noteq> 0 then stop (Utf16LacksNul, value0)
                             else step (utf16_loop data cursor units 0 []) (\<lambda>text. pass (text, e))))))"

subsection \<open>Lemmas: arithmetic and readers\<close>

lemma checked_add_iff: "a \<le> u64_max \<Longrightarrow> checked_add a b = Some c \<longleftrightarrow> a + b \<le> u64_max \<and> c = a + b"
  by (auto simp: checked_add_def)

lemma checked_add_eq: "a \<le> u64_max \<Longrightarrow> checked_add a b = (if a + b \<le> u64_max then Some (a + b) else None)"
  by (auto simp: checked_add_def)

lemma checked_mul_iff: "checked_mul a b = Some c \<longleftrightarrow> a * b \<le> u64_max \<and> c = a * b"
proof (cases "a = 0")
  case False
  then have "u64_max div a < b \<longleftrightarrow> u64_max < a * b"
    by (metis div_less_iff_less_mult gr_zeroI mult.commute)
  then show ?thesis using False by (auto simp: checked_mul_def)
qed (simp add: checked_mul_def)

lemma shift_or_value: "shift_or bs = le_value bs"
proof (induction bs rule: rev_induct)
  case (snoc b bs)
  have eq: "fold (\<lambda>i acc. acc OR push_bit (8 * i) (unat ((bs @ [b]) ! i))) [0..<length bs] 0 = shift_or bs"
    unfolding shift_or_def by (rule fold_cong) (auto simp: nth_append)
  have "shift_or (bs @ [b]) = shift_or bs OR push_bit (8 * length bs) (unat b)"
    unfolding shift_or_def using eq by (simp add: shift_or_def nth_append)
  also have "\<dots> = le_value bs + 2 ^ (8 * length bs) * unat b"
    using or_push_bit_nat [of "le_value bs" "8 * length bs"] le_value_less [of bs] snoc
    by (simp add: power_mult)
  finally show ?case by (simp add: le_value_append power_mult)
qed (simp add: shift_or_def)

lemma read_le32_iff:
  assumes "length data \<le> u64_max"
  shows "read_le32 data off = Some v \<longleftrightarrow> off + 4 \<le> length data \<and> v = le_value (take 4 (drop off data))"
proof (cases "off + 4 \<le> length data")
  case True
  then have "take 4 (drop off data) = [data ! off, data ! (off + 1), data ! (off + 2), data ! (off + 3)]"
    by (simp add: take_Suc_conv_app_nth numeral_eq_Suc)
  moreover have "checked_add off 4 = Some (off + 4)" using True assms by (simp add: checked_add_iff)
  ultimately show ?thesis using True by (auto simp: read_le32_def or4_le_value)
next
  case False
  have "\<not> e \<le> length data" if "checked_add off 4 = Some e" for e
  proof (cases "off \<le> u64_max")
    case True
    then show ?thesis using that False by (simp add: checked_add_iff)
  next
    case big: False
    then show ?thesis using that by (simp add: checked_add_def)
  qed
  then show ?thesis using False by (auto simp: read_le32_def split: option.splits)
qed

lemma read_le64_iff:
  assumes "length data \<le> u64_max"
  shows "read_le64 data off = Some v \<longleftrightarrow> off + 8 \<le> length data \<and> v = le_value (take 8 (drop off data))"
proof (cases "off \<le> u64_max")
  case True
  then show ?thesis using assms checked_add_eq [OF True, of 8]
    by (auto simp: read_le64_def shift_or_value)
next
  case False
  then show ?thesis using assms by (auto simp: read_le64_def checked_add_def)
qed

lemma read_le_n_iff:
  "read_le_n data p n = Some v \<longleftrightarrow> p + n \<le> length data \<and> v = le_value (take n (drop p data))"
  by (auto simp: read_le_n_def subspan_eq_Some_iff shift_or_value)

lemma read_be5_Some: "p + 5 \<le> length data \<Longrightarrow> read_be5 data p = Some (shift_or_be (take 5 (drop p data)))"
  by (simp add: read_be5_def subspan_Some)

lemma all_zero_iff: "all_zero data b e \<longleftrightarrow> b \<le> e \<and> e \<le> length data \<and> (\<forall>i. b \<le> i \<and> i < e \<longrightarrow> data ! i = 0)"
proof (cases "b \<le> e \<and> e \<le> length data")
  case True
  have "list_all (\<lambda>x. x = 0) (take (e - b) (drop b data)) \<longleftrightarrow> (\<forall>j < e - b. data ! (b + j) = 0)"
    using True by (auto simp: list_all_length)
  also have "\<dots> \<longleftrightarrow> (\<forall>i. b \<le> i \<and> i < e \<longrightarrow> data ! i = 0)"
    by (metis le_add_diff_inverse le_add1 less_diff_conv2 nat_add_left_cancel_less add.commute True)
  finally show ?thesis using True by (simp add: all_zero_def not_less)
qed (auto simp: all_zero_def)

subsection \<open>Lemmas: UTF-8\<close>

text \<open>Lead and continuation bytes carry their payload; there are few enough to check each.\<close>

definition words8 :: "u32 list" where
  "words8 = [0, 1, 2, 3, 4, 5, 6, 7]"

definition words16 :: "u32 list" where
  "words16 = [0, 1, 2, 3, 4, 5, 6, 7, 8, 9, 10, 11, 12, 13, 14, 15]"

definition words32 :: "u32 list" where
  "words32 = [0, 1, 2, 3, 4, 5, 6, 7, 8, 9, 10, 11, 12, 13, 14, 15, 16, 17, 18, 19, 20, 21, 22, 23, 24,
     25, 26, 27, 28, 29, 30, 31]"

definition words64 :: "u32 list" where
  "words64 = [0, 1, 2, 3, 4, 5, 6, 7, 8, 9, 10, 11, 12, 13, 14, 15, 16, 17, 18, 19, 20, 21, 22, 23, 24,
     25, 26, 27, 28, 29, 30, 31, 32, 33, 34, 35, 36, 37, 38, 39, 40, 41, 42, 43, 44, 45, 46,
     47, 48, 49, 50, 51, 52, 53, 54, 55, 56, 57, 58, 59, 60, 61, 62, 63]"

lemma words_upt: "words8 = map word_of_nat [0..<8]" "words16 = map word_of_nat [0..<16]"
  "words32 = map word_of_nat [0..<32]" "words64 = map word_of_nat [0..<64]"
  by (simp_all add: words8_def words16_def words32_def words64_def upt_conv_Cons)

lemma small_word:
  "unat w < 8 \<Longrightarrow> w \<in> set words8" "unat w < 16 \<Longrightarrow> w \<in> set words16"
  "unat w < 32 \<Longrightarrow> w \<in> set words32" "unat w < 64 \<Longrightarrow> w \<in> set words64"
  unfolding words_upt set_map by (rule image_eqI [of _ _ "unat w"]; simp)+

lemma utf8_lead_table:
  "list_all (\<lambda>w. utf8_lead (ucast (0xc0 OR w)) = Some (1, w)) words32"
  "list_all (\<lambda>w. utf8_lead (ucast (0xe0 OR w)) = Some (2, w)) words16"
  "list_all (\<lambda>w. utf8_lead (ucast (0xf0 OR w)) = Some (3, w)) words8"
  "list_all (\<lambda>w. \<not> (ucast (0xc0 OR w) :: byte) \<le> 0x7f) words32"
  "list_all (\<lambda>w. \<not> (ucast (0xe0 OR w) :: byte) \<le> 0x7f) words16"
  "list_all (\<lambda>w. \<not> (ucast (0xf0 OR w) :: byte) \<le> 0x7f) words8"
  by (simp_all add: words8_def words16_def words32_def utf8_lead_def)

lemma utf8_cont_table:
  "list_all (\<lambda>w. (ucast (0x80 OR w) :: byte) AND 0xc0 = 0x80) words64"
  "list_all (\<lambda>w. (ucast ((ucast (0x80 OR w) :: byte) AND 0x3f) :: u32) = w) words64"
  by (simp_all add: words64_def)

lemma utf8_lead_encoded:
  "unat (w :: u32) < 32 \<Longrightarrow> utf8_lead (ucast (0xc0 OR w)) = Some (1, w) \<and> \<not> (ucast (0xc0 OR w) :: byte) \<le> 0x7f"
  "unat w < 16 \<Longrightarrow> utf8_lead (ucast (0xe0 OR w)) = Some (2, w) \<and> \<not> (ucast (0xe0 OR w) :: byte) \<le> 0x7f"
  "unat w < 8 \<Longrightarrow> utf8_lead (ucast (0xf0 OR w)) = Some (3, w) \<and> \<not> (ucast (0xf0 OR w) :: byte) \<le> 0x7f"
  using utf8_lead_table small_word [of w]
  unfolding list_all_iff by blast+

lemma utf8_cont_encoded:
  "unat (w :: u32) < 64 \<Longrightarrow> (ucast (0x80 OR w) :: byte) AND 0xc0 = 0x80 \<and>
    (ucast ((ucast (0x80 OR w) :: byte) AND 0x3f) :: u32) = w"
  using utf8_cont_table small_word(4) [of w] unfolding list_all_iff by blast

lemma six_bits: "(cp :: u32) AND 0x3f = take_bit 6 cp"
  by (simp add: take_bit_eq_mask mask_eq_exp_minus_1)

lemma unat_six_bits: "unat (take_bit 6 (cp :: u32)) < 64"
  using take_bit_nat_less_exp [of 6 "unat cp"] by (simp add: unsigned_take_bit_eq)

lemma unat_drop: "unat (drop_bit n (cp :: u32)) = unat cp div 2 ^ n"
  using unsigned_less [of cp, where ?'a = nat]
  by (simp only: unsigned_drop_bit_eq) (simp add: drop_bit_eq_div take_bit_nat_eq_self)

lemma utf8_trail_cont:
  "unat (w :: u32) < 64 \<Longrightarrow>
    utf8_trail (Suc n) cp (ucast (0x80 OR w) # rest) = utf8_trail n (push_bit 6 cp OR w) rest"
  using utf8_cont_encoded [of w] by simp

lemma join_six: "push_bit 6 (drop_bit 6 cp) OR take_bit 6 cp = (cp :: u32)"
proof (rule bit_word_eqI)
  fix n assume "n < LENGTH(32)"
  then show "bit (push_bit 6 (drop_bit 6 cp) OR take_bit 6 cp) n = bit cp n"
    by (cases "n < 6") (simp_all add: bit_or_iff bit_push_bit_iff bit_drop_bit_eq bit_take_bit_iff)
qed

text \<open>A Unicode scalar value.\<close>

definition scalar :: "u32 \<Rightarrow> bool" where
  "scalar cp \<longleftrightarrow> cp \<le> 0x10ffff \<and> \<not> (0xd800 \<le> cp \<and> cp \<le> 0xdfff)"

definition wide_enough :: "nat \<Rightarrow> u32 \<Rightarrow> bool" where
  "wide_enough n cp \<longleftrightarrow> \<not> ((n = 1 \<and> cp < 0x80) \<or> (n = 2 \<and> cp < 0x800) \<or> (n = 3 \<and> cp < 0x10000))"

lemma valid_utf8_sequence:
  assumes "\<not> lead \<le> 0x7f" "utf8_lead lead = Some (n, cp0)" "utf8_trail n cp0 bs = Some (cp, rest)"
    and "wide_enough n cp" "scalar cp"
  shows "valid_utf8 (lead # bs) = valid_utf8 rest"
proof -
  have "\<not> length bs < n" using utf8_trail_length [OF assms(3)] by simp
  moreover have "\<not> ((n = 1 \<and> cp < 0x80) \<or> (n = 2 \<and> cp < 0x800) \<or> (n = 3 \<and> cp < 0x10000) \<or>
      0x10ffff < cp \<or> (0xd800 \<le> cp \<and> cp \<le> 0xdfff))"
    using assms(4,5) by (auto simp: wide_enough_def scalar_def)
  ultimately show ?thesis using assms(1-3) by (subst valid_utf8.simps(2)) (simp only: if_False option.case prod.case)
qed

lemma valid_utf8_append_scalar:
  assumes sc: "scalar cp"
  shows "valid_utf8 (utf8_bytes cp @ rest) = valid_utf8 rest"
proof -
  note nat = word_le_nat_alt word_less_nat_alt
  have six: "unat (take_bit 6 (x :: u32)) < 64" for x by (rule unat_six_bits)
  have ok: "\<not> 0x10ffff < cp" "\<not> (0xd800 \<le> cp \<and> cp \<le> 0xdfff)" using sc by (auto simp: scalar_def)
  consider "cp \<le> 0x7f" | "\<not> cp \<le> 0x7f" "cp \<le> 0x7ff" | "\<not> cp \<le> 0x7ff" "cp \<le> 0xffff" | "\<not> cp \<le> 0xffff"
    by blast
  then show ?thesis
  proof cases
    case 1
    then have "unat cp < 256" "unat cp \<le> 127" by (simp_all add: nat)
    then have "(ucast cp :: byte) \<le> 0x7f"
      by (simp add: nat unsigned_ucast_eq take_bit_nat_eq_self)
    then show ?thesis using 1 by (simp add: utf8_bytes_def)
  next
    case 2
    have "unat (drop_bit 6 cp) < 32" using 2(2) unfolding unat_drop by (simp add: nat)
    note lead = utf8_lead_encoded(1) [OF this]
    have "utf8_bytes cp = [ucast (0xc0 OR drop_bit 6 cp), ucast (0x80 OR take_bit 6 cp)]"
      using 2 by (simp add: utf8_bytes_def six_bits)
    moreover have "utf8_trail 1 (drop_bit 6 cp) (ucast (0x80 OR take_bit 6 cp) # rest) = Some (cp, rest)"
      using utf8_trail_cont [OF six, of 0 "drop_bit 6 cp"] join_six [of cp] by simp
    moreover have "wide_enough 1 cp" using 2(1) by (simp add: wide_enough_def nat)
    ultimately show ?thesis using valid_utf8_sequence lead sc by (metis append_Cons append_Nil)
  next
    case 3
    have cp: "\<not> cp \<le> 0x7f" using 3(1) by (simp add: nat)
    have "unat (drop_bit 12 cp) < 16" using 3(2) unfolding unat_drop by (simp add: nat)
    note lead = utf8_lead_encoded(2) [OF this]
    have "utf8_bytes cp = [ucast (0xe0 OR drop_bit 12 cp), ucast (0x80 OR take_bit 6 (drop_bit 6 cp)),
        ucast (0x80 OR take_bit 6 cp)]"
      using 3 cp by (simp add: utf8_bytes_def six_bits)
    moreover have "utf8_trail 2 (drop_bit 12 cp) (ucast (0x80 OR take_bit 6 (drop_bit 6 cp)) #
        ucast (0x80 OR take_bit 6 cp) # rest) = Some (cp, rest)"
      using utf8_trail_cont [OF six, of 1 "drop_bit 12 cp" "drop_bit 6 cp"] utf8_trail_cont [OF six, of 0 "drop_bit 6 cp"]
        join_six [of "drop_bit 6 cp"] join_six [of cp]
      by (simp add: numeral_2_eq_2)
    moreover have "wide_enough 2 cp" using 3(1) by (simp add: wide_enough_def nat)
    ultimately show ?thesis using valid_utf8_sequence lead sc by (metis append_Cons append_Nil)
  next
    case 4
    have cp: "\<not> cp \<le> 0x7f" "\<not> cp \<le> 0x7ff" using 4 by (simp_all add: nat)
    have "unat (drop_bit 18 cp) < 8" using ok(1) unfolding unat_drop by (simp add: nat)
    note lead = utf8_lead_encoded(3) [OF this]
    have "utf8_bytes cp = [ucast (0xf0 OR drop_bit 18 cp), ucast (0x80 OR take_bit 6 (drop_bit 12 cp)),
        ucast (0x80 OR take_bit 6 (drop_bit 6 cp)), ucast (0x80 OR take_bit 6 cp)]"
      using 4 cp by (simp add: utf8_bytes_def six_bits)
    moreover have "utf8_trail 3 (drop_bit 18 cp) (ucast (0x80 OR take_bit 6 (drop_bit 12 cp)) #
        ucast (0x80 OR take_bit 6 (drop_bit 6 cp)) # ucast (0x80 OR take_bit 6 cp) # rest) = Some (cp, rest)"
      using utf8_trail_cont [OF six, of 2 "drop_bit 18 cp" "drop_bit 12 cp"]
        utf8_trail_cont [OF six, of 1 "drop_bit 12 cp" "drop_bit 6 cp"] utf8_trail_cont [OF six, of 0 "drop_bit 6 cp"]
        join_six [of "drop_bit 12 cp"] join_six [of "drop_bit 6 cp"] join_six [of cp]
      by (simp add: numeral_3_eq_3 numeral_2_eq_2)
    moreover have "wide_enough 3 cp" using 4 by (simp add: wide_enough_def nat)
    ultimately show ?thesis using valid_utf8_sequence lead sc by (metis append_Cons append_Nil)
  qed
qed

subsection \<open>Lemmas: the string parser\<close>

lemma utf8_no_nul:
  assumes "scalar cp" "cp \<noteq> 0"
  shows "0 \<notin> set (utf8_bytes cp)"
proof
  assume z: "0 \<in> set (utf8_bytes cp)"
  have hi: "ucast (m OR (w :: u32)) \<noteq> (0 :: byte)" if "bit m 7" for m w
  proof
    assume "ucast (m OR w) = (0 :: byte)"
    then have "\<not> bit (ucast (m OR w) :: byte) 7" by simp
    then show False using that by (simp add: bit_ucast_iff bit_or_iff)
  qed
  have "bit (0xc0 :: u32) 7" "bit (0xe0 :: u32) 7" "bit (0xf0 :: u32) 7" "bit (0x80 :: u32) 7"
    by (simp_all add: bit_numeral_rec)
  note hi' = hi [OF this(1)] hi [OF this(2)] hi [OF this(3)] hi [OF this(4)]
  show False
  proof (cases "cp \<le> 0x7f")
    case True
    then have "unat cp < 256" by (simp add: word_le_nat_alt)
    then have "unat (ucast cp :: byte) = unat cp"
      by (simp add: unsigned_ucast_eq take_bit_nat_eq_self)
    moreover have "(ucast cp :: byte) = 0" using z True by (simp add: utf8_bytes_def)
    ultimately have "unat cp = 0" by simp
    then show False using assms(2) by (simp add: unat_eq_zero)
  next
    case False
    then show False using z hi' by (auto simp: utf8_bytes_def split: if_splits)
  qed
qed

lemma valid_utf8_append: "valid_utf8 xs \<Longrightarrow> valid_utf8 (xs @ ys) = valid_utf8 ys"
proof (induction xs rule: valid_utf8.induct)
  case (2 lead rest)
  have trail_app: "utf8_trail n cp (bs @ ys) = map_option (map_prod id (\<lambda>r. r @ ys)) (utf8_trail n cp bs)"
    if "n \<le> length bs" for n cp bs
    using that by (induction n cp bs rule: utf8_trail.induct) auto
  show ?case
  proof (cases "lead \<le> 0x7f")
    case True
    then show ?thesis using 2 by simp
  next
    case False
    then obtain n cp0 where lead: "utf8_lead lead = Some (n, cp0)" using "2.prems" by (auto split: option.splits)
    then have len: "n \<le> length rest" using "2.prems" False by (auto split: if_splits)
    then obtain cp rest' where tr: "utf8_trail n cp0 rest = Some (cp, rest')"
      using "2.prems" False lead by (auto split: option.splits)
    show ?thesis using 2 False lead len tr trail_app [OF len, of cp0] by (auto split: if_splits)
  qed
qed simp

lemma unit_at_Some:
  assumes "cursor + u * 2 + 2 \<le> length data"
  obtains cp where "unit_at data cursor u = Some cp" "unat cp < 65536"
proof -
  let ?a = "data ! (cursor + u * 2)" and ?b = "data ! (cursor + u * 2 + 1)"
  have "unat (ucast ?a OR push_bit 8 (ucast ?b) :: u32) = unat ?a OR push_bit 8 (unat ?b)"
  proof -
    have "unat ?b * 256 < 2 ^ 32" "unat ?a < 2 ^ 32" "unat ?b < 2 ^ 32"
      using unat_byte_less [of ?a] unat_byte_less [of ?b] by simp_all
    then show ?thesis
      by (simp only: unsigned_or_eq unsigned_push_bit_eq unsigned_ucast_eq)
        (simp add: push_bit_eq_mult take_bit_nat_eq_self)
  qed
  also have "\<dots> = unat ?a + 256 * unat ?b"
    using or_push_bit_nat [of "unat ?a" 8 "unat ?b"] unat_byte_less [of ?a] by simp
  also have "\<dots> < 65536" using unat_byte_le [of ?a] unat_byte_le [of ?b] by simp
  finally show ?thesis using that assms by (simp add: unit_at_def at_Some)
qed

lemma surrogate_scalar:
  assumes "0xd800 \<le> (cp :: u32)" "cp \<le> 0xdbff" "0xdc00 \<le> low" "low \<le> 0xdfff"
  defines "w \<equiv> 0x10000 + push_bit 10 (cp - 0xd800) + (low - 0xdc00)"
  shows "scalar w" "w \<noteq> 0"
proof -
  note nat = word_le_nat_alt word_less_nat_alt
  have b: "unat cp \<ge> 55296" "unat cp \<le> 56319" "unat low \<ge> 56320" "unat low \<le> 57343"
    using assms(1-4) by (simp_all add: nat)
  have c: "unat (cp - 0xd800) = unat cp - 55296" "unat (low - 0xdc00) = unat low - 56320"
    using assms(1,3) by (simp_all add: unat_sub)
  define h l where "h = cp - 0xd800" and "l = low - 0xdc00"
  have hl: "unat h < 1024" "unat l < 1024" unfolding h_def l_def c using b by simp_all
  have p: "unat (push_bit 10 h) = unat h * 1024"
    unfolding unsigned_push_bit_eq using hl by (simp add: push_bit_eq_mult take_bit_nat_eq_self)
  have q: "unat (0x10000 + push_bit 10 h) = 65536 + unat h * 1024"
    using hl p by (simp only: unat_word_ariths) simp
  have "unat w = 65536 + unat h * 1024 + unat l"
    unfolding w_def h_def [symmetric] l_def [symmetric] using hl q by (simp only: unat_word_ariths(1)) simp
  then have "unat w \<ge> 65536" "unat w \<le> 1114111" using hl by simp_all
  then show "scalar w" "w \<noteq> 0" by (auto simp: scalar_def nat)
qed

definition clean_text :: "bytes \<Rightarrow> bool" where
  "clean_text t \<longleftrightarrow> valid_utf8 t \<and> 0 \<notin> set t"

lemma clean_text_append: "clean_text t \<Longrightarrow> scalar cp \<Longrightarrow> cp \<noteq> 0 \<Longrightarrow> clean_text (t @ utf8_bytes cp)"
  using valid_utf8_append [of t "utf8_bytes cp"] valid_utf8_append_scalar [of cp "[]"] utf8_no_nul
  by (simp add: clean_text_def)

lemma utf16_loop_post:
  "cursor + units * 2 \<le> length data \<Longrightarrow> clean_text value \<Longrightarrow>
    defined (utf16_loop data cursor units i value) \<and>
    (\<forall>text. utf16_loop data cursor units i value = pass text \<longrightarrow> clean_text text)"
proof (induction data cursor units i "value" rule: utf16_loop.induct)
  case (1 data cursor units i "value")
  show ?case
  proof (cases "units \<le> i + 1")
    case True
    then show ?thesis using 1 by (subst (1 2) utf16_loop.simps) simp
  next
    case False
    have "cursor + i * 2 + 2 \<le> length data" using "1.prems"(1) False by linarith
    then obtain cp where cp: "unit_at data cursor i = Some cp" "unat cp < 65536" by (rule unit_at_Some)
    note IH1 = "1.IH"(2) [OF False] and IH2 = "1.IH"(1) [OF False]
    consider "cp = 0" | "cp \<noteq> 0" "0xd800 \<le> cp \<and> cp \<le> 0xdbff"
      | "cp \<noteq> 0" "\<not> (0xd800 \<le> cp \<and> cp \<le> 0xdbff)" "0xdc00 \<le> cp \<and> cp \<le> 0xdfff"
      | "cp \<noteq> 0" "\<not> (0xd800 \<le> cp \<and> cp \<le> 0xdbff)" "\<not> (0xdc00 \<le> cp \<and> cp \<le> 0xdfff)"
      by blast
    then show ?thesis
    proof cases
      case 1
      then show ?thesis using False cp by (subst (1 2) utf16_loop.simps) simp
    next
      case 2
      show ?thesis
      proof (cases "units \<le> i + 2")
        case True
        then show ?thesis using False cp 2 by (subst (1 2) utf16_loop.simps) simp
      next
        case more: False
        have "cursor + (i + 1) * 2 + 2 \<le> length data" using "1.prems"(1) more by (simp; linarith)
        then obtain low where low: "unit_at data cursor (i + 1) = Some low" "unat low < 65536" by (rule unit_at_Some)
        show ?thesis
        proof (cases "low < 0xdc00 \<or> 0xdfff < low")
          case True
          then show ?thesis using False cp 2 more low by (subst (1 2) utf16_loop.simps) simp
        next
          case ok: False
          let ?w = "0x10000 + push_bit 10 (cp - 0xd800) + (low - 0xdc00)"
          have eq: "utf16_loop data cursor units i value = utf16_loop data cursor units (i + 2) (value @ utf8_bytes ?w)"
            using False cp 2 more low ok by (subst utf16_loop.simps) simp
          have "clean_text (value @ utf8_bytes ?w)"
            using surrogate_scalar [of cp low] 2(2) ok clean_text_append [OF "1.prems"(2)] by (simp add: not_less)
          then show ?thesis unfolding eq using IH2 2 more ok "1.prems"(1) by blast
        qed
      qed
    next
      case 3
      then have "utf16_loop data cursor units i value = stop (UnpairedSurrogate, value)"
        using False cp by (subst utf16_loop.simps) auto
      then show ?thesis by simp
    next
      case 4
      have eq: "utf16_loop data cursor units i value = utf16_loop data cursor units (i + 1) (value @ utf8_bytes cp)"
        using False cp 4 by (subst utf16_loop.simps) auto
      have "scalar cp" using cp(2) 4 by (auto simp: scalar_def word_le_nat_alt)
      then have "clean_text (value @ utf8_bytes cp)" using 4(1) clean_text_append [OF "1.prems"(2)] by simp
      then show ?thesis unfolding eq using IH1 4 "1.prems"(1) by blast
    qed
  qed
qed

lemma le4_less: "le_value (take 4 (drop off data)) < 4294967296"
proof -
  have "le_value (take 4 (drop off data)) < 256 ^ length (take 4 (drop off data))" by (rule le_value_less)
  also have "\<dots> \<le> 256 ^ 4" by (rule power_increasing) simp_all
  finally show ?thesis by simp
qed

lemma clean_text_Nil: "clean_text []"
  by (simp add: clean_text_def)

text \<open>
  Parsing a string is memory safe; a parsed text is clean and the cursor moves forward inside the
  data.
\<close>

lemma parse_fstring_post:
  assumes small: "length data \<le> u64_max"
  shows "defined (parse_fstring data cursor value0) \<and>
    (\<forall>text e. parse_fstring data cursor value0 = pass (text, e) \<longrightarrow>
       clean_text text \<and> cursor + 4 \<le> e \<and> e \<le> length data)"
proof (cases "read_le32 data cursor")
  case None
  then show ?thesis by (simp add: parse_fstring_def)
next
  case (Some raw)
  then have cur: "cursor + 4 \<le> length data" and raw: "raw < 4294967296"
    using le4_less by (auto simp: read_le32_iff [OF small])
  have w: "wrap64 (cursor + 4) = cursor + 4" using cur small by simp
  have add: "checked_add (cursor + 4) n = (if cursor + 4 + n \<le> u64_max then Some (cursor + 4 + n) else None)" for n
    using cur small by (intro checked_add_eq) simp
  consider "raw = 0" | "0 < raw" "raw < 0x80000000" | "raw = 0x80000000" | "0x80000000 < raw" by linarith
  then show ?thesis
  proof cases
    case 1
    then show ?thesis using Some cur by (simp add: parse_fstring_def w clean_text_Nil)
  next
    case 2
    show ?thesis
    proof (cases "raw \<le> 4096 \<and> cursor + 4 + raw \<le> length data")
      case False
      then show ?thesis using Some 2 by (auto simp: parse_fstring_def w add Let_def)
    next
      case True
      let ?e = "cursor + 4 + raw"
      have z: "at data (?e - 1) = Some (data ! (?e - 1))" using True 2 by (simp add: at_Some)
      have "cursor + 4 + (raw - 1) \<le> length data" using True 2 by linarith
      then have t: "subspan data (cursor + 4) (raw - 1) = Some (take (raw - 1) (drop (cursor + 4) data))"
        by (rule subspan_Some)
      have "parse_fstring data cursor value0 =
          (if data ! (?e - 1) \<noteq> 0 then stop (LacksNul, value0)
           else if 0 \<in> set (take (raw - 1) (drop (cursor + 4) data)) \<or> \<not> valid_utf8 (take (raw - 1) (drop (cursor + 4) data))
           then stop (NotCanonical, value0) else pass (take (raw - 1) (drop (cursor + 4) data), ?e))"
        unfolding parse_fstring_def Some option.case Let_def w add
        using True 2 small z t by simp
      then show ?thesis using True by (simp add: clean_text_def)
    qed
  next
    case 3
    then show ?thesis using Some by (simp add: parse_fstring_def Let_def)
  next
    case 4
    let ?u = "0x100000000 - raw"
    have u: "0 < ?u" using raw by simp
    show ?thesis
    proof (cases "?u \<le> 2048 \<and> cursor + 4 + ?u * 2 \<le> length data")
      case False
      have "checked_mul ?u 2 = Some (?u * 2)" if "?u \<le> 2048"
        using that by (simp add: checked_mul_iff u64_max_def)
      then show ?thesis using Some 4 False by (auto simp: parse_fstring_def w add Let_def)
    next
      case True
      have mul: "checked_mul ?u 2 = Some (?u * 2)" using True by (simp add: checked_mul_iff u64_max_def)
      have "cursor + 4 + (?u - 1) * 2 + 2 \<le> length data" using True u by linarith
      then obtain z where z: "unit_at data (cursor + 4) (?u - 1) = Some z" by (rule unit_at_Some)
      note loop = utf16_loop_post [of "cursor + 4" ?u data "[]" 0, OF _ clean_text_Nil]
      have "parse_fstring data cursor value0 =
          (if z \<noteq> 0 then stop (Utf16LacksNul, value0)
           else step (utf16_loop data (cursor + 4) ?u 0 []) (\<lambda>text. pass (text, cursor + 4 + ?u * 2)))"
        unfolding parse_fstring_def Some option.case Let_def w add mul
        using True 4 small z by simp
      then show ?thesis using True loop by (auto simp: step_eq_pass_iff)
    qed
  qed
qed

subsection \<open>Property\<close>

text \<open>Whatever text the string parser accepts, from UTF-8 or by decoding UTF-16 with surrogate
  pairs, is valid UTF-8 without an embedded NUL, the parser never reads outside its input, and the
  cursor it returns has moved forward and lies inside the input.\<close>

lemma fstring_text_valid:
  assumes "length data \<le> u64_max"
  shows "\<exists>r. parse_fstring data cursor value0 = Some r \<and>
    (case r of Inl _ \<Rightarrow> True
     | Inr (text, e) \<Rightarrow> valid_utf8 text \<and> 0 \<notin> set text \<and> cursor + 4 \<le> e \<and> e \<le> length data)"
proof -
  have post: "defined (parse_fstring data cursor value0) \<and>
    (\<forall>text e. parse_fstring data cursor value0 = pass (text, e) \<longrightarrow>
       clean_text text \<and> cursor + 4 \<le> e \<and> e \<le> length data)"
    by (rule parse_fstring_post [OF assms])
  then obtain r where r: "parse_fstring data cursor value0 = Some r" by (auto simp: defined_def)
  show ?thesis
  proof (cases r)
    case (Inl e)
    then show ?thesis using r by simp
  next
    case (Inr p)
    then show ?thesis using r post by (cases p) (auto simp: pass_def clean_text_def)
  qed
qed

text \<open>A surrogate pair: one astral character and the terminal NUL.\<close>

definition sample_utf16 :: bytes where
  "sample_utf16 = [0xfd, 0xff, 0xff, 0xff, 0x3d, 0xd8, 0x00, 0xde, 0, 0]"

lemma sample_utf16_parsed:
  "parse_fstring sample_utf16 0 [] = Some (Inr ([0xf0, 0x9f, 0x98, 0x80], 10))"
  by (simp add: parse_fstring_def sample_utf16_def read_le32_def checked_add_def u64_max_def wrap64_def or4_le_value
      checked_mul_def Let_def unit_at_def at_def utf16_loop.simps utf8_bytes_def pass_def [symmetric])

lemma fstring_text_valid_witness:
  "\<exists>r. parse_fstring sample_utf16 0 [] = Some r \<and>
    (case r of Inl _ \<Rightarrow> False | Inr (text, e) \<Rightarrow> valid_utf8 text \<and> 0 \<notin> set text \<and> e = 10)"
proof -
  have "length sample_utf16 \<le> u64_max" by (simp add: sample_utf16_def u64_max_def)
  from fstring_text_valid [OF this, of 0 "[]"] show ?thesis by (simp add: sample_utf16_parsed)
qed

end
