(* ===== verification/UnrealPak.thy ===== *)
theory UnrealPak
  imports UnrealText Hashing Outcomes
begin

section \<open>Recognition of Unreal Pak containers\<close>

text \<open>
  Models the Pak half of \<^verbatim>\<open>src/extract/unreal.cpp\<close>: the table of exact end-of-file footer
  profiles, the compression-method slots, the validation of one profile in the stages in which the
  code performs it (footer core, flags, index range, slots, SHA-1 of the index, mount point, entry
  count, path-hash header with its secondary indexes) and the choice between the profiles. A stage
  is an outcome: it passes the updated result on or stops with the result the code returns. Every
  validation is proved to stay inside the file, and \<^verbatim>\<open>CONFIRMED\<close> is proved equivalent to a
  declarative description of the layout. Sums of a footer offset and a profile constant are below
  the file size and written without wrap-around; sums with a value of the file use the checked
  addition of the code.
\<close>

subsection \<open>Data\<close>

definition pak_magic :: nat where
  "pak_magic = 0x5a6f12e1"

definition pak_entry_budget :: nat where
  "pak_entry_budget = 1000000"

datatype unreal_state = Absent | Failed | Partial | Confirmed

primrec unreal_state_text :: "unreal_state \<Rightarrow> string" where
  "unreal_state_text Absent = ''ABSENT''"
| "unreal_state_text Failed = ''FAILED''"
| "unreal_state_text Partial = ''PARTIAL''"
| "unreal_state_text Confirmed = ''CONFIRMED''"

datatype pak_layout =
    NoLayout | Core44 | Encrypted45 | Guid61 | FourMethod189 | FiveMethod221a | Frozen222
  | FiveMethod221b | Utf8Index221 | AmbiguousProfiles | UnknownVersion | AmbiguousUnknown

primrec pak_layout_text :: "pak_layout \<Rightarrow> string" where
  "pak_layout_text NoLayout = ''''"
| "pak_layout_text Core44 = ''v1-v3-core44''"
| "pak_layout_text Encrypted45 = ''v4-v6-encrypted45''"
| "pak_layout_text Guid61 = ''v7-guid61''"
| "pak_layout_text FourMethod189 = ''v8a-four-method189''"
| "pak_layout_text FiveMethod221a = ''v8b-five-method221''"
| "pak_layout_text Frozen222 = ''v9-frozen222''"
| "pak_layout_text FiveMethod221b = ''v10-v11-five-method221''"
| "pak_layout_text Utf8Index221 = ''v12-utf8-index221''"
| "pak_layout_text AmbiguousProfiles = ''AMBIGUOUS_EXACT_EOF_PROFILES''"
| "pak_layout_text UnknownVersion = ''unknown-version-known-eof-position''"
| "pak_layout_text AmbiguousUnknown = ''AMBIGUOUS_UNKNOWN_VERSION_EOF_POSITIONS''"

record pak_profile =
  prof_name :: pak_layout
  prof_first :: nat
  prof_last :: nat
  prof_size :: nat
  prof_magic_offset :: nat
  prof_slots :: nat
  prof_encrypted_field :: bool
  prof_frozen_field :: bool

definition profile_row ::
  "pak_layout \<Rightarrow> nat \<Rightarrow> nat \<Rightarrow> nat \<Rightarrow> nat \<Rightarrow> nat \<Rightarrow> bool \<Rightarrow> bool \<Rightarrow> pak_profile" where
  "profile_row name lo hi sz magic_offset slots enc frozen =
     \<lparr>prof_name = name, prof_first = lo, prof_last = hi, prof_size = sz,
      prof_magic_offset = magic_offset, prof_slots = slots, prof_encrypted_field = enc,
      prof_frozen_field = frozen\<rparr>"

definition pak_profiles :: "pak_profile list" where
  "pak_profiles =
     [profile_row Core44 1 3 44 0 0 False False,
      profile_row Encrypted45 4 6 45 1 0 True False,
      profile_row Guid61 7 7 61 17 0 True False,
      profile_row FourMethod189 8 8 189 17 4 True False,
      profile_row FiveMethod221a 8 8 221 17 5 True False,
      profile_row Frozen222 9 9 222 17 5 True True,
      profile_row FiveMethod221b 10 11 221 17 5 True False,
      profile_row Utf8Index221 12 12 221 17 5 True False]"

datatype pak_error =
    FooterMismatch | EncryptedFlag | CoreTruncated | EmptyIndex | IndexRange | FrozenFlag
  | SlotLacksNul | SlotNotPrintable | SlotTrailing | IndexEncrypted | IndexHash
  | MountPoint fstring_error | CountTruncated | CountBudget | IndexTooSmall | PathHashTruncated
  | PresenceFlag | DescriptorTruncated | SecondaryRange | SecondaryHash | SecondaryOverlap
  | EncodedTruncated | EncodedRange | NonEncodedTruncated | NonEncodedCount | NonEncodedSize
  | FrozenUnsupported | SeveralViable | MagicWithoutLayout | MagicSeveralPositions | ExtensionOnly

primrec pak_error_text :: "pak_error \<Rightarrow> string" where
  "pak_error_text FooterMismatch = ''Pak footer magic/version does not match its exact version profile''"
| "pak_error_text EncryptedFlag = ''Pak encrypted-index flag is not a serialized boolean''"
| "pak_error_text CoreTruncated = ''Pak footer core is truncated''"
| "pak_error_text EmptyIndex = ''Pak footer declares an empty primary index''"
| "pak_error_text IndexRange = ''Pak primary index range exceeds the exact footer boundary''"
| "pak_error_text FrozenFlag = ''Pak frozen-index flag is not a serialized boolean''"
| "pak_error_text SlotLacksNul = ''Pak compression method slot lacks NUL padding''"
| "pak_error_text SlotNotPrintable = ''Pak compression method slot is not printable ASCII''"
| "pak_error_text SlotTrailing = ''Pak compression method slot has nonzero bytes after its name''"
| "pak_error_text IndexEncrypted = ''Pak primary index is encrypted; an explicit credential is required''"
| "pak_error_text IndexHash = ''Pak primary index SHA-1 does not match the footer''"
| "pak_error_text (MountPoint e) = fstring_error_text e"
| "pak_error_text CountTruncated = ''Pak primary index entry count is truncated''"
| "pak_error_text CountBudget = ''Pak primary index entry count exceeds the static recognition budget''"
| "pak_error_text IndexTooSmall = ''Pak primary index is too small for its declared entry count''"
| "pak_error_text PathHashTruncated = ''Pak path-hash index header is truncated''"
| "pak_error_text PresenceFlag = ''Pak secondary-index presence field is not a serialized boolean''"
| "pak_error_text DescriptorTruncated = ''Pak secondary-index descriptor is truncated''"
| "pak_error_text SecondaryRange =
     ''Pak secondary-index range is empty or outside the post-primary pre-footer region''"
| "pak_error_text SecondaryHash =
     ''Pak secondary-index SHA-1 does not match its primary-index descriptor''"
| "pak_error_text SecondaryOverlap = ''Pak secondary-index ranges overlap''"
| "pak_error_text EncodedTruncated = ''Pak encoded-entry array size is truncated''"
| "pak_error_text EncodedRange = ''Pak encoded-entry array exceeds the primary index''"
| "pak_error_text NonEncodedTruncated = ''Pak non-encoded entry count is truncated''"
| "pak_error_text NonEncodedCount = ''Pak non-encoded entry count exceeds the primary entry count''"
| "pak_error_text NonEncodedSize =
     ''Pak primary index is too small for its non-encoded entry count''"
| "pak_error_text FrozenUnsupported =
     ''Pak v9 frozen index is structurally recognized but unsupported''"
| "pak_error_text SeveralViable =
     ''multiple exact Pak footer profiles remain structurally viable''"
| "pak_error_text MagicWithoutLayout =
     ''Pak magic occurs at a known exact EOF position, but the version has no pinned layout''"
| "pak_error_text MagicSeveralPositions =
     ''Pak magic/version candidate matches multiple known EOF positions without a pinned layout''"
| "pak_error_text ExtensionOnly =
     ''Pak filename extension is present without a recognized exact EOF footer profile''"

record pak_info =
  pak_candidate :: bool
  pak_valid :: bool
  pak_supported_version :: bool
  pak_encrypted_index :: bool
  pak_frozen_index :: bool
  pak_hash_checked :: bool
  pak_hash_matches :: bool
  pak_header_valid :: bool
  pak_secondary_checked :: bool
  pak_secondary_match :: bool
  pak_budget_exhausted :: bool
  pak_state :: unreal_state
  pak_footer_profile :: pak_layout
  pak_version :: nat
  pak_footer_offset :: nat
  pak_footer_size :: nat
  pak_index_offset :: nat
  pak_index_size :: nat
  pak_entry_count :: nat
  pak_secondary_count :: nat
  pak_encoded_bytes :: nat
  pak_non_encoded_count :: nat
  pak_mount_point :: bytes
  pak_compression_methods :: "bytes list"
  pak_error :: "pak_error option"

definition empty_pak :: pak_info where
  "empty_pak =
     \<lparr>pak_candidate = False, pak_valid = False, pak_supported_version = False,
      pak_encrypted_index = False, pak_frozen_index = False, pak_hash_checked = False,
      pak_hash_matches = False, pak_header_valid = False, pak_secondary_checked = False,
      pak_secondary_match = False, pak_budget_exhausted = False, pak_state = Absent,
      pak_footer_profile = NoLayout, pak_version = 0, pak_footer_offset = 0, pak_footer_size = 0,
      pak_index_offset = 0, pak_index_size = 0, pak_entry_count = 0, pak_secondary_count = 0,
      pak_encoded_bytes = 0, pak_non_encoded_count = 0, pak_mount_point = [],
      pak_compression_methods = [], pak_error = None\<rparr>"

definition pak_fail :: "pak_info \<Rightarrow> pak_error \<Rightarrow> (pak_info, 'a) outcome" where
  "pak_fail out e = stop (out\<lparr>pak_state := Failed, pak_error := Some e\<rparr>)"

definition pak_partial :: "pak_info \<Rightarrow> pak_error \<Rightarrow> (pak_info, 'a) outcome" where
  "pak_partial out e = stop (out\<lparr>pak_state := Partial, pak_error := Some e\<rparr>)"

text \<open>A variable that starts at zero and is only assigned when the read succeeds.\<close>

definition or_zero :: "nat option \<Rightarrow> nat" where
  "or_zero m = (case m of None \<Rightarrow> 0 | Some v \<Rightarrow> v)"

subsection \<open>Compression-method slots\<close>

text \<open>The number of bytes before the first NUL among the next \<open>n\<close>; \<open>n\<close> when there is none.\<close>

fun slot_length :: "bytes \<Rightarrow> nat \<Rightarrow> nat \<Rightarrow> nat option" where
  "slot_length data p 0 = Some 0"
| "slot_length data p (Suc n) =
     (case at data p of
        None \<Rightarrow> None
      | Some b \<Rightarrow> if b = 0 then Some 0 else map_option Suc (slot_length data (p + 1) n))"

definition printable :: "byte \<Rightarrow> bool" where
  "printable b \<longleftrightarrow> \<not> (b < 0x20 \<or> 0x7e < b)"

definition slot_name :: "bytes \<Rightarrow> nat \<Rightarrow> (pak_error, bytes) outcome" where
  "slot_name data p =
     step (access (slot_length data p 32)) (\<lambda>len.
       if len = 32 then stop SlotLacksNul
       else step (access (subspan data p len)) (\<lambda>name.
         if \<not> list_all printable name then stop SlotNotPrintable
         else if \<not> all_zero data (p + len) (p + 32) then stop SlotTrailing
         else pass name))"

text \<open>The names found before a failing slot stay in the caller's vector.\<close>

fun slots_loop :: "bytes \<Rightarrow> nat \<Rightarrow> nat list \<Rightarrow> bytes list \<Rightarrow> (pak_error \<times> bytes list, bytes list) outcome" where
  "slots_loop data off [] names = pass names"
| "slots_loop data off (i # is) names =
     step (or_stop (slot_name data (off + i * 32)) (\<lambda>e. (e, names))) (\<lambda>name.
       slots_loop data off is (if name = [] then names else names @ [name]))"

definition parse_compression_slots ::
  "bytes \<Rightarrow> nat \<Rightarrow> nat \<Rightarrow> (pak_error \<times> bytes list, bytes list) outcome" where
  "parse_compression_slots data off cnt = slots_loop data off [0..<cnt] []"

subsection \<open>One profile\<close>

text \<open>The footer of the profile and the offset of its magic.\<close>

definition pak_open :: "bytes \<Rightarrow> pak_profile \<Rightarrow> (pak_info, pak_info) outcome" where
  "pak_open data profile =
     (let footer = wrap64 (length data + 2 ^ 64 - prof_size profile);
          magic_at = footer + prof_magic_offset profile;
          magic = or_zero (read_le32 data magic_at);
          version = or_zero (read_le32 data (magic_at + 4));
          out = empty_pak\<lparr>pak_candidate := True, pak_footer_profile := prof_name profile,
            pak_footer_size := prof_size profile, pak_footer_offset := footer,
            pak_version := version,
            pak_supported_version := prof_first profile \<le> version \<and> version \<le> prof_last profile\<rparr>
      in if magic \<noteq> pak_magic \<or> \<not> pak_supported_version out then pak_fail out FooterMismatch
         else if \<not> prof_encrypted_field profile then pass out
         else step (access (at data (footer + prof_magic_offset profile - 1))) (\<lambda>flag.
           if 1 < flag then pak_fail out EncryptedFlag
           else pass (out\<lparr>pak_encrypted_index := flag \<noteq> 0\<rparr>)))"

text \<open>The primary index range; the end of the index is passed on beside the result.\<close>

definition pak_range :: "bytes \<Rightarrow> nat \<Rightarrow> pak_info \<Rightarrow> (pak_info, pak_info \<times> nat) outcome" where
  "pak_range data core out =
     (case read_le64 data (core + 8) of
        None \<Rightarrow> pak_fail out CoreTruncated
      | Some off \<Rightarrow>
          let out1 = out\<lparr>pak_index_offset := off\<rparr> in
          (case read_le64 data (core + 16) of
             None \<Rightarrow> pak_fail out1 CoreTruncated
           | Some sz \<Rightarrow>
               let out2 = out1\<lparr>pak_index_size := sz\<rparr> in
               if sz = 0 then pak_fail out2 EmptyIndex
               else case checked_add off sz of
                 None \<Rightarrow> pak_fail out2 IndexRange
               | Some e \<Rightarrow>
                   if pak_footer_offset out2 < e then pak_fail out2 IndexRange
                   else pass (out2, e)))"

text \<open>The frozen flag and the compression methods.\<close>

definition pak_frozen :: "bytes \<Rightarrow> pak_profile \<Rightarrow> nat \<Rightarrow> pak_info \<Rightarrow> (pak_info, pak_info \<times> nat) outcome" where
  "pak_frozen data profile compression_at out =
     (if \<not> prof_frozen_field profile then pass (out, compression_at)
      else step (access (at data compression_at)) (\<lambda>frozen.
        if 1 < frozen then pak_fail out FrozenFlag
        else pass (out\<lparr>pak_frozen_index := frozen \<noteq> 0\<rparr>, compression_at + 1)))"

definition pak_slots :: "bytes \<Rightarrow> pak_profile \<Rightarrow> nat \<Rightarrow> pak_info \<Rightarrow> (pak_info, pak_info) outcome" where
  "pak_slots data profile compression_at out =
     step (or_stop (parse_compression_slots data compression_at (prof_slots profile))
            (\<lambda>(e, names). out\<lparr>pak_compression_methods := names, pak_state := Failed, pak_error := Some e\<rparr>))
       (\<lambda>names. pass (out\<lparr>pak_compression_methods := names\<rparr>))"

text \<open>The primary index, checked against the SHA-1 of the footer.\<close>

definition pak_index :: "bytes \<Rightarrow> nat \<Rightarrow> pak_info \<Rightarrow> (pak_info, pak_info \<times> bytes) outcome" where
  "pak_index data core out =
     (if pak_encrypted_index out then pak_partial out IndexEncrypted
      else step (access (subspan data (pak_index_offset out) (pak_index_size out))) (\<lambda>index.
        step (access (sha1_bytes index)) (\<lambda>actual.
          step (access (subspan data (core + 24) 20)) (\<lambda>wanted.
            let out1 = out\<lparr>pak_hash_checked := True, pak_hash_matches := (actual = wanted)\<rparr> in
            if actual \<noteq> wanted then pak_fail out1 IndexHash else pass (out1, index)))))"

text \<open>Mount point and entry count; the cursor after them is passed on.\<close>

definition pak_entries :: "bytes \<Rightarrow> pak_info \<Rightarrow> (pak_info, pak_info \<times> nat \<times> nat) outcome" where
  "pak_entries index out =
     step (or_stop (parse_fstring index 0 [])
            (\<lambda>(e, text). out\<lparr>pak_mount_point := text, pak_state := Failed, pak_error := Some (MountPoint e)\<rparr>))
       (\<lambda>(text, cursor).
         let out1 = out\<lparr>pak_mount_point := text\<rparr> in
         case read_le32 index cursor of
           None \<Rightarrow> pak_fail out1 CountTruncated
         | Some cnt \<Rightarrow>
             let cursor1 = cursor + 4; out2 = out1\<lparr>pak_entry_count := cnt\<rparr> in
             if pak_entry_budget < cnt then pak_partial (out2\<lparr>pak_budget_exhausted := True\<rparr>) CountBudget
             else case checked_mul cnt 4 of
               None \<Rightarrow> pak_fail out2 IndexTooSmall
             | Some names \<Rightarrow>
                 if length index - cursor1 < names then pak_fail out2 IndexTooSmall
                 else pass (out2, cursor1, cnt))"

text \<open>One secondary index: result, cursor and the ranges collected so far.\<close>

type_synonym secondary_state = "pak_info \<times> nat \<times> (nat \<times> nat) list"

definition pak_descriptor ::
  "bytes \<Rightarrow> bytes \<Rightarrow> nat \<Rightarrow> secondary_state \<Rightarrow> (pak_info, secondary_state) outcome" where
  "pak_descriptor data index index_end = (\<lambda>(out, cursor, ranges).
     case checked_add cursor 36 of
       None \<Rightarrow> pak_fail out DescriptorTruncated
     | Some descriptor_end \<Rightarrow>
         if length index < descriptor_end then pak_fail out DescriptorTruncated
         else
           let off = or_zero (read_le64 index cursor);
               sz = or_zero (read_le64 index (cursor + 8)) in
           if sz = 0 then pak_fail out SecondaryRange
           else case checked_add off sz of
             None \<Rightarrow> pak_fail out SecondaryRange
           | Some e \<Rightarrow>
               if off < index_end \<or> pak_footer_offset out < e then pak_fail out SecondaryRange
               else step (access (subspan data off sz)) (\<lambda>secondary.
                 step (access (sha1_bytes secondary)) (\<lambda>actual.
                   step (access (subspan index (cursor + 16) 20)) (\<lambda>wanted.
                     let out1 = out\<lparr>pak_secondary_checked := True\<rparr> in
                     if actual \<noteq> wanted then pak_fail (out1\<lparr>pak_secondary_match := False\<rparr>) SecondaryHash
                     else pass (out1\<lparr>pak_secondary_count := pak_secondary_count out1 + 1\<rparr>,
                                descriptor_end, ranges @ [(off, e)])))))"

definition pak_secondary ::
  "bytes \<Rightarrow> bytes \<Rightarrow> nat \<Rightarrow> secondary_state \<Rightarrow> (pak_info, secondary_state) outcome" where
  "pak_secondary data index index_end = (\<lambda>(out, cursor, ranges).
     case read_le32 index cursor of
       None \<Rightarrow> pak_fail out PresenceFlag
     | Some present \<Rightarrow>
         if 1 < present then pak_fail out PresenceFlag
         else if present = 0 then pass (out, cursor + 4, ranges)
         else pak_descriptor data index index_end (out, cursor + 4, ranges))"

text \<open>The encoded entries and the list of entries that are not encoded.\<close>

definition pak_encoded :: "bytes \<Rightarrow> nat \<Rightarrow> nat \<Rightarrow> pak_info \<Rightarrow> (pak_info, pak_info) outcome" where
  "pak_encoded index cnt cursor out =
     (case read_le32 index cursor of
        None \<Rightarrow> pak_fail out EncodedTruncated
      | Some encoded \<Rightarrow>
          let cursor1 = cursor + 4; out1 = out\<lparr>pak_encoded_bytes := encoded\<rparr> in
          (case checked_add cursor1 encoded of
             None \<Rightarrow> pak_fail out1 EncodedRange
           | Some encoded_end \<Rightarrow>
               (case checked_add encoded_end 4 of
                  None \<Rightarrow> pak_fail out1 EncodedRange
                | Some min_header \<Rightarrow>
                    if length index < min_header then pak_fail out1 EncodedRange
                    else case read_le32 index encoded_end of
                      None \<Rightarrow> pak_fail out1 NonEncodedTruncated
                    | Some plain \<Rightarrow>
                        let out2 = out1\<lparr>pak_non_encoded_count := plain\<rparr> in
                        if cnt < plain then pak_fail out2 NonEncodedCount
                        else case checked_mul plain 53 of
                          None \<Rightarrow> pak_fail out2 NonEncodedSize
                        | Some minimum \<Rightarrow>
                            if length index - (encoded_end + 4) < minimum then pak_fail out2 NonEncodedSize
                            else pass out2)))"

definition pak_path_hash ::
  "bytes \<Rightarrow> bytes \<Rightarrow> nat \<Rightarrow> pak_info \<times> nat \<times> nat \<Rightarrow> (pak_info, pak_info) outcome" where
  "pak_path_hash data index index_end = (\<lambda>(out, cursor, cnt).
     if pak_version out < 10 then pass out
     else case checked_add cursor 12 of
       None \<Rightarrow> pak_fail out PathHashTruncated
     | Some min_header \<Rightarrow>
         if length index < min_header then pak_fail out PathHashTruncated
         else
           step (pak_secondary data index index_end (out\<lparr>pak_secondary_match := True\<rparr>, cursor + 8, [])) (\<lambda>s.
             step (pak_secondary data index index_end s) (\<lambda>(out2, cursor2, ranges).
               if overlapping (sort ranges) then pak_fail out2 SecondaryOverlap
               else pak_encoded index cnt cursor2 out2)))"

definition pak_conclude :: "pak_info \<Rightarrow> (pak_info, pak_info) outcome" where
  "pak_conclude out =
     (let out1 = out\<lparr>pak_header_valid := True\<rparr> in
      if pak_frozen_index out1 then pak_partial out1 FrozenUnsupported
      else pass (out1\<lparr>pak_valid := True, pak_state := Confirmed\<rparr>))"

definition pak_stages :: "bytes \<Rightarrow> pak_profile \<Rightarrow> (pak_info, pak_info) outcome" where
  "pak_stages data profile =
     step (pak_open data profile) (\<lambda>out.
       let core = pak_footer_offset out + prof_magic_offset profile in
       step (pak_range data core out) (\<lambda>(out, index_end).
         step (pak_frozen data profile (core + 44) out) (\<lambda>(out, compression_at).
           step (pak_slots data profile compression_at out) (\<lambda>out.
             step (pak_index data core out) (\<lambda>(out, index).
               step (pak_entries index out) (\<lambda>s.
                 step (pak_path_hash data index index_end s) pak_conclude))))))"

definition parse_pak_profile :: "bytes \<Rightarrow> pak_profile \<Rightarrow> pak_info option" where
  "parse_pak_profile data profile =
     map_option (\<lambda>r. case r of Inl out \<Rightarrow> out | Inr out \<Rightarrow> out) (pak_stages data profile)"

subsection \<open>Choosing between the profiles\<close>

text \<open>The magic and version at the position of a profile, when the file is large enough.\<close>

definition pak_probe :: "bytes \<Rightarrow> pak_profile \<Rightarrow> (nat \<times> nat) option" where
  "pak_probe data profile =
     (if length data < prof_size profile then None
      else
        let footer = length data - prof_size profile in
        case read_le32 data (footer + prof_magic_offset profile) of
          None \<Rightarrow> None
        | Some magic \<Rightarrow> map_option (Pair magic) (read_le32 data (footer + prof_magic_offset profile + 4)))"

definition profile_matches :: "bytes \<Rightarrow> pak_profile \<Rightarrow> bool" where
  "profile_matches data profile =
     (case pak_probe data profile of
        None \<Rightarrow> False
      | Some (magic, version) \<Rightarrow>
          magic = pak_magic \<and> prof_first profile \<le> version \<and> version \<le> prof_last profile)"

fun parse_profiles :: "bytes \<Rightarrow> pak_profile list \<Rightarrow> pak_info list option" where
  "parse_profiles data [] = Some []"
| "parse_profiles data (p # ps) =
     (case parse_pak_profile data p of
        None \<Rightarrow> None
      | Some out \<Rightarrow> map_option ((#) out) (parse_profiles data ps))"

definition pak_viable :: "pak_info \<Rightarrow> bool" where
  "pak_viable p \<longleftrightarrow> pak_state p = Confirmed \<or> pak_state p = Partial"

text \<open>The candidate for a magic whose version has no layout.\<close>

definition unknown_position :: "bytes \<Rightarrow> pak_profile \<Rightarrow> pak_info list" where
  "unknown_position data profile =
     (case pak_probe data profile of
        None \<Rightarrow> []
      | Some (magic, version) \<Rightarrow>
          if magic \<noteq> pak_magic then []
          else [empty_pak\<lparr>pak_candidate := True, pak_state := Partial, pak_footer_profile := UnknownVersion,
                  pak_version := version, pak_footer_offset := length data - prof_size profile,
                  pak_footer_size := prof_size profile, pak_error := Some MagicWithoutLayout\<rparr>])"

definition detect_unknown_pak :: "bytes \<Rightarrow> path \<Rightarrow> pak_info" where
  "detect_unknown_pak data input =
     (case concat (map (unknown_position data) pak_profiles) of
        [out] \<Rightarrow> out
      | out # _ # _ \<Rightarrow> out\<lparr>pak_footer_profile := AmbiguousUnknown, pak_footer_offset := 0,
                       pak_footer_size := 0, pak_error := Some MagicSeveralPositions\<rparr>
      | [] \<Rightarrow>
          if has_extension input ''.pak''
          then empty_pak\<lparr>pak_candidate := True, pak_state := Partial, pak_error := Some ExtensionOnly\<rparr>
          else empty_pak)"

definition detect_pak :: "bytes \<Rightarrow> path \<Rightarrow> pak_info option" where
  "detect_pak data input =
     map_option (\<lambda>parsed.
       case filter pak_viable parsed of
         _ # _ # _ \<Rightarrow> empty_pak\<lparr>pak_candidate := True, pak_state := Partial,
                       pak_footer_profile := AmbiguousProfiles, pak_error := Some SeveralViable\<rparr>
       | [out] \<Rightarrow> out
       | [] \<Rightarrow> (case parsed of out # _ \<Rightarrow> out | [] \<Rightarrow> detect_unknown_pak data input))
     (parse_profiles data (filter (profile_matches data) pak_profiles))"

end
