(* ===== verification/UnrealRanges.thy ===== *)
theory UnrealRanges
  imports UnrealPak
begin

section \<open>The readers and name slots of the Unreal checks\<close>

text \<open>
  Shared by the Pak and IoStore developments: the readers as total functions of the file and the
  slot scan proved against the bytes of the slot.
\<close>

subsection \<open>Name slots\<close>

lemma read_le32_at:
  "length data \<le> u64_max \<Longrightarrow> read_le32 data off = (if off + 4 \<le> length data then Some (le_at data off 4) else None)"
  using read_le32_iff [of data off "le_at data off 4"] by (cases "read_le32 data off") (auto simp: read_le32_iff le_at_def)

lemma read_le64_at:
  "length data \<le> u64_max \<Longrightarrow> read_le64 data off = (if off + 8 \<le> length data then Some (le_at data off 8) else None)"
  using read_le64_iff [of data off "le_at data off 8"] by (cases "read_le64 data off") (auto simp: read_le64_iff le_at_def)

lemma or_zero_simps [simp]: "or_zero None = 0" "or_zero (Some v) = v"
  by (simp_all add: or_zero_def)

lemma slot_length_Some:
  "p + n \<le> length data \<Longrightarrow>
    \<exists>len. slot_length data p n = Some len \<and> len \<le> n \<and> (\<forall>i < len. data ! (p + i) \<noteq> 0) \<and>
      (len < n \<longrightarrow> data ! (p + len) = 0)"
proof (induction n arbitrary: p)
  case 0
  then show ?case by simp
next
  case (Suc n)
  then have b: "at data p = Some (data ! p)" by (simp add: at_Some)
  show ?case
  proof (cases "data ! p = 0")
    case True
    then show ?thesis using b by simp
  next
    case False
    obtain len where IH: "slot_length data (p + 1) n = Some len" "len \<le> n"
        "\<forall>i < len. data ! (p + 1 + i) \<noteq> 0" "len < n \<longrightarrow> data ! (p + 1 + len) = 0"
      using Suc.IH [of "p + 1"] Suc.prems by auto
    have "data ! (p + i) \<noteq> 0" if "i < Suc len" for i
      using that False IH(3) by (cases i) auto
    then show ?thesis using b False IH by auto
  qed
qed

text \<open>A slot of 32 bytes: printable characters, then zeros, at least one.\<close>

definition slot_ok :: "bytes \<Rightarrow> nat \<Rightarrow> bool" where
  "slot_ok data p \<longleftrightarrow>
     (\<exists>len < 32. (\<forall>i < len. printable (data ! (p + i))) \<and> (\<forall>i. len \<le> i \<and> i < 32 \<longrightarrow> data ! (p + i) = 0))"

lemma printable_nonzero: "printable b \<Longrightarrow> b \<noteq> 0"
  by (auto simp: printable_def)

lemma slot_scan_ok:
  assumes len: "len \<le> 32" "\<forall>i < len. data ! (p + i) \<noteq> 0" "len < 32 \<longrightarrow> data ! (p + len) = 0"
    and fit: "p + 32 \<le> length data"
  shows "len \<noteq> 32 \<and> list_all printable (take len (drop p data)) \<and> all_zero data (p + len) (p + 32) \<longleftrightarrow> slot_ok data p"
    (is "?scan \<longleftrightarrow> _")
proof
  have nth: "list_all printable (take len (drop p data)) \<longleftrightarrow> (\<forall>i < len. printable (data ! (p + i)))"
    using len(1) fit by (auto simp: list_all_length)
  have zero: "all_zero data (p + len) (p + 32) \<longleftrightarrow> (\<forall>i. len \<le> i \<and> i < 32 \<longrightarrow> data ! (p + i) = 0)"
  proof
    assume "all_zero data (p + len) (p + 32)"
    then show "\<forall>i. len \<le> i \<and> i < 32 \<longrightarrow> data ! (p + i) = 0" by (auto simp: all_zero_iff)
  next
    assume z: "\<forall>i. len \<le> i \<and> i < 32 \<longrightarrow> data ! (p + i) = 0"
    have "data ! i = 0" if "p + len \<le> i" "i < p + 32" for i
    proof -
      have "len \<le> i - p \<and> i - p < 32" "p + (i - p) = i" using that by linarith+
      then show ?thesis using z by metis
    qed
    then show "all_zero data (p + len) (p + 32)" using fit len(1) by (simp add: all_zero_iff)
  qed
  show "slot_ok data p" if ?scan using that len(1) nth zero unfolding slot_ok_def by (intro exI [of _ len]) auto
  assume "slot_ok data p"
  then obtain k where k: "k < 32" "\<forall>i < k. printable (data ! (p + i))" "\<forall>i. k \<le> i \<and> i < 32 \<longrightarrow> data ! (p + i) = 0"
    by (auto simp: slot_ok_def)
  have "len \<le> k" using len(2) k(1,3) by (metis not_le order_refl)
  moreover have "k \<le> len"
  proof (rule ccontr)
    assume "\<not> k \<le> len"
    then have lt: "len < k" by simp
    then have "printable (data ! (p + len))" using k(2) by blast
    moreover have "data ! (p + len) = 0" using len(3) lt k(1) by simp
    ultimately show False using printable_nonzero by blast
  qed
  ultimately show ?scan using k nth zero by simp
qed

lemma slot_name_pass:
  assumes "p + 32 \<le> length data"
  shows "(\<exists>name. slot_name data p = pass name) \<longleftrightarrow> slot_ok data p" and "defined (slot_name data p)"
proof -
  obtain len where len: "slot_length data p 32 = Some len" "len \<le> 32" "\<forall>i < len. data ! (p + i) \<noteq> 0"
      "len < 32 \<longrightarrow> data ! (p + len) = 0"
    using slot_length_Some [OF assms] by auto
  have sub: "subspan data p len = Some (take len (drop p data))" using len(2) assms by (simp add: subspan_Some)
  show "(\<exists>name. slot_name data p = pass name) \<longleftrightarrow> slot_ok data p"
    unfolding slot_scan_ok [OF len(2-4) assms, symmetric] by (simp add: slot_name_def len(1) sub)
  show "defined (slot_name data p)" by (simp add: slot_name_def len(1) sub)
qed

lemma slots_loop_pass:
  assumes "\<forall>i \<in> set is. off + i * 32 + 32 \<le> length data"
  shows "(\<exists>names. slots_loop data off is names0 = pass names) \<longleftrightarrow> (\<forall>i \<in> set is. slot_ok data (off + i * 32))"
    and "defined (slots_loop data off is names0)"
proof -
  have "((\<exists>names. slots_loop data off is names0 = pass names) \<longleftrightarrow> (\<forall>i \<in> set is. slot_ok data (off + i * 32))) \<and>
    defined (slots_loop data off is names0)"
    using assms
  proof (induction "is" arbitrary: names0)
    case (Cons i "is")
    then have fit: "off + i * 32 + 32 \<le> length data" by simp
    note one = slot_name_pass [OF fit]
    show ?case
    proof (cases "slot_ok data (off + i * 32)")
      case True
      then obtain name where name: "slot_name data (off + i * 32) = pass name" using one(1) by blast
      then have "or_stop (slot_name data (off + i * 32)) (\<lambda>e. (e, names0)) = pass name" by simp
      then show ?thesis using Cons True by simp
    next
      case False
      then have "\<not> (\<exists>name. slot_name data (off + i * 32) = pass name)" using one(1) by blast
      then show ?thesis using False one(2) by (auto simp: step_eq_pass_iff)
    qed
  qed simp
  then show "(\<exists>names. slots_loop data off is names0 = pass names) \<longleftrightarrow> (\<forall>i \<in> set is. slot_ok data (off + i * 32))"
    "defined (slots_loop data off is names0)" by simp_all
qed

end
