(* ===== verification/UnrealPakSafety.thy ===== *)
theory UnrealPakSafety
  imports UnrealRanges
begin

section \<open>Correctness of the Pak recognizer\<close>

text \<open>
  A declarative description of a valid Pak footer and index, and the proof that the staged
  validation decides it: every stage is shown to stay inside the file, to stop only with a result
  that is not valid, and to pass exactly when its part of the description holds.
\<close>

subsection \<open>The description\<close>

text \<open>
  One secondary-index entry of the primary index at \<open>c\<close>: absent, or present with a range between the
  primary index and the footer whose SHA-1 is the recorded one. \<open>c'\<close> is the position after it.
\<close>

definition secondary_spec :: "bytes \<Rightarrow> bytes \<Rightarrow> nat \<Rightarrow> nat \<Rightarrow> nat \<Rightarrow> nat \<Rightarrow> (nat \<times> nat) list \<Rightarrow> bool" where
  "secondary_spec data index lo footer c c' rs \<longleftrightarrow>
     c + 4 \<le> length index \<and>
     (le_at index c 4 = 0 \<and> c' = c + 4 \<and> rs = [] \<or>
      le_at index c 4 = 1 \<and> c' = c + 40 \<and> c' \<le> length index \<and>
      0 < le_at index (c + 12) 8 \<and> lo \<le> le_at index (c + 4) 8 \<and>
      le_at index (c + 4) 8 + le_at index (c + 12) 8 \<le> footer \<and>
      rs = [(le_at index (c + 4) 8, le_at index (c + 4) 8 + le_at index (c + 12) 8)] \<and>
      sha1_spec (take (le_at index (c + 12) 8) (drop (le_at index (c + 4) 8) data)) =
        take 20 (drop (c + 20) index))"

definition encoded_spec :: "bytes \<Rightarrow> nat \<Rightarrow> nat \<Rightarrow> bool" where
  "encoded_spec index n c \<longleftrightarrow>
     c + 4 \<le> length index \<and>
     (let e = c + 4 + le_at index c 4 in
      e + 4 \<le> length index \<and> le_at index e 4 \<le> n \<and>
      e + 4 + 53 * le_at index e 4 \<le> length index)"

definition path_hash_spec :: "bytes \<Rightarrow> bytes \<Rightarrow> nat \<Rightarrow> nat \<Rightarrow> nat \<Rightarrow> nat \<Rightarrow> bool" where
  "path_hash_spec data index lo footer c n \<longleftrightarrow>
     (\<exists>c1 r1 c2 r2.
        secondary_spec data index lo footer (c + 8) c1 r1 \<and> secondary_spec data index lo footer c1 c2 r2 \<and>
        sorted_wrt apart (r1 @ r2) \<and> encoded_spec index n c2)"

definition index_spec :: "bytes \<Rightarrow> bytes \<Rightarrow> nat \<Rightarrow> nat \<Rightarrow> nat \<Rightarrow> bool" where
  "index_spec data index lo footer version \<longleftrightarrow>
     (\<exists>text c. parse_fstring index 0 [] = pass (text, c) \<and> clean_text text \<and> c + 4 \<le> length index \<and>
        le_at index c 4 \<le> pak_entry_budget \<and> c + 4 + 4 * le_at index c 4 \<le> length index \<and>
        (version < 10 \<or> path_hash_spec data index lo footer (c + 4) (le_at index c 4)))"

definition pak_spec :: "bytes \<Rightarrow> pak_profile \<Rightarrow> bool" where
  "pak_spec data p \<longleftrightarrow>
     (let footer = length data - prof_size p; core = footer + prof_magic_offset p;
          version = le_at data (core + 4) 4; off = le_at data (core + 8) 8; sz = le_at data (core + 16) 8;
          index = take sz (drop off data)
      in le_at data core 4 = pak_magic \<and> prof_first p \<le> version \<and> version \<le> prof_last p \<and>
         (prof_encrypted_field p \<longrightarrow> data ! (core - 1) = 0) \<and>
         0 < sz \<and> off + sz \<le> footer \<and>
         (prof_frozen_field p \<longrightarrow> data ! (core + 44) = 0) \<and>
         (\<forall>i < prof_slots p. slot_ok data (core + 44 + (if prof_frozen_field p then 1 else 0) + i * 32)) \<and>
         sha1_spec index = take 20 (drop (core + 24) data) \<and>
         index_spec data index (off + sz) footer version)"

text \<open>A profile whose fields lie inside its footer, as all of the table do.\<close>

definition profile_fits :: "pak_profile \<Rightarrow> bool" where
  "profile_fits p \<longleftrightarrow>
     prof_magic_offset p + 44 + (if prof_frozen_field p then 1 else 0) + prof_slots p * 32 \<le> prof_size p \<and>
     (prof_encrypted_field p \<longrightarrow> 0 < prof_magic_offset p) \<and> prof_size p < 2 ^ 64"

lemma profiles_fit: "list_all profile_fits pak_profiles"
  by (simp add: pak_profiles_def profile_row_def profile_fits_def)

subsection \<open>The stages\<close>

text \<open>A stage that is defined and stops only with a refused result.\<close>

definition refused :: "pak_info \<Rightarrow> bool" where
  "refused out \<longleftrightarrow> \<not> pak_valid out \<and> (pak_state out = Failed \<or> pak_state out = Partial)"

abbreviation refusing :: "(pak_info, 'a) outcome \<Rightarrow> bool" where
  "refusing \<equiv> meets refused (\<lambda>_. True)"

lemma refused_simps [simp]:
  "meets refused P (pak_fail out e) \<longleftrightarrow> \<not> pak_valid out"
  "meets refused P (pak_partial out e) \<longleftrightarrow> \<not> pak_valid out"
  "pak_fail out e \<noteq> pass a" "pak_partial out e \<noteq> pass a"
  by (simp_all add: pak_fail_def pak_partial_def refused_def)

lemma sha1_bytes_spec: "sha1_bytes d = Some (sha1_spec d)"
  by (rule sha1.one_shot_ref)

text \<open>The descriptor of one secondary index, with its reads and bounds resolved.\<close>

lemma pak_secondary_eq:
  assumes small: "length data \<le> u64_max" "length index \<le> u64_max"
    and inside: "pak_footer_offset out \<le> length data"
  shows "pak_secondary data index lo (out, c, ranges) =
    (if length index < c + 4 \<or> 1 < le_at index c 4 then pak_fail out PresenceFlag
     else if le_at index c 4 = 0 then pass (out, c + 4, ranges)
     else if length index < c + 40 then pak_fail out DescriptorTruncated
     else let off = le_at index (c + 4) 8; sz = le_at index (c + 12) 8 in
       if sz = 0 \<or> off < lo \<or> pak_footer_offset out < off + sz then pak_fail out SecondaryRange
       else let out1 = out\<lparr>pak_secondary_checked := True\<rparr> in
         if sha1_spec (take sz (drop off data)) \<noteq> take 20 (drop (c + 20) index)
         then pak_fail (out1\<lparr>pak_secondary_match := False\<rparr>) SecondaryHash
         else pass (out1\<lparr>pak_secondary_count := pak_secondary_count out1 + 1\<rparr>, c + 40, ranges @ [(off, off + sz)]))"
proof (cases "length index < c + 40 \<or> 1 < le_at index c 4 \<or> le_at index c 4 = 0")
  case True
  have "checked_add (c + 4) 36 = (if c + 40 \<le> u64_max then Some (c + 40) else None)" if "c + 4 \<le> length index"
    using checked_add_eq [of "c + 4" 36] that small by simp
  then show ?thesis using True
    by (auto simp: pak_secondary_def pak_descriptor_def read_le32_at [OF small(2)])
next
  case False
  let ?off = "le_at index (c + 4) 8" and ?sz = "le_at index (c + 12) 8"
  have in40: "c + 40 \<le> length index" and one: "le_at index c 4 = 1" using False by simp_all
  have add: "checked_add (c + 4) 36 = Some (c + 40)" using checked_add_eq [of "c + 4" 36] in40 small by simp
  have reads: "read_le64 index (c + 4) = Some ?off" "read_le64 index (c + 4 + 8) = Some ?sz"
      "read_le64 index (12 + c) = Some ?sz"
    using in40 by (simp_all add: read_le64_at [OF small(2)] add.assoc add.commute)
  have range: "checked_add ?off ?sz = (if ?off + ?sz \<le> u64_max then Some (?off + ?sz) else None)"
    by (rule checked_add_eq [OF le_at_u64])
  have hash: "subspan index (c + 4 + 16) 20 = Some (take 20 (drop (c + 20) index))"
      "subspan index (20 + c) 20 = Some (take 20 (drop (c + 20) index))"
    using in40 by (simp_all add: subspan_Some add.assoc add.commute)
  have eq: "pak_secondary data index lo (out, c, ranges) = pak_descriptor data index lo (out, c + 4, ranges)"
    using in40 one by (simp add: pak_secondary_def read_le32_at [OF small(2)])
  show ?thesis
  proof (cases "?sz = 0 \<or> ?off < lo \<or> pak_footer_offset out < ?off + ?sz")
    case True
    have "\<not> ?off + ?sz \<le> u64_max \<Longrightarrow> pak_footer_offset out < ?off + ?sz" using inside small by linarith
    then show ?thesis using True in40 one
      unfolding eq by (auto simp: pak_descriptor_def add reads range Let_def)
  next
    case ok: False
    then have data: "subspan data ?off ?sz = Some (take ?sz (drop ?off data))" "?off + ?sz \<le> u64_max"
      using inside small by (simp_all add: subspan_Some)
    show ?thesis using ok in40 one data
      unfolding eq by (simp add: pak_descriptor_def add reads range hash sha1_bytes_spec Let_def)
  qed
qed

text \<open>The fields the later stages depend on.\<close>

definition pak_core :: "pak_info \<Rightarrow> bool \<times> nat \<times> nat \<times> bool \<times> bool \<times> nat \<times> nat" where
  "pak_core out = (pak_valid out, pak_footer_offset out, pak_version out, pak_encrypted_index out,
     pak_frozen_index out, pak_index_offset out, pak_index_size out)"

lemma pak_core_update [simp]:
  "pak_core (out\<lparr>pak_secondary_checked := b\<rparr>) = pak_core out"
  "pak_core (out\<lparr>pak_secondary_match := b\<rparr>) = pak_core out"
  "pak_core (out\<lparr>pak_secondary_count := n\<rparr>) = pak_core out"
  "pak_core (out\<lparr>pak_encoded_bytes := n\<rparr>) = pak_core out"
  "pak_core (out\<lparr>pak_non_encoded_count := n\<rparr>) = pak_core out"
  "pak_core (out\<lparr>pak_mount_point := t\<rparr>) = pak_core out"
  "pak_core (out\<lparr>pak_entry_count := n\<rparr>) = pak_core out"
  "pak_core (out\<lparr>pak_hash_checked := b\<rparr>) = pak_core out"
  "pak_core (out\<lparr>pak_hash_matches := b\<rparr>) = pak_core out"
  "pak_core (out\<lparr>pak_compression_methods := ms\<rparr>) = pak_core out"
  by (simp_all add: pak_core_def)

text \<open>
  Stage by stage: with condition \<open>C\<close> a stage passes with its result, without it the stage refuses.
\<close>

abbreviation decides :: "bool \<Rightarrow> ('a \<Rightarrow> bool) \<Rightarrow> (pak_info, 'a) outcome \<Rightarrow> bool" where
  "decides \<equiv> decides_by refused"

lemma decides_fail [simp]:
  "decides C P (pak_fail out e) \<longleftrightarrow> \<not> pak_valid out \<and> \<not> C"
  "decides C P (pak_partial out e) \<longleftrightarrow> \<not> pak_valid out \<and> \<not> C"
  by (auto simp: pak_fail_def pak_partial_def refused_def)

lemma secondary_stage:
  assumes "length data \<le> u64_max" "length index \<le> u64_max"
    and "pak_footer_offset out \<le> length data" and "\<not> pak_valid out"
  shows "decides (\<exists>c' rs. secondary_spec data index lo (pak_footer_offset out) c c' rs)
    (\<lambda>(out', c', ranges'). pak_core out' = pak_core out \<and>
      (\<exists>rs. ranges' = ranges @ rs \<and> secondary_spec data index lo (pak_footer_offset out) c c' rs))
    (pak_secondary data index lo (out, c, ranges))"
  unfolding pak_secondary_eq [OF assms(1-3)] secondary_spec_def using assms(4)
  by (auto simp: Let_def not_less)

lemma profile_room:
  assumes "profile_fits p" and "prof_size p \<le> n"
  shows "n - prof_size p + prof_magic_offset p + 44 + (if prof_frozen_field p then 1 else 0) + prof_slots p * 32 \<le> n"
    and "n - prof_size p + prof_magic_offset p + 44 \<le> n"
  using assms unfolding profile_fits_def by linarith+

lemma open_stage:
  assumes small: "length data \<le> u64_max" and fits: "profile_fits p" and big: "prof_size p \<le> length data"
  defines "F \<equiv> length data - prof_size p" and "core \<equiv> length data - prof_size p + prof_magic_offset p"
  shows "decides (le_at data core 4 = pak_magic \<and> prof_first p \<le> le_at data (core + 4) 4 \<and>
      le_at data (core + 4) 4 \<le> prof_last p \<and> (prof_encrypted_field p \<longrightarrow> data ! (core - 1) \<le> 1))
    (\<lambda>out. pak_core out =
      (False, F, le_at data (core + 4) 4, prof_encrypted_field p \<and> data ! (core - 1) \<noteq> 0, False, 0, 0))
    (pak_open data p)"
proof -
  have footer: "wrap64 (length data + 2 ^ 64 - prof_size p) = F"
    using small big fits by (simp add: F_def wrap64_def u64_max_def profile_fits_def mod_if)
  have core: "F + prof_magic_offset p = core" by (simp add: F_def core_def)
  have room: "core + 44 \<le> length data" unfolding core_def by (rule profile_room(2) [OF fits big])
  have reads: "read_le32 data core = Some (le_at data core 4)" "read_le32 data (core + 4) = Some (le_at data (core + 4) 4)"
    using room by (simp_all add: read_le32_at [OF small])
  have flag: "at data (core - 1) = Some (data ! (core - 1))" if "prof_encrypted_field p"
    using room that fits by (simp add: at_Some core_def profile_fits_def)
  show ?thesis
    unfolding pak_open_def footer Let_def core reads
    using flag by (auto simp: reads pak_core_def empty_pak_def not_less)
qed

lemma range_stage:
  assumes small: "length data \<le> u64_max" and room: "core + 24 \<le> length data"
    and inside: "F \<le> length data" and out: "pak_core out = (False, F, V, e, False, 0, 0)"
  defines "off \<equiv> le_at data (core + 8) 8" and "sz \<equiv> le_at data (core + 16) 8"
  shows "decides (0 < sz \<and> off + sz \<le> F)
    (\<lambda>(out', e'). pak_core out' = (False, F, V, e, False, off, sz) \<and> e' = off + sz) (pak_range data core out)"
proof -
  have reads: "read_le64 data (core + 8) = Some off" "read_le64 data (core + 16) = Some sz"
    using room by (simp_all add: read_le64_at [OF small] off_def sz_def)
  have add: "checked_add off sz = (if off + sz \<le> u64_max then Some (off + sz) else None)"
    unfolding off_def by (rule checked_add_eq [OF le_at_u64])
  have "off + sz \<le> F \<Longrightarrow> off + sz \<le> u64_max" using inside small by linarith
  then show ?thesis using out by (auto simp: pak_range_def reads add Let_def pak_core_def)
qed

lemma frozen_stage:
  assumes room: "prof_frozen_field p \<longrightarrow> at_c < length data" and out: "pak_core out = (False, F, V, e, False, off, sz)"
  shows "decides (prof_frozen_field p \<longrightarrow> data ! at_c \<le> 1)
    (\<lambda>(out', c'). pak_core out' = (False, F, V, e, prof_frozen_field p \<and> data ! at_c \<noteq> 0, off, sz) \<and>
      c' = at_c + (if prof_frozen_field p then 1 else 0)) (pak_frozen data p at_c out)"
  using assms by (auto simp: pak_frozen_def pak_core_def at_Some not_less)

lemma slots_stage:
  assumes room: "c + prof_slots p * 32 \<le> length data" and out: "pak_core out = k" "\<not> pak_valid out"
  shows "decides (\<forall>i < prof_slots p. slot_ok data (c + i * 32)) (\<lambda>out'. pak_core out' = k) (pak_slots data p c out)"
proof -
  have fit: "\<forall>i \<in> set [0..<prof_slots p]. c + i * 32 + 32 \<le> length data"
  proof
    fix i assume "i \<in> set [0..<prof_slots p]"
    then have "(i + 1) * 32 \<le> prof_slots p * 32" by (intro mult_le_mono1) auto
    then show "c + i * 32 + 32 \<le> length data" using room by simp
  qed
  note loop = slots_loop_pass [OF fit, of "[]"]
  show ?thesis
  proof (cases "\<forall>i < prof_slots p. slot_ok data (c + i * 32)")
    case True
    then obtain names where "slots_loop data c [0..<prof_slots p] [] = pass names" using loop(1) by auto
    then show ?thesis using True out by (simp add: pak_slots_def parse_compression_slots_def)
  next
    case False
    then have "\<not> (\<exists>names. slots_loop data c [0..<prof_slots p] [] = pass names)" using loop(1) by auto
    then obtain e where "slots_loop data c [0..<prof_slots p] [] = stop e"
      using loop(2) unfolding defined_def pass_def stop_def by (metis not_Some_eq sum.exhaust)
    then show ?thesis using False out by (cases e) (auto simp: pak_slots_def parse_compression_slots_def refused_def)
  qed
qed

lemma index_stage:
  assumes room: "core + 44 \<le> length data" and out: "pak_core out = (False, F, V, e, fr, off, sz)"
    and fit: "off + sz \<le> length data"
  shows "decides (\<not> e \<and> sha1_spec (take sz (drop off data)) = take 20 (drop (core + 24) data))
    (\<lambda>(out', index). pak_core out' = (False, F, V, e, fr, off, sz) \<and> index = take sz (drop off data))
    (pak_index data core out)"
proof -
  have "subspan data (core + 24) 20 = Some (take 20 (drop (core + 24) data))" using room by (simp add: subspan_Some)
  then show ?thesis using assms by (auto simp: pak_index_def sha1_bytes_spec subspan_Some pak_core_def Let_def)
qed

lemma conclude_stage:
  "pak_core out = (False, F, V, e, fr, off, sz) \<Longrightarrow>
    decides (\<not> fr) (\<lambda>out'. pak_valid out' \<and> pak_state out' = Confirmed \<and> pak_footer_offset out' = F \<and>
      pak_index_offset out' = off \<and> pak_index_size out' = sz) (pak_conclude out)"
  by (auto simp: pak_conclude_def pak_core_def Let_def)

subsection \<open>The primary index\<close>

lemma secondary_spec_unique:
  "secondary_spec data index lo F c c1 r1 \<Longrightarrow> secondary_spec data index lo F c c2 r2 \<Longrightarrow> c1 = c2 \<and> r1 = r2"
  by (auto simp: secondary_spec_def)

lemma secondary_spec_nonempty: "secondary_spec data index lo F c c' rs \<Longrightarrow> \<forall>r \<in> set rs. fst r < snd r"
  by (auto simp: secondary_spec_def)

lemma encoded_stage:
  assumes small: "length index \<le> u64_max" and out: "\<not> pak_valid out"
  shows "decides (encoded_spec index n c) (\<lambda>out'. pak_core out' = pak_core out) (pak_encoded index n c out)"
proof (cases "c + 4 \<le> length index")
  case False
  then show ?thesis using out by (simp add: pak_encoded_def encoded_spec_def read_le32_at [OF small])
next
  case True
  define v e where "v = le_at index c 4" and "e = c + 4 + v"
  have add: "checked_add (c + 4) v = (if e \<le> u64_max then Some e else None)"
    unfolding e_def using True small by (intro checked_add_eq) simp
  have add4: "e \<le> u64_max \<Longrightarrow> checked_add e 4 = (if e + 4 \<le> u64_max then Some (e + 4) else None)"
    by (rule checked_add_eq)
  show ?thesis
  proof (cases "e + 4 \<le> length index")
    case False
    then show ?thesis using True out small add add4
      by (auto simp: pak_encoded_def encoded_spec_def read_le32_at [OF small] Let_def v_def [symmetric] e_def [symmetric])
  next
    case fit: True
    have mul: "checked_mul (le_at index e 4) 53 = Some (le_at index e 4 * 53)"
      using le_at_u32 [of index e] by (simp add: checked_mul_iff u64_max_def)
    show ?thesis using True fit out small add add4 mul
      by (auto simp: pak_encoded_def encoded_spec_def read_le32_at [OF small] Let_def v_def [symmetric] e_def [symmetric])
  qed
qed

lemma path_hash_stage:
  assumes small: "length data \<le> u64_max" "length index \<le> u64_max" and cur: "cursor \<le> length index"
    and core: "pak_core out = (False, F, V, e, fr, off, sz)" and inside: "F \<le> length data"
  shows "decides (V < 10 \<or> path_hash_spec data index lo F cursor n) (\<lambda>out'. pak_core out' = pak_core out)
    (pak_path_hash data index lo (out, cursor, n))"
proof (cases "V < 10 \<or> length index < cursor + 12")
  case True
  have "checked_add cursor 12 = (if cursor + 12 \<le> u64_max then Some (cursor + 12) else None)"
    using cur small by (intro checked_add_eq) simp
  moreover have "\<not> path_hash_spec data index lo F cursor n" if "length index < cursor + 12"
    using that by (auto simp: path_hash_spec_def secondary_spec_def)
  ultimately show ?thesis using True core by (auto simp: pak_path_hash_def pak_core_def)
next
  case False
  then have add: "checked_add cursor 12 = Some (cursor + 12)" using small by (simp add: checked_add_iff)
  let ?out = "out\<lparr>pak_secondary_match := True\<rparr>"
  have out: "pak_footer_offset ?out = F" "\<not> pak_valid ?out" "pak_core ?out = pak_core out" "\<not> pak_version out < 10"
    using core False by (auto simp: pak_core_def)
  let ?rest = "\<lambda>(out2, cursor2, ranges). if overlapping (sort ranges) then pak_fail out2 SecondaryOverlap
      else pak_encoded index n cursor2 out2"
  have eq: "pak_path_hash data index lo (out, cursor, n) =
      step (pak_secondary data index lo (?out, cursor + 8, [])) (\<lambda>s. step (pak_secondary data index lo s) ?rest)"
    using False add out by (simp add: pak_path_hash_def)
  define S where "S = secondary_spec data index lo F"
  have first: "decides (\<exists>c' rs. S (cursor + 8) c' rs)
      (\<lambda>(out', c', rs'). pak_core out' = pak_core out \<and> S (cursor + 8) c' rs') (pak_secondary data index lo (?out, cursor + 8, []))"
    unfolding S_def using secondary_stage [OF small, of ?out lo "cursor + 8" "[]"] inside out by (auto elim!: meets_mono)
  have spec: "path_hash_spec data index lo F cursor n \<longleftrightarrow>
      (\<exists>c1 r1 c2 r2. S (cursor + 8) c1 r1 \<and> S c1 c2 r2 \<and> sorted_wrt apart (r1 @ r2) \<and> encoded_spec index n c2)"
    by (simp add: path_hash_spec_def S_def)
  have second: "decides (path_hash_spec data index lo F cursor n) (\<lambda>out'. pak_core out' = pak_core out)
      (step (pak_secondary data index lo (out1, c1, r1)) ?rest)"
    if S1: "S (cursor + 8) c1 r1" and c1: "pak_core out1 = pak_core out" for out1 c1 r1
  proof -
    have o1: "pak_footer_offset out1 = F" "\<not> pak_valid out1" using c1 core by (auto simp: pak_core_def)
    have spec1: "path_hash_spec data index lo F cursor n \<longleftrightarrow>
        (\<exists>c2 r2. S c1 c2 r2 \<and> sorted_wrt apart (r1 @ r2) \<and> encoded_spec index n c2)"
      unfolding spec using S1 secondary_spec_unique unfolding S_def by metis
    have last: "decides (path_hash_spec data index lo F cursor n) (\<lambda>out'. pak_core out' = pak_core out) (?rest (out2, c2, r1 @ r2))"
      if S2: "S c1 c2 r2" and c2: "pak_core out2 = pak_core out1" for out2 c2 r2
    proof -
      have o2: "\<not> pak_valid out2" using c2 c1 core by (auto simp: pak_core_def)
      have "path_hash_spec data index lo F cursor n \<longleftrightarrow> sorted_wrt apart (r1 @ r2) \<and> encoded_spec index n c2"
        unfolding spec1 using S2 secondary_spec_unique unfolding S_def by metis
      moreover have "overlapping (sort (r1 @ r2)) \<longleftrightarrow> \<not> sorted_wrt apart (r1 @ r2)"
        using S1 S2 secondary_spec_nonempty unfolding S_def by (intro overlapping_sort_iff) fastforce
      ultimately show ?thesis using encoded_stage [OF small(2) o2, of n c2] o2 c1 c2
        by (cases "overlapping (sort (r1 @ r2))") (auto elim!: meets_mono)
    qed
    show ?thesis
      unfolding meets_step
    proof (rule meets_mono [OF secondary_stage [OF small, of out1 lo c1 r1, unfolded o1]])
      show "F \<le> length data" by (rule inside)
    qed (use o1 last spec1 in \<open>auto simp: S_def\<close>)
  qed
  show ?thesis
    unfolding eq meets_step
    by (rule meets_mono [OF first]) (use False spec second in auto)
qed

definition entries_spec :: "bytes \<Rightarrow> bytes \<Rightarrow> nat \<Rightarrow> bool" where
  "entries_spec index text c \<longleftrightarrow>
     parse_fstring index 0 [] = pass (text, c) \<and> c + 4 \<le> length index \<and>
     le_at index c 4 \<le> pak_entry_budget \<and> c + 4 + 4 * le_at index c 4 \<le> length index"

lemma entries_spec_unique: "entries_spec index t1 c1 \<Longrightarrow> entries_spec index t2 c2 \<Longrightarrow> c1 = c2"
  by (simp add: entries_spec_def)

lemma entries_stage:
  assumes small: "length index \<le> u64_max" and out: "\<not> pak_valid out"
  shows "decides (\<exists>text c. entries_spec index text c)
    (\<lambda>(out', cursor, n). pak_core out' = pak_core out \<and>
      (\<exists>text c. entries_spec index text c \<and> cursor = c + 4 \<and> n = le_at index c 4)) (pak_entries index out)"
proof -
  have "defined (parse_fstring index 0 [])" using parse_fstring_post [OF small] by blast
  then consider e where "parse_fstring index 0 [] = stop e" | t c where "parse_fstring index 0 [] = pass (t, c)"
    unfolding defined_def pass_def stop_def by (metis not_Some_eq obj_sumE surj_pair)
  then show ?thesis
  proof cases
    case 1
    then show ?thesis using out by (cases e) (auto simp: pak_entries_def entries_spec_def refused_def)
  next
    case 2
    then have c: "c \<le> length index" using parse_fstring_post [OF small] by blast
    have mul: "checked_mul (le_at index c 4) 4 = Some (le_at index c 4 * 4)"
      using le_at_u32 [of index c] by (simp add: checked_mul_iff u64_max_def)
    show ?thesis using 2 out mul c
      by (auto simp: pak_entries_def entries_spec_def read_le32_at [OF small] Let_def)
  qed
qed

lemma index_spec_iff:
  assumes "length index \<le> u64_max"
  shows "index_spec data index lo F V \<longleftrightarrow>
    (\<exists>text c. entries_spec index text c \<and> (V < 10 \<or> path_hash_spec data index lo F (c + 4) (le_at index c 4)))"
  using parse_fstring_post [OF assms, of 0 "[]"] by (auto simp: index_spec_def entries_spec_def)

lemma header_stage:
  assumes small: "length data \<le> u64_max" "length index \<le> u64_max" and inside: "F \<le> length data"
    and core: "pak_core out = (False, F, V, e, fr, off, sz)"
  shows "decides (index_spec data index lo F V \<and> \<not> fr)
    (\<lambda>out'. pak_valid out' \<and> pak_state out' = Confirmed \<and> pak_footer_offset out' = F \<and>
      pak_index_offset out' = off \<and> pak_index_size out' = sz)
    (step (pak_entries index out) (\<lambda>s. step (pak_path_hash data index lo s) pak_conclude))"
proof -
  have fresh: "\<not> pak_valid out" using core by (simp add: pak_core_def)
  let ?goal = "\<lambda>out'. pak_valid out' \<and> pak_state out' = Confirmed \<and> pak_footer_offset out' = F \<and>
      pak_index_offset out' = off \<and> pak_index_size out' = sz"
  have next_stage: "decides (index_spec data index lo F V \<and> \<not> fr) ?goal
      (step (pak_path_hash data index lo (out1, c + 4, le_at index c 4)) pak_conclude)"
    if ent: "entries_spec index t c" and c1: "pak_core out1 = pak_core out" for out1 t c
  proof -
    have spec: "index_spec data index lo F V \<longleftrightarrow> V < 10 \<or> path_hash_spec data index lo F (c + 4) (le_at index c 4)"
      unfolding index_spec_iff [OF small(2)] using ent entries_spec_unique by metis
    have cur: "c + 4 \<le> length index" using ent by (simp add: entries_spec_def)
    have c1': "pak_core out1 = (False, F, V, e, fr, off, sz)" using c1 core by simp
    note ph = path_hash_stage [OF small cur c1' inside, where lo = lo and n = "le_at index c 4"]
    show ?thesis
      unfolding spec
      by (rule decides_step [OF ph], rule conclude_stage) (use c1' in simp)
  qed
  have "decides ((\<exists>text c. entries_spec index text c) \<and> index_spec data index lo F V \<and> \<not> fr) ?goal
    (step (pak_entries index out) (\<lambda>s. step (pak_path_hash data index lo s) pak_conclude))"
    by (rule decides_step [OF entries_stage [OF small(2) fresh]]) (use next_stage in auto)
  then show ?thesis by (auto simp: index_spec_iff [OF small(2)] elim!: meets_mono)
qed

subsection \<open>A profile\<close>

lemma byte_flag: "(b :: byte) \<le> 1 \<and> \<not> (b \<noteq> 0) \<longleftrightarrow> b = 0"
  by auto

lemma stages_decide:
  assumes small: "length data \<le> u64_max" and fits: "profile_fits p" and big: "prof_size p \<le> length data"
  defines "F \<equiv> length data - prof_size p" and "core \<equiv> length data - prof_size p + prof_magic_offset p"
  defines "off \<equiv> le_at data (core + 8) 8" and "sz \<equiv> le_at data (core + 16) 8"
  shows "decides (pak_spec data p) (\<lambda>out'. pak_valid out' \<and> pak_state out' = Confirmed \<and>
      pak_footer_offset out' = F \<and> pak_index_offset out' = off \<and> pak_index_size out' = sz) (pak_stages data p)"
proof -
  let ?V = "le_at data (core + 4) 4" and ?e = "prof_encrypted_field p \<and> data ! (core - 1) \<noteq> 0"
    and ?fr = "prof_frozen_field p \<and> data ! (core + 44) \<noteq> 0" and ?x = "if prof_frozen_field p then 1 else 0 :: nat"
    and ?index = "take sz (drop off data)"
  let ?goal = "\<lambda>out'. pak_valid out' \<and> pak_state out' = Confirmed \<and> pak_footer_offset out' = F \<and>
      pak_index_offset out' = off \<and> pak_index_size out' = sz"
  let ?C1 = "le_at data core 4 = pak_magic \<and> prof_first p \<le> ?V \<and> ?V \<le> prof_last p \<and>
      (prof_encrypted_field p \<longrightarrow> data ! (core - 1) \<le> 1)"
  let ?C3 = "prof_frozen_field p \<longrightarrow> data ! (core + 44) \<le> 1"
    and ?C4 = "\<forall>i < prof_slots p. slot_ok data (core + 44 + ?x + i * 32)"
    and ?C5 = "\<not> ?e \<and> sha1_spec ?index = take 20 (drop (core + 24) data)"
    and ?C6 = "index_spec data ?index (off + sz) F ?V \<and> \<not> ?fr"
  have room: "core + 44 + ?x + prof_slots p * 32 \<le> length data" "core + 44 \<le> length data" "core + 24 \<le> length data"
    using profile_room [OF fits big] by (simp_all add: core_def)
  have F: "F \<le> length data" by (simp add: F_def)
  have "length ?index \<le> length data" by simp
  then have index: "length ?index \<le> u64_max" using small by (rule order_trans)
  have at44: "prof_frozen_field p \<longrightarrow> core + 44 < length data" using room(1) by (auto split: if_splits)
  have "decides (?C1 \<and> (0 < sz \<and> off + sz \<le> F) \<and> ?C3 \<and> ?C4 \<and> ?C5 \<and> ?C6) ?goal (pak_stages data p)"
    unfolding pak_stages_def Let_def
    apply (rule decides_step [OF open_stage [OF small fits big, folded F_def core_def]])
    subgoal premises o1 for out
    proof -
      have core_eq: "pak_footer_offset out + prof_magic_offset p = core" using o1(2) by (simp add: pak_core_def F_def core_def)
      show ?thesis
        unfolding core_eq
        apply (rule decides_step2 [OF range_stage [OF small room(3) F o1(2), folded off_def sz_def]])
        subgoal premises o2 for out index_end
        proof -
          have fit: "off + sz \<le> length data" using o2(1) F by simp
          have at_end: "index_end = off + sz" and c2: "pak_core out = (False, F, ?V, ?e, False, off, sz)" using o2(2) by simp_all
          show ?thesis
            unfolding at_end
            apply (rule decides_step2 [OF frozen_stage [OF at44 c2]])
            subgoal premises o3 for out c
            proof -
              have c: "c = core + 44 + ?x" and c3: "pak_core out = (False, F, ?V, ?e, ?fr, off, sz)" using o3(2) by simp_all
              have fresh: "\<not> pak_valid out" using c3 by (simp add: pak_core_def)
              show ?thesis
                unfolding c
                apply (rule decides_step [OF slots_stage [OF room(1) c3 fresh]])
                apply (rule decides_step2 [OF index_stage [OF room(2) _ fit]], assumption)
                apply (elim conjE, hypsubst)
                apply (rule header_stage [OF small index F], assumption)
                done
            qed
            done
        qed
        done
    qed
    done
  moreover have "pak_spec data p \<longleftrightarrow> ?C1 \<and> (0 < sz \<and> off + sz \<le> F) \<and> ?C3 \<and> ?C4 \<and> ?C5 \<and> ?C6"
  proof -
    have flags: "(prof_encrypted_field p \<longrightarrow> data ! (core - 1) = 0) \<longleftrightarrow>
        (prof_encrypted_field p \<longrightarrow> data ! (core - 1) \<le> 1) \<and> \<not> ?e"
      "(prof_frozen_field p \<longrightarrow> data ! (core + 44) = 0) \<longleftrightarrow> (prof_frozen_field p \<longrightarrow> data ! (core + 44) \<le> 1) \<and> \<not> ?fr"
      by auto
    have core_F: "core = F + prof_magic_offset p" by (simp add: core_def F_def)
    show ?thesis
      unfolding pak_spec_def Let_def F_def [symmetric] core_F [symmetric] off_def [symmetric] sz_def [symmetric] flags
      by (simp only: conj_assoc) blast
  qed
  ultimately show ?thesis by (auto elim!: meets_mono)
qed

text \<open>What identifies the profile stays as the first stage set it.\<close>

definition pak_ident :: "pak_info \<Rightarrow> bool \<times> pak_layout \<times> nat" where
  "pak_ident out = (pak_candidate out, pak_footer_profile out, pak_footer_size out)"

abbreviation keeps_ident :: "pak_info \<Rightarrow> ('a \<Rightarrow> pak_info) \<Rightarrow> (pak_info, 'a) outcome \<Rightarrow> bool" where
  "keeps_ident out f \<equiv> keeps (\<lambda>o'. pak_ident o' = pak_ident out) (\<lambda>a. pak_ident (f a) = pak_ident out)"

lemma pak_ident_update [simp]:
  "pak_ident (out\<lparr>pak_index_offset := n\<rparr>) = pak_ident out" "pak_ident (out\<lparr>pak_index_size := n\<rparr>) = pak_ident out"
  "pak_ident (out\<lparr>pak_frozen_index := b\<rparr>) = pak_ident out" "pak_ident (out\<lparr>pak_hash_checked := b\<rparr>) = pak_ident out"
  "pak_ident (out\<lparr>pak_hash_matches := b\<rparr>) = pak_ident out" "pak_ident (out\<lparr>pak_mount_point := t\<rparr>) = pak_ident out"
  "pak_ident (out\<lparr>pak_entry_count := n\<rparr>) = pak_ident out" "pak_ident (out\<lparr>pak_budget_exhausted := b\<rparr>) = pak_ident out"
  "pak_ident (out\<lparr>pak_compression_methods := ms\<rparr>) = pak_ident out"
  "pak_ident (out\<lparr>pak_secondary_checked := b\<rparr>) = pak_ident out" "pak_ident (out\<lparr>pak_secondary_match := b\<rparr>) = pak_ident out"
  "pak_ident (out\<lparr>pak_secondary_count := n\<rparr>) = pak_ident out" "pak_ident (out\<lparr>pak_encoded_bytes := n\<rparr>) = pak_ident out"
  "pak_ident (out\<lparr>pak_non_encoded_count := n\<rparr>) = pak_ident out" "pak_ident (out\<lparr>pak_header_valid := b\<rparr>) = pak_ident out"
  "pak_ident (out\<lparr>pak_valid := b\<rparr>) = pak_ident out" "pak_ident (out\<lparr>pak_state := s\<rparr>) = pak_ident out"
  "pak_ident (out\<lparr>pak_error := e\<rparr>) = pak_ident out" "pak_ident (out\<lparr>pak_encrypted_index := b\<rparr>) = pak_ident out"
  by (simp_all add: pak_ident_def)

lemma pak_ident_open:
  "pak_ident (empty_pak\<lparr>pak_candidate := True, pak_footer_profile := prof_name p, pak_footer_size := prof_size p,
      pak_footer_offset := footer, pak_version := v, pak_supported_version := b\<rparr>) = (True, prof_name p, prof_size p)"
  by (simp add: pak_ident_def)

lemma keeps_ident_fail [simp]:
  "keeps (\<lambda>o'. pak_ident o' = k) P (pak_fail out e) \<longleftrightarrow> pak_ident out = k"
  "keeps (\<lambda>o'. pak_ident o' = k) P (pak_partial out e) \<longleftrightarrow> pak_ident out = k"
  by (simp_all add: pak_fail_def pak_partial_def)

lemma keeps_ident_range: "keeps_ident out fst (pak_range data c out)"
  by (simp add: pak_range_def Let_def split: option.split)

lemma keeps_ident_frozen: "keeps_ident out fst (pak_frozen data p c out)"
  by (simp add: pak_frozen_def)

lemma keeps_ident_slots: "keeps_ident out id (pak_slots data p c out)"
  unfolding pak_slots_def keeps_step keeps_or_stop by (rule keeps_all) (simp_all split: prod.split)

lemma keeps_ident_index: "keeps_ident out fst (pak_index data c out)"
  by (simp add: pak_index_def Let_def)

lemma keeps_ident_entries: "keeps_ident out fst (pak_entries index out)"
  unfolding pak_entries_def keeps_step keeps_or_stop
  by (rule keeps_all) (simp_all add: Let_def split: prod.split option.split)

lemma keeps_ident_encoded: "keeps_ident out id (pak_encoded index n c out)"
  by (simp add: pak_encoded_def Let_def split: option.split)

lemma keeps_ident_conclude: "keeps_ident out id (pak_conclude out)"
  by (simp add: pak_conclude_def Let_def)

lemma keeps_ident_secondary: "keeps_ident out fst (pak_secondary data index lo (out, c, rs))"
  by (simp add: pak_secondary_def pak_descriptor_def Let_def split: option.split)

lemma keeps_ident_path_hash: "keeps_ident out id (pak_path_hash data index lo (out, c, n))"
proof -
  let ?Q = "\<lambda>o'. pak_ident o' = pak_ident out"
  have sec: "keeps ?Q (\<lambda>a. ?Q (fst a)) (pak_secondary data index lo s)" if "?Q (fst s)" for s
    using keeps_ident_secondary [of "fst s" data index lo "fst (snd s)" "snd (snd s)"] that by simp
  have enc: "keeps ?Q ?Q (pak_encoded index n c o1)" if "?Q o1" for o1 c
    using keeps_ident_encoded [of o1 index n c] that by simp
  have "keeps ?Q ?Q (step (pak_secondary data index lo (out\<lparr>pak_secondary_match := True\<rparr>, c + 8, [])) (\<lambda>s.
      step (pak_secondary data index lo s) (\<lambda>(out2, cursor2, ranges).
        if overlapping (sort ranges) then pak_fail out2 SecondaryOverlap else pak_encoded index n cursor2 out2)))"
    unfolding keeps_step
    by (rule keeps_mono [OF sec], simp, assumption, rule keeps_mono [OF sec], assumption, assumption)
      (auto simp: enc split: prod.split)
  then show ?thesis by (simp add: pak_path_hash_def split: option.split)
qed

lemma stages_ident:
  "keeps (\<lambda>o'. pak_candidate o' \<and> pak_footer_profile o' = prof_name p \<and> pak_footer_size o' = prof_size p)
    (\<lambda>o'. pak_candidate o' \<and> pak_footer_profile o' = prof_name p \<and> pak_footer_size o' = prof_size p) (pak_stages data p)"
proof -
  let ?k = "(True, prof_name p, prof_size p)"
  let ?Q = "\<lambda>o'. pak_ident o' = ?k"
  have step: "keeps ?Q P (step m f)" if "keeps_ident out g m" "?Q out" "\<And>a. ?Q (g a) \<Longrightarrow> keeps ?Q P (f a)"
    for out g m f and P :: "'b \<Rightarrow> bool"
    unfolding keeps_step by (rule keeps_mono [OF that(1)]) (use that(2,3) in auto)
  have opened: "keeps ?Q ?Q (pak_open data p)"
    by (simp add: pak_open_def Let_def pak_ident_open)
  have "keeps ?Q ?Q (pak_stages data p)"
    unfolding pak_stages_def Let_def keeps_step [of _ _ "pak_open data p"]
    apply (rule keeps_mono [OF opened], assumption)
    apply (rule step [OF keeps_ident_range], assumption)
    apply (clarsimp simp del: keeps_step)
    apply (rule step [OF keeps_ident_frozen], assumption)
    apply (clarsimp simp del: keeps_step)
    apply (rule step [OF keeps_ident_slots], assumption)
    apply (rule step [OF keeps_ident_index], simp)
    apply (clarsimp simp del: keeps_step)
    apply (rule step [OF keeps_ident_entries], assumption)
    apply (clarsimp simp del: keeps_step)
    apply (rule step [OF keeps_ident_path_hash], assumption)
    apply (rule keeps_mono [OF keeps_ident_conclude])
    by simp_all
  then show ?thesis by (rule keeps_mono) (simp_all add: pak_ident_def)
qed

text \<open>The result of a profile, as a total function.\<close>

definition profile_result :: "bytes \<Rightarrow> pak_profile \<Rightarrow> pak_info" where
  "profile_result data p = the (parse_pak_profile data p)"

lemma profile_result:
  assumes "length data \<le> u64_max" and "profile_fits p" and "prof_size p \<le> length data"
  shows "parse_pak_profile data p = Some (profile_result data p)"
    and "pak_valid (profile_result data p) \<longleftrightarrow> pak_spec data p"
    and "pak_state (profile_result data p) = Confirmed \<longleftrightarrow> pak_valid (profile_result data p)"
    and "pak_valid (profile_result data p) \<Longrightarrow> pak_footer_offset (profile_result data p) = length data - prof_size p"
    and "pak_candidate (profile_result data p)" and "pak_footer_profile (profile_result data p) = prof_name p"
    and "pak_footer_size (profile_result data p) = prof_size p"
    and "pak_valid (profile_result data p) \<Longrightarrow>
      pak_index_offset (profile_result data p) + pak_index_size (profile_result data p) \<le> length data - prof_size p"
proof -
  let ?r = "profile_result data p"
  have range: "pak_spec data p \<Longrightarrow> le_at data (length data - prof_size p + prof_magic_offset p + 8) 8 +
      le_at data (length data - prof_size p + prof_magic_offset p + 16) 8 \<le> length data - prof_size p"
    unfolding pak_spec_def Let_def by blast
  from stages_decide [OF assms]
  have "parse_pak_profile data p = Some ?r \<and> (pak_valid ?r \<longleftrightarrow> pak_spec data p) \<and>
    (pak_state ?r = Confirmed \<longleftrightarrow> pak_valid ?r) \<and>
    (pak_valid ?r \<longrightarrow> pak_footer_offset ?r = length data - prof_size p \<and>
      pak_index_offset ?r + pak_index_size ?r \<le> length data - prof_size p)"
  proof (cases rule: meets_cases)
    case (1 out)
    then have "pak_valid out = False" "pak_state out \<noteq> Confirmed" by (auto simp: refused_def)
    then show ?thesis using 1 by (simp add: profile_result_def parse_pak_profile_def stop_def)
  next
    case (2 out)
    then have "parse_pak_profile data p = Some out" by (simp add: parse_pak_profile_def pass_def)
    then show ?thesis using 2(2) range by (simp add: profile_result_def)
  qed
  moreover have "pak_candidate ?r \<and> pak_footer_profile ?r = prof_name p \<and> pak_footer_size ?r = prof_size p"
    using stages_ident [of p data] calculation
    by (auto simp: keeps_def meets_def parse_pak_profile_def split: option.splits sum.splits)
  ultimately show "parse_pak_profile data p = Some (profile_result data p)"
    "pak_valid (profile_result data p) \<longleftrightarrow> pak_spec data p"
    "pak_state (profile_result data p) = Confirmed \<longleftrightarrow> pak_valid (profile_result data p)"
    "pak_valid (profile_result data p) \<Longrightarrow> pak_footer_offset (profile_result data p) = length data - prof_size p"
    "pak_candidate (profile_result data p)" "pak_footer_profile (profile_result data p) = prof_name p"
    "pak_footer_size (profile_result data p) = prof_size p"
    "pak_valid (profile_result data p) \<Longrightarrow>
      pak_index_offset (profile_result data p) + pak_index_size (profile_result data p) \<le> length data - prof_size p"
    by blast+
qed

subsection \<open>All profiles\<close>

lemma profile_matches_size: "profile_matches data p \<Longrightarrow> prof_size p \<le> length data"
  by (auto simp: profile_matches_def pak_probe_def split: if_splits)

lemma parse_profiles_map:
  "\<forall>p \<in> set ps. parse_pak_profile data p = Some (f p) \<Longrightarrow> parse_profiles data ps = Some (map f ps)"
  by (induction ps) auto

lemma viable_Confirmed: "pak_state out = Confirmed \<Longrightarrow> pak_viable out"
  by (simp add: pak_viable_def)

lemma unknown_not_valid: "\<not> pak_valid (detect_unknown_pak data input) \<and> pak_state (detect_unknown_pak data input) \<noteq> Confirmed"
proof -
  have all: "\<forall>out \<in> set (concat (map (unknown_position data) pak_profiles)). \<not> pak_valid out \<and> pak_state out \<noteq> Confirmed"
    by (auto simp: unknown_position_def empty_pak_def split: option.splits if_splits)
  consider "concat (map (unknown_position data) pak_profiles) = []"
    | out where "concat (map (unknown_position data) pak_profiles) = [out]"
    | out b rest where "concat (map (unknown_position data) pak_profiles) = out # b # rest"
    by (metis list.exhaust)
  then show ?thesis
    unfolding detect_unknown_pak_def using all by cases (simp_all only:, simp_all add: empty_pak_def)
qed

lemma filter_single:
  assumes "distinct xs" and "x \<in> set xs" and "P x" and "\<And>y. y \<in> set xs \<Longrightarrow> P y \<Longrightarrow> y = x"
  shows "filter P xs = [x]"
  using assms
proof (induction xs)
  case (Cons y ys)
  show ?case
  proof (cases "x = y")
    case True
    then have "filter P ys = []" using Cons.prems by (auto simp: filter_empty_conv)
    then show ?thesis using True Cons.prems by simp
  next
    case False
    then have "\<not> P y" using Cons.prems(4) [of y] by auto
    moreover have "filter P ys = [x]" by (rule Cons.IH) (use Cons.prems False in auto)
    ultimately show ?thesis by simp
  qed
qed simp

lemma detect_pak_result:
  assumes "length data \<le> u64_max"
  shows "\<exists>out. detect_pak data input = Some out \<and> (pak_state out = Confirmed \<longleftrightarrow> pak_valid out) \<and>
    (pak_valid out \<longleftrightarrow> (\<exists>p \<in> set pak_profiles. profile_matches data p \<and> pak_spec data p \<and>
      (\<forall>q \<in> set pak_profiles. profile_matches data q \<and> pak_viable (profile_result data q) \<longrightarrow> q = p))) \<and>
    (pak_valid out \<longrightarrow> (\<exists>p \<in> set pak_profiles. prof_size p \<le> length data \<and> out = profile_result data p))"
proof -
  let ?ps = "filter (profile_matches data) pak_profiles" and ?f = "profile_result data"
  let ?good = "\<lambda>p. pak_viable (?f p)"
  have result: "parse_pak_profile data p = Some (?f p)" "pak_valid (?f p) \<longleftrightarrow> pak_spec data p"
    "pak_state (?f p) = Confirmed \<longleftrightarrow> pak_valid (?f p)" if "p \<in> set ?ps" for p
    using profile_result [OF assms _ profile_matches_size, of p] profiles_fit that by (auto simp: list_all_iff)
  have parsed: "parse_profiles data ?ps = Some (map ?f ?ps)" using result(1) by (intro parse_profiles_map) blast
  have dist: "distinct ?ps" by (rule distinct_filter) (simp add: pak_profiles_def profile_row_def)
  have viable: "filter pak_viable (map ?f ?ps) = map ?f (filter ?good ?ps)" by (simp add: filter_map comp_def)
  have spec_good: "?good p" if "p \<in> set ?ps" "pak_spec data p" for p
    using result(2,3) [OF that(1)] that(2) viable_Confirmed by blast
  let ?rhs = "\<exists>p \<in> set pak_profiles. profile_matches data p \<and> pak_spec data p \<and>
      (\<forall>q \<in> set pak_profiles. profile_matches data q \<and> pak_viable (?f q) \<longrightarrow> q = p)"
  have rhs: "?rhs \<longleftrightarrow> (\<exists>p. filter ?good ?ps = [p] \<and> pak_spec data p)"
  proof
    assume ?rhs
    then obtain p where p: "p \<in> set ?ps" "pak_spec data p" "\<And>q. q \<in> set ?ps \<Longrightarrow> ?good q \<Longrightarrow> q = p" by auto
    have "filter ?good ?ps = [p]"
      by (rule filter_single [OF dist p(1), where P = ?good, OF spec_good [OF p(1,2)]]) (rule p(3))
    then show "\<exists>p. filter ?good ?ps = [p] \<and> pak_spec data p" using p(2) by blast
  next
    assume "\<exists>p. filter ?good ?ps = [p] \<and> pak_spec data p"
    then obtain p where p: "filter ?good ?ps = [p]" "pak_spec data p" by blast
    then have "set (filter ?good ?ps) = {p}" by simp
    then show ?rhs using p(2) by auto
  qed
  show ?thesis
  proof (cases "filter ?good ?ps")
    case Nil
    have "\<not> pak_valid out \<and> pak_state out \<noteq> Confirmed" if "out = hd (map ?f ?ps)" "?ps \<noteq> []" for out
    proof -
      have "hd ?ps \<in> set ?ps" using that(2) by (rule hd_in_set)
      moreover have "\<not> ?good (hd ?ps)" using Nil calculation by (metis filter_empty_conv)
      ultimately show ?thesis using result(3) that viable_Confirmed by (metis hd_map)
    qed
    then show ?thesis unfolding rhs using Nil parsed viable unknown_not_valid [of data input]
      by (cases ?ps) (auto simp: detect_pak_def)
  next
    case (Cons p rest)
    then have p: "p \<in> set ?ps" by (metis filter_is_subset list.set_intros(1) subsetD)
    show ?thesis
    proof (cases rest)
      case Nil
      moreover have "\<exists>q \<in> set pak_profiles. prof_size q \<le> length data \<and> ?f p = ?f q"
        using p profile_matches_size by auto
      ultimately show ?thesis unfolding rhs using Cons parsed viable result(2,3) [OF p]
        by (auto simp: detect_pak_def)
    next
      case (Cons q rest')
      then show ?thesis unfolding rhs using \<open>filter ?good ?ps = p # rest\<close> parsed viable
        by (auto simp: detect_pak_def empty_pak_def)
    qed
  qed
qed

text \<open>C10: Recognition of a Pak file is memory safe and decides the layout: for every file the recognizer
  returns, it reports a valid container exactly when one footer profile of the table matches, its
  index and secondary indexes satisfy the declarative layout (ranges before the footer, SHA-1 sums,
  disjoint secondary ranges, a well-formed mount point, counts that fit) and no other profile stays
  viable, and \<^verbatim>\<open>CONFIRMED\<close> is reported for valid containers alone.\<close>

theorem pak_detection_decides:
  assumes "length data \<le> u64_max"
  shows "\<exists>out. detect_pak data input = Some out \<and> (pak_state out = Confirmed \<longleftrightarrow> pak_valid out) \<and>
    (pak_valid out \<longleftrightarrow> (\<exists>p \<in> set pak_profiles. profile_matches data p \<and> pak_spec data p \<and>
      (\<forall>q \<in> set pak_profiles. profile_matches data q \<and> pak_viable (profile_result data q) \<longrightarrow> q = p)))"
  using detect_pak_result [OF assms, of input] by blast

subsection \<open>A sample file\<close>

text \<open>
  A version-1 container with an empty mount point and no entries: eight index bytes and the 44-byte
  footer, whose last field is the SHA-1 of the index.
\<close>

definition sample_index :: bytes where
  "sample_index = [0, 0, 0, 0, 0, 0, 0, 0]"

definition sample_pak :: bytes where
  "sample_pak =
     [0, 0, 0, 0, 0, 0, 0, 0, 0xe1, 0x12, 0x6f, 0x5a, 1, 0, 0, 0, 0, 0, 0, 0, 0, 0, 0, 0,
      8, 0, 0, 0, 0, 0, 0, 0] @ sha1_spec sample_index"

lemma length_sample_pak: "length sample_pak = 52"
  using sha1.reference_good [of sample_index] by (simp add: sample_pak_def)

lemma sample_fields:
  "le_at sample_pak 8 4 = pak_magic" "le_at sample_pak 12 4 = 1" "le_at sample_pak 16 8 = 0"
  "le_at sample_pak 24 8 = 8" "take 8 sample_pak = sample_index"
  "take 20 (drop 32 sample_pak) = sha1_spec sample_index"
  using sha1.reference_good [of sample_index]
  by (simp_all add: le_at_def sample_pak_def pak_magic_def sample_index_def)

lemma sample_matches:
  "q \<in> set pak_profiles \<Longrightarrow> profile_matches sample_pak q \<longleftrightarrow> q = profile_row Core44 1 3 44 0 0 False False"
proof -
  have small: "length sample_pak \<le> u64_max" by (simp add: length_sample_pak u64_max_def)
  show "q \<in> set pak_profiles \<Longrightarrow> ?thesis"
    by (auto simp: pak_profiles_def profile_row_def profile_matches_def pak_probe_def length_sample_pak
        read_le32_at [OF small] sample_fields)
qed

lemma sample_spec: "pak_spec sample_pak (profile_row Core44 1 3 44 0 0 False False)"
proof -
  have "read_le32 sample_index 0 = Some 0" by (simp add: read_le32_def sample_index_def checked_add_def u64_max_def or4_le_value)
  then have "parse_fstring sample_index 0 [] = pass ([], 4)" by (simp add: parse_fstring_def wrap64_def)
  moreover have "le_at sample_index 4 4 = 0" by (simp add: le_at_def sample_index_def)
  ultimately have "index_spec sample_pak sample_index 8 8 1"
    by (auto simp: index_spec_def clean_text_Nil sample_index_def pak_entry_budget_def)
  then show ?thesis
    by (simp add: pak_spec_def profile_row_def Let_def length_sample_pak sample_fields)
qed

theorem pak_detection_decides_witness:
  "\<exists>out. detect_pak sample_pak ''a.pak'' = Some out \<and> pak_state out = Confirmed \<and> pak_valid out"
proof -
  have "length sample_pak \<le> u64_max" by (simp add: length_sample_pak u64_max_def)
  moreover have "profile_row Core44 1 3 44 0 0 False False \<in> set pak_profiles" by (simp add: pak_profiles_def)
  ultimately show ?thesis
    using pak_detection_decides [of sample_pak "''a.pak''"] sample_spec sample_matches by blast
qed

end
