(* ===== verification/UnrealIoStore.thy ===== *)
theory UnrealIoStore
  imports UnrealRanges "HOL-Library.List_Lexorder"
begin

section \<open>Recognition of Unreal IoStore containers\<close>

text \<open>
  Models the IoStore half of \<^verbatim>\<open>src/extract/unreal.cpp\<close>: the fixed table-of-contents header,
  the sections that must tile the file, the compression-method slots, the chunk identifiers and
  offsets, the compressed-block geometry per partition, and the pairing with the partition files
  beside the table. The directory is a parameter (what listing it, asking for a status and asking
  for a size answer); the model quantifies over every such view. Sums of a section offset and an
  index below the section's count are within the file and written without wrap-around.
\<close>

subsection \<open>Data\<close>

definition io_magic :: bytes where
  "io_magic = [0x2d, 0x3d, 0x3d, 0x2d, 0x2d, 0x3d, 0x3d, 0x2d, 0x2d, 0x3d, 0x3d, 0x2d, 0x2d, 0x3d, 0x3d, 0x2d]"

definition io_entry_budget :: nat where "io_entry_budget = 1000000"
definition io_block_budget :: nat where "io_block_budget = 4000000"
definition io_method_budget :: nat where "io_method_budget = 64"
definition io_partition_budget :: nat where "io_partition_budget = 128"
definition sibling_budget :: nat where "sibling_budget = 8192"
definition directory_index_budget :: nat where "directory_index_budget = 256 * 1024 * 1024"
definition signature_budget :: nat where "signature_budget = 16 * 1024 * 1024"

datatype io_error =
    UcasAlone | UtocExtension | TocTruncated | TocVersion | TocHeader | SeedsEarly | OverflowEarly
  | TocBudget | ChunkIdSection | OffsetSection | SeedSection | OverflowSection | BlockSection
  | MethodSection | MethodSlot | MethodName | SignatureSize | SignedSection | DirectoryAlignment
  | DirectorySection | MetaSection | TrailingBytes | DuplicateChunks | CapacityOverflow | ChunkRange
  | BlockSizes | BlockAlignment | BlockPartition | BlockOverlap | DirectoryError string
  | SiblingBudget | UnexpectedPartition | PairIncomplete | DirectoryEncrypted

primrec io_error_text :: "io_error \<Rightarrow> string" where
  "io_error_text UcasAlone = ''UCAS data requires a sibling UTOC; no standalone UCAS identity is claimed''"
| "io_error_text UtocExtension = ''UTOC filename extension is present without the fixed IoStore TOC magic''"
| "io_error_text TocTruncated = ''IoStore TOC header is truncated''"
| "io_error_text TocVersion = ''IoStore TOC version is outside the pinned v1-v8 layout set''"
| "io_error_text TocHeader = ''IoStore TOC fixed header invariants do not match the pinned layout''"
| "io_error_text SeedsEarly = ''IoStore TOC declares perfect-hash seeds before the supporting version''"
| "io_error_text OverflowEarly =
     ''IoStore TOC declares perfect-hash overflow entries before the supporting version''"
| "io_error_text TocBudget = ''IoStore TOC declarations exceed static recognition budgets''"
| "io_error_text ChunkIdSection = ''IoStore chunk-ID section exceeds the TOC''"
| "io_error_text OffsetSection = ''IoStore offset/length section exceeds the TOC''"
| "io_error_text SeedSection = ''IoStore perfect-hash seed section exceeds the TOC''"
| "io_error_text OverflowSection = ''IoStore perfect-hash overflow section exceeds the TOC''"
| "io_error_text BlockSection = ''IoStore compressed-block section exceeds the TOC''"
| "io_error_text MethodSection = ''IoStore compression-method section exceeds the TOC''"
| "io_error_text MethodSlot = ''IoStore compression-method slot is empty or lacks canonical NUL padding''"
| "io_error_text MethodName = ''IoStore compression-method name is not printable ASCII''"
| "io_error_text SignatureSize = ''IoStore signed-section size is truncated or exceeds budget''"
| "io_error_text SignedSection = ''IoStore signed section exceeds the TOC''"
| "io_error_text DirectoryAlignment = ''encrypted IoStore directory index is not AES-block aligned''"
| "io_error_text DirectorySection = ''IoStore directory-index section exceeds the TOC''"
| "io_error_text MetaSection = ''IoStore entry-metadata section exceeds the TOC''"
| "io_error_text TrailingBytes = ''IoStore TOC contains trailing or unaccounted section bytes''"
| "io_error_text DuplicateChunks = ''IoStore TOC contains duplicate chunk IDs''"
| "io_error_text CapacityOverflow = ''IoStore logical block capacity overflows''"
| "io_error_text ChunkRange = ''IoStore chunk offset/length exceeds logical block capacity''"
| "io_error_text BlockSizes = ''IoStore compressed-block sizes or method index are invalid''"
| "io_error_text BlockAlignment = ''IoStore encrypted block size overflows alignment''"
| "io_error_text BlockPartition = ''IoStore compressed block falls outside one declared partition''"
| "io_error_text BlockOverlap = ''IoStore compressed block ranges overlap within a partition''"
| "io_error_text (DirectoryError m) = ''IoStore sibling directory cannot be inventoried: '' @ m"
| "io_error_text SiblingBudget = ''IoStore sibling inventory exceeds the bounded directory budget''"
| "io_error_text UnexpectedPartition = ''unexpected IoStore split partition is present beside the TOC''"
| "io_error_text PairIncomplete = ''IoStore TOC did not close to all exact UCAS partitions''"
| "io_error_text DirectoryEncrypted =
     ''IoStore directory index is encrypted; an explicit credential is required''"

datatype part_error = PartMissing | PartCase | PartNotRegular | PartSize | PartTooSmall

primrec part_error_text :: "part_error \<Rightarrow> string" where
  "part_error_text PartMissing = ''required IoStore partition is missing''"
| "part_error_text PartCase = ''required IoStore partition has a case collision or noncanonical case''"
| "part_error_text PartNotRegular = ''IoStore partition is not a regular non-symlink file''"
| "part_error_text PartSize = ''IoStore partition size cannot be read''"
| "part_error_text PartTooSmall = ''IoStore partition is smaller than declared block geometry''"

datatype part_state = PartNotEvaluated | PartPartial | PartConfirmed

record io_part =
  part_index :: nat
  part_path :: path
  part_required :: nat
  part_file_size :: nat
  part_state :: part_state
  part_error :: "part_error option"

record io_info =
  io_candidate :: bool
  io_toc_valid :: bool
  io_valid :: bool
  io_supported_version :: bool
  io_encrypted :: bool
  io_signed :: bool
  io_indexed :: bool
  io_signature_present :: bool
  io_compressed :: bool
  io_pair_checked :: bool
  io_pair_valid :: bool
  io_budget_exhausted :: bool
  io_duplicate_chunk_ids :: bool
  io_inventory_truncated :: bool
  io_state :: unreal_state
  io_version :: nat
  io_flags :: byte
  io_header_size :: nat
  io_entry_count :: nat
  io_block_count :: nat
  io_block_entry_size :: nat
  io_method_count :: nat
  io_method_length :: nat
  io_block_size :: nat
  io_directory_size :: nat
  io_partition_count :: nat
  io_seed_count :: nat
  io_overflow_count :: nat
  io_partition_size :: nat
  io_layout_bytes :: nat
  io_methods :: "bytes list"
  io_parts :: "io_part list"
  io_error :: "io_error option"

definition empty_io :: io_info where
  "empty_io =
     \<lparr>io_candidate = False, io_toc_valid = False, io_valid = False, io_supported_version = False,
      io_encrypted = False, io_signed = False, io_indexed = False, io_signature_present = False,
      io_compressed = False, io_pair_checked = False, io_pair_valid = False,
      io_budget_exhausted = False, io_duplicate_chunk_ids = False, io_inventory_truncated = False,
      io_state = Absent, io_version = 0, io_flags = 0, io_header_size = 0, io_entry_count = 0,
      io_block_count = 0, io_block_entry_size = 0, io_method_count = 0, io_method_length = 0,
      io_block_size = 0, io_directory_size = 0, io_partition_count = 0, io_seed_count = 0,
      io_overflow_count = 0, io_partition_size = 0, io_layout_bytes = 0, io_methods = [],
      io_parts = [], io_error = None\<rparr>"

definition io_fail :: "io_info \<Rightarrow> io_error \<Rightarrow> (io_info, 'a) outcome" where
  "io_fail out e = stop (out\<lparr>io_state := Failed, io_error := Some e\<rparr>)"

definition io_partial :: "io_info \<Rightarrow> io_error \<Rightarrow> (io_info, 'a) outcome" where
  "io_partial out e = stop (out\<lparr>io_state := Partial, io_error := Some e\<rparr>)"

definition has_iostore_magic :: "bytes \<Rightarrow> bool" where
  "has_iostore_magic data \<longleftrightarrow> length io_magic \<le> length data \<and> take (length io_magic) data = io_magic"

subsection \<open>Header and sections\<close>

definition io_read_header :: "bytes \<Rightarrow> byte \<Rightarrow> byte \<Rightarrow> io_info \<Rightarrow> io_info" where
  "io_read_header data version flags out =
     out\<lparr>io_version := unat version, io_supported_version := True,
       io_header_size := or_zero (read_le32 data 20),
       io_entry_count := or_zero (read_le32 data 24),
       io_block_count := or_zero (read_le32 data 28),
       io_block_entry_size := or_zero (read_le32 data 32),
       io_method_count := or_zero (read_le32 data 36),
       io_method_length := or_zero (read_le32 data 40),
       io_block_size := or_zero (read_le32 data 44),
       io_directory_size := or_zero (read_le32 data 48),
       io_partition_count := or_zero (read_le32 data 52),
       io_flags := flags,
       io_seed_count := or_zero (read_le32 data 84),
       io_partition_size := or_zero (read_le64 data 88),
       io_overflow_count := or_zero (read_le32 data 96),
       io_compressed := flags AND 1 \<noteq> 0, io_encrypted := flags AND 2 \<noteq> 0,
       io_signed := flags AND 4 \<noteq> 0, io_indexed := flags AND 8 \<noteq> 0\<rparr>"

definition io_header :: "bytes \<Rightarrow> io_info \<Rightarrow> (io_info, io_info) outcome" where
  "io_header data out0 =
     (if length data < 144 then io_fail out0 TocTruncated
      else step (access (at data 16)) (\<lambda>version.
        if version < 1 \<or> 8 < version then io_partial (out0\<lparr>io_version := unat version\<rparr>) TocVersion
        else step (access (at data 80)) (\<lambda>flags.
          let out = io_read_header data version flags out0 in
          if io_header_size out \<noteq> 144 \<or> io_block_entry_size out \<noteq> 12 \<or> io_method_length out \<noteq> 32 \<or>
             io_block_size out = 0 \<or> io_partition_count out = 0 \<or> io_partition_size out = 0 \<or>
             flags AND 0xf0 \<noteq> 0 \<or> \<not> all_zero data 17 20 \<or> \<not> all_zero data 81 84 \<or>
             \<not> all_zero data 100 144
          then io_fail out TocHeader
          else if io_version out < 4 \<and> io_seed_count out \<noteq> 0 then io_fail out SeedsEarly
          else if io_version out < 5 \<and> io_overflow_count out \<noteq> 0 then io_fail out OverflowEarly
          else if io_entry_budget < io_entry_count out \<or> io_block_budget < io_block_count out \<or>
             io_method_budget < io_method_count out \<or> io_partition_budget < io_partition_count out \<or>
             directory_index_budget < io_directory_size out
          then io_partial (out\<lparr>io_budget_exhausted := True\<rparr>) TocBudget
          else pass out)))"

definition add_section :: "nat \<Rightarrow> nat \<Rightarrow> nat \<Rightarrow> nat \<Rightarrow> nat option" where
  "add_section cursor n width file_size =
     (case checked_mul n width of
        None \<Rightarrow> None
      | Some len \<Rightarrow>
          (case checked_add cursor len of
             None \<Rightarrow> None
           | Some e \<Rightarrow> if file_size < e then None else Some e))"

definition io_section :: "bytes \<Rightarrow> io_info \<Rightarrow> io_error \<Rightarrow> nat \<Rightarrow> nat \<Rightarrow> nat \<Rightarrow> (io_info, nat) outcome" where
  "io_section data out e cursor n width =
     (case add_section cursor n width (length data) of None \<Rightarrow> io_fail out e | Some c \<Rightarrow> pass c)"

text \<open>The offsets of the sections: offset/length entries, blocks, method slots, and the end of the slots.\<close>

definition io_sections :: "bytes \<Rightarrow> io_info \<Rightarrow> (io_info, nat \<times> nat \<times> nat \<times> nat) outcome" where
  "io_sections data out =
     step (io_section data out ChunkIdSection (io_header_size out) (io_entry_count out) 12) (\<lambda>offsets_at.
     step (io_section data out OffsetSection offsets_at (io_entry_count out) 10) (\<lambda>c.
     step (if 4 \<le> io_version out then io_section data out SeedSection c (io_seed_count out) 4 else pass c) (\<lambda>c.
     step (if 5 \<le> io_version out then io_section data out OverflowSection c (io_overflow_count out) 4
           else pass c) (\<lambda>blocks_at.
     step (io_section data out BlockSection blocks_at (io_block_count out) 12) (\<lambda>methods_at.
     step (io_section data out MethodSection methods_at (io_method_count out) 32) (\<lambda>e.
       pass (offsets_at, blocks_at, methods_at, e)))))))"

definition io_method_name :: "bytes \<Rightarrow> nat \<Rightarrow> (io_error, bytes) outcome" where
  "io_method_name data p =
     step (access (slot_length data p 32)) (\<lambda>len.
       if len = 0 \<or> len = 32 \<or> \<not> all_zero data (p + len) (p + 32) then stop MethodSlot
       else step (access (subspan data p len)) (\<lambda>name.
         if \<not> list_all printable name then stop MethodName else pass name))"

fun io_methods_loop :: "bytes \<Rightarrow> nat \<Rightarrow> nat list \<Rightarrow> io_info \<Rightarrow> (io_info, io_info) outcome" where
  "io_methods_loop data methods_at [] out = pass out"
| "io_methods_loop data methods_at (i # is) out =
     step (or_stop (io_method_name data (methods_at + i * 32))
            (\<lambda>e. out\<lparr>io_state := Failed, io_error := Some e\<rparr>)) (\<lambda>name.
       io_methods_loop data methods_at is (out\<lparr>io_methods := io_methods out @ [name]\<rparr>))"

text \<open>Signatures, directory index and entry metadata; the whole must end at the end of the file.\<close>

definition io_signature :: "bytes \<Rightarrow> nat \<Rightarrow> io_info \<Rightarrow> (io_info, io_info \<times> nat) outcome" where
  "io_signature data cursor out =
     (if \<not> io_signed out then pass (out, cursor)
      else case read_le32 data cursor of
        None \<Rightarrow> io_fail (out\<lparr>io_budget_exhausted := False\<rparr>) SignatureSize
      | Some sz \<Rightarrow>
          if signature_budget < sz then io_partial (out\<lparr>io_budget_exhausted := True\<rparr>) SignatureSize
          else step (io_section data out SignedSection (cursor + 4) 2 sz) (\<lambda>c.
            step (io_section data out SignedSection c (io_block_count out) 20) (\<lambda>c'.
              pass (out\<lparr>io_signature_present := True\<rparr>, c'))))"

definition io_tail :: "bytes \<Rightarrow> nat \<Rightarrow> io_info \<Rightarrow> (io_info, io_info) outcome" where
  "io_tail data cursor0 out0 =
     step (io_signature data cursor0 out0) (\<lambda>(out, cursor).
       if io_encrypted out \<and> io_directory_size out mod 16 \<noteq> 0 then io_fail out DirectoryAlignment
       else step (io_section data out DirectorySection cursor 1 (io_directory_size out)) (\<lambda>c.
         step (io_section data out MetaSection c (io_entry_count out)
                (if 8 \<le> io_version out then 24 else 33)) (\<lambda>e.
           if e \<noteq> length data then io_fail out TrailingBytes
           else pass (out\<lparr>io_layout_bytes := e\<rparr>))))"

subsection \<open>Chunks and blocks\<close>

fun read_chunk_ids :: "bytes \<Rightarrow> nat \<Rightarrow> nat list \<Rightarrow> bytes list option" where
  "read_chunk_ids data ids_at [] = Some []"
| "read_chunk_ids data ids_at (i # is) =
     (case subspan data (ids_at + i * 12) 12 of
        None \<Rightarrow> None
      | Some cid \<Rightarrow> map_option ((#) cid) (read_chunk_ids data ids_at is))"

fun adjacent_equal :: "'a list \<Rightarrow> bool" where
  "adjacent_equal (a # b # rest) \<longleftrightarrow> a = b \<or> adjacent_equal (b # rest)"
| "adjacent_equal _ \<longleftrightarrow> False"

definition io_chunk_ids :: "bytes \<Rightarrow> io_info \<Rightarrow> (io_info, io_info) outcome" where
  "io_chunk_ids data out =
     step (access (read_chunk_ids data (io_header_size out) [0..<io_entry_count out])) (\<lambda>ids.
       if adjacent_equal (sort ids) then io_fail (out\<lparr>io_duplicate_chunk_ids := True\<rparr>) DuplicateChunks
       else pass out)"

fun io_offsets_loop :: "bytes \<Rightarrow> nat \<Rightarrow> nat \<Rightarrow> nat list \<Rightarrow> io_info \<Rightarrow> (io_info, io_info) outcome" where
  "io_offsets_loop data offsets_at capacity [] out = pass out"
| "io_offsets_loop data offsets_at capacity (i # is) out =
     step (access (read_be5 data (offsets_at + i * 10))) (\<lambda>off.
       step (access (read_be5 data (offsets_at + i * 10 + 5))) (\<lambda>len.
         case checked_add off len of
           None \<Rightarrow> io_fail out ChunkRange
         | Some e \<Rightarrow>
             if capacity < e then io_fail out ChunkRange
             else io_offsets_loop data offsets_at capacity is out))"

definition io_offsets :: "bytes \<Rightarrow> nat \<Rightarrow> io_info \<Rightarrow> (io_info, io_info) outcome" where
  "io_offsets data offsets_at out =
     (case checked_mul (io_block_count out) (io_block_size out) of
        None \<Rightarrow> io_fail out CapacityOverflow
      | Some capacity \<Rightarrow> io_offsets_loop data offsets_at capacity [0..<io_entry_count out] out)"

text \<open>Rounding a stored size up to the cipher block.\<close>

definition stored_size :: "bool \<Rightarrow> nat \<Rightarrow> nat option" where
  "stored_size encrypted n =
     (if encrypted then map_option (\<lambda>padded. padded - padded mod 16) (checked_add n 15) else Some n)"

text \<open>One block: its range inside its partition.\<close>

definition io_block :: "bytes \<Rightarrow> nat \<Rightarrow> io_info \<Rightarrow> nat \<Rightarrow> (io_info, nat \<times> nat \<times> nat) outcome" where
  "io_block data blocks_at out i =
     (let p = blocks_at + i * 12 in
      step (access (read_le_n data p 5)) (\<lambda>off.
      step (access (read_le_n data (p + 5) 3)) (\<lambda>csize.
      step (access (read_le_n data (p + 8) 3)) (\<lambda>usize.
      step (access (at data (p + 11))) (\<lambda>meth.
        if csize = 0 \<or> usize = 0 \<or> io_block_size out < usize \<or> io_method_count out < unat meth
        then io_fail out BlockSizes
        else case stored_size (io_encrypted out) csize of
          None \<Rightarrow> io_fail out BlockAlignment
        | Some stored \<Rightarrow>
            let partition = off div io_partition_size out; local = off mod io_partition_size out in
            if io_partition_count out \<le> partition then io_fail out BlockPartition
            else case checked_add local stored of
              None \<Rightarrow> io_fail out BlockPartition
            | Some e \<Rightarrow>
                if io_partition_size out < e then io_fail out BlockPartition
                else pass (partition, local, e))))))"

text \<open>The ranges per partition and the bytes each partition needs.\<close>

type_synonym geometry = "(nat \<times> nat) list list \<times> nat list"

definition add_block :: "nat \<times> nat \<times> nat \<Rightarrow> geometry \<Rightarrow> geometry" where
  "add_block = (\<lambda>(k, lo, e) (ranges, required).
     (ranges[k := ranges ! k @ [(lo, e)]], required[k := max (required ! k) e]))"

fun io_blocks_loop :: "bytes \<Rightarrow> nat \<Rightarrow> io_info \<Rightarrow> nat list \<Rightarrow> geometry \<Rightarrow> (io_info, geometry) outcome" where
  "io_blocks_loop data blocks_at out [] g = pass g"
| "io_blocks_loop data blocks_at out (i # is) g =
     step (io_block data blocks_at out i) (\<lambda>b. io_blocks_loop data blocks_at out is (add_block b g))"

definition io_blocks :: "bytes \<Rightarrow> nat \<Rightarrow> io_info \<Rightarrow> (io_info, io_info \<times> nat list) outcome" where
  "io_blocks data blocks_at out =
     step (io_blocks_loop data blocks_at out [0..<io_block_count out]
            (replicate (io_partition_count out) [], replicate (io_partition_count out) 0))
       (\<lambda>(ranges, required).
         if list_ex (\<lambda>rs. overlapping (sort rs)) ranges then io_fail out BlockOverlap
         else pass (out\<lparr>io_toc_valid := True, io_state := Confirmed\<rparr>, required))"

definition io_toc :: "bytes \<Rightarrow> io_info \<Rightarrow> (io_info, io_info \<times> nat list) outcome" where
  "io_toc data out =
     step (io_header data out) (\<lambda>out.
     step (io_sections data out) (\<lambda>(offsets_at, blocks_at, methods_at, cursor).
     step (io_methods_loop data methods_at [0..<io_method_count out] (out\<lparr>io_methods := []\<rparr>)) (\<lambda>out.
     step (io_tail data cursor out) (\<lambda>out.
     step (io_chunk_ids data out) (\<lambda>out.
     step (io_offsets data offsets_at out) (\<lambda>out.
       io_blocks data blocks_at out))))))"

subsection \<open>Pairing with the partition files\<close>

text \<open>
  What the directory answers: the listing of a directory or the message of the error that opening it
  gave, the status of an entry, and its size.
\<close>

datatype entry_status = StatusError | IsSymlink | IsRegular | IsOther

record dir_view =
  dv_list :: "path \<Rightarrow> string + path list"
  dv_status :: "path \<Rightarrow> entry_status"
  dv_size :: "path \<Rightarrow> nat option"

definition digit_char :: "char \<Rightarrow> bool" where
  "digit_char c \<longleftrightarrow> 48 \<le> (of_char c :: nat) \<and> (of_char c :: nat) \<le> 57"

definition partition_suffix :: "string \<Rightarrow> string \<Rightarrow> bool" where
  "partition_suffix lower_name lower_stem \<longleftrightarrow>
     (let prefix = lower_stem @ ''_s'' in
      if length lower_name \<le> length prefix + 5 \<or> take (length prefix) lower_name \<noteq> prefix \<or>
         take 5 (drop (length lower_name - 5) lower_name) \<noteq> ''.ucas''
      then False
      else list_all digit_char
        (take (length lower_name - 5 - length prefix) (drop (length prefix) lower_name)))"

definition expected_partition_path :: "path \<Rightarrow> nat \<Rightarrow> path" where
  "expected_partition_path toc k =
     (let base = drop_extension toc in
      if k = 0 then base @ ''.ucas'' else base @ ''_s'' @ to_dec k @ ''.ucas'')"

definition new_part :: "path \<Rightarrow> nat list \<Rightarrow> nat \<Rightarrow> io_part" where
  "new_part input required i =
     \<lparr>part_index = i, part_path = expected_partition_path input i, part_required = required ! i,
      part_file_size = 0, part_state = PartNotEvaluated, part_error = None\<rparr>"

definition part_bad :: "part_error \<Rightarrow> io_part \<Rightarrow> io_part" where
  "part_bad e part = part\<lparr>part_state := PartPartial, part_error := Some e\<rparr>"

definition lower_name_of :: "path \<Rightarrow> string" where
  "lower_name_of p = ascii_lower (filename p)"

definition evaluate_part :: "dir_view \<Rightarrow> path list \<Rightarrow> io_part \<Rightarrow> io_part" where
  "evaluate_part dv siblings part =
     (let wanted = filename (part_path part);
          matches = filter (\<lambda>s. lower_name_of s = ascii_lower wanted) siblings
      in case matches of
           [m] \<Rightarrow>
             if filename m \<noteq> wanted then part_bad PartCase part
             else if dv_status dv m \<noteq> IsRegular then part_bad PartNotRegular part
             else (case dv_size dv m of
                 None \<Rightarrow> part_bad PartSize part
               | Some sz \<Rightarrow>
                   if sz < part_required part then part_bad PartTooSmall (part\<lparr>part_file_size := sz\<rparr>)
                   else part\<lparr>part_file_size := sz, part_state := PartConfirmed\<rparr>)
         | [] \<Rightarrow> part_bad PartMissing part
         | _ \<Rightarrow> part_bad PartCase part)"

definition unexpected_sibling :: "string \<Rightarrow> io_part list \<Rightarrow> path \<Rightarrow> bool" where
  "unexpected_sibling lower_stem parts sibling \<longleftrightarrow>
     partition_suffix (lower_name_of sibling) lower_stem \<and>
     \<not> list_ex (\<lambda>part. lower_name_of (part_path part) = lower_name_of sibling) parts"

definition evaluate_partitions :: "dir_view \<Rightarrow> path \<Rightarrow> nat list \<Rightarrow> io_info \<Rightarrow> io_info" where
  "evaluate_partitions dv input required out0 =
     (let out = out0\<lparr>io_pair_checked := True,
            io_parts := map (new_part input required) [0..<io_partition_count out0]\<rparr>;
          directory = (if parent_path input = [] then ''.'' else parent_path input)
      in case dv_list dv directory of
           Inl message \<Rightarrow> out\<lparr>io_error := Some (DirectoryError message), io_state := Partial\<rparr>
         | Inr siblings \<Rightarrow>
             if sibling_budget < length siblings
             then out\<lparr>io_inventory_truncated := True, io_budget_exhausted := True,
                    io_error := Some SiblingBudget, io_state := Partial\<rparr>
             else
               let parts = map (evaluate_part dv siblings) (io_parts out);
                   bad = list_ex (\<lambda>p. part_state p \<noteq> PartConfirmed) parts;
                   unexpected = list_ex (unexpected_sibling (ascii_lower (stem input)) parts) siblings;
                   out1 = out\<lparr>io_parts := parts\<rparr>;
                   out2 = (if unexpected then out1\<lparr>io_error := Some UnexpectedPartition\<rparr> else out1);
                   out3 = out2\<lparr>io_pair_valid := \<not> (bad \<or> unexpected)\<rparr>
               in if bad \<or> unexpected then out3\<lparr>io_state := Partial\<rparr> else out3)"

definition io_pair :: "dir_view \<Rightarrow> path \<Rightarrow> io_info \<times> nat list \<Rightarrow> io_info" where
  "io_pair dv input = (\<lambda>(out0, required).
     let out = evaluate_partitions dv input required out0 in
     if \<not> io_pair_valid out then
       out\<lparr>io_valid := False, io_state := Partial,
         io_error := (case io_error out of None \<Rightarrow> Some PairIncomplete | Some e \<Rightarrow> Some e)\<rparr>
     else if io_encrypted out then
       out\<lparr>io_valid := False, io_state := Partial, io_error := Some DirectoryEncrypted\<rparr>
     else out\<lparr>io_valid := True, io_state := Confirmed\<rparr>)"

definition detect_iostore :: "bytes \<Rightarrow> path \<Rightarrow> dir_view \<Rightarrow> io_info option" where
  "detect_iostore data input dv =
     (if \<not> has_iostore_magic data then
        Some (if has_extension input ''.utoc'' \<or> has_extension input ''.ucas''
              then empty_io\<lparr>io_candidate := True, io_state := Partial,
                     io_error := Some (if has_extension input ''.ucas'' then UcasAlone else UtocExtension)\<rparr>
              else empty_io)
      else
        map_option (\<lambda>r. case r of Inl out \<Rightarrow> out | Inr s \<Rightarrow> io_pair dv input s)
          (io_toc data (empty_io\<lparr>io_candidate := True\<rparr>)))"

end
