(* ===== verification/UnrealIoSafety.thy ===== *)
theory UnrealIoSafety
  imports UnrealIoStore
begin

section \<open>Correctness of the IoStore recognizer\<close>

text \<open>
  A declarative description of a valid table of contents (its header, the tiling of the file by its
  sections, distinct chunk identifiers, chunk ranges inside the logical capacity, disjoint block
  ranges inside their partitions) and of the partition files beside it, and the proof that the
  staged recognizer decides both without leaving the file.
\<close>

subsection \<open>The description\<close>

definition toc_version :: "bytes \<Rightarrow> nat" where "toc_version data = unat (data ! 16)"
definition toc_entries :: "bytes \<Rightarrow> nat" where "toc_entries data = le_at data 24 4"
definition toc_blocks :: "bytes \<Rightarrow> nat" where "toc_blocks data = le_at data 28 4"
definition toc_methods :: "bytes \<Rightarrow> nat" where "toc_methods data = le_at data 36 4"
definition toc_block_size :: "bytes \<Rightarrow> nat" where "toc_block_size data = le_at data 44 4"
definition toc_directory :: "bytes \<Rightarrow> nat" where "toc_directory data = le_at data 48 4"
definition toc_partitions :: "bytes \<Rightarrow> nat" where "toc_partitions data = le_at data 52 4"
definition toc_seeds :: "bytes \<Rightarrow> nat" where "toc_seeds data = le_at data 84 4"
definition toc_overflow :: "bytes \<Rightarrow> nat" where "toc_overflow data = le_at data 96 4"
definition toc_partition_size :: "bytes \<Rightarrow> nat" where "toc_partition_size data = le_at data 88 8"
definition toc_encrypted :: "bytes \<Rightarrow> bool" where "toc_encrypted data \<longleftrightarrow> data ! 80 AND 2 \<noteq> 0"
definition toc_signed :: "bytes \<Rightarrow> bool" where "toc_signed data \<longleftrightarrow> data ! 80 AND 4 \<noteq> 0"

lemmas toc_fields = toc_version_def toc_entries_def toc_blocks_def toc_methods_def toc_block_size_def
  toc_directory_def toc_partitions_def toc_seeds_def toc_overflow_def toc_partition_size_def
  toc_encrypted_def toc_signed_def

definition header_spec :: "bytes \<Rightarrow> bool" where
  "header_spec data \<longleftrightarrow>
     144 \<le> length data \<and> 1 \<le> toc_version data \<and> toc_version data \<le> 8 \<and>
     le_at data 20 4 = 144 \<and> le_at data 32 4 = 12 \<and> le_at data 40 4 = 32 \<and>
     toc_block_size data \<noteq> 0 \<and> toc_partitions data \<noteq> 0 \<and> toc_partition_size data \<noteq> 0 \<and>
     data ! 80 AND 0xf0 = 0 \<and> all_zero data 17 20 \<and> all_zero data 81 84 \<and> all_zero data 100 144 \<and>
     (toc_version data < 4 \<longrightarrow> toc_seeds data = 0) \<and> (toc_version data < 5 \<longrightarrow> toc_overflow data = 0) \<and>
     toc_entries data \<le> io_entry_budget \<and> toc_blocks data \<le> io_block_budget \<and>
     toc_methods data \<le> io_method_budget \<and> toc_partitions data \<le> io_partition_budget \<and>
     toc_directory data \<le> directory_index_budget"

text \<open>Where the sections begin; the last one is the end of the layout.\<close>

definition offsets_pos :: "bytes \<Rightarrow> nat" where
  "offsets_pos data = 144 + toc_entries data * 12"

definition blocks_pos :: "bytes \<Rightarrow> nat" where
  "blocks_pos data = offsets_pos data + toc_entries data * 10 +
     (if 4 \<le> toc_version data then toc_seeds data * 4 else 0) +
     (if 5 \<le> toc_version data then toc_overflow data * 4 else 0)"

definition methods_pos :: "bytes \<Rightarrow> nat" where
  "methods_pos data = blocks_pos data + toc_blocks data * 12"

definition tail_pos :: "bytes \<Rightarrow> nat" where
  "tail_pos data = methods_pos data + toc_methods data * 32"

definition layout_end :: "bytes \<Rightarrow> nat" where
  "layout_end data = tail_pos data +
     (if toc_signed data then 4 + 2 * le_at data (tail_pos data) 4 + toc_blocks data * 20 else 0) +
     toc_directory data + toc_entries data * (if 8 \<le> toc_version data then 24 else 33)"

definition method_slot_ok :: "bytes \<Rightarrow> nat \<Rightarrow> bool" where
  "method_slot_ok data p \<longleftrightarrow> slot_ok data p \<and> data ! p \<noteq> 0"

definition tail_spec :: "bytes \<Rightarrow> bool" where
  "tail_spec data \<longleftrightarrow>
     (toc_signed data \<longrightarrow> le_at data (tail_pos data) 4 \<le> signature_budget) \<and>
     (toc_encrypted data \<longrightarrow> toc_directory data mod 16 = 0) \<and> layout_end data = length data"

definition chunk_id :: "bytes \<Rightarrow> nat \<Rightarrow> bytes" where
  "chunk_id data i = take 12 (drop (144 + i * 12) data)"

definition be5_at :: "bytes \<Rightarrow> nat \<Rightarrow> nat" where
  "be5_at data p = shift_or_be (take 5 (drop p data))"

definition chunk_ok :: "bytes \<Rightarrow> nat \<Rightarrow> bool" where
  "chunk_ok data i \<longleftrightarrow>
     be5_at data (offsets_pos data + i * 10) + be5_at data (offsets_pos data + i * 10 + 5)
       \<le> toc_blocks data * toc_block_size data"

text \<open>A compressed block: its stored size, its partition and its range there.\<close>

definition block_stored :: "bytes \<Rightarrow> nat \<Rightarrow> nat" where
  "block_stored data i =
     (let n = le_at data (blocks_pos data + i * 12 + 5) 3 in
      if toc_encrypted data then (n + 15) - (n + 15) mod 16 else n)"

definition block_partition :: "bytes \<Rightarrow> nat \<Rightarrow> nat" where
  "block_partition data i = le_at data (blocks_pos data + i * 12) 5 div toc_partition_size data"

definition block_range :: "bytes \<Rightarrow> nat \<Rightarrow> nat \<times> nat" where
  "block_range data i =
     (let local = le_at data (blocks_pos data + i * 12) 5 mod toc_partition_size data
      in (local, local + block_stored data i))"

definition block_ok :: "bytes \<Rightarrow> nat \<Rightarrow> bool" where
  "block_ok data i \<longleftrightarrow>
     le_at data (blocks_pos data + i * 12 + 5) 3 \<noteq> 0 \<and> le_at data (blocks_pos data + i * 12 + 8) 3 \<noteq> 0 \<and>
     le_at data (blocks_pos data + i * 12 + 8) 3 \<le> toc_block_size data \<and>
     unat (data ! (blocks_pos data + i * 12 + 11)) \<le> toc_methods data \<and>
     block_partition data i < toc_partitions data \<and> snd (block_range data i) \<le> toc_partition_size data"

definition blocks_disjoint :: "bytes \<Rightarrow> bool" where
  "blocks_disjoint data \<longleftrightarrow>
     (\<forall>i < toc_blocks data. \<forall>j < i. block_partition data i = block_partition data j \<longrightarrow>
        apart (block_range data j) (block_range data i))"

definition toc_spec :: "bytes \<Rightarrow> bool" where
  "toc_spec data \<longleftrightarrow>
     header_spec data \<and> tail_pos data \<le> length data \<and>
     (\<forall>i < toc_methods data. method_slot_ok data (methods_pos data + i * 32)) \<and> tail_spec data \<and>
     distinct (map (chunk_id data) [0..<toc_entries data]) \<and>
     (\<forall>i < toc_entries data. chunk_ok data i) \<and> (\<forall>i < toc_blocks data. block_ok data i) \<and>
     blocks_disjoint data"

subsection \<open>The header\<close>

definition io_refused :: "io_info \<Rightarrow> bool" where
  "io_refused out \<longleftrightarrow> \<not> io_toc_valid out \<and> \<not> io_valid out \<and> \<not> io_pair_valid out \<and> (io_state out = Failed \<or> io_state out = Partial)"

abbreviation io_decides :: "bool \<Rightarrow> ('a \<Rightarrow> bool) \<Rightarrow> (io_info, 'a) outcome \<Rightarrow> bool" where
  "io_decides \<equiv> decides_by io_refused"

text \<open>What later stages read of the header.\<close>

definition io_core :: "bytes \<Rightarrow> io_info \<Rightarrow> bool" where
  "io_core data out \<longleftrightarrow>
     \<not> io_toc_valid out \<and> \<not> io_valid out \<and> \<not> io_pair_valid out \<and> io_header_size out = 144 \<and>
     io_version out = toc_version data \<and>
     io_entry_count out = toc_entries data \<and> io_block_count out = toc_blocks data \<and>
     io_method_count out = toc_methods data \<and> io_block_size out = toc_block_size data \<and>
     io_directory_size out = toc_directory data \<and> io_partition_count out = toc_partitions data \<and>
     io_seed_count out = toc_seeds data \<and> io_overflow_count out = toc_overflow data \<and>
     io_partition_size out = toc_partition_size data \<and> io_encrypted out = toc_encrypted data \<and>
     io_signed out = toc_signed data \<and> io_error out = None"

lemma io_core_update [simp]:
  "io_core data (out\<lparr>io_methods := ms\<rparr>) = io_core data out"
  "io_core data (out\<lparr>io_signature_present := b\<rparr>) = io_core data out"
  "io_core data (out\<lparr>io_layout_bytes := n\<rparr>) = io_core data out"
  by (simp_all add: io_core_def)

lemma io_decides_fail [simp]:
  "io_decides C P (io_fail out e) \<longleftrightarrow> \<not> io_toc_valid out \<and> \<not> io_valid out \<and> \<not> io_pair_valid out \<and> \<not> C"
  "io_decides C P (io_partial out e) \<longleftrightarrow> \<not> io_toc_valid out \<and> \<not> io_valid out \<and> \<not> io_pair_valid out \<and> \<not> C"
  by (auto simp: io_fail_def io_partial_def io_refused_def)

lemma io_refused_fail [simp]:
  "meets io_refused P (io_fail out e) \<longleftrightarrow> \<not> io_toc_valid out \<and> \<not> io_valid out \<and> \<not> io_pair_valid out"
  "meets io_refused P (io_partial out e) \<longleftrightarrow> \<not> io_toc_valid out \<and> \<not> io_valid out \<and> \<not> io_pair_valid out"
  by (auto simp: io_fail_def io_partial_def io_refused_def)

lemma version_bounds:
  "(v :: byte) < 1 \<longleftrightarrow> \<not> 1 \<le> unat v" "8 < (v :: byte) \<longleftrightarrow> \<not> unat v \<le> 8"
  by (auto simp: word_less_nat_alt)

lemma toc_header_stage:
  assumes small: "length data \<le> u64_max"
  shows "io_decides (header_spec data) (io_core data) (io_header data (empty_io\<lparr>io_candidate := True\<rparr>))"
proof (cases "144 \<le> length data \<and> 1 \<le> toc_version data \<and> toc_version data \<le> 8")
  case False
  then show ?thesis
    by (auto simp: io_header_def header_spec_def toc_version_def at_Some version_bounds empty_io_def Suc_le_eq unat_gt_0)
next
  case True
  let ?out0 = "empty_io\<lparr>io_candidate := True\<rparr>"
  define H where "H = io_read_header data (data ! 16) (data ! 80) ?out0"
  have reads: "or_zero (read_le32 data off) = le_at data off 4" if "off \<le> 140" for off
    using that True by (simp add: read_le32_at [OF small])
  have read8: "or_zero (read_le64 data 88) = le_at data 88 8" using True by (simp add: read_le64_at [OF small])
  have fields: "io_header_size H = le_at data 20 4" "io_block_entry_size H = le_at data 32 4"
    "io_method_length H = le_at data 40 4" "io_block_size H = toc_block_size data"
    "io_partition_count H = toc_partitions data" "io_partition_size H = toc_partition_size data"
    "io_version H = toc_version data" "io_seed_count H = toc_seeds data" "io_overflow_count H = toc_overflow data"
    "io_entry_count H = toc_entries data" "io_block_count H = toc_blocks data" "io_method_count H = toc_methods data"
    "io_directory_size H = toc_directory data" "io_encrypted H = toc_encrypted data" "io_signed H = toc_signed data"
    "\<not> io_toc_valid H" "\<not> io_valid H" "\<not> io_pair_valid H" "io_error H = None"
    by (simp_all add: H_def io_read_header_def empty_io_def reads read8 toc_fields)
  have core: "le_at data 20 4 = 144 \<Longrightarrow> io_core data H" by (simp add: io_core_def fields)
  have eq: "io_header data ?out0 =
      (if le_at data 20 4 \<noteq> 144 \<or> le_at data 32 4 \<noteq> 12 \<or> le_at data 40 4 \<noteq> 32 \<or>
          toc_block_size data = 0 \<or> toc_partitions data = 0 \<or> toc_partition_size data = 0 \<or>
          data ! 80 AND 0xf0 \<noteq> 0 \<or> \<not> all_zero data 17 20 \<or> \<not> all_zero data 81 84 \<or> \<not> all_zero data 100 144
       then io_fail H TocHeader
       else if toc_version data < 4 \<and> toc_seeds data \<noteq> 0 then io_fail H SeedsEarly
       else if toc_version data < 5 \<and> toc_overflow data \<noteq> 0 then io_fail H OverflowEarly
       else if io_entry_budget < toc_entries data \<or> io_block_budget < toc_blocks data \<or>
          io_method_budget < toc_methods data \<or> io_partition_budget < toc_partitions data \<or>
          directory_index_budget < toc_directory data
       then io_partial (H\<lparr>io_budget_exhausted := True\<rparr>) TocBudget
       else pass H)"
  proof -
    have "\<not> (data ! 16 < 1)" "\<not> 8 < data ! 16"
      using True unfolding toc_version_def version_bounds by simp_all
    then have no: "(data ! 16 < 1 \<or> 8 < data ! 16) = False" "(length data < 144) = False" using True by simp_all
    have reads: "at data 16 = Some (data ! 16)" "at data 80 = Some (data ! 80)" using True by (simp_all add: at_Some)
    show ?thesis
      unfolding io_header_def
      by (simp only: no if_False reads access_Some step_simps Let_def H_def [symmetric] fields)
  qed
  show ?thesis
    unfolding eq using True core by (auto simp: header_spec_def fields not_less)
qed

subsection \<open>Sections\<close>

lemma add_section_eq:
  assumes "size0 \<le> u64_max" and "cursor \<le> u64_max"
  shows "add_section cursor n width size0 = (if cursor + n * width \<le> size0 then Some (cursor + n * width) else None)"
proof -
  have "checked_mul n width = (if n * width \<le> u64_max then Some (n * width) else None)"
    using checked_mul_iff [of n width "n * width"] checked_mul_iff [of n width] by (cases "checked_mul n width") auto
  moreover have "checked_add cursor (n * width) = (if cursor + n * width \<le> u64_max then Some (cursor + n * width) else None)"
    by (rule checked_add_eq [OF assms(2)])
  ultimately show ?thesis using assms(1) by (auto simp: add_section_def)
qed

lemma section_stage:
  assumes "length data \<le> u64_max" and "cursor \<le> length data" and "io_core data out"
  shows "io_decides (cursor + n * width \<le> length data) (\<lambda>c. c = cursor + n * width) (io_section data out e cursor n width)"
  using assms add_section_eq [of "length data" cursor n width] by (simp add: io_section_def io_core_def)

lemma optional_section_stage:
  assumes "length data \<le> u64_max" and "cursor \<le> length data" and "io_core data out"
  shows "io_decides (cursor + (if b then n * width else 0) \<le> length data) (\<lambda>c. c = cursor + (if b then n * width else 0))
    (if b then io_section data out e cursor n width else pass cursor)"
  using section_stage [OF assms] assms(2) by simp

lemma sections_stage:
  assumes small: "length data \<le> u64_max" and core: "io_core data out" and big: "144 \<le> length data"
  shows "io_decides (tail_pos data \<le> length data)
    (\<lambda>(offs, blks, meths, e). offs = offsets_pos data \<and> blks = blocks_pos data \<and> meths = methods_pos data \<and> e = tail_pos data)
    (io_sections data out)"
proof -
  let ?n = "length data"
  let ?s = "if 4 \<le> toc_version data then toc_seeds data * 4 else 0"
  let ?o = "if 5 \<le> toc_version data then toc_overflow data * 4 else 0"
  have fields: "io_header_size out = 144" "io_version out = toc_version data" "io_entry_count out = toc_entries data"
    "io_block_count out = toc_blocks data" "io_method_count out = toc_methods data"
    "io_seed_count out = toc_seeds data" "io_overflow_count out = toc_overflow data"
    using core by (simp_all add: io_core_def)
  have "io_decides (offsets_pos data \<le> ?n \<and> offsets_pos data + toc_entries data * 10 \<le> ?n \<and>
      offsets_pos data + toc_entries data * 10 + ?s \<le> ?n \<and> blocks_pos data \<le> ?n \<and>
      methods_pos data \<le> ?n \<and> tail_pos data \<le> ?n)
    (\<lambda>(offs, blks, meths, e). offs = offsets_pos data \<and> blks = blocks_pos data \<and> meths = methods_pos data \<and> e = tail_pos data)
    (io_sections data out)"
    unfolding io_sections_def fields offsets_pos_def [symmetric]
    apply (rule decides_step [OF section_stage [OF small big core, of "toc_entries data" 12, folded offsets_pos_def]], hypsubst)
    apply (rule decides_step [OF section_stage [OF small _ core]], assumption, hypsubst)
    apply (rule decides_step [OF optional_section_stage [OF small _ core]], assumption, hypsubst)
    apply (rule decides_step [OF optional_section_stage [OF small _ core, where n = "toc_overflow data" and width = 4
        and b = "5 \<le> toc_version data" and cursor = "offsets_pos data + toc_entries data * 10 + ?s", folded blocks_pos_def]],
        assumption, hypsubst)
    apply (rule decides_step [OF section_stage [OF small _ core, where n = "toc_blocks data" and width = 12
        and cursor = "blocks_pos data", folded methods_pos_def]], assumption, hypsubst)
    apply (rule decides_mono [OF decides_step [OF section_stage [OF small _ core, where n = "toc_methods data" and width = 32
        and cursor = "methods_pos data", folded tail_pos_def], where D = True and R = "\<lambda>(offs, blks, meths, e). offs = offsets_pos data \<and> blks = blocks_pos data \<and> meths = methods_pos data \<and> e = tail_pos data"]])
    by simp_all
  then show ?thesis
    by (rule decides_mono) (auto simp: tail_pos_def methods_pos_def blocks_pos_def)
qed

lemma method_name_pass:
  assumes "p + 32 \<le> length data"
  shows "(\<exists>name. io_method_name data p = pass name) \<longleftrightarrow> method_slot_ok data p" and "defined (io_method_name data p)"
proof -
  obtain len where len: "slot_length data p 32 = Some len" "len \<le> 32" "\<forall>i < len. data ! (p + i) \<noteq> 0"
      "len < 32 \<longrightarrow> data ! (p + len) = 0"
    using slot_length_Some [OF assms] by auto
  have sub: "subspan data p len = Some (take len (drop p data))" using len(2) assms by (simp add: subspan_Some)
  have zero: "len = 0 \<longleftrightarrow> data ! p = 0" using len(3,4) by (cases len) auto
  show "(\<exists>name. io_method_name data p = pass name) \<longleftrightarrow> method_slot_ok data p"
    unfolding method_slot_ok_def slot_scan_ok [OF len(2-4) assms, symmetric] zero [symmetric]
    by (auto simp: io_method_name_def len(1) sub)
  show "defined (io_method_name data p)" by (simp add: io_method_name_def len(1) sub)
qed

lemma methods_stage:
  assumes "\<forall>i \<in> set is. c + i * 32 + 32 \<le> length data" and "io_core data out"
  shows "io_decides (\<forall>i \<in> set is. method_slot_ok data (c + i * 32)) (io_core data) (io_methods_loop data c is out)"
  using assms
proof (induction "is" arbitrary: out)
  case (Cons i "is")
  then have fit: "c + i * 32 + 32 \<le> length data" by simp
  let ?m = "io_method_name data (c + i * 32)"
  show ?case
  proof (cases "method_slot_ok data (c + i * 32)")
    case True
    then obtain name where "?m = pass name" using method_name_pass [OF fit] by blast
    then show ?thesis using Cons True by (simp add: Cons.IH)
  next
    case False
    then obtain e where "?m = stop e"
      using method_name_pass [OF fit] unfolding defined_def pass_def stop_def by (metis not_Some_eq sum.exhaust)
    then show ?thesis using False Cons.prems(2) by (simp add: io_refused_def io_core_def)
  qed
qed simp

lemma tail_stage:
  assumes small: "length data \<le> u64_max" and core: "io_core data out" and cur: "tail_pos data \<le> length data"
  shows "io_decides (tail_spec data) (\<lambda>o'. io_core data o' \<and> io_layout_bytes o' = length data) (io_tail data (tail_pos data) out)"
proof -
  let ?n = "length data" and ?t = "tail_pos data" and ?sig = "le_at data (tail_pos data) 4"
  let ?e1 = "?t + (if toc_signed data then 4 + 2 * ?sig + toc_blocks data * 20 else 0)"
  have fields: "io_signed o' = toc_signed data" "io_block_count o' = toc_blocks data" "io_encrypted o' = toc_encrypted data"
    "io_directory_size o' = toc_directory data" "io_entry_count o' = toc_entries data" "io_version o' = toc_version data"
    "\<not> io_toc_valid o'" "\<not> io_valid o'" "\<not> io_pair_valid o'"
    if "io_core data o'" for o'
    using that by (simp_all add: io_core_def)
  have sec: "io_section data o' e c k w = (if c + k * w \<le> ?n then pass (c + k * w) else io_fail o' e)"
    if "c \<le> ?n" for o' e c k w
    using add_section_eq [of ?n c k w] that small by (simp add: io_section_def)
  have sign: "io_decides ((toc_signed data \<longrightarrow> ?sig \<le> signature_budget) \<and> ?e1 \<le> ?n)
      (\<lambda>(out', c). io_core data out' \<and> c = ?e1) (io_signature data ?t out)"
  proof (cases "toc_signed data")
    case False
    then show ?thesis using core cur fields [OF core] by (simp add: io_signature_def)
  next
    case True
    show ?thesis
    proof (cases "?t + 4 \<le> ?n")
      case False
      then show ?thesis using True core fields [OF core] by (simp add: io_signature_def read_le32_at [OF small])
    next
      case in4: True
      show ?thesis
        using True in4 core fields [OF core]
        by (simp add: io_signature_def read_le32_at [OF small] sec algebra_simps)
    qed
  qed
  have rest: "io_decides ((toc_encrypted data \<longrightarrow> toc_directory data mod 16 = 0) \<and> layout_end data = ?n)
      (\<lambda>o'. io_core data o' \<and> io_layout_bytes o' = ?n)
      (if io_encrypted o' \<and> io_directory_size o' mod 16 \<noteq> 0 then io_fail o' DirectoryAlignment
       else step (io_section data o' DirectorySection ?e1 1 (io_directory_size o')) (\<lambda>c.
         step (io_section data o' MetaSection c (io_entry_count o') (if 8 \<le> io_version o' then 24 else 33)) (\<lambda>e.
           if e \<noteq> length data then io_fail o' TrailingBytes else pass (o'\<lparr>io_layout_bytes := e\<rparr>))))"
    if o': "io_core data o'" and e1: "?e1 \<le> ?n" for o'
  proof -
    have le: "layout_end data = ?n \<Longrightarrow> ?e1 + toc_directory data \<le> ?n" by (simp add: layout_end_def)
    have "layout_end data = ?e1 + toc_directory data + toc_entries data * (if 8 \<le> toc_version data then 24 else 33)"
      by (simp add: layout_end_def)
    then show ?thesis
      using o' le e1 unfolding fields [OF o'] by (auto simp: sec fields [OF o'])
  qed
  have "io_decides (((toc_signed data \<longrightarrow> ?sig \<le> signature_budget) \<and> ?e1 \<le> ?n) \<and>
      (toc_encrypted data \<longrightarrow> toc_directory data mod 16 = 0) \<and> layout_end data = ?n)
      (\<lambda>o'. io_core data o' \<and> io_layout_bytes o' = ?n)
    (io_tail data ?t out)"
    unfolding io_tail_def
    by (rule decides_step2 [OF sign], elim conjE, hypsubst, rule rest)
  then show ?thesis by (rule decides_mono) (auto simp: tail_spec_def layout_end_def)
qed

subsection \<open>Chunks\<close>

lemma adjacent_equal_sorted: "sorted xs \<Longrightarrow> adjacent_equal (xs :: 'a::linorder list) \<longleftrightarrow> \<not> distinct xs"
proof (induction xs rule: adjacent_equal.induct)
  case (1 a b rest)
  have "a \<notin> set (b # rest)" if "a \<noteq> b" using 1(2) that by (auto dest: order_antisym)
  then show ?case using 1 by auto
qed auto

lemma read_chunk_ids_eq:
  "\<forall>i \<in> set is. 144 + i * 12 + 12 \<le> length data \<Longrightarrow> read_chunk_ids data 144 is = Some (map (chunk_id data) is)"
  by (induction "is") (auto simp: subspan_Some chunk_id_def)

lemma index_bound: "i \<in> set [0..<n] \<Longrightarrow> start + n * w \<le> m \<Longrightarrow> start + i * w + w \<le> (m::nat)"
proof -
  assume "i \<in> set [0..<n]" "start + n * w \<le> m"
  then have "(i + 1) * w \<le> n * w" by (intro mult_le_mono1) auto
  then show ?thesis using \<open>start + n * w \<le> m\<close> by simp
qed

lemma chunk_ids_stage:
  assumes "offsets_pos data \<le> length data" and core: "io_core data out"
  shows "io_decides (distinct (map (chunk_id data) [0..<toc_entries data])) (\<lambda>out'. out' = out) (io_chunk_ids data out)"
proof -
  have "read_chunk_ids data 144 [0..<toc_entries data] = Some (map (chunk_id data) [0..<toc_entries data])"
    using assms(1) unfolding offsets_pos_def by (intro read_chunk_ids_eq ballI) (rule index_bound)
  moreover have "adjacent_equal (sort ids) \<longleftrightarrow> \<not> distinct ids" for ids :: "bytes list"
    using adjacent_equal_sorted [of "sort ids"] by simp
  ultimately show ?thesis using core by (simp add: io_chunk_ids_def io_core_def)
qed

lemma be5_less: "be5_at data p < 2 ^ 40"
proof -
  have "shift_or_be bs < 256 ^ length bs" for bs
  proof (induction bs rule: rev_induct)
    case (snoc b bs)
    have "shift_or_be (bs @ [b]) = push_bit 8 (shift_or_be bs) OR unat b" by (simp add: shift_or_be_def)
    also have "\<dots> = unat b OR push_bit 8 (shift_or_be bs)" by (simp add: or.commute)
    also have "\<dots> = unat b + 256 * shift_or_be bs"
      using or_push_bit_nat [of "unat b" 8 "shift_or_be bs"] unat_byte_less [of b] by simp
    also have "\<dots> < 256 * Suc (shift_or_be bs)" using unat_byte_less [of b] by simp
    also have "\<dots> \<le> 256 * 256 ^ length bs" using snoc by (meson Suc_leI mult_le_mono2)
    finally show ?case by simp
  qed (simp add: shift_or_be_def)
  then have "be5_at data p < 256 ^ length (take 5 (drop p data))" unfolding be5_at_def .
  also have "\<dots> \<le> 256 ^ 5" by (rule power_increasing) simp_all
  finally show ?thesis by simp
qed

lemma offsets_loop_stage:
  assumes "\<forall>i \<in> set is. c + i * 10 + 10 \<le> length data" and "io_core data out"
  shows "io_decides (\<forall>i \<in> set is. be5_at data (c + i * 10) + be5_at data (c + i * 10 + 5) \<le> cap) (\<lambda>out'. out' = out)
    (io_offsets_loop data c cap is out)"
  using assms(1)
proof (induction "is")
  case (Cons i "is")
  let ?p = "c + i * 10"
  have reads: "read_be5 data ?p = Some (be5_at data ?p)" "read_be5 data (?p + 5) = Some (be5_at data (?p + 5))"
    using Cons.prems by (simp_all add: read_be5_Some be5_at_def)
  have "be5_at data ?p + be5_at data (?p + 5) \<le> u64_max"
    using be5_less [of data ?p] be5_less [of data "?p + 5"] by (simp add: u64_max_def)
  then have add: "checked_add (be5_at data ?p) (be5_at data (?p + 5)) = Some (be5_at data ?p + be5_at data (?p + 5))"
    by (simp add: checked_add_iff)
  show ?case using Cons assms(2) by (auto simp: reads add io_core_def elim!: meets_mono)
qed simp

lemma offsets_stage:
  assumes "offsets_pos data + toc_entries data * 10 \<le> length data" and core: "io_core data out"
    and small: "toc_blocks data \<le> io_block_budget"
  shows "io_decides (\<forall>i < toc_entries data. chunk_ok data i) (\<lambda>out'. out' = out) (io_offsets data (offsets_pos data) out)"
proof -
  have "toc_blocks data * toc_block_size data \<le> 4000000 * 4294967295"
    using small le_at_less [of data 44 4]
    by (intro mult_le_mono) (simp_all add: io_block_budget_def toc_block_size_def)
  then have mul: "checked_mul (toc_blocks data) (toc_block_size data) = Some (toc_blocks data * toc_block_size data)"
    by (simp add: checked_mul_iff u64_max_def)
  have fields: "io_block_count out = toc_blocks data" "io_block_size out = toc_block_size data" "io_entry_count out = toc_entries data"
    using core by (simp_all add: io_core_def)
  have "\<forall>i \<in> set [0..<toc_entries data]. offsets_pos data + i * 10 + 10 \<le> length data"
    using assms(1) by (intro ballI) (rule index_bound)
  from offsets_loop_stage [OF this core, of "toc_blocks data * toc_block_size data"] show ?thesis
    by (simp add: io_offsets_def fields mul chunk_ok_def atLeast0LessThan Ball_def)
qed

subsection \<open>Blocks\<close>

text \<open>The accumulated geometry: the ranges of each partition in order, and what each partition needs.\<close>

lemma add_blocks_ranges:
  "k < length R \<Longrightarrow> length Q = length R \<Longrightarrow> \<forall>b \<in> set bs. fst b < length R \<Longrightarrow>
    length (fst (fold add_block bs (R, Q))) = length R \<and> length (snd (fold add_block bs (R, Q))) = length R \<and>
    fst (fold add_block bs (R, Q)) ! k = R ! k @ map snd (filter (\<lambda>b. fst b = k) bs) \<and>
    snd (fold add_block bs (R, Q)) ! k = fold max (map (snd \<circ> snd) (filter (\<lambda>b. fst b = k) bs)) (Q ! k)"
proof (induction bs arbitrary: R Q)
  case (Cons b bs)
  obtain j lo e where b: "b = (j, lo, e)" by (cases b)
  let ?R = "R[j := R ! j @ [(lo, e)]]" and ?Q = "Q[j := max (Q ! j) e]"
  have "fold add_block (b # bs) (R, Q) = fold add_block bs (?R, ?Q)" by (simp add: b add_block_def)
  then show ?case
    using Cons.IH [of ?R ?Q] Cons.prems by (cases "j = k") (auto simp: b max.commute)
qed simp

definition block_of :: "bytes \<Rightarrow> nat \<Rightarrow> nat \<times> nat \<times> nat" where
  "block_of data i = (block_partition data i, block_range data i)"

lemma block_stored_bound: "block_stored data i < 2 ^ 25"
  using le_at_less [of data "blocks_pos data + i * 12 + 5" 3] by (simp add: block_stored_def Let_def) linarith

lemma block_stage:
  assumes fit: "blocks_pos data + i * 12 + 12 \<le> length data" and core: "io_core data out"
  shows "io_decides (block_ok data i) (\<lambda>b. b = block_of data i) (io_block data (blocks_pos data) out i)"
proof -
  let ?p = "blocks_pos data + i * 12"
  have reads: "read_le_n data ?p 5 = Some (le_at data ?p 5)" "read_le_n data (?p + 5) 3 = Some (le_at data (?p + 5) 3)"
    "read_le_n data (?p + 8) 3 = Some (le_at data (?p + 8) 3)" "at data (?p + 11) = Some (data ! (?p + 11))"
    using fit by (simp_all add: read_le_n_iff le_at_def at_Some)
  have "le_at data (?p + 5) 3 + 15 \<le> u64_max" using le_at_less [of data "?p + 5" 3] by (simp add: u64_max_def)
  then have "checked_add (le_at data (?p + 5) 3) 15 = Some (le_at data (?p + 5) 3 + 15)" by (simp add: checked_add_iff)
  then have stored: "stored_size (toc_encrypted data) (le_at data (?p + 5) 3) = Some (block_stored data i)"
    by (simp add: stored_size_def block_stored_def Let_def)
  let ?lo = "le_at data ?p 5 mod toc_partition_size data"
  have "?lo < 1099511627776"
    by (rule le_less_trans [OF mod_less_eq_dividend]) (use le_at_less [of data ?p 5] in simp)
  then have "?lo + block_stored data i \<le> u64_max"
    using block_stored_bound [of data i] by (simp add: u64_max_def)
  then have add: "checked_add ?lo (block_stored data i) = Some (?lo + block_stored data i)" by (simp add: checked_add_iff)
  have fields: "io_block_size out = toc_block_size data" "io_method_count out = toc_methods data"
    "io_encrypted out = toc_encrypted data" "io_partition_size out = toc_partition_size data"
    "io_partition_count out = toc_partitions data" "\<not> io_toc_valid out" "\<not> io_valid out" "\<not> io_pair_valid out"
    using core by (simp_all add: io_core_def)
  show ?thesis
    unfolding io_block_def Let_def
    by (simp add: reads fields stored add not_less)
      (auto simp: block_ok_def block_of_def block_range_def block_partition_def Let_def not_less)
qed

lemma blocks_loop_stage:
  assumes "\<forall>i \<in> set is. blocks_pos data + i * 12 + 12 \<le> length data" and "io_core data out"
  shows "io_decides (\<forall>i \<in> set is. block_ok data i) (\<lambda>g'. g' = fold add_block (map (block_of data) is) g)
    (io_blocks_loop data (blocks_pos data) out is g)"
  using assms(1)
proof (induction "is" arbitrary: g)
  case (Cons i "is")
  have "io_decides (block_ok data i \<and> (\<forall>i \<in> set is. block_ok data i))
      (\<lambda>g'. g' = fold add_block (map (block_of data) is) (add_block (block_of data i) g))
      (io_blocks_loop data (blocks_pos data) out (i # is) g)"
    unfolding io_blocks_loop.simps
    by (rule decides_step [OF block_stage [OF _ assms(2)]]) (use Cons in auto)
  then show ?case by simp
qed simp

text \<open>What partition \<open>k\<close> needs.\<close>

definition block_need :: "bytes \<Rightarrow> nat \<Rightarrow> nat" where
  "block_need data k =
     fold max (map (\<lambda>i. snd (block_range data i)) (filter (\<lambda>i. block_partition data i = k) [0..<toc_blocks data])) 0"

lemma fold_max_ge: "m \<le> fold max xs (m::nat) \<and> (\<forall>x \<in> set xs. x \<le> fold max xs m)"
proof (induction xs arbitrary: m)
  case (Cons y ys)
  show ?case using Cons.IH [of "max y m"] by simp
qed simp

lemma block_nonempty: "block_ok data i \<Longrightarrow> fst (block_range data i) < snd (block_range data i)"
proof -
  assume "block_ok data i"
  then have n: "0 < le_at data (blocks_pos data + i * 12 + 5) 3" by (simp add: block_ok_def)
  let ?n = "le_at data (blocks_pos data + i * 12 + 5) 3"
  have "(?n + 15) mod 16 < 16" by simp
  then have "(?n + 15) mod 16 < ?n + 15" using n by linarith
  then have "0 < block_stored data i" using n by (simp add: block_stored_def Let_def)
  then show ?thesis by (simp add: block_range_def Let_def)
qed

lemma block_need_ge:
  "i < toc_blocks data \<Longrightarrow> snd (block_range data i) \<le> block_need data (block_partition data i)"
  unfolding block_need_def by (rule fold_max_ge [THEN conjunct2, rule_format]) auto

lemma sorted_wrt_filter_upt:
  "sorted_wrt R (map f (filter P [0..<n])) \<longleftrightarrow> (\<forall>i < n. \<forall>j < i. P i \<and> P j \<longrightarrow> R (f j) (f i))"
  by (induction n) (auto simp: sorted_wrt_append less_Suc_eq)

lemma blocks_stage:
  assumes room: "blocks_pos data + toc_blocks data * 12 \<le> length data" and core: "io_core data out"
  shows "io_decides ((\<forall>i < toc_blocks data. block_ok data i) \<and> blocks_disjoint data)
    (\<lambda>(out', required). out' = out\<lparr>io_toc_valid := True, io_state := Confirmed\<rparr> \<and>
      required = map (block_need data) [0..<toc_partitions data]) (io_blocks data (blocks_pos data) out)"
proof -
  let ?n = "toc_partitions data" and ?is = "[0..<toc_blocks data]"
  let ?g = "(replicate ?n [], replicate ?n 0) :: geometry"
  let ?final = "fold add_block (map (block_of data) ?is) ?g"
  have fields: "io_block_count out = toc_blocks data" "io_partition_count out = ?n"
    "\<not> io_toc_valid out" "\<not> io_valid out" "\<not> io_pair_valid out"
    using core by (simp_all add: io_core_def)
  have fit: "\<forall>i \<in> set ?is. blocks_pos data + i * 12 + 12 \<le> length data"
    using room by (intro ballI) (rule index_bound)
  have last: "io_decides (blocks_disjoint data)
      (\<lambda>(out', required). out' = out\<lparr>io_toc_valid := True, io_state := Confirmed\<rparr> \<and>
        required = map (block_need data) [0..<?n])
      (case ?final of (ranges, required) \<Rightarrow>
         if list_ex (\<lambda>rs. overlapping (sort rs)) ranges then io_fail out BlockOverlap
         else pass (out\<lparr>io_toc_valid := True, io_state := Confirmed\<rparr>, required))"
    if ok: "\<forall>i \<in> set ?is. block_ok data i"
  proof -
    have inside: "\<forall>b \<in> set (map (block_of data) ?is). fst b < length (replicate ?n [])"
      using ok by (auto simp: block_of_def block_ok_def)
    have at_k: "length (fst ?final) = ?n" "length (snd ?final) = ?n"
      "fst ?final ! k = map (block_range data) (filter (\<lambda>i. block_partition data i = k) ?is)"
      "snd ?final ! k = block_need data k" if "k < ?n" for k
      using add_blocks_ranges [of k "replicate ?n []" "replicate ?n 0" "map (block_of data) ?is"] inside that
      by (simp_all add: filter_map comp_def block_of_def block_need_def)
    have pos: "0 < ?n \<or> ?is = []" using inside by (cases ?n) (auto simp: block_of_def)
    have len: "length (fst ?final) = ?n \<and> length (snd ?final) = ?n"
      using at_k(1,2) pos by (cases "?n = 0") auto
    have "snd ?final = map (block_need data) [0..<?n]"
      using len at_k(4) by (intro nth_equalityI) auto
    moreover have "list_ex (\<lambda>rs. overlapping (sort rs)) (fst ?final) \<longleftrightarrow> \<not> blocks_disjoint data"
    proof -
      have one: "overlapping (sort (fst ?final ! k)) \<longleftrightarrow>
          \<not> (\<forall>i < toc_blocks data. \<forall>j < i. block_partition data i = k \<and> block_partition data j = k \<longrightarrow>
            apart (block_range data j) (block_range data i))" if "k < ?n" for k
      proof -
        have "\<forall>r \<in> set (fst ?final ! k). fst r < snd r"
          using ok block_nonempty unfolding at_k(3) [OF that] by auto
        then show ?thesis
          unfolding at_k(3) [OF that] by (simp add: overlapping_sort_iff sorted_wrt_filter_upt)
      qed
      have "list_ex (\<lambda>rs. overlapping (sort rs)) (fst ?final) \<longleftrightarrow> (\<exists>k < ?n. overlapping (sort (fst ?final ! k)))"
        using len by (auto simp: list_ex_length)
      also have "\<dots> \<longleftrightarrow> (\<exists>k < ?n. \<not> (\<forall>i < toc_blocks data. \<forall>j < i.
          block_partition data i = k \<and> block_partition data j = k \<longrightarrow> apart (block_range data j) (block_range data i)))"
        using one by blast
      also have "\<dots> \<longleftrightarrow> \<not> blocks_disjoint data"
      proof -
        have "\<forall>i < toc_blocks data. block_partition data i < ?n" using ok by (simp add: block_ok_def)
        then show ?thesis unfolding blocks_disjoint_def by metis
      qed
      finally show ?thesis .
    qed
    ultimately show ?thesis using fields by (cases ?final) auto
  qed
  have "io_decides ((\<forall>i \<in> set ?is. block_ok data i) \<and> blocks_disjoint data)
    (\<lambda>(out', required). out' = out\<lparr>io_toc_valid := True, io_state := Confirmed\<rparr> \<and>
      required = map (block_need data) [0..<?n]) (io_blocks data (blocks_pos data) out)"
    unfolding io_blocks_def fields
    by (rule decides_step [OF blocks_loop_stage [OF fit core]], hypsubst, rule last)
  then show ?thesis by (simp add: atLeast0LessThan Ball_def)
qed

subsection \<open>The table of contents\<close>

lemma layout_positions: "offsets_pos data + toc_entries data * 10 \<le> tail_pos data"
    "blocks_pos data + toc_blocks data * 12 \<le> tail_pos data" "methods_pos data + toc_methods data * 32 \<le> tail_pos data"
    "offsets_pos data \<le> tail_pos data"
  by (simp_all add: tail_pos_def methods_pos_def blocks_pos_def)

lemma toc_stage:
  assumes small: "length data \<le> u64_max"
  shows "io_decides (toc_spec data)
    (\<lambda>(out', required). (\<exists>out. io_core data out \<and> io_layout_bytes out = length data \<and> out' = out\<lparr>io_toc_valid := True, io_state := Confirmed\<rparr>) \<and>
      required = map (block_need data) [0..<toc_partitions data])
    (io_toc data (empty_io\<lparr>io_candidate := True\<rparr>))"
proof -
  let ?post = "\<lambda>(out', required). (\<exists>out. io_core data out \<and> io_layout_bytes out = length data \<and> out' = out\<lparr>io_toc_valid := True, io_state := Confirmed\<rparr>) \<and>
      required = map (block_need data) [0..<toc_partitions data]"
  let ?B = "(\<forall>i < toc_blocks data. block_ok data i) \<and> blocks_disjoint data"
  let ?M = "\<forall>i < toc_methods data. method_slot_ok data (methods_pos data + i * 32)"
  let ?D = "distinct (map (chunk_id data) [0..<toc_entries data])" and ?C = "\<forall>i < toc_entries data. chunk_ok data i"
  have rest: "io_decides (?M \<and> tail_spec data \<and> ?D \<and> ?C \<and> ?B) ?post
      (step (io_methods_loop data (methods_pos data) [0..<io_method_count out] (out\<lparr>io_methods := []\<rparr>)) (\<lambda>out.
       step (io_tail data (tail_pos data) out) (\<lambda>out.
       step (io_chunk_ids data out) (\<lambda>out.
       step (io_offsets data (offsets_pos data) out) (\<lambda>out. io_blocks data (blocks_pos data) out)))))"
    if head: "header_spec data" and core: "io_core data out" and inside: "tail_pos data \<le> length data" for out
  proof -
    note pos = layout_positions [of data, THEN order_trans, OF inside]
    have fit: "\<forall>i \<in> set [0..<toc_methods data]. methods_pos data + i * 32 + 32 \<le> length data"
      using pos(3) by (intro ballI) (rule index_bound)
    have n: "io_method_count out = toc_methods data" using core by (simp add: io_core_def)
    have core0: "io_core data (out\<lparr>io_methods := []\<rparr>)" using core by simp
    have m: "io_decides ?M (io_core data) (io_methods_loop data (methods_pos data) [0..<io_method_count out] (out\<lparr>io_methods := []\<rparr>))"
      unfolding n by (rule decides_mono [OF methods_stage [OF fit core0]]) auto
    have budget: "toc_blocks data \<le> io_block_budget" using head by (simp add: header_spec_def)
    show ?thesis
      apply (rule decides_step [OF m])
      apply (rule decides_step [OF tail_stage [OF small _ inside]], assumption, elim conjE)
      apply (rule decides_step [OF chunk_ids_stage [OF pos(4)]], assumption, hypsubst)
      apply (rule decides_step [OF offsets_stage [OF pos(1) _ budget]], assumption, hypsubst)
      apply (rule decides_mono [OF blocks_stage [OF pos(2)]], assumption, rule refl)
      apply auto
      done
  qed
  have "io_decides (header_spec data \<and> tail_pos data \<le> length data \<and> ?M \<and> tail_spec data \<and> ?D \<and> ?C \<and> ?B) ?post
    (io_toc data (empty_io\<lparr>io_candidate := True\<rparr>))"
    unfolding io_toc_def
  proof (rule decides_step [OF toc_header_stage [OF small]])
    fix out assume head: "header_spec data" and core: "io_core data out"
    have big: "144 \<le> length data" using head by (simp add: header_spec_def)
    show "io_decides (tail_pos data \<le> length data \<and> ?M \<and> tail_spec data \<and> ?D \<and> ?C \<and> ?B) ?post
      (step (io_sections data out) (\<lambda>(offsets_at, blocks_at, methods_at, cursor).
       step (io_methods_loop data methods_at [0..<io_method_count out] (out\<lparr>io_methods := []\<rparr>)) (\<lambda>out.
       step (io_tail data cursor out) (\<lambda>out.
       step (io_chunk_ids data out) (\<lambda>out.
       step (io_offsets data offsets_at out) (\<lambda>out. io_blocks data blocks_at out))))))"
      by (rule decides_step [OF sections_stage [OF small core big]]) (use rest [OF head core] in auto)
  qed
  then show ?thesis by (rule decides_mono) (auto simp: toc_spec_def)
qed

subsection \<open>The partition files\<close>

definition sibling_dir :: "path \<Rightarrow> path" where
  "sibling_dir input = (if parent_path input = [] then ''.'' else parent_path input)"

text \<open>Partition \<open>k\<close> has exactly one sibling with its name in any case, and that one is a large enough regular file.\<close>

definition part_spec :: "dir_view \<Rightarrow> path list \<Rightarrow> path \<Rightarrow> nat \<Rightarrow> nat \<Rightarrow> bool" where
  "part_spec dv siblings input need k \<longleftrightarrow>
     (\<exists>m. filter (\<lambda>s. lower_name_of s = lower_name_of (expected_partition_path input k)) siblings = [m] \<and>
        filename m = filename (expected_partition_path input k) \<and> dv_status dv m = IsRegular \<and>
        (\<exists>sz. dv_size dv m = Some sz \<and> need \<le> sz))"

definition pair_spec :: "dir_view \<Rightarrow> path \<Rightarrow> bytes \<Rightarrow> bool" where
  "pair_spec dv input data \<longleftrightarrow>
     (\<exists>siblings. dv_list dv (sibling_dir input) = Inr siblings \<and> length siblings \<le> sibling_budget \<and>
        (\<forall>k < toc_partitions data. part_spec dv siblings input (block_need data k) k) \<and>
        (\<forall>s \<in> set siblings. partition_suffix (lower_name_of s) (ascii_lower (stem input)) \<longrightarrow>
           (\<exists>k < toc_partitions data. lower_name_of (expected_partition_path input k) = lower_name_of s)))"

lemma evaluate_part_path [simp]: "part_path (evaluate_part dv siblings part) = part_path part"
  by (auto simp: evaluate_part_def part_bad_def Let_def split: list.splits option.splits)

lemma evaluate_part_confirmed:
  "part_state (evaluate_part dv siblings (new_part input required k)) = PartConfirmed \<longleftrightarrow>
    part_spec dv siblings input (required ! k) k"
  by (auto simp: evaluate_part_def part_spec_def new_part_def part_bad_def lower_name_of_def Let_def not_less
      split: list.splits option.splits)

lemma evaluate_partitions_pair:
  assumes "\<not> io_pair_valid out" and "io_partition_count out = toc_partitions data"
  shows "io_pair_valid (evaluate_partitions dv input (map (block_need data) [0..<toc_partitions data]) out) \<longleftrightarrow>
    pair_spec dv input data"
proof (cases "dv_list dv (sibling_dir input)")
  case (Inl message)
  then show ?thesis using assms(1)
    by (simp add: evaluate_partitions_def pair_spec_def sibling_dir_def Let_def)
next
  case (Inr siblings)
  let ?req = "map (block_need data) [0..<toc_partitions data]"
  let ?parts = "map (evaluate_part dv siblings) (map (new_part input ?req) [0..<toc_partitions data])"
  have bad: "list_ex (\<lambda>p. part_state p \<noteq> PartConfirmed) ?parts \<longleftrightarrow>
      \<not> (\<forall>k < toc_partitions data. part_spec dv siblings input (block_need data k) k)"
    by (auto simp: list_ex_iff evaluate_part_confirmed)
  have other: "list_ex (unexpected_sibling (ascii_lower (stem input)) ?parts) siblings \<longleftrightarrow>
      \<not> (\<forall>s \<in> set siblings. partition_suffix (lower_name_of s) (ascii_lower (stem input)) \<longrightarrow>
           (\<exists>k < toc_partitions data. lower_name_of (expected_partition_path input k) = lower_name_of s))"
    by (auto simp: list_ex_iff unexpected_sibling_def new_part_def)
  have "io_pair_valid (evaluate_partitions dv input ?req out) \<longleftrightarrow>
      length siblings \<le> sibling_budget \<and> \<not> list_ex (\<lambda>p. part_state p \<noteq> PartConfirmed) ?parts \<and>
      \<not> list_ex (unexpected_sibling (ascii_lower (stem input)) ?parts) siblings"
    using Inr assms by (simp add: evaluate_partitions_def sibling_dir_def Let_def comp_def)
  then show ?thesis unfolding bad other using Inr by (auto simp: pair_spec_def)
qed

subsection \<open>Properties\<close>

lemma detect_iostore_cases:
  assumes "length data \<le> u64_max" and "has_iostore_magic data"
  obtains out where "detect_iostore data input dv = Some out" "\<not> toc_spec data" "io_refused out"
  | out0 where "toc_spec data" "io_core data out0" "io_layout_bytes out0 = length data"
      "detect_iostore data input dv = Some (io_pair dv input
        (out0\<lparr>io_toc_valid := True, io_state := Confirmed\<rparr>, map (block_need data) [0..<toc_partitions data]))"
  using toc_stage [OF assms(1)]
proof (cases rule: meets_cases)
  case (1 out)
  then show ?thesis using that(1) assms(2) by (simp add: detect_iostore_def stop_def)
next
  case (2 a)
  then show ?thesis using that(2) assms(2) by (cases a) (auto simp: detect_iostore_def pass_def)
qed

lemma evaluate_partitions_keeps [simp]:
  "io_toc_valid (evaluate_partitions dv input required out) = io_toc_valid out"
  "io_encrypted (evaluate_partitions dv input required out) = io_encrypted out"
  "io_valid (evaluate_partitions dv input required out) = io_valid out"
  "io_header_size (evaluate_partitions dv input required out) = io_header_size out"
  "io_layout_bytes (evaluate_partitions dv input required out) = io_layout_bytes out"
  "io_candidate (evaluate_partitions dv input required out) = io_candidate out"
  by (auto simp: evaluate_partitions_def Let_def split: sum.splits)

lemma io_pair_ranges:
  "io_header_size (io_pair dv input (out, required)) = io_header_size out"
  "io_layout_bytes (io_pair dv input (out, required)) = io_layout_bytes out"
  by (simp_all add: io_pair_def Let_def)

lemma io_pair_result:
  fixes input :: path and dv :: dir_view
  assumes "io_core data out0"
  defines "r \<equiv> io_pair dv input
    (out0\<lparr>io_toc_valid := True, io_state := Confirmed\<rparr>, map (block_need data) [0..<toc_partitions data])"
  shows "io_toc_valid r" and "io_valid r \<longleftrightarrow> pair_spec dv input data \<and> \<not> toc_encrypted data"
    and "io_state r = Confirmed \<longleftrightarrow> io_valid r"
proof -
  have "io_pair_valid (evaluate_partitions dv input (map (block_need data) [0..<toc_partitions data])
      (out0\<lparr>io_toc_valid := True, io_state := Confirmed\<rparr>)) \<longleftrightarrow> pair_spec dv input data"
    by (rule evaluate_partitions_pair) (use assms(1) in \<open>simp_all add: io_core_def\<close>)
  moreover have "io_encrypted out0 = toc_encrypted data" using assms(1) by (simp add: io_core_def)
  ultimately show "io_toc_valid r" "io_valid r \<longleftrightarrow> pair_spec dv input data \<and> \<not> toc_encrypted data"
    "io_state r = Confirmed \<longleftrightarrow> io_valid r"
    by (simp_all add: r_def io_pair_def Let_def)
qed

lemma detect_iostore_result:
  assumes "length data \<le> u64_max"
  shows "\<exists>out. detect_iostore data input dv = Some out \<and>
    (io_toc_valid out \<longleftrightarrow> has_iostore_magic data \<and> toc_spec data) \<and>
    (io_valid out \<longleftrightarrow> has_iostore_magic data \<and> toc_spec data \<and> pair_spec dv input data \<and> \<not> toc_encrypted data) \<and>
    (io_state out = Confirmed \<longleftrightarrow> io_valid out)"
proof (cases "has_iostore_magic data")
  case False
  then show ?thesis by (auto simp: detect_iostore_def empty_io_def)
next
  case True
  from assms True show ?thesis
  proof (cases rule: detect_iostore_cases [of data input dv])
    case (1 out)
    then show ?thesis by (auto simp: io_refused_def)
  next
    case (2 out0)
    then show ?thesis using io_pair_result [OF 2(2), of dv input] True by auto
  qed
qed

text \<open>C11: Recognition of an IoStore container is memory safe and decides layout and pairing: for every
  file and every directory the recognizer returns; it accepts the table of contents exactly when
  the declarative layout holds (the sections tile the file to its last byte, chunk identifiers are
  distinct, chunk ranges fit the logical capacity, block ranges are disjoint inside their
  partitions); and it confirms the container exactly when, moreover, every partition file is
  present once with its exact name and enough bytes, no unexpected partition lies beside it, and
  the directory index is not encrypted.\<close>

theorem iostore_detection_decides:
  assumes "length data \<le> u64_max"
  shows "\<exists>out. detect_iostore data input dv = Some out \<and>
    (io_toc_valid out \<longleftrightarrow> has_iostore_magic data \<and> toc_spec data) \<and>
    (io_valid out \<longleftrightarrow> has_iostore_magic data \<and> toc_spec data \<and> pair_spec dv input data \<and> \<not> toc_encrypted data) \<and>
    (io_state out = Confirmed \<longleftrightarrow> io_valid out)"
  using assms by (rule detect_iostore_result)

text \<open>C12: A confirmed IoStore container is closed under its own block table: every compressed block of
  the table lies inside a regular file beside it, the one named after the block's partition, and
  two blocks of one partition never share a byte.\<close>

theorem iostore_blocks_present:
  assumes "length data \<le> u64_max" and "detect_iostore data input dv = Some out" and "io_valid out"
    and "i < toc_blocks data"
  shows "(\<exists>m sz. filename m = filename (expected_partition_path input (block_partition data i)) \<and>
      dv_status dv m = IsRegular \<and> dv_size dv m = Some sz \<and> snd (block_range data i) \<le> sz) \<and>
    (\<forall>j < i. block_partition data j = block_partition data i \<longrightarrow> apart (block_range data j) (block_range data i))"
proof -
  have magic: "has_iostore_magic data"
    using assms(2,3) by (auto simp: detect_iostore_def empty_io_def split: if_splits)
  have "toc_spec data \<and> pair_spec dv input data"
    using assms(1) magic
  proof (cases rule: detect_iostore_cases [of data input dv])
    case (1 out')
    then show ?thesis using assms(2,3) by (simp add: io_refused_def)
  next
    case (2 out0)
    then show ?thesis using assms(2,3) io_pair_result(2) [OF 2(2), of dv input] by simp
  qed
  then have spec: "toc_spec data" and pair: "pair_spec dv input data" by simp_all
  have ok: "block_ok data i" using spec assms(4) by (simp add: toc_spec_def)
  obtain siblings where "part_spec dv siblings input (block_need data (block_partition data i)) (block_partition data i)"
    using pair ok by (auto simp: pair_spec_def block_ok_def)
  then have "\<exists>m sz. filename m = filename (expected_partition_path input (block_partition data i)) \<and>
      dv_status dv m = IsRegular \<and> dv_size dv m = Some sz \<and> snd (block_range data i) \<le> sz"
    using block_need_ge [OF assms(4)] unfolding part_spec_def by (meson order_trans)
  moreover have "\<forall>j < i. block_partition data j = block_partition data i \<longrightarrow> apart (block_range data j) (block_range data i)"
    using spec assms(4) by (auto simp: toc_spec_def blocks_disjoint_def)
  ultimately show ?thesis by blast
qed

subsection \<open>A sample table\<close>

text \<open>Version 8, no chunks, one stored block of five bytes in one partition.\<close>

definition sample_toc :: bytes where
  "sample_toc =
    [45, 61, 61, 45, 45, 61, 61, 45, 45, 61, 61, 45, 45, 61, 61, 45, 8, 0, 0, 0, 144, 0, 0, 0, 0, 0,
     0, 0, 1, 0, 0, 0, 12, 0, 0, 0, 0, 0, 0, 0, 32, 0, 0, 0, 0, 0, 1, 0, 0, 0, 0, 0, 1, 0, 0, 0, 0,
     0, 0, 0, 0, 0, 0, 0, 0, 0, 0, 0, 0, 0, 0, 0, 0, 0, 0, 0, 0, 0, 0, 0, 1, 0, 0, 0, 0, 0, 0, 0, 0,
     0, 0, 0, 1, 0, 0, 0, 0, 0, 0, 0, 0, 0, 0, 0, 0, 0, 0, 0, 0, 0, 0, 0, 0, 0, 0, 0, 0, 0, 0, 0, 0,
     0, 0, 0, 0, 0, 0, 0, 0, 0, 0, 0, 0, 0, 0, 0, 0, 0, 0, 0, 0, 0, 0, 0, 0, 0, 0, 0, 0, 5, 0, 0, 7,
     0, 0, 0]"

definition sample_dir :: dir_view where
  "sample_dir = \<lparr>dv_list = (\<lambda>d. Inr [''./game.ucas'', ''./game.utoc'']), dv_status = (\<lambda>p. IsRegular),
     dv_size = (\<lambda>p. Some 5)\<rparr>"

lemma length_sample_toc: "length sample_toc = 156"
  by (simp add: sample_toc_def)

lemma sample_reads:
  "le_at sample_toc 20 4 = 144" "le_at sample_toc 24 4 = 0" "le_at sample_toc 28 4 = 1" "le_at sample_toc 32 4 = 12"
  "le_at sample_toc 36 4 = 0" "le_at sample_toc 40 4 = 32" "le_at sample_toc 44 4 = 65536" "le_at sample_toc 48 4 = 0"
  "le_at sample_toc 52 4 = 1" "le_at sample_toc 84 4 = 0" "le_at sample_toc 96 4 = 0"
  "le_at sample_toc 88 8 = 4294967296" "le_at sample_toc 144 5 = 0" "le_at sample_toc 149 3 = 5" "le_at sample_toc 152 3 = 7"
  by (simp_all add: le_at_def sample_toc_def)

lemma sample_bytes: "sample_toc ! 16 = 8" "sample_toc ! 80 = 1" "sample_toc ! 155 = 0"
  by (simp_all add: sample_toc_def)

lemma sample_zeros: "all_zero sample_toc 17 20" "all_zero sample_toc 81 84" "all_zero sample_toc 100 144"
  by (simp_all add: all_zero_def length_sample_toc) (simp_all add: sample_toc_def)

lemma sample_magic: "has_iostore_magic sample_toc"
  by (simp add: has_iostore_magic_def io_magic_def length_sample_toc) (simp add: sample_toc_def)

lemma sample_toc_fields:
  "toc_version sample_toc = 8" "toc_entries sample_toc = 0" "toc_blocks sample_toc = 1" "toc_methods sample_toc = 0"
  "toc_block_size sample_toc = 65536" "toc_directory sample_toc = 0" "toc_partitions sample_toc = 1"
  "toc_seeds sample_toc = 0" "toc_overflow sample_toc = 0" "toc_partition_size sample_toc = 4294967296"
  "\<not> toc_encrypted sample_toc" "\<not> toc_signed sample_toc"
  by (simp_all add: toc_fields sample_reads sample_bytes)

lemma sample_positions: "blocks_pos sample_toc = 144" "tail_pos sample_toc = 156" "layout_end sample_toc = 156"
  by (simp_all add: layout_end_def tail_pos_def methods_pos_def blocks_pos_def offsets_pos_def sample_toc_fields)

lemma sample_block: "block_partition sample_toc 0 = 0" "block_range sample_toc 0 = (0, 5)" "block_need sample_toc 0 = 5"
proof -
  show p: "block_partition sample_toc 0 = 0" by (simp add: block_partition_def sample_positions sample_reads)
  show r: "block_range sample_toc 0 = (0, 5)"
    by (simp add: block_range_def block_stored_def Let_def sample_positions sample_reads sample_toc_fields)
  show "block_need sample_toc 0 = 5" by (simp add: block_need_def sample_toc_fields p r)
qed

lemma sample_toc_spec: "toc_spec sample_toc"
proof -
  have "header_spec sample_toc"
    by (simp add: header_spec_def length_sample_toc sample_toc_fields sample_reads sample_bytes sample_zeros io_entry_budget_def
        io_block_budget_def io_method_budget_def io_partition_budget_def directory_index_budget_def)
  moreover have "block_ok sample_toc 0"
    by (simp add: block_ok_def sample_positions sample_reads sample_toc_fields sample_bytes sample_block)
  ultimately show ?thesis
    by (simp add: toc_spec_def tail_spec_def blocks_disjoint_def sample_positions length_sample_toc sample_toc_fields)
qed

lemma sample_part_names:
  "sibling_dir ''game.utoc'' = ''.''" "expected_partition_path ''game.utoc'' 0 = ''game.ucas''"
  "lower_name_of ''./game.ucas'' = ''game.ucas''" "lower_name_of ''./game.utoc'' = ''game.utoc''"
  "lower_name_of ''game.ucas'' = ''game.ucas''" "filename ''game.ucas'' = ''game.ucas''"
  "filename ''./game.ucas'' = ''game.ucas''" "ascii_lower (stem ''game.utoc'') = ''game''"
  by (simp_all add: sibling_dir_def parent_path_def filename_def strip_trailing_def expected_partition_path_def
      drop_extension_def extension_def stem_def lower_name_of_def ascii_lower_def Let_def)

lemma sample_pair_spec: "pair_spec sample_dir ''game.utoc'' sample_toc"
  by (simp add: pair_spec_def part_spec_def sample_dir_def sample_part_names sample_toc_fields sample_block sibling_budget_def
      partition_suffix_def)

theorem iostore_detection_decides_witness:
  "\<exists>out. detect_iostore sample_toc ''game.utoc'' sample_dir = Some out \<and> io_toc_valid out \<and> io_valid out \<and>
    io_state out = Confirmed"
proof -
  have "length sample_toc \<le> u64_max" by (simp add: length_sample_toc u64_max_def)
  then show ?thesis
    using iostore_detection_decides [of sample_toc "''game.utoc''" sample_dir] sample_magic sample_toc_spec sample_pair_spec
      sample_toc_fields(11) by auto
qed

theorem iostore_blocks_present_witness:
  "\<exists>m sz. filename m = ''game.ucas'' \<and> dv_status sample_dir m = IsRegular \<and> dv_size sample_dir m = Some sz \<and> 5 \<le> sz"
proof -
  have small: "length sample_toc \<le> u64_max" by (simp add: length_sample_toc u64_max_def)
  obtain out where out: "detect_iostore sample_toc ''game.utoc'' sample_dir = Some out" "io_valid out"
    using small sample_magic
  proof (cases rule: detect_iostore_cases [of sample_toc "''game.utoc''" sample_dir])
    case (1 out)
    then show ?thesis using sample_toc_spec by simp
  next
    case (2 out0)
    then show ?thesis
      using that io_pair_result(2) [OF 2(2), of sample_dir "''game.utoc''"] sample_pair_spec sample_toc_fields(11) by simp
  qed
  from iostore_blocks_present [OF small this, of 0] show ?thesis by (simp add: sample_toc_fields sample_block sample_part_names)
qed

end
