(* ===== verification/Unreal.thy ===== *)
theory Unreal
  imports Evidence UnrealPakSafety UnrealIoSafety
begin

section \<open>Unreal containers: the choice of the format and the finding\<close>

text \<open>
  Models \<^verbatim>\<open>detect_unreal_container\<close> and \<^verbatim>\<open>unreal_container_finding\<close> of
  \<^verbatim>\<open>src/extract/unreal.cpp\<close>: the table-of-contents magic decides for IoStore, otherwise a
  footer decides for Pak, otherwise a file name alone makes a candidate; the finding shows the
  fields of the chosen result and its ranges.
\<close>

datatype unreal_kind = NoContainer | IoStoreUcas | IoStoreUtoc | PakKind

primrec unreal_kind_text :: "unreal_kind \<Rightarrow> string" where
  "unreal_kind_text NoContainer = ''''"
| "unreal_kind_text IoStoreUcas = ''iostore-ucas''"
| "unreal_kind_text IoStoreUtoc = ''iostore-utoc''"
| "unreal_kind_text PakKind = ''pak''"

datatype unreal_error = InPak pak_error | InIoStore io_error

primrec unreal_error_text :: "unreal_error \<Rightarrow> string" where
  "unreal_error_text (InPak e) = pak_error_text e"
| "unreal_error_text (InIoStore e) = io_error_text e"

record unreal_info =
  un_candidate :: bool
  un_valid :: bool
  un_kind :: unreal_kind
  un_state :: unreal_state
  un_pak :: pak_info
  un_io :: io_info
  un_error :: "unreal_error option"

definition empty_unreal :: unreal_info where
  "empty_unreal =
     \<lparr>un_candidate = False, un_valid = False, un_kind = NoContainer, un_state = Absent,
      un_pak = empty_pak, un_io = empty_io, un_error = None\<rparr>"

definition use_iostore :: "bytes \<Rightarrow> path \<Rightarrow> unreal_info \<Rightarrow> unreal_info" where
  "use_iostore data input out =
     out\<lparr>un_candidate := True, un_valid := io_valid (un_io out),
       un_kind := (if has_extension input ''.ucas'' \<and> \<not> has_iostore_magic data then IoStoreUcas else IoStoreUtoc),
       un_state := io_state (un_io out), un_error := map_option InIoStore (io_error (un_io out))\<rparr>"

definition use_pak :: "unreal_info \<Rightarrow> unreal_info" where
  "use_pak out =
     out\<lparr>un_candidate := True, un_valid := pak_valid (un_pak out), un_kind := PakKind,
       un_state := pak_state (un_pak out), un_error := map_option InPak (pak_error (un_pak out))\<rparr>"

definition choose_container :: "bytes \<Rightarrow> path \<Rightarrow> unreal_info \<Rightarrow> unreal_info" where
  "choose_container data input out =
     (if pak_candidate (un_pak out) \<and>
         (pak_footer_profile (un_pak out) \<noteq> NoLayout \<or> \<not> io_candidate (un_io out)) then use_pak out
      else if io_candidate (un_io out) then use_iostore data input out
      else out)"

definition detect_unreal_container :: "bytes \<Rightarrow> path \<Rightarrow> dir_view \<Rightarrow> unreal_info option" where
  "detect_unreal_container data input dv =
     Option.bind (detect_iostore data input dv) (\<lambda>io.
       let out = empty_unreal\<lparr>un_io := io\<rparr>
       in if has_iostore_magic data then Some (use_iostore data input out)
          else Option.bind (detect_pak data input) (\<lambda>pak.
            Some (choose_container data input (out\<lparr>un_pak := pak\<rparr>))))"

subsection \<open>The finding\<close>

definition truth_text :: "bool \<Rightarrow> string" where
  "truth_text value = (if value then ''true'' else ''false'')"

definition pak_fields :: "pak_info \<Rightarrow> string \<rightharpoonup> string" where
  "pak_fields pak = Map.empty
     (''version'' \<mapsto> to_dec (pak_version pak),
      ''footer_profile'' \<mapsto> pak_layout_text (pak_footer_profile pak),
      ''index_offset'' \<mapsto> to_dec (pak_index_offset pak),
      ''index_size'' \<mapsto> to_dec (pak_index_size pak),
      ''entry_count'' \<mapsto> to_dec (pak_entry_count pak),
      ''mount_point'' \<mapsto> map (\<lambda>b. char_of (unat b)) (pak_mount_point pak),
      ''encrypted_index'' \<mapsto> truth_text (pak_encrypted_index pak),
      ''frozen_index'' \<mapsto> truth_text (pak_frozen_index pak),
      ''index_hash_checked'' \<mapsto> truth_text (pak_hash_checked pak),
      ''index_hash_matches'' \<mapsto> truth_text (pak_hash_matches pak),
      ''secondary_index_count'' \<mapsto> to_dec (pak_secondary_count pak),
      ''secondary_index_hashes_checked'' \<mapsto> truth_text (pak_secondary_checked pak),
      ''secondary_index_hashes_match'' \<mapsto> truth_text (pak_secondary_match pak),
      ''content_readable'' \<mapsto> ''false'',
      ''asset_semantics_enumerated'' \<mapsto> ''false'')"

definition pak_ranges :: "pak_info \<Rightarrow> range_ref list" where
  "pak_ranges pak =
     (if pak_footer_size pak \<noteq> 0
      then [file_offset_range (pak_footer_offset pak) (pak_footer_size pak) ''exact-version Pak footer''] else []) @
     (if pak_index_size pak \<noteq> 0
      then [file_offset_range (pak_index_offset pak) (pak_index_size pak) ''Pak primary index''] else [])"

definition pak_finding :: "pak_info \<Rightarrow> finding \<Rightarrow> finding" where
  "pak_finding pak f =
     (let g = f\<lparr>f_family := ''Unreal Engine Pak'',
            f_variant := (if pak_footer_profile pak = NoLayout then ''extension-only''
                          else pak_layout_text (pak_footer_profile pak)),
            f_fields := pak_fields pak, f_ranges := pak_ranges pak\<rparr>
      in if pak_valid pak then
           g\<lparr>f_confidence := Some 99,
             f_evidence :=
               [''exact EOF footer profile, bounded index range, primary-index SHA-1, and minimum version-specific index structure validated'',
                ''recognition is structural only; no asset list, decryption, decompression, or extraction is claimed'']\<rparr>
         else g\<lparr>f_negative := (case pak_error pak of None \<Rightarrow> [] | Some e \<Rightarrow> [pak_error_text e])\<rparr>)"

definition io_fields :: "io_info \<Rightarrow> string \<rightharpoonup> string" where
  "io_fields io = Map.empty
     (''version'' \<mapsto> to_dec (io_version io),
      ''toc_valid'' \<mapsto> truth_text (io_toc_valid io),
      ''pair_checked'' \<mapsto> truth_text (io_pair_checked io),
      ''pair_valid'' \<mapsto> truth_text (io_pair_valid io),
      ''entry_count'' \<mapsto> to_dec (io_entry_count io),
      ''compressed_block_count'' \<mapsto> to_dec (io_block_count io),
      ''partition_count'' \<mapsto> to_dec (io_partition_count io),
      ''partition_size'' \<mapsto> to_dec (io_partition_size io),
      ''encrypted'' \<mapsto> truth_text (io_encrypted io),
      ''signed_flag'' \<mapsto> truth_text (io_signed io),
      ''signature_table_structurally_present'' \<mapsto> truth_text (io_signature_present io),
      ''signature_verification_performed'' \<mapsto> ''false'',
      ''indexed'' \<mapsto> truth_text (io_indexed io),
      ''asset_semantics_enumerated'' \<mapsto> ''false'',
      ''content_readable'' \<mapsto> ''false'')"

definition io_ranges :: "io_info \<Rightarrow> range_ref list" where
  "io_ranges io =
     (if io_header_size io \<noteq> 0 then [file_offset_range 0 (io_header_size io) ''IoStore TOC header''] else []) @
     (if io_layout_bytes io \<noteq> 0
      then [file_offset_range 0 (io_layout_bytes io) ''bounded IoStore TOC layout''] else [])"

definition io_finding :: "unreal_kind \<Rightarrow> io_info \<Rightarrow> finding \<Rightarrow> finding" where
  "io_finding kind io f =
     (let g = f\<lparr>f_family := ''Unreal Engine IoStore'', f_variant := unreal_kind_text kind,
            f_fields := io_fields io, f_ranges := io_ranges io\<rparr>
      in if io_valid io then
           g\<lparr>f_confidence := Some 99,
             f_evidence :=
               [''fixed TOC header, every bounded section, chunk uniqueness, block geometry, and exact UCAS partition set validated''] @
               (if io_signed io
                then [''signature table is structurally present; cryptographic signature verification was not performed'']
                else []) @
               [''recognition is structural only; no directory-index semantics, decryption, decompression, or extraction is claimed'']\<rparr>
         else g\<lparr>f_negative := (case io_error io of None \<Rightarrow> [] | Some e \<Rightarrow> [io_error_text e])\<rparr>)"

definition unreal_container_finding :: "unreal_info \<Rightarrow> finding" where
  "unreal_container_finding info =
     (let f = empty_finding\<lparr>f_kind := ''container'', f_state := unreal_state_text (un_state info)\<rparr>;
          g = (if un_kind info = PakKind then pak_finding (un_pak info) f
               else io_finding (un_kind info) (un_io info) f)
      in case un_error info of
           Some e \<Rightarrow> if f_negative g = [] then g\<lparr>f_negative := [unreal_error_text e]\<rparr> else g
         | None \<Rightarrow> g)"

subsection \<open>What the detectors say of a valid container\<close>

lemma detect_pak_valid:
  assumes "length data \<le> u64_max" and "detect_pak data input = Some pak" and "pak_valid pak"
  shows "pak_candidate pak" and "pak_footer_profile pak \<noteq> NoLayout"
    and "pak_footer_offset pak + pak_footer_size pak = length data"
    and "pak_index_offset pak + pak_index_size pak \<le> length data"
proof -
  obtain p where p: "p \<in> set pak_profiles" "prof_size p \<le> length data" "pak = profile_result data p"
    using detect_pak_result [OF assms(1), of input] assms(2,3) by auto
  have fits: "profile_fits p" using profiles_fit p(1) by (simp add: list_all_iff)
  note r = profile_result [OF assms(1) fits p(2)]
  show "pak_candidate pak" "pak_footer_offset pak + pak_footer_size pak = length data"
    "pak_index_offset pak + pak_index_size pak \<le> length data"
    using r(4-8) assms(3) p(2) by (simp_all add: p(3))
  show "pak_footer_profile pak \<noteq> NoLayout"
    using r(6) p(1) by (auto simp: p(3) pak_profiles_def profile_row_def)
qed

lemma detect_iostore_valid:
  assumes "length data \<le> u64_max" and "detect_iostore data input dv = Some io" and "io_valid io"
  shows "has_iostore_magic data" and "io_header_size io = 144" and "io_layout_bytes io = length data" and "144 \<le> length data"
proof -
  show magic: "has_iostore_magic data"
    using assms(2,3) by (auto simp: detect_iostore_def empty_io_def split: if_splits)
  have "io_header_size io = 144 \<and> io_layout_bytes io = length data \<and> 144 \<le> length data"
    using assms(1) magic
  proof (cases rule: detect_iostore_cases [of data input dv])
    case (1 out)
    then show ?thesis using assms(2,3) by (simp add: io_refused_def)
  next
    case (2 out0)
    have "io_header_size out0 = 144" using 2(2) by (simp add: io_core_def)
    moreover have "144 \<le> length data" using 2(1) by (simp add: toc_spec_def header_spec_def)
    ultimately show ?thesis using assms(2) 2(3,4) by (auto simp: io_pair_ranges)
  qed
  then show "io_header_size io = 144" "io_layout_bytes io = length data" "144 \<le> length data" by simp_all
qed

subsection \<open>Properties\<close>

definition pak_recognized :: "bytes \<Rightarrow> bool" where
  "pak_recognized data \<longleftrightarrow> (\<exists>p \<in> set pak_profiles. profile_matches data p \<and> pak_spec data p \<and>
     (\<forall>q \<in> set pak_profiles. profile_matches data q \<and> pak_viable (profile_result data q) \<longrightarrow> q = p))"

definition iostore_recognized :: "bytes \<Rightarrow> path \<Rightarrow> dir_view \<Rightarrow> bool" where
  "iostore_recognized data input dv \<longleftrightarrow> toc_spec data \<and> pair_spec dv input data \<and> \<not> toc_encrypted data"

lemma use_sel [simp]:
  "un_valid (use_pak out) = pak_valid (un_pak out)" "un_state (use_pak out) = pak_state (un_pak out)"
  "un_kind (use_pak out) = PakKind" "un_pak (use_pak out) = un_pak out" "un_io (use_pak out) = un_io out"
  "un_valid (use_iostore data input out) = io_valid (un_io out)"
  "un_state (use_iostore data input out) = io_state (un_io out)"
  "un_kind (use_iostore data input out) \<noteq> PakKind"
  "un_pak (use_iostore data input out) = un_pak out" "un_io (use_iostore data input out) = un_io out"
  by (simp_all add: use_pak_def use_iostore_def)

lemma empty_unreal_sel [simp]:
  "\<not> un_valid empty_unreal" "un_state empty_unreal = Absent" "un_kind empty_unreal = NoContainer"
  by (simp_all add: empty_unreal_def)

lemma choose_valid:
  fixes data :: bytes and input :: path
  assumes "pak_valid pak \<Longrightarrow> pak_candidate pak \<and> pak_footer_profile pak \<noteq> NoLayout"
    and "pak_state pak = Confirmed \<longleftrightarrow> pak_valid pak" and "\<not> io_valid io" "io_state io \<noteq> Confirmed"
  defines "r \<equiv> choose_container data input (empty_unreal\<lparr>un_io := io, un_pak := pak\<rparr>)"
  shows "un_valid r \<longleftrightarrow> pak_valid pak" and "un_state r = Confirmed \<longleftrightarrow> pak_valid pak"
    and "un_valid r \<Longrightarrow> un_kind r = PakKind" and "un_pak r = pak"
  using assms(1-4) unfolding r_def choose_container_def
  by (auto split: if_splits)

lemma unreal_result:
  assumes "length data \<le> u64_max"
  obtains (Io) io where "has_iostore_magic data" "detect_iostore data input dv = Some io"
      "detect_unreal_container data input dv = Some (use_iostore data input (empty_unreal\<lparr>un_io := io\<rparr>))"
      "io_valid io \<longleftrightarrow> iostore_recognized data input dv" "io_state io = Confirmed \<longleftrightarrow> io_valid io"
  | (Pk) info where "\<not> has_iostore_magic data" "detect_unreal_container data input dv = Some info"
      "un_valid info \<longleftrightarrow> pak_recognized data" "un_state info = Confirmed \<longleftrightarrow> un_valid info"
      "un_valid info \<Longrightarrow> un_kind info = PakKind \<and> pak_valid (un_pak info) \<and> detect_pak data input = Some (un_pak info)"
      "un_kind info = PakKind \<Longrightarrow> un_valid info = pak_valid (un_pak info)"
      "un_kind info \<noteq> PakKind \<Longrightarrow> un_valid info = io_valid (un_io info)"
proof (cases "has_iostore_magic data")
  case True
  then show ?thesis using Io detect_iostore_result [OF assms, of input dv]
    by (fastforce simp: detect_unreal_container_def iostore_recognized_def)
next
  case False
  obtain io where io: "detect_iostore data input dv = Some io" "\<not> io_valid io" "io_state io \<noteq> Confirmed"
    using detect_iostore_result [OF assms, of input dv] False by auto
  obtain pak where pak: "detect_pak data input = Some pak" "pak_state pak = Confirmed \<longleftrightarrow> pak_valid pak"
      "pak_valid pak \<longleftrightarrow> pak_recognized data"
    using detect_pak_result [OF assms, of input] by (auto simp: pak_recognized_def)
  let ?info = "choose_container data input (empty_unreal\<lparr>un_io := io, un_pak := pak\<rparr>)"
  have valid: "pak_valid pak \<Longrightarrow> pak_candidate pak \<and> pak_footer_profile pak \<noteq> NoLayout"
    using detect_pak_valid [OF assms pak(1)] by simp
  note c = choose_valid [OF valid pak(2) io(2,3), of data input]
  have kinds: "un_kind ?info = PakKind \<Longrightarrow> un_valid ?info = pak_valid (un_pak ?info)"
      "un_kind ?info \<noteq> PakKind \<Longrightarrow> un_valid ?info = io_valid (un_io ?info)"
    using io(2) unfolding choose_container_def by (auto split: if_splits)
  have "detect_unreal_container data input dv = Some ?info"
    using False io(1) pak(1) by (simp add: detect_unreal_container_def)
  then show ?thesis
  proof (rule Pk [OF False])
    show "un_valid ?info \<longleftrightarrow> pak_recognized data" using c(1) pak(3) by simp
    show "un_state ?info = Confirmed \<longleftrightarrow> un_valid ?info" using c(1,2) by simp
    show "un_kind ?info = PakKind \<and> pak_valid (un_pak ?info) \<and> detect_pak data input = Some (un_pak ?info)"
      if "un_valid ?info" using c(1,3,4) pak(1) that by simp
  qed (rule kinds, assumption)+
qed

text \<open>C13: The container detector is memory safe, always returns, and confirms exactly the described
  containers: a file that starts with the table-of-contents magic by the IoStore description alone
  (a Pak footer in it is never considered), every other file by the Pak description alone, whatever
  its name; nothing else is reported \<^verbatim>\<open>CONFIRMED\<close>.\<close>

theorem unreal_detection_decides:
  assumes "length data \<le> u64_max"
  shows "\<exists>info. detect_unreal_container data input dv = Some info \<and>
    (un_valid info \<longleftrightarrow>
      (if has_iostore_magic data then iostore_recognized data input dv else pak_recognized data)) \<and>
    (un_state info = Confirmed \<longleftrightarrow> un_valid info)"
  using assms
proof (cases rule: unreal_result [of data input dv])
  case (Io io)
  then show ?thesis by simp
next
  case (Pk info)
  show ?thesis using Pk(1-4) by (intro exI [of _ info]) simp
qed

lemma finding_ranges:
  "f_ranges (unreal_container_finding info) =
    (if un_kind info = PakKind then pak_ranges (un_pak info) else io_ranges (un_io info))"
  "f_confidence (unreal_container_finding info) =
    (if (if un_kind info = PakKind then pak_valid (un_pak info) else io_valid (un_io info)) then Some 99 else None)"
  "f_state (unreal_container_finding info) = unreal_state_text (un_state info)"
  by (auto simp: unreal_container_finding_def pak_finding_def io_finding_def Let_def empty_finding_def split: option.split)

lemma state_text_Confirmed: "unreal_state_text s = ''CONFIRMED'' \<longleftrightarrow> s = Confirmed"
  by (cases s) simp_all

text \<open>C14: The finding never overstates the detection: confidence is given, and the state is
  \<^verbatim>\<open>CONFIRMED\<close>, exactly for a recognized container, and then every range it shows is
  a position of the analysed file that lies inside the file.\<close>

theorem unreal_finding_sound:
  assumes "length data \<le> u64_max" and "detect_unreal_container data input dv = Some info"
  shows "(f_state (unreal_container_finding info) = ''CONFIRMED'' \<longleftrightarrow> un_valid info) \<and>
    f_confidence (unreal_container_finding info) = (if un_valid info then Some 99 else None) \<and>
    (un_valid info \<longrightarrow>
      list_all (\<lambda>x. is_file_range x \<and> range_within (length data) x) (f_ranges (unreal_container_finding info)))"
  using assms(1)
proof (cases rule: unreal_result [of data input dv])
  case (Io io)
  then have info: "info = use_iostore data input (empty_unreal\<lparr>un_io := io\<rparr>)" using assms(2) by simp
  have "un_io info = io" by (simp add: info)
  moreover have "list_all (\<lambda>x. is_file_range x \<and> range_within (length data) x) (io_ranges io)" if "io_valid io"
    using detect_iostore_valid(2-4) [OF assms(1) Io(2) that] by (simp add: io_ranges_def range_within_def)
  ultimately show ?thesis using Io(5) by (simp add: info finding_ranges state_text_Confirmed)
next
  case (Pk info')
  have info: "info' = info" using Pk(2) assms(2) by simp
  have "f_confidence (unreal_container_finding info) = (if un_valid info then Some 99 else None)"
    using Pk(6,7) by (cases "un_kind info = PakKind") (simp_all add: info finding_ranges)
  moreover have "list_all (\<lambda>x. is_file_range x \<and> range_within (length data) x) (f_ranges (unreal_container_finding info))"
    if "un_valid info"
  proof -
    have "un_kind info = PakKind" "pak_valid (un_pak info)" "detect_pak data input = Some (un_pak info)"
      using Pk(5) that by (simp_all add: info)
    then show ?thesis using detect_pak_valid(3,4) [OF assms(1), of input "un_pak info"]
      by (simp add: finding_ranges pak_ranges_def range_within_def)
  qed
  ultimately show ?thesis using Pk(4) by (simp add: info finding_ranges(3) state_text_Confirmed)
qed

theorem unreal_detection_decides_witness:
  "\<exists>info. detect_unreal_container sample_pak ''a.utoc'' sample_dir = Some info \<and> un_valid info"
proof -
  have "length sample_pak \<le> u64_max" by (simp add: length_sample_pak u64_max_def)
  moreover have "\<not> has_iostore_magic sample_pak" by (simp add: has_iostore_magic_def io_magic_def sample_pak_def)
  moreover have "pak_recognized sample_pak" unfolding pak_recognized_def
    using sample_spec sample_matches by (intro bexI [of _ "profile_row Core44 1 3 44 0 0 False False"]) (auto simp: pak_profiles_def)
  ultimately show ?thesis
    using unreal_detection_decides [of sample_pak "''a.utoc''" sample_dir] by auto
qed

theorem unreal_finding_sound_witness:
  "\<exists>info. detect_unreal_container sample_pak ''a.utoc'' sample_dir = Some info \<and>
    (un_valid info \<longrightarrow> list_all (range_within 52) (f_ranges (unreal_container_finding info)))"
proof -
  have small: "length sample_pak \<le> u64_max" by (simp add: length_sample_pak u64_max_def)
  obtain info where info: "detect_unreal_container sample_pak ''a.utoc'' sample_dir = Some info"
    by (cases rule: unreal_result [OF small, of "''a.utoc''" sample_dir]) blast+
  show ?thesis using unreal_finding_sound [OF small info] info by (auto simp: length_sample_pak list_all_iff)
qed

subsection \<open>A range that was never checked\<close>

text \<open>A footer alone, whose index would begin at the last byte before 2 to the 32.\<close>

definition stray_pak :: bytes where
  "stray_pak =
     [0xe1, 0x12, 0x6f, 0x5a, 1, 0, 0, 0, 255, 255, 255, 255, 0, 0, 0, 0,
      8, 0, 0, 0, 0, 0, 0, 0] @ replicate 20 0"

lemma stray_fields:
  "length stray_pak = 44" "length stray_pak \<le> u64_max"
  "le_at stray_pak 0 4 = pak_magic" "le_at stray_pak 4 4 = 1" "le_at stray_pak 8 8 = 4294967295" "le_at stray_pak 16 8 = 8"
  by (simp_all add: le_at_def stray_pak_def pak_magic_def u64_max_def)

lemma stray_detected:
  "\<exists>p. detect_pak stray_pak input = Some p \<and> pak_candidate p \<and> pak_state p = Failed \<and>
    pak_footer_profile p = Core44 \<and> pak_index_offset p = 4294967295 \<and> pak_index_size p = 8"
proof -
  let ?row = "profile_row Core44 1 3 44 0 0 False False"
  note fields = stray_fields(1,3-6) read_le32_at [OF stray_fields(2)] read_le64_at [OF stray_fields(2)]
  have one: "filter (profile_matches stray_pak) pak_profiles = [?row]"
    by (simp add: pak_profiles_def profile_row_def profile_matches_def pak_probe_def fields)
  define out where "out = empty_pak\<lparr>pak_candidate := True, pak_footer_profile := Core44, pak_footer_size := 44,
      pak_footer_offset := 0, pak_version := 1, pak_supported_version := True\<rparr>"
  have open_stage: "pak_open stray_pak ?row = pass out"
    by (simp add: pak_open_def profile_row_def Let_def fields wrap64_def out_def)
  have range_stage: "pak_range stray_pak 0 out = pak_fail (out\<lparr>pak_index_offset := 4294967295, pak_index_size := 8\<rparr>) IndexRange"
    by (simp add: pak_range_def Let_def fields checked_add_def u64_max_def out_def)
  have "parse_pak_profile stray_pak ?row =
      Some (out\<lparr>pak_index_offset := 4294967295, pak_index_size := 8, pak_state := Failed, pak_error := Some IndexRange\<rparr>)"
  proof -
    have at: "pak_footer_offset out + prof_magic_offset ?row = 0" by (simp add: out_def profile_row_def)
    show ?thesis
      unfolding parse_pak_profile_def pak_stages_def open_stage step_simps Let_def at range_stage
      by (simp add: pak_fail_def) (simp add: stop_def)
  qed
  then show ?thesis
    by (simp add: detect_pak_def one pak_viable_def out_def)
qed

text \<open>A refused Pak still shows the index range its footer declares as a position of the analysed
  file, although the range was refused because it is not inside the file.\<close>

lemma unreal_refused_shows_stray_range:
  "\<exists>info. detect_unreal_container stray_pak ''a.pak'' sample_dir = Some info \<and>
    f_state (unreal_container_finding info) = ''FAILED'' \<and>
    (\<exists>x \<in> set (f_ranges (unreal_container_finding info)). is_file_range x \<and> \<not> range_within (length stray_pak) x)"
proof -
  have io: "detect_iostore stray_pak ''a.pak'' sample_dir = Some empty_io" "\<not> has_iostore_magic stray_pak"
    by code_simp+
  obtain p where p: "detect_pak stray_pak ''a.pak'' = Some p" "pak_candidate p" "pak_state p = Failed"
      "pak_footer_profile p = Core44" "pak_index_offset p = 4294967295" "pak_index_size p = 8"
    using stray_detected by blast
  let ?info = "use_pak (empty_unreal\<lparr>un_io := empty_io, un_pak := p\<rparr>)"
  have "detect_unreal_container stray_pak ''a.pak'' sample_dir = Some ?info"
    by (simp add: detect_unreal_container_def io p(1,2,4) choose_container_def)
  moreover have "file_offset_range 4294967295 8 ''Pak primary index'' \<in> set (f_ranges (unreal_container_finding ?info))"
    by (simp add: finding_ranges pak_ranges_def p(5,6))
  moreover have "length stray_pak = 44" by (simp add: stray_pak_def)
  ultimately show ?thesis using p(3)
    by (intro exI [of _ ?info] conjI bexI [of _ "file_offset_range 4294967295 8 ''Pak primary index''"])
      (simp_all add: finding_ranges range_within_def)
qed

end
