(* ===== verification/ReadyToRun.thy ===== *)
theory ReadyToRun
  imports Evidence Outcomes
begin

section \<open>.NET ReadyToRun headers\<close>

text \<open>
  Models \<^verbatim>\<open>src/extract/readytorun.cpp\<close>: where a PE image may carry a ReadyToRun header (the
  managed native header directory, the export, a unique magic), the validation of the header and of
  its sorted section directory, and the finding. The PE parser is not modelled: its result is an
  argument, reduced to the fields this code reads. Numbers are naturals; sums of 32-bit fields are
  formed in 64 bits by the code and cannot wrap, the one that the code checks is checked here.
\<close>

unbundle bit_operations_syntax

subsection \<open>Data\<close>

record pe_section =
  sec_rva :: nat
  sec_raw_offset :: nat
  sec_raw_size :: nat

record pe_export =
  exp_name :: string
  exp_forwarder :: string
  exp_rva :: nat

record pe_info =
  pe_valid :: bool
  pe_headers_size :: nat
  pe_sections :: "pe_section list"
  pe_exports :: "pe_export list"
  pe_clr_present :: bool
  pe_clr_rva :: nat

definition r2r_signature :: nat where "r2r_signature = 0x00525452"
definition known_flags :: nat where "known_flags = 0x00001fff"
definition max_sections :: nat where "max_sections = 4096"
definition header_prefix :: nat where "header_prefix = 16"
definition section_row_size :: nat where "section_row_size = 12"

datatype r2r_source = NoSource | ManagedNative | HeaderExport | MagicScan

primrec r2r_source_text :: "r2r_source \<Rightarrow> string" where
  "r2r_source_text NoSource = ''''"
| "r2r_source_text ManagedNative = ''CLI_MANAGED_NATIVE_HEADER''"
| "r2r_source_text HeaderExport = ''RTR_HEADER_EXPORT''"
| "r2r_source_text MagicScan = ''UNIQUE_RTR_MAGIC_SCAN''"

datatype r2r_state = R2RAbsent | R2RFailed | R2RLikely | R2RConfirmed

primrec r2r_state_text :: "r2r_state \<Rightarrow> string" where
  "r2r_state_text R2RAbsent = ''NOT_PRESENT''"
| "r2r_state_text R2RFailed = ''FAILED''"
| "r2r_state_text R2RLikely = ''LIKELY''"
| "r2r_state_text R2RConfirmed = ''CONFIRMED''"

datatype r2r_error =
    NoNativeDirectory | IncompletePair | NativeNotBacked | ExportNotBacked | PrefixTruncated
  | NoSignature | MajorZero | SectionCount | TableTruncated | DirectoryEnds | NotSorted
  | EmptySection | SectionNotBacked | RangeOverflow | RangesOverlap

primrec r2r_error_text :: "r2r_error \<Rightarrow> string" where
  "r2r_error_text NoNativeDirectory = ''CLI header does not contain the ManagedNativeHeader directory''"
| "r2r_error_text IncompletePair = ''CLI ManagedNativeHeader directory has an incomplete RVA/size pair''"
| "r2r_error_text NativeNotBacked = ''CLI ManagedNativeHeader directory is not file-backed''"
| "r2r_error_text ExportNotBacked = ''RTR_HEADER export does not point to file-backed data''"
| "r2r_error_text PrefixTruncated = ''ReadyToRun header prefix is truncated''"
| "r2r_error_text NoSignature = ''ManagedNativeHeader location does not contain the RTR signature''"
| "r2r_error_text MajorZero = ''ReadyToRun major version is zero''"
| "r2r_error_text SectionCount = ''ReadyToRun section count is zero or exceeds the bounded limit''"
| "r2r_error_text TableTruncated = ''ReadyToRun section table is truncated''"
| "r2r_error_text DirectoryEnds = ''CLI ManagedNativeHeader directory ends before the ReadyToRun section table''"
| "r2r_error_text NotSorted = ''ReadyToRun section types are not strictly sorted''"
| "r2r_error_text EmptySection = ''ReadyToRun section has an empty data range''"
| "r2r_error_text SectionNotBacked = ''ReadyToRun section is not file-backed''"
| "r2r_error_text RangeOverflow = ''ReadyToRun section range overflows''"
| "r2r_error_text RangesOverlap = ''ReadyToRun section ranges overlap''"

record r2r_section =
  rs_type :: nat
  rs_rva :: nat
  rs_size :: nat
  rs_file_offset :: nat
  rs_type_name :: string

record r2r_info =
  r2r_candidate :: bool
  r2r_valid :: bool
  r2r_state :: r2r_state
  r2r_source :: r2r_source
  r2r_error :: "r2r_error option"
  r2r_header_offset :: nat
  r2r_header_rva :: nat
  r2r_native_rva :: nat
  r2r_native_size :: nat
  r2r_major :: nat
  r2r_minor :: nat
  r2r_flags :: nat
  r2r_unknown_flags :: nat
  r2r_section_count :: nat
  r2r_header_size :: nat
  r2r_composite :: bool
  r2r_component :: bool
  r2r_partial :: bool
  r2r_embedded_msil :: bool
  r2r_platform_native :: bool
  r2r_stripped_il :: bool
  r2r_stripped_inlining :: bool
  r2r_stripped_debug :: bool
  r2r_imports :: nat
  r2r_runtime_functions :: nat
  r2r_method_entrypoints :: nat
  r2r_exceptions :: nat
  r2r_sections :: "r2r_section list"

definition empty_r2r :: r2r_info where
  "empty_r2r =
     \<lparr>r2r_candidate = False, r2r_valid = False, r2r_state = R2RAbsent, r2r_source = NoSource,
      r2r_error = None, r2r_header_offset = 0, r2r_header_rva = 0, r2r_native_rva = 0,
      r2r_native_size = 0, r2r_major = 0, r2r_minor = 0, r2r_flags = 0, r2r_unknown_flags = 0,
      r2r_section_count = 0, r2r_header_size = 0, r2r_composite = False, r2r_component = False,
      r2r_partial = False, r2r_embedded_msil = False, r2r_platform_native = False,
      r2r_stripped_il = False, r2r_stripped_inlining = False, r2r_stripped_debug = False,
      r2r_imports = 0, r2r_runtime_functions = 0, r2r_method_entrypoints = 0, r2r_exceptions = 0,
      r2r_sections = []\<rparr>"

subsection \<open>Reading and mapping\<close>

definition r2r_u16 :: "bytes \<Rightarrow> nat \<Rightarrow> nat" where
  "r2r_u16 data off =
     (if length data < off \<or> length data - off < 2 then 0
      else or4 (data ! off) (data ! (off + 1)) 0 0)"

definition r2r_u32 :: "bytes \<Rightarrow> nat \<Rightarrow> nat" where
  "r2r_u32 data off =
     (if length data < off \<or> length data - off < 4 then 0
      else or4 (data ! off) (data ! (off + 1)) (data ! (off + 2)) (data ! (off + 3)))"

definition add_ok :: "nat \<Rightarrow> nat \<Rightarrow> nat option" where
  "add_ok l r = (if u64_max - l < r then None else Some (l + r))"

definition span_ok :: "bytes \<Rightarrow> nat \<Rightarrow> nat \<Rightarrow> bool" where
  "span_ok data off n \<longleftrightarrow> off \<le> length data \<and> n \<le> length data - off"

fun section_to_file :: "pe_section list \<Rightarrow> nat \<Rightarrow> nat \<Rightarrow> bytes \<Rightarrow> nat option" where
  "section_to_file [] rva n data = None"
| "section_to_file (s # ss) rva n data =
     (if rva < sec_rva s then section_to_file ss rva n data
      else let delta = rva - sec_rva s in
        if sec_raw_size s < delta \<or> sec_raw_size s - delta < n then section_to_file ss rva n data
        else case add_ok (sec_raw_offset s) delta of
          None \<Rightarrow> section_to_file ss rva n data
        | Some off \<Rightarrow> if span_ok data off n then Some off else section_to_file ss rva n data)"

definition rva_to_file :: "pe_info \<Rightarrow> nat \<Rightarrow> nat \<Rightarrow> bytes \<Rightarrow> nat option" where
  "rva_to_file pe rva n data =
     (if n = 0 then None
      else if rva < pe_headers_size pe \<and> rva + n \<le> pe_headers_size pe \<and> span_ok data rva n then Some rva
      else section_to_file (pe_sections pe) rva n data)"

definition in_raw :: "pe_section \<Rightarrow> nat \<Rightarrow> bool" where
  "in_raw s off \<longleftrightarrow> sec_raw_offset s \<le> off \<and> off - sec_raw_offset s < sec_raw_size s"

definition file_to_rva :: "pe_info \<Rightarrow> nat \<Rightarrow> nat" where
  "file_to_rva pe off =
     (if off < pe_headers_size pe then off
      else case filter (\<lambda>s. in_raw s off) (pe_sections pe) of
        [] \<Rightarrow> 0
      | s # _ \<Rightarrow> let delta = off - sec_raw_offset s in
          if u32_max - sec_rva s < delta then 0 else sec_rva s + delta)"

definition r2r_section_names :: "(nat \<times> string) list" where
  "r2r_section_names =
     [(100, ''CompilerIdentifier''), (101, ''ImportSections''), (102, ''RuntimeFunctions''),
      (103, ''MethodDefEntryPoints''), (104, ''ExceptionInfo''), (105, ''DebugInfo''),
      (106, ''DelayLoadMethodCallThunks''), (107, ''AvailableTypesLegacy''), (108, ''AvailableTypes''),
      (109, ''InstanceMethodEntryPoints''), (110, ''InliningInfo''), (111, ''ProfileDataInfo''),
      (112, ''ManifestMetadata''), (113, ''AttributePresence''), (114, ''InliningInfo2''),
      (115, ''ComponentAssemblies''), (116, ''OwnerCompositeExecutable''),
      (117, ''PgoInstrumentationData''), (118, ''ManifestAssemblyMvids''),
      (119, ''CrossModuleInlineInfo''), (120, ''HotColdMap''), (121, ''MethodIsGenericMap''),
      (122, ''EnclosingTypeMap''), (123, ''TypeGenericInfoMap''), (124, ''ExternalTypeMaps''),
      (125, ''ProxyTypeMaps''), (126, ''TypeMapAssemblyTargets''), (127, ''WasmAsyncResumeInfo'')]"

definition section_name :: "nat \<Rightarrow> string" where
  "section_name t =
     (case map_of r2r_section_names t of
        Some n \<Rightarrow> n
      | None \<Rightarrow> ''Unknown('' @ to_dec t @ '')'')"

subsection \<open>Where the header may be\<close>

record header_location =
  loc_rva :: nat
  loc_offset :: nat
  loc_directory :: nat
  loc_source :: r2r_source

definition managed_native_location :: "bytes \<Rightarrow> pe_info \<Rightarrow> r2r_info \<Rightarrow> header_location option \<times> r2r_info" where
  "managed_native_location data pe out =
     (if \<not> pe_clr_present pe then (None, out)
      else let clr_out = out\<lparr>r2r_candidate := True, r2r_source := ManagedNative\<rparr> in
      case rva_to_file pe (pe_clr_rva pe) 1 data of
        None \<Rightarrow> (None, clr_out\<lparr>r2r_error := Some NoNativeDirectory\<rparr>)
      | Some clr \<Rightarrow>
          if \<not> span_ok data clr 72 then (None, clr_out\<lparr>r2r_error := Some NoNativeDirectory\<rparr>)
          else let rva = r2r_u32 data (clr + 64); sz = r2r_u32 data (clr + 68);
                   out1 = out\<lparr>r2r_native_rva := rva, r2r_native_size := sz\<rparr> in
            if rva = 0 \<and> sz = 0 then (None, out1)
            else let out2 = out1\<lparr>r2r_candidate := True, r2r_source := ManagedNative\<rparr> in
              if rva = 0 \<or> sz = 0 then (None, out2\<lparr>r2r_error := Some IncompletePair\<rparr>)
              else case rva_to_file pe rva 1 data of
                None \<Rightarrow> (None, out2\<lparr>r2r_error := Some NativeNotBacked\<rparr>)
              | Some off \<Rightarrow>
                  (Some \<lparr>loc_rva = rva, loc_offset = off, loc_directory = sz, loc_source = ManagedNative\<rparr>, out2))"

definition header_export :: "pe_export \<Rightarrow> bool" where
  "header_export e \<longleftrightarrow> exp_name e = ''RTR_HEADER'' \<and> exp_forwarder e = [] \<and> exp_rva e \<noteq> 0"

definition export_location :: "bytes \<Rightarrow> pe_info \<Rightarrow> r2r_info \<Rightarrow> header_location option \<times> r2r_info" where
  "export_location data pe out =
     (case filter header_export (pe_exports pe) of
        [] \<Rightarrow> (None, out)
      | e # _ \<Rightarrow>
          let out1 = out\<lparr>r2r_candidate := True, r2r_source := HeaderExport\<rparr> in
          (case rva_to_file pe (exp_rva e) 1 data of
             None \<Rightarrow> (None, out1\<lparr>r2r_error := Some ExportNotBacked\<rparr>)
           | Some off \<Rightarrow>
               (Some \<lparr>loc_rva = exp_rva e, loc_offset = off, loc_directory = 0, loc_source = HeaderExport\<rparr>, out1)))"

definition magic_matches :: "bytes \<Rightarrow> pe_info \<Rightarrow> nat list" where
  "magic_matches data pe =
     filter (\<lambda>off. r2r_u32 data off = r2r_signature \<and> list_ex (\<lambda>s. in_raw s off) (pe_sections pe))
       [0..<length data - 3]"

definition unique_magic_location :: "bytes \<Rightarrow> pe_info \<Rightarrow> r2r_info \<Rightarrow> header_location option \<times> r2r_info" where
  "unique_magic_location data pe out =
     (if \<not> pe_clr_present pe then (None, out)
      else case magic_matches data pe of
        [off] \<Rightarrow>
          (Some \<lparr>loc_rva = file_to_rva pe off, loc_offset = off, loc_directory = 0, loc_source = MagicScan\<rparr>,
           out\<lparr>r2r_candidate := True, r2r_source := MagicScan\<rparr>)
      | _ \<Rightarrow> (None, out))"

definition or_else ::
  "header_location option \<times> r2r_info \<Rightarrow> (r2r_info \<Rightarrow> header_location option \<times> r2r_info) \<Rightarrow>
   header_location option \<times> r2r_info" where
  "or_else found next_source =
     (if fst found = None \<and> r2r_error (snd found) = None then next_source (snd found) else found)"

definition locate_header :: "bytes \<Rightarrow> pe_info \<Rightarrow> header_location option \<times> r2r_info" where
  "locate_header data pe =
     or_else (or_else (managed_native_location data pe empty_r2r) (export_location data pe))
       (unique_magic_location data pe)"

subsection \<open>The header and its sections\<close>

definition r2r_fail :: "r2r_info \<Rightarrow> r2r_error \<Rightarrow> (r2r_info, 'a) outcome" where
  "r2r_fail info e = stop (info\<lparr>r2r_valid := False, r2r_state := R2RFailed, r2r_error := Some e\<rparr>)"

definition r2r_header :: "bytes \<Rightarrow> header_location \<Rightarrow> r2r_info \<Rightarrow> (r2r_info, r2r_info) outcome" where
  "r2r_header data loc out0 =
     (let base = loc_offset loc; out = out0\<lparr>r2r_header_offset := base, r2r_header_rva := loc_rva loc\<rparr> in
      if \<not> span_ok data base header_prefix then r2r_fail out PrefixTruncated
      else if r2r_u32 data base \<noteq> r2r_signature then r2r_fail out NoSignature
      else
        let flags = r2r_u32 data (base + 8); n = r2r_u32 data (base + 12);
            out1 = out\<lparr>r2r_major := r2r_u16 data (base + 4), r2r_minor := r2r_u16 data (base + 6),
              r2r_flags := flags, r2r_unknown_flags := flags AND (u32_max - known_flags),
              r2r_section_count := n\<rparr> in
        if r2r_major out1 = 0 then r2r_fail out1 MajorZero
        else if n = 0 \<or> max_sections < n then r2r_fail out1 SectionCount
        else
          let out2 = out1\<lparr>r2r_header_size := header_prefix + n * section_row_size\<rparr> in
          if \<not> span_ok data base (r2r_header_size out2) then r2r_fail out2 TableTruncated
          else if loc_directory loc \<noteq> 0 \<and> loc_directory loc < r2r_header_size out2
          then r2r_fail out2 DirectoryEnds
          else pass out2)"

definition count_section :: "nat \<Rightarrow> r2r_info \<Rightarrow> r2r_info" where
  "count_section t out =
     (if t = 101 then out\<lparr>r2r_imports := r2r_imports out + 1\<rparr>
      else if t = 102 then out\<lparr>r2r_runtime_functions := r2r_runtime_functions out + 1\<rparr>
      else if t = 103 then out\<lparr>r2r_method_entrypoints := r2r_method_entrypoints out + 1\<rparr>
      else if t = 104 then out\<lparr>r2r_exceptions := r2r_exceptions out + 1\<rparr>
      else out)"

text \<open>The rows with the indexes of the list; the type before the first row is only compared after it.\<close>

fun r2r_rows :: "bytes \<Rightarrow> pe_info \<Rightarrow> nat list \<Rightarrow> nat \<Rightarrow> (nat \<times> nat) list \<Rightarrow> r2r_info \<Rightarrow>
    (r2r_info, r2r_info \<times> (nat \<times> nat) list) outcome" where
  "r2r_rows data pe [] previous ranges out = pass (out, ranges)"
| "r2r_rows data pe (i # is) previous ranges out =
     (let row = r2r_header_offset out + header_prefix + i * section_row_size;
          t = r2r_u32 data row; rva = r2r_u32 data (row + 4); sz = r2r_u32 data (row + 8) in
      if i \<noteq> 0 \<and> t \<le> previous then r2r_fail out NotSorted
      else if sz = 0 then r2r_fail out EmptySection
      else case rva_to_file pe rva sz data of
        None \<Rightarrow> r2r_fail out SectionNotBacked
      | Some off \<Rightarrow>
          (case add_ok off sz of
             None \<Rightarrow> r2r_fail out RangeOverflow
           | Some e \<Rightarrow>
               let section = \<lparr>rs_type = t, rs_rva = rva, rs_size = sz, rs_file_offset = off,
                     rs_type_name = section_name t\<rparr>
               in r2r_rows data pe is t (ranges @ [(off, e)])
                    (count_section t (out\<lparr>r2r_sections := r2r_sections out @ [section]\<rparr>))))"

definition r2r_conclude :: "header_location \<Rightarrow> r2r_info \<Rightarrow> r2r_info" where
  "r2r_conclude loc out =
     out\<lparr>r2r_composite := r2r_flags out AND 0x2 \<noteq> 0, r2r_partial := r2r_flags out AND 0x4 \<noteq> 0,
       r2r_embedded_msil := r2r_flags out AND 0x10 \<noteq> 0, r2r_component := r2r_flags out AND 0x20 \<noteq> 0,
       r2r_platform_native := r2r_flags out AND 0x100 \<noteq> 0, r2r_stripped_il := r2r_flags out AND 0x200 \<noteq> 0,
       r2r_stripped_inlining := r2r_flags out AND 0x400 \<noteq> 0, r2r_stripped_debug := r2r_flags out AND 0x800 \<noteq> 0,
       r2r_valid := True, r2r_state := (if loc_source loc = MagicScan then R2RLikely else R2RConfirmed)\<rparr>"

definition r2r_stages :: "bytes \<Rightarrow> pe_info \<Rightarrow> header_location \<Rightarrow> r2r_info \<Rightarrow> (r2r_info, r2r_info) outcome" where
  "r2r_stages data pe loc out0 =
     step (r2r_header data loc out0) (\<lambda>out.
       step (r2r_rows data pe [0..<r2r_section_count out] 0 [] out) (\<lambda>(out1, ranges).
         if overlapping (sort ranges) then r2r_fail out1 RangesOverlap
         else pass (r2r_conclude loc out1)))"

definition detect_ready_to_run :: "bytes \<Rightarrow> pe_info \<Rightarrow> r2r_info option" where
  "detect_ready_to_run data pe =
     (if \<not> pe_valid pe then Some empty_r2r
      else case locate_header data pe of
        (None, out) \<Rightarrow> Some (if r2r_candidate out then out\<lparr>r2r_state := R2RFailed\<rparr> else out)
      | (Some loc, out) \<Rightarrow> settle (r2r_stages data pe loc out))"

subsection \<open>The finding\<close>

definition flag_text :: "bool \<Rightarrow> string" where
  "flag_text b = (if b then ''true'' else ''false'')"

definition range_cap :: nat where "range_cap = 128"

definition r2r_fields :: "r2r_info \<Rightarrow> string \<rightharpoonup> string" where
  "r2r_fields info =
     (let base = Map.empty
          (''source'' \<mapsto> r2r_source_text (r2r_source info),
           ''version'' \<mapsto> to_dec (r2r_major info) @ ''.'' @ to_dec (r2r_minor info),
           ''flags'' \<mapsto> to_dec (r2r_flags info), ''sections'' \<mapsto> to_dec (r2r_section_count info),
           ''runtime_function_sections'' \<mapsto> to_dec (r2r_runtime_functions info),
           ''method_entrypoint_sections'' \<mapsto> to_dec (r2r_method_entrypoints info),
           ''import_sections'' \<mapsto> to_dec (r2r_imports info),
           ''exception_sections'' \<mapsto> to_dec (r2r_exceptions info),
           ''composite'' \<mapsto> flag_text (r2r_composite info), ''component'' \<mapsto> flag_text (r2r_component info),
           ''stripped_il_bodies'' \<mapsto> flag_text (r2r_stripped_il info),
           ''unknown_flags'' \<mapsto> to_dec (r2r_unknown_flags info))
      in if range_cap < length (r2r_sections info)
         then base(''section_ranges_omitted'' \<mapsto> to_dec (length (r2r_sections info) - range_cap))
         else base)"

definition section_range :: "r2r_section \<Rightarrow> range_ref" where
  "section_range s = file_offset_range (rs_file_offset s) (rs_size s) (''R2R '' @ rs_type_name s)"

definition ready_to_run_finding :: "r2r_info \<Rightarrow> finding" where
  "ready_to_run_finding info =
     (let f = empty_finding\<lparr>f_kind := ''runtime'', f_family := ''.NET ReadyToRun'',
            f_variant := (if r2r_major info \<noteq> 0
              then ''R2R '' @ to_dec (r2r_major info) @ ''.'' @ to_dec (r2r_minor info)
              else ''header-candidate''),
            f_state := r2r_state_text (r2r_state info)\<rparr>
      in if \<not> r2r_valid info then
           f\<lparr>f_negative := (case r2r_error info of None \<Rightarrow> [] | Some e \<Rightarrow> [r2r_error_text e])\<rparr>
         else
           f\<lparr>f_confidence := Some (if r2r_state info = R2RConfirmed then 96 else 82),
             f_evidence :=
               [''READYTORUN_HEADER signature and version/core-header geometry validated'',
                ''sorted section directory entries map to non-overlapping file-backed PE ranges'',
                (if r2r_source info = ManagedNative then ''CLI ManagedNativeHeader points to the R2R header''
                 else if r2r_source info = HeaderExport then ''RTR_HEADER export points to the R2R header''
                 else ''a unique RTR header was found inside the validated PE image'')],
             f_fields := r2r_fields info,
             f_ranges :=
               file_offset_range (r2r_header_offset info) (r2r_header_size info)
                 ''ReadyToRun header and section directory'' #
               map section_range (take range_cap (r2r_sections info)),
             f_negative :=
               [''native ReadyToRun methods and fixups were not disassembled'',
                ''runtime acceptance and method reachability remain unresolved''],
             f_actions :=
               [''inspect RuntimeFunctions and MethodDefEntryPoints with an R2R-aware tool'',
                ''compare the embedded IL metadata with the native entrypoint tables'']\<rparr>)"

end
