(* ===== verification/ReadyToRunSafety.thy ===== *)
theory ReadyToRunSafety
  imports ReadyToRun
begin

section \<open>What a ReadyToRun detection guarantees\<close>

text \<open>
  The declarative layout of a header with its sections, the proof that the staged validation decides
  it, and what it gives for the sections and for the ranges of the finding.
\<close>

subsection \<open>Mapping addresses to the file\<close>

lemma r2r_u32_at: "off + 4 \<le> length data \<Longrightarrow> r2r_u32 data off = le_at data off 4"
  by (auto simp: r2r_u32_def le_at_def or4_le_value take4_drop)

interpretation r2r: le_reader r2r_u32
  by unfold_locales (simp add: r2r_u32_at le_at_def, auto simp: r2r_u32_def)

lemma section_to_file_within: "section_to_file ss rva n data = Some off \<Longrightarrow> off + n \<le> length data"
  by (induction ss) (auto simp: Let_def span_ok_def split: if_splits option.splits)

lemma rva_to_file_within: "rva_to_file pe rva n data = Some off \<Longrightarrow> 0 < n \<and> off + n \<le> length data"
  by (auto simp: rva_to_file_def span_ok_def split: if_splits dest: section_to_file_within)

subsection \<open>The layout\<close>

definition row_pos :: "nat \<Rightarrow> nat \<Rightarrow> nat" where
  "row_pos base i = base + header_prefix + i * section_row_size"

definition row_section :: "bytes \<Rightarrow> pe_info \<Rightarrow> nat \<Rightarrow> nat \<Rightarrow> r2r_section" where
  "row_section data pe base i =
     (let p = row_pos base i; t = r2r_u32 data p; rva = r2r_u32 data (p + 4); sz = r2r_u32 data (p + 8)
      in \<lparr>rs_type = t, rs_rva = rva, rs_size = sz,
          rs_file_offset = (case rva_to_file pe rva sz data of None \<Rightarrow> 0 | Some off \<Rightarrow> off),
          rs_type_name = section_name t\<rparr>)"

definition section_span :: "r2r_section \<Rightarrow> nat \<times> nat" where
  "section_span s = (rs_file_offset s, rs_file_offset s + rs_size s)"

text \<open>A row: its type follows that of the row before, its data is not empty and in the file.\<close>

definition row_ok :: "bytes \<Rightarrow> pe_info \<Rightarrow> nat \<Rightarrow> nat \<Rightarrow> bool" where
  "row_ok data pe base i \<longleftrightarrow>
     (let s = row_section data pe base i in
      (i \<noteq> 0 \<longrightarrow> rs_type (row_section data pe base (i - 1)) < rs_type s) \<and> rs_size s \<noteq> 0 \<and>
      rva_to_file pe (rs_rva s) (rs_size s) data \<noteq> None)"

definition r2r_layout :: "bytes \<Rightarrow> pe_info \<Rightarrow> header_location \<Rightarrow> bool" where
  "r2r_layout data pe loc \<longleftrightarrow>
     (let base = loc_offset loc; n = r2r_u32 data (base + 12) in
      base + 16 \<le> length data \<and> r2r_u32 data base = r2r_signature \<and> r2r_u16 data (base + 4) \<noteq> 0 \<and>
      0 < n \<and> n \<le> max_sections \<and> base + (16 + n * 12) \<le> length data \<and>
      (loc_directory loc \<noteq> 0 \<longrightarrow> 16 + n * 12 \<le> loc_directory loc) \<and>
      (\<forall>i < n. row_ok data pe base i) \<and>
      sorted_wrt apart (map (section_span \<circ> row_section data pe base) [0..<n]))"

subsection \<open>The stages\<close>

definition r2r_refused :: "r2r_info \<Rightarrow> bool" where
  "r2r_refused out \<longleftrightarrow> \<not> r2r_valid out \<and> r2r_state out = R2RFailed"

lemma r2r_refused_fail [simp]:
  "meets Q P (r2r_fail out e) \<longleftrightarrow> Q (out\<lparr>r2r_valid := False, r2r_state := R2RFailed, r2r_error := Some e\<rparr>)"
  by (simp add: r2r_fail_def)

lemma r2r_refused_update [simp]:
  "r2r_refused (out\<lparr>r2r_valid := False, r2r_state := R2RFailed, r2r_error := Some e\<rparr>)"
  by (simp add: r2r_refused_def)

text \<open>What the later stages read of the result, and the sections collected so far.\<close>

definition r2r_core :: "header_location \<Rightarrow> nat \<Rightarrow> r2r_section list \<Rightarrow> r2r_info \<Rightarrow> bool" where
  "r2r_core loc n ss out \<longleftrightarrow>
     r2r_header_offset out = loc_offset loc \<and> r2r_section_count out = n \<and>
     r2r_header_size out = 16 + n * 12 \<and> r2r_sections out = ss"

lemma count_section_core [simp]: "r2r_core loc n ss (count_section t out) \<longleftrightarrow> r2r_core loc n ss out"
  by (simp add: count_section_def r2r_core_def)

lemma r2r_core_sections:
  "r2r_core loc n ss out \<Longrightarrow> r2r_core loc n (ss @ [s]) (out\<lparr>r2r_sections := r2r_sections out @ [s]\<rparr>)"
  by (simp add: r2r_core_def)

lemma r2r_header_stage:
  fixes data :: bytes and loc :: header_location
  defines "n \<equiv> r2r_u32 data (loc_offset loc + 12)"
  assumes "r2r_sections out0 = []"
  shows "decides_by r2r_refused
    (loc_offset loc + 16 \<le> length data \<and> r2r_u32 data (loc_offset loc) = r2r_signature \<and>
      r2r_u16 data (loc_offset loc + 4) \<noteq> 0 \<and> 0 < n \<and> n \<le> max_sections \<and>
      loc_offset loc + (16 + n * 12) \<le> length data \<and> (loc_directory loc \<noteq> 0 \<longrightarrow> 16 + n * 12 \<le> loc_directory loc))
    (r2r_core loc n []) (r2r_header data loc out0)"
proof -
  have span: "span_ok data (loc_offset loc) k \<longleftrightarrow> loc_offset loc + k \<le> length data" for k
    by (auto simp: span_ok_def)
  show ?thesis
    using assms(2)
    by (auto simp: r2r_header_def Let_def span header_prefix_def section_row_size_def n_def [symmetric] r2r_core_def)
qed

lemma r2r_rows_stage:
  assumes small: "length data \<le> u64_max" and core: "r2r_core loc n ss out"
    and k: "k \<le> n" and prev: "k \<noteq> 0 \<Longrightarrow> previous = rs_type (row_section data pe (loc_offset loc) (k - 1))"
  shows "decides_by r2r_refused (\<forall>i \<in> {k..<n}. row_ok data pe (loc_offset loc) i)
    (\<lambda>(out', rs). r2r_core loc n (ss @ map (row_section data pe (loc_offset loc)) [k..<n]) out' \<and>
      rs = ranges @ map (section_span \<circ> row_section data pe (loc_offset loc)) [k..<n])
    (r2r_rows data pe [k..<n] previous ranges out)"
  using core k prev
proof (induction "n - k" arbitrary: k ss out previous ranges)
  case 0
  then show ?case by simp
next
  case (Suc d)
  let ?base = "loc_offset loc"
  let ?s = "row_section data pe ?base k"
  have less: "k < n" and split: "[k..<n] = k # [Suc k..<n]" using Suc.hyps(2) by (simp_all add: upt_rec)
  have base: "r2r_header_offset out = ?base" using Suc.prems(1) by (simp add: r2r_core_def)
  have fields: "rs_type ?s = r2r_u32 data (row_pos ?base k)" "rs_rva ?s = r2r_u32 data (row_pos ?base k + 4)"
      "rs_size ?s = r2r_u32 data (row_pos ?base k + 8)" by (simp_all add: row_section_def Let_def)
  have all: "(\<forall>i \<in> {k..<n}. row_ok data pe ?base i) \<longleftrightarrow>
      row_ok data pe ?base k \<and> (\<forall>i \<in> {Suc k..<n}. row_ok data pe ?base i)" using less by (auto simp: Suc_le_eq le_eq_less_or_eq)
  show ?case
  proof (cases "row_ok data pe ?base k")
    case False
    then show ?thesis
      using Suc.prems(3) unfolding all split
      by (auto simp: row_ok_def Let_def fields base row_pos_def [symmetric])
  next
    case True
    then obtain off where off: "rva_to_file pe (rs_rva ?s) (rs_size ?s) data = Some off" "rs_size ?s \<noteq> 0"
        "k \<noteq> 0 \<longrightarrow> rs_type (row_section data pe ?base (k - 1)) < rs_type ?s"
      by (auto simp: row_ok_def Let_def)
    have at_off: "rs_file_offset ?s = off" using off(1) by (simp add: row_section_def Let_def)
    have "off + rs_size ?s \<le> u64_max" using rva_to_file_within [OF off(1)] small by simp
    then have add: "add_ok off (rs_size ?s) = Some (off + rs_size ?s)" by (auto simp: add_ok_def)
    have row: "\<lparr>rs_type = rs_type ?s, rs_rva = rs_rva ?s, rs_size = rs_size ?s, rs_file_offset = off,
        rs_type_name = section_name (rs_type ?s)\<rparr> = ?s" using off(1) by (simp add: row_section_def Let_def)
    have sorted: "(k \<noteq> 0 \<and> rs_type ?s \<le> previous) = False" using off(3) Suc.prems(3) by auto
    have "r2r_rows data pe [k..<n] previous ranges out = r2r_rows data pe [Suc k..<n] (rs_type ?s)
        (ranges @ [section_span ?s]) (count_section (rs_type ?s) (out\<lparr>r2r_sections := r2r_sections out @ [?s]\<rparr>))"
      using off(2) sorted unfolding split
      by (auto simp: Let_def base row_pos_def [symmetric] fields [symmetric] off(1) add row section_span_def at_off)
    moreover have "r2r_core loc n (ss @ [?s]) (count_section (rs_type ?s) (out\<lparr>r2r_sections := r2r_sections out @ [?s]\<rparr>))"
      using r2r_core_sections [OF Suc.prems(1)] by simp
    ultimately show ?thesis
      using Suc.hyps(1) [of "Suc k" "ss @ [?s]" _ "rs_type ?s" "ranges @ [section_span ?s]"] Suc.hyps(2) less True
      unfolding all split by simp
  qed
qed

lemma section_span_nonempty: "row_ok data pe base i \<Longrightarrow> fst (section_span (row_section data pe base i)) <
    snd (section_span (row_section data pe base i))"
  by (simp add: row_ok_def section_span_def Let_def)

definition r2r_done :: "bytes \<Rightarrow> pe_info \<Rightarrow> header_location \<Rightarrow> r2r_info \<Rightarrow> bool" where
  "r2r_done data pe loc out \<longleftrightarrow>
     (let n = r2r_u32 data (loc_offset loc + 12) in
      r2r_core loc n (map (row_section data pe (loc_offset loc)) [0..<n]) out) \<and>
     r2r_valid out \<and> r2r_state out = (if loc_source loc = MagicScan then R2RLikely else R2RConfirmed)"

lemma r2r_stages_decide:
  assumes small: "length data \<le> u64_max" and fresh: "r2r_sections out0 = []"
  shows "decides_by r2r_refused (r2r_layout data pe loc) (r2r_done data pe loc) (r2r_stages data pe loc out0)"
proof -
  define base n where "base = loc_offset loc" and "n = r2r_u32 data (base + 12)"
  let ?rs = "map (section_span \<circ> row_section data pe base) [0..<n]"
  let ?head = "base + 16 \<le> length data \<and> r2r_u32 data base = r2r_signature \<and> r2r_u16 data (base + 4) \<noteq> 0 \<and>
    0 < n \<and> n \<le> max_sections \<and> base + (16 + n * 12) \<le> length data \<and>
    (loc_directory loc \<noteq> 0 \<longrightarrow> 16 + n * 12 \<le> loc_directory loc)"
  let ?rows = "\<forall>i \<in> {0..<n}. row_ok data pe base i"
  have last: "decides_by r2r_refused (sorted_wrt apart ?rs) (r2r_done data pe loc)
      (if overlapping (sort ranges) then r2r_fail out1 RangesOverlap else pass (r2r_conclude loc out1))"
    if "?rows" "r2r_core loc n (map (row_section data pe base) [0..<n]) out1" "ranges = ?rs" for out1 ranges
  proof -
    have "overlapping (sort ranges) \<longleftrightarrow> \<not> sorted_wrt apart ?rs" unfolding that(3)
      by (rule overlapping_sort_iff) (use that(1) section_span_nonempty in auto)
    then show ?thesis
      using that(2) by (auto simp: r2r_done_def r2r_conclude_def r2r_core_def base_def n_def Let_def)
  qed
  have "decides_by r2r_refused (?head \<and> ?rows \<and> sorted_wrt apart ?rs) (r2r_done data pe loc) (r2r_stages data pe loc out0)"
    unfolding r2r_stages_def
  proof (rule decides_step [OF r2r_header_stage [where data = data and loc = loc, folded base_def, folded n_def, OF fresh]])
    fix out
    assume core: "r2r_core loc n [] out"
    then have sections: "r2r_section_count out = n" by (simp add: r2r_core_def)
    have rows: "decides_by r2r_refused ?rows (\<lambda>(o', rs). r2r_core loc n (map (row_section data pe base) [0..<n]) o' \<and> rs = ?rs)
        (r2r_rows data pe [0..<n] 0 [] out)"
      using r2r_rows_stage [OF small core, where k = 0 and ranges = "[]"] by (simp add: base_def)
    show "decides_by r2r_refused (?rows \<and> sorted_wrt apart ?rs) (r2r_done data pe loc)
        (step (r2r_rows data pe [0..<r2r_section_count out] 0 [] out) (\<lambda>(out1, ranges).
          if overlapping (sort ranges) then r2r_fail out1 RangesOverlap else pass (r2r_conclude loc out1)))"
      unfolding sections by (rule decides_step2 [OF rows]) (use last in blast)
  qed
  then show ?thesis
    by (simp add: r2r_layout_def Let_def base_def n_def atLeast0LessThan Ball_def conj_ac)
qed

subsection \<open>Properties\<close>

definition fresh_location :: "header_location option \<times> r2r_info \<Rightarrow> bool" where
  "fresh_location found \<longleftrightarrow>
     r2r_sections (snd found) = [] \<and> \<not> r2r_valid (snd found) \<and> r2r_state (snd found) = R2RAbsent"

lemma location_fresh:
  assumes "r2r_sections out = []" and "\<not> r2r_valid out" and "r2r_state out = R2RAbsent"
  shows "fresh_location (managed_native_location data pe out)" and "fresh_location (export_location data pe out)"
    and "fresh_location (unique_magic_location data pe out)"
  using assms by (auto simp: managed_native_location_def export_location_def unique_magic_location_def
      fresh_location_def Let_def split: option.splits list.splits)

lemma location_source:
  "managed_native_location data pe out = (Some loc, out') \<Longrightarrow> loc_source loc = ManagedNative"
  "export_location data pe out = (Some loc, out') \<Longrightarrow> loc_source loc = HeaderExport"
  "export_location data pe out = (None, out') \<Longrightarrow> r2r_error out' = None \<Longrightarrow> filter header_export (pe_exports pe) = []"
  "unique_magic_location data pe out = (Some loc, out') \<Longrightarrow> magic_matches data pe = [loc_offset loc]"
  by (auto simp: managed_native_location_def export_location_def unique_magic_location_def Let_def
      split: option.splits list.splits if_splits)

lemma locate_header_fresh: "fresh_location (locate_header data pe)"
  using location_fresh [of empty_r2r data pe] location_fresh [of "snd (managed_native_location data pe empty_r2r)" data pe]
    location_fresh [of "snd (export_location data pe (snd (managed_native_location data pe empty_r2r)))" data pe]
  by (auto simp: locate_header_def or_else_def fresh_location_def empty_r2r_def)

lemma locate_header_magic:
  assumes "locate_header data pe = (Some loc, out)" and "loc_source loc = MagicScan"
  shows "filter header_export (pe_exports pe) = [] \<and> magic_matches data pe = [loc_offset loc]"
proof -
  obtain l1 o1 where m: "managed_native_location data pe empty_r2r = (l1, o1)" by (cases "managed_native_location data pe empty_r2r")
  obtain l2 o2 where e: "export_location data pe o1 = (l2, o2)" by (cases "export_location data pe o1")
  have none: "l1 = None" "r2r_error o1 = None"
  proof -
    have "l1 \<noteq> Some loc" using location_source(1) [of data pe empty_r2r loc] m assms(2) by auto
    moreover have "l2 \<noteq> Some loc" using location_source(2) [of data pe o1 loc] e assms(2) by auto
    ultimately show "l1 = None" "r2r_error o1 = None"
      using assms(1) m e by (auto simp: locate_header_def or_else_def split: if_splits)
  qed
  moreover have "l2 = None" "r2r_error o2 = None"
    using assms e m none location_source(2) [of data pe o1 loc] by (auto simp: locate_header_def or_else_def split: if_splits)
  ultimately have "unique_magic_location data pe o2 = (Some loc, out)"
    using assms(1) m e by (simp add: locate_header_def or_else_def)
  then show ?thesis using location_source(3) [OF e [unfolded \<open>l2 = None\<close>] \<open>r2r_error o2 = None\<close>] location_source(4) by blast
qed

lemma r2r_outcomes:
  assumes "length data \<le> u64_max"
  obtains (absent) info where "detect_ready_to_run data pe = Some info" "\<not> r2r_valid info"
      "r2r_state info = R2RAbsent \<or> r2r_state info = R2RFailed"
      "\<not> (pe_valid pe \<and> (\<exists>loc. fst (locate_header data pe) = Some loc \<and> r2r_layout data pe loc))"
  | (present) info loc out where "detect_ready_to_run data pe = Some info" "pe_valid pe"
      "locate_header data pe = (Some loc, out)" "r2r_layout data pe loc" "r2r_done data pe loc info"
proof (cases "pe_valid pe")
  case False
  then show ?thesis using absent by (simp add: detect_ready_to_run_def empty_r2r_def)
next
  case True
  obtain l out where found: "locate_header data pe = (l, out)" by (cases "locate_header data pe")
  have fresh: "r2r_sections out = []" "\<not> r2r_valid out" "r2r_state out = R2RAbsent"
    using locate_header_fresh [of data pe] found by (simp_all add: fresh_location_def)
  show ?thesis
  proof (cases l)
    case None
    then show ?thesis using absent True found fresh by (auto simp: detect_ready_to_run_def)
  next
    case (Some loc)
    have detect: "detect_ready_to_run data pe = settle (r2r_stages data pe loc out)"
      using True found Some by (simp add: detect_ready_to_run_def)
    from r2r_stages_decide [OF assms fresh(1), of pe loc] show ?thesis
    proof (cases rule: settle_meets)
      case (stopped a)
      then show ?thesis using absent [of a] detect found Some by (auto simp: r2r_refused_def)
    next
      case (passed a)
      then show ?thesis using present [of a loc out] detect found Some True by simp
    qed
  qed
qed

text \<open>C23: ReadyToRun detection is total and decides the described layout: the result is valid exactly
  when the image is valid, a header location was found and header and section directory satisfy the
  declarative layout there; \<^verbatim>\<open>LIKELY\<close> or \<^verbatim>\<open>CONFIRMED\<close> is reported for valid
  results alone, and \<^verbatim>\<open>LIKELY\<close> only for a header found by its magic, which is then the only
  one in the sections of an image without the header export.\<close>

theorem r2r_detection_decides:
  assumes "length data \<le> u64_max"
  shows "\<exists>info. detect_ready_to_run data pe = Some info \<and>
    (r2r_valid info \<longleftrightarrow> pe_valid pe \<and> (\<exists>loc. fst (locate_header data pe) = Some loc \<and> r2r_layout data pe loc)) \<and>
    (r2r_state info \<in> {R2RLikely, R2RConfirmed} \<longleftrightarrow> r2r_valid info) \<and>
    (r2r_state info = R2RLikely \<longrightarrow>
      filter header_export (pe_exports pe) = [] \<and> magic_matches data pe = [r2r_header_offset info])"
  using assms
proof (cases rule: r2r_outcomes [of data pe])
  case (absent info)
  then show ?thesis by auto
next
  case (present info loc out)
  have "r2r_header_offset info = loc_offset loc" "r2r_valid info"
      "r2r_state info = (if loc_source loc = MagicScan then R2RLikely else R2RConfirmed)"
    using present(5) by (simp_all add: r2r_done_def r2r_core_def Let_def)
  then show ?thesis using present(1-4) locate_header_magic [OF present(3)]
    by (intro exI [of _ info]) (simp split: if_splits)
qed

text \<open>C24: The sections of a valid ReadyToRun result can be used as they are: as many as the header
  declares, of strictly increasing types, each a non-empty range inside the file, no two of them
  sharing a byte; and every range of the finding is a position of the analysed file inside it.\<close>

theorem r2r_sections_sound:
  assumes "length data \<le> u64_max" and "detect_ready_to_run data pe = Some info" and "r2r_valid info"
  shows "length (r2r_sections info) = r2r_section_count info \<and>
    sorted_wrt (<) (map rs_type (r2r_sections info)) \<and>
    sorted_wrt apart (map section_span (r2r_sections info)) \<and>
    (\<forall>s \<in> set (r2r_sections info). 0 < rs_size s \<and> rs_file_offset s + rs_size s \<le> length data) \<and>
    list_all (\<lambda>x. is_file_range x \<and> range_within (length data) x) (f_ranges (ready_to_run_finding info))"
  using assms(1)
proof (cases rule: r2r_outcomes [of data pe])
  case (absent info')
  then show ?thesis using assms(2,3) by simp
next
  case (present info' loc out)
  define base n where "base = loc_offset loc" and "n = r2r_u32 data (base + 12)"
  have info: "info' = info" using present(1) assms(2) by simp
  have core: "r2r_sections info = map (row_section data pe base) [0..<n]" "r2r_section_count info = n"
      "r2r_header_offset info = base" "r2r_header_size info = 16 + n * 12"
    using present(5) by (simp_all add: info r2r_done_def r2r_core_def base_def n_def Let_def)
  have layout: "\<forall>i < n. row_ok data pe base i" "base + (16 + n * 12) \<le> length data"
      "sorted_wrt apart (map (section_span \<circ> row_section data pe base) [0..<n])"
    using present(4) by (simp_all add: r2r_layout_def base_def n_def Let_def)
  have types: "sorted_wrt (<) (map rs_type (r2r_sections info))"
    unfolding core by (simp add: sorted_wrt_map) (rule sorted_wrt_upt_step, use layout(1) in \<open>auto simp: row_ok_def Let_def\<close>)
  have within: "\<forall>s \<in> set (r2r_sections info). 0 < rs_size s \<and> rs_file_offset s + rs_size s \<le> length data"
  proof
    fix s
    assume "s \<in> set (r2r_sections info)"
    then obtain i where i: "s = row_section data pe base i" "row_ok data pe base i" using layout(1) by (auto simp: core)
    then obtain off where off: "rva_to_file pe (rs_rva s) (rs_size s) data = Some off" by (auto simp: row_ok_def Let_def)
    then have "rs_file_offset s = off" by (auto simp: i row_section_def Let_def)
    then show "0 < rs_size s \<and> rs_file_offset s + rs_size s \<le> length data" using rva_to_file_within [OF off] by simp
  qed
  have "list_all (\<lambda>x. is_file_range x \<and> range_within (length data) x) (f_ranges (ready_to_run_finding info))"
    using within layout(2) assms(3)
    by (auto simp: ready_to_run_finding_def Let_def list_all_iff section_range_def range_within_def core(3,4) dest!: in_set_takeD)
  then show ?thesis using types within layout(3) core(1,2) by simp
qed

subsection \<open>A sample image\<close>

text \<open>One section that holds the exported header, one row and the four bytes the row describes.\<close>

definition sample_r2r :: bytes where
  "sample_r2r =
     [0x52, 0x54, 0x52, 0, 9, 0, 2, 0, 3, 0, 0, 0, 1, 0, 0, 0,
      102, 0, 0, 0, 0x1c, 0x10, 0, 0, 4, 0, 0, 0, 1, 2, 3, 4]"

definition sample_pe :: pe_info where
  "sample_pe =
     \<lparr>pe_valid = True, pe_headers_size = 0,
      pe_sections = [\<lparr>sec_rva = 4096, sec_raw_offset = 0, sec_raw_size = 32\<rparr>],
      pe_exports = [\<lparr>exp_name = ''RTR_HEADER'', exp_forwarder = [], exp_rva = 4096\<rparr>],
      pe_clr_present = False, pe_clr_rva = 0\<rparr>"

lemma sample_r2r_reads:
  "length sample_r2r = 32" "r2r_u32 sample_r2r 0 = r2r_signature" "r2r_u16 sample_r2r 4 = 9"
  "r2r_u32 sample_r2r 12 = 1" "r2r_u32 sample_r2r 20 = 4124" "r2r_u32 sample_r2r 24 = 4"
  by (simp_all add: r2r_u32_def r2r_u16_def sample_r2r_def or4_le_value r2r_signature_def)

lemma sample_rva: "0 < n \<Longrightarrow> n + k \<le> 32 \<Longrightarrow> rva_to_file sample_pe (4096 + k) n sample_r2r = Some k"
  by (auto simp: rva_to_file_def sample_pe_def add_ok_def span_ok_def sample_r2r_reads u64_max_def)

lemma sample_layout:
  "\<exists>loc. fst (locate_header sample_r2r sample_pe) = Some loc \<and> r2r_layout sample_r2r sample_pe loc"
proof -
  let ?loc = "\<lparr>loc_rva = 4096, loc_offset = 0, loc_directory = 0, loc_source = HeaderExport\<rparr>"
  have found: "fst (locate_header sample_r2r sample_pe) = Some ?loc"
  proof -
    have pe: "\<not> pe_clr_present sample_pe"
        "pe_exports sample_pe = [\<lparr>exp_name = ''RTR_HEADER'', exp_forwarder = [], exp_rva = 4096\<rparr>]"
      by (simp_all add: sample_pe_def)
    show ?thesis using sample_rva [of 1 0]
      by (simp add: locate_header_def or_else_def managed_native_location_def export_location_def pe
          header_export_def empty_r2r_def Let_def)
  qed
  have "row_ok sample_r2r sample_pe 0 0"
    using sample_rva [of 4 28] by (simp add: row_ok_def row_section_def row_pos_def Let_def header_prefix_def sample_r2r_reads)
  then have "r2r_layout sample_r2r sample_pe ?loc"
    by (simp add: r2r_layout_def Let_def sample_r2r_reads max_sections_def)
  then show ?thesis using found by blast
qed

theorem r2r_detection_decides_witness:
  "\<exists>info. detect_ready_to_run sample_r2r sample_pe = Some info \<and> r2r_valid info"
proof -
  have "length sample_r2r \<le> u64_max" "pe_valid sample_pe" by (simp_all add: sample_r2r_reads u64_max_def sample_pe_def)
  then show ?thesis using r2r_detection_decides [of sample_r2r sample_pe] sample_layout by blast
qed

theorem r2r_sections_sound_witness:
  "\<exists>info. detect_ready_to_run sample_r2r sample_pe = Some info \<and> length (r2r_sections info) = r2r_section_count info"
proof -
  have small: "length sample_r2r \<le> u64_max" and "pe_valid sample_pe"
    by (simp_all add: sample_r2r_reads u64_max_def sample_pe_def)
  then obtain info where info: "detect_ready_to_run sample_r2r sample_pe = Some info" "r2r_valid info"
    using sample_layout by (cases rule: r2r_outcomes [OF small, of sample_pe]) (auto simp: r2r_done_def)
  show ?thesis using r2r_sections_sound [OF small info] info(1) by blast
qed

end
