(* ===== verification/HermesOpcodes.thy ===== *)
theory HermesOpcodes
  imports Prelude
begin

section \<open>The opcode tables of Hermes\<close>

text \<open>
  The tables of \<^verbatim>\<open>src/extract/hermes_opcodes.inc\<close> in file order: name and length in
  bytes of every opcode of bytecode versions 89, 96 and 98.
\<close>

type_synonym opcode_table = "(string \<times> nat) list"

definition hermes_opcodes_v89 :: opcode_table where
  "hermes_opcodes_v89 =
    [
      (''Unreachable'', 1),
      (''NewObjectWithBuffer'', 10),
      (''NewObjectWithBufferLong'', 14),
      (''NewObject'', 2),
      (''NewObjectWithParent'', 3),
      (''NewArrayWithBuffer'', 8),
      (''NewArrayWithBufferLong'', 10),
      (''NewArray'', 4),
      (''Mov'', 3),
      (''MovLong'', 9),
      (''Negate'', 3),
      (''Not'', 3),
      (''BitNot'', 3),
      (''TypeOf'', 3),
      (''Eq'', 4),
      (''StrictEq'', 4),
      (''Neq'', 4),
      (''StrictNeq'', 4),
      (''Less'', 4),
      (''LessEq'', 4),
      (''Greater'', 4),
      (''GreaterEq'', 4),
      (''Add'', 4),
      (''AddN'', 4),
      (''Mul'', 4),
      (''MulN'', 4),
      (''Div'', 4),
      (''DivN'', 4),
      (''Mod'', 4),
      (''Sub'', 4),
      (''SubN'', 4),
      (''LShift'', 4),
      (''RShift'', 4),
      (''URshift'', 4),
      (''BitAnd'', 4),
      (''BitXor'', 4),
      (''BitOr'', 4),
      (''Inc'', 3),
      (''Dec'', 3),
      (''InstanceOf'', 4),
      (''IsIn'', 4),
      (''GetEnvironment'', 3),
      (''StoreToEnvironment'', 4),
      (''StoreToEnvironmentL'', 5),
      (''StoreNPToEnvironment'', 4),
      (''StoreNPToEnvironmentL'', 5),
      (''LoadFromEnvironment'', 4),
      (''LoadFromEnvironmentL'', 5),
      (''GetGlobalObject'', 2),
      (''GetNewTarget'', 2),
      (''CreateEnvironment'', 2),
      (''DeclareGlobalVar'', 5),
      (''GetByIdShort'', 5),
      (''GetById'', 6),
      (''GetByIdLong'', 8),
      (''TryGetById'', 6),
      (''TryGetByIdLong'', 8),
      (''PutById'', 6),
      (''PutByIdLong'', 8),
      (''TryPutById'', 6),
      (''TryPutByIdLong'', 8),
      (''PutNewOwnByIdShort'', 4),
      (''PutNewOwnById'', 5),
      (''PutNewOwnByIdLong'', 7),
      (''PutNewOwnNEById'', 5),
      (''PutNewOwnNEByIdLong'', 7),
      (''PutOwnByIndex'', 4),
      (''PutOwnByIndexL'', 7),
      (''PutOwnByVal'', 5),
      (''DelById'', 5),
      (''DelByIdLong'', 7),
      (''GetByVal'', 4),
      (''PutByVal'', 4),
      (''DelByVal'', 4),
      (''PutOwnGetterSetterByVal'', 6),
      (''GetPNameList'', 5),
      (''GetNextPName'', 6),
      (''Call'', 4),
      (''Construct'', 4),
      (''Call1'', 4),
      (''CallDirect'', 5),
      (''Call2'', 5),
      (''Call3'', 6),
      (''Call4'', 7),
      (''CallLong'', 7),
      (''ConstructLong'', 7),
      (''CallDirectLongIndex'', 7),
      (''CallBuiltin'', 4),
      (''CallBuiltinLong'', 7),
      (''GetBuiltinClosure'', 3),
      (''Ret'', 2),
      (''Catch'', 2),
      (''DirectEval'', 3),
      (''Throw'', 2),
      (''ThrowIfEmpty'', 3),
      (''Debugger'', 1),
      (''AsyncBreakCheck'', 1),
      (''ProfilePoint'', 3),
      (''CreateClosure'', 5),
      (''CreateClosureLongIndex'', 7),
      (''CreateGeneratorClosure'', 5),
      (''CreateGeneratorClosureLongIndex'', 7),
      (''CreateAsyncClosure'', 5),
      (''CreateAsyncClosureLongIndex'', 7),
      (''CreateThis'', 4),
      (''SelectObject'', 4),
      (''LoadParam'', 3),
      (''LoadParamLong'', 6),
      (''LoadConstUInt8'', 3),
      (''LoadConstInt'', 6),
      (''LoadConstDouble'', 10),
      (''LoadConstBigInt'', 4),
      (''LoadConstBigIntLongIndex'', 6),
      (''LoadConstString'', 4),
      (''LoadConstStringLongIndex'', 6),
      (''LoadConstEmpty'', 2),
      (''LoadConstUndefined'', 2),
      (''LoadConstNull'', 2),
      (''LoadConstTrue'', 2),
      (''LoadConstFalse'', 2),
      (''LoadConstZero'', 2),
      (''CoerceThisNS'', 3),
      (''LoadThisNS'', 2),
      (''ToNumber'', 3),
      (''ToNumeric'', 3),
      (''ToInt32'', 3),
      (''AddEmptyString'', 3),
      (''GetArgumentsPropByVal'', 4),
      (''GetArgumentsLength'', 3),
      (''ReifyArguments'', 2),
      (''CreateRegExp'', 14),
      (''SwitchImm'', 18),
      (''StartGenerator'', 1),
      (''ResumeGenerator'', 3),
      (''CompleteGenerator'', 1),
      (''CreateGenerator'', 5),
      (''CreateGeneratorLongIndex'', 7),
      (''IteratorBegin'', 3),
      (''IteratorNext'', 4),
      (''IteratorClose'', 3),
      (''Jmp'', 2),
      (''JmpLong'', 5),
      (''JmpTrue'', 3),
      (''JmpTrueLong'', 6),
      (''JmpFalse'', 3),
      (''JmpFalseLong'', 6),
      (''JmpUndefined'', 3),
      (''JmpUndefinedLong'', 6),
      (''SaveGenerator'', 2),
      (''SaveGeneratorLong'', 5),
      (''JLess'', 4),
      (''JLessLong'', 7),
      (''JNotLess'', 4),
      (''JNotLessLong'', 7),
      (''JLessN'', 4),
      (''JLessNLong'', 7),
      (''JNotLessN'', 4),
      (''JNotLessNLong'', 7),
      (''JLessEqual'', 4),
      (''JLessEqualLong'', 7),
      (''JNotLessEqual'', 4),
      (''JNotLessEqualLong'', 7),
      (''JLessEqualN'', 4),
      (''JLessEqualNLong'', 7),
      (''JNotLessEqualN'', 4),
      (''JNotLessEqualNLong'', 7),
      (''JGreater'', 4),
      (''JGreaterLong'', 7),
      (''JNotGreater'', 4),
      (''JNotGreaterLong'', 7),
      (''JGreaterN'', 4),
      (''JGreaterNLong'', 7),
      (''JNotGreaterN'', 4),
      (''JNotGreaterNLong'', 7),
      (''JGreaterEqual'', 4),
      (''JGreaterEqualLong'', 7),
      (''JNotGreaterEqual'', 4),
      (''JNotGreaterEqualLong'', 7),
      (''JGreaterEqualN'', 4),
      (''JGreaterEqualNLong'', 7),
      (''JNotGreaterEqualN'', 4),
      (''JNotGreaterEqualNLong'', 7),
      (''JEqual'', 4),
      (''JEqualLong'', 7),
      (''JNotEqual'', 4),
      (''JNotEqualLong'', 7),
      (''JStrictEqual'', 4),
      (''JStrictEqualLong'', 7),
      (''JStrictNotEqual'', 4),
      (''JStrictNotEqualLong'', 7)]"

definition hermes_opcodes_v96 :: opcode_table where
  "hermes_opcodes_v96 =
    [
      (''Unreachable'', 1),
      (''NewObjectWithBuffer'', 10),
      (''NewObjectWithBufferLong'', 14),
      (''NewObject'', 2),
      (''NewObjectWithParent'', 3),
      (''NewArrayWithBuffer'', 8),
      (''NewArrayWithBufferLong'', 10),
      (''NewArray'', 4),
      (''Mov'', 3),
      (''MovLong'', 9),
      (''Negate'', 3),
      (''Not'', 3),
      (''BitNot'', 3),
      (''TypeOf'', 3),
      (''Eq'', 4),
      (''StrictEq'', 4),
      (''Neq'', 4),
      (''StrictNeq'', 4),
      (''Less'', 4),
      (''LessEq'', 4),
      (''Greater'', 4),
      (''GreaterEq'', 4),
      (''Add'', 4),
      (''AddN'', 4),
      (''Mul'', 4),
      (''MulN'', 4),
      (''Div'', 4),
      (''DivN'', 4),
      (''Mod'', 4),
      (''Sub'', 4),
      (''SubN'', 4),
      (''LShift'', 4),
      (''RShift'', 4),
      (''URshift'', 4),
      (''BitAnd'', 4),
      (''BitXor'', 4),
      (''BitOr'', 4),
      (''Inc'', 3),
      (''Dec'', 3),
      (''InstanceOf'', 4),
      (''IsIn'', 4),
      (''GetEnvironment'', 3),
      (''StoreToEnvironment'', 4),
      (''StoreToEnvironmentL'', 5),
      (''StoreNPToEnvironment'', 4),
      (''StoreNPToEnvironmentL'', 5),
      (''LoadFromEnvironment'', 4),
      (''LoadFromEnvironmentL'', 5),
      (''GetGlobalObject'', 2),
      (''GetNewTarget'', 2),
      (''CreateEnvironment'', 2),
      (''CreateInnerEnvironment'', 7),
      (''DeclareGlobalVar'', 5),
      (''ThrowIfHasRestrictedGlobalProperty'', 5),
      (''GetByIdShort'', 5),
      (''GetById'', 6),
      (''GetByIdLong'', 8),
      (''TryGetById'', 6),
      (''TryGetByIdLong'', 8),
      (''PutById'', 6),
      (''PutByIdLong'', 8),
      (''TryPutById'', 6),
      (''TryPutByIdLong'', 8),
      (''PutNewOwnByIdShort'', 4),
      (''PutNewOwnById'', 5),
      (''PutNewOwnByIdLong'', 7),
      (''PutNewOwnNEById'', 5),
      (''PutNewOwnNEByIdLong'', 7),
      (''PutOwnByIndex'', 4),
      (''PutOwnByIndexL'', 7),
      (''PutOwnByVal'', 5),
      (''DelById'', 5),
      (''DelByIdLong'', 7),
      (''GetByVal'', 4),
      (''PutByVal'', 4),
      (''DelByVal'', 4),
      (''PutOwnGetterSetterByVal'', 6),
      (''GetPNameList'', 5),
      (''GetNextPName'', 6),
      (''Call'', 4),
      (''Construct'', 4),
      (''Call1'', 4),
      (''CallDirect'', 5),
      (''Call2'', 5),
      (''Call3'', 6),
      (''Call4'', 7),
      (''CallLong'', 7),
      (''ConstructLong'', 7),
      (''CallDirectLongIndex'', 7),
      (''CallBuiltin'', 4),
      (''CallBuiltinLong'', 7),
      (''GetBuiltinClosure'', 3),
      (''Ret'', 2),
      (''Catch'', 2),
      (''DirectEval'', 4),
      (''Throw'', 2),
      (''ThrowIfEmpty'', 3),
      (''Debugger'', 1),
      (''AsyncBreakCheck'', 1),
      (''ProfilePoint'', 3),
      (''CreateClosure'', 5),
      (''CreateClosureLongIndex'', 7),
      (''CreateGeneratorClosure'', 5),
      (''CreateGeneratorClosureLongIndex'', 7),
      (''CreateAsyncClosure'', 5),
      (''CreateAsyncClosureLongIndex'', 7),
      (''CreateThis'', 4),
      (''SelectObject'', 4),
      (''LoadParam'', 3),
      (''LoadParamLong'', 6),
      (''LoadConstUInt8'', 3),
      (''LoadConstInt'', 6),
      (''LoadConstDouble'', 10),
      (''LoadConstBigInt'', 4),
      (''LoadConstBigIntLongIndex'', 6),
      (''LoadConstString'', 4),
      (''LoadConstStringLongIndex'', 6),
      (''LoadConstEmpty'', 2),
      (''LoadConstUndefined'', 2),
      (''LoadConstNull'', 2),
      (''LoadConstTrue'', 2),
      (''LoadConstFalse'', 2),
      (''LoadConstZero'', 2),
      (''CoerceThisNS'', 3),
      (''LoadThisNS'', 2),
      (''ToNumber'', 3),
      (''ToNumeric'', 3),
      (''ToInt32'', 3),
      (''AddEmptyString'', 3),
      (''GetArgumentsPropByVal'', 4),
      (''GetArgumentsLength'', 3),
      (''ReifyArguments'', 2),
      (''CreateRegExp'', 14),
      (''SwitchImm'', 18),
      (''StartGenerator'', 1),
      (''ResumeGenerator'', 3),
      (''CompleteGenerator'', 1),
      (''CreateGenerator'', 5),
      (''CreateGeneratorLongIndex'', 7),
      (''IteratorBegin'', 3),
      (''IteratorNext'', 4),
      (''IteratorClose'', 3),
      (''Jmp'', 2),
      (''JmpLong'', 5),
      (''JmpTrue'', 3),
      (''JmpTrueLong'', 6),
      (''JmpFalse'', 3),
      (''JmpFalseLong'', 6),
      (''JmpUndefined'', 3),
      (''JmpUndefinedLong'', 6),
      (''SaveGenerator'', 2),
      (''SaveGeneratorLong'', 5),
      (''JLess'', 4),
      (''JLessLong'', 7),
      (''JNotLess'', 4),
      (''JNotLessLong'', 7),
      (''JLessN'', 4),
      (''JLessNLong'', 7),
      (''JNotLessN'', 4),
      (''JNotLessNLong'', 7),
      (''JLessEqual'', 4),
      (''JLessEqualLong'', 7),
      (''JNotLessEqual'', 4),
      (''JNotLessEqualLong'', 7),
      (''JLessEqualN'', 4),
      (''JLessEqualNLong'', 7),
      (''JNotLessEqualN'', 4),
      (''JNotLessEqualNLong'', 7),
      (''JGreater'', 4),
      (''JGreaterLong'', 7),
      (''JNotGreater'', 4),
      (''JNotGreaterLong'', 7),
      (''JGreaterN'', 4),
      (''JGreaterNLong'', 7),
      (''JNotGreaterN'', 4),
      (''JNotGreaterNLong'', 7),
      (''JGreaterEqual'', 4),
      (''JGreaterEqualLong'', 7),
      (''JNotGreaterEqual'', 4),
      (''JNotGreaterEqualLong'', 7),
      (''JGreaterEqualN'', 4),
      (''JGreaterEqualNLong'', 7),
      (''JNotGreaterEqualN'', 4),
      (''JNotGreaterEqualNLong'', 7),
      (''JEqual'', 4),
      (''JEqualLong'', 7),
      (''JNotEqual'', 4),
      (''JNotEqualLong'', 7),
      (''JStrictEqual'', 4),
      (''JStrictEqualLong'', 7),
      (''JStrictNotEqual'', 4),
      (''JStrictNotEqualLong'', 7)]"

definition hermes_opcodes_v98 :: opcode_table where
  "hermes_opcodes_v98 =
    [
      (''Unreachable'', 1),
      (''NewObjectWithBuffer'', 6),
      (''NewObjectWithBufferLong'', 10),
      (''NewObjectWithBufferAndParent'', 11),
      (''NewObject'', 2),
      (''NewObjectWithParent'', 3),
      (''NewArrayWithBuffer'', 8),
      (''NewArrayWithBufferLong'', 10),
      (''NewArray'', 4),
      (''NewFastArray'', 4),
      (''FastArrayLength'', 3),
      (''FastArrayLoad'', 4),
      (''FastArrayStore'', 4),
      (''FastArrayPush'', 3),
      (''FastArrayAppend'', 3),
      (''CacheNewObject'', 8),
      (''Mov'', 3),
      (''MovLong'', 9),
      (''Negate'', 3),
      (''Not'', 3),
      (''BitNot'', 3),
      (''TypeOf'', 3),
      (''Eq'', 4),
      (''StrictEq'', 4),
      (''Neq'', 4),
      (''StrictNeq'', 4),
      (''Less'', 4),
      (''LessEq'', 4),
      (''Greater'', 4),
      (''GreaterEq'', 4),
      (''Add'', 4),
      (''AddN'', 4),
      (''AddS'', 4),
      (''Mul'', 4),
      (''MulN'', 4),
      (''Div'', 4),
      (''DivN'', 4),
      (''Mod'', 4),
      (''Sub'', 4),
      (''SubN'', 4),
      (''LShift'', 4),
      (''RShift'', 4),
      (''URshift'', 4),
      (''BitAnd'', 4),
      (''BitXor'', 4),
      (''BitOr'', 4),
      (''Inc'', 3),
      (''Dec'', 3),
      (''InstanceOf'', 4),
      (''IsIn'', 4),
      (''PrivateIsIn'', 5),
      (''TypeOfIs'', 5),
      (''GetParentEnvironment'', 3),
      (''GetEnvironment'', 4),
      (''GetClosureEnvironment'', 3),
      (''StoreToEnvironment'', 4),
      (''StoreToEnvironmentL'', 5),
      (''StoreNPToEnvironment'', 4),
      (''StoreNPToEnvironmentL'', 5),
      (''LoadFromEnvironment'', 4),
      (''LoadFromEnvironmentL'', 5),
      (''GetGlobalObject'', 2),
      (''GetNewTarget'', 2),
      (''LoadParentNoTraps'', 3),
      (''CreateFunctionEnvironment'', 3),
      (''CreateTopLevelEnvironment'', 6),
      (''CreateEnvironment'', 7),
      (''DeclareGlobalVar'', 5),
      (''GetByIdShort'', 5),
      (''GetById'', 6),
      (''GetByIdLong'', 8),
      (''GetByIdWithReceiverLong'', 9),
      (''TryGetById'', 6),
      (''TryGetByIdLong'', 8),
      (''PutByIdLoose'', 6),
      (''PutByIdStrict'', 6),
      (''PutByIdLooseLong'', 8),
      (''PutByIdStrictLong'', 8),
      (''TryPutByIdLoose'', 6),
      (''TryPutByIdStrict'', 6),
      (''TryPutByIdLooseLong'', 8),
      (''TryPutByIdStrictLong'', 8),
      (''PutOwnBySlotIdx'', 4),
      (''PutOwnBySlotIdxLong'', 7),
      (''GetOwnBySlotIdx'', 4),
      (''GetOwnBySlotIdxLong'', 7),
      (''DefineOwnById'', 6),
      (''DefineOwnByIdLong'', 8),
      (''DefineOwnByIndex'', 4),
      (''DefineOwnByIndexL'', 7),
      (''DefineOwnInDenseArray'', 4),
      (''DefineOwnInDenseArrayL'', 5),
      (''DefineOwnByVal'', 5),
      (''GetByVal'', 4),
      (''GetByIndex'', 4),
      (''GetByValWithReceiver'', 5),
      (''PutByValLoose'', 4),
      (''PutByValStrict'', 4),
      (''PutByValWithReceiver'', 6),
      (''DelByVal'', 5),
      (''AddOwnPrivateBySym'', 4),
      (''GetOwnPrivateBySym'', 5),
      (''PutOwnPrivateBySym'', 5),
      (''DefineOwnGetterSetterByVal'', 6),
      (''GetPNameList'', 5),
      (''GetNextPName'', 6),
      (''Call'', 4),
      (''Construct'', 4),
      (''Call1'', 4),
      (''CallWithNewTarget'', 5),
      (''Call2'', 5),
      (''Call3'', 6),
      (''Call4'', 7),
      (''CallWithNewTargetLong'', 5),
      (''CallRequire'', 7),
      (''CallBuiltin'', 4),
      (''CallBuiltinLong'', 7),
      (''GetBuiltinClosure'', 3),
      (''Ret'', 2),
      (''Catch'', 2),
      (''DirectEval'', 4),
      (''Throw'', 2),
      (''ThrowIfEmpty'', 3),
      (''ThrowIfUndefined'', 3),
      (''ThrowIfThisInitialized'', 2),
      (''Debugger'', 1),
      (''AsyncBreakCheck'', 1),
      (''ProfilePoint'', 3),
      (''CreateBaseClass'', 6),
      (''CreateBaseClassLongIndex'', 8),
      (''CreateDerivedClass'', 7),
      (''CreateDerivedClassLongIndex'', 9),
      (''CreateClosure'', 5),
      (''CreateClosureLongIndex'', 7),
      (''CreateThisForNew'', 4),
      (''CreateThisForSuper'', 5),
      (''SelectObject'', 4),
      (''LoadParam'', 3),
      (''LoadParamLong'', 6),
      (''LoadConstUInt8'', 3),
      (''LoadConstInt'', 6),
      (''LoadConstDouble'', 10),
      (''LoadConstBigInt'', 4),
      (''LoadConstBigIntLongIndex'', 6),
      (''LoadConstString'', 4),
      (''LoadConstStringLongIndex'', 6),
      (''LoadConstEmpty'', 2),
      (''LoadConstUndefined'', 2),
      (''LoadConstNull'', 2),
      (''LoadConstTrue'', 2),
      (''LoadConstFalse'', 2),
      (''LoadConstZero'', 2),
      (''CoerceThisNS'', 3),
      (''LoadThisNS'', 2),
      (''ToNumber'', 3),
      (''ToNumeric'', 3),
      (''ToInt32'', 3),
      (''AddEmptyString'', 3),
      (''CreatePrivateName'', 6),
      (''GetArgumentsPropByValLoose'', 4),
      (''GetArgumentsPropByValStrict'', 4),
      (''GetArgumentsLength'', 3),
      (''ReifyArgumentsStrict'', 2),
      (''ReifyArgumentsLoose'', 2),
      (''ToPropertyKey'', 3),
      (''CreateRegExp'', 14),
      (''UIntSwitchImm'', 18),
      (''StringSwitchImm'', 18),
      (''CreateGenerator'', 5),
      (''CreateGeneratorLongIndex'', 7),
      (''IteratorBegin'', 3),
      (''IteratorNext'', 4),
      (''IteratorClose'', 3),
      (''TypedLoadParent'', 3),
      (''Jmp'', 2),
      (''JmpLong'', 5),
      (''JmpTrue'', 3),
      (''JmpTrueLong'', 6),
      (''JmpFalse'', 3),
      (''JmpFalseLong'', 6),
      (''JmpUndefined'', 3),
      (''JmpUndefinedLong'', 6),
      (''JmpTypeOfIs'', 8),
      (''JLess'', 4),
      (''JLessLong'', 7),
      (''JNotLess'', 4),
      (''JNotLessLong'', 7),
      (''JLessN'', 4),
      (''JLessNLong'', 7),
      (''JNotLessN'', 4),
      (''JNotLessNLong'', 7),
      (''JLessEqual'', 4),
      (''JLessEqualLong'', 7),
      (''JNotLessEqual'', 4),
      (''JNotLessEqualLong'', 7),
      (''JLessEqualN'', 4),
      (''JLessEqualNLong'', 7),
      (''JNotLessEqualN'', 4),
      (''JNotLessEqualNLong'', 7),
      (''JGreater'', 4),
      (''JGreaterLong'', 7),
      (''JNotGreater'', 4),
      (''JNotGreaterLong'', 7),
      (''JGreaterEqual'', 4),
      (''JGreaterEqualLong'', 7),
      (''JNotGreaterEqual'', 4),
      (''JNotGreaterEqualLong'', 7),
      (''JEqual'', 4),
      (''JEqualLong'', 7),
      (''JNotEqual'', 4),
      (''JNotEqualLong'', 7),
      (''JStrictEqual'', 4),
      (''JStrictEqualLong'', 7),
      (''JStrictNotEqual'', 4),
      (''JStrictNotEqualLong'', 7),
      (''JmpBuiltinIs'', 4),
      (''JmpBuiltinIsLong'', 7),
      (''JmpBuiltinIsNot'', 4),
      (''JmpBuiltinIsNotLong'', 7)]"

definition hermes_tables :: "nat \<Rightarrow> opcode_table" where
  "hermes_tables version =
     (if version = 89 then hermes_opcodes_v89 else if version = 96 then hermes_opcodes_v96
      else if version = 98 then hermes_opcodes_v98 else [])"

text \<open>No opcode is empty and an opcode number fits in a byte.\<close>

lemma hermes_tables_lengths:
  "list_all (\<lambda>(name, len). 0 < len \<and> len < 256) (hermes_tables version)"
  by (simp add: hermes_tables_def hermes_opcodes_v89_def hermes_opcodes_v96_def hermes_opcodes_v98_def)

lemma hermes_tables_size: "length (hermes_tables version) \<le> 256"
  by (simp add: hermes_tables_def hermes_opcodes_v89_def hermes_opcodes_v96_def hermes_opcodes_v98_def)

end
