(* ===== verification/HermesText.thy ===== *)
theory HermesText
  imports UnrealText
begin

section \<open>Strings of Hermes bytecode\<close>

text \<open>
  Models the text helpers of \<^verbatim>\<open>src/extract/hermes.cpp\<close>: UTF-8 output and validation, the
  UTF-16 decoder with its output budget, hexadecimal text and quoted CSV fields. The Unreal
  recognizer has its own copies of the UTF-8 routines; both copies are proved to agree.
\<close>

unbundle bit_operations_syntax

definition hex_bytes :: "bytes \<Rightarrow> string" where
  "hex_bytes bs = concat (map (\<lambda>b. [hex_digit (unat (drop_bit 4 b)), hex_digit (unat (b AND 0x0f))]) bs)"

definition append_utf8 :: "bytes \<Rightarrow> u32 \<Rightarrow> bytes" where
  "append_utf8 out cp =
     (if cp \<le> 0x7f then out @ [ucast cp]
      else if cp \<le> 0x7ff then out @ [ucast (0xc0 OR drop_bit 6 cp), ucast (0x80 OR (cp AND 0x3f))]
      else if cp \<le> 0xffff then
        out @ [ucast (0xe0 OR drop_bit 12 cp), ucast (0x80 OR (drop_bit 6 cp AND 0x3f)),
               ucast (0x80 OR (cp AND 0x3f))]
      else
        out @ [ucast (0xf0 OR drop_bit 18 cp), ucast (0x80 OR (drop_bit 12 cp AND 0x3f)),
               ucast (0x80 OR (drop_bit 6 cp AND 0x3f)), ucast (0x80 OR (cp AND 0x3f))])"

text \<open>The sequence that a byte above 0x7f begins: its width, payload bits and smallest code point.\<close>

definition sequence_head :: "byte \<Rightarrow> (nat \<times> u32 \<times> u32) option" where
  "sequence_head c =
     (if c AND 0xe0 = 0xc0 then Some (2, ucast (c AND 0x1f), 0x80)
      else if c AND 0xf0 = 0xe0 then Some (3, ucast (c AND 0x0f), 0x800)
      else if c AND 0xf8 = 0xf0 then Some (4, ucast (c AND 0x07), 0x10000)
      else None)"

fun continuation :: "u32 \<Rightarrow> bytes \<Rightarrow> u32 option" where
  "continuation cp [] = Some cp"
| "continuation cp (q # qs) =
     (if q AND 0xc0 \<noteq> 0x80 then None else continuation (push_bit 6 cp OR ucast (q AND 0x3f)) qs)"

text \<open>The remaining bytes are the argument; the position of the code moves along the list.\<close>

function hermes_valid_utf8 :: "bytes \<Rightarrow> bool" where
  "hermes_valid_utf8 [] = True"
| "hermes_valid_utf8 (c # rest) =
     (if c < 0x80 then hermes_valid_utf8 rest
      else case sequence_head c of
        None \<Rightarrow> False
      | Some (width, cp0, minimum) \<Rightarrow>
          if length (c # rest) < width then False
          else case continuation cp0 (take (width - 1) rest) of
            None \<Rightarrow> False
          | Some cp \<Rightarrow>
              if cp < minimum \<or> 0x10ffff < cp \<or> (0xd800 \<le> cp \<and> cp \<le> 0xdfff) then False
              else hermes_valid_utf8 (drop (width - 1) rest))"
  by pat_completeness auto
termination
  by (relation "measure length") auto

datatype utf16_result = Utf16Ok bytes | Utf16Malformed | Utf16Budget

definition utf8_width :: "u32 \<Rightarrow> nat" where
  "utf8_width cp = (if cp \<le> 0x7f then 1 else if cp \<le> 0x7ff then 2 else if cp \<le> 0xffff then 3 else 4)"

definition le_unit :: "byte \<Rightarrow> byte \<Rightarrow> u32" where
  "le_unit a b = ucast a OR push_bit 8 (ucast b)"

text \<open>The units that remain, two bytes each, and the text so far.\<close>

fun decode_units :: "bytes \<Rightarrow> nat \<Rightarrow> bytes \<Rightarrow> utf16_result" where
  "decode_units (a # b # rest) budget out =
     (let first_unit = le_unit a b in
      if 0xd800 \<le> first_unit \<and> first_unit \<le> 0xdbff then
        (case rest of
           c # d # rest' \<Rightarrow>
             let second = le_unit c d in
             if second < 0xdc00 \<or> 0xdfff < second then Utf16Malformed
             else let cp = 0x10000 + push_bit 10 (first_unit - 0xd800) + (second - 0xdc00) in
               if budget < length out \<or> budget - length out < utf8_width cp then Utf16Budget
               else decode_units rest' budget (append_utf8 out cp)
         | _ \<Rightarrow> Utf16Malformed)
      else if 0xdc00 \<le> first_unit \<and> first_unit \<le> 0xdfff then Utf16Malformed
      else if budget < length out \<or> budget - length out < utf8_width first_unit then Utf16Budget
      else decode_units rest budget (append_utf8 out first_unit))"
| "decode_units _ budget out = Utf16Ok out"

definition decode_utf16 :: "bytes \<Rightarrow> nat \<Rightarrow> utf16_result" where
  "decode_utf16 bs budget = (if odd (length bs) then Utf16Malformed else decode_units bs budget [])"

definition csv_quote :: "string \<Rightarrow> string" where
  "csv_quote s = [CHR 0x22] @ concat (map (\<lambda>c. if c = CHR 0x22 then [CHR 0x22, c] else [c]) s) @ [CHR 0x22]"

subsection \<open>Agreement and validity\<close>

lemma append_utf8_eq: "append_utf8 out cp = out @ utf8_bytes cp"
  by (simp add: append_utf8_def utf8_bytes_def)

lemma length_utf8_bytes: "length (utf8_bytes cp) = utf8_width cp"
  by (simp add: utf8_bytes_def utf8_width_def)

lemma sequence_head_lead:
  "sequence_head c = (case utf8_lead c of None \<Rightarrow> None
     | Some (n, cp) \<Rightarrow> Some (n + 1, cp, if n = 1 then 0x80 else if n = 2 then 0x800 else 0x10000))"
  by (simp add: sequence_head_def utf8_lead_def)

lemma utf8_trail_continuation:
  "n \<le> length bs \<Longrightarrow> utf8_trail n cp bs = map_option (\<lambda>c. (c, drop n bs)) (continuation cp (take n bs))"
  by (induction n cp bs rule: utf8_trail.induct) auto

lemma hermes_valid_utf8_eq: "hermes_valid_utf8 bs = valid_utf8 bs"
proof (induction bs rule: hermes_valid_utf8.induct)
  case (2 c rest)
  have below: "c < 0x80 \<longleftrightarrow> c \<le> 0x7f" by (simp add: word_less_nat_alt word_le_nat_alt) linarith
  show ?case
  proof (cases "c \<le> 0x7f")
    case True
    then show ?thesis using 2(1) below by simp
  next
    case False
    show ?thesis
    proof (cases "utf8_lead c")
      case None
      then show ?thesis using False below by (simp add: sequence_head_lead)
    next
      case (Some lead)
      obtain n cp where lead: "lead = (n, cp)" by (cases lead)
      have n: "n = 1 \<or> n = 2 \<or> n = 3" using Some lead by (auto simp: utf8_lead_def split: if_splits)
      let ?m = "if n = 1 then 0x80 else if n = 2 then 0x800 else 0x10000 :: u32"
      have head: "sequence_head c = Some (n + 1, cp, ?m)" using Some lead by (simp add: sequence_head_lead)
      have min: "x < ?m \<longleftrightarrow> (n = 1 \<and> x < 0x80) \<or> (n = 2 \<and> x < 0x800) \<or> (n = 3 \<and> x < 0x10000)" for x
        using n by auto
      show ?thesis
      proof (cases "length rest < n")
        case True
        then show ?thesis using False below head Some lead by simp
      next
        case room: False
        show ?thesis
        proof (cases "continuation cp (take n rest)")
          case None
          then show ?thesis using False below head Some lead room by (simp add: utf8_trail_continuation)
        next
          case (Some x)
          have IH: "\<not> (x < ?m \<or> 0x10ffff < x \<or> (0xd800 \<le> x \<and> x \<le> 0xdfff)) \<Longrightarrow>
              hermes_valid_utf8 (drop n rest) = valid_utf8 (drop n rest)"
            using 2(2) [OF _ head refl refl, of x] False below room Some by simp
          have "hermes_valid_utf8 (c # rest) \<longleftrightarrow>
              \<not> (x < ?m \<or> 0x10ffff < x \<or> (0xd800 \<le> x \<and> x \<le> 0xdfff)) \<and> hermes_valid_utf8 (drop n rest)"
            using False below head room Some by (simp del: not_less)
          also have "\<dots> \<longleftrightarrow> \<not> (x < ?m \<or> 0x10ffff < x \<or> (0xd800 \<le> x \<and> x \<le> 0xdfff)) \<and> valid_utf8 (drop n rest)"
            using IH by blast
          also have "\<dots> \<longleftrightarrow> valid_utf8 (c # rest)"
            using False \<open>utf8_lead c = Some lead\<close> lead room Some unfolding min
            by (simp add: utf8_trail_continuation del: not_less)
          finally show ?thesis .
        qed
      qed
    qed
  qed
qed simp

lemma le_unit_less: "unat (le_unit a b) < 65536"
proof -
  have "le_unit a b = word_or4 a b 0 0" by (simp add: le_unit_def word_or4_def)
  then show ?thesis using unat_byte_less [of a] unat_byte_less [of b] by (simp add: unat_word_or4)
qed

lemma le_unit_scalar:
  "\<not> (0xd800 \<le> le_unit a b \<and> le_unit a b \<le> 0xdbff) \<Longrightarrow> \<not> (0xdc00 \<le> le_unit a b \<and> le_unit a b \<le> 0xdfff) \<Longrightarrow>
    scalar (le_unit a b)"
  using le_unit_less [of a b] by (auto simp: scalar_def word_le_nat_alt)

lemma append_utf8_valid:
  "valid_utf8 out \<Longrightarrow> scalar cp \<Longrightarrow> valid_utf8 (append_utf8 out cp)"
  using valid_utf8_append_scalar [of cp "[]"] by (simp add: append_utf8_eq valid_utf8_append)

lemma length_append_utf8:
  "\<not> (budget < length out \<or> budget - length out < utf8_width cp) \<Longrightarrow> length (append_utf8 out cp) \<le> budget"
  by (simp add: append_utf8_eq length_utf8_bytes) linarith

lemma decode_units_valid:
  "decode_units bs budget out = Utf16Ok v \<Longrightarrow> valid_utf8 out \<Longrightarrow> length out \<le> budget \<Longrightarrow>
    valid_utf8 v \<and> length v \<le> budget"
proof (induction bs budget out rule: decode_units.induct)
  case (1 a b rest budget out)
  let ?u = "le_unit a b"
  show ?case
  proof (cases "0xd800 \<le> ?u \<and> ?u \<le> 0xdbff")
    case True
    then obtain c d rest' where rest: "rest = c # d # rest'" using 1(3) by (auto simp: Let_def split: list.splits)
    let ?w = "le_unit c d"
    let ?cp = "0x10000 + push_bit 10 (?u - 0xd800) + (?w - 0xdc00)"
    have ok: "\<not> (?w < 0xdc00 \<or> 0xdfff < ?w)" "\<not> (budget < length out \<or> budget - length out < utf8_width ?cp)"
        "decode_units rest' budget (append_utf8 out ?cp) = Utf16Ok v"
      using 1(3) True unfolding rest decode_units.simps by (simp_all add: Let_def split: if_splits)
    have "scalar ?cp" using surrogate_scalar(1) [of ?u ?w] True ok(1) by (simp add: not_less)
    then show ?thesis
      using 1(1) [OF refl True rest refl refl ok(1) refl ok(2,3)] append_utf8_valid [OF 1(4)] length_append_utf8 [OF ok(2)]
      by blast
  next
    case False
    have ok: "\<not> (0xdc00 \<le> ?u \<and> ?u \<le> 0xdfff)" "\<not> (budget < length out \<or> budget - length out < utf8_width ?u)"
        "decode_units rest budget (append_utf8 out ?u) = Utf16Ok v"
      using 1(3) False unfolding decode_units.simps by (simp_all only: Let_def if_False split: if_splits) auto
    then show ?thesis
      using 1(2) [OF refl False ok(1,2,3)] append_utf8_valid [OF 1(4) le_unit_scalar [OF False ok(1)]] length_append_utf8 [OF ok(2)]
      by blast
  qed
qed auto

lemma decode_utf16_valid: "decode_utf16 bs budget = Utf16Ok v \<Longrightarrow> valid_utf8 v \<and> length v \<le> budget"
  using decode_units_valid [of bs budget "[]" v] by (simp add: decode_utf16_def split: if_splits)

end
