(* ===== verification/Hermes.thy ===== *)
theory Hermes
  imports HermesOpcodes HermesText Hashing Evidence Outcomes
begin

section \<open>Hermes bytecode files\<close>

text \<open>
  Models the parser of \<^verbatim>\<open>src/extract/hermes.cpp\<close> in the stages in which the code works:
  magic and version, fixed header, footer SHA-1, the fifteen aligned segments, string kinds, strings,
  function headers, overlap of function bodies, debug section, opcode streams. A stage is an outcome:
  it passes on, or stops with the result the code returns; an access outside the file has no value.
  The opcode table of a version (name and length of each opcode) is an argument; the program runs
  with \<open>hermes_tables\<close>. Numbers are naturals; sums that could pass 64 bits use the checked additions of the
  code, all others are sums of 32-bit values and of offsets inside the file.
\<close>

unbundle bit_operations_syntax

subsection \<open>Data\<close>

definition hermes_magic :: bytes where
  "hermes_magic = [0xc6, 0x1f, 0xbc, 0x03, 0xc1, 0x03, 0x19, 0x1f]"

definition header_bytes :: nat where "header_bytes = 128"
definition footer_bytes :: nat where "footer_bytes = 20"
definition max_functions :: nat where "max_functions = 131072"
definition max_strings :: nat where "max_strings = 262144"
definition max_string_kinds :: nat where "max_string_kinds = 262144"
definition max_opcode_bytes :: nat where "max_opcode_bytes = 64 * 1024 * 1024"
definition max_decoded_bytes :: nat where "max_decoded_bytes = 64 * 1024 * 1024"

record epoch_layout =
  lay_version :: nat
  lay_label :: string
  lay_opcodes :: opcode_table
  lay_small :: nat
  lay_large :: nat
  lay_debug :: nat

definition layout_for :: "(nat \<Rightarrow> opcode_table) \<Rightarrow> nat \<Rightarrow> epoch_layout option" where
  "layout_for tables version =
     (if version = 89 then
        Some \<lparr>lay_version = 89, lay_label = ''Hermes legacy HBC v89'', lay_opcodes = tables 89,
              lay_small = 16, lay_large = 31, lay_debug = 20\<rparr>
      else if version = 96 then
        Some \<lparr>lay_version = 96, lay_label = ''Hermes legacy HBC v96'', lay_opcodes = tables 96,
              lay_small = 16, lay_large = 31, lay_debug = 28\<rparr>
      else if version = 98 then
        Some \<lparr>lay_version = 98, lay_label = ''Hermes V1 HBC v98'', lay_opcodes = tables 98,
              lay_small = 12, lay_large = 37, lay_debug = 16\<rparr>
      else None)"

record hermes_opcode =
  ho_opcode :: nat
  ho_name :: string
  ho_count :: nat

record hermes_function =
  hf_index :: nat
  hf_header :: nat
  hf_offset :: nat
  hf_size :: nat
  hf_info :: nat
  hf_name_id :: nat
  hf_name :: bytes
  hf_params :: nat
  hf_frame :: nat
  hf_environment :: nat
  hf_instructions :: nat
  hf_overflow :: bool
  hf_strict :: bool
  hf_handler :: bool
  hf_debug :: bool
  hf_opcodes :: "hermes_opcode list"

record hermes_string =
  hs_index :: nat
  hs_offset :: nat
  hs_length :: nat
  hs_utf16 :: bool
  hs_identifier :: bool
  hs_value :: bytes

record hermes_debug =
  hd_present :: bool
  hd_valid :: bool
  hd_offset :: nat
  hd_filenames :: nat
  hd_filename_bytes :: nat
  hd_regions :: nat
  hd_data_size :: nat
  hd_lexical :: nat
  hd_scope_desc :: nat
  hd_callee :: nat
  hd_strings :: nat
  hd_end :: nat

datatype segment =
    FunctionTable | KindTable | IdentifierTable | StringTable | OverflowTable | StringStorage
  | ArrayBuffer | KeyBuffer | ShapeTable | BigIntTable | BigIntStorage | RegExpTable | RegExpStorage
  | CjsTable | SourceTable

primrec segment_name :: "segment \<Rightarrow> nat \<Rightarrow> string" where
  "segment_name FunctionTable v = ''function table''"
| "segment_name KindTable v = ''string-kind table''"
| "segment_name IdentifierTable v = ''identifier-hash table''"
| "segment_name StringTable v = ''small-string table''"
| "segment_name OverflowTable v = ''overflow-string table''"
| "segment_name StringStorage v = ''string storage''"
| "segment_name ArrayBuffer v = (if v = 98 then ''literal-value buffer'' else ''array buffer'')"
| "segment_name KeyBuffer v = ''object-key buffer''"
| "segment_name ShapeTable v = (if v = 98 then ''object-shape table'' else ''object-value buffer'')"
| "segment_name BigIntTable v = ''BigInt table''"
| "segment_name BigIntStorage v = ''BigInt storage''"
| "segment_name RegExpTable v = ''RegExp table''"
| "segment_name RegExpStorage v = ''RegExp storage''"
| "segment_name CjsTable v = ''CommonJS module table''"
| "segment_name SourceTable v = ''function-source table''"

datatype hermes_error =
    VersionTruncated | HeaderFooterTruncated | LengthContract | LengthMismatch | GlobalFunction
  | StringCounts | FooterHash | SegmentAlignment | SegmentExceeds segment nat | KindRun | KindTotals
  | OverflowIndex | OverflowRepeated | StringRange | Utf16Entry | Utf8Entry | OverflowUnreferenced
  | LegacyPointer | LegacyBinding | V1Pointer | NameIndex | BodyRange | InfoArea | BodyOverlap
  | InfoOverlap | OverflowHeaderDebug | DebugGeometry | DebugV89 | DebugV96 | DebugClose
  | OpcodeUnknown | OpcodeOperands

primrec hermes_error_text :: "hermes_error \<Rightarrow> string" where
  "hermes_error_text VersionTruncated = ''Hermes bytecode version field is truncated''"
| "hermes_error_text HeaderFooterTruncated = ''Hermes bytecode header/footer is truncated''"
| "hermes_error_text LengthContract = ''Hermes bytecode exceeds 32-bit fileLength contract''"
| "hermes_error_text LengthMismatch = ''Hermes fileLength does not equal the complete input size''"
| "hermes_error_text GlobalFunction = ''Hermes global function index/count geometry is invalid''"
| "hermes_error_text StringCounts = ''Hermes string-table counts are inconsistent''"
| "hermes_error_text FooterHash = ''Hermes bytecode footer SHA-1 does not match the preceding file bytes''"
| "hermes_error_text SegmentAlignment = ''Hermes segment alignment overflow''"
| "hermes_error_text (SegmentExceeds s v) = ''Hermes '' @ segment_name s v @ '' exceeds the declared file''"
| "hermes_error_text KindRun = ''Hermes string-kind run exceeds stringCount''"
| "hermes_error_text KindTotals =
     ''Hermes string-kind runs do not exactly reproduce string/identifier counts''"
| "hermes_error_text OverflowIndex = ''Hermes overflow-string index is out of range''"
| "hermes_error_text OverflowRepeated = ''Hermes overflow-string index is referenced more than once''"
| "hermes_error_text StringRange = ''Hermes string entry exceeds string storage''"
| "hermes_error_text Utf16Entry = ''Hermes UTF-16 string entry is malformed''"
| "hermes_error_text Utf8Entry = ''Hermes UTF-8 string entry is malformed''"
| "hermes_error_text OverflowUnreferenced =
     ''Hermes overflow-string table contains unreferenced or duplicate-index entries''"
| "hermes_error_text LegacyPointer = ''Hermes legacy overflow function-header pointer is invalid''"
| "hermes_error_text LegacyBinding =
     ''Hermes legacy overflow function-header pointer/infoOffset binding is inconsistent''"
| "hermes_error_text V1Pointer = ''Hermes V1 overflow function-header pointer is invalid''"
| "hermes_error_text NameIndex = ''Hermes function name string index is out of range''"
| "hermes_error_text BodyRange = ''Hermes function bytecode range exceeds the function/data area''"
| "hermes_error_text InfoArea = ''Hermes function info offset is outside the aligned function-info area''"
| "hermes_error_text BodyOverlap = ''Hermes function bytecode ranges partially overlap''"
| "hermes_error_text InfoOverlap = ''Hermes function info overlaps bytecode or the debug section''"
| "hermes_error_text OverflowHeaderDebug = ''Hermes overflow function header overlaps the debug section''"
| "hermes_error_text DebugGeometry = ''Hermes debug-info offset/header geometry is invalid''"
| "hermes_error_text DebugV89 = ''Hermes v89 lexical debug offset exceeds debug data''"
| "hermes_error_text DebugV96 =
     ''Hermes v96 debug subsection offsets are non-monotonic/out of range''"
| "hermes_error_text DebugClose = ''Hermes debug tables do not close exactly at the bytecode footer''"
| "hermes_error_text OpcodeUnknown = ''Hermes function contains an opcode outside the audited epoch table''"
| "hermes_error_text OpcodeOperands =
     ''Hermes opcode operands exceed the declared function bytecode range''"

datatype hermes_anomaly = NoAdapter | TableBudget | StringBudget | OpcodeBudget

primrec hermes_anomaly_text :: "hermes_anomaly \<Rightarrow> string" where
  "hermes_anomaly_text NoAdapter =
     ''Hermes magic is exact, but this bytecode version has no audited table/function/opcode adapter''"
| "hermes_anomaly_text TableBudget =
     ''Hermes table cardinality exceeds the bounded parser allocation budget''"
| "hermes_anomaly_text StringBudget =
     ''Hermes decoded string/function-name output exceeded the bounded 64 MiB map budget''"
| "hermes_anomaly_text OpcodeBudget =
     ''Hermes opcode decoding was deferred by the bounded 64 MiB opcode-byte budget''"

record hermes_info =
  hm_candidate :: bool
  hm_supported :: bool
  hm_valid :: bool
  hm_complete :: bool
  hm_hash_checked :: bool
  hm_hash_matches :: bool
  hm_budget_limited :: bool
  hm_truncated :: bool
  hm_version :: nat
  hm_epoch :: string
  hm_source_hash :: string
  hm_file_hash :: string
  hm_file_size :: nat
  hm_declared :: nat
  hm_global_index :: nat
  hm_function_count :: nat
  hm_kind_count :: nat
  hm_identifier_count :: nat
  hm_string_count :: nat
  hm_overflow_count :: nat
  hm_storage_size :: nat
  hm_bigint_count :: nat
  hm_regexp_count :: nat
  hm_cjs_count :: nat
  hm_source_count :: nat
  hm_deduplicated :: nat
  hm_function_table :: nat
  hm_kind_table :: nat
  hm_identifier_table :: nat
  hm_string_table :: nat
  hm_overflow_table :: nat
  hm_storage :: nat
  hm_code_begin :: nat
  hm_code_end :: nat
  hm_error_offset :: nat
  hm_debug :: hermes_debug
  hm_functions :: "hermes_function list"
  hm_strings :: "hermes_string list"
  hm_opcodes :: "hermes_opcode list"
  hm_anomalies :: "hermes_anomaly list"
  hm_error :: "hermes_error option"

definition empty_debug :: hermes_debug where
  "empty_debug =
     \<lparr>hd_present = False, hd_valid = False, hd_offset = 0, hd_filenames = 0, hd_filename_bytes = 0,
      hd_regions = 0, hd_data_size = 0, hd_lexical = 0, hd_scope_desc = 0, hd_callee = 0,
      hd_strings = 0, hd_end = 0\<rparr>"

definition empty_hermes :: hermes_info where
  "empty_hermes =
     \<lparr>hm_candidate = False, hm_supported = False, hm_valid = False, hm_complete = False,
      hm_hash_checked = False, hm_hash_matches = False, hm_budget_limited = False, hm_truncated = False,
      hm_version = 0, hm_epoch = [], hm_source_hash = [], hm_file_hash = [], hm_file_size = 0,
      hm_declared = 0, hm_global_index = 0, hm_function_count = 0, hm_kind_count = 0,
      hm_identifier_count = 0, hm_string_count = 0, hm_overflow_count = 0, hm_storage_size = 0,
      hm_bigint_count = 0, hm_regexp_count = 0, hm_cjs_count = 0, hm_source_count = 0,
      hm_deduplicated = 0, hm_function_table = 0, hm_kind_table = 0, hm_identifier_table = 0,
      hm_string_table = 0, hm_overflow_table = 0, hm_storage = 0, hm_code_begin = 0, hm_code_end = 0,
      hm_error_offset = 0, hm_debug = empty_debug, hm_functions = [], hm_strings = [],
      hm_opcodes = [], hm_anomalies = [], hm_error = None\<rparr>"

subsection \<open>Reading and checked arithmetic\<close>

definition hm_u32 :: "bytes \<Rightarrow> nat \<Rightarrow> nat option" where
  "hm_u32 data off =
     (case (at data off, at data (off + 1), at data (off + 2), at data (off + 3)) of
        (Some a, Some b, Some c, Some d) \<Rightarrow> Some (or4 a b c d)
      | _ \<Rightarrow> None)"

text \<open>Reading a field and going on with its value.\<close>

abbreviation with_u32 :: "bytes \<Rightarrow> nat \<Rightarrow> (nat \<Rightarrow> ('e, 'a) outcome) \<Rightarrow> ('e, 'a) outcome" where
  "with_u32 data off f \<equiv> step (access (hm_u32 data off)) f"

definition add_size :: "nat \<Rightarrow> nat \<Rightarrow> nat option" where
  "add_size a b = (if u64_max - b < a then None else Some (a + b))"

definition mul_size :: "nat \<Rightarrow> nat \<Rightarrow> nat option" where
  "mul_size a b = (if a \<noteq> 0 \<and> u64_max div a < b then None else Some (a * b))"

definition align4 :: "nat \<Rightarrow> nat option" where
  "align4 v = (if u64_max - 3 < v then None else Some (v + 3 - (v + 3) mod 4))"

subsection \<open>Header, footer hash and budgets\<close>

definition hm_fail :: "hermes_info \<Rightarrow> nat \<Rightarrow> hermes_error \<Rightarrow> (hermes_info, 'a) outcome" where
  "hm_fail out off e =
     stop (out\<lparr>hm_error_offset := off, hm_error := Some e, hm_valid := False, hm_complete := False\<rparr>)"

definition hm_budget :: "hermes_info \<Rightarrow> hermes_anomaly \<Rightarrow> (hermes_info, 'a) outcome" where
  "hm_budget out a =
     stop (out\<lparr>hm_budget_limited := True, hm_truncated := True, hm_anomalies := hm_anomalies out @ [a]\<rparr>)"

definition hm_open :: "(nat \<Rightarrow> opcode_table) \<Rightarrow> bytes \<Rightarrow> hermes_info \<Rightarrow> (hermes_info, epoch_layout \<times> hermes_info) outcome" where
  "hm_open tables data out0 =
     (let out = out0\<lparr>hm_candidate := True\<rparr> in
      if length data < 12
      then stop (out\<lparr>hm_error := Some VersionTruncated, hm_error_offset := 8\<rparr>)
      else with_u32 data 8 (\<lambda>version.
        let out1 = out\<lparr>hm_version := version\<rparr> in
        case layout_for tables version of
          None \<Rightarrow> stop (out1\<lparr>hm_epoch := ''unsupported Hermes HBC epoch'',
                    hm_anomalies := hm_anomalies out1 @ [NoAdapter]\<rparr>)
        | Some lay \<Rightarrow> pass (lay, out1\<lparr>hm_supported := True, hm_epoch := lay_label lay\<rparr>)))"

text \<open>The header fields that are not part of the result.\<close>

record hermes_sizes =
  hz_bigint_storage :: nat
  hz_regexp_storage :: nat
  hz_values :: nat
  hz_keys :: nat
  hz_third :: nat
  hz_debug :: nat

definition hm_header ::
  "bytes \<Rightarrow> epoch_layout \<Rightarrow> hermes_info \<Rightarrow> (hermes_info, hermes_sizes \<times> hermes_info) outcome" where
  "hm_header data lay out0 =
     (if length data < header_bytes + footer_bytes then hm_fail out0 (length data) HeaderFooterTruncated
      else if u32_max < length data then hm_fail out0 32 LengthContract
      else
        let shift = (if hm_version out0 = 98 then 4 else 0) in
        step (access (subspan data 12 20)) (\<lambda>src.
        with_u32 data 32 (\<lambda>declared. with_u32 data 36 (\<lambda>global. with_u32 data 40 (\<lambda>functions.
        with_u32 data 44 (\<lambda>kinds. with_u32 data 48 (\<lambda>identifiers. with_u32 data 52 (\<lambda>strings.
        with_u32 data 56 (\<lambda>overflows. with_u32 data 60 (\<lambda>storage. with_u32 data 64 (\<lambda>bigints.
        with_u32 data 68 (\<lambda>bigint_storage. with_u32 data 72 (\<lambda>regexps. with_u32 data 76 (\<lambda>regexp_storage.
        with_u32 data 80 (\<lambda>values. with_u32 data 84 (\<lambda>keys. with_u32 data 88 (\<lambda>third.
        with_u32 data (96 + shift) (\<lambda>cjs. with_u32 data (100 + shift) (\<lambda>sources.
        with_u32 data (104 + shift) (\<lambda>debug.
          let out = out0\<lparr>hm_source_hash := hex_bytes src, hm_declared := declared,
                hm_global_index := global, hm_function_count := functions, hm_kind_count := kinds,
                hm_identifier_count := identifiers, hm_string_count := strings,
                hm_overflow_count := overflows, hm_storage_size := storage, hm_bigint_count := bigints,
                hm_regexp_count := regexps, hm_cjs_count := cjs, hm_source_count := sources\<rparr>;
              sizes = \<lparr>hz_bigint_storage = bigint_storage, hz_regexp_storage = regexp_storage,
                hz_values = values, hz_keys = keys, hz_third = third, hz_debug = debug\<rparr>
          in if declared \<noteq> length data then hm_fail out 32 LengthMismatch
             else if functions = 0 \<or> functions \<le> global then hm_fail out 36 GlobalFunction
             else if strings < identifiers \<or> strings < overflows then hm_fail out 48 StringCounts
             else pass (sizes, out)))))))))))))))))))))"

definition hm_hash :: "bytes \<Rightarrow> hermes_info \<Rightarrow> (hermes_info, hermes_info) outcome" where
  "hm_hash data out0 =
     step (access (sha1_bytes (take (length data - footer_bytes) data))) (\<lambda>computed.
       let footer = drop (length data - footer_bytes) data;
           out = out0\<lparr>hm_hash_checked := True, hm_file_hash := hex_bytes footer,
             hm_hash_matches := computed = footer\<rparr>
       in if \<not> hm_hash_matches out then hm_fail out (length data - footer_bytes) FooterHash
          else if max_functions < hm_function_count out \<or> max_strings < hm_string_count out \<or>
                  max_string_kinds < hm_kind_count out
          then hm_budget out TableBudget
          else pass out)"

subsection \<open>Segments\<close>

primrec set_segment :: "segment \<Rightarrow> nat \<Rightarrow> hermes_info \<Rightarrow> hermes_info" where
  "set_segment FunctionTable start out = out\<lparr>hm_function_table := start\<rparr>"
| "set_segment KindTable start out = out\<lparr>hm_kind_table := start\<rparr>"
| "set_segment IdentifierTable start out = out\<lparr>hm_identifier_table := start\<rparr>"
| "set_segment StringTable start out = out\<lparr>hm_string_table := start\<rparr>"
| "set_segment OverflowTable start out = out\<lparr>hm_overflow_table := start\<rparr>"
| "set_segment StringStorage start out = out\<lparr>hm_storage := start\<rparr>"
| "set_segment ArrayBuffer start out = out"
| "set_segment KeyBuffer start out = out"
| "set_segment ShapeTable start out = out"
| "set_segment BigIntTable start out = out"
| "set_segment BigIntStorage start out = out"
| "set_segment RegExpTable start out = out"
| "set_segment RegExpStorage start out = out"
| "set_segment CjsTable start out = out"
| "set_segment SourceTable start out = out"

text \<open>The segments in file order with their counts and widths.\<close>

definition segments :: "epoch_layout \<Rightarrow> hermes_sizes \<Rightarrow> hermes_info \<Rightarrow> (segment \<times> nat \<times> nat) list" where
  "segments lay sizes out =
     [(FunctionTable, hm_function_count out, lay_small lay), (KindTable, hm_kind_count out, 4),
      (IdentifierTable, hm_identifier_count out, 4), (StringTable, hm_string_count out, 4),
      (OverflowTable, hm_overflow_count out, 8), (StringStorage, hm_storage_size out, 1),
      (ArrayBuffer, hz_values sizes, 1), (KeyBuffer, hz_keys sizes, 1),
      (ShapeTable, hz_third sizes, if hm_version out = 98 then 8 else 1),
      (BigIntTable, hm_bigint_count out, 8), (BigIntStorage, hz_bigint_storage sizes, 1),
      (RegExpTable, hm_regexp_count out, 8), (RegExpStorage, hz_regexp_storage sizes, 1),
      (CjsTable, hm_cjs_count out, 8), (SourceTable, hm_source_count out, 8)]"

fun segment_loop :: "nat \<Rightarrow> (segment \<times> nat \<times> nat) list \<Rightarrow> nat \<Rightarrow> hermes_info \<Rightarrow> (hermes_info, nat \<times> hermes_info) outcome" where
  "segment_loop payload_end [] cursor out = pass (cursor, out)"
| "segment_loop payload_end ((seg, n, width) # rest) cursor out =
     (case align4 cursor of
        None \<Rightarrow> stop (out\<lparr>hm_error := Some SegmentAlignment\<rparr>)
      | Some start \<Rightarrow>
          let out1 = set_segment seg start out;
              refuse = stop (out1\<lparr>hm_error := Some (SegmentExceeds seg (hm_version out)), hm_error_offset := start\<rparr>)
          in case mul_size n width of
            None \<Rightarrow> refuse
          | Some len \<Rightarrow>
              (case add_size start len of
                 None \<Rightarrow> refuse
               | Some e \<Rightarrow> if payload_end < e then refuse else segment_loop payload_end rest e out1))"

definition hm_segments :: "bytes \<Rightarrow> epoch_layout \<Rightarrow> hermes_sizes \<Rightarrow> hermes_info \<Rightarrow> (hermes_info, hermes_info) outcome" where
  "hm_segments data lay sizes out0 =
     (let out = out0\<lparr>hm_function_table := header_bytes\<rparr> in
      step (segment_loop (length data - footer_bytes) (segments lay sizes out) header_bytes out)
        (\<lambda>(cursor, out1). pass (out1\<lparr>hm_code_begin := cursor\<rparr>)))"

subsection \<open>String kinds and strings\<close>

text \<open>Setting a range of a vector of flags; writing outside the vector has no value.\<close>

definition fill_flags :: "bool list \<Rightarrow> nat \<Rightarrow> nat \<Rightarrow> bool list option" where
  "fill_flags flags start n =
     (if start + n \<le> length flags
      then Some (take start flags @ replicate n True @ drop (start + n) flags) else None)"

definition flag_at :: "bool list \<Rightarrow> nat \<Rightarrow> bool option" where
  "flag_at flags i = (if i < length flags then Some (flags ! i) else None)"

fun kind_loop :: "bytes \<Rightarrow> nat list \<Rightarrow> nat \<Rightarrow> nat \<Rightarrow> bool list \<Rightarrow> hermes_info \<Rightarrow>
    (hermes_info, nat \<times> nat \<times> bool list) outcome" where
  "kind_loop data [] cursor identifiers flags out = pass (cursor, identifiers, flags)"
| "kind_loop data (i # is) cursor identifiers flags out =
     with_u32 data (hm_kind_table out + i * 4) (\<lambda>word.
       let n = word AND 0x7fffffff in
       if n = 0 \<or> hm_string_count out - cursor < n then hm_fail out (hm_kind_table out + i * 4) KindRun
       else if word AND 0x80000000 \<noteq> 0 then
         step (access (fill_flags flags cursor n)) (\<lambda>flags'.
           kind_loop data is (cursor + n) (identifiers + n) flags' out)
       else kind_loop data is (cursor + n) identifiers flags out)"

definition hm_kinds :: "bytes \<Rightarrow> hermes_info \<Rightarrow> (hermes_info, bool list) outcome" where
  "hm_kinds data out =
     step (kind_loop data [0..<hm_kind_count out] 0 0 (replicate (hm_string_count out) False) out)
       (\<lambda>(cursor, identifiers, flags).
         if cursor \<noteq> hm_string_count out \<or> identifiers \<noteq> hm_identifier_count out
         then hm_fail out (hm_kind_table out) KindTotals
         else pass flags)"

text \<open>Where a string entry lies: offset and length in the storage, and the overflow entries used.\<close>

definition string_place ::
  "bytes \<Rightarrow> hermes_info \<Rightarrow> nat \<Rightarrow> nat \<Rightarrow> bool list \<times> nat \<Rightarrow> (hermes_info, nat \<times> nat \<times> bool list \<times> nat) outcome" where
  "string_place data out entry word = (\<lambda>(seen, observed).
     let off = drop_bit 1 word AND 0x7fffff; len = drop_bit 24 word in
     if len = 0xff then
       if hm_overflow_count out \<le> off then hm_fail out entry OverflowIndex
       else step (access (flag_at seen off)) (\<lambda>used.
         if used then hm_fail out entry OverflowRepeated
         else with_u32 data (hm_overflow_table out + off * 8) (\<lambda>off'.
           with_u32 data (hm_overflow_table out + off * 8 + 4) (\<lambda>len'.
             pass (off', len', seen[off := True], observed + 1))))
     else pass (off, len, seen, observed))"

definition string_value ::
  "hermes_info \<Rightarrow> nat \<Rightarrow> bool \<Rightarrow> bytes \<Rightarrow> nat \<Rightarrow> (hermes_info, bytes) outcome" where
  "string_value out entry utf16 text retained =
     (if max_decoded_bytes < retained then hm_budget out StringBudget
      else let remaining = max_decoded_bytes - retained in
        if utf16 then
          (case decode_utf16 text remaining of
             Utf16Malformed \<Rightarrow> hm_fail out entry Utf16Entry
           | Utf16Budget \<Rightarrow> hm_budget out StringBudget
           | Utf16Ok value \<Rightarrow> pass value)
        else if \<not> hermes_valid_utf8 text then hm_fail out entry Utf8Entry
        else if remaining < length text then hm_budget out StringBudget
        else pass text)"

fun string_loop :: "bytes \<Rightarrow> bool list \<Rightarrow> nat list \<Rightarrow> bool list \<times> nat \<Rightarrow> nat \<Rightarrow> hermes_info \<Rightarrow>
    (hermes_info, nat \<times> nat \<times> hermes_info) outcome" where
  "string_loop data flags [] used retained out = pass (snd used, retained, out)"
| "string_loop data flags (i # is) used retained out =
     (let entry = hm_string_table out + i * 4 in
      with_u32 data entry (\<lambda>word.
        let utf16 = (word AND 1 \<noteq> 0) in
        step (string_place data out entry word used) (\<lambda>(off, len, used').
          let byte_length = len * (if utf16 then 2 else 1) in
          if hm_storage_size out < off \<or> hm_storage_size out - off < byte_length
          then hm_fail out entry StringRange
          else step (access (flag_at flags i)) (\<lambda>identifier.
            step (access (subspan data (hm_storage out + off) byte_length)) (\<lambda>text.
              step (string_value out entry utf16 text retained) (\<lambda>value.
                string_loop data flags is used' (retained + length value)
                  (out\<lparr>hm_strings := hm_strings out @
                     [\<lparr>hs_index = i, hs_offset = hm_storage out + off, hs_length = len, hs_utf16 = utf16,
                       hs_identifier = identifier, hs_value = value\<rparr>]\<rparr>)))))))"

definition hm_read_strings :: "bytes \<Rightarrow> bool list \<Rightarrow> hermes_info \<Rightarrow> (hermes_info, nat \<times> hermes_info) outcome" where
  "hm_read_strings data flags out0 =
     step (string_loop data flags [0..<hm_string_count out0]
            (replicate (hm_overflow_count out0) False, 0) 0 out0) (\<lambda>(observed, retained, out).
       if observed \<noteq> hm_overflow_count out then hm_fail out (hm_overflow_table out) OverflowUnreferenced
       else pass (retained, out))"

subsection \<open>Function headers\<close>

definition empty_function :: "nat \<Rightarrow> nat \<Rightarrow> hermes_function" where
  "empty_function i header =
     \<lparr>hf_index = i, hf_header = header, hf_offset = 0, hf_size = 0, hf_info = 0, hf_name_id = 0,
      hf_name = [], hf_params = 0, hf_frame = 0, hf_environment = 0, hf_instructions = 0,
      hf_overflow = False, hf_strict = False, hf_handler = False, hf_debug = False, hf_opcodes = []\<rparr>"

definition byte_at :: "bytes \<Rightarrow> nat \<Rightarrow> nat option" where
  "byte_at data off = map_option unat (at data off)"

text \<open>The large headers, in versions 89 and 96 and in version 98.\<close>

definition legacy_large ::
  "bytes \<Rightarrow> hermes_info \<Rightarrow> hermes_function \<Rightarrow> nat \<Rightarrow> nat \<Rightarrow> (hermes_info, hermes_function \<times> nat) outcome" where
  "legacy_large data out f small large =
     with_u32 data large (\<lambda>off. with_u32 data (large + 4) (\<lambda>params. with_u32 data (large + 8) (\<lambda>sz.
     with_u32 data (large + 12) (\<lambda>name. with_u32 data (large + 16) (\<lambda>info.
       if info \<noteq> large then hm_fail out small LegacyBinding
       else with_u32 data (large + 20) (\<lambda>frame. with_u32 data (large + 24) (\<lambda>env.
         step (access (byte_at data (large + 30))) (\<lambda>flags.
           pass (f\<lparr>hf_header := large, hf_offset := off, hf_params := params, hf_size := sz,
             hf_name_id := name, hf_info := info, hf_frame := frame, hf_environment := env\<rparr>,
             flags)))))))))"

definition v1_large :: "bytes \<Rightarrow> hermes_function \<Rightarrow> nat \<Rightarrow> (hermes_info, hermes_function \<times> nat) outcome" where
  "v1_large data f large =
     with_u32 data large (\<lambda>off. with_u32 data (large + 4) (\<lambda>params. with_u32 data (large + 12) (\<lambda>sz.
     with_u32 data (large + 16) (\<lambda>name. with_u32 data (large + 28) (\<lambda>frame.
       step (access (byte_at data (large + 36))) (\<lambda>flags.
         pass (f\<lparr>hf_header := large, hf_info := large, hf_offset := off, hf_params := params,
           hf_size := sz, hf_name_id := name, hf_frame := frame\<rparr>, flags)))))))"

text \<open>A header of versions 89 and 96: the packed words, or the large header they point to.\<close>

definition legacy_header ::
  "bytes \<Rightarrow> epoch_layout \<Rightarrow> hermes_info \<Rightarrow> nat \<Rightarrow> nat \<Rightarrow> (hermes_info, hermes_function \<times> nat) outcome" where
  "legacy_header data lay out i small =
     with_u32 data small (\<lambda>w1. with_u32 data (small + 4) (\<lambda>w2. with_u32 data (small + 8) (\<lambda>w3.
     step (access (byte_at data (small + 15))) (\<lambda>flags.
       let f = (empty_function i small)\<lparr>hf_overflow := flags AND 0x20 \<noteq> 0\<rparr> in
       if hf_overflow f then
         let large = push_bit 16 (w3 AND 0x01ffffff) OR (w1 AND 0xffff) in
         if w1 AND 0x01ff0000 \<noteq> 0 \<or> length data - footer_bytes < large + lay_large lay
         then hm_fail out small LegacyPointer
         else legacy_large data out f small large
       else
         step (access (byte_at data (small + 12))) (\<lambda>env.
           pass (f\<lparr>hf_offset := w1 AND 0x01ffffff, hf_params := drop_bit 25 w1, hf_size := w2 AND 0x7fff,
             hf_name_id := drop_bit 15 w2, hf_info := w3 AND 0x01ffffff, hf_frame := drop_bit 25 w3,
             hf_environment := env\<rparr>, flags))))))"

text \<open>A header of version 98.\<close>

definition v1_header ::
  "bytes \<Rightarrow> epoch_layout \<Rightarrow> hermes_info \<Rightarrow> nat \<Rightarrow> nat \<Rightarrow> (hermes_info, hermes_function \<times> nat) outcome" where
  "v1_header data lay out i small =
     with_u32 data small (\<lambda>w1. with_u32 data (small + 4) (\<lambda>w2.
     step (access (byte_at data (small + 11))) (\<lambda>flags.
       let f = (empty_function i small)\<lparr>hf_overflow := flags AND 0x20 \<noteq> 0\<rparr> in
       if hf_overflow f then
         let large = (w1 AND 0x01ffffff) OR push_bit 24 (drop_bit 14 w2 AND 0xff) in
         if length data - footer_bytes < large + lay_large lay then hm_fail out small V1Pointer
         else v1_large data f large
       else
         step (access (byte_at data (small + 8))) (\<lambda>frame.
           pass (f\<lparr>hf_offset := w1 AND 0x01ffffff, hf_params := drop_bit 25 w1 AND 0x1f,
             hf_size := w2 AND 0x3fff, hf_name_id := drop_bit 14 w2 AND 0xff, hf_frame := frame\<rparr>, flags)))))"

definition read_header ::
  "bytes \<Rightarrow> epoch_layout \<Rightarrow> hermes_info \<Rightarrow> nat \<Rightarrow> (hermes_info, hermes_function) outcome" where
  "read_header data lay out i =
     (let small = hm_function_table out + i * lay_small lay in
      step (if hm_version out < 98 then legacy_header data lay out i small else v1_header data lay out i small)
        (\<lambda>(f, flags). pass (f\<lparr>hf_strict := flags AND 0x04 \<noteq> 0, hf_handler := flags AND 0x08 \<noteq> 0,
           hf_debug := flags AND 0x10 \<noteq> 0\<rparr>)))"

text \<open>The checks of a header: name, body range, information offset.\<close>

definition check_function ::
  "bytes \<Rightarrow> hermes_info \<Rightarrow> hermes_function \<Rightarrow> nat \<Rightarrow> (hermes_info, hermes_function \<times> nat \<times> nat) outcome" where
  "check_function data out f retained =
     (let payload_end = length data - footer_bytes in
      if length (hm_strings out) \<le> hf_name_id f then hm_fail out (hf_header f) NameIndex
      else let name = hs_value (hm_strings out ! hf_name_id f) in
        if max_decoded_bytes < retained \<or> max_decoded_bytes - retained < length name
        then hm_budget out StringBudget
        else case add_size (hf_offset f) (hf_size f) of
          None \<Rightarrow> hm_fail out (hf_header f) BodyRange
        | Some body_end \<Rightarrow>
            if hf_offset f < hm_code_begin out \<or> payload_end < body_end then hm_fail out (hf_header f) BodyRange
            else if hf_info f \<noteq> 0 \<and>
                (hf_info f < hm_code_begin out \<or> payload_end \<le> hf_info f \<or> hf_info f AND 3 \<noteq> 0)
            then hm_fail out (hf_header f) InfoArea
            else pass (f\<lparr>hf_name := name\<rparr>, retained + length name, body_end))"

text \<open>
  The functions so far, the ranges of their bodies (begin, end, index) and the opcode bytes counted
  against the budget.
\<close>

fun function_loop :: "bytes \<Rightarrow> epoch_layout \<Rightarrow> nat list \<Rightarrow> nat \<Rightarrow> nat \<Rightarrow> (nat \<times> nat \<times> nat) list \<Rightarrow> hermes_info \<Rightarrow>
    (hermes_info, (nat \<times> nat \<times> nat) list \<times> hermes_info) outcome" where
  "function_loop data lay [] retained opcode_bytes ranges out = pass (ranges, out)"
| "function_loop data lay (i # is) retained opcode_bytes ranges out =
     step (read_header data lay out i) (\<lambda>f0.
       step (check_function data out f0 retained) (\<lambda>(f, retained', body_end).
         let over = (max_opcode_bytes < opcode_bytes \<or> max_opcode_bytes - opcode_bytes < hf_size f);
             out1 = (if over then out\<lparr>hm_budget_limited := True\<rparr> else out);
             opcode_bytes' = (if over then opcode_bytes else opcode_bytes + hf_size f)
         in function_loop data lay is retained' opcode_bytes' (ranges @ [(hf_offset f, body_end, i)])
              (out1\<lparr>hm_functions := hm_functions out1 @ [f]\<rparr>)))"

text \<open>Bodies in order: equal bodies are counted as deduplicated, overlapping ones are refused.\<close>

fun body_loop :: "(nat \<times> nat \<times> nat) option \<Rightarrow> (nat \<times> nat \<times> nat) list \<Rightarrow> hermes_info \<Rightarrow> (hermes_info, hermes_info) outcome" where
  "body_loop previous [] out = pass out"
| "body_loop previous ((b, e, i) # rest) out =
     (let out1 = out\<lparr>hm_code_end := max (hm_code_end out) e\<rparr> in
      case previous of
        None \<Rightarrow> body_loop (Some (b, e, i)) rest out1
      | Some (b', e', i') \<Rightarrow>
          if e' \<le> b then body_loop (Some (b, e, i)) rest out1
          else if b = b' \<and> e = e' then
            body_loop (Some (b, e, i)) rest (out1\<lparr>hm_deduplicated := hm_deduplicated out1 + 1\<rparr>)
          else hm_fail out1 b BodyOverlap)"

fun info_loop :: "epoch_layout \<Rightarrow> nat \<Rightarrow> hermes_function list \<Rightarrow> hermes_info \<Rightarrow> (hermes_info, hermes_info) outcome" where
  "info_loop lay debug [] out = pass out"
| "info_loop lay debug (f # fs) out =
     (if hf_info f = 0 then info_loop lay debug fs out
      else if hf_info f < hm_code_end out \<or> debug \<le> hf_info f then hm_fail out (hf_header f) InfoOverlap
      else if hf_overflow f \<and> debug < hf_header f + lay_large lay
      then hm_fail out (hf_header f) OverflowHeaderDebug
      else info_loop lay debug fs out)"

definition hm_read_functions ::
  "bytes \<Rightarrow> epoch_layout \<Rightarrow> nat \<Rightarrow> nat \<Rightarrow> hermes_info \<Rightarrow> (hermes_info, hermes_info) outcome" where
  "hm_read_functions data lay debug retained out0 =
     step (function_loop data lay [0..<hm_function_count out0] retained 0 [] out0) (\<lambda>(ranges, out).
       step (body_loop None (sort ranges) (out\<lparr>hm_code_end := hm_code_begin out\<rparr>)) (\<lambda>out.
         info_loop lay debug (hm_functions out) out))"

subsection \<open>The debug section\<close>

definition debug_fields ::
  "bytes \<Rightarrow> nat \<Rightarrow> hermes_info \<Rightarrow> hermes_debug \<Rightarrow> (hermes_info, hermes_debug) outcome" where
  "debug_fields data debug out d =
     (if hm_version out = 89 then
        with_u32 data (debug + 12) (\<lambda>lexical. with_u32 data (debug + 16) (\<lambda>sz.
          let d1 = d\<lparr>hd_lexical := lexical, hd_data_size := sz\<rparr> in
          if sz < lexical then hm_fail (out\<lparr>hm_debug := d1\<rparr>) (debug + 12) DebugV89 else pass d1))
      else if hm_version out = 96 then
        with_u32 data (debug + 12) (\<lambda>scope. with_u32 data (debug + 16) (\<lambda>callee.
        with_u32 data (debug + 20) (\<lambda>strings. with_u32 data (debug + 24) (\<lambda>sz.
          let d1 = d\<lparr>hd_scope_desc := scope, hd_callee := callee, hd_strings := strings, hd_data_size := sz\<rparr> in
          if callee < scope \<or> strings < callee \<or> sz < strings
          then hm_fail (out\<lparr>hm_debug := d1\<rparr>) (debug + 12) DebugV96
          else pass d1))))
      else
        with_u32 data (debug + 12) (\<lambda>lexical. pass (d\<lparr>hd_lexical := lexical, hd_data_size := lexical\<rparr>)))"

text \<open>The end of the debug section by its own tables.\<close>

definition debug_end :: "epoch_layout \<Rightarrow> nat \<Rightarrow> hermes_debug \<Rightarrow> nat option" where
  "debug_end lay debug d =
     Option.bind (mul_size (hd_filenames d) 8) (\<lambda>names.
     Option.bind (add_size (lay_debug lay) names) (\<lambda>s1.
     Option.bind (add_size s1 (hd_filename_bytes d)) (\<lambda>s2.
     Option.bind (mul_size (hd_regions d) 12) (\<lambda>regions.
     Option.bind (add_size s2 regions) (\<lambda>s3.
     Option.bind (add_size s3 (hd_data_size d)) (\<lambda>s4. add_size debug s4))))))"

definition hm_read_debug ::
  "bytes \<Rightarrow> epoch_layout \<Rightarrow> nat \<Rightarrow> hermes_info \<Rightarrow> (hermes_info, hermes_info) outcome" where
  "hm_read_debug data lay debug out =
     (let payload_end = length data - footer_bytes in
      if debug = 0 \<or> debug AND 3 \<noteq> 0 \<or> debug < hm_code_end out \<or> payload_end < debug + lay_debug lay
      then hm_fail out (104 + (if hm_version out = 98 then 4 else 0)) DebugGeometry
      else
        with_u32 data debug (\<lambda>names. with_u32 data (debug + 4) (\<lambda>name_bytes. with_u32 data (debug + 8) (\<lambda>regions.
          let d = (hm_debug out)\<lparr>hd_present := True, hd_offset := debug, hd_filenames := names,
                hd_filename_bytes := name_bytes, hd_regions := regions\<rparr> in
          step (debug_fields data debug out d) (\<lambda>d1.
            case debug_end lay debug d1 of
              None \<Rightarrow> hm_fail (out\<lparr>hm_debug := d1\<rparr>) debug DebugClose
            | Some e \<Rightarrow>
                let out1 = out\<lparr>hm_debug := d1\<lparr>hd_end := e\<rparr>\<rparr> in
                if e \<noteq> payload_end then hm_fail out1 debug DebugClose
                else pass (out1\<lparr>hm_debug := (hm_debug out1)\<lparr>hd_valid := True\<rparr>\<rparr>))))))"

subsection \<open>Opcode streams\<close>

definition bump :: "nat \<Rightarrow> nat list \<Rightarrow> nat list" where
  "bump i counts = counts[i := counts ! i + 1]"

text \<open>
  The opcodes from the cursor to the end of the body, counted per function and over all functions;
  a refused stream stops with its offset, its error and the instructions counted so far.
\<close>

function decode_loop :: "bytes \<Rightarrow> opcode_table \<Rightarrow> nat \<Rightarrow> nat \<Rightarrow> nat list \<Rightarrow> nat list \<Rightarrow> nat \<Rightarrow>
    (nat \<times> hermes_error \<times> nat, nat list \<times> nat list \<times> nat) outcome" where
  "decode_loop data table cursor e local total_counts n =
     (if e \<le> cursor then pass (local, total_counts, n)
      else step (access (byte_at data cursor)) (\<lambda>opcode.
        if length table \<le> opcode then stop (cursor, OpcodeUnknown, n)
        else let len = snd (table ! opcode) in
          if len = 0 \<or> e - cursor < len then stop (cursor, OpcodeOperands, n)
          else decode_loop data table (cursor + len) e (bump opcode local) (bump opcode total_counts) (n + 1)))"
  by pat_completeness auto
termination
  by (relation "measure (\<lambda>(data, table, cursor, e, _). e - cursor)") auto

declare decode_loop.simps [simp del]

text \<open>The opcodes that occur, with name and count; the count is capped at 32 bits.\<close>

definition opcode_rows :: "opcode_table \<Rightarrow> nat list \<Rightarrow> hermes_opcode list" where
  "opcode_rows table counts =
     map (\<lambda>op. \<lparr>ho_opcode = op, ho_name = fst (table ! op), ho_count = min u32_max (counts ! op)\<rparr>)
       (filter (\<lambda>op. counts ! op \<noteq> 0) [0..<length counts])"

fun decode_functions :: "bytes \<Rightarrow> opcode_table \<Rightarrow> hermes_function list \<Rightarrow> nat list \<Rightarrow> hermes_info \<Rightarrow>
    (hermes_info, nat list \<times> hermes_info) outcome" where
  "decode_functions data table [] totals out = pass (totals, out)"
| "decode_functions data table (f # fs) totals out =
     step (or_stop (decode_loop data table (hf_offset f) (hf_offset f + hf_size f)
             (replicate (length table) 0) totals 0)
           (\<lambda>(off, e, n). out\<lparr>hm_functions := hm_functions out @ [f\<lparr>hf_instructions := n\<rparr>] @ fs,
              hm_error_offset := off, hm_error := Some e, hm_valid := False, hm_complete := False\<rparr>))
       (\<lambda>(local, totals', n).
         decode_functions data table fs totals'
           (out\<lparr>hm_functions := hm_functions out @
              [f\<lparr>hf_instructions := n, hf_opcodes := opcode_rows table local\<rparr>]\<rparr>))"

definition hm_decode :: "bytes \<Rightarrow> epoch_layout \<Rightarrow> hermes_info \<Rightarrow> (hermes_info, hermes_info) outcome" where
  "hm_decode data lay out =
     (if hm_budget_limited out then
        stop (out\<lparr>hm_truncated := True, hm_anomalies := hm_anomalies out @ [OpcodeBudget], hm_valid := True\<rparr>)
      else
        step (decode_functions data (lay_opcodes lay) (hm_functions out)
                (replicate (length (lay_opcodes lay)) 0) (out\<lparr>hm_functions := []\<rparr>)) (\<lambda>(totals, out1).
          pass (out1\<lparr>hm_opcodes := hm_opcodes out1 @ opcode_rows (lay_opcodes lay) totals,
            hm_valid := True, hm_complete := True\<rparr>)))"

subsection \<open>The parser\<close>

definition hermes_stages :: "(nat \<Rightarrow> opcode_table) \<Rightarrow> bytes \<Rightarrow> hermes_info \<Rightarrow> (hermes_info, hermes_info) outcome" where
  "hermes_stages tables data out0 =
     step (hm_open tables data out0) (\<lambda>(lay, out).
     step (hm_header data lay out) (\<lambda>(sizes, out).
     step (hm_hash data out) (\<lambda>out.
     step (hm_segments data lay sizes out) (\<lambda>out.
     step (hm_kinds data out) (\<lambda>flags.
     step (hm_read_strings data flags out) (\<lambda>(retained, out).
     step (hm_read_functions data lay (hz_debug sizes) retained out) (\<lambda>out.
     step (hm_read_debug data lay (hz_debug sizes) out) (\<lambda>out.
       hm_decode data lay out))))))))"

definition parse_hermes_bytecode :: "(nat \<Rightarrow> opcode_table) \<Rightarrow> bytes \<Rightarrow> hermes_info option" where
  "parse_hermes_bytecode tables data =
     (let out = empty_hermes\<lparr>hm_file_size := length data\<rparr> in
      if length data < length hermes_magic \<or> take (length hermes_magic) data \<noteq> hermes_magic then Some out
      else settle (hermes_stages tables data out))"

end
