(* ===== verification/CsvText.thy ===== *)
theory CsvText
  imports HermesText StdPath
begin

section \<open>Quoted CSV texts\<close>

text \<open>
  Lines of fields separated by commas as \<^verbatim>\<open>src/extract/hermes.cpp\<close> and
  \<^verbatim>\<open>src/runtime/materialization_graph.cpp\<close> write them, with a reader of such
  texts and the lemma that a written table reads back as its rows.
\<close>

abbreviation newline :: char where "newline \<equiv> CHR 0x0A"

definition csv_line :: "string list \<Rightarrow> string" where
  "csv_line xs = join_with (CHR '','') xs @ [newline]"

subsection \<open>Reading a quoted CSV text\<close>

text \<open>Inside quotes or not, the field and the row so far, the text that remains.\<close>

fun csv_rows :: "bool \<Rightarrow> string \<Rightarrow> string list \<Rightarrow> string \<Rightarrow> string list list option" where
  "csv_rows False f r [] = (if f = [] \<and> r = [] then Some [] else Some [r @ [f]])"
| "csv_rows True f r [] = None"
| "csv_rows False f r (c # cs) =
     (if c = CHR 0x22 then csv_rows True f r cs
      else if c = CHR '','' then csv_rows False [] (r @ [f]) cs
      else if c = newline then map_option (\<lambda>rows. (r @ [f]) # rows) (csv_rows False [] [] cs)
      else csv_rows False (f @ [c]) r cs)"
| "csv_rows True f r (c # cs) =
     (if c = CHR 0x22 then
        (case cs of
           d # cs' \<Rightarrow> if d = CHR 0x22 then csv_rows True (f @ [d]) r cs' else csv_rows False f r cs
         | [] \<Rightarrow> csv_rows False f r [])
      else csv_rows True (f @ [c]) r cs)"

definition read_csv :: "string \<Rightarrow> string list list option" where
  "read_csv = csv_rows False [] []"

definition csv_plain :: "string \<Rightarrow> bool" where
  "csv_plain s \<longleftrightarrow> CHR 0x22 \<notin> set s \<and> CHR '','' \<notin> set s \<and> newline \<notin> set s"

lemma csv_plain_simps [simp]:
  "csv_plain []" "csv_plain (c # s) \<longleftrightarrow> c \<noteq> CHR 0x22 \<and> c \<noteq> CHR '','' \<and> c \<noteq> newline \<and> csv_plain s"
  "csv_plain (s @ t) \<longleftrightarrow> csv_plain s \<and> csv_plain t"
  by (auto simp: csv_plain_def)

lemma read_plain: "csv_plain s \<Longrightarrow> csv_rows False f r (s @ rest) = csv_rows False (f @ s) r rest"
  by (induction s arbitrary: f) auto

text \<open>A field as written: plain text, or a quoted string followed by a separator.\<close>

definition quoted_tail :: "string \<Rightarrow> string" where
  "quoted_tail s = concat (map (\<lambda>c. if c = CHR 0x22 then [CHR 0x22, c] else [c]) s) @ [CHR 0x22]"

lemma csv_quote_tail: "csv_quote s = CHR 0x22 # quoted_tail s"
  by (simp add: csv_quote_def quoted_tail_def)

lemma read_quoted_tail:
  "rest \<noteq> [] \<longrightarrow> hd rest \<noteq> CHR 0x22 \<Longrightarrow> csv_rows True f r (quoted_tail s @ rest) = csv_rows False (f @ s) r rest"
proof (induction s arbitrary: f)
  case Nil
  then show ?case by (cases rest) (simp_all add: quoted_tail_def)
qed (simp_all add: quoted_tail_def)

lemma read_quoted:
  "c \<noteq> CHR 0x22 \<Longrightarrow> csv_rows False f r (csv_quote s @ c # rest) = csv_rows False (f @ s) r (c # rest)"
  using read_quoted_tail [of "c # rest"] by (simp add: csv_quote_tail)

text \<open>The fields of a line, each written plain or quoted, and what they read as.\<close>

datatype csv_field = Plain string | Quoted string

primrec field_text :: "csv_field \<Rightarrow> string" where
  "field_text (Plain s) = s"
| "field_text (Quoted s) = csv_quote s"

primrec field_value :: "csv_field \<Rightarrow> string" where
  "field_value (Plain s) = s"
| "field_value (Quoted s) = s"

primrec field_ok :: "csv_field \<Rightarrow> bool" where
  "field_ok (Plain s) = csv_plain s"
| "field_ok (Quoted s) = True"

lemma read_field:
  "field_ok x \<Longrightarrow> c \<noteq> CHR 0x22 \<Longrightarrow>
    csv_rows False [] r (field_text x @ c # rest) = csv_rows False (field_value x) r (c # rest)"
  by (cases x) (simp_all add: read_plain read_quoted)

lemma read_line:
  "xs \<noteq> [] \<Longrightarrow> list_all field_ok xs \<Longrightarrow>
    csv_rows False [] r (csv_line (map field_text xs) @ rest) =
      map_option (\<lambda>rows. (r @ map field_value xs) # rows) (csv_rows False [] [] rest)"
proof (induction xs arbitrary: r)
  case (Cons x xs)
  show ?case
  proof (cases xs)
    case Nil
    then show ?thesis using Cons.prems read_field [of x newline r rest] by (simp add: csv_line_def)
  next
    case (Cons y ys)
    have line: "csv_line (map field_text (x # xs)) = field_text x @ CHR '','' # csv_line (map field_text xs)"
      using Cons by (simp add: csv_line_def join_with_Cons)
    have "csv_rows False [] r (csv_line (map field_text (x # xs)) @ rest) =
        csv_rows False [] (r @ [field_value x]) (csv_line (map field_text xs) @ rest)"
      unfolding line append_assoc append_Cons using Cons.prems read_field [of x "CHR '',''" r] by simp
    then show ?thesis using Cons Cons.prems Cons.IH [of "r @ [field_value x]"] by simp
  qed
qed simp

lemma read_lines:
  assumes "\<And>x. x \<in> set xs \<Longrightarrow> g x \<noteq> [] \<and> list_all field_ok (g x)"
  shows "csv_rows False [] [] (concat (map (\<lambda>x. csv_line (map field_text (g x))) xs)) = Some (map (map field_value \<circ> g) xs)"
  using assms by (induction xs) (simp_all add: read_line)

lemma hex_digit_plain: "d < 16 \<Longrightarrow> csv_plain [hex_digit d]"
proof -
  assume "d < 16"
  then have code: "of_char (hex_digit d) = (if d < 10 then 48 + d else 87 + d)" by (simp add: hex_digit_def)
  have "hex_digit d \<noteq> c" if "of_char c < (48 :: nat)" for c using code that by (auto split: if_splits)
  then show ?thesis by simp
qed

lemma digits_plain: "2 \<le> b \<Longrightarrow> b \<le> 16 \<Longrightarrow> csv_plain (digits_base b n)"
proof (induction b n rule: digits_base.induct)
  case (1 b n)
  have "csv_plain [hex_digit (n mod b)]" using 1(2,3) by (intro hex_digit_plain) (meson mod_less_divisor less_le_trans zero_less_numeral)
  then show ?case using 1 hex_digit_plain [of n] by (subst digits_base.simps) auto
qed

lemma read_table:
  assumes "cols \<noteq> [] \<and> list_all field_ok cols" and "\<And>x. g x \<noteq> [] \<and> list_all field_ok (g x)"
  shows "read_csv (csv_line (map field_text cols) @ concat (map (\<lambda>x. csv_line (map field_text (g x))) xs)) =
    Some (map field_value cols # map (map field_value \<circ> g) xs)"
  unfolding read_csv_def using assms by (simp add: read_line read_lines)

lemma field_value_Plain: "map field_value (map Plain xs) = xs"
  by (induction xs) simp_all

end
