(* ===== verification/HermesMaps.thy ===== *)
theory HermesMaps
  imports Hermes CsvText
begin

section \<open>The Hermes finding and the analysis maps\<close>

text \<open>
  Models \<open>hermes_finding\<close> and \<open>extract_hermes_maps\<close> of
  \<^verbatim>\<open>src/extract/hermes.cpp\<close>. The three map files are written as whole texts; whether the
  streams open and whether the writes succeed are arguments. The maps are proved to read back as the
  rows that were written.
\<close>

subsection \<open>The finding\<close>

definition truth :: "bool \<Rightarrow> string" where
  "truth b = (if b then ''true'' else ''false'')"

definition hermes_error_fact :: "hermes_info \<Rightarrow> string list" where
  "hermes_error_fact info =
     (case hm_error info of None \<Rightarrow> []
      | Some e \<Rightarrow> [hermes_error_text e @ '' at current-file offset 0x'' @ to_hex (hm_error_offset info)])"

definition hermes_finding :: "hermes_info \<Rightarrow> finding" where
  "hermes_finding info =
     (let f = empty_finding\<lparr>f_kind := ''bytecode'', f_family := ''Hermes bytecode'',
            f_variant := (if hm_epoch info = [] then ''HBC'' else hm_epoch info),
            f_fields := [''version'' \<mapsto> to_dec (hm_version info), ''offset_space'' \<mapsto> ''current_input_file'',
              ''supported_epoch'' \<mapsto> truth (hm_supported info)]\<rparr>;
          anomalies = map hermes_anomaly_text (hm_anomalies info)
      in if \<not> hm_supported info then
           f\<lparr>f_state := ''PARTIAL'',
             f_evidence := [''exact Hermes HBC magic and bytecode version field recovered''],
             f_negative := anomalies,
             f_actions :=
               [''use a matching Hermes compiler/runtime disassembler for this bytecode epoch'',
                ''do not infer JavaScript source semantics from an unaudited HBC version'']\<rparr>
         else if \<not> hm_valid info then
           f\<lparr>f_state := (if hm_budget_limited info then ''PARTIAL'' else ''FAILED''),
             f_negative := hermes_error_fact info @ anomalies\<rparr>
         else
           f\<lparr>f_state := (if hm_complete info then ''CONFIRMED'' else ''PARTIAL''),
             f_evidence :=
               [''Hermes magic/version, complete version-specific table geometry and footer SHA-1 validated'',
                ''function/string/debug ranges close within the current HBC file without partial overlap''] @
               (if hm_complete info
                then [''every function opcode stream closes exactly under the pinned epoch opcode table''] else []),
             f_fields := (f_fields f)
               (''file_length'' \<mapsto> to_dec (hm_declared info), ''source_hash'' \<mapsto> hm_source_hash info,
                ''footer_sha1'' \<mapsto> hm_file_hash info, ''functions'' \<mapsto> to_dec (hm_function_count info),
                ''strings'' \<mapsto> to_dec (hm_string_count info),
                ''identifiers'' \<mapsto> to_dec (hm_identifier_count info),
                ''opcodes_used'' \<mapsto> to_dec (length (hm_opcodes info)),
                ''debug_info'' \<mapsto> (if hd_valid (hm_debug info) then ''validated'' else ''absent''),
                ''javascript_source_recovery_claimed'' \<mapsto> ''false'', ''runtime_load_claimed'' \<mapsto> ''false''),
             f_negative := anomalies,
             f_actions :=
               [''extract:hermes-function-string-opcode-maps'',
                ''inspect named functions and high-frequency control/property opcodes first'',
                ''use the exact matching Hermes disassembler for instruction operands and control-flow semantics'']\<rparr>)"

subsection \<open>The maps\<close>

text \<open>The characters of a byte string.\<close>

definition byte_text :: "bytes \<Rightarrow> string" where
  "byte_text bs = map (\<lambda>b. char_of (unat b)) bs"

definition hex_field :: "nat \<Rightarrow> string" where
  "hex_field n = ''0x'' @ to_hex n"

definition functions_header :: string where
  "functions_header =
     ''function_index,header_offset,bytecode_offset,bytecode_size,param_count,frame_size,function_name_id,'' @
     ''function_name,instruction_count,strict_mode,has_exception_handler,has_debug_info,overflow_header'' @ [newline]"

definition strings_header :: string where
  "strings_header = ''string_index,storage_offset,length,encoding,identifier,value'' @ [newline]"

definition opcodes_header :: string where
  "opcodes_header = ''opcode,name,count'' @ [newline]"

definition function_line :: "hermes_function \<Rightarrow> string" where
  "function_line f =
     csv_line [to_dec (hf_index f), hex_field (hf_header f), hex_field (hf_offset f), to_dec (hf_size f),
       to_dec (hf_params f), to_dec (hf_frame f), to_dec (hf_name_id f), csv_quote (byte_text (hf_name f)),
       to_dec (hf_instructions f), truth (hf_strict f), truth (hf_handler f), truth (hf_debug f),
       truth (hf_overflow f)]"

definition string_line :: "hermes_string \<Rightarrow> string" where
  "string_line s =
     csv_line [to_dec (hs_index s), hex_field (hs_offset s), to_dec (hs_length s),
       if hs_utf16 s then ''UTF-16LE'' else ''UTF-8'', truth (hs_identifier s), csv_quote (byte_text (hs_value s))]"

definition opcode_line :: "hermes_opcode \<Rightarrow> string" where
  "opcode_line r = csv_line [to_dec (ho_opcode r), csv_quote (ho_name r), to_dec (ho_count r)]"

definition replace_filename :: "path \<Rightarrow> string \<Rightarrow> path" where
  "replace_filename p name = take (length p - length (filename p)) p @ name"

datatype hermes_map_error = MapsNeedComplete | MapsCreate | MapsWrite

primrec hermes_map_error_text :: "hermes_map_error \<Rightarrow> string" where
  "hermes_map_error_text MapsNeedComplete = ''Hermes maps require a completely validated supported HBC epoch''"
| "hermes_map_error_text MapsCreate = ''cannot create Hermes analysis maps''"
| "hermes_map_error_text MapsWrite = ''write Hermes analysis maps failed''"

record hermes_maps =
  mp_success :: bool
  mp_functions_csv :: path
  mp_strings_csv :: path
  mp_opcodes_csv :: path
  mp_functions :: nat
  mp_strings :: nat
  mp_opcodes :: nat
  mp_error :: "hermes_map_error option"

definition empty_maps :: hermes_maps where
  "empty_maps =
     \<lparr>mp_success = False, mp_functions_csv = [], mp_strings_csv = [], mp_opcodes_csv = [], mp_functions = 0,
      mp_strings = 0, mp_opcodes = 0, mp_error = None\<rparr>"

text \<open>The result and the texts sent to the three streams, none when they were not opened.\<close>

definition extract_hermes_maps ::
  "bool \<Rightarrow> bool \<Rightarrow> hermes_info \<Rightarrow> path \<Rightarrow> hermes_maps \<times> (string \<times> string \<times> string) option" where
  "extract_hermes_maps opened written info functions_csv =
     (if \<not> hm_valid info \<or> \<not> hm_complete info then (empty_maps\<lparr>mp_error := Some MapsNeedComplete\<rparr>, None)
      else
        let out = empty_maps\<lparr>mp_functions_csv := functions_csv,
              mp_strings_csv := replace_filename functions_csv ''strings.csv'',
              mp_opcodes_csv := replace_filename functions_csv ''opcodes.csv''\<rparr>
        in if \<not> opened then (out\<lparr>mp_error := Some MapsCreate\<rparr>, None)
           else
             let texts = (functions_header @ concat (map function_line (hm_functions info)),
                   strings_header @ concat (map string_line (hm_strings info)),
                   opcodes_header @ concat (map opcode_line (hm_opcodes info)))
             in if \<not> written then (out\<lparr>mp_error := Some MapsWrite\<rparr>, Some texts)
                else (out\<lparr>mp_functions := length (hm_functions info), mp_strings := length (hm_strings info),
                        mp_opcodes := length (hm_opcodes info), mp_success := True\<rparr>, Some texts))"

subsection \<open>Reading the maps back\<close>

lemma number_plain [simp]: "csv_plain (to_dec n)" "csv_plain (hex_field n)" "csv_plain (truth b)"
  by (simp_all add: to_dec_def hex_field_def to_hex_def digits_plain truth_def)

text \<open>The rows of the three maps as fields.\<close>

definition function_fields :: "hermes_function \<Rightarrow> csv_field list" where
  "function_fields f =
     [Plain (to_dec (hf_index f)), Plain (hex_field (hf_header f)), Plain (hex_field (hf_offset f)),
      Plain (to_dec (hf_size f)), Plain (to_dec (hf_params f)), Plain (to_dec (hf_frame f)),
      Plain (to_dec (hf_name_id f)), Quoted (byte_text (hf_name f)), Plain (to_dec (hf_instructions f)),
      Plain (truth (hf_strict f)), Plain (truth (hf_handler f)), Plain (truth (hf_debug f)),
      Plain (truth (hf_overflow f))]"

definition string_fields :: "hermes_string \<Rightarrow> csv_field list" where
  "string_fields s =
     [Plain (to_dec (hs_index s)), Plain (hex_field (hs_offset s)), Plain (to_dec (hs_length s)),
      Plain (if hs_utf16 s then ''UTF-16LE'' else ''UTF-8''), Plain (truth (hs_identifier s)),
      Quoted (byte_text (hs_value s))]"

definition opcode_fields :: "hermes_opcode \<Rightarrow> csv_field list" where
  "opcode_fields r = [Plain (to_dec (ho_opcode r)), Quoted (ho_name r), Plain (to_dec (ho_count r))]"

lemma lines_of_fields:
  "function_line = (\<lambda>f. csv_line (map field_text (function_fields f)))"
  "string_line = (\<lambda>s. csv_line (map field_text (string_fields s)))"
  "opcode_line = (\<lambda>r. csv_line (map field_text (opcode_fields r)))"
  by (simp_all add: fun_eq_iff function_line_def string_line_def opcode_line_def function_fields_def string_fields_def
      opcode_fields_def)

lemma fields_ok:
  "function_fields f \<noteq> [] \<and> list_all field_ok (function_fields f)"
  "string_fields s \<noteq> [] \<and> list_all field_ok (string_fields s)"
  "opcode_fields r \<noteq> [] \<and> list_all field_ok (opcode_fields r)"
  by (simp_all add: function_fields_def string_fields_def opcode_fields_def)

definition functions_columns :: "string list" where
  "functions_columns =
     [''function_index'', ''header_offset'', ''bytecode_offset'', ''bytecode_size'', ''param_count'', ''frame_size'',
      ''function_name_id'', ''function_name'', ''instruction_count'', ''strict_mode'', ''has_exception_handler'',
      ''has_debug_info'', ''overflow_header'']"

definition strings_columns :: "string list" where
  "strings_columns = [''string_index'', ''storage_offset'', ''length'', ''encoding'', ''identifier'', ''value'']"

definition opcodes_columns :: "string list" where
  "opcodes_columns = [''opcode'', ''name'', ''count'']"

lemma headers_of_columns:
  "functions_header = csv_line (map field_text (map Plain functions_columns))"
  "strings_header = csv_line (map field_text (map Plain strings_columns))"
  "opcodes_header = csv_line (map field_text (map Plain opcodes_columns))"
  by (simp_all add: functions_header_def strings_header_def opcodes_header_def functions_columns_def strings_columns_def
      opcodes_columns_def csv_line_def)

lemma columns_ok:
  "map Plain functions_columns \<noteq> [] \<and> list_all field_ok (map Plain functions_columns)"
  "map Plain strings_columns \<noteq> [] \<and> list_all field_ok (map Plain strings_columns)"
  "map Plain opcodes_columns \<noteq> [] \<and> list_all field_ok (map Plain opcodes_columns)"
  by (simp_all add: functions_columns_def strings_columns_def opcodes_columns_def)

text \<open>The three map files read back, under a reader of quoted CSV, as their column names
  followed by one row for each function, string and opcode in order, with every value as it was
  parsed: separators, quotes and line ends inside names and strings are not lost and add no rows.\<close>

lemma hermes_maps_roundtrip:
  "read_csv (functions_header @ concat (map function_line fs)) =
      Some (functions_columns # map (map field_value \<circ> function_fields) fs) \<and>
   read_csv (strings_header @ concat (map string_line ss)) =
      Some (strings_columns # map (map field_value \<circ> string_fields) ss) \<and>
   read_csv (opcodes_header @ concat (map opcode_line rs)) =
      Some (opcodes_columns # map (map field_value \<circ> opcode_fields) rs)"
  unfolding lines_of_fields headers_of_columns
  using read_table [OF columns_ok(1) fields_ok(1), where xs = fs] read_table [OF columns_ok(2) fields_ok(2), where xs = ss]
    read_table [OF columns_ok(3) fields_ok(3), where xs = rs]
  unfolding field_value_Plain by (intro conjI)

end
