(* ===== verification/HermesSafety.thy ===== *)
theory HermesSafety
  imports HermesMaps
begin

section \<open>What a Hermes parse guarantees\<close>

text \<open>
  The parser is total and never leaves the file. The header, the tables, the string entries, the packed
  and large function headers and the debug section are specified as little-endian fields at offsets
  of the file, and a valid result has the values of these fields, its footer hash, and bodies without
  partial overlap; a complete result has every function body tiled by opcodes of the table, and
  lists each opcode that occurs with the number of its occurrences.
\<close>

subsection \<open>Readers and stops\<close>

lemma hm_u32_at: "hm_u32 data off = (if off + 4 \<le> length data then Some (le_at data off 4) else None)"
proof (cases "off + 4 \<le> length data")
  case True
  then show ?thesis by (simp add: hm_u32_def at_Some or4_le_value le_at_def take4_drop)
next
  case False
  then have "at data (off + 3) = None" by (simp add: at_None_iff)
  then show ?thesis using False by (simp add: hm_u32_def split: option.split)
qed

lemma hm_u32_Some: "off + 4 \<le> length data \<Longrightarrow> hm_u32 data off = Some (le_at data off 4)"
  by (simp add: hm_u32_at)

lemma byte_at_Some: "off < length data \<Longrightarrow> byte_at data off = Some (unat (data ! off))"
  by (simp add: byte_at_def at_Some)

lemma byte_at_field: "off < length data \<Longrightarrow> byte_at data off = Some (le_at data off 1)"
  by (simp add: byte_at_Some le_at_def take_Suc_conv_app_nth)

text \<open>Masks and shifts of the packed words, as arithmetic.\<close>

lemma and_low_bits: "n AND (2 ^ k - 1) = n mod 2 ^ k" for n :: nat
  by (simp only: take_bit_eq_mod [symmetric] take_bit_eq_mask mask_eq_exp_minus_1)

lemma packed_fields:
  fixes n :: nat
  shows "n AND 0x1f = n mod 2 ^ 5" "n AND 0xff = n mod 2 ^ 8" "n AND 0x3fff = n mod 2 ^ 14" "n AND 0x7fff = n mod 2 ^ 15"
    "n AND 0xffff = n mod 2 ^ 16" "n AND 0x7fffff = n mod 2 ^ 23" "n AND 0x01ffffff = n mod 2 ^ 25"
  using and_low_bits [of n 5] and_low_bits [of n 8] and_low_bits [of n 14] and_low_bits [of n 15]
    and_low_bits [of n 16] and_low_bits [of n 23] and_low_bits [of n 25] by simp_all

lemma packed_flags:
  fixes n :: nat
  shows "n AND 4 \<noteq> 0 \<longleftrightarrow> odd (n div 4)" "n AND 8 \<noteq> 0 \<longleftrightarrow> odd (n div 8)"
    "n AND 16 \<noteq> 0 \<longleftrightarrow> odd (n div 16)" "n AND 32 \<noteq> 0 \<longleftrightarrow> odd (n div 32)" "n AND 1 \<noteq> 0 \<longleftrightarrow> odd n"
  using and_exp_eq_0_iff_not_bit [of n 2] and_exp_eq_0_iff_not_bit [of n 3] and_exp_eq_0_iff_not_bit [of n 4]
    and_exp_eq_0_iff_not_bit [of n 5] and_exp_eq_0_iff_not_bit [of n 0]
  by (simp_all add: bit_iff_odd)

definition hm_no :: "hermes_info \<Rightarrow> bool" where
  "hm_no out \<longleftrightarrow> \<not> hm_valid out \<and> \<not> hm_complete out"

lemma hm_no_stops [simp]:
  "meets hm_no P (hm_fail out off e)"
  "meets hm_no P (hm_budget out a) \<longleftrightarrow> hm_no out"
  by (simp_all add: hm_fail_def hm_budget_def hm_no_def)

lemma hm_no_update [simp]:
  "hm_no (out\<lparr>hm_error := e\<rparr>) = hm_no out" "hm_no (out\<lparr>hm_error_offset := off\<rparr>) = hm_no out"
  by (simp_all add: hm_no_def)

text \<open>A result to which no stage has added anything yet.\<close>

definition hm_fresh :: "nat \<Rightarrow> hermes_info \<Rightarrow> bool" where
  "hm_fresh v out \<longleftrightarrow>
     hm_no out \<and> \<not> hm_budget_limited out \<and> hm_strings out = [] \<and> hm_functions out = [] \<and>
     hm_opcodes out = [] \<and> hm_version out = v"

lemma hm_fresh_no [simp]: "hm_fresh v out \<Longrightarrow> hm_no out"
  by (simp add: hm_fresh_def)

lemma layout_bounds:
  assumes "layout_for tables v = Some lay"
  shows "lay_version lay = v" and "lay_opcodes lay = tables v" and "lay_debug lay \<le> 28" and "16 \<le> lay_debug lay"
    and "v < 98 \<Longrightarrow> lay_small lay = 16 \<and> lay_large lay = 31" and "\<not> v < 98 \<Longrightarrow> lay_small lay = 12 \<and> lay_large lay = 37"
    and "v = 89 \<Longrightarrow> lay_debug lay = 20" and "v = 96 \<Longrightarrow> lay_debug lay = 28"
  using assms by (auto simp: layout_for_def split: if_splits)

subsection \<open>Header, hash, segments\<close>

lemma hm_open_stage:
  assumes "hm_no out0" and "\<not> hm_budget_limited out0" and "hm_strings out0 = []" "hm_functions out0 = []" "hm_opcodes out0 = []"
  shows "meets hm_no (\<lambda>(lay, out). layout_for tables (le_at data 8 4) = Some lay \<and> hm_fresh (le_at data 8 4) out) (hm_open tables data out0)"
  using assms by (auto simp: hm_open_def Let_def hm_u32_at hm_no_def hm_fresh_def split: option.split)

text \<open>The header: little-endian words at fixed offsets, the last three four bytes later in version 98.\<close>

definition field_shift :: "nat \<Rightarrow> nat" where
  "field_shift v = (if v = 98 then 4 else 0)"

definition header_fields :: "bytes \<Rightarrow> hermes_info \<Rightarrow> bool" where
  "header_fields data out \<longleftrightarrow>
     hm_version out = le_at data 8 4 \<and> hm_declared out = length data \<and> le_at data 32 4 = length data \<and>
     hm_global_index out = le_at data 36 4 \<and> hm_global_index out < hm_function_count out \<and>
     hm_function_count out = le_at data 40 4 \<and> hm_kind_count out = le_at data 44 4 \<and>
     hm_identifier_count out = le_at data 48 4 \<and> hm_string_count out = le_at data 52 4 \<and>
     hm_overflow_count out = le_at data 56 4 \<and> hm_storage_size out = le_at data 60 4 \<and>
     hm_bigint_count out = le_at data 64 4 \<and> hm_regexp_count out = le_at data 72 4 \<and>
     hm_cjs_count out = le_at data (96 + field_shift (hm_version out)) 4 \<and>
     hm_source_count out = le_at data (100 + field_shift (hm_version out)) 4"

definition sizes_fields :: "bytes \<Rightarrow> nat \<Rightarrow> hermes_sizes \<Rightarrow> bool" where
  "sizes_fields data v sizes \<longleftrightarrow>
     hz_bigint_storage sizes = le_at data 68 4 \<and> hz_regexp_storage sizes = le_at data 76 4 \<and>
     hz_values sizes = le_at data 80 4 \<and> hz_keys sizes = le_at data 84 4 \<and> hz_third sizes = le_at data 88 4 \<and>
     hz_debug sizes = le_at data (104 + field_shift v) 4"

lemma header_fields_stage:
  assumes "hm_fresh v out0" and "v = le_at data 8 4"
  shows "meets hm_no (\<lambda>(sizes, out). hm_fresh v out \<and> header_fields data out \<and> sizes_fields data v sizes \<and>
    148 \<le> length data \<and> length data \<le> u32_max) (hm_header data lay out0)"
proof (cases "length data < 148 \<or> u32_max < length data")
  case True
  then show ?thesis by (auto simp: hm_header_def header_bytes_def footer_bytes_def)
next
  case False
  have sub: "subspan data 12 20 = Some (take 20 (drop 12 data))" using False by (simp add: subspan_Some)
  have fresh: "w = le_at data 8 4 \<Longrightarrow> hm_fresh w (out0\<lparr>hm_source_hash := a, hm_declared := b, hm_global_index := c, hm_function_count := d,
      hm_kind_count := e, hm_identifier_count := f, hm_string_count := g, hm_overflow_count := h, hm_storage_size := i,
      hm_bigint_count := j, hm_regexp_count := k, hm_cjs_count := l, hm_source_count := m\<rparr>)" for w a b c d e f g h i j k l m
    using assms by (simp add: hm_fresh_def hm_no_def)
  have version: "hm_version out0 = le_at data 8 4" using assms by (simp add: hm_fresh_def)
  show ?thesis
    using False by (simp add: hm_header_def header_bytes_def footer_bytes_def hm_u32_at sub fresh Let_def
        header_fields_def sizes_fields_def field_shift_def version assms(2) not_le)
qed

definition hash_ok :: "bytes \<Rightarrow> bool" where
  "hash_ok data \<longleftrightarrow> drop (length data - 20) data = sha1_spec (take (length data - 20) data)"

lemma sha1_value: "sha1_bytes d = Some (sha1_spec d)"
  using sha1.one_shot_ref [of d] by simp

lemma hash_stage:
  assumes "hm_fresh v out0" and "header_fields data out0"
  shows "meets hm_no (\<lambda>out. hm_fresh v out \<and> header_fields data out \<and> hash_ok data) (hm_hash data out0)"
  using assms by (auto simp: header_fields_def hm_hash_def sha1_value hash_ok_def footer_bytes_def hm_fresh_def hm_no_def Let_def)

lemma add_size_Some: "add_size a b = Some c \<longleftrightarrow> \<not> u64_max - b < a \<and> c = a + b"
  by (auto simp: add_size_def)

lemma mul_size_Some: "mul_size a b = Some c \<Longrightarrow> c = a * b"
  by (auto simp: mul_size_def split: if_splits)

text \<open>The field that a segment sets, and the fields that no segment changes.\<close>

primrec segment_start :: "segment \<Rightarrow> hermes_info \<Rightarrow> nat option" where
  "segment_start FunctionTable out = Some (hm_function_table out)"
| "segment_start KindTable out = Some (hm_kind_table out)"
| "segment_start IdentifierTable out = Some (hm_identifier_table out)"
| "segment_start StringTable out = Some (hm_string_table out)"
| "segment_start OverflowTable out = Some (hm_overflow_table out)"
| "segment_start StringStorage out = Some (hm_storage out)"
| "segment_start ArrayBuffer out = None"
| "segment_start KeyBuffer out = None"
| "segment_start ShapeTable out = None"
| "segment_start BigIntTable out = None"
| "segment_start BigIntStorage out = None"
| "segment_start RegExpTable out = None"
| "segment_start RegExpStorage out = None"
| "segment_start CjsTable out = None"
| "segment_start SourceTable out = None"

definition hm_counts :: "hermes_info \<Rightarrow> nat list" where
  "hm_counts out =
     [hm_function_count out, hm_kind_count out, hm_identifier_count out, hm_string_count out,
      hm_overflow_count out, hm_storage_size out, hm_bigint_count out, hm_regexp_count out, hm_cjs_count out,
      hm_source_count out, hm_declared out, hm_global_index out]"

lemma set_segment_keeps [simp]:
  "hm_fresh v (set_segment seg n out) = hm_fresh v out" "hm_counts (set_segment seg n out) = hm_counts out"
  "hm_no (set_segment seg n out) = hm_no out"
  by (cases seg; simp add: hm_fresh_def hm_no_def hm_counts_def)+

lemma segment_start_set [simp]:
  "segment_start seg (set_segment seg n out) = (if segment_start seg out = None then None else Some n)"
  "seg' \<noteq> seg \<Longrightarrow> segment_start seg' (set_segment seg n out) = segment_start seg' out"
  by (cases seg; simp) (cases seg; cases seg'; simp)

text \<open>
  Segments follow each other, each from the next multiple of four: \<open>laid\<close> says so of the starts that
  the result records, \<open>laid_end\<close> is where the last one ends.
\<close>

definition up4 :: "nat \<Rightarrow> nat" where
  "up4 n = 4 * ((n + 3) div 4)"

fun laid :: "(segment \<times> nat \<times> nat) list \<Rightarrow> nat \<Rightarrow> hermes_info \<Rightarrow> bool" where
  "laid [] c out \<longleftrightarrow> True"
| "laid ((seg, n, w) # rest) c out \<longleftrightarrow>
     (\<forall>s. segment_start seg out = Some s \<longrightarrow> s = up4 c) \<and> laid rest (up4 c + n * w) out"

definition laid_end :: "(nat \<times> nat) list \<Rightarrow> nat \<Rightarrow> nat" where
  "laid_end sizes c = fold (\<lambda>(n, w) c. up4 c + n * w) sizes c"

lemma align4_up: "align4 c = Some s \<Longrightarrow> s = up4 c"
  by (auto simp: align4_def up4_def minus_mod_eq_mult_div split: if_splits)

definition placed :: "nat \<Rightarrow> (segment \<times> nat \<times> nat) list \<Rightarrow> hermes_info \<Rightarrow> bool" where
  "placed e segs out \<longleftrightarrow> (\<forall>(seg, n, w) \<in> set segs. \<forall>s. segment_start seg out = Some s \<longrightarrow> s + n * w \<le> e)"

lemma segment_loop_stage:
  assumes "hm_fresh v out" and "distinct (map fst segs)" and "cursor \<le> e"
  shows "meets hm_no (\<lambda>(c, out'). hm_fresh v out' \<and> hm_counts out' = hm_counts out \<and> c \<le> e \<and> placed e segs out' \<and>
      laid segs cursor out' \<and> c = laid_end (map snd segs) cursor \<and>
      (\<forall>seg. seg \<notin> fst ` set segs \<longrightarrow> segment_start seg out' = segment_start seg out))
    (segment_loop e segs cursor out)"
  using assms
proof (induction e segs cursor out rule: segment_loop.induct)
  case (1 e cursor out)
  then show ?case by (simp add: placed_def laid_end_def)
next
  case (2 e seg n width rest cursor out)
  show ?case
  proof (cases "align4 cursor")
    case None
    then show ?thesis using 2(2) by simp
  next
    case (Some start)
    let ?out = "set_segment seg start out"
    show ?thesis
    proof (cases "mul_size n width")
      case None
      then show ?thesis using Some 2(2) by (simp add: Let_def)
    next
      case mul: (Some len)
      show ?thesis
      proof (cases "add_size start len")
        case None
        then show ?thesis using Some mul 2(2) by (simp add: Let_def)
      next
        case add: (Some c)
        show ?thesis
        proof (cases "e < c")
          case True
          then show ?thesis using Some mul add 2(2) by (simp add: Let_def)
        next
          case False
          have c: "c = start + n * width" using add mul by (auto simp: add_size_Some dest: mul_size_Some)
          have run: "segment_loop e ((seg, n, width) # rest) cursor out = segment_loop e rest c ?out"
            using Some mul add False by (simp add: Let_def)
          have head: "placed e ((seg, n, width) # rest) o'"
            if "placed e rest o'" "segment_start seg o' = segment_start seg ?out" for o'
            using that False c by (auto simp: placed_def split: if_splits)
          have first_start: "segment_start seg ?out = Some s \<Longrightarrow> s = up4 cursor" for s
            using align4_up [OF Some] by (auto split: if_splits)
          have next_end: "c = up4 cursor + n * width" using c align4_up [OF Some] by simp
          show ?thesis unfolding run
            by (rule meets_mono [OF 2(1) [OF Some refl refl mul add False]])
              (use 2(2,3) False head first_start in \<open>auto simp: next_end laid_end_def\<close>)
        qed
      qed
    qed
  qed
qed

text \<open>
  The tables follow the header in this order; behind the string storage come the buffers and tables
  whose starts are not recorded, and behind them the code.
\<close>

definition table_starts :: "bytes \<Rightarrow> epoch_layout \<Rightarrow> hermes_info \<Rightarrow> bool" where
  "table_starts data lay out \<longleftrightarrow>
     hm_function_table out = 128 \<and>
     hm_kind_table out = up4 (hm_function_table out + hm_function_count out * lay_small lay) \<and>
     hm_identifier_table out = up4 (hm_kind_table out + hm_kind_count out * 4) \<and>
     hm_string_table out = up4 (hm_identifier_table out + hm_identifier_count out * 4) \<and>
     hm_overflow_table out = up4 (hm_string_table out + hm_string_count out * 4) \<and>
     hm_storage out = up4 (hm_overflow_table out + hm_overflow_count out * 8) \<and>
     hm_code_begin out = laid_end
       [(le_at data 80 4, 1), (le_at data 84 4, 1), (le_at data 88 4, if hm_version out = 98 then 8 else 1),
        (hm_bigint_count out, 8), (le_at data 68 4, 1), (hm_regexp_count out, 8), (le_at data 76 4, 1),
        (hm_cjs_count out, 8), (hm_source_count out, 8)] (hm_storage out + hm_storage_size out)"

definition hm_placed :: "bytes \<Rightarrow> epoch_layout \<Rightarrow> hermes_info \<Rightarrow> bool" where
  "hm_placed data lay out \<longleftrightarrow>
     header_fields data out \<and> table_starts data lay out \<and>
     (let e = length data - 20 in
      hm_function_table out + hm_function_count out * lay_small lay \<le> e \<and>
      hm_kind_table out + hm_kind_count out * 4 \<le> e \<and> hm_string_table out + hm_string_count out * 4 \<le> e \<and>
      hm_overflow_table out + hm_overflow_count out * 8 \<le> e \<and> hm_storage out + hm_storage_size out \<le> e \<and>
      hm_code_begin out \<le> e)"

lemmas hm_placed_parts = hm_placed_def header_fields_def table_starts_def

lemma hm_placed_keeps [simp]:
  "hm_placed data lay (out\<lparr>hm_strings := a1\<rparr>) = hm_placed data lay out"
  "hm_placed data lay (out\<lparr>hm_functions := a2\<rparr>) = hm_placed data lay out"
  "hm_placed data lay (out\<lparr>hm_budget_limited := a3\<rparr>) = hm_placed data lay out"
  "hm_placed data lay (out\<lparr>hm_code_end := a4\<rparr>) = hm_placed data lay out"
  "hm_placed data lay (out\<lparr>hm_deduplicated := a4\<rparr>) = hm_placed data lay out"
  "hm_placed data lay (out\<lparr>hm_debug := a5\<rparr>) = hm_placed data lay out"
  "hm_placed data lay (out\<lparr>hm_opcodes := a6\<rparr>) = hm_placed data lay out"
  "hm_placed data lay (out\<lparr>hm_valid := a3\<rparr>) = hm_placed data lay out"
  "hm_placed data lay (out\<lparr>hm_complete := a3\<rparr>) = hm_placed data lay out"
  "hm_placed data lay (out\<lparr>hm_truncated := a3\<rparr>) = hm_placed data lay out"
  "hm_placed data lay (out\<lparr>hm_anomalies := a7\<rparr>) = hm_placed data lay out"
  by (simp_all add: hm_placed_parts)

lemma table_entry:
  assumes "t + n * w \<le> length data - 20" and "i < n"
  shows "t + i * w + w \<le> length data"
proof -
  have "i * w + w \<le> n * w" using mult_le_mono1 [of "Suc i" n w] assms(2) by simp
  then show ?thesis using assms(1) by linarith
qed

lemma placedD:
  assumes "hm_placed data lay out"
  shows "hm_function_table out + hm_function_count out * lay_small lay \<le> length data - 20"
    and "hm_kind_table out + hm_kind_count out * 4 \<le> length data - 20"
    and "hm_string_table out + hm_string_count out * 4 \<le> length data - 20"
    and "hm_overflow_table out + hm_overflow_count out * 8 \<le> length data - 20"
    and "hm_storage out + hm_storage_size out \<le> length data - 20" and "hm_code_begin out \<le> length data - 20"
  using assms by (simp_all add: hm_placed_def Let_def)

lemma segments_stage:
  assumes "hm_fresh v out0" and "148 \<le> length data" and header: "header_fields data out0" and sizes: "sizes_fields data v sizes"
  shows "meets hm_no (\<lambda>out. hm_fresh v out \<and> hm_placed data lay out) (hm_segments data lay sizes out0)"
proof -
  let ?out = "out0\<lparr>hm_function_table := header_bytes\<rparr>"
  let ?segs = "segments lay sizes ?out"
  have fresh: "hm_fresh v ?out" using assms(1) by (simp add: hm_fresh_def hm_no_def)
  have dist: "distinct (map fst ?segs)" by (simp add: segments_def)
  have start: "header_bytes \<le> length data - footer_bytes" using assms(2) by (simp add: header_bytes_def footer_bytes_def)
  show ?thesis
    unfolding hm_segments_def Let_def meets_step
  proof (rule meets_mono [OF segment_loop_stage [OF fresh dist start]], assumption)
    fix a
    assume a: "case a of (c, out') \<Rightarrow> hm_fresh v out' \<and> hm_counts out' = hm_counts ?out \<and> c \<le> length data - footer_bytes \<and>
      placed (length data - footer_bytes) ?segs out' \<and> laid ?segs header_bytes out' \<and>
      c = laid_end (map snd ?segs) header_bytes \<and>
      (\<forall>seg. seg \<notin> fst ` set ?segs \<longrightarrow> segment_start seg out' = segment_start seg ?out)"
    obtain c out' where eq: "a = (c, out')" by (cases a)
    have fresh': "hm_fresh v (out'\<lparr>hm_code_begin := c\<rparr>)" using a eq by (simp add: hm_fresh_def hm_no_def)
    have "placed (length data - 20) ?segs out'" "c \<le> length data - 20" using a eq by (simp_all add: footer_bytes_def)
    moreover have "header_fields data (out'\<lparr>hm_code_begin := c\<rparr>)"
      using a eq header assms(1) by (simp add: header_fields_def hm_counts_def hm_fresh_def)
    moreover have "table_starts data lay (out'\<lparr>hm_code_begin := c\<rparr>)"
    proof -
      have counts: "hm_counts out' = hm_counts out0" "hm_version out' = hm_version out0"
        using a eq assms(1) by (simp_all add: hm_counts_def hm_fresh_def)
      have "up4 128 = 128" by (simp add: up4_def)
      moreover have "laid ?segs 128 out'" "c = laid_end (map snd ?segs) 128" using a eq by (simp_all add: header_bytes_def)
      ultimately show ?thesis
        using counts sizes by (simp add: table_starts_def segments_def hm_counts_def sizes_fields_def laid_end_def)
    qed
    ultimately have "hm_placed data lay (out'\<lparr>hm_code_begin := c\<rparr>)"
      using a eq by (simp add: placed_def segments_def hm_placed_def hm_counts_def Let_def)
    then show "meets hm_no (\<lambda>out. hm_fresh v out \<and> hm_placed data lay out) (case a of (cursor, out1) \<Rightarrow> pass (out1\<lparr>hm_code_begin := cursor\<rparr>))"
      using fresh' eq by simp
  qed
qed

subsection \<open>String kinds and strings\<close>

lemma fill_flags_fresh:
  assumes "length flags = m" and "drop c flags = replicate (m - c) False" and "c + n \<le> m"
  shows "\<exists>flags'. fill_flags flags c n = Some flags' \<and> length flags' = m \<and>
    drop (c + n) flags' = replicate (m - (c + n)) False \<and> length (filter (\<lambda>b. b) flags') = length (filter (\<lambda>b. b) flags) + n"
proof -
  let ?flags' = "take c flags @ replicate n True @ drop (c + n) flags"
  have rest: "drop (c + n) flags = replicate (m - (c + n)) False"
    using arg_cong [OF assms(2), of "drop n"] by (simp add: drop_drop add.commute)
  have "length (filter (\<lambda>b. b) flags) = length (filter (\<lambda>b. b) (take c flags)) + length (filter (\<lambda>b. b) (drop c flags))"
    by (metis append_take_drop_id filter_append length_append)
  then have "length (filter (\<lambda>b. b) ?flags') = length (filter (\<lambda>b. b) flags) + n" unfolding rest assms(2) by simp
  then show ?thesis using assms rest by (intro exI [of _ ?flags']) (simp add: fill_flags_def)
qed

lemma kind_loop_stage:
  assumes "hm_placed data lay out" and "\<forall>i \<in> set is. i < hm_kind_count out" and "length flags = hm_string_count out"
    and "drop cursor flags = replicate (hm_string_count out - cursor) False" and "cursor \<le> hm_string_count out"
    and "identifiers = length (filter (\<lambda>b. b) flags)"
  shows "meets hm_no (\<lambda>(c, n, flags'). length flags' = hm_string_count out \<and> n = length (filter (\<lambda>b. b) flags'))
    (kind_loop data is cursor identifiers flags out)"
  using assms(2-)
proof (induction "is" arbitrary: cursor identifiers flags)
  case Nil
  then show ?case by simp
next
  case (Cons i "is")
  let ?p = "hm_kind_table out + i * 4"
  let ?w = "le_at data ?p 4" let ?n = "?w AND 0x7fffffff" let ?m = "hm_string_count out"
  have "?p + 4 \<le> length data" by (rule table_entry [OF placedD(2) [OF assms(1)]]) (use Cons.prems(1) in simp)
  then have read: "hm_u32 data ?p = Some ?w" by (simp add: hm_u32_at)
  show ?case
  proof (cases "?n = 0 \<or> ?m - cursor < ?n")
    case True
    then show ?thesis by (auto simp: read Let_def)
  next
    case False
    then have fit: "cursor + ?n \<le> ?m" using Cons.prems(4) by linarith
    obtain flags' where fill: "fill_flags flags cursor ?n = Some flags'" "length flags' = ?m"
        "drop (cursor + ?n) flags' = replicate (?m - (cursor + ?n)) False" "length (filter (\<lambda>b. b) flags') = length (filter (\<lambda>b. b) flags) + ?n"
      using fill_flags_fresh [OF Cons.prems(2,3) fit] by blast
    have plain: "drop (cursor + ?n) flags = replicate (?m - (cursor + ?n)) False"
      using arg_cong [OF Cons.prems(3), of "drop ?n"] by (simp add: drop_drop add.commute)
    have ind: "\<forall>i \<in> set is. i < hm_kind_count out" using Cons.prems(1) by simp
    show ?thesis
    proof (cases "?w AND 0x80000000 = 0")
      case True
      then show ?thesis using False Cons.IH [OF ind Cons.prems(2) plain fit Cons.prems(5)] by (simp add: read Let_def)
    next
      case ident: False
      have "identifiers + ?n = length (filter (\<lambda>b. b) flags')" using fill(4) Cons.prems(5) by simp
      from Cons.IH [OF ind fill(2,3) fit this] show ?thesis using False ident by (simp add: read Let_def fill(1))
    qed
  qed
qed

lemma kinds_stage:
  assumes "hm_placed data lay out"
  shows "meets hm_no (\<lambda>flags. length flags = hm_string_count out \<and> length (filter (\<lambda>b. b) flags) = hm_identifier_count out)
    (hm_kinds data out)"
  unfolding hm_kinds_def meets_step
  by (rule meets_mono [OF kind_loop_stage [OF assms]]) (auto split: prod.split)

text \<open>
  An entry of the string table is a word: bit 0 says UTF-16, 23 bits give the offset in the storage
  and 8 bits the length; the length 255 sends to the overflow table, where both are words.
\<close>

definition entry_place :: "bytes \<Rightarrow> hermes_info \<Rightarrow> nat \<Rightarrow> nat \<times> nat" where
  "entry_place data out w =
     (let off = w div 2 mod 2 ^ 23; len = w div 2 ^ 24; o8 = hm_overflow_table out + off * 8 in
      if len = 255 then (le_at data o8 4, le_at data (o8 + 4) 4) else (off, len))"

definition string_entry :: "bytes \<Rightarrow> hermes_info \<Rightarrow> hermes_string \<Rightarrow> bool" where
  "string_entry data out s \<longleftrightarrow>
     (let w = le_at data (hm_string_table out + hs_index s * 4) 4 in
      hs_utf16 s = odd w \<and> hs_offset s = hm_storage out + fst (entry_place data out w) \<and>
      hs_length s = snd (entry_place data out w))"

definition string_ok :: "bytes \<Rightarrow> hermes_info \<Rightarrow> hermes_string \<Rightarrow> bool" where
  "string_ok data out s \<longleftrightarrow> string_entry data out s \<and>
     hm_storage out \<le> hs_offset s \<and>
     hs_offset s + hs_length s * (if hs_utf16 s then 2 else 1) \<le> hm_storage out + hm_storage_size out \<and>
     valid_utf8 (hs_value s) \<and> (\<not> hs_utf16 s \<longrightarrow> hs_value s = take (hs_length s) (drop (hs_offset s) data))"

lemmas string_ok_parts = string_ok_def string_entry_def entry_place_def

lemma string_place_stage:
  assumes "hm_placed data lay out" and "length (fst used) = hm_overflow_count out"
  shows "meets hm_no (\<lambda>(off, len, used'). length (fst used') = hm_overflow_count out \<and> (off, len) = entry_place data out word)
    (string_place data out entry word used)"
proof -
  obtain seen observed where used: "used = (seen, observed)" by (cases used)
  let ?off = "word div 2 mod 2 ^ 23"
  have cut: "drop_bit 1 word AND 0x7fffff = ?off" "drop_bit 24 word = word div 2 ^ 24"
    by (simp_all add: packed_fields drop_bit_eq_div)
  have reads: "hm_u32 data (hm_overflow_table out + ?off * 8) = Some (le_at data (hm_overflow_table out + ?off * 8) 4)"
      "hm_u32 data (hm_overflow_table out + ?off * 8 + 4) = Some (le_at data (hm_overflow_table out + ?off * 8 + 4) 4)"
    if "?off < hm_overflow_count out"
  proof -
    have "hm_overflow_table out + ?off * 8 + 8 \<le> length data" by (rule table_entry [OF placedD(4) [OF assms(1)] that])
    then show "hm_u32 data (hm_overflow_table out + ?off * 8) = Some (le_at data (hm_overflow_table out + ?off * 8) 4)"
      "hm_u32 data (hm_overflow_table out + ?off * 8 + 4) = Some (le_at data (hm_overflow_table out + ?off * 8 + 4) 4)"
      by (simp_all add: hm_u32_at)
  qed
  show ?thesis
    unfolding string_place_def used prod.case cut Let_def entry_place_def
    using assms(2) reads by (auto simp: used flag_at_def not_le)
qed

lemma string_value_stage:
  assumes "hm_no out"
  shows "meets hm_no (\<lambda>v. valid_utf8 v \<and> retained + length v \<le> max_decoded_bytes \<and> (\<not> utf16 \<longrightarrow> v = text))
    (string_value out entry utf16 text retained)"
proof (cases "max_decoded_bytes < retained")
  case True
  then show ?thesis using assms by (simp add: string_value_def)
next
  case False
  have ok: "valid_utf8 v \<and> retained + length v \<le> max_decoded_bytes"
    if "decode_utf16 text (max_decoded_bytes - retained) = Utf16Ok v" for v
    using decode_utf16_valid [OF that] False by linarith
  show ?thesis
    using False assms ok by (cases "decode_utf16 text (max_decoded_bytes - retained)")
      (auto simp: string_value_def Let_def hermes_valid_utf8_eq)
qed

definition decoded_bytes :: "hermes_string list \<Rightarrow> nat" where
  "decoded_bytes ss = sum_list (map (\<lambda>s. length (hs_value s)) ss)"

definition strings_ok :: "bytes \<Rightarrow> bool list \<Rightarrow> hermes_info \<Rightarrow> hermes_string list \<Rightarrow> bool" where
  "strings_ok data flags out ss \<longleftrightarrow>
     map hs_index ss = [0..<length ss] \<and> map hs_identifier ss = take (length ss) flags \<and>
     (\<forall>s \<in> set ss. string_ok data out s) \<and> decoded_bytes ss \<le> max_decoded_bytes"

lemma string_loop_stage:
  assumes placed: "hm_placed data lay out" and no: "hm_no out" and flags: "length flags = hm_string_count out"
    and "k \<le> hm_string_count out" and "length ss = k" and "strings_ok data flags out ss"
    and "length (fst used) = hm_overflow_count out"
  shows "meets hm_no (\<lambda>(observed, retained, out'). \<exists>ss'. out' = out\<lparr>hm_strings := ss'\<rparr> \<and>
      length ss' = hm_string_count out \<and> strings_ok data flags out ss' \<and> retained = decoded_bytes ss')
    (string_loop data flags [k..<hm_string_count out] used (decoded_bytes ss) (out\<lparr>hm_strings := ss\<rparr>))"
  using assms(4-)
proof (induction "hm_string_count out - k" arbitrary: k ss used)
  case 0
  then have "[k..<hm_string_count out] = []" "k = hm_string_count out" by simp_all
  then show ?case using 0(3,4) by (simp only: string_loop.simps meets_simps prod.case) blast
next
  case (Suc d)
  let ?n = "hm_string_count out" and ?out = "out\<lparr>hm_strings := ss\<rparr>"
  have less: "k < ?n" and split: "[k..<?n] = k # [Suc k..<?n]" using Suc.hyps(2) by (simp_all add: upt_rec)
  let ?entry = "hm_string_table out + k * 4"
  have "?entry + 4 \<le> length data" by (rule table_entry [OF placedD(3) [OF placed] less])
  then have read: "hm_u32 data ?entry = Some (le_at data ?entry 4)" by (simp add: hm_u32_at)
  let ?w = "le_at data ?entry 4"
  define u where "u = (?w AND 1 \<noteq> 0)"
  have u: "u \<longleftrightarrow> odd ?w" by (simp only: u_def packed_flags)
  have no': "hm_no ?out" and placed': "hm_placed data lay ?out" using no placed by (simp_all add: hm_no_def)
  have flag: "flag_at flags k = Some (flags ! k)" using flags less by (simp add: flag_at_def)
  have next_stage: "meets hm_no (\<lambda>(observed, retained, out'). \<exists>ss'. out' = out\<lparr>hm_strings := ss'\<rparr> \<and>
      length ss' = ?n \<and> strings_ok data flags out ss' \<and> retained = decoded_bytes ss')
    (string_loop data flags [Suc k..<?n] used' (decoded_bytes ss + length v)
      (?out\<lparr>hm_strings := hm_strings ?out @
        [\<lparr>hs_index = k, hs_offset = hm_storage ?out + off, hs_length = len, hs_utf16 = u,
          hs_identifier = flags ! k, hs_value = v\<rparr>]\<rparr>))"
    if used': "length (fst used') = hm_overflow_count out" and place: "(off, len) = entry_place data out ?w" and room: "off + len * (if u then 2 else 1) \<le> hm_storage_size out"
      and v: "valid_utf8 v" "decoded_bytes ss + length v \<le> max_decoded_bytes"
        "\<not> u \<longrightarrow> v = take (len * (if u then 2 else 1)) (drop (hm_storage out + off) data)" for off len used' v
  proof -
    let ?s = "\<lparr>hs_index = k, hs_offset = hm_storage out + off, hs_length = len, hs_utf16 = u,
      hs_identifier = flags ! k, hs_value = v\<rparr>"
    have sum: "decoded_bytes (ss @ [?s]) = decoded_bytes ss + length v" by (simp add: decoded_bytes_def)
    have "fst (entry_place data out ?w) = off" "snd (entry_place data out ?w) = len" by (simp_all add: place [symmetric])
    then have "string_ok data out ?s" using room v(1,3) u by (simp add: string_ok_def string_entry_def Let_def)
    then have "strings_ok data flags out (ss @ [?s])"
      using Suc.prems(2,3) v(2) less flags by (simp add: strings_ok_def sum take_Suc_conv_app_nth)
    from Suc.hyps(1) [OF _ _ _ this used', of "Suc k"] show ?thesis
      using Suc.hyps(2) less Suc.prems(2) by (simp add: sum)
  qed
  have sels: "hm_string_table ?out = hm_string_table out" "hm_storage_size ?out = hm_storage_size out"
      "hm_storage ?out = hm_storage out" "hm_strings ?out = ss" "?out\<lparr>hm_strings := ss'\<rparr> = out\<lparr>hm_strings := ss'\<rparr>" for ss'
    by simp_all
  have same: "entry_place data ?out w = entry_place data out w" for w by (simp add: entry_place_def)
  have place: "meets hm_no (\<lambda>(off, len, used'). length (fst used') = hm_overflow_count out \<and> (off, len) = entry_place data out ?w)
      (string_place data ?out ?entry ?w used)"
    using string_place_stage [OF placed', of used ?w ?entry] Suc.prems(4) unfolding same by simp
  show ?case
    unfolding split string_loop.simps Let_def
    apply (simp only: sels read access_Some step_simps)
    unfolding u_def [symmetric]
    apply (rule iffD2 [OF meets_step], rule meets_mono [OF place], assumption)
    subgoal for a
    proof (cases a)
      case (fields off len used')
      assume used': "case a of (off, len, used') \<Rightarrow> length (fst used') = hm_overflow_count out \<and> (off, len) = entry_place data out ?w"
      let ?len = "len * (if u then 2 else 1)"
      show ?thesis
      proof (cases "hm_storage_size out < off \<or> hm_storage_size out - off < ?len")
        case True
        then show ?thesis by (simp add: fields)
      next
        case False
        then have room: "off + ?len \<le> hm_storage_size out" by linarith
        then have "subspan data (hm_storage out + off) ?len = Some (take ?len (drop (hm_storage out + off) data))"
          using placedD(5) [OF placed] by (simp add: subspan_Some)
        then show ?thesis
          using False apply (simp only: fields prod.case flag access_Some step_simps if_False)
          apply (rule iffD2 [OF meets_step], rule meets_mono [OF string_value_stage [OF no']], assumption)
          apply (rule next_stage [unfolded sels])
              apply (use used' in \<open>simp add: fields\<close>)
             apply (use used' in \<open>simp add: fields\<close>)
            apply (rule room)
           apply simp_all
          done
      qed
    qed
    done
qed

lemma strings_stage:
  assumes "hm_placed data lay out" and "hm_no out" and "length flags = hm_string_count out" and "hm_strings out = []"
  shows "meets hm_no (\<lambda>(retained, out'). \<exists>ss. out' = out\<lparr>hm_strings := ss\<rparr> \<and>
      length ss = hm_string_count out \<and> strings_ok data flags out ss) (hm_read_strings data flags out)"
proof -
  let ?P = "\<lambda>(observed :: nat, retained, out'). \<exists>ss'. out' = out\<lparr>hm_strings := ss'\<rparr> \<and>
      length ss' = hm_string_count out \<and> strings_ok data flags out ss' \<and> retained = decoded_bytes ss'"
  have same: "out\<lparr>hm_strings := []\<rparr> = out" using assms(4) by simp
  have empty: "decoded_bytes [] = 0" "strings_ok data flags out []" by (simp_all add: decoded_bytes_def strings_ok_def)
  have loop: "meets hm_no ?P (string_loop data flags [0..<hm_string_count out] (replicate (hm_overflow_count out) False, 0) 0 out)"
    using string_loop_stage [OF assms(1-3), of 0 "[]" "(replicate (hm_overflow_count out) False, 0)"] empty
    by (simp add: same)
  show ?thesis unfolding hm_read_strings_def meets_step
  proof (rule meets_mono [OF loop], assumption)
    fix a
    assume "?P a"
    then show "meets hm_no (\<lambda>(retained, out'). \<exists>ss. out' = out\<lparr>hm_strings := ss\<rparr> \<and>
        length ss = hm_string_count out \<and> strings_ok data flags out ss)
      (case a of (observed, retained, out') \<Rightarrow>
        if observed \<noteq> hm_overflow_count out' then hm_fail out' (hm_overflow_table out') OverflowUnreferenced
        else pass (retained, out'))"
      by (cases a) auto
  qed
qed

subsection \<open>Functions\<close>

text \<open>
  The header of a function: packed words in the function table (16 bytes in versions 89 and 96, 12 in
  version 98), or, when bit 5 of the flag byte is set, the large header that the packed words point to.
\<close>

definition flag_fields :: "bytes \<Rightarrow> nat \<Rightarrow> hermes_function \<Rightarrow> bool" where
  "flag_fields data p f \<longleftrightarrow>
     (let flags = le_at data p 1 in
      hf_strict f = odd (flags div 4) \<and> hf_handler f = odd (flags div 8) \<and> hf_debug f = odd (flags div 16))"

definition legacy_small_fields :: "bytes \<Rightarrow> nat \<Rightarrow> hermes_function \<Rightarrow> bool" where
  "legacy_small_fields data p f \<longleftrightarrow>
     (let w1 = le_at data p 4; w2 = le_at data (p + 4) 4; w3 = le_at data (p + 8) 4 in
      hf_header f = p \<and> hf_offset f = w1 mod 2 ^ 25 \<and> hf_params f = w1 div 2 ^ 25 \<and>
      hf_size f = w2 mod 2 ^ 15 \<and> hf_name_id f = w2 div 2 ^ 15 \<and>
      hf_info f = w3 mod 2 ^ 25 \<and> hf_frame f = w3 div 2 ^ 25 \<and> hf_environment f = le_at data (p + 12) 1 \<and>
      flag_fields data (p + 15) f)"

definition legacy_large_fields :: "bytes \<Rightarrow> nat \<Rightarrow> hermes_function \<Rightarrow> bool" where
  "legacy_large_fields data p f \<longleftrightarrow>
     hf_header f = p \<and> hf_offset f = le_at data p 4 \<and> hf_params f = le_at data (p + 4) 4 \<and>
     hf_size f = le_at data (p + 8) 4 \<and> hf_name_id f = le_at data (p + 12) 4 \<and>
     hf_info f = p \<and> le_at data (p + 16) 4 = p \<and> hf_frame f = le_at data (p + 20) 4 \<and>
     hf_environment f = le_at data (p + 24) 4 \<and> flag_fields data (p + 30) f"

definition v98_small_fields :: "bytes \<Rightarrow> nat \<Rightarrow> hermes_function \<Rightarrow> bool" where
  "v98_small_fields data p f \<longleftrightarrow>
     (let w1 = le_at data p 4; w2 = le_at data (p + 4) 4 in
      hf_header f = p \<and> hf_offset f = w1 mod 2 ^ 25 \<and> hf_params f = w1 div 2 ^ 25 mod 2 ^ 5 \<and>
      hf_size f = w2 mod 2 ^ 14 \<and> hf_name_id f = w2 div 2 ^ 14 mod 2 ^ 8 \<and>
      hf_info f = 0 \<and> hf_frame f = le_at data (p + 8) 1 \<and> hf_environment f = 0 \<and> flag_fields data (p + 11) f)"

definition v98_large_fields :: "bytes \<Rightarrow> nat \<Rightarrow> hermes_function \<Rightarrow> bool" where
  "v98_large_fields data p f \<longleftrightarrow>
     hf_header f = p \<and> hf_offset f = le_at data p 4 \<and> hf_params f = le_at data (p + 4) 4 \<and>
     hf_size f = le_at data (p + 12) 4 \<and> hf_name_id f = le_at data (p + 16) 4 \<and> hf_info f = p \<and>
     hf_frame f = le_at data (p + 28) 4 \<and> hf_environment f = 0 \<and> flag_fields data (p + 36) f"

definition legacy_pointer :: "bytes \<Rightarrow> nat \<Rightarrow> nat" where
  "legacy_pointer data p = le_at data (p + 8) 4 mod 2 ^ 25 * 2 ^ 16 + le_at data p 4 mod 2 ^ 16"

definition v98_pointer :: "bytes \<Rightarrow> nat \<Rightarrow> nat" where
  "v98_pointer data p = (le_at data p 4 mod 2 ^ 25) OR (le_at data (p + 4) 4 div 2 ^ 14 mod 2 ^ 8 * 2 ^ 24)"

definition fn_header :: "bytes \<Rightarrow> nat \<Rightarrow> nat \<Rightarrow> hermes_function \<Rightarrow> bool" where
  "fn_header data v table f \<longleftrightarrow>
     (if v < 98 then
        let p = table + hf_index f * 16 in
        hf_overflow f = odd (le_at data (p + 15) 1 div 32) \<and>
        (if hf_overflow f then legacy_large_fields data (legacy_pointer data p) f else legacy_small_fields data p f)
      else
        let p = table + hf_index f * 12 in
        hf_overflow f = odd (le_at data (p + 11) 1 div 32) \<and>
        (if hf_overflow f then v98_large_fields data (v98_pointer data p) f else v98_small_fields data p f))"

lemmas fn_header_parts = fn_header_def legacy_small_fields_def legacy_large_fields_def v98_small_fields_def
  v98_large_fields_def flag_fields_def

definition fn_ok :: "bytes \<Rightarrow> hermes_info \<Rightarrow> hermes_function \<Rightarrow> bool" where
  "fn_ok data out f \<longleftrightarrow> fn_header data (hm_version out) (hm_function_table out) f \<and>
     hm_code_begin out \<le> hf_offset f \<and> hf_offset f + hf_size f \<le> length data - 20 \<and>
     hf_name_id f < length (hm_strings out) \<and> hf_name f = hs_value (hm_strings out ! hf_name_id f)"

definition body :: "hermes_function \<Rightarrow> nat \<times> nat" where
  "body f = (hf_offset f, hf_offset f + hf_size f)"

definition body_row :: "hermes_function \<Rightarrow> nat \<times> nat \<times> nat" where
  "body_row f = (hf_offset f, hf_offset f + hf_size f, hf_index f)"

definition with_flags :: "hermes_function \<Rightarrow> nat \<Rightarrow> hermes_function" where
  "with_flags f flags = f\<lparr>hf_strict := flags AND 0x04 \<noteq> 0, hf_handler := flags AND 0x08 \<noteq> 0, hf_debug := flags AND 0x10 \<noteq> 0\<rparr>"

lemma with_flags_fields: "flag_fields data p (with_flags f (le_at data p 1))"
  by (simp only: flag_fields_def with_flags_def Let_def packed_flags) simp

lemma legacy_large_stage:
  assumes "p + 31 \<le> length data" and "hf_overflow f"
  shows "meets hm_no (\<lambda>(f', flags). hf_index f' = hf_index f \<and> hf_overflow f' \<and>
      legacy_large_fields data p (with_flags f' flags)) (legacy_large data out f small p)"
  using assms with_flags_fields
  by (simp add: legacy_large_def hm_u32_Some byte_at_field legacy_large_fields_def) (simp add: with_flags_def)

lemma v1_large_stage:
  assumes "p + 37 \<le> length data" and "hf_overflow f" and "hf_environment f = 0"
  shows "meets hm_no (\<lambda>(f', flags). hf_index f' = hf_index f \<and> hf_overflow f' \<and>
      v98_large_fields data p (with_flags f' flags)) (v1_large data f p)"
  using assms with_flags_fields
  by (simp add: v1_large_def hm_u32_Some byte_at_field v98_large_fields_def) (simp add: with_flags_def)

lemma legacy_header_stage:
  assumes room: "p + 16 \<le> length data" and large: "lay_large lay = 31"
  shows "meets hm_no (\<lambda>(f, flags). hf_index f = i \<and> hf_overflow f = odd (le_at data (p + 15) 1 div 32) \<and>
      (if hf_overflow f then legacy_large_fields data (legacy_pointer data p) (with_flags f flags)
       else legacy_small_fields data p (with_flags f flags)))
    (legacy_header data lay out i p)"
proof -
  let ?w1 = "le_at data p 4" and ?w3 = "le_at data (p + 8) 4" and ?flags = "le_at data (p + 15) 1"
  let ?f = "(empty_function i p)\<lparr>hf_overflow := odd (?flags div 32)\<rparr>"
  have reads: "hm_u32 data p = Some ?w1" "hm_u32 data (p + 4) = Some (le_at data (p + 4) 4)" "hm_u32 data (p + 8) = Some ?w3"
      "byte_at data (p + 15) = Some ?flags" "byte_at data (p + 12) = Some (le_at data (p + 12) 1)"
    using room by (simp_all add: hm_u32_Some byte_at_field)
  have pointer: "push_bit 16 (?w3 AND 0x01ffffff) OR (?w1 AND 0xffff) = legacy_pointer data p"
    using or_push_bit_nat [of "?w1 mod 2 ^ 16" 16 "?w3 mod 2 ^ 25"]
    by (simp add: packed_fields legacy_pointer_def or.commute [of "push_bit 16 x" y for x y] add.commute mult.commute)
  show ?thesis
  proof (cases "odd (?flags div 32)")
    case True
    have big: "meets hm_no (\<lambda>(f', flags). hf_index f' = hf_index ?f \<and> hf_overflow f' \<and>
        legacy_large_fields data (legacy_pointer data p) (with_flags f' flags)) (legacy_large data out ?f p (legacy_pointer data p))"
      if "\<not> length data - footer_bytes < legacy_pointer data p + 31"
      by (rule legacy_large_stage) (use that True in \<open>simp_all add: footer_bytes_def\<close>)
    have run: "legacy_header data lay out i p =
        (if ?w1 AND 0x01ff0000 \<noteq> 0 \<or> length data - footer_bytes < legacy_pointer data p + 31 then hm_fail out p LegacyPointer
         else legacy_large data out ?f p (legacy_pointer data p))"
      unfolding legacy_header_def Let_def reads access_Some step_simps pointer packed_flags large
      using True by (simp add: empty_function_def)
    show ?thesis
    proof (cases "?w1 AND 0x01ff0000 \<noteq> 0 \<or> length data - footer_bytes < legacy_pointer data p + 31")
      case refused: True
      then show ?thesis unfolding run by simp
    next
      case False
      then have room: "\<not> length data - footer_bytes < legacy_pointer data p + 31" by simp
      show ?thesis unfolding run if_not_P [OF False]
        by (rule meets_mono [OF big [OF room]], assumption) (use True in \<open>auto simp: empty_function_def\<close>)
    qed
  next
    case False
    then show ?thesis
      unfolding legacy_header_def Let_def reads access_Some step_simps pointer packed_flags large
      using with_flags_fields [of data "p + 15"]
      by (simp add: empty_function_def legacy_small_fields_def packed_fields drop_bit_eq_div) (simp add: with_flags_def)
  qed
qed

lemma v1_header_stage:
  assumes room: "p + 12 \<le> length data" and large: "lay_large lay = 37"
  shows "meets hm_no (\<lambda>(f, flags). hf_index f = i \<and> hf_overflow f = odd (le_at data (p + 11) 1 div 32) \<and>
      (if hf_overflow f then v98_large_fields data (v98_pointer data p) (with_flags f flags)
       else v98_small_fields data p (with_flags f flags)))
    (v1_header data lay out i p)"
proof -
  let ?w1 = "le_at data p 4" and ?w2 = "le_at data (p + 4) 4" and ?flags = "le_at data (p + 11) 1"
  let ?f = "(empty_function i p)\<lparr>hf_overflow := odd (?flags div 32)\<rparr>"
  have reads: "hm_u32 data p = Some ?w1" "hm_u32 data (p + 4) = Some ?w2"
      "byte_at data (p + 11) = Some ?flags" "byte_at data (p + 8) = Some (le_at data (p + 8) 1)"
    using room by (simp_all add: hm_u32_Some byte_at_field)
  have pointer: "(?w1 AND 0x01ffffff) OR push_bit 24 (drop_bit 14 ?w2 AND 0xff) = v98_pointer data p"
    by (simp add: packed_fields v98_pointer_def drop_bit_eq_div push_bit_eq_mult)
  show ?thesis
  proof (cases "odd (?flags div 32)")
    case True
    have big: "meets hm_no (\<lambda>(f', flags). hf_index f' = hf_index ?f \<and> hf_overflow f' \<and>
        v98_large_fields data (v98_pointer data p) (with_flags f' flags)) (v1_large data ?f (v98_pointer data p))"
      if "\<not> length data - footer_bytes < v98_pointer data p + 37"
      by (rule v1_large_stage) (use that True in \<open>simp_all add: footer_bytes_def empty_function_def\<close>)
    have run: "v1_header data lay out i p =
        (if length data - footer_bytes < v98_pointer data p + 37 then hm_fail out p V1Pointer
         else v1_large data ?f (v98_pointer data p))"
      unfolding v1_header_def Let_def reads access_Some step_simps pointer packed_flags large
      using True by (simp add: empty_function_def)
    show ?thesis
    proof (cases "length data - footer_bytes < v98_pointer data p + 37")
      case refused: True
      then show ?thesis unfolding run by simp
    next
      case False
      then have room: "\<not> length data - footer_bytes < v98_pointer data p + 37" by simp
      show ?thesis unfolding run if_not_P [OF False]
        by (rule meets_mono [OF big [OF room]], assumption) (use True in \<open>auto simp: empty_function_def\<close>)
    qed
  next
    case False
    then show ?thesis
      unfolding v1_header_def Let_def reads access_Some step_simps pointer packed_flags large
      using with_flags_fields [of data "p + 11"]
      by (simp add: empty_function_def v98_small_fields_def packed_fields drop_bit_eq_div) (simp add: with_flags_def)
  qed
qed

lemma read_header_stage:
  assumes lay: "layout_for tables (hm_version out) = Some lay" and placed: "hm_placed data lay out"
    and i: "i < hm_function_count out"
  shows "meets hm_no (\<lambda>f. hf_index f = i \<and> fn_header data (hm_version out) (hm_function_table out) f) (read_header data lay out i)"
proof -
  have room: "hm_function_table out + i * lay_small lay + lay_small lay \<le> length data"
    by (rule table_entry [OF placedD(1) [OF placed] i])
  have flags: "f\<lparr>hf_strict := n AND 0x04 \<noteq> 0, hf_handler := n AND 0x08 \<noteq> 0, hf_debug := n AND 0x10 \<noteq> 0\<rparr> = with_flags f n" for f n
    by (simp add: with_flags_def)
  have kept: "hf_index (with_flags f n) = hf_index f" "hf_overflow (with_flags f n) = hf_overflow f" for f n
    by (simp_all add: with_flags_def)
  show ?thesis
  proof (cases "hm_version out < 98")
    case True
    then have sizes: "lay_small lay = 16" "lay_large lay = 31" using layout_bounds(5) [OF lay] by simp_all
    show ?thesis
      unfolding read_header_def Let_def flags meets_step if_P [OF True] sizes(1)
      by (rule meets_mono [OF legacy_header_stage [OF room [unfolded sizes(1)] sizes(2)]], assumption)
        (auto simp: fn_header_def True kept)
  next
    case False
    then have sizes: "lay_small lay = 12" "lay_large lay = 37" using layout_bounds(6) [OF lay] by simp_all
    show ?thesis
      unfolding read_header_def Let_def flags meets_step if_not_P [OF False] sizes(1)
      by (rule meets_mono [OF v1_header_stage [OF room [unfolded sizes(1)] sizes(2)]], assumption)
        (auto simp: fn_header_def False kept)
  qed
qed

lemma check_function_stage:
  assumes "hm_no out" and "hf_index f = i \<and> fn_header data (hm_version out) (hm_function_table out) f"
  shows "meets hm_no (\<lambda>(f', retained', e). hf_index f' = i \<and> fn_ok data out f' \<and> e = hf_offset f' + hf_size f')
    (check_function data out f retained)"
proof -
  have "fn_header data v t (f\<lparr>hf_name := n\<rparr>) = fn_header data v t f" for v t n by (simp add: fn_header_parts)
  then show ?thesis
    using assms by (auto simp: check_function_def Let_def add_size_Some fn_ok_def footer_bytes_def not_le split: option.split)
qed

text \<open>The result with functions and budget flag set.\<close>

abbreviation with_functions :: "hermes_info \<Rightarrow> hermes_function list \<Rightarrow> bool \<Rightarrow> hermes_info" where
  "with_functions out fs b \<equiv> out\<lparr>hm_functions := fs, hm_budget_limited := b\<rparr>"

lemma function_loop_stage:
  assumes lay: "layout_for tables (hm_version out) = Some lay" and placed: "hm_placed data lay out" and no: "hm_no out"
    and "k \<le> hm_function_count out" and "map hf_index fs = [0..<k]" and "\<forall>f \<in> set fs. fn_ok data out f"
  shows "meets hm_no (\<lambda>(ranges, out'). \<exists>fs' b'. out' = with_functions out fs' b' \<and>
      map hf_index fs' = [0..<hm_function_count out] \<and> (\<forall>f \<in> set fs'. fn_ok data out f) \<and> ranges = map body_row fs')
    (function_loop data lay [k..<hm_function_count out] retained opcode_bytes (map body_row fs) (with_functions out fs b))"
  using assms(4-)
proof (induction "hm_function_count out - k" arbitrary: k fs b retained opcode_bytes)
  case 0
  then have "[k..<hm_function_count out] = []" "k = hm_function_count out" by simp_all
  then show ?case using 0(3,4) by (simp only: function_loop.simps meets_simps prod.case) blast
next
  case (Suc d)
  let ?n = "hm_function_count out" and ?out = "with_functions out fs b"
  have less: "k < ?n" and split: "[k..<?n] = k # [Suc k..<?n]" using Suc.hyps(2) by (simp_all add: upt_rec)
  have no': "hm_no ?out" and placed': "hm_placed data lay ?out" and ver: "hm_version ?out = hm_version out"
      and cnt: "hm_function_count ?out = ?n" and ok_out: "fn_ok data ?out f = fn_ok data out f" for f
    using no placed by (simp_all add: hm_no_def fn_ok_def)
  have rest: "meets hm_no (\<lambda>(ranges, out'). \<exists>fs' b'. out' = with_functions out fs' b' \<and>
      map hf_index fs' = [0..<?n] \<and> (\<forall>f \<in> set fs'. fn_ok data out f) \<and> ranges = map body_row fs')
    (function_loop data lay [Suc k..<?n] retained' bytes' (map body_row fs @ [(hf_offset f, e, k)])
      (out1\<lparr>hm_functions := hm_functions out1 @ [f]\<rparr>))"
    if f: "hf_index f = k" "fn_ok data out f" "e = hf_offset f + hf_size f"
      and out1: "out1 = (if over then ?out\<lparr>hm_budget_limited := True\<rparr> else ?out)" for f e retained' bytes' out1 over
  proof -
    have "out1\<lparr>hm_functions := hm_functions out1 @ [f]\<rparr> = with_functions out (fs @ [f]) (b \<or> over)" by (simp add: out1)
    moreover have "map body_row fs @ [(hf_offset f, e, k)] = map body_row (fs @ [f])" using f by (simp add: body_row_def)
    ultimately show ?thesis
      using Suc.hyps(1) [of "Suc k" "fs @ [f]" retained' bytes' "b \<or> over"] Suc.hyps(2) less Suc.prems f by simp
  qed
  show ?case
    unfolding split function_loop.simps
    apply (rule iffD2 [OF meets_step], rule meets_mono [OF read_header_stage [where tables = tables and i = k]])
        apply (simp only: ver lay)
       apply (rule placed')
      apply (simp only: cnt less)
     apply assumption
    apply (rule iffD2 [OF meets_step], rule meets_mono [OF check_function_stage [OF no']], assumption, assumption)
    subgoal for f0 a
      using rest [where over = "max_opcode_bytes < opcode_bytes \<or> max_opcode_bytes - opcode_bytes < hf_size (fst a)"]
      apply (cases a)
      apply (simp only: prod.case Let_def ok_out fst_conv)
      done
    done
qed

text \<open>Two bodies are the same range, or the first ends before the second begins.\<close>

definition row_before :: "nat \<times> nat \<times> nat \<Rightarrow> nat \<times> nat \<times> nat \<Rightarrow> bool" where
  "row_before r r' \<longleftrightarrow> (fst r = fst r' \<and> fst (snd r) = fst (snd r')) \<or> fst (snd r) \<le> fst r'"

lemma row_before_trans:
  "row_before p r \<Longrightarrow> row_before r r' \<Longrightarrow> fst r \<le> fst (snd r) \<Longrightarrow> row_before p r'"
  by (auto simp: row_before_def)

lemma row_before_chain:
  assumes "row_before p r" and "sorted_wrt row_before (r # rest)" and "fst r \<le> fst (snd r)"
  shows "sorted_wrt row_before (p # r # rest)"
  using assms row_before_trans [OF assms(1)] by auto

lemma body_loop_stage:
  assumes "hm_no out" and "\<forall>r \<in> set rows. fst r \<le> fst (snd r) \<and> fst (snd r) \<le> m" and "hm_code_end out \<le> m"
  shows "meets hm_no (\<lambda>out'. \<exists>c d. out' = out\<lparr>hm_code_end := c, hm_deduplicated := d\<rparr> \<and> c \<le> m \<and>
      hm_code_end out \<le> c \<and> (\<forall>r \<in> set rows. fst (snd r) \<le> c) \<and>
      sorted_wrt row_before (case previous of None \<Rightarrow> rows | Some p \<Rightarrow> p # rows)) (body_loop previous rows out)"
  using assms
proof (induction previous rows out rule: body_loop.induct)
  case (1 previous out)
  have same: "out = out\<lparr>hm_code_end := hm_code_end out, hm_deduplicated := hm_deduplicated out\<rparr>" by simp
  have "sorted_wrt row_before (case previous of None \<Rightarrow> [] | Some p \<Rightarrow> [p])" by (simp split: option.split)
  then show ?case unfolding body_loop.simps meets_simps
    by (intro exI [of _ "hm_code_end out"] exI [of _ "hm_deduplicated out"] conjI same 1(3) order_refl)
      simp_all
next
  case (2 previous b e i rest out)
  let ?out1 = "out\<lparr>hm_code_end := max (hm_code_end out) e\<rparr>"
  let ?post = "\<lambda>out0 previous rows out'. \<exists>c d. out' = out0\<lparr>hm_code_end := c, hm_deduplicated := d\<rparr> \<and> c \<le> m \<and>
      hm_code_end out0 \<le> c \<and> (\<forall>r \<in> set rows. fst (snd r) \<le> c) \<and>
      sorted_wrt row_before (case previous of None \<Rightarrow> rows | Some p \<Rightarrow> p # rows)"
  have no: "hm_no ?out1" "hm_no (?out1\<lparr>hm_deduplicated := d\<rparr>)" for d using 2(4) by (simp_all add: hm_no_def)
  have rows: "\<forall>r \<in> set rest. fst r \<le> fst (snd r) \<and> fst (snd r) \<le> m" and bounds: "b \<le> e" "e \<le> m" and m: "max (hm_code_end out) e \<le> m"
    using 2(5,6) by simp_all
  have lift: "?post out previous ((b, e, i) # rest) out'"
    if post: "?post out0 (Some (b, e, i)) rest out'" and out0: "\<exists>d. out0 = ?out1\<lparr>hm_deduplicated := d\<rparr>"
      and before: "\<And>p. previous = Some p \<Longrightarrow> row_before p (b, e, i)" for out0 out'
  proof -
    obtain c d where c: "out' = out0\<lparr>hm_code_end := c, hm_deduplicated := d\<rparr>" "c \<le> m" "hm_code_end out0 \<le> c"
        "\<forall>r \<in> set rest. fst (snd r) \<le> c" "sorted_wrt row_before ((b, e, i) # rest)"
      using post by auto
    obtain d0 where d0: "out0 = ?out1\<lparr>hm_deduplicated := d0\<rparr>" using out0 by blast
    have eq: "out' = out\<lparr>hm_code_end := c, hm_deduplicated := d\<rparr>" unfolding c(1) d0 by simp
    have ge: "hm_code_end out \<le> c" "e \<le> c" using c(3) d0 by simp_all
    have "sorted_wrt row_before (p # (b, e, i) # rest)" if "previous = Some p" for p
      using row_before_chain [OF before [OF that] c(5)] bounds by simp
    then have chain: "sorted_wrt row_before (case previous of None \<Rightarrow> (b, e, i) # rest | Some p \<Rightarrow> p # (b, e, i) # rest)"
      using c(5) by (simp split: option.split)
    have all: "\<forall>r \<in> set ((b, e, i) # rest). fst (snd r) \<le> c" using c(4) ge(2) by simp
    show ?thesis by (rule exI [of _ c], rule exI [of _ d], intro conjI eq c(2) ge(1) all chain)
  qed
  have plain: "\<exists>d. ?out1 = ?out1\<lparr>hm_deduplicated := d\<rparr>" by (rule exI [of _ "hm_deduplicated ?out1"]) simp
  have m1: "hm_code_end ?out1 \<le> m" and m2: "hm_code_end (?out1\<lparr>hm_deduplicated := d\<rparr>) \<le> m" for d using m by simp_all
  show ?case
  proof (cases previous)
    case None
    then have run: "body_loop previous ((b, e, i) # rest) out = body_loop (Some (b, e, i)) rest ?out1" by (simp add: Let_def)
    show ?thesis unfolding run
      by (rule meets_mono [OF 2(1) [OF refl None no(1) rows m1]], assumption, rule lift [OF _ plain], assumption)
        (simp add: None)
  next
    case (Some p)
    obtain b' e' i' where p: "p = (b', e', i')" by (cases p)
    consider "e' \<le> b" | "\<not> e' \<le> b" "b = b' \<and> e = e'" | "\<not> e' \<le> b" "\<not> (b = b' \<and> e = e')" by blast
    then show ?thesis
    proof cases
      case 1
      then have run: "body_loop previous ((b, e, i) # rest) out = body_loop (Some (b, e, i)) rest ?out1"
        by (simp add: Let_def Some p)
      have before: "row_before p (b, e, i)" using 1 by (simp add: row_before_def p)
      show ?thesis unfolding run
        by (rule meets_mono [OF 2(2) [OF refl Some p [symmetric] refl 1 no(1) rows m1]], assumption, rule lift [OF _ plain], assumption)
          (use before Some in \<open>simp\<close>)
    next
      case 2
      let ?out2 = "?out1\<lparr>hm_deduplicated := hm_deduplicated ?out1 + 1\<rparr>"
      have run: "body_loop previous ((b, e, i) # rest) out = body_loop (Some (b, e, i)) rest ?out2"
        using 2 by (simp add: Let_def Some p)
      have before: "row_before p (b, e, i)" using 2 by (simp add: row_before_def p)
      show ?thesis unfolding run
        by (rule meets_mono [OF "2.IH"(3) [OF refl Some p [symmetric] refl 2(1,2) no(2) rows m2]], assumption, rule lift, assumption)
          (use before Some in \<open>auto\<close>)
    next
      case 3
      have "(e' \<le> b) = False" "(b = b' \<and> e = e') = False" using 3 by simp_all
      then show ?thesis unfolding body_loop.simps Let_def Some p by (simp only: option.case prod.case if_False hm_no_stops)
    qed
  qed
qed

definition info_ok :: "nat \<Rightarrow> nat \<Rightarrow> hermes_function \<Rightarrow> bool" where
  "info_ok c debug f \<longleftrightarrow> (hf_info f \<noteq> 0 \<longrightarrow> c \<le> hf_info f \<and> hf_info f < debug)"

lemma info_loop_stage:
  "meets hm_no (\<lambda>out'. out' = out \<and> (\<forall>f \<in> set fs. info_ok (hm_code_end out) debug f)) (info_loop lay debug fs out)"
  by (induction fs) (auto simp: info_ok_def elim!: meets_mono)

text \<open>Bodies that are shared or apart, whatever the order of the functions.\<close>

definition shared_or_apart :: "hermes_function \<Rightarrow> hermes_function \<Rightarrow> bool" where
  "shared_or_apart f g \<longleftrightarrow> body f = body g \<or> apart (body f) (body g)"

lemma rows_shared_or_apart:
  assumes "sorted_wrt row_before (sort (map body_row fs))"
  shows "sorted_wrt shared_or_apart fs"
proof -
  let ?R = "\<lambda>r r'. row_before r r' \<or> row_before r' r"
  have "sorted_wrt ?R (sort (map body_row fs))" by (rule sorted_wrt_mono_rel [OF _ assms]) simp
  moreover have "sorted_wrt ?R (sort (map body_row fs)) = sorted_wrt ?R (map body_row fs)"
    by (rule sorted_wrt_symmetric) auto
  ultimately have "sorted_wrt (\<lambda>f g. ?R (body_row f) (body_row g)) fs" by (simp add: sorted_wrt_map)
  then show ?thesis
    by (rule sorted_wrt_mono_rel [rotated]) (auto simp: row_before_def body_row_def shared_or_apart_def apart_def body_def)
qed

definition functions_ok :: "bytes \<Rightarrow> hermes_info \<Rightarrow> nat \<Rightarrow> nat \<Rightarrow> hermes_function list \<Rightarrow> bool" where
  "functions_ok data out c debug fs \<longleftrightarrow>
     map hf_index fs = [0..<hm_function_count out] \<and> sorted_wrt shared_or_apart fs \<and> c \<le> length data - 20 \<and>
     (\<forall>f \<in> set fs. fn_ok data out f \<and> hf_offset f + hf_size f \<le> c \<and> info_ok c debug f)"

abbreviation with_bodies :: "hermes_info \<Rightarrow> hermes_function list \<Rightarrow> bool \<Rightarrow> nat \<Rightarrow> nat \<Rightarrow> hermes_info" where
  "with_bodies out fs b c d \<equiv> out\<lparr>hm_functions := fs, hm_budget_limited := b, hm_code_end := c, hm_deduplicated := d\<rparr>"

lemma functions_stage:
  assumes lay: "layout_for tables (hm_version out) = Some lay" and placed: "hm_placed data lay out" and no: "hm_no out"
    and empty: "hm_functions out = []"
  shows "meets hm_no (\<lambda>out'. \<exists>fs b c d. out' = with_bodies out fs b c d \<and> functions_ok data out c debug fs)
    (hm_read_functions data lay debug retained out)"
proof -
  let ?post = "\<lambda>out'. \<exists>fs b c d. out' = with_bodies out fs b c d \<and> functions_ok data out c debug fs"
  have same: "with_functions out [] (hm_budget_limited out) = out" using empty by simp
  have loop: "meets hm_no (\<lambda>(ranges, out'). \<exists>fs' b'. out' = with_functions out fs' b' \<and>
      map hf_index fs' = [0..<hm_function_count out] \<and> (\<forall>f \<in> set fs'. fn_ok data out f) \<and> ranges = map body_row fs')
    (function_loop data lay [0..<hm_function_count out] retained 0 [] out)"
    using function_loop_stage [OF lay placed no, of 0 "[]" retained 0 "hm_budget_limited out"] unfolding same by simp
  have rest: "meets hm_no ?post
      (step (body_loop None (sort (map body_row fs)) ((with_functions out fs b)\<lparr>hm_code_end := hm_code_begin (with_functions out fs b)\<rparr>))
        (\<lambda>out. info_loop lay debug (hm_functions out) out))"
    if idx: "map hf_index fs = [0..<hm_function_count out]" and ok: "\<forall>f \<in> set fs. fn_ok data out f" for fs b
  proof -
    let ?out = "(with_functions out fs b)\<lparr>hm_code_end := hm_code_begin (with_functions out fs b)\<rparr>"
    have no': "hm_no ?out" using no by (simp add: hm_no_def)
    have rows: "\<forall>r \<in> set (sort (map body_row fs)). fst r \<le> fst (snd r) \<and> fst (snd r) \<le> length data - 20"
      using ok by (auto simp: body_row_def fn_ok_def)
    have start: "hm_code_end ?out \<le> length data - 20" using placedD(6) [OF placed] by simp
    show ?thesis unfolding meets_step
    proof (rule meets_mono [OF body_loop_stage [OF no' rows start]], assumption)
      fix out1
      assume "\<exists>c d. out1 = ?out\<lparr>hm_code_end := c, hm_deduplicated := d\<rparr> \<and> c \<le> length data - 20 \<and> hm_code_end ?out \<le> c \<and>
        (\<forall>r \<in> set (sort (map body_row fs)). fst (snd r) \<le> c) \<and>
        sorted_wrt row_before (case None of None \<Rightarrow> sort (map body_row fs) | Some p \<Rightarrow> p # sort (map body_row fs))"
      then obtain c d where c: "out1 = ?out\<lparr>hm_code_end := c, hm_deduplicated := d\<rparr>" "c \<le> length data - 20"
          "\<forall>r \<in> set (sort (map body_row fs)). fst (snd r) \<le> c" "sorted_wrt row_before (sort (map body_row fs))"
        by auto
      have eq: "out1 = with_bodies out fs b c d" unfolding c(1) by simp
      have fns: "hm_functions out1 = fs" "hm_code_end out1 = c" unfolding eq by simp_all
      have ends: "\<forall>f \<in> set fs. hf_offset f + hf_size f \<le> c" using c(3) by (auto simp: body_row_def)
      show "meets hm_no ?post (info_loop lay debug (hm_functions out1) out1)" unfolding fns(1)
      proof (rule meets_mono [OF info_loop_stage [where debug = debug]], assumption)
        fix out2
        assume *: "out2 = out1 \<and> (\<forall>f \<in> set fs. info_ok (hm_code_end out1) debug f)"
        have "functions_ok data out c debug fs"
          using idx ok ends c(2) rows_shared_or_apart [OF c(4)] * fns(2) by (simp add: functions_ok_def)
        moreover have "out2 = with_bodies out fs b c d" using * eq by (rule trans [OF conjunct1])
        ultimately show "?post out2" by blast
      qed
    qed
  qed
  show ?thesis
    unfolding hm_read_functions_def meets_step
  proof (rule meets_mono [OF loop], assumption)
    fix a
    assume "case a of (ranges, out') \<Rightarrow> \<exists>fs' b'. out' = with_functions out fs' b' \<and>
      map hf_index fs' = [0..<hm_function_count out] \<and> (\<forall>f \<in> set fs'. fn_ok data out f) \<and> ranges = map body_row fs'"
    then obtain fs b where a: "a = (map body_row fs, with_functions out fs b)" "map hf_index fs = [0..<hm_function_count out]"
        "\<forall>f \<in> set fs. fn_ok data out f"
      by (cases a) blast
    show "meets hm_no ?post (case a of (ranges, out) \<Rightarrow>
        step (body_loop None (sort ranges) (out\<lparr>hm_code_end := hm_code_begin out\<rparr>)) (\<lambda>out. info_loop lay debug (hm_functions out) out))"
      unfolding a(1) prod.case by (rule rest [OF a(2,3)])
  qed
qed

subsection \<open>The debug section\<close>

text \<open>
  The debug section starts with its counts; the size of its data is a later word, which one depends
  on the version. Its tables follow the header without a gap and end at the footer.
\<close>

definition data_size_at :: "nat \<Rightarrow> nat" where
  "data_size_at v = (if v = 89 then 16 else if v = 96 then 24 else 12)"

definition debug_ok :: "bytes \<Rightarrow> epoch_layout \<Rightarrow> nat \<Rightarrow> nat \<Rightarrow> hermes_debug \<Rightarrow> bool" where
  "debug_ok data lay c debug d \<longleftrightarrow>
     hd_present d \<and> hd_valid d \<and> hd_offset d = debug \<and> c \<le> debug \<and> hd_end d = length data - 20 \<and>
     hd_filenames d = le_at data debug 4 \<and> hd_filename_bytes d = le_at data (debug + 4) 4 \<and>
     hd_regions d = le_at data (debug + 8) 4 \<and> hd_data_size d = le_at data (debug + data_size_at (lay_version lay)) 4 \<and>
     debug + lay_debug lay + hd_filenames d * 8 + hd_filename_bytes d + hd_regions d * 12 + hd_data_size d = length data - 20"

definition debug_tables :: "hermes_debug \<Rightarrow> bool \<times> nat \<times> nat \<times> nat \<times> nat" where
  "debug_tables d = (hd_present d, hd_offset d, hd_filenames d, hd_filename_bytes d, hd_regions d)"

lemma debug_fields_stage:
  assumes lay: "layout_for tables (hm_version out) = Some lay" and room: "debug + lay_debug lay \<le> length data"
  shows "meets hm_no (\<lambda>d'. debug_tables d' = debug_tables d \<and>
      hd_data_size d' = le_at data (debug + data_size_at (lay_version lay)) 4) (debug_fields data debug out d)"
proof -
  have size: "16 \<le> lay_debug lay" "hm_version out = 89 \<Longrightarrow> lay_debug lay = 20" "hm_version out = 96 \<Longrightarrow> lay_debug lay = 28"
    using layout_bounds(4,7,8) [OF lay] by simp_all
  have "lay_version lay = hm_version out" by (rule layout_bounds(1) [OF lay])
  then show ?thesis
    using room size by (auto simp: debug_fields_def debug_tables_def data_size_at_def hm_u32_Some Let_def)
qed

lemma debug_end_value:
  "debug_end lay debug d = Some e \<Longrightarrow>
    e = debug + lay_debug lay + hd_filenames d * 8 + hd_filename_bytes d + hd_regions d * 12 + hd_data_size d"
  by (auto simp: debug_end_def bind_eq_Some_conv add_size_Some dest!: mul_size_Some)

lemma debug_stage:
  assumes lay: "layout_for tables (hm_version out) = Some lay"
  shows "meets hm_no (\<lambda>out'. \<exists>d. out' = out\<lparr>hm_debug := d\<rparr> \<and> debug_ok data lay (hm_code_end out) debug d)
    (hm_read_debug data lay debug out)"
proof (cases "debug = 0 \<or> debug AND 3 \<noteq> 0 \<or> debug < hm_code_end out \<or> length data - footer_bytes < debug + lay_debug lay")
  case True
  then show ?thesis unfolding hm_read_debug_def Let_def by (simp only: if_True hm_no_stops)
next
  case False
  let ?post = "\<lambda>out'. \<exists>d. out' = out\<lparr>hm_debug := d\<rparr> \<and> debug_ok data lay (hm_code_end out) debug d"
  have room: "debug + lay_debug lay \<le> length data" using False by linarith
  have "16 \<le> lay_debug lay" by (rule layout_bounds(4) [OF lay])
  then have reads: "hm_u32 data debug = Some (le_at data debug 4)" "hm_u32 data (debug + 4) = Some (le_at data (debug + 4) 4)"
      "hm_u32 data (debug + 8) = Some (le_at data (debug + 8) 4)"
    using room by (simp_all add: hm_u32_Some)
  let ?d = "(hm_debug out)\<lparr>hd_present := True, hd_offset := debug, hd_filenames := le_at data debug 4,
    hd_filename_bytes := le_at data (debug + 4) 4, hd_regions := le_at data (debug + 8) 4\<rparr>"
  have close: "meets hm_no ?post
      (case debug_end lay debug d1 of
         None \<Rightarrow> hm_fail (out\<lparr>hm_debug := d1\<rparr>) debug DebugClose
       | Some e \<Rightarrow>
           let out1 = out\<lparr>hm_debug := d1\<lparr>hd_end := e\<rparr>\<rparr> in
           if e \<noteq> length data - footer_bytes then hm_fail out1 debug DebugClose
           else pass (out1\<lparr>hm_debug := (hm_debug out1)\<lparr>hd_valid := True\<rparr>\<rparr>))"
    if same: "debug_tables d1 = debug_tables ?d \<and> hd_data_size d1 = le_at data (debug + data_size_at (lay_version lay)) 4" for d1
  proof (cases "debug_end lay debug d1")
    case None
    then show ?thesis by simp
  next
    case (Some e)
    show ?thesis
    proof (cases "e = length data - 20")
      case True
      let ?d1 = "d1\<lparr>hd_end := e, hd_valid := True\<rparr>"
      have "debug_ok data lay (hm_code_end out) debug ?d1"
        using True False debug_end_value [OF Some] same by (simp add: debug_ok_def debug_tables_def)
      then show ?thesis using Some True unfolding Let_def
        by (simp add: footer_bytes_def) (intro exI [of _ ?d1] conjI; simp)
    next
      case False
      then show ?thesis using Some by (simp add: Let_def footer_bytes_def)
    qed
  qed
  show ?thesis
    unfolding hm_read_debug_def Let_def
    apply (simp only: False if_False reads access_Some step_simps)
    apply (rule iffD2 [OF meets_step], rule meets_mono [OF debug_fields_stage [OF lay room]], assumption)
    apply (rule close [unfolded Let_def], assumption)
    done
qed

subsection \<open>Opcode streams\<close>

text \<open>
  The opcodes that tile a range of the file: each has an entry with a nonzero length in the table,
  and the last one ends where the range ends.
\<close>

inductive opcode_stream :: "bytes \<Rightarrow> opcode_table \<Rightarrow> nat \<Rightarrow> nat \<Rightarrow> nat list \<Rightarrow> bool"
  for data :: bytes and table :: opcode_table where
  stream_end: "opcode_stream data table e e []"
| stream_op: "cursor < e \<Longrightarrow> op = unat (data ! cursor) \<Longrightarrow> op < length table \<Longrightarrow> 0 < snd (table ! op) \<Longrightarrow>
    cursor + snd (table ! op) \<le> e \<Longrightarrow> opcode_stream data table (cursor + snd (table ! op)) e ops \<Longrightarrow>
    opcode_stream data table cursor e (op # ops)"

inductive_cases opcode_streamE: "opcode_stream data table cursor e ops"

lemma opcode_stream_known: "opcode_stream data table cursor e ops \<Longrightarrow> set ops \<subseteq> {..<length table}"
  by (induction rule: opcode_stream.induct) auto

text \<open>
  The opcodes of a stream with their numbers: one row for each opcode that occurs and none for another, in
  ascending order, with the name in the table and the number of occurrences, capped at 32 bits.
\<close>

definition counted :: "opcode_table \<Rightarrow> nat list \<Rightarrow> hermes_opcode list \<Rightarrow> bool" where
  "counted table ops rows \<longleftrightarrow>
     map ho_opcode rows = sorted_list_of_set (set ops) \<and>
     (\<forall>r \<in> set rows. ho_name r = fst (table ! ho_opcode r) \<and>
        ho_count r = min u32_max (count_list ops (ho_opcode r)))"

definition tally :: "nat list \<Rightarrow> nat list \<Rightarrow> nat list" where
  "tally ops counts = fold bump ops counts"

lemma tally_simps [simp]:
  "tally [] counts = counts" "tally (op # ops) counts = tally ops (bump op counts)"
  "tally (xs @ ys) counts = tally ys (tally xs counts)"
  by (simp_all add: tally_def)

lemma length_tally [simp]: "length (tally ops counts) = length counts"
  by (induction ops arbitrary: counts) (simp_all add: bump_def)

lemma nth_tally: "i < length counts \<Longrightarrow> tally ops counts ! i = counts ! i + count_list ops i"
  by (induction ops arbitrary: counts) (auto simp: bump_def nth_list_update)

lemma opcode_rows_counted:
  assumes "set ops \<subseteq> {..<length table}"
  shows "counted table ops (opcode_rows table (tally ops (replicate (length table) 0)))"
proof -
  let ?rows = "opcode_rows table (tally ops (replicate (length table) 0))"
  let ?found = "filter (\<lambda>op. op \<in> set ops) [0..<length table]"
  have count: "tally ops (replicate (length table) 0) ! op = count_list ops op" if "op < length table" for op
    using that by (simp add: nth_tally)
  then have "filter (\<lambda>op. tally ops (replicate (length table) 0) ! op \<noteq> 0) [0..<length table] = ?found"
    by (intro filter_cong) (auto simp: count_list_0_iff)
  then have rows: "?rows = map (\<lambda>op. \<lparr>ho_opcode = op, ho_name = fst (table ! op), ho_count = min u32_max (count_list ops op)\<rparr>) ?found"
    using count by (simp add: opcode_rows_def)
  have "sorted_list_of_set (set ?found) = ?found" by (rule sorted_list_of_set.idem_if_sorted_distinct) (simp_all add: sorted_wrt_filter)
  moreover have "set ?found = set ops" using assms by auto
  ultimately have "map ho_opcode ?rows = sorted_list_of_set (set ops)" by (simp add: rows comp_def)
  then show ?thesis unfolding counted_def by (simp add: rows)
qed

lemma decode_loop_stage:
  assumes "cursor \<le> e" and "e \<le> length data"
  shows "meets (\<lambda>_. \<nexists>ops. opcode_stream data table cursor e ops)
    (\<lambda>(local', totals', n'). \<exists>ops. opcode_stream data table cursor e ops \<and> local' = tally ops local \<and>
      totals' = tally ops totals \<and> n' = n + length ops)
    (decode_loop data table cursor e local totals n)"
  using assms
proof (induction data table cursor e local totals n rule: decode_loop.induct)
  case (1 data table cursor e local totals n)
  show ?case
  proof (cases "e \<le> cursor")
    case True
    then have "cursor = e" using 1(2) by simp
    then show ?thesis by (subst decode_loop.simps) (auto intro: exI [of _ "[]"] stream_end)
  next
    case False
    let ?op = "unat (data ! cursor)" let ?len = "snd (table ! ?op)"
    have read: "byte_at data cursor = Some ?op" using False 1(3) by (simp add: byte_at_Some)
    have run: "decode_loop data table cursor e local totals n =
        (if length table \<le> ?op then stop (cursor, OpcodeUnknown, n)
         else if ?len = 0 \<or> e - cursor < ?len then stop (cursor, OpcodeOperands, n)
         else decode_loop data table (cursor + ?len) e (bump ?op local) (bump ?op totals) (n + 1))"
      by (subst decode_loop.simps) (simp add: False read Let_def)
    show ?thesis
    proof (cases "length table \<le> ?op \<or> ?len = 0 \<or> e - cursor < ?len")
      case True
      then have "\<nexists>ops. opcode_stream data table cursor e ops" using False by (auto elim: opcode_streamE)
      then show ?thesis unfolding run using True by auto
    next
      case ok: False
      then have fit: "\<not> length table \<le> ?op" "\<not> (?len = 0 \<or> e - cursor < ?len)" "cursor + ?len \<le> e"
        using False by (simp, simp, linarith)
      have IH: "meets (\<lambda>_. \<nexists>ops. opcode_stream data table (cursor + ?len) e ops)
          (\<lambda>(local', totals', n'). \<exists>ops. opcode_stream data table (cursor + ?len) e ops \<and>
            local' = tally ops (bump ?op local) \<and> totals' = tally ops (bump ?op totals) \<and> n' = n + 1 + length ops)
          (decode_loop data table (cursor + ?len) e (bump ?op local) (bump ?op totals) (n + 1))"
        by (rule 1(1) [OF False fit(1) refl fit(2,3) 1(3)])
      show ?thesis
        unfolding run using ok
        apply (simp only: if_False de_Morgan_disj simp_thms)
        apply (rule meets_mono [OF IH])
        subgoal using False by (auto elim: opcode_streamE)
        subgoal for a
          using fit False by (cases a) (fastforce intro: exI [of _ "?op # _"] stream_op)
        done
    qed
  qed
qed

definition stream_of :: "bytes \<Rightarrow> opcode_table \<Rightarrow> hermes_function \<Rightarrow> nat list \<Rightarrow> bool" where
  "stream_of data table f ops \<longleftrightarrow> opcode_stream data table (hf_offset f) (hf_offset f + hf_size f) ops"

definition with_ops :: "opcode_table \<Rightarrow> hermes_function \<Rightarrow> nat list \<Rightarrow> hermes_function" where
  "with_ops table f ops =
     f\<lparr>hf_instructions := length ops, hf_opcodes := opcode_rows table (tally ops (replicate (length table) 0))\<rparr>"

lemma decode_functions_stage:
  assumes "\<forall>f \<in> set fs. hf_offset f + hf_size f \<le> length data"
  shows "meets (\<lambda>o'. hm_no o' \<and> (\<nexists>opss. list_all2 (stream_of data table) fs opss))
    (\<lambda>(totals', out'). \<exists>opss. list_all2 (stream_of data table) fs opss \<and> totals' = tally (concat opss) totals \<and>
      out' = out\<lparr>hm_functions := hm_functions out @ map2 (with_ops table) fs opss\<rparr>)
    (decode_functions data table fs totals out)"
  using assms
proof (induction fs arbitrary: totals out)
  case Nil
  then show ?case by simp
next
  case (Cons f fs)
  let ?out = "\<lambda>ops. out\<lparr>hm_functions := hm_functions out @ [with_ops table f ops]\<rparr>"
  have bounds: "hf_offset f \<le> hf_offset f + hf_size f" "hf_offset f + hf_size f \<le> length data" using Cons.prems by simp_all
  have fs: "\<forall>f \<in> set fs. hf_offset f + hf_size f \<le> length data" using Cons.prems by simp
  have split: "(\<exists>opss. list_all2 (stream_of data table) (f # fs) opss) \<longleftrightarrow>
      (\<exists>ops. stream_of data table f ops) \<and> (\<exists>opss. list_all2 (stream_of data table) fs opss)"
    by (auto simp: list_all2_Cons1)
  have loop: "meets (\<lambda>_. \<nexists>ops. stream_of data table f ops)
      (\<lambda>(local', totals', n'). \<exists>ops. stream_of data table f ops \<and> local' = tally ops (replicate (length table) 0) \<and>
        totals' = tally ops totals \<and> n' = 0 + length ops)
      (decode_loop data table (hf_offset f) (hf_offset f + hf_size f) (replicate (length table) 0) totals 0)"
    unfolding stream_of_def by (rule decode_loop_stage [OF bounds])
  have rest: "meets (\<lambda>o'. hm_no o' \<and> (\<nexists>opss. list_all2 (stream_of data table) (f # fs) opss))
      (\<lambda>(totals', out'). \<exists>opss. list_all2 (stream_of data table) (f # fs) opss \<and> totals' = tally (concat opss) totals \<and>
        out' = out\<lparr>hm_functions := hm_functions out @ map2 (with_ops table) (f # fs) opss\<rparr>)
      (decode_functions data table fs (tally ops totals) (?out ops))"
    if ops: "stream_of data table f ops" for ops
  proof (rule meets_mono [OF Cons.IH [OF fs]])
    fix a
    assume "case a of (totals', out') \<Rightarrow> \<exists>opss. list_all2 (stream_of data table) fs opss \<and>
        totals' = tally (concat opss) (tally ops totals) \<and>
        out' = (?out ops)\<lparr>hm_functions := hm_functions (?out ops) @ map2 (with_ops table) fs opss\<rparr>"
    then obtain opss where a: "a = (tally (concat opss) (tally ops totals),
          (?out ops)\<lparr>hm_functions := hm_functions (?out ops) @ map2 (with_ops table) fs opss\<rparr>)"
        "list_all2 (stream_of data table) fs opss"
      by (cases a) blast
    show "case a of (totals', out') \<Rightarrow> \<exists>opss. list_all2 (stream_of data table) (f # fs) opss \<and>
        totals' = tally (concat opss) totals \<and>
        out' = out\<lparr>hm_functions := hm_functions out @ map2 (with_ops table) (f # fs) opss\<rparr>"
      unfolding a(1) prod.case by (rule exI [of _ "ops # opss"]) (simp add: ops a(2))
  qed (simp add: split)
  show ?case
    unfolding decode_functions.simps meets_step meets_or_stop
  proof (rule meets_mono [OF loop])
    fix s :: "nat \<times> hermes_error \<times> nat"
    assume "\<nexists>ops. stream_of data table f ops"
    then have "\<nexists>opss. list_all2 (stream_of data table) (f # fs) opss" unfolding split by blast
    then show "((\<lambda>o'. hm_no o' \<and> (\<nexists>opss. list_all2 (stream_of data table) (f # fs) opss)) \<circ>
        (\<lambda>(off, e, n). out\<lparr>hm_functions := hm_functions out @ [f\<lparr>hf_instructions := n\<rparr>] @ fs,
          hm_error_offset := off, hm_error := Some e, hm_valid := False, hm_complete := False\<rparr>)) s"
      by (cases s) (simp add: hm_no_def)
  next
    fix a
    assume "case a of (local', totals', n') \<Rightarrow> \<exists>ops. stream_of data table f ops \<and>
        local' = tally ops (replicate (length table) 0) \<and> totals' = tally ops totals \<and> n' = 0 + length ops"
    then obtain ops where a: "a = (tally ops (replicate (length table) 0), tally ops totals, length ops)"
        and ops: "stream_of data table f ops"
      by (cases a) auto
    show "meets (\<lambda>o'. hm_no o' \<and> (\<nexists>opss. list_all2 (stream_of data table) (f # fs) opss))
        (\<lambda>(totals', out'). \<exists>opss. list_all2 (stream_of data table) (f # fs) opss \<and> totals' = tally (concat opss) totals \<and>
          out' = out\<lparr>hm_functions := hm_functions out @ map2 (with_ops table) (f # fs) opss\<rparr>)
        (case a of (local, totals', n) \<Rightarrow>
          decode_functions data table fs totals' (out\<lparr>hm_functions := hm_functions out @
            [f\<lparr>hf_instructions := n, hf_opcodes := opcode_rows table local\<rparr>]\<rparr>))"
      unfolding a prod.case using rest [OF ops] unfolding with_ops_def .
  qed
qed

subsection \<open>The parse\<close>

definition hermes_sound :: "(nat \<Rightarrow> opcode_table) \<Rightarrow> bytes \<Rightarrow> hermes_info \<Rightarrow> bool" where
  "hermes_sound tables data out \<longleftrightarrow>
     (\<exists>lay. layout_for tables (hm_version out) = Some lay \<and> hash_ok data \<and> hm_placed data lay out \<and>
        length (hm_strings out) = hm_string_count out \<and> (\<forall>s \<in> set (hm_strings out). string_ok data out s) \<and>
        map hs_index (hm_strings out) = [0..<hm_string_count out] \<and>
        functions_ok data out (hm_code_end out) (hd_offset (hm_debug out)) (hm_functions out) \<and>
        hd_offset (hm_debug out) = le_at data (104 + field_shift (hm_version out)) 4 \<and>
        debug_ok data lay (hm_code_end out) (hd_offset (hm_debug out)) (hm_debug out))"

definition hermes_tiled :: "(nat \<Rightarrow> opcode_table) \<Rightarrow> bytes \<Rightarrow> hermes_info \<Rightarrow> bool" where
  "hermes_tiled tables data out \<longleftrightarrow>
     (let table = tables (hm_version out) in
      \<exists>opss. list_all2 (\<lambda>f ops. stream_of data table f ops \<and> hf_instructions f = length ops \<and>
               counted table ops (hf_opcodes f)) (hm_functions out) opss \<and>
             counted table (concat opss) (hm_opcodes out))"

definition result_ok :: "(nat \<Rightarrow> opcode_table) \<Rightarrow> bytes \<Rightarrow> hermes_info \<Rightarrow> bool" where
  "result_ok tables data out \<longleftrightarrow>
     (hm_valid out \<longrightarrow> hermes_sound tables data out \<and> hm_complete out = (\<not> hm_budget_limited out)) \<and>
     (hm_complete out \<longrightarrow> hm_valid out \<and> hermes_tiled tables data out)"

lemma result_ok_no: "hm_no out \<Longrightarrow> result_ok tables data out"
  by (simp add: result_ok_def hm_no_def)

lemma functions_ok_with_ops:
  assumes "length opss = length fs"
  shows "functions_ok data out c debug (map2 (with_ops table) fs opss) = functions_ok data out c debug fs"
proof -
  have keep: "body (with_ops table f ops) = body f" "fn_ok data out (with_ops table f ops) = fn_ok data out f"
      "info_ok c debug (with_ops table f ops) = info_ok c debug f" "hf_index (with_ops table f ops) = hf_index f"
      "hf_offset (with_ops table f ops) = hf_offset f" "hf_size (with_ops table f ops) = hf_size f" for f ops
    by (simp_all add: with_ops_def body_def fn_ok_def fn_header_parts info_ok_def)
  have "map hf_index (map2 (with_ops table) fs opss) = map hf_index fs"
    using assms by (simp add: list_eq_iff_nth_eq keep)
  moreover have "sorted_wrt shared_or_apart (map2 (with_ops table) fs opss) = sorted_wrt shared_or_apart fs"
    using assms by (simp add: sorted_wrt_iff_nth_less shared_or_apart_def keep)
  moreover have "(\<forall>f \<in> set (map2 (with_ops table) fs opss). fn_ok data out f \<and> hf_offset f + hf_size f \<le> c \<and> info_ok c debug f) =
      (\<forall>f \<in> set fs. fn_ok data out f \<and> hf_offset f + hf_size f \<le> c \<and> info_ok c debug f)"
    using assms by (simp add: all_set_conv_all_nth keep)
  ultimately show ?thesis by (simp add: functions_ok_def)
qed

lemma hermes_sound_keeps:
  "hermes_sound tables data out \<Longrightarrow> length opss = length (hm_functions out) \<Longrightarrow>
    hermes_sound tables data (out\<lparr>hm_functions := map2 (with_ops table) (hm_functions out) opss, hm_opcodes := rows,
      hm_valid := v, hm_complete := w\<rparr>)"
  "hermes_sound tables data out \<Longrightarrow> hermes_sound tables data (out\<lparr>hm_truncated := t, hm_anomalies := as, hm_valid := v\<rparr>)"
proof -
  have same: "functions_ok data (out\<lparr>hm_functions := fs, hm_opcodes := rows, hm_valid := v, hm_complete := w\<rparr>) c debug gs =
        functions_ok data out c debug gs"
      "functions_ok data (out\<lparr>hm_truncated := t, hm_anomalies := as, hm_valid := v\<rparr>) c debug gs = functions_ok data out c debug gs"
      "hm_placed data lay (out\<lparr>hm_functions := fs, hm_opcodes := rows, hm_valid := v, hm_complete := w\<rparr>) = hm_placed data lay out"
      "hm_placed data lay (out\<lparr>hm_truncated := t, hm_anomalies := as, hm_valid := v\<rparr>) = hm_placed data lay out"
      "string_ok data (out\<lparr>hm_functions := fs, hm_opcodes := rows, hm_valid := v, hm_complete := w\<rparr>) s = string_ok data out s"
      "string_ok data (out\<lparr>hm_truncated := t, hm_anomalies := as, hm_valid := v\<rparr>) s = string_ok data out s" for fs gs c debug lay s
    by (simp_all add: functions_ok_def fn_ok_def string_ok_parts)
  show "hermes_sound tables data out \<Longrightarrow> length opss = length (hm_functions out) \<Longrightarrow>
      hermes_sound tables data (out\<lparr>hm_functions := map2 (with_ops table) (hm_functions out) opss, hm_opcodes := rows,
        hm_valid := v, hm_complete := w\<rparr>)"
    "hermes_sound tables data out \<Longrightarrow> hermes_sound tables data (out\<lparr>hm_truncated := t, hm_anomalies := as, hm_valid := v\<rparr>)"
    by (simp_all add: hermes_sound_def same functions_ok_with_ops)
qed

lemma decode_stage:
  assumes sound: "hermes_sound tables data out" and lay: "layout_for tables (hm_version out) = Some lay"
    and no: "hm_no out" and empty: "hm_opcodes out = []"
  shows "meets (result_ok tables data) (result_ok tables data) (hm_decode data lay out)"
proof (cases "hm_budget_limited out")
  case True
  then show ?thesis
    using hermes_sound_keeps(2) [OF sound] no by (simp add: hm_decode_def result_ok_def hm_no_def)
next
  case False
  let ?table = "lay_opcodes lay" let ?zeros = "replicate (length ?table) 0"
  have table: "tables (hm_version out) = ?table" using layout_bounds(2) [OF lay] by simp
  have bounds: "\<forall>f \<in> set (hm_functions out). hf_offset f + hf_size f \<le> length data"
    using sound unfolding hermes_sound_def functions_ok_def fn_ok_def by fastforce
  have ok: "result_ok tables data (out1\<lparr>hm_opcodes := hm_opcodes out1 @ opcode_rows ?table (tally (concat opss) ?zeros),
        hm_valid := True, hm_complete := True\<rparr>)"
    if opss: "list_all2 (stream_of data ?table) (hm_functions out) opss"
      and out1: "out1 = (out\<lparr>hm_functions := []\<rparr>)\<lparr>hm_functions := hm_functions (out\<lparr>hm_functions := []\<rparr>) @
        map2 (with_ops ?table) (hm_functions out) opss\<rparr>" for opss out1
  proof -
    let ?fin = "out\<lparr>hm_functions := map2 (with_ops ?table) (hm_functions out) opss,
      hm_opcodes := opcode_rows ?table (tally (concat opss) ?zeros), hm_valid := True, hm_complete := True\<rparr>"
    have len: "length opss = length (hm_functions out)" using opss by (simp add: list_all2_lengthD)
    have eq: "out1\<lparr>hm_opcodes := hm_opcodes out1 @ opcode_rows ?table (tally (concat opss) ?zeros),
        hm_valid := True, hm_complete := True\<rparr> = ?fin"
      unfolding out1 using empty by simp
    have known: "set (opss ! i) \<subseteq> {..<length ?table}" if "i < length opss" for i
      using opss that len opcode_stream_known by (fastforce simp: list_all2_conv_all_nth stream_of_def)
    then have all: "set (concat opss) \<subseteq> {..<length ?table}" by (fastforce simp: in_set_conv_nth)
    have "list_all2 (\<lambda>f ops. stream_of data ?table f ops \<and> hf_instructions f = length ops \<and>
        counted ?table ops (hf_opcodes f)) (map2 (with_ops ?table) (hm_functions out) opss) opss"
      using opss len known opcode_rows_counted by (simp add: list_all2_conv_all_nth stream_of_def with_ops_def)
    then have "hermes_tiled tables data ?fin"
      unfolding hermes_tiled_def Let_def using opcode_rows_counted [OF all] by (intro exI [of _ opss]) (simp add: table)
    then show ?thesis
      unfolding eq using hermes_sound_keeps(1) [OF sound len] False by (simp add: result_ok_def)
  qed
  show ?thesis
    unfolding hm_decode_def using False
    apply (simp only: if_False)
    apply (rule iffD2 [OF meets_step], rule meets_mono [OF decode_functions_stage [OF bounds]])
    subgoal by (simp add: result_ok_no)
    subgoal for a using ok by (cases a) auto
    done
qed

lemma stages_ok:
  assumes "out0 = empty_hermes\<lparr>hm_file_size := n\<rparr>"
  shows "meets (result_ok tables data) (result_ok tables data) (hermes_stages tables data out0)"
proof -
  have start: "hm_no out0" "\<not> hm_budget_limited out0" "hm_strings out0 = []" "hm_functions out0 = []" "hm_opcodes out0 = []"
    by (simp_all add: assms empty_hermes_def hm_no_def)
  have tail: "meets (result_ok tables data) (result_ok tables data)
      (step (hm_read_functions data lay debug retained out) (\<lambda>out.
        step (hm_read_debug data lay debug out) (\<lambda>out. hm_decode data lay out)))"
    if lay: "layout_for tables v = Some lay" and fresh: "hm_fresh v out1" and placed: "hm_placed data lay out1" and hash: "hash_ok data"
      and out: "out = out1\<lparr>hm_strings := ss\<rparr>" "length ss = hm_string_count out1" "strings_ok data flags out1 ss"
      and debug: "debug = le_at data (104 + field_shift v) 4"
    for lay v debug retained out out1 ss flags
  proof -
    have lay': "layout_for tables (hm_version (with_bodies out fs b c d)) = Some lay" for fs b c d
      using lay fresh by (simp add: out(1) hm_fresh_def)
    have layo: "layout_for tables (hm_version out) = Some lay" using lay fresh by (simp add: out(1) hm_fresh_def)
    have out': "hm_placed data lay out" "hm_no out" "hm_functions out = []"
      using placed fresh by (simp_all add: out(1) hm_fresh_def hm_no_def)
    have ready: "hermes_sound tables data (with_bodies out fs b c d\<lparr>hm_debug := dbg\<rparr>)"
        "hm_no (with_bodies out fs b c d\<lparr>hm_debug := dbg\<rparr>)" "hm_opcodes (with_bodies out fs b c d\<lparr>hm_debug := dbg\<rparr>) = []"
        "layout_for tables (hm_version (with_bodies out fs b c d\<lparr>hm_debug := dbg\<rparr>)) = Some lay"
      if fs: "functions_ok data out c debug fs" and dbg: "debug_ok data lay c debug dbg" for fs b c d dbg
    proof -
      let ?o = "with_bodies out fs b c d\<lparr>hm_debug := dbg\<rparr>"
      have off: "hd_offset dbg = debug" using dbg by (simp add: debug_ok_def)
      have "hm_placed data lay ?o" "length (hm_strings ?o) = hm_string_count ?o"
        "map hs_index (hm_strings ?o) = [0..<hm_string_count ?o]" "\<forall>s \<in> set (hm_strings ?o). string_ok data ?o s"
        using placed out(2,3) by (simp_all add: out(1) strings_ok_def string_ok_parts)
      moreover have "debug = le_at data (104 + field_shift (hm_version ?o)) 4"
        using debug fresh by (simp add: out(1) hm_fresh_def)
      moreover have "functions_ok data ?o c debug fs" using fs by (simp add: functions_ok_def fn_ok_def)
      moreover show "layout_for tables (hm_version ?o) = Some lay" using lay fresh by (simp add: out(1) hm_fresh_def)
      ultimately show "hermes_sound tables data ?o"
        using hash dbg by (intro hermes_sound_def [THEN iffD2] exI [of _ lay]) (simp add: off)
      show "hm_no ?o" "hm_opcodes ?o = []" using fresh by (simp_all add: out(1) hm_fresh_def hm_no_def)
    qed
    show ?thesis
      apply (rule iffD2 [OF meets_step], rule meets_mono [OF functions_stage [OF layo out']], erule result_ok_no)
      apply (elim exE conjE)
      apply (simp only:)
      apply (rule iffD2 [OF meets_step], rule meets_mono [OF debug_stage [OF lay']], erule result_ok_no)
      apply (elim exE conjE)
      apply (simp only:)
      apply (rule decode_stage)
         apply (rule ready(1), assumption, simp)
        apply (rule ready(4), assumption, simp)
       apply (rule ready(2), assumption, simp)
      apply (rule ready(3), assumption, simp)
      done
  qed
  show ?thesis
    unfolding hermes_stages_def
    apply (rule iffD2 [OF meets_step], rule meets_mono [OF hm_open_stage [OF start]], erule result_ok_no)
    apply (elim case_prodE exE conjE, simp only: prod.case)
    apply (rule iffD2 [OF meets_step], rule meets_mono [OF header_fields_stage [OF _ refl]], assumption, erule result_ok_no)
    apply (elim case_prodE exE conjE, simp only: prod.case)
    apply (rule iffD2 [OF meets_step], rule meets_mono [OF hash_stage], assumption, assumption, erule result_ok_no)
    apply (elim conjE)
    apply (rule iffD2 [OF meets_step], rule meets_mono [OF segments_stage], assumption, assumption, assumption, assumption, erule result_ok_no)
    apply (elim conjE)
    apply (rule iffD2 [OF meets_step], rule meets_mono [OF kinds_stage], assumption, erule result_ok_no)
    apply (elim conjE)
    apply (rule iffD2 [OF meets_step], rule meets_mono [OF strings_stage], assumption, simp, assumption, simp add: hm_fresh_def, erule result_ok_no)
    apply (elim case_prodE exE conjE, simp only: prod.case)
    apply (rule tail [OF _ _ _ _ refl], assumption+, simp add: sizes_fields_def)
    done
qed

lemma hermes_result:
  "\<exists>out. parse_hermes_bytecode tables data = Some out \<and> result_ok tables data out"
proof (cases "length data < length hermes_magic \<or> take (length hermes_magic) data \<noteq> hermes_magic")
  case True
  have "result_ok tables data (empty_hermes\<lparr>hm_file_size := length data\<rparr>)"
    by (rule result_ok_no) (simp add: empty_hermes_def hm_no_def)
  then show ?thesis using True by (simp add: parse_hermes_bytecode_def Let_def)
next
  case False
  have "parse_hermes_bytecode tables data = settle (hermes_stages tables data (empty_hermes\<lparr>hm_file_size := length data\<rparr>))"
    using False by (auto simp: parse_hermes_bytecode_def Let_def)
  then show ?thesis using meets_cases [OF stages_ok [OF refl, of tables data "length data"]] by fastforce
qed

subsection \<open>A file\<close>

text \<open>
  A file of version 89 with one string and one function of four bytes, which is a return of
  register 5 and two stops; the footer is the SHA-1 of the bytes before it.
\<close>

definition hm_sample_front :: bytes where
  "hm_sample_front =
     hermes_magic @ [89, 0, 0, 0] @ replicate 20 0 @ [196, 0, 0, 0, 0, 0, 0, 0, 1, 0, 0, 0, 1, 0, 0, 0] @
     [0, 0, 0, 0, 1, 0, 0, 0] @ replicate 48 0 @ [156, 0, 0, 0] @ replicate 20 0 @
     [152, 0, 0, 0, 4, 0, 0, 0] @ replicate 8 0 @ [1, 0, 0, 0, 0, 0, 0, 0] @ [90, 5, 0, 0] @ replicate 20 0"

definition hm_sample_file :: bytes where
  "hm_sample_file = hm_sample_front @ sha1_spec hm_sample_front"

lemma length_sample_front: "length hm_sample_front = 176"
  by (simp add: hm_sample_front_def hermes_magic_def)

lemma length_sha1_value: "length (sha1_spec d) = 20"
  by (simp add: sha1_spec_def md_digest_spec length_sha1_emit)

lemma hm_sample_bytes: "length hm_sample_file = 196" "take 176 hm_sample_file = hm_sample_front" "drop 176 hm_sample_file = sha1_spec hm_sample_front"
  by (simp_all add: hm_sample_file_def length_sample_front length_sha1_value)

lemma hm_sample_u32:
  "off + 4 \<le> 176 \<Longrightarrow> hm_u32 hm_sample_file off = Some (le_value (take 4 (drop off hm_sample_front)))"
  by (simp add: hm_u32_Some hm_sample_bytes le_at_def) (simp add: hm_sample_file_def length_sample_front)

lemma hm_sample_byte_at: "off < 176 \<Longrightarrow> byte_at hm_sample_file off = Some (unat (hm_sample_front ! off))"
  by (simp add: byte_at_Some hm_sample_bytes) (simp add: hm_sample_file_def nth_append length_sample_front)

lemma hm_sample_front_list: "hm_sample_front =
    [198, 31, 188, 3, 193, 3, 25, 31, 89, 0, 0, 0, 0, 0, 0, 0, 0, 0, 0, 0, 0, 0, 0, 0, 0, 0, 0, 0, 0, 0,
     0, 0, 196, 0, 0, 0, 0, 0, 0, 0, 1, 0, 0, 0, 1, 0, 0, 0, 0, 0, 0, 0, 1, 0, 0, 0, 0, 0, 0, 0, 0, 0, 0,
     0, 0, 0, 0, 0, 0, 0, 0, 0, 0, 0, 0, 0, 0, 0, 0, 0, 0, 0, 0, 0, 0, 0, 0, 0, 0, 0, 0, 0, 0, 0, 0, 0,
     0, 0, 0, 0, 0, 0, 0, 0, 156, 0, 0, 0, 0, 0, 0, 0, 0, 0, 0, 0, 0, 0, 0, 0, 0, 0, 0, 0, 0, 0, 0, 0,
     152, 0, 0, 0, 4, 0, 0, 0, 0, 0, 0, 0, 0, 0, 0, 0, 1, 0, 0, 0, 0, 0, 0, 0, 90, 5, 0, 0, 0, 0, 0, 0, 0,
     0, 0, 0, 0, 0, 0, 0, 0, 0, 0, 0, 0, 0, 0, 0]"
  by (simp add: hm_sample_front_def hermes_magic_def numeral_eq_Suc)

lemma hm_sample_fields:
  "hm_u32 hm_sample_file 8 = Some 89"
  "hm_u32 hm_sample_file 32 = Some 196"
  "hm_u32 hm_sample_file 36 = Some 0"
  "hm_u32 hm_sample_file 40 = Some 1"
  "hm_u32 hm_sample_file 44 = Some 1"
  "hm_u32 hm_sample_file 48 = Some 0"
  "hm_u32 hm_sample_file 52 = Some 1"
  "hm_u32 hm_sample_file 56 = Some 0"
  "hm_u32 hm_sample_file 60 = Some 0"
  "hm_u32 hm_sample_file 64 = Some 0"
  "hm_u32 hm_sample_file 68 = Some 0"
  "hm_u32 hm_sample_file 72 = Some 0"
  "hm_u32 hm_sample_file 76 = Some 0"
  "hm_u32 hm_sample_file 80 = Some 0"
  "hm_u32 hm_sample_file 84 = Some 0"
  "hm_u32 hm_sample_file 88 = Some 0"
  "hm_u32 hm_sample_file 96 = Some 0"
  "hm_u32 hm_sample_file 100 = Some 0"
  "hm_u32 hm_sample_file 104 = Some 156"
  "hm_u32 hm_sample_file 128 = Some 152"
  "hm_u32 hm_sample_file 132 = Some 4"
  "hm_u32 hm_sample_file 136 = Some 0"
  "hm_u32 hm_sample_file 144 = Some 1"
  "hm_u32 hm_sample_file 148 = Some 0"
  "hm_u32 hm_sample_file 156 = Some 0"
  "hm_u32 hm_sample_file 160 = Some 0"
  "hm_u32 hm_sample_file 164 = Some 0"
  "hm_u32 hm_sample_file 168 = Some 0"
  "hm_u32 hm_sample_file 172 = Some 0"
  "byte_at hm_sample_file 140 = Some 0"
  "byte_at hm_sample_file 143 = Some 0"
  "byte_at hm_sample_file 152 = Some 90"
  "byte_at hm_sample_file 154 = Some 0"
  "byte_at hm_sample_file 155 = Some 0"
  by (simp_all add: hm_sample_u32 hm_sample_byte_at, simp_all add: hm_sample_front_list)

lemma hm_sample_hash: "sha1_bytes (take 176 hm_sample_file) = Some (drop 176 hm_sample_file)"
  by (simp add: sha1_value hm_sample_bytes)

lemma length_hermes_magic: "length hermes_magic = 8"
  by (simp add: hermes_magic_def)

lemma hm_sample_prefix: "take 8 hm_sample_file = hermes_magic"
  by (simp add: hm_sample_file_def hm_sample_front_def hermes_magic_def)

lemma hm_sample_subspan:
  "subspan hm_sample_file 12 20 = Some (replicate 20 0)" "subspan hm_sample_file 152 0 = Some []"
  by (simp_all add: subspan_Some hm_sample_bytes, simp add: hm_sample_file_def hm_sample_front_list numeral_eq_Suc)

lemmas hm_sample_simps = hm_sample_fields hm_sample_hash hm_sample_subspan hm_sample_bytes(1)

lemmas hm_sample_defs = hm_open_def layout_for_def Let_def hm_header_def header_bytes_def footer_bytes_def u32_max_def
  hm_hash_def max_functions_def max_strings_def max_string_kinds_def hm_segments_def segments_def align4_def mul_size_def add_size_def
  u64_max_def hm_kinds_def upt_rec hm_read_strings_def string_place_def flag_at_def string_value_def max_decoded_bytes_def
  hm_read_functions_def read_header_def legacy_header_def empty_function_def check_function_def max_opcode_bytes_def
  hm_read_debug_def debug_fields_def debug_end_def hm_decode_def decode_loop.simps bump_def

lemma hm_sample_table:
  "length hermes_opcodes_v89 = 190" "hermes_opcodes_v89 ! 0 = (''Unreachable'', 1)" "hermes_opcodes_v89 ! 90 = (''Ret'', 2)"
  "hermes_tables 89 = hermes_opcodes_v89"
  by (simp_all add: hermes_opcodes_v89_def hermes_tables_def)

lemma hm_sample_parse:
  "map_option hm_complete (parse_hermes_bytecode hermes_tables hm_sample_file) = Some True"
  by (simp add: parse_hermes_bytecode_def hermes_stages_def empty_hermes_def hm_sample_simps hm_sample_prefix hm_sample_defs
      length_hermes_magic hm_sample_table)

subsection \<open>Properties\<close>


lemma hermes_sample_complete:
  "\<exists>out. parse_hermes_bytecode hermes_tables hm_sample_file = Some out \<and> hm_valid out \<and> hm_complete out"
  using hm_sample_parse hermes_result [of hermes_tables hm_sample_file] by (auto simp: result_ok_def)


text \<open>C27: A result marked complete is valid, and every function body is tiled by opcodes of the
  version's table, from its first byte to its last. The instruction count of a function is the length
  of its stream; its opcode rows, and those of the whole file, are one for each opcode that occurs in
  the stream (in all streams together), in ascending order, with the name in the table and the number
  of occurrences, capped at 32 bits, and none for an opcode that does not occur.\<close>

theorem hermes_complete_tiled:
  assumes "parse_hermes_bytecode tables data = Some out" and "hm_complete out"
  shows "hm_valid out \<and> hermes_tiled tables data out"
  using assms hermes_result [of tables data] by (auto simp: result_ok_def)

theorem hermes_complete_tiled_witness:
  "\<exists>out. parse_hermes_bytecode hermes_tables hm_sample_file = Some out \<and> hm_valid out \<and>
     hermes_tiled hermes_tables hm_sample_file out"
  using hermes_sample_complete hermes_complete_tiled [of hermes_tables hm_sample_file] by blast

text \<open>The finding of a file of a supported version is CONFIRMED exactly for a complete parse; it is FAILED
  exactly when a check failed before any budget was exceeded, and it carries evidence exactly for a
  valid result.\<close>

lemma hermes_finding_confirmed_iff:
  assumes "parse_hermes_bytecode tables data = Some out" and "hm_supported out"
  shows "(f_state (hermes_finding out) = ''CONFIRMED'' \<longleftrightarrow> hm_complete out) \<and>
    (f_state (hermes_finding out) = ''FAILED'' \<longleftrightarrow> \<not> hm_valid out \<and> \<not> hm_budget_limited out) \<and>
    (hm_valid out \<longleftrightarrow> f_evidence (hermes_finding out) \<noteq> [])"
  using assms hermes_result [of tables data]
  by (auto simp: hermes_finding_def Let_def empty_finding_def result_ok_def)

lemma hermes_finding_confirmed_iff_witness:
  "\<exists>out. parse_hermes_bytecode hermes_tables hm_sample_file = Some out \<and> f_state (hermes_finding out) = ''CONFIRMED''"
proof -
  obtain out where out: "parse_hermes_bytecode hermes_tables hm_sample_file = Some out" "hm_complete out"
    using hermes_sample_complete by blast
  have "map_option hm_supported (parse_hermes_bytecode hermes_tables hm_sample_file) = Some True"
    by (simp add: parse_hermes_bytecode_def hermes_stages_def empty_hermes_def hm_sample_simps hm_sample_prefix hm_sample_defs
        length_hermes_magic hm_sample_table)
  then have "hm_supported out" using out(1) by simp
  then show ?thesis using hermes_finding_confirmed_iff [OF out(1)] out by blast
qed

end
