(* ===== verification/Timeline.thy ===== *)
theory Timeline
  imports StdPath Evidence Outcomes "HOL-Library.List_Lexorder" "HOL-Library.Char_ord"
begin

section \<open>The runtime timeline and ordered maps\<close>

text \<open>
  Models \<^verbatim>\<open>include/prts/timeline.hpp\<close>, the text fields of events with the number
  reader of \<^verbatim>\<open>src/runtime/materialization_graph.cpp\<close>, and \<^verbatim>\<open>std::map\<close>
  where its order of iteration matters: a list of pairs in increasing key order.
\<close>

subsection \<open>Events\<close>

datatype timeline_kind =
    ProcessStart | ProcessExit | ModuleLoad | ModuleUnload | FileCreate | FileOpen | FileWrite | FileRename
  | FileDelete | MemoryAllocate | MemoryProtect | MemoryWrite | MaterializedExecute | PreEntryExecute
  | OepCandidate | DumpCreated | ConsoleStdout | ConsoleStderr

type_synonym text_fields = "string \<rightharpoonup> string"

record timeline_event =
  te_seq :: nat
  te_t_us :: nat
  te_process_uid :: nat
  te_parent_uid :: nat
  te_pid :: nat
  te_kind :: timeline_kind
  te_image :: string
  te_subject :: string
  te_fields :: text_fields

record runtime_artifact =
  ra_kind :: string
  ra_state :: string
  ra_path :: path
  ra_process_uid :: nat
  ra_pid :: nat
  ra_detail :: string
  ra_fields :: text_fields

record runtime_report =
  rr_timed_out :: bool
  rr_timeline :: "timeline_event list"
  rr_artifacts :: "runtime_artifact list"

record replacement_report =
  rp_performed :: bool
  rp_target :: path
  rp_original_sha256 :: string
  rp_new_sha256 :: string

subsection \<open>Fields\<close>

definition field_is :: "text_fields \<Rightarrow> string \<Rightarrow> string \<Rightarrow> bool" where
  "field_is f key v \<longleftrightarrow> f key = Some v"

definition digit_value :: "char \<Rightarrow> nat option" where
  "digit_value c =
     (let n = of_char c in
      if 48 \<le> n \<and> n \<le> (57 :: nat) then Some (n - 48)
      else if 65 \<le> n \<and> n \<le> 90 then Some (n - 55)
      else if 97 \<le> n \<and> n \<le> 122 then Some (n - 87) else None)"

text \<open>
  \<^verbatim>\<open>std::from_chars\<close> of an unsigned 64-bit number that has to use up the whole text.
\<close>

fun read_digits :: "nat \<Rightarrow> nat \<Rightarrow> string \<Rightarrow> nat option" where
  "read_digits base v [] = Some v"
| "read_digits base v (c # cs) =
     (case digit_value c of
        Some d \<Rightarrow> if d < base then read_digits base (v * base + d) cs else None
      | None \<Rightarrow> None)"

definition from_chars :: "nat \<Rightarrow> string \<Rightarrow> nat option" where
  "from_chars base s =
     (if s = [] then None
      else Option.bind (read_digits base 0 s) (\<lambda>v. if v \<le> u64_max then Some v else None))"

definition parse_u64 :: "string \<Rightarrow> nat option" where
  "parse_u64 s =
     (if s = [] \<or> s = ''UNKNOWN'' then None
      else if 2 < length s \<and> (take 2 s = ''0x'' \<or> take 2 s = ''0X'') then from_chars 16 (drop 2 s)
      else from_chars 10 s)"

definition fu64 :: "text_fields \<Rightarrow> string \<Rightarrow> nat option" where
  "fu64 f key = Option.bind (f key) parse_u64"

definition fu32 :: "text_fields \<Rightarrow> string \<Rightarrow> nat option" where
  "fu32 f key = Option.bind (fu64 f key) (\<lambda>v. if u32_max < v then None else Some v)"

text \<open>The first value that is there, and a value with a default.\<close>

primrec first_some :: "'a option list \<Rightarrow> 'a option" where
  "first_some [] = None"
| "first_some (x # xs) = (case x of None \<Rightarrow> first_some xs | Some v \<Rightarrow> Some v)"

definition value_or :: "'a option \<Rightarrow> 'a \<Rightarrow> 'a" where
  "value_or x d = (case x of None \<Rightarrow> d | Some v \<Rightarrow> v)"

lemma value_or_simps [simp]: "value_or None d = d" "value_or (Some v) d = v"
  by (simp_all add: value_or_def)

lemma parse_u64_le: "parse_u64 s = Some v \<Longrightarrow> v \<le> u64_max"
  by (auto simp: parse_u64_def from_chars_def bind_eq_Some_conv split: if_splits)

lemma fu64_le: "fu64 f key = Some v \<Longrightarrow> v \<le> u64_max"
  by (auto simp: fu64_def bind_eq_Some_conv dest: parse_u64_le)

lemma fu32_le: "fu32 f key = Some v \<Longrightarrow> v \<le> u32_max"
  by (auto simp: fu32_def bind_eq_Some_conv split: if_splits)

text \<open>64-bit sums and differences that wrap around.\<close>

definition plus64 :: "nat \<Rightarrow> nat \<Rightarrow> nat" where
  "plus64 a b = wrap64 (a + b)"

definition minus64 :: "nat \<Rightarrow> nat \<Rightarrow> nat" where
  "minus64 a b = wrap64 (a + 18446744073709551616 - wrap64 b)"

fun contains_text :: "string \<Rightarrow> string \<Rightarrow> bool" where
  "contains_text s [] \<longleftrightarrow> s = []"
| "contains_text s (c # cs) \<longleftrightarrow> take (length s) (c # cs) = s \<or> contains_text s cs"

subsection \<open>Ordered maps\<close>

fun omap_put :: "'k::linorder \<Rightarrow> 'v \<Rightarrow> ('k \<times> 'v) list \<Rightarrow> ('k \<times> 'v) list" where
  "omap_put k v [] = [(k, v)]"
| "omap_put k v ((k', v') # m) =
     (if k = k' then (k, v) # m
      else if k < k' then (k, v) # (k', v') # m
      else (k', v') # omap_put k v m)"

lemma map_of_omap_put [simp]: "map_of (omap_put k v m) = (map_of m)(k \<mapsto> v)"
  by (induction k v m rule: omap_put.induct) (auto simp: fun_eq_iff)

lemma omap_put_subset: "set (omap_put k v m) \<subseteq> insert (k, v) (set m)"
  by (induction k v m rule: omap_put.induct) auto

lemma sorted_omap_put: "sorted_wrt (<) (map fst m) \<Longrightarrow> sorted_wrt (<) (map fst (omap_put k v m))"
proof (induction k v m rule: omap_put.induct)
  case (2 k v k' v' m)
  have keys: "\<forall>x \<in> set (omap_put k v m). x = (k, v) \<or> x \<in> set m" using omap_put_subset [of k v m] by auto
  consider "k = k'" | "k < k'" | "k' < k" by (rule linorder_cases)
  then show ?case
  proof cases
    case 2
    then show ?thesis using \<open>sorted_wrt (<) (map fst ((k', v') # m))\<close> by (auto intro: less_trans)
  next
    case 3
    then show ?thesis using "2.IH" "2.prems" keys by (auto dest: less_not_sym)
  qed (use "2.prems" in simp)
qed simp

end
