(* ===== verification/MaterializationGraph.thy ===== *)
theory MaterializationGraph
  imports Timeline Hashing
begin

section \<open>The runtime materialization graph\<close>

text \<open>
  Models the graph builder of \<^verbatim>\<open>src/runtime/materialization_graph.cpp\<close>: the events of
  a run are folded into a graph of memory regions, backings and images whose nodes get generations.
  The builder is passed explicitly; a node is reached by its number as with \<open>vector::at\<close>, so
  a number outside the graph has no value (the code would throw). Event fields and numbers are as in
  \<open>Timeline\<close>, generations wrap at 32 bits, addresses at 64. Maps that are only looked up are
  functions; the two that are walked (\<open>backings\<close>, \<open>regions\<close>) keep the key order. The
  Linux build is modelled. The contents of artifact files are an argument.
\<close>

subsection \<open>Data\<close>

datatype node_kind =
    OriginalImage | OriginalImageRegion | AnonymousRegion | MemfdBacking | TmpfileBacking | ReleasedFile
  | CrossProcessRegion | ReplacementImage | MemoryDump | ReconstructedImage | InstalledImage

primrec kind_code :: "node_kind \<Rightarrow> nat" where
  "kind_code OriginalImage = 0"
| "kind_code OriginalImageRegion = 1"
| "kind_code AnonymousRegion = 2"
| "kind_code MemfdBacking = 3"
| "kind_code TmpfileBacking = 4"
| "kind_code ReleasedFile = 5"
| "kind_code CrossProcessRegion = 6"
| "kind_code ReplacementImage = 7"
| "kind_code MemoryDump = 8"
| "kind_code ReconstructedImage = 9"
| "kind_code InstalledImage = 10"

datatype edge_kind =
    AllocatedFrom | WrittenFrom | MutatedFrom | CopiedFrom | MaterializedByRuntime | ProtectedExecutable
  | FirstExecutedAs | DumpedAs | ReconstructedAs | ExecHandoffTo | InstalledAs | ChildInherited

record mat_node =
  mn_id :: nat
  mn_kind :: node_kind
  mn_generation :: "nat option"
  mn_executed :: bool
  mn_cross :: bool
  mn_process_uid :: nat
  mn_pid :: nat
  mn_thread :: "nat option"
  mn_creator_uid :: nat
  mn_creator_tid :: "nat option"
  mn_writer_uid :: nat
  mn_writer_tid :: "nat option"
  mn_writer_gen :: "nat option"
  mn_write_first :: nat
  mn_write_last :: nat
  mn_exec_uid :: nat
  mn_exec_tid :: "nat option"
  mn_exec_seq :: nat
  mn_exec_address :: nat
  mn_seq :: nat
  mn_t_us :: nat
  mn_space :: coordinate_space
  mn_basis :: coordinate_basis
  mn_address :: nat
  mn_size :: nat
  mn_identity :: string
  mn_path :: string
  mn_device :: nat
  mn_inode :: nat
  mn_sha256 :: string
  mn_evidence :: string
  mn_image :: string
  mn_detail :: string

definition empty_node :: mat_node where
  "empty_node =
     \<lparr>mn_id = 0, mn_kind = AnonymousRegion, mn_generation = None, mn_executed = False, mn_cross = False,
      mn_process_uid = 0, mn_pid = 0, mn_thread = None, mn_creator_uid = 0, mn_creator_tid = None,
      mn_writer_uid = 0, mn_writer_tid = None, mn_writer_gen = None, mn_write_first = 0, mn_write_last = 0,
      mn_exec_uid = 0, mn_exec_tid = None, mn_exec_seq = 0, mn_exec_address = 0, mn_seq = 0, mn_t_us = 0,
      mn_space = SpaceUnknown, mn_basis = BasisUnknown, mn_address = 0, mn_size = 0, mn_identity = [],
      mn_path = [], mn_device = 0, mn_inode = 0, mn_sha256 = [], mn_evidence = ''OBSERVED'', mn_image = [],
      mn_detail = []\<rparr>"

record mat_edge =
  me_id :: nat
  me_source :: "nat option"
  me_destination :: nat
  me_kind :: edge_kind
  me_source_gen :: "nat option"
  me_writer_gen :: "nat option"
  me_process_uid :: nat
  me_thread :: "nat option"
  me_seq :: nat
  me_t_us :: nat
  me_basis :: coordinate_basis
  me_address :: nat
  me_size :: nat
  me_evidence :: string
  me_detail :: string

record divergence =
  dv_seq :: nat
  dv_process_uid :: nat
  dv_kind :: string
  dv_expectation :: string
  dv_observation :: string

text \<open>What the builder keeps about a node beside the graph.\<close>

record node_state =
  ns_write_confirmed :: bool
  ns_transition :: bool
  ns_handoff :: bool
  ns_zero_basis :: bool
  ns_write_edge :: bool
  ns_writer_gen :: "nat option"
  ns_byte_source_gen :: "nat option"
  ns_executor_gen :: "nat option"
  ns_mutation_parent :: "nat option"
  ns_executor_tid :: "nat option"

definition fresh_state :: node_state where
  "fresh_state =
     \<lparr>ns_write_confirmed = False, ns_transition = False, ns_handoff = False, ns_zero_basis = False,
      ns_write_edge = False, ns_writer_gen = None, ns_byte_source_gen = None, ns_executor_gen = None,
      ns_mutation_parent = None, ns_executor_tid = None\<rparr>"

type_synonym region_key = "nat \<times> nat \<times> nat \<times> nat"

record builder =
  mb_nodes :: "mat_node list"
  mb_edges :: "mat_edge list"
  mb_divergences :: "divergence list"
  mb_states :: "node_state list"
  mb_original :: "nat \<rightharpoonup> nat"
  mb_thread_gen :: "nat \<times> nat \<rightharpoonup> nat"
  mb_thread_node :: "nat \<times> nat \<rightharpoonup> nat"
  mb_backings :: "((nat \<times> string \<times> nat) \<times> nat) list"
  mb_regions :: "(region_key \<times> nat) list"
  mb_artifacts :: "string \<rightharpoonup> nat"
  mb_backing_capture :: "nat \<times> nat \<Rightarrow> bool"
  mb_region_capture :: "nat \<times> nat \<times> nat \<Rightarrow> bool"
  mb_generated :: "nat set"
  mb_latest :: "nat \<rightharpoonup> nat"

definition empty_builder :: builder where
  "empty_builder =
     \<lparr>mb_nodes = [], mb_edges = [], mb_divergences = [], mb_states = [], mb_original = Map.empty,
      mb_thread_gen = Map.empty, mb_thread_node = Map.empty, mb_backings = [], mb_regions = [],
      mb_artifacts = Map.empty, mb_backing_capture = (\<lambda>_. False), mb_region_capture = (\<lambda>_. False),
      mb_generated = {}, mb_latest = Map.empty\<rparr>"

subsection \<open>Field helpers\<close>

definition backing_kind :: "string \<Rightarrow> node_kind" where
  "backing_kind k =
     (if contains_text ''tmpfile'' k then TmpfileBacking
      else if contains_text ''released_file'' k then ReleasedFile else MemfdBacking)"

definition image_kind :: "node_kind \<Rightarrow> bool" where
  "image_kind k \<longleftrightarrow> k \<in> {OriginalImage, OriginalImageRegion, ReplacementImage, ReconstructedImage, InstalledImage}"

definition memory_kind :: "node_kind \<Rightarrow> bool" where
  "memory_kind k \<longleftrightarrow> k \<in> {AnonymousRegion, MemfdBacking, TmpfileBacking, ReleasedFile, CrossProcessRegion}"

definition executable_protection :: "text_fields \<Rightarrow> bool" where
  "executable_protection f \<longleftrightarrow>
     field_is f ''armed_execute_breakpoint'' ''true'' \<or> field_is f ''materialization_candidate'' ''true'' \<or>
     (case fu64 f ''requested_prot'' of
        None \<Rightarrow> False
      | Some v \<Rightarrow> v div 4 mod 2 \<noteq> 0 \<or> v = 0x10 \<or> v = 0x20 \<or> v = 0x40 \<or> v = 0x80)"

definition handoff_subject :: string where
  "handoff_subject = ''runtime_backing_exec_handoff''"

text \<open>The thread of an event: a field, the scope, or the kinds for which the process id is the thread's.\<close>

definition event_tid :: "timeline_event \<Rightarrow> nat option" where
  "event_tid e =
     (let f = te_fields e in
      case first_some (map (fu32 f)
          [''writer_tid'', ''thread_id'', ''executor_tid'', ''backing_executor_tid'', ''creator_tid'']) of
        Some v \<Rightarrow> Some v
      | None \<Rightarrow>
          if (case f ''scope'' of None \<Rightarrow> False
              | Some sc \<Rightarrow> sc \<in> {''root_thread'', ''child_thread'', ''root_process'', ''child_process'', ''descendant_process''})
          then Some (te_pid e)
          else if te_kind e = FileWrite then Some (te_pid e)
          else if te_kind e = ProcessStart \<and> te_subject e = handoff_subject then Some (te_pid e)
          else if te_kind e \<in> {MemoryAllocate, MemoryProtect, MemoryWrite, FileCreate, MaterializedExecute}
          then Some (te_pid e)
          else None)"

definition strip_runtime :: "string \<Rightarrow> string" where
  "strip_runtime k = (if take 8 k = ''runtime_'' then drop 8 k else k)"

text \<open>The backing an event or artifact names.\<close>

definition named_backing :: "text_fields \<Rightarrow> (nat \<times> string) option" where
  "named_backing f =
     (case (fu64 f ''backing_id'', f ''backing_kind'') of
        (Some bid, Some k) \<Rightarrow> Some (bid, strip_runtime k)
      | _ \<Rightarrow> None)"

subsection \<open>Nodes and edges\<close>

definition node_at :: "builder \<Rightarrow> nat \<Rightarrow> mat_node option" where
  "node_at b i = (if 0 < i \<and> i \<le> length (mb_nodes b) then Some (mb_nodes b ! (i - 1)) else None)"

definition state_at :: "builder \<Rightarrow> nat \<Rightarrow> node_state option" where
  "state_at b i = (if 0 < i \<and> i \<le> length (mb_states b) then Some (mb_states b ! (i - 1)) else None)"

definition on_node :: "nat \<Rightarrow> (mat_node \<Rightarrow> mat_node) \<Rightarrow> builder \<Rightarrow> builder option" where
  "on_node i g b =
     map_option (\<lambda>n. b\<lparr>mb_nodes := (mb_nodes b)[i - 1 := g n]\<rparr>) (node_at b i)"

definition on_state :: "nat \<Rightarrow> (node_state \<Rightarrow> node_state) \<Rightarrow> builder \<Rightarrow> builder option" where
  "on_state i g b =
     map_option (\<lambda>s. b\<lparr>mb_states := (mb_states b)[i - 1 := g s]\<rparr>) (state_at b i)"

definition add_node :: "mat_node \<Rightarrow> builder \<Rightarrow> nat \<times> builder" where
  "add_node n b =
     (let i = length (mb_nodes b) + 1 in
      (i, b\<lparr>mb_nodes := mb_nodes b @ [n\<lparr>mn_id := i\<rparr>], mb_states := mb_states b @ [fresh_state]\<rparr>))"

definition add_edge ::
  "nat option \<Rightarrow> nat \<Rightarrow> edge_kind \<Rightarrow> timeline_event option \<Rightarrow> string \<Rightarrow> string \<Rightarrow> nat option \<Rightarrow> builder \<Rightarrow> builder option" where
  "add_edge src dst kind e evidence detail writer_gen b =
     do {
       n \<leftarrow> node_at b dst;
       let x = \<lparr>me_id = length (mb_edges b) + 1, me_source = src, me_destination = dst, me_kind = kind,
             me_source_gen = None, me_writer_gen = writer_gen,
             me_process_uid = (case e of Some e \<Rightarrow> te_process_uid e | None \<Rightarrow> mn_process_uid n),
             me_thread = (case e of Some e \<Rightarrow> event_tid e | None \<Rightarrow> mn_thread n),
             me_seq = (case e of Some e \<Rightarrow> te_seq e | None \<Rightarrow> mn_seq n),
             me_t_us = (case e of Some e \<Rightarrow> te_t_us e | None \<Rightarrow> mn_t_us n),
             me_basis = mn_basis n, me_address = mn_address n, me_size = mn_size n,
             me_evidence = evidence, me_detail = detail\<rparr>;
       Some (b\<lparr>mb_edges := mb_edges b @ [x]\<rparr>)
     }"

text \<open>The last edge, as \<open>edges.back()\<close>.\<close>

definition on_last_edge :: "(mat_edge \<Rightarrow> mat_edge) \<Rightarrow> builder \<Rightarrow> builder option" where
  "on_last_edge g b =
     (if mb_edges b = [] then None
      else Some (b\<lparr>mb_edges := butlast (mb_edges b) @ [g (last (mb_edges b))]\<rparr>))"

definition active_generation :: "builder \<Rightarrow> timeline_event \<Rightarrow> nat option" where
  "active_generation b e = Option.bind (event_tid e) (\<lambda>t. mb_thread_gen b (te_process_uid e, t))"

definition active_node :: "builder \<Rightarrow> timeline_event \<Rightarrow> nat option" where
  "active_node b e = Option.bind (event_tid e) (\<lambda>t. mb_thread_node b (te_process_uid e, t))"

text \<open>Making a node the one its thread runs in.\<close>

definition enter_thread :: "timeline_event \<Rightarrow> nat \<Rightarrow> nat \<Rightarrow> builder \<Rightarrow> builder" where
  "enter_thread e i gen b =
     (case event_tid e of
        None \<Rightarrow> b
      | Some t \<Rightarrow> b\<lparr>mb_thread_gen := (mb_thread_gen b)((te_process_uid e, t) \<mapsto> gen),
                   mb_thread_node := (mb_thread_node b)((te_process_uid e, t) \<mapsto> i)\<rparr>)"

subsection \<open>Finding or making nodes\<close>

text \<open>The nodes that are made for an original image, a backing, a region and a mutation.\<close>

definition original_node :: "timeline_event \<Rightarrow> mat_node" where
  "original_node e =
     (let uid = te_process_uid e; tid = event_tid e in
      empty_node\<lparr>mn_kind := OriginalImage, mn_generation := Some 0, mn_executed := True,
        mn_process_uid := uid, mn_pid := te_pid e, mn_creator_uid := uid, mn_creator_tid := tid,
        mn_exec_uid := uid, mn_exec_tid := tid, mn_exec_seq := te_seq e, mn_seq := te_seq e,
        mn_t_us := te_t_us e, mn_space := Va, mn_basis := ProcessImage, mn_image := te_image e,
        mn_path := te_image e, mn_identity := ''process:'' @ to_dec uid @ '':original_image'',
        mn_evidence := ''CONFIRMED'', mn_detail := ''process image observed at runtime start''\<rparr>)"

definition backing_node :: "timeline_event \<Rightarrow> nat \<Rightarrow> string \<Rightarrow> nat \<Rightarrow> mat_node" where
  "backing_node e uid kind bid =
     (let f = te_fields e in
      empty_node\<lparr>mn_kind := backing_kind kind, mn_process_uid := uid, mn_pid := te_pid e,
        mn_thread := event_tid e,
        mn_creator_uid := value_or (fu64 f ''backing_creator_process_uid'') uid,
        mn_creator_tid := first_some [fu32 f ''backing_creator_tid'', fu32 f ''creator_tid'', event_tid e],
        mn_seq := te_seq e, mn_t_us := te_t_us e, mn_basis := BasisUnknown,
        mn_identity := ''process:'' @ to_dec uid @ '':'' @ kind @ '':'' @ to_dec bid,
        mn_path := value_or (f ''backing_path'') [], mn_device := value_or (fu64 f ''backing_device'') 0,
        mn_inode := value_or (fu64 f ''backing_inode'') 0, mn_image := te_image e,
        mn_evidence := ''CONFIRMED'', mn_detail := ''runtime-created backing identity''\<rparr>)"

definition region_node :: "timeline_event \<Rightarrow> nat \<Rightarrow> nat \<Rightarrow> nat \<Rightarrow> node_kind \<Rightarrow> bool \<Rightarrow> mat_node" where
  "region_node e uid start fin kind cross =
     (let own = (uid = te_process_uid e) in
      empty_node\<lparr>mn_kind := kind, mn_process_uid := uid,
        mn_pid := (if own then te_pid e else value_or (fu32 (te_fields e) ''target_pid'') 0),
        mn_thread := (if own then event_tid e else None), mn_seq := te_seq e, mn_t_us := te_t_us e,
        mn_space := Va, mn_basis := MemoryRegion, mn_address := start, mn_size := minus64 fin start,
        mn_image := te_image e, mn_cross := cross, mn_evidence := ''OBSERVED'',
        mn_identity := ''process:'' @ to_dec uid @ '':va:0x'' @ to_hex start @ ''-0x'' @ to_hex fin\<rparr>)"

definition mutation_node :: "timeline_event \<Rightarrow> nat \<Rightarrow> nat \<Rightarrow> nat \<Rightarrow> mat_node \<Rightarrow> mat_node" where
  "mutation_node e uid start fin p =
     empty_node\<lparr>mn_kind := AnonymousRegion, mn_process_uid := uid, mn_pid := te_pid e,
       mn_thread := event_tid e, mn_creator_uid := mn_creator_uid p, mn_creator_tid := mn_creator_tid p,
       mn_writer_uid := te_process_uid e, mn_writer_tid := event_tid e, mn_write_first := te_seq e,
       mn_write_last := te_seq e, mn_seq := te_seq e, mn_t_us := te_t_us e, mn_space := Va,
       mn_basis := MemoryRegion, mn_address := start, mn_size := minus64 fin start, mn_image := te_image e,
       mn_evidence := ''CONFIRMED'', mn_identity := mn_identity p @ '':mutation:'' @ to_dec (te_seq e),
       mn_detail := ''same anonymous mapping bytes changed after a prior confirmed execution; awaiting post-mutation execution before assigning the next generation''\<rparr>"

definition ensure_original :: "timeline_event \<Rightarrow> builder \<Rightarrow> nat \<times> builder" where
  "ensure_original e b =
     (let uid = te_process_uid e in
      case mb_original b uid of
        Some i \<Rightarrow> (i, b)
      | None \<Rightarrow>
          let (i, b1) = add_node (original_node e) b;
              first_tid = value_or (fu32 (te_fields e) ''initial_thread_id'') (te_pid e)
          in (i, b1\<lparr>mb_original := (mb_original b1)(uid \<mapsto> i), mb_latest := (mb_latest b1)(uid \<mapsto> i),
                mb_thread_gen := (mb_thread_gen b1)((uid, first_tid) \<mapsto> 0),
                mb_thread_node := (mb_thread_node b1)((uid, first_tid) \<mapsto> i)\<rparr>))"

definition ensure_backing :: "timeline_event \<Rightarrow> nat \<Rightarrow> string \<Rightarrow> nat \<Rightarrow> builder \<Rightarrow> (nat \<times> builder) option" where
  "ensure_backing e uid kind bid b =
     (case map_of (mb_backings b) (uid, kind, bid) of
        Some i \<Rightarrow> Some (i, b)
      | None \<Rightarrow>
          do {
            let (i, b1) = add_node (backing_node e uid kind bid) b;
            let b2 = b1\<lparr>mb_backings := omap_put (uid, kind, bid) i (mb_backings b1)\<rparr>;
            b3 \<leftarrow> on_state i (\<lambda>s. s\<lparr>ns_zero_basis := True,
                    ns_write_confirmed := ns_write_confirmed s \<or> mb_backing_capture b2 (uid, bid)\<rparr>) b2;
            Some (i, b3)
          })"

text \<open>Regions that overlap a range, in key order.\<close>

definition overlaps :: "nat \<Rightarrow> nat \<Rightarrow> nat \<Rightarrow> region_key \<times> nat \<Rightarrow> bool" where
  "overlaps uid start fin = (\<lambda>((pu, a, z, k), i). pu = uid \<and> a < fin \<and> start < z)"

definition region_end :: "nat \<Rightarrow> nat \<Rightarrow> nat" where
  "region_end start fin = (if fin \<le> start then plus64 start 1 else fin)"

definition ensure_region ::
  "timeline_event \<Rightarrow> nat \<Rightarrow> nat \<Rightarrow> nat \<Rightarrow> node_kind \<Rightarrow> bool \<Rightarrow> builder \<Rightarrow> (nat \<times> builder) option" where
  "ensure_region e uid start fin0 kind cross b =
     (let fin = region_end start fin0; key = (uid, start, fin, kind_code kind) in
      case map_of (mb_regions b) key of
        Some i \<Rightarrow> Some (i, b)
      | None \<Rightarrow>
          (case find (\<lambda>r. overlaps uid start fin r \<and> snd (snd (snd (fst r))) = kind_code kind) (mb_regions b) of
             Some r \<Rightarrow> Some (snd r, b)
           | None \<Rightarrow>
               do {
                 let (i, b1) = add_node (region_node e uid start fin kind cross) b;
                 let b2 = b1\<lparr>mb_regions := omap_put key i (mb_regions b1)\<rparr>;
                 b3 \<leftarrow> (if mb_region_capture b2 (uid, start, fin)
                        then on_state i (\<lambda>s. s\<lparr>ns_write_confirmed := True\<rparr>) b2 else Some b2);
                 Some (i, b3)
               }))"

definition image_relation :: "text_fields \<Rightarrow> string option" where
  "image_relation f = first_some [f ''image_relation'', f ''target_image_relation'']"

definition relation_to_image :: "text_fields \<Rightarrow> bool" where
  "relation_to_image f \<longleftrightarrow>
     image_relation f = Some ''original_image'' \<or> image_relation f = Some ''replacement_at_original_base''"

definition region_kind :: "timeline_event \<Rightarrow> bool \<Rightarrow> node_kind" where
  "region_kind e cross =
     (if image_relation (te_fields e) = Some ''replacement_at_original_base'' then ReplacementImage
      else if image_relation (te_fields e) = Some ''original_image'' then OriginalImageRegion
      else if cross then CrossProcessRegion else AnonymousRegion)"

definition existing_region :: "nat \<Rightarrow> nat \<Rightarrow> nat \<Rightarrow> builder \<Rightarrow> nat option" where
  "existing_region uid start fin b =
     map_option snd (find (overlaps uid start (region_end start fin)) (mb_regions b))"

definition existing_region_for_execution :: "timeline_event \<Rightarrow> builder \<Rightarrow> nat option" where
  "existing_region_for_execution e b =
     (let f = te_fields e in
      case first_some [fu64 f ''range_start'', fu64 f ''address'', parse_u64 (te_subject e)] of
        None \<Rightarrow> None
      | Some start \<Rightarrow>
          let fin = value_or (fu64 f ''range_end'') (plus64 start (max 1 (value_or (fu64 f ''size'') 1))) in
          map_option snd
            (find (\<lambda>r. overlaps (te_process_uid e) start fin r \<and>
                     snd (snd (snd (fst r))) \<in> kind_code ` {CrossProcessRegion, ReplacementImage, OriginalImageRegion})
              (mb_regions b)))"

definition event_region :: "timeline_event \<Rightarrow> nat \<Rightarrow> bool \<Rightarrow> builder \<Rightarrow> (nat \<times> builder) option" where
  "event_region e uid cross b =
     (let f = te_fields e;
          start0 = first_some [fu64 f ''range_start'', fu64 f ''address''];
          sz = value_or (fu64 f ''written_bytes'') (value_or (fu64 f ''size'') 1);
          fin0 = first_some [fu64 f ''range_end'', map_option (\<lambda>s. plus64 s (max 1 sz)) start0];
          start = value_or (first_some [start0, parse_u64 (te_subject e)]) 0
      in ensure_region e uid start (value_or fin0 (plus64 start (max 1 sz))) (region_kind e cross) cross b)"

text \<open>New bytes in a mapping that was executed before: a new node for the same region.\<close>

definition narrow_last_edge :: "text_fields \<Rightarrow> builder \<Rightarrow> builder option" where
  "narrow_last_edge f b =
     (case fu64 f ''range_start'' of
        None \<Rightarrow> Some b
      | Some rs \<Rightarrow> on_last_edge (\<lambda>x.
          let x1 = x\<lparr>me_address := rs\<rparr> in
          case fu64 f ''range_end'' of
            Some re \<Rightarrow> if rs < re then x1\<lparr>me_size := re - rs\<rparr> else x1
          | None \<Rightarrow> x1) b)"

definition begin_mutation ::
  "timeline_event \<Rightarrow> nat \<Rightarrow> nat \<Rightarrow> nat \<Rightarrow> nat \<Rightarrow> mat_node \<Rightarrow> builder \<Rightarrow> (nat option \<times> builder) option" where
  "begin_mutation e uid start fin prior p b =
     do {
       let (i, b1) = add_node (mutation_node e uid start fin p) b;
       let b2 = b1\<lparr>mb_regions := omap_put (uid, start, fin, kind_code AnonymousRegion) i (mb_regions b1)\<rparr>;
       b3 \<leftarrow> on_state i (\<lambda>s. s\<lparr>ns_write_confirmed := True, ns_write_edge := True,
               ns_mutation_parent := mn_generation p\<rparr>) b2;
       b4 \<leftarrow> add_edge (Some prior) i MutatedFrom (Some e) ''CONFIRMED''
               ''bounded same-mapping byte mutation observed after prior confirmed execution; generation advances only if this mutated mapping is later actually executed''
               None b3;
       b5 \<leftarrow> narrow_last_edge (te_fields e) b4;
       Some (Some i, b5)
     }"

definition roll_same_mapping_mutation :: "timeline_event \<Rightarrow> nat \<Rightarrow> builder \<Rightarrow> (nat option \<times> builder) option" where
  "roll_same_mapping_mutation e uid b =
     (let f = te_fields e in
      if \<not> field_is f ''runtime_mutation_generation_candidate'' ''true'' then Some (None, b)
      else case (fu64 f ''mapping_range_start'', fu64 f ''mapping_range_end'') of
        (Some start, Some fin) \<Rightarrow>
          if fin \<le> start then Some (None, b)
          else (case map_of (mb_regions b) (uid, start, fin, kind_code AnonymousRegion) of
            None \<Rightarrow> Some (None, b)
          | Some prior \<Rightarrow>
              Option.bind (node_at b prior) (\<lambda>p.
                if mn_kind p \<noteq> AnonymousRegion \<or> \<not> mn_executed p \<or> mn_generation p = None then Some (None, b)
                else begin_mutation e uid start fin prior p b))
      | _ \<Rightarrow> Some (None, b))"

subsection \<open>Generations\<close>

text \<open>
  A generation is given once, and only to a node whose write is confirmed: one more than the
  generation of the mutated node or of the writer, or 1 for the first generated code of a process.
\<close>

definition next_generation :: "builder \<Rightarrow> mat_node \<Rightarrow> node_state \<Rightarrow> nat option" where
  "next_generation b n s =
     (case first_some [ns_mutation_parent s, ns_writer_gen s] of
        Some base \<Rightarrow> Some (wrap32 (base + 1))
      | None \<Rightarrow> if mn_process_uid n \<notin> mb_generated b then Some 1 else None)"

definition assign_generation :: "nat \<Rightarrow> builder \<Rightarrow> builder option" where
  "assign_generation i b =
     do {
       n \<leftarrow> node_at b i;
       s \<leftarrow> state_at b i;
       if mn_generation n \<noteq> None \<or> \<not> ns_write_confirmed s then Some b
       else on_node i (\<lambda>n. let g = next_generation b n s in
              n\<lparr>mn_generation := g, mn_evidence := (if g = None then ''PROVENANCE_UNKNOWN'' else ''CONFIRMED'')\<rparr>) b
     }"

text \<open>Who created, wrote and first executed a node, copied from another.\<close>

definition with_writer :: "mat_node \<Rightarrow> mat_node \<Rightarrow> mat_node" where
  "with_writer src n =
     n\<lparr>mn_creator_uid := mn_creator_uid src, mn_creator_tid := mn_creator_tid src, mn_writer_uid := mn_writer_uid src,
       mn_writer_tid := mn_writer_tid src, mn_writer_gen := mn_writer_gen src, mn_write_first := mn_write_first src,
       mn_write_last := mn_write_last src\<rparr>"

definition with_execution :: "mat_node \<Rightarrow> mat_node \<Rightarrow> mat_node" where
  "with_execution src n =
     n\<lparr>mn_exec_uid := mn_exec_uid src, mn_exec_tid := mn_exec_tid src, mn_exec_seq := mn_exec_seq src,
       mn_exec_address := mn_exec_address src\<rparr>"

definition first_execution :: "timeline_event \<Rightarrow> nat option \<Rightarrow> mat_node \<Rightarrow> mat_node" where
  "first_execution e addr n =
     (if mn_exec_seq n \<noteq> 0 then n
      else n\<lparr>mn_exec_uid := te_process_uid e, mn_exec_tid := event_tid e, mn_exec_seq := te_seq e,
             mn_exec_address := value_or addr (mn_exec_address n)\<rparr>)"

text \<open>The edge for bytes whose write was not seen, drawn once.\<close>

definition unseen_write_edge :: "timeline_event \<Rightarrow> nat \<Rightarrow> string \<Rightarrow> builder \<Rightarrow> builder option" where
  "unseen_write_edge e i detail b =
     do {
       s \<leftarrow> state_at b i;
       if ns_write_confirmed s \<and> \<not> ns_write_edge s
       then do {
         b1 \<leftarrow> add_edge None i MaterializedByRuntime (Some e) ''CONFIRMED'' detail None b;
         on_state i (\<lambda>s. s\<lparr>ns_write_edge := True\<rparr>) b1
       }
       else Some b
     }"

subsection \<open>Events\<close>

text \<open>A node with a generation is the one its process and thread run in from now on.\<close>

definition enter_generated :: "timeline_event \<Rightarrow> nat \<Rightarrow> builder \<Rightarrow> builder option" where
  "enter_generated e i b =
     map_option (\<lambda>n. case mn_generation n of
         None \<Rightarrow> b
       | Some g \<Rightarrow> enter_thread e i g (b\<lparr>mb_latest := (mb_latest b)(te_process_uid e \<mapsto> i)\<rparr>))
     (node_at b i)"

text \<open>A process that runs a backing it was handed.\<close>

definition execute_backing :: "timeline_event \<Rightarrow> nat \<Rightarrow> nat \<Rightarrow> builder \<Rightarrow> builder option" where
  "execute_backing e bid i b =
     do {
       b1 \<leftarrow> on_state i (\<lambda>s. s\<lparr>ns_handoff := True, ns_transition := True, ns_write_confirmed :=
              ns_write_confirmed s \<or> 0 < value_or (fu64 (te_fields e) ''backing_write_bytes'') 0 \<or>
              mb_backing_capture b (te_process_uid e, bid)\<rparr>) b;
       b2 \<leftarrow> unseen_write_edge e i ''runtime backing contains materialized bytes before exact exec handoff; writer identity, write time, and source byte generation remain UNKNOWN'' b1;
       b3 \<leftarrow> assign_generation i b2;
       on_node i (\<lambda>n. (first_execution e None (n\<lparr>mn_executed := True\<rparr>))\<lparr>
           mn_evidence := (if mn_generation n = None then ''PROVENANCE_UNKNOWN'' else ''CONFIRMED'')\<rparr>) b3
     }"

definition handed_node :: "timeline_event \<Rightarrow> mat_node \<Rightarrow> mat_node \<Rightarrow> mat_node" where
  "handed_node e n m =
     (with_writer n m)\<lparr>mn_identity := mn_identity n,
       mn_path := value_or (te_fields e ''exec_image_path'') (mn_path n), mn_space := SpaceUnknown,
       mn_basis := ProcessImage, mn_address := 0, mn_size := 0, mn_executed := True,
       mn_generation := mn_generation n, mn_exec_uid := te_process_uid e, mn_exec_tid := event_tid e,
       mn_exec_seq := te_seq e\<rparr>"

definition hand_over :: "timeline_event \<Rightarrow> nat \<Rightarrow> nat \<Rightarrow> builder \<Rightarrow> builder option" where
  "hand_over e i r b =
     do {
       n \<leftarrow> node_at b i;
       s \<leftarrow> state_at b i;
       b1 \<leftarrow> on_node r (handed_node e n) b;
       b2 \<leftarrow> on_state r (\<lambda>t. t\<lparr>ns_write_confirmed := ns_write_confirmed s, ns_handoff := True\<rparr>) b1;
       add_edge (Some i) r ExecHandoffTo (Some e) ''CONFIRMED'' ''exact runtime backing identity matched executed image'' None b2
     }"

definition exec_handoff :: "timeline_event \<Rightarrow> nat \<Rightarrow> string \<Rightarrow> builder \<Rightarrow> builder option" where
  "exec_handoff e bid kind b0 =
     do {
       (i, b1) \<leftarrow> ensure_backing e (te_process_uid e) kind bid b0;
       b2 \<leftarrow> execute_backing e bid i b1;
       (r, b3) \<leftarrow> ensure_region e (te_process_uid e) 0 1 ReplacementImage False b2;
       b4 \<leftarrow> hand_over e i r b3;
       enter_generated e r b4
     }"

text \<open>A backing of the parent process that the child inherits.\<close>

definition inherited_node :: "mat_node \<Rightarrow> mat_node \<Rightarrow> mat_node" where
  "inherited_node p n =
     (with_writer p n)\<lparr>mn_path := mn_path p, mn_device := mn_device p, mn_inode := mn_inode p,
       mn_generation := mn_generation p\<rparr>"

definition inherit_from :: "timeline_event \<Rightarrow> nat \<Rightarrow> nat \<Rightarrow> builder \<Rightarrow> builder option" where
  "inherit_from e parent child b =
     do {
       p \<leftarrow> node_at b parent;
       s \<leftarrow> state_at b parent;
       b1 \<leftarrow> on_node child (inherited_node p) b;
       b2 \<leftarrow> on_state child (\<lambda>_. s) b1;
       add_edge (Some parent) child ChildInherited (Some e) ''CONFIRMED''
         ''runtime backing identity inherited across child creation'' None b2
     }"

definition inherit_backing :: "timeline_event \<Rightarrow> nat \<Rightarrow> builder \<Rightarrow> builder option" where
  "inherit_backing e bid b =
     (case find (\<lambda>((pu, k, bk), i). pu = te_parent_uid e \<and> bk = bid) (mb_backings b) of
        None \<Rightarrow> Some b
      | Some ((pu, k, bk), parent) \<Rightarrow>
          Option.bind (ensure_backing e (te_process_uid e) k bk b) (\<lambda>(child, b). inherit_from e parent child b))"

fun inherit_backings :: "timeline_event \<Rightarrow> string list \<Rightarrow> builder \<Rightarrow> builder option" where
  "inherit_backings e [] b = Some b"
| "inherit_backings e (tok # toks) b =
     (case parse_u64 tok of
        None \<Rightarrow> inherit_backings e toks b
      | Some bid \<Rightarrow> Option.bind (inherit_backing e bid b) (inherit_backings e toks))"

text \<open>A thread starts in the generation and node of its parent thread.\<close>

definition start_thread :: "timeline_event \<Rightarrow> builder \<Rightarrow> builder" where
  "start_thread e b =
     (case (event_tid e, fu32 (te_fields e) ''parent_thread_tid'') of
        (Some tid, Some pt) \<Rightarrow>
          let uid = te_process_uid e;
              b1 = (case mb_thread_gen b (uid, pt) of
                      None \<Rightarrow> b | Some g \<Rightarrow> b\<lparr>mb_thread_gen := (mb_thread_gen b)((uid, tid) \<mapsto> g)\<rparr>)
          in (case mb_thread_node b1 (uid, pt) of
                None \<Rightarrow> b1 | Some i \<Rightarrow> b1\<lparr>mb_thread_node := (mb_thread_node b1)((uid, tid) \<mapsto> i)\<rparr>)
      | _ \<Rightarrow> b)"

definition start_event :: "timeline_event \<Rightarrow> builder \<Rightarrow> builder option" where
  "start_event e b =
     (let f = te_fields e in
      if f ''scope'' = Some ''root_thread'' \<or> f ''scope'' = Some ''child_thread'' then Some (start_thread e b)
      else case (if te_subject e = handoff_subject \<and> field_is f ''exec_image_identity_match'' ''true''
                 then named_backing f else None) of
        Some (bid, kind) \<Rightarrow> exec_handoff e bid kind b
      | None \<Rightarrow>
          let b1 = snd (ensure_original e b) in
          (case f ''inherited_backing_ids'' of
             None \<Rightarrow> Some b1
           | Some ids \<Rightarrow> if te_parent_uid e = 0 then Some b1
                         else inherit_backings e (split_on (CHR '','') ids) b1))"

text \<open>Where an event that names no backing points: the process it targets, and whether that is another one.\<close>

definition target_uid :: "timeline_event \<Rightarrow> nat" where
  "target_uid e = value_or (fu64 (te_fields e) ''target_process_uid'') (te_process_uid e)"

definition allocation_event :: "timeline_event \<Rightarrow> builder \<Rightarrow> builder option" where
  "allocation_event e b =
     do {
       let f = te_fields e;
       let cross = (target_uid e \<noteq> te_process_uid e);
       let plain = (field_is f ''anonymous'' ''true'' \<or> field_is f ''materialization_candidate'' ''true'');
       (found, b) \<leftarrow>
         (case named_backing f of
            Some (bid, kind) \<Rightarrow> map_option (\<lambda>(i, b). (Some i, b)) (ensure_backing e (te_process_uid e) kind bid b)
          | None \<Rightarrow>
              if plain \<or> cross \<or> relation_to_image f then
                do {
                  (i, b) \<leftarrow> event_region e (target_uid e) cross b;
                  b \<leftarrow> on_state i (\<lambda>s. s\<lparr>ns_zero_basis := plain\<rparr>) b;
                  b \<leftarrow> on_node i (\<lambda>n. n\<lparr>mn_creator_uid := te_process_uid e, mn_creator_tid := event_tid e,
                         mn_cross := mn_cross n \<or> cross\<rparr>) b;
                  Some (Some i, b)
                }
              else Some (None, b));
       case found of
         None \<Rightarrow> Some b
       | Some i \<Rightarrow> add_edge (active_node b e) i AllocatedFrom (Some e) ''OBSERVED''
           ''allocation/mapping fact only; does not assign a generation'' (active_generation b e) b
     }"

definition write_confirmed :: "text_fields \<Rightarrow> bool" where
  "write_confirmed f \<longleftrightarrow>
     (f ''success'' \<noteq> None \<longrightarrow> f ''success'' = Some ''true'') \<and>
     (f ''state'' \<noteq> None \<longrightarrow> f ''state'' = Some ''CONFIRMED'' \<or> f ''state'' = Some ''CHANGED_SINCE_PROCESS_CREATE'') \<and>
     value_or (fu64 f ''written_bytes'') 1 \<noteq> 0"

text \<open>The node with a generation that contains the source buffer of a write.\<close>

definition source_node :: "timeline_event \<Rightarrow> builder \<Rightarrow> mat_node option" where
  "source_node e b =
     Option.bind (fu64 (te_fields e) ''source_buffer'') (\<lambda>sb.
       find (\<lambda>n. mn_process_uid n = te_process_uid e \<and> mn_address n \<noteq> 0 \<and> mn_size n \<noteq> 0 \<and> mn_address n \<le> sb \<and>
               sb < plus64 (mn_address n) (mn_size n) \<and> mn_generation n \<noteq> None) (mb_nodes b))"

definition write_target :: "timeline_event \<Rightarrow> bool \<Rightarrow> builder \<Rightarrow> (nat \<times> builder) option" where
  "write_target e mutation b =
     (case named_backing (te_fields e) of
        Some (bid, kind) \<Rightarrow> ensure_backing e (te_process_uid e) kind bid b
      | None \<Rightarrow>
          do {
            (rolled, b) \<leftarrow> (if mutation then roll_same_mapping_mutation e (target_uid e) b else Some (None, b));
            case rolled of
              Some i \<Rightarrow> Some (i, b)
            | None \<Rightarrow> event_region e (target_uid e) (target_uid e \<noteq> te_process_uid e) b
          })"

definition note_write :: "timeline_event \<Rightarrow> bool \<Rightarrow> nat \<Rightarrow> builder \<Rightarrow> builder option" where
  "note_write e mutation i b =
     do {
       b1 \<leftarrow> on_state i (\<lambda>s. s\<lparr>ns_write_confirmed := True\<rparr>) b;
       b2 \<leftarrow> on_node i (\<lambda>n. n\<lparr>mn_writer_uid := te_process_uid e, mn_writer_tid := event_tid e,
               mn_write_first := (if mn_write_first n = 0 then te_seq e else mn_write_first n),
               mn_write_last := te_seq e, mn_evidence := ''CONFIRMED''\<rparr>) b1;
       if mutation then Some b2
       else do {
         b3 \<leftarrow> on_state i (\<lambda>s. s\<lparr>ns_writer_gen := active_generation b e\<rparr>) b2;
         on_node i (\<lambda>n. n\<lparr>mn_writer_gen := active_generation b e\<rparr>) b3
       }
     }"

text \<open>The edges of a write: from the image it changes, from the node of its source bytes, or from its writer.\<close>

definition write_edges :: "timeline_event \<Rightarrow> bool \<Rightarrow> nat \<Rightarrow> nat \<Rightarrow> builder \<Rightarrow> builder option" where
  "write_edges e confirmed i uid b =
     do {
       let state = (if confirmed then ''CONFIRMED'' else ''FAILED'');
       let source = source_node e b;
       b1 \<leftarrow> (case source of
               None \<Rightarrow> Some b
             | Some n \<Rightarrow> on_state i (\<lambda>s. s\<lparr>ns_byte_source_gen := mn_generation n\<rparr>) b);
       n \<leftarrow> node_at b1 i;
       b2 \<leftarrow> (if mn_kind n = OriginalImageRegion
              then add_edge (mb_original b1 uid) i MutatedFrom (Some e) state
                     ''original image region differs from the process-create baseline; incoming byte source may remain UNKNOWN''
                     (active_generation b1 e) b1
              else Some b1);
       case source of
         Some src \<Rightarrow> add_edge (Some (mn_id src)) i WrittenFrom (Some e) state
           ''source buffer lies inside a generation-known runtime node'' (active_generation b2 e) b2
       | None \<Rightarrow>
           if mn_kind n = OriginalImageRegion then Some b2
           else add_edge (active_node b e) i MaterializedByRuntime (Some e) state
             ''runtime write observed; source byte generation intentionally UNKNOWN'' (active_generation b2 e) b2
     }"

definition write_event :: "timeline_event \<Rightarrow> builder \<Rightarrow> builder option" where
  "write_event e b =
     do {
       let f = te_fields e;
       let confirmed = write_confirmed f;
       let mutation = (confirmed \<and> field_is f ''runtime_mutation_generation_candidate'' ''true'');
       (i, b) \<leftarrow> write_target e mutation b;
       b \<leftarrow> (if confirmed then note_write e mutation i b else Some b);
       s \<leftarrow> state_at b i;
       if mutation \<and> ns_mutation_parent s \<noteq> None then Some b
       else do {
         let uid = (if named_backing f = None then target_uid e else te_process_uid e);
         b \<leftarrow> write_edges e confirmed i uid b;
         if confirmed then on_state i (\<lambda>s. s\<lparr>ns_write_edge := True\<rparr>) b else Some b
       }
     }"

definition protect_target :: "timeline_event \<Rightarrow> builder \<Rightarrow> (nat option \<times> builder) option" where
  "protect_target e b =
     (let f = te_fields e; uid = target_uid e; cross = (uid \<noteq> te_process_uid e) in
      case named_backing f of
        Some (bid, kind) \<Rightarrow> map_option (\<lambda>(i, b). (Some i, b)) (ensure_backing e (te_process_uid e) kind bid b)
      | None \<Rightarrow>
          let start = first_some [fu64 f ''range_start'', fu64 f ''address''];
              found = Option.bind start (\<lambda>s.
                existing_region uid s
                  (value_or (fu64 f ''range_end'') (plus64 s (max 1 (value_or (fu64 f ''size'') 1)))) b);
              evidence = (field_is f ''materialization_candidate'' ''true'' \<or> field_is f ''armed_execute_breakpoint'' ''true'' \<or>
                cross \<or> relation_to_image f)
          in (case found of
                Some i \<Rightarrow> Some (Some i, b)
              | None \<Rightarrow> if evidence then map_option (\<lambda>(i, b). (Some i, b)) (event_region e uid cross b)
                        else Some (None, b)))"

definition protect_event :: "timeline_event \<Rightarrow> builder \<Rightarrow> builder option" where
  "protect_event e b =
     (if \<not> executable_protection (te_fields e) then Some b
      else do {
        (found, b) \<leftarrow> protect_target e b;
        case found of
          None \<Rightarrow> Some b
        | Some i \<Rightarrow>
            do {
              b \<leftarrow> on_state i (\<lambda>s. s\<lparr>ns_transition := True\<rparr>) b;
              add_edge (Some i) i ProtectedExecutable (Some e)
                (if field_is (te_fields e) ''success'' ''false'' then ''FAILED'' else ''CONFIRMED'')
                ''observed executable protection/arm; generation is not assigned by protection alone'' None b
            }
      })"

definition note_divergence :: "divergence \<Rightarrow> builder \<Rightarrow> builder" where
  "note_divergence d b = b\<lparr>mb_divergences := mb_divergences b @ [d]\<rparr>"

text \<open>
  The node an execution belongs to. \<open>value_or\<close> evaluates its argument also when it is not used,
  so the region of the event is made even if an existing one is taken.
\<close>

definition execute_target :: "timeline_event \<Rightarrow> builder \<Rightarrow> (nat \<times> builder) option" where
  "execute_target e b =
     (let f = te_fields e; uid = te_process_uid e in
      case named_backing f of
        Some (bid, kind) \<Rightarrow>
          do {
            (i, b) \<leftarrow> ensure_backing e uid kind bid b;
            b \<leftarrow> on_state i (\<lambda>s. s\<lparr>ns_write_confirmed := ns_write_confirmed s \<or> mb_backing_capture b (uid, bid) \<or>
                   0 < value_or (fu64 f ''backing_write_bytes'') 0\<rparr>) b;
            Some (i, b)
          }
      | None \<Rightarrow>
          do {
            let existing = existing_region_for_execution e b;
            (made, b) \<leftarrow> event_region e uid False b;
            let i = value_or existing made;
            n \<leftarrow> node_at b i;
            let captured = (mb_region_capture b (uid, mn_address n, plus64 (mn_address n) (mn_size n)) \<and>
              mn_kind n = AnonymousRegion);
            let changed = (0 < value_or (fu64 f ''changed_bytes'') 0);
            b \<leftarrow> on_state i (\<lambda>s. s\<lparr>ns_write_confirmed := ns_write_confirmed s \<or> captured \<or> changed,
                   ns_zero_basis := ns_zero_basis s \<or> captured\<rparr>) b;
            Some (i, b)
          })"

text \<open>The node's generation and its first execution.\<close>

definition executed_node :: "timeline_event \<Rightarrow> mat_node \<Rightarrow> mat_node" where
  "executed_node e n =
     (first_execution e (fu64 (te_fields e) ''address'') (n\<lparr>mn_executed := True, mn_thread := event_tid e,
        mn_evidence := (if mn_generation n = None then ''PROVENANCE_UNKNOWN'' else mn_evidence n)\<rparr>))
     \<lparr>mn_seq := te_seq e, mn_t_us := te_t_us e\<rparr>"

definition execute_node :: "timeline_event \<Rightarrow> nat \<Rightarrow> builder \<Rightarrow> builder option" where
  "execute_node e i b =
     do {
       b1 \<leftarrow> on_state i (\<lambda>s. s\<lparr>ns_transition := True\<rparr>) b;
       b2 \<leftarrow> unseen_write_edge e i ''nonzero execution-time bytes prove materialization of a runtime-created zero-based region/backing; writer identity, write time, and source byte generation remain UNKNOWN'' b1;
       b3 \<leftarrow> on_state i (\<lambda>s. s\<lparr>ns_executor_gen := active_generation b2 e, ns_executor_tid := event_tid e\<rparr>) b2;
       b4 \<leftarrow> assign_generation i b3;
       on_node i (executed_node e) b4
     }"

definition execution_edge :: "timeline_event \<Rightarrow> nat \<Rightarrow> builder \<Rightarrow> builder option" where
  "execution_edge e i b =
     do {
       n \<leftarrow> node_at b i;
       b1 \<leftarrow> add_edge (Some i) i FirstExecutedAs (Some e) ''CONFIRMED''
              (if mn_generation n \<noteq> None then ''first execution of confirmed runtime materialization''
               else ''execution observed without sufficient prior write/source evidence'') None b;
       case fu64 (te_fields e) ''address'' of
         None \<Rightarrow> Some b1
       | Some a \<Rightarrow> on_last_edge (\<lambda>x. x\<lparr>me_address := a, me_size := 1\<rparr>) b1
     }"

definition mark_generated :: "timeline_event \<Rightarrow> nat \<Rightarrow> builder \<Rightarrow> builder option" where
  "mark_generated e i b =
     map_option (\<lambda>n. if mn_generation n = None then b
         else b\<lparr>mb_generated := insert (te_process_uid e) (mb_generated b)\<rparr>) (node_at b i)"

definition note_changed_image :: "timeline_event \<Rightarrow> nat \<Rightarrow> builder \<Rightarrow> builder option" where
  "note_changed_image e i b =
     map_option (\<lambda>n. if mn_kind n = OriginalImageRegion \<and> 0 < value_or (fu64 (te_fields e) ''changed_bytes'') 0
         then note_divergence \<lparr>dv_seq = te_seq e, dv_process_uid = te_process_uid e,
                dv_kind = ''EXECUTION_TIME_IMAGE_BYTES_CHANGED'',
                dv_expectation = ''process-create original-image executable baseline'',
                dv_observation = ''first executed region differs from baseline''\<rparr> b
         else b) (node_at b i)"

definition execute_event :: "timeline_event \<Rightarrow> builder \<Rightarrow> builder option" where
  "execute_event e b0 =
     do {
       (i, b1) \<leftarrow> execute_target e b0;
       b2 \<leftarrow> execute_node e i b1;
       b3 \<leftarrow> execution_edge e i b2;
       b4 \<leftarrow> mark_generated e i b3;
       b5 \<leftarrow> enter_generated e i b4;
       note_changed_image e i b5
     }"

definition handoff_divergence :: "timeline_event \<Rightarrow> builder \<Rightarrow> builder option" where
  "handoff_divergence e b =
     (let f = te_fields e in
      if te_subject e \<noteq> handoff_subject \<or> \<not> field_is f ''exec_image_identity_match'' ''true'' then Some b
      else do {
        initial \<leftarrow> (case mb_original b (te_process_uid e) of
                     None \<Rightarrow> Some (te_image e)
                   | Some i \<Rightarrow> map_option mn_image (node_at b i));
        Some (case first_some [f ''exec_image_path'', f ''backing_path''] of
                None \<Rightarrow> b
              | Some target \<Rightarrow>
                  if initial = [] \<or> target = initial then b
                  else note_divergence \<lparr>dv_seq = te_seq e, dv_process_uid = te_process_uid e,
                         dv_kind = ''RUNTIME_EXEC_TARGET_DIVERGED'', dv_expectation = ''initial_image='' @ initial,
                         dv_observation = ''runtime_materialized_exec_target='' @ target\<rparr> b)
      })"

definition timeline_step :: "timeline_event \<Rightarrow> builder \<Rightarrow> builder option" where
  "timeline_step e b =
     (case te_kind e of
        ProcessStart \<Rightarrow> Option.bind (start_event e b) (handoff_divergence e)
      | MemoryAllocate \<Rightarrow> allocation_event e b
      | FileCreate \<Rightarrow> allocation_event e b
      | MemoryWrite \<Rightarrow> write_event e b
      | FileWrite \<Rightarrow> write_event e b
      | MemoryProtect \<Rightarrow> protect_event e b
      | MaterializedExecute \<Rightarrow> execute_event e b
      | _ \<Rightarrow> Some b)"

fun run_timeline :: "timeline_event list \<Rightarrow> builder \<Rightarrow> builder option" where
  "run_timeline [] b = Some b"
| "run_timeline (e # es) b = Option.bind (timeline_step e b) (run_timeline es)"

subsection \<open>Artifacts\<close>

text \<open>The contents of the regular files that can be read.\<close>

type_synonym artifact_files = "path \<Rightarrow> bytes option"

definition artifact_nonzero :: "artifact_files \<Rightarrow> runtime_artifact \<Rightarrow> bool" where
  "artifact_nonzero files a \<longleftrightarrow>
     ra_path a \<noteq> [] \<and> (case files (ra_path a) of None \<Rightarrow> False | Some bs \<Rightarrow> list_ex (\<lambda>x. x \<noteq> 0) bs)"

definition artifact_sha :: "artifact_files \<Rightarrow> runtime_artifact \<Rightarrow> string option" where
  "artifact_sha files a =
     (case first_some [ra_fields a ''snapshot_sha256'', ra_fields a ''post_exec_snapshot_sha256''] of
        Some h \<Rightarrow> Some h
      | None \<Rightarrow>
          if ra_path a = [] then Some []
          else case files (ra_path a) of None \<Rightarrow> Some [] | Some bs \<Rightarrow> sha256_bytes bs)"

definition captured_range :: "text_fields \<Rightarrow> (nat \<times> nat) option" where
  "captured_range f =
     (let start = first_some [fu64 f ''memory_address'', fu64 f ''region_start''];
          sz = (case fu64 f ''memory_size'' of
                  Some z \<Rightarrow> z
                | None \<Rightarrow> (case (fu64 f ''region_end'', start) of
                             (Some e, Some s) \<Rightarrow> if s < e then e - s else 0
                           | _ \<Rightarrow> 0))
      in case start of
           None \<Rightarrow> None
         | Some s \<Rightarrow> if sz = 0 then None else Some (s, plus64 s sz))"

definition index_artifact :: "artifact_files \<Rightarrow> runtime_artifact \<Rightarrow> builder \<Rightarrow> builder" where
  "index_artifact files a b =
     (if ra_kind a \<noteq> ''materialized_region'' \<and> ra_kind a \<noteq> ''runtime_backing_elf'' then b
      else
        let nz = artifact_nonzero files a; uid = ra_process_uid a;
            b1 = (case fu64 (ra_fields a) ''backing_id'' of
                    None \<Rightarrow> b
                  | Some bid \<Rightarrow> b\<lparr>mb_backing_capture :=
                      (mb_backing_capture b)((uid, bid) := mb_backing_capture b (uid, bid) \<or> nz)\<rparr>)
        in if ra_kind a \<noteq> ''materialized_region'' then b1
           else case captured_range (ra_fields a) of
             None \<Rightarrow> b1
           | Some (s, e) \<Rightarrow> b1\<lparr>mb_region_capture := (mb_region_capture b1)((uid, s, e) := nz)\<rparr>)"

definition start_builder :: "artifact_files \<Rightarrow> runtime_artifact list \<Rightarrow> builder" where
  "start_builder files arts = fold (index_artifact files) arts empty_builder"

definition find_source_for_artifact :: "runtime_artifact \<Rightarrow> builder \<Rightarrow> nat option" where
  "find_source_for_artifact a b =
     (let f = ra_fields a; uid = ra_process_uid a;
          start = first_some [fu64 f ''memory_address'', fu64 f ''region_start'']
      in first_some
          [Option.bind (fu64 f ''materialization_execute_seq'') (\<lambda>q.
             map_option mn_id (find (\<lambda>n. mn_process_uid n = uid \<and> mn_exec_seq n = q) (mb_nodes b))),
           Option.bind (fu64 f ''backing_id'') (\<lambda>bid.
             first_some
               [map_of (mb_backings b) (uid, strip_runtime (value_or (f ''backing_kind'') ''memfd''), bid),
                map_option snd (find (\<lambda>((pu, k, bk), i). pu = uid \<and> bk = bid) (mb_backings b))]),
           Option.bind start (\<lambda>s.
             map_option mn_id (find (\<lambda>n. mn_process_uid n = uid \<and> mn_address n \<noteq> 0 \<and> mn_size n \<noteq> 0 \<and>
               mn_address n \<le> s \<and> s < plus64 (mn_address n) (mn_size n) \<and> mb_artifacts b (mn_path n) = None) (mb_nodes b))),
           mb_latest b uid,
           mb_original b uid])"

definition artifact_node_kind :: "runtime_artifact \<Rightarrow> node_kind option" where
  "artifact_node_kind a =
     (if ra_kind a = ''materialized_region'' then Some MemoryDump
      else if ra_kind a \<in> {''reconstructed_elf'', ''unpacked_pe'', ''runtime_backing_elf''} then Some ReconstructedImage
      else None)"

definition install_artifact :: "replacement_report \<Rightarrow> runtime_artifact \<Rightarrow> nat \<Rightarrow> builder \<Rightarrow> builder option" where
  "install_artifact rp a i b =
     do {
       n \<leftarrow> node_at b i;
       let m = with_execution n (with_writer n (empty_node\<lparr>mn_kind := InstalledImage,
             mn_generation := mn_generation n, mn_executed := True, mn_process_uid := ra_process_uid a,
             mn_pid := ra_pid a, mn_space := FileOffset, mn_basis := CurrentInputFile, mn_path := rp_target rp,
             mn_identity := rp_target rp, mn_sha256 := rp_new_sha256 rp, mn_evidence := ''UNPACKED_VALIDATED'',
             mn_detail := ''validated runtime-derived image transactionally installed''\<rparr>));
       let (j, b) = add_node m b;
       b \<leftarrow> add_edge (Some i) j InstalledAs None ''CONFIRMED'' ''standalone-validated image installed at target path'' None b;
       Some (if rp_original_sha256 rp = rp_new_sha256 rp then b
             else note_divergence \<lparr>dv_seq = 0, dv_process_uid = ra_process_uid a,
                    dv_kind = ''INSTALLED_IMAGE_HASH_CHANGED'',
                    dv_expectation = ''original_sha256='' @ rp_original_sha256 rp,
                    dv_observation = ''installed_runtime_validated_sha256='' @ rp_new_sha256 rp\<rparr> b)
     }"

definition add_artifact ::
  "artifact_files \<Rightarrow> replacement_report option \<Rightarrow> runtime_artifact \<Rightarrow> builder \<Rightarrow> builder option" where
  "add_artifact files rp a b =
     (case artifact_node_kind a of
        None \<Rightarrow> Some b
      | Some kind \<Rightarrow>
          do {
            sha \<leftarrow> artifact_sha files a;
            let n = empty_node\<lparr>mn_kind := kind, mn_process_uid := ra_process_uid a, mn_pid := ra_pid a,
                  mn_space := FileOffset, mn_basis := ArtifactFile, mn_path := ra_path a,
                  mn_identity := (if ra_path a = [] then ra_kind a else ra_path a), mn_sha256 := sha,
                  mn_evidence := ra_state a, mn_detail := ra_detail a,
                  mn_executed := contains_text ''EXEC_HANDOFF'' (ra_state a) \<or> ra_state a = ''UNPACKED_VALIDATED''\<rparr>;
            let (i, b) = add_node n b;
            let b = b\<lparr>mb_artifacts := (mb_artifacts b)(ra_path a \<mapsto> i)\<rparr>;
            let src = find_source_for_artifact a b;
            b \<leftarrow> (case src of
                    None \<Rightarrow> Some b
                  | Some j \<Rightarrow> do {
                      m \<leftarrow> node_at b j;
                      on_node i (\<lambda>n. with_execution m (with_writer m (n\<lparr>mn_generation := mn_generation m\<rparr>))) b
                    });
            b \<leftarrow> add_edge src i (if kind = MemoryDump then DumpedAs else ReconstructedAs) None ''CONFIRMED''
                   (if kind = MemoryDump then ''captured runtime memory artifact''
                    else ''runtime-derived reconstructed/snapshotted image artifact'') None b;
            case rp of
              Some r \<Rightarrow> if ra_state a = ''UNPACKED_VALIDATED'' \<and> rp_performed r then install_artifact r a i b else Some b
            | None \<Rightarrow> Some b
          })"

fun run_artifacts ::
  "artifact_files \<Rightarrow> replacement_report option \<Rightarrow> runtime_artifact list \<Rightarrow> builder \<Rightarrow> builder option" where
  "run_artifacts files rp [] b = Some b"
| "run_artifacts files rp (a # as) b = Option.bind (add_artifact files rp a b) (run_artifacts files rp as)"

subsection \<open>The graph\<close>

definition final_edge :: "builder \<Rightarrow> mat_edge \<Rightarrow> mat_edge option" where
  "final_edge b x =
     (if me_kind x \<in> {MaterializedByRuntime, ProtectedExecutable, FirstExecutedAs} then
        Some (if me_kind x = MaterializedByRuntime then x\<lparr>me_source_gen := None\<rparr> else x)
      else case me_source x of
        None \<Rightarrow> Some x
      | Some i \<Rightarrow> map_option (\<lambda>n. x\<lparr>me_source_gen := mn_generation n\<rparr>) (node_at b i))"

record mat_summary =
  ms_generations :: nat
  ms_deepest :: nat
  ms_executed :: nat
  ms_image :: nat
  ms_memory_only :: nat
  ms_cross :: nat
  ms_unknown :: nat
  ms_partial :: bool

record mat_graph =
  mg_nodes :: "mat_node list"
  mg_edges :: "mat_edge list"
  mg_divergences :: "divergence list"
  mg_summary :: mat_summary

definition generations :: "(mat_node \<Rightarrow> bool) \<Rightarrow> mat_node list \<Rightarrow> nat list" where
  "generations P ns = remdups (List.map_filter (\<lambda>n. if P n then mn_generation n else None) ns)"

definition summarize :: "bool \<Rightarrow> mat_node list \<Rightarrow> mat_edge list \<Rightarrow> mat_summary" where
  "summarize timed_out ns es =
     (let gens = generations (\<lambda>_. True) ns; image = generations (\<lambda>n. image_kind (mn_kind n)) ns;
          memory = filter (\<lambda>g. 0 < g) (generations (\<lambda>n. memory_kind (mn_kind n)) ns)
      in \<lparr>ms_generations = length gens, ms_deepest = fold max gens 0,
          ms_executed = length (generations mn_executed ns), ms_image = length image,
          ms_memory_only = length (filter (\<lambda>g. g \<notin> set image) memory),
          ms_cross = length (generations mn_cross ns),
          ms_unknown = length (filter (\<lambda>x. me_kind x = MaterializedByRuntime \<and> me_source_gen x = None) es),
          ms_partial = timed_out\<rparr>)"

definition build_materialization_graph ::
  "artifact_files \<Rightarrow> runtime_report \<Rightarrow> replacement_report option \<Rightarrow> mat_graph option" where
  "build_materialization_graph files r rp =
     do {
       b \<leftarrow> run_timeline (rr_timeline r) (start_builder files (rr_artifacts r));
       b \<leftarrow> run_artifacts files rp (rr_artifacts r) b;
       es \<leftarrow> those (map (final_edge b) (mb_edges b));
       Some \<lparr>mg_nodes = mb_nodes b, mg_edges = es, mg_divergences = mb_divergences b,
         mg_summary = summarize (rr_timed_out r) (mb_nodes b) es\<rparr>
     }"

end
