(* ===== verification/MaterializationSafety.thy ===== *)
theory MaterializationSafety
  imports MaterializationGraph
begin

section \<open>What the materialization graph guarantees\<close>

text \<open>
  No node number is ever outside the graph, so the builder returns for every run; edges join nodes
  of the graph; a generation is only given to a node with a confirmed write that was executed or
  inherited, and only by a process start or an execution. The invariant is proved operation by
  operation and lifted to all reachable builders.
\<close>

subsection \<open>Evaluations that return\<close>

definition holds :: "('a \<Rightarrow> bool) \<Rightarrow> 'a option \<Rightarrow> bool" where
  "holds P m \<longleftrightarrow> (\<exists>x. m = Some x \<and> P x)"

lemma holds_simps [simp]:
  "holds P (Some x) \<longleftrightarrow> P x" "\<not> holds P None" "holds P (map_option f m) \<longleftrightarrow> holds (P \<circ> f) m"
  by (auto simp: holds_def)

lemma holds_bind [simp]: "holds P (Option.bind m f) \<longleftrightarrow> holds (\<lambda>x. holds P (f x)) m"
  by (cases m) (auto simp: holds_def)

lemma holds_mono: "holds P m \<Longrightarrow> (\<And>x. P x \<Longrightarrow> Q x) \<Longrightarrow> holds Q m"
  by (auto simp: holds_def)

lemma holds_bindI: "holds P m \<Longrightarrow> (\<And>x. P x \<Longrightarrow> holds Q (f x)) \<Longrightarrow> holds Q (Option.bind m f)"
  by (auto simp: holds_def)

subsection \<open>The invariant\<close>

definition valid :: "builder \<Rightarrow> nat \<Rightarrow> bool" where
  "valid b i \<longleftrightarrow> 0 < i \<and> i \<le> length (mb_nodes b)"

definition node_of :: "builder \<Rightarrow> nat \<Rightarrow> mat_node" where
  "node_of b i = mb_nodes b ! (i - 1)"

definition runtime_kind :: "node_kind \<Rightarrow> bool" where
  "runtime_kind k \<longleftrightarrow> k \<notin> {OriginalImage, MemoryDump, ReconstructedImage, InstalledImage}"

text \<open>A node that events may change.\<close>

definition traced :: "builder \<Rightarrow> nat \<Rightarrow> bool" where
  "traced b i \<longleftrightarrow> valid b i \<and> runtime_kind (mn_kind (node_of b i))"

definition inherited :: "builder \<Rightarrow> nat \<Rightarrow> bool" where
  "inherited b i \<longleftrightarrow> (\<exists>x \<in> set (mb_edges b). me_kind x = ChildInherited \<and> me_destination x = i)"

text \<open>When a node may have a generation; the nodes of X are in the middle of their first execution.\<close>

definition contract :: "nat set \<Rightarrow> builder \<Rightarrow> nat \<Rightarrow> bool" where
  "contract X b i \<longleftrightarrow>
     (mn_kind (node_of b i) = OriginalImage \<longrightarrow> mn_generation (node_of b i) = Some 0) \<and>
     (runtime_kind (mn_kind (node_of b i)) \<and> mn_generation (node_of b i) \<noteq> None \<and> i \<notin> X \<longrightarrow>
        ns_write_confirmed (mb_states b ! (i - 1)) \<and> (mn_executed (node_of b i) \<or> inherited b i))"

definition edge_ok :: "nat \<Rightarrow> mat_edge \<Rightarrow> bool" where
  "edge_ok n x \<longleftrightarrow> 0 < me_destination x \<and> me_destination x \<le> n \<and> (\<forall>i. me_source x = Some i \<longrightarrow> 0 < i \<and> i \<le> n)"


definition shape :: "builder \<Rightarrow> bool" where
  "shape b \<longleftrightarrow>
     length (mb_states b) = length (mb_nodes b) \<and> map mn_id (mb_nodes b) = [1..<length (mb_nodes b) + 1] \<and>
     map me_id (mb_edges b) = [1..<length (mb_edges b) + 1] \<and> (\<forall>x \<in> set (mb_edges b). edge_ok (length (mb_nodes b)) x)"

definition pointers :: "builder \<Rightarrow> bool" where
  "pointers b \<longleftrightarrow>
     (\<forall>i \<in> ran (mb_original b) \<union> ran (mb_thread_node b) \<union> ran (mb_latest b). valid b i) \<and>
     (\<forall>i \<in> snd ` set (mb_backings b) \<union> snd ` set (mb_regions b). traced b i)"

definition graph_inv :: "nat set \<Rightarrow> builder \<Rightarrow> bool" where
  "graph_inv X b \<longleftrightarrow> shape b \<and> pointers b \<and> (\<forall>i. valid b i \<longrightarrow> contract X b i)"

text \<open>The nodes so far keep their kind; with \<open>quiet\<close> no node gets a generation.\<close>

definition extends :: "builder \<Rightarrow> builder \<Rightarrow> bool" where
  "extends b b' \<longleftrightarrow> (\<exists>ks. map mn_kind (mb_nodes b') = map mn_kind (mb_nodes b) @ ks)"

definition quiet :: "builder \<Rightarrow> builder \<Rightarrow> bool" where
  "quiet b b' \<longleftrightarrow>
     extends b b' \<and> (\<exists>k. map mn_generation (mb_nodes b') = map mn_generation (mb_nodes b) @ replicate k None)"

lemma extends_refl [simp]: "extends b b" and quiet_refl [simp]: "quiet b b"
  by (simp_all add: extends_def quiet_def)

lemma extends_trans: "extends b c \<Longrightarrow> extends c d \<Longrightarrow> extends b d"
  by (auto simp: extends_def)

lemma quiet_trans: "quiet b c \<Longrightarrow> quiet c d \<Longrightarrow> quiet b d"
  unfolding quiet_def using extends_trans by (auto simp flip: replicate_add)

lemma quiet_extends: "quiet b c \<Longrightarrow> extends b c"
  by (simp add: quiet_def)

lemma extends_length: "extends b c \<Longrightarrow> length (mb_nodes b) \<le> length (mb_nodes c)"
  unfolding extends_def by (metis length_append length_map le_add1)

lemma extends_valid: "extends b c \<Longrightarrow> valid b i \<Longrightarrow> valid c i"
  using extends_length [of b c] by (simp add: valid_def)

lemma extends_kind: "extends b c \<Longrightarrow> valid b i \<Longrightarrow> mn_kind (node_of c i) = mn_kind (node_of b i)"
proof -
  assume *: "extends b c" "valid b i"
  then obtain ks where ks: "map mn_kind (mb_nodes c) = map mn_kind (mb_nodes b) @ ks" by (auto simp: extends_def)
  have "i - 1 < length (mb_nodes b)" using *(2) by (auto simp: valid_def)
  then have "map mn_kind (mb_nodes c) ! (i - 1) = map mn_kind (mb_nodes b) ! (i - 1)" unfolding ks by (simp add: nth_append)
  moreover have "i - 1 < length (mb_nodes b)" "i - 1 < length (mb_nodes c)"
    using *(2) extends_length [OF *(1)] by (auto simp: valid_def)
  ultimately show ?thesis by (simp add: node_of_def)
qed

lemma extends_traced: "extends b c \<Longrightarrow> traced b i \<Longrightarrow> traced c i"
  using extends_valid extends_kind by (auto simp: traced_def)

lemma traced_valid [dest]: "traced b i \<Longrightarrow> valid b i"
  by (simp add: traced_def)

lemma graph_inv_mono: "graph_inv X b \<Longrightarrow> X \<subseteq> Y \<Longrightarrow> graph_inv Y b"
  by (auto simp: graph_inv_def contract_def)

lemma node_at_valid [simp]: "valid b i \<Longrightarrow> node_at b i = Some (node_of b i)"
  by (simp add: node_at_def node_of_def valid_def)

definition state_of :: "builder \<Rightarrow> nat \<Rightarrow> node_state" where
  "state_of b i = mb_states b ! (i - 1)"

lemma state_at_valid [simp]: "shape b \<Longrightarrow> valid b i \<Longrightarrow> state_at b i = Some (state_of b i)"
  by (simp add: state_at_def state_of_def shape_def valid_def)

subsection \<open>Updates\<close>

definition put_node :: "nat \<Rightarrow> mat_node \<Rightarrow> builder \<Rightarrow> builder" where
  "put_node i n b = b\<lparr>mb_nodes := (mb_nodes b)[i - 1 := n]\<rparr>"

definition put_state :: "nat \<Rightarrow> node_state \<Rightarrow> builder \<Rightarrow> builder" where
  "put_state i s b = b\<lparr>mb_states := (mb_states b)[i - 1 := s]\<rparr>"

definition push_edge :: "mat_edge \<Rightarrow> builder \<Rightarrow> builder" where
  "push_edge x b = b\<lparr>mb_edges := mb_edges b @ [x]\<rparr>"

lemma on_node_valid [simp]: "valid b i \<Longrightarrow> on_node i g b = Some (put_node i (g (node_of b i)) b)"
  by (simp add: on_node_def put_node_def)

lemma on_state_valid [simp]: "shape b \<Longrightarrow> valid b i \<Longrightarrow> on_state i g b = Some (put_state i (g (state_of b i)) b)"
  by (simp add: on_state_def put_state_def)

lemma put_frames [simp]:
  "valid (put_node i n b) j = valid b j" "valid (put_state i s b) j = valid b j" "valid (push_edge x b) j = valid b j"
  "node_of (put_state i s b) j = node_of b j" "node_of (push_edge x b) j = node_of b j"
  "state_of (put_node i n b) j = state_of b j" "state_of (push_edge x b) j = state_of b j"
  "inherited (put_node i n b) j = inherited b j" "inherited (put_state i s b) j = inherited b j"
  "inherited (push_edge x b) j \<longleftrightarrow> inherited b j \<or> (me_kind x = ChildInherited \<and> me_destination x = j)"
  by (auto simp: put_node_def put_state_def push_edge_def valid_def node_of_def state_of_def inherited_def)

lemma put_same [simp]: "valid b i \<Longrightarrow> node_of (put_node i n b) i = n" "shape b \<Longrightarrow> valid b i \<Longrightarrow> state_of (put_state i s b) i = s"
  by (auto simp: put_node_def put_state_def valid_def node_of_def state_of_def shape_def)

lemma put_other: "valid b i \<Longrightarrow> valid b j \<Longrightarrow> j \<noteq> i \<Longrightarrow> node_of (put_node i n b) j = node_of b j"
    "valid b i \<Longrightarrow> valid b j \<Longrightarrow> j \<noteq> i \<Longrightarrow> state_of (put_state i s b) j = state_of b j"
  by (auto simp: put_node_def put_state_def valid_def node_of_def state_of_def nth_list_update)

lemma graph_inv_shape [dest]: "graph_inv X b \<Longrightarrow> shape b"
  by (simp add: graph_inv_def)

text \<open>The contract again, on node, state and edges of one number.\<close>

definition may_have_generation :: "bool \<Rightarrow> mat_node \<Rightarrow> node_state \<Rightarrow> bool \<Rightarrow> bool" where
  "may_have_generation exempt n s inh \<longleftrightarrow>
     (mn_kind n = OriginalImage \<longrightarrow> mn_generation n = Some 0) \<and>
     (runtime_kind (mn_kind n) \<and> mn_generation n \<noteq> None \<and> \<not> exempt \<longrightarrow> ns_write_confirmed s \<and> (mn_executed n \<or> inh))"

lemma contract_iff: "contract X b i \<longleftrightarrow> may_have_generation (i \<in> X) (node_of b i) (state_of b i) (inherited b i)"
  by (auto simp: contract_def may_have_generation_def state_of_def)

lemma graph_inv_iff:
  "graph_inv X b \<longleftrightarrow> shape b \<and> pointers b \<and>
     (\<forall>i. valid b i \<longrightarrow> may_have_generation (i \<in> X) (node_of b i) (state_of b i) (inherited b i))"
  by (simp add: graph_inv_def contract_iff)

lemma graph_inv_at: "graph_inv X b \<Longrightarrow> valid b i \<Longrightarrow> may_have_generation (i \<in> X) (node_of b i) (state_of b i) (inherited b i)"
  by (simp add: graph_inv_iff)

lemma inherited_more: "may_have_generation x n s inh \<Longrightarrow> may_have_generation x n s (inh \<or> y)"
  by (auto simp: may_have_generation_def)

lemma map_put_node: "f n = f (node_of b i) \<Longrightarrow> map f (mb_nodes (put_node i n b)) = map f (mb_nodes b)"
  by (cases "i - 1 < length (mb_nodes b)")
    (simp_all add: put_node_def node_of_def map_update list_update_beyond, metis list_update_id nth_map)

lemma put_node_extends:
  assumes "valid b i" and "mn_kind n = mn_kind (node_of b i)"
  shows "extends b (put_node i n b)"
    and "mn_generation n = mn_generation (node_of b i) \<Longrightarrow> quiet b (put_node i n b)"
proof -
  show *: "extends b (put_node i n b)"
    unfolding extends_def using assms by (intro exI [of _ "[]"]) (simp add: map_put_node)
  show "quiet b (put_node i n b)" if "mn_generation n = mn_generation (node_of b i)"
    unfolding quiet_def using * that assms(1)
    by (intro conjI exI [of _ 0]) (simp_all add: map_put_node)
qed

lemma put_state_quiet: "quiet b (put_state i s b)" and push_edge_quiet: "quiet b (push_edge x b)"
  by (auto simp: quiet_def extends_def put_state_def push_edge_def)

lemma pointers_extends:
  assumes "pointers b" and "extends b c" and "mb_original c = mb_original b" "mb_thread_node c = mb_thread_node b"
    "mb_latest c = mb_latest b" "mb_backings c = mb_backings b" "mb_regions c = mb_regions b"
  shows "pointers c"
  using assms extends_valid [OF assms(2)] extends_traced [OF assms(2)] by (auto simp: pointers_def)

lemma put_node_inv:
  assumes inv: "graph_inv X b" and i: "valid b i" and same: "mn_id n = mn_id (node_of b i)" "mn_kind n = mn_kind (node_of b i)"
    and gen: "may_have_generation (i \<in> X) n (state_of b i) (inherited b i)"
  shows "graph_inv X (put_node i n b)"
proof -
  have "map mn_id (mb_nodes (put_node i n b)) = map mn_id (mb_nodes b)" using same by (simp add: map_put_node)
  then have "shape (put_node i n b)" using inv by (simp add: graph_inv_def shape_def put_node_def)
  moreover have "pointers (put_node i n b)"
    by (rule pointers_extends [OF _ put_node_extends(1) [OF i same(2)]])
      (use inv in \<open>simp_all add: graph_inv_def put_node_def\<close>)
  moreover have "may_have_generation (j \<in> X) (node_of (put_node i n b) j) (state_of b j) (inherited b j)" if "valid b j" for j
    using that gen graph_inv_at [OF inv that] i by (cases "j = i") (simp_all add: put_other)
  ultimately show ?thesis by (simp add: graph_inv_iff)
qed

lemma put_state_inv:
  assumes inv: "graph_inv X b" and i: "valid b i" and gen: "may_have_generation (i \<in> X) (node_of b i) s (inherited b i)"
  shows "graph_inv X (put_state i s b)"
proof -
  have sh: "shape b" using inv by blast
  then have "shape (put_state i s b)" by (simp add: shape_def put_state_def)
  moreover have "pointers (put_state i s b)"
    by (rule pointers_extends [OF _ quiet_extends [OF put_state_quiet]]) (use inv in \<open>simp_all add: graph_inv_def put_state_def\<close>)
  moreover have "may_have_generation (j \<in> X) (node_of b j) (state_of (put_state i s b) j) (inherited b j)" if "valid b j" for j
    using that gen graph_inv_at [OF inv that] i sh by (cases "j = i") (simp_all add: put_other)
  ultimately show ?thesis by (simp add: graph_inv_iff)
qed

lemma push_edge_inv:
  assumes inv: "graph_inv X b" and x: "edge_ok (length (mb_nodes b)) x" "me_id x = length (mb_edges b) + 1"
  shows "graph_inv X (push_edge x b)"
proof -
  have "shape (push_edge x b)" using inv x by (simp add: graph_inv_def shape_def push_edge_def)
  moreover have "pointers (push_edge x b)"
    by (rule pointers_extends [OF _ quiet_extends [OF push_edge_quiet]]) (use inv in \<open>simp_all add: graph_inv_def push_edge_def\<close>)
  ultimately show ?thesis using graph_inv_at [OF inv] by (simp add: graph_inv_iff inherited_more)
qed

lemma graph_inv_exempt:
  assumes "graph_inv (insert i X) b" and "valid b i \<Longrightarrow> may_have_generation (i \<in> X) (node_of b i) (state_of b i) (inherited b i)"
  shows "graph_inv X b"
proof -
  have "may_have_generation (j \<in> X) (node_of b j) (state_of b j) (inherited b j)" if "valid b j" for j
    using graph_inv_at [OF assms(1) that] assms(2) that by (cases "j = i") simp_all
  then show ?thesis using assms(1) by (simp add: graph_inv_iff)
qed

text \<open>Changes of a node that leave number, kind and generation alone.\<close>

definition keeps_node :: "(mat_node \<Rightarrow> mat_node) \<Rightarrow> bool" where
  "keeps_node g \<longleftrightarrow>
     (\<forall>n. mn_id (g n) = mn_id n \<and> mn_kind (g n) = mn_kind n \<and> mn_generation (g n) = mn_generation n \<and>
          (mn_executed n \<longrightarrow> mn_executed (g n)))"

lemma on_node_keeps:
  assumes "graph_inv X b" and "valid b i" and "keeps_node g"
  shows "holds (\<lambda>b'. graph_inv X b' \<and> quiet b b') (on_node i g b)"
  using assms put_node_inv [OF assms(1,2), of "g (node_of b i)"] put_node_extends [OF assms(2), of "g (node_of b i)"]
    graph_inv_at [OF assms(1,2)]
  by (auto simp: keeps_node_def may_have_generation_def)

lemma on_state_keeps:
  assumes "graph_inv X b" and "valid b i" and "\<And>s. ns_write_confirmed s \<Longrightarrow> ns_write_confirmed (g s)"
  shows "holds (\<lambda>b'. graph_inv X b' \<and> quiet b b') (on_state i g b)"
  using assms put_state_inv [OF assms(1,2), of "g (state_of b i)"] graph_inv_at [OF assms(1,2)] put_state_quiet
    graph_inv_shape [OF assms(1)]
  by (auto simp: may_have_generation_def)

lemma add_edge_keeps:
  assumes "graph_inv X b" and "valid b dst" and "\<And>i. src = Some i \<Longrightarrow> valid b i"
  shows "holds (\<lambda>b'. graph_inv X b' \<and> quiet b b' \<and> mb_edges b' \<noteq> [] \<and> (kind = ChildInherited \<longrightarrow> inherited b' dst) \<and>
      (\<forall>j. node_of b' j = node_of b j \<and> state_of b' j = state_of b j))
    (add_edge src dst kind e evidence detail wg b)"
proof -
  obtain x where run: "add_edge src dst kind e evidence detail wg b = Some (push_edge x b)"
      and x: "me_kind x = kind" "me_source x = src" "me_destination x = dst" "me_id x = length (mb_edges b) + 1"
    using assms(2) by (simp add: add_edge_def push_edge_def Let_def)
  have "edge_ok (length (mb_nodes b)) x" using assms(2,3) x by (auto simp: edge_ok_def valid_def)
  then have "graph_inv X (push_edge x b)" using push_edge_inv [OF assms(1)] x(4) by blast
  moreover have "mb_edges (push_edge x b) \<noteq> []" by (simp add: push_edge_def)
  ultimately show ?thesis using x push_edge_quiet by (auto simp: run)
qed

lemma on_last_edge_keeps:
  assumes "graph_inv X b" and "mb_edges b \<noteq> []"
    and "\<And>x. me_id (g x) = me_id x \<and> me_kind (g x) = me_kind x \<and> me_source (g x) = me_source x \<and> me_destination (g x) = me_destination x"
  shows "holds (\<lambda>b'. graph_inv X b' \<and> quiet b b' \<and> (\<forall>j. node_of b' j = node_of b j \<and> state_of b' j = state_of b j))
    (on_last_edge g b)"
proof -
  obtain xs x where xs: "mb_edges b = xs @ [x]" using assms(2) by (metis append_butlast_last_id)
  let ?b = "b\<lparr>mb_edges := xs @ [g x]\<rparr>"
  have same: "valid ?b i = valid b i" "node_of ?b i = node_of b i" "state_of ?b i = state_of b i"
      "inherited ?b i = inherited b i" "traced ?b i = traced b i" for i
    using assms(3) by (simp_all add: valid_def node_of_def state_of_def inherited_def traced_def xs)
  have "shape ?b" using assms(1,3) by (simp add: graph_inv_def shape_def xs edge_ok_def)
  moreover have "pointers ?b" using assms(1) by (simp add: graph_inv_def pointers_def same)
  ultimately have "graph_inv X ?b" using graph_inv_at [OF assms(1)] by (simp add: graph_inv_iff same)
  moreover have "quiet b ?b" by (auto simp: quiet_def extends_def)
  ultimately show ?thesis using assms(2) same by (simp add: on_last_edge_def xs)
qed

subsection \<open>New nodes and maps\<close>

lemma add_node_keeps:
  assumes new: "add_node n b = (i, b')" and inv: "graph_inv X b" and n: "may_have_generation False n fresh_state False"
  shows "graph_inv X b'" and "extends b b'" and "mn_generation n = None \<Longrightarrow> quiet b b'" and "valid b' i"
    and "node_of b' i = n\<lparr>mn_id := i\<rparr>" and "state_of b' i = fresh_state"
proof -
  let ?i = "length (mb_nodes b) + 1"
  let ?b = "b\<lparr>mb_nodes := mb_nodes b @ [n\<lparr>mn_id := ?i\<rparr>], mb_states := mb_states b @ [fresh_state]\<rparr>"
  have eq: "i = ?i" "b' = ?b" using new unfolding add_node_def Let_def by blast+
  have ext: "extends b ?b" by (simp add: extends_def)
  have sh: "length (mb_states b) = length (mb_nodes b)" using inv by (simp add: graph_inv_def shape_def)
  have "edge_ok (length (mb_nodes ?b)) x" if "x \<in> set (mb_edges b)" for x
    using inv that by (fastforce simp: graph_inv_def shape_def edge_ok_def)
  then have "shape ?b" using inv by (simp add: graph_inv_def shape_def)
  moreover have "pointers ?b" by (rule pointers_extends [OF _ ext]) (use inv in \<open>simp_all add: graph_inv_def\<close>)
  moreover have "may_have_generation (j \<in> X) (node_of ?b j) (state_of ?b j) (inherited ?b j)" if "valid ?b j" for j
  proof (cases "j = ?i")
    case True
    then have "node_of ?b j = n\<lparr>mn_id := ?i\<rparr>" "state_of ?b j = fresh_state"
      using sh by (simp_all add: node_of_def state_of_def nth_append)
    then show ?thesis using n by (auto simp: may_have_generation_def fresh_state_def)
  next
    case False
    then have j: "valid b j" using that by (simp add: valid_def)
    then have "node_of ?b j = node_of b j" "state_of ?b j = state_of b j"
      using sh by (auto simp: node_of_def state_of_def valid_def nth_append)
    then show ?thesis using graph_inv_at [OF inv j] by (simp add: inherited_def)
  qed
  ultimately show "graph_inv X b'" unfolding eq by (simp add: graph_inv_iff)
  show "extends b b'" "mn_generation n = None \<Longrightarrow> quiet b b'"
    unfolding eq using ext by (auto simp: quiet_def intro: exI [of _ 1])
  show "valid b' i" "node_of b' i = n\<lparr>mn_id := i\<rparr>" "state_of b' i = fresh_state"
    unfolding eq using sh by (simp_all add: valid_def node_of_def state_of_def nth_append)
qed

text \<open>Changes of the maps alone.\<close>

lemma graph_inv_maps:
  assumes "graph_inv X b" and "mb_nodes c = mb_nodes b" "mb_states c = mb_states b" "mb_edges c = mb_edges b" and "pointers c"
  shows "graph_inv X c" and "quiet b c"
proof -
  have "valid c i = valid b i" "node_of c i = node_of b i" "state_of c i = state_of b i" "inherited c i = inherited b i" for i
    using assms(2-4) by (simp_all add: valid_def node_of_def state_of_def inherited_def)
  moreover have "shape c" using assms by (simp add: graph_inv_def shape_def)
  ultimately show "graph_inv X c" using assms(1,5) by (simp add: graph_inv_iff)
  show "quiet b c" using assms(2) by (auto simp: quiet_def extends_def)
qed

lemma traced_nodes: "mb_nodes c = mb_nodes b \<Longrightarrow> traced c i = traced b i" and
  valid_nodes: "mb_nodes c = mb_nodes b \<Longrightarrow> valid c i = valid b i"
  by (simp_all add: traced_def valid_def node_of_def)

lemma put_backing:
  assumes "graph_inv X b" and "traced b i" and c: "c = b\<lparr>mb_backings := omap_put key i (mb_backings b)\<rparr>"
  shows "graph_inv X c" and "quiet b c"
proof -
  have nodes: "mb_nodes c = mb_nodes b" by (simp add: c)
  have "snd ` set (mb_backings c) \<subseteq> insert i (snd ` set (mb_backings b))"
    using image_mono [OF omap_put_subset [of key i "mb_backings b"], of snd] by (simp add: c)
  moreover have old: "\<forall>i \<in> snd ` set (mb_backings b). traced b i" using assms(1) unfolding graph_inv_def pointers_def by blast
  ultimately have "\<forall>i \<in> snd ` set (mb_backings c). traced b i" using assms(2) by blast
  then have "pointers c"
    using assms(1) unfolding graph_inv_def pointers_def traced_nodes [OF nodes] valid_nodes [OF nodes] ball_Un
    by (simp add: c)
  then show "graph_inv X c" "quiet b c" using graph_inv_maps [OF assms(1)] by (simp_all add: c)
qed

lemma put_region:
  assumes "graph_inv X b" and "traced b i" and c: "c = b\<lparr>mb_regions := omap_put key i (mb_regions b)\<rparr>"
  shows "graph_inv X c" and "quiet b c"
proof -
  have nodes: "mb_nodes c = mb_nodes b" by (simp add: c)
  have "snd ` set (mb_regions c) \<subseteq> insert i (snd ` set (mb_regions b))"
    using image_mono [OF omap_put_subset [of key i "mb_regions b"], of snd] by (simp add: c)
  moreover have old: "\<forall>i \<in> snd ` set (mb_regions b). traced b i" using assms(1) unfolding graph_inv_def pointers_def by blast
  ultimately have "\<forall>i \<in> snd ` set (mb_regions c). traced b i" using assms(2) by blast
  then have "pointers c"
    using assms(1) unfolding graph_inv_def pointers_def traced_nodes [OF nodes] valid_nodes [OF nodes] ball_Un
    by (simp add: c)
  then show "graph_inv X c" "quiet b c" using graph_inv_maps [OF assms(1)] by (simp_all add: c)
qed

lemma backing_traced: "graph_inv X b \<Longrightarrow> (key, i) \<in> set (mb_backings b) \<Longrightarrow> traced b i"
proof -
  assume "graph_inv X b" "(key, i) \<in> set (mb_backings b)"
  moreover from this(2) have "i \<in> snd ` set (mb_backings b)" by (rule image_eqI [rotated]) simp
  ultimately show ?thesis unfolding graph_inv_def pointers_def by blast
qed

lemma region_traced: "graph_inv X b \<Longrightarrow> (key, i) \<in> set (mb_regions b) \<Longrightarrow> traced b i"
proof -
  assume "graph_inv X b" "(key, i) \<in> set (mb_regions b)"
  moreover from this(2) have "i \<in> snd ` set (mb_regions b)" by (rule image_eqI [rotated]) simp
  ultimately show ?thesis unfolding graph_inv_def pointers_def by blast
qed

lemma runtime_kinds [simp]:
  "runtime_kind (backing_kind k)" "runtime_kind (region_kind e cross)" "runtime_kind ReplacementImage" "runtime_kind AnonymousRegion"
  by (simp_all add: runtime_kind_def backing_kind_def region_kind_def)

lemma ran_upd: "\<forall>j \<in> ran m. P j \<Longrightarrow> P i \<Longrightarrow> \<forall>j \<in> ran (m(k \<mapsto> i)). P j"
  by (auto simp: ran_def)

lemma put_pointers:
  assumes inv: "graph_inv X b" and nodes: "mb_nodes c = mb_nodes b" "mb_states c = mb_states b" "mb_edges c = mb_edges b"
    and maps: "mb_backings c = mb_backings b" "mb_regions c = mb_regions b"
    and new: "\<forall>j \<in> ran (mb_original c). valid b j" "\<forall>j \<in> ran (mb_thread_node c). valid b j" "\<forall>j \<in> ran (mb_latest c). valid b j"
  shows "graph_inv X c" and "quiet b c"
proof -
  have "pointers c"
    using inv new maps unfolding graph_inv_def pointers_def traced_nodes [OF nodes(1)] valid_nodes [OF nodes(1)] ball_Un
    by simp
  then show "graph_inv X c" "quiet b c" using graph_inv_maps [OF inv nodes] by simp_all
qed

lemma pointer_valid:
  assumes "graph_inv X b"
  shows "\<forall>j \<in> ran (mb_original b). valid b j" and "\<forall>j \<in> ran (mb_thread_node b). valid b j" and "\<forall>j \<in> ran (mb_latest b). valid b j"
  using assms unfolding graph_inv_def pointers_def ball_Un by simp_all

lemma pointer_valid_at:
  assumes "graph_inv X b"
  shows "mb_original b u = Some i \<Longrightarrow> valid b i" and "mb_thread_node b t = Some i \<Longrightarrow> valid b i"
    and "mb_latest b u = Some i \<Longrightarrow> valid b i"
  using pointer_valid [OF assms] by (auto intro: ranI)

lemma active_node_valid: "graph_inv X b \<Longrightarrow> active_node b e = Some i \<Longrightarrow> valid b i"
  by (auto simp: active_node_def bind_eq_Some_conv dest: pointer_valid_at(2))

lemma enter_thread_keeps:
  assumes "graph_inv X b" and "valid b i"
  shows "graph_inv X (enter_thread e i g b) \<and> quiet b (enter_thread e i g b)"
proof (cases "event_tid e")
  case (Some t)
  let ?c = "enter_thread e i g b"
  have maps: "mb_thread_node ?c = (mb_thread_node b)((te_process_uid e, t) \<mapsto> i)" "mb_original ?c = mb_original b"
      "mb_latest ?c = mb_latest b" "mb_nodes ?c = mb_nodes b" "mb_states ?c = mb_states b" "mb_edges ?c = mb_edges b"
      "mb_backings ?c = mb_backings b" "mb_regions ?c = mb_regions b"
    by (simp_all add: enter_thread_def Some)
  show ?thesis
    using put_pointers [OF assms(1) maps(4-8)] pointer_valid [OF assms(1)] ran_upd [OF pointer_valid(2) [OF assms(1)] assms(2)]
    unfolding maps(1-3) by blast
qed (use assms in \<open>simp add: enter_thread_def\<close>)

lemma note_divergence_keeps: "graph_inv X b \<Longrightarrow> graph_inv X (note_divergence d b) \<and> quiet b (note_divergence d b)"
  using put_pointers [of X b "note_divergence d b"] pointer_valid [of X b] by (simp add: note_divergence_def)

subsection \<open>Finding or making nodes\<close>

lemma new_nodes [simp]:
  "may_have_generation False (original_node e) fresh_state False"
  "may_have_generation False (backing_node e uid kind bid) fresh_state False"
  "may_have_generation False (mutation_node e uid start fin p) fresh_state False"
  "mn_generation (backing_node e uid kind bid) = None" "mn_generation (mutation_node e uid start fin p) = None"
  "mn_generation (region_node e uid start fin k cross) = None"
  "mn_kind (backing_node e uid kind bid) = backing_kind kind" "mn_kind (mutation_node e uid start fin p) = AnonymousRegion"
  "mn_kind (region_node e uid start fin k cross) = k"
  by (simp_all add: original_node_def backing_node_def mutation_node_def region_node_def may_have_generation_def
      runtime_kind_def backing_kind_def empty_node_def Let_def)

lemma new_region [simp]: "runtime_kind k \<Longrightarrow> may_have_generation False (region_node e uid start fin k cross) fresh_state False"
  by (auto simp: may_have_generation_def runtime_kind_def)

lemma ensure_original_keeps:
  assumes "graph_inv X b"
  shows "case ensure_original e b of (i, b') \<Rightarrow> graph_inv X b' \<and> extends b b' \<and> valid b' i"
proof (cases "mb_original b (te_process_uid e)")
  case (Some i)
  then show ?thesis using assms pointer_valid_at(1) [OF assms] by (simp add: ensure_original_def)
next
  case None
  obtain i b1 where new: "add_node (original_node e) b = (i, b1)" by (cases "add_node (original_node e) b")
  note b1 = add_node_keeps [OF new assms new_nodes(1)]
  define t where "t = (te_process_uid e, value_or (fu32 (te_fields e) ''initial_thread_id'') (te_pid e))"
  define c where "c = b1\<lparr>mb_original := (mb_original b1)(te_process_uid e \<mapsto> i), mb_latest := (mb_latest b1)(te_process_uid e \<mapsto> i),
    mb_thread_gen := (mb_thread_gen b1)(t \<mapsto> 0), mb_thread_node := (mb_thread_node b1)(t \<mapsto> i)\<rparr>"
  have run: "ensure_original e b = (i, c)"
    unfolding ensure_original_def Let_def None option.case new prod.case c_def t_def ..
  have c: "mb_original c = (mb_original b1)(te_process_uid e \<mapsto> i)" "mb_latest c = (mb_latest b1)(te_process_uid e \<mapsto> i)"
      "mb_thread_node c = (mb_thread_node b1)(t \<mapsto> i)"
      "mb_nodes c = mb_nodes b1" "mb_states c = mb_states b1" "mb_edges c = mb_edges b1"
      "mb_backings c = mb_backings b1" "mb_regions c = mb_regions b1"
    by (simp_all add: c_def)
  have "graph_inv X c" "quiet b1 c"
    using put_pointers [OF b1(1) c(4-8)] ran_upd [OF pointer_valid(1) [OF b1(1)] b1(4)]
      ran_upd [OF pointer_valid(2) [OF b1(1)] b1(4)] ran_upd [OF pointer_valid(3) [OF b1(1)] b1(4)]
    unfolding c(1-3) by blast+
  then show ?thesis
    using extends_trans [OF b1(2) quiet_extends] b1(4) by (simp add: run valid_nodes [OF c(4)])
qed

lemma ensure_backing_keeps:
  assumes "graph_inv X b"
  shows "holds (\<lambda>(i, b'). graph_inv X b' \<and> quiet b b' \<and> traced b' i) (ensure_backing e uid kind bid b)"
proof (cases "map_of (mb_backings b) (uid, kind, bid)")
  case (Some i)
  then show ?thesis using assms backing_traced [OF assms map_of_SomeD [OF Some]] by (simp add: ensure_backing_def)
next
  case None
  obtain i b1 where new: "add_node (backing_node e uid kind bid) b = (i, b1)" by (cases "add_node (backing_node e uid kind bid) b")
  note b1 = add_node_keeps [OF new assms new_nodes(2)]
  have traced: "traced b1 i" using b1(4,5) by (simp add: traced_def)
  let ?b2 = "b1\<lparr>mb_backings := omap_put (uid, kind, bid) i (mb_backings b1)\<rparr>"
  note b2 = put_backing [OF b1(1) traced refl, of "(uid, kind, bid)"]
  have v2: "valid ?b2 i" using b1(4) by (simp add: valid_def)
  show ?thesis
    unfolding ensure_backing_def None option.case new Let_def prod.case
  proof (rule holds_bindI [OF on_state_keeps [OF b2(1) v2]])
    fix b3
    assume *: "graph_inv X b3 \<and> quiet ?b2 b3"
    have q: "quiet b b3" using * quiet_trans [OF b1(3) quiet_trans [OF b2(2)]] by simp
    then show "holds (\<lambda>(i, b'). graph_inv X b' \<and> quiet b b' \<and> traced b' i) (Some (i, b3))"
      using * extends_traced [OF quiet_extends [OF quiet_trans [OF b2(2)]] traced] by simp
  qed simp
qed

lemma found_region:
  "graph_inv X b \<Longrightarrow> map_option snd (find P (mb_regions b)) = Some i \<Longrightarrow> traced b i"
proof -
  assume inv: "graph_inv X b" and "map_option snd (find P (mb_regions b)) = Some i"
  then obtain r where "find P (mb_regions b) = Some r" and i: "i = snd r" by auto
  then have "r \<in> set (mb_regions b)" by (auto simp: find_Some_iff)
  then show "traced b i" using region_traced [OF inv, of "fst r" "snd r"] by (simp add: i)
qed

lemma ensure_region_keeps:
  assumes "graph_inv X b" and kind: "runtime_kind kind"
  shows "holds (\<lambda>(i, b'). graph_inv X b' \<and> quiet b b' \<and> traced b' i) (ensure_region e uid start fin0 kind cross b)"
proof -
  define fin where "fin = region_end start fin0"
  let ?key = "(uid, start, fin, kind_code kind)"
  let ?P = "\<lambda>r. overlaps uid start fin r \<and> snd (snd (snd (fst r))) = kind_code kind"
  show ?thesis
  proof (cases "map_of (mb_regions b) ?key")
    case (Some i)
    then show ?thesis
      using assms(1) region_traced [OF assms(1) map_of_SomeD [OF Some]] by (simp add: ensure_region_def fin_def Let_def)
  next
    case None
    show ?thesis
    proof (cases "find ?P (mb_regions b)")
      case (Some r)
      have "traced b (snd r)" by (rule found_region [OF assms(1), of ?P]) (simp add: Some)
      then show ?thesis using None Some assms(1) by (simp add: ensure_region_def fin_def Let_def)
    next
      case none: None
      obtain i b1 where new: "add_node (region_node e uid start fin kind cross) b = (i, b1)"
        by (cases "add_node (region_node e uid start fin kind cross) b")
      note b1 = add_node_keeps [OF new assms(1) new_region [OF kind]]
      have traced: "traced b1 i" using b1(4,5) kind by (simp add: traced_def)
      let ?b2 = "b1\<lparr>mb_regions := omap_put ?key i (mb_regions b1)\<rparr>"
      note b2 = put_region [OF b1(1) traced refl, of ?key]
      have v2: "valid ?b2 i" using b1(4) by (simp add: valid_def)
      have q2: "quiet b ?b2" using quiet_trans [OF b1(3) b2(2)] by simp
      have mark: "holds (\<lambda>b'. graph_inv X b' \<and> quiet ?b2 b')
          (if mb_region_capture ?b2 (uid, start, fin)
           then on_state i (\<lambda>s. s\<lparr>ns_write_confirmed := True\<rparr>) ?b2 else Some ?b2)"
        using on_state_keeps [OF b2(1) v2] b2(1) by simp
      show ?thesis
        unfolding ensure_region_def Let_def fin_def [symmetric] None none option.case new prod.case
        by (rule holds_bindI [OF mark])
          (use quiet_trans [OF q2] extends_traced [OF quiet_extends [OF quiet_trans [OF b2(2)]] traced] in \<open>simp\<close>)
    qed
  qed
qed

lemma event_region_keeps:
  "graph_inv X b \<Longrightarrow> holds (\<lambda>(i, b'). graph_inv X b' \<and> quiet b b' \<and> traced b' i) (event_region e uid cross b)"
  unfolding event_region_def Let_def by (rule ensure_region_keeps) simp_all

lemma existing_region_traced: "graph_inv X b \<Longrightarrow> existing_region uid start fin b = Some i \<Longrightarrow> traced b i"
  unfolding existing_region_def by (rule found_region)

lemma existing_for_execution_traced: "graph_inv X b \<Longrightarrow> existing_region_for_execution e b = Some i \<Longrightarrow> traced b i"
  unfolding existing_region_for_execution_def Let_def by (auto split: option.splits dest!: found_region)

subsection \<open>Steps that give no generation\<close>

definition calm :: "nat set \<Rightarrow> builder \<Rightarrow> builder \<Rightarrow> bool" where
  "calm X b b' \<longleftrightarrow> graph_inv X b' \<and> quiet b b'"

lemma calm_refl [simp]: "calm X b b \<longleftrightarrow> graph_inv X b"
  by (simp add: calm_def)

lemma calm_trans: "calm X b c \<Longrightarrow> calm X c d \<Longrightarrow> calm X b d"
  using quiet_trans by (auto simp: calm_def)

lemma calm_inv: "calm X b c \<Longrightarrow> graph_inv X c"
  by (simp add: calm_def)

lemma calm_traced: "calm X b c \<Longrightarrow> traced b i \<Longrightarrow> traced c i"
  by (auto simp: calm_def dest: quiet_extends extends_traced)

lemma calm_valid: "calm X b c \<Longrightarrow> valid b i \<Longrightarrow> valid c i"
  by (auto simp: calm_def dest: quiet_extends extends_valid)

text \<open>A calm operation after calm ones.\<close>

lemma calm_bind:
  assumes "calm X b b1" and "holds (calm X b1) m" and "\<And>b2. calm X b b2 \<Longrightarrow> calm X b1 b2 \<Longrightarrow> holds P (f b2)"
  shows "holds P (Option.bind m f)"
  by (rule holds_bindI [OF assms(2)]) (rule assms(3), auto intro: calm_trans [OF assms(1)])

lemma calm_node: "graph_inv X b \<Longrightarrow> valid b i \<Longrightarrow> keeps_node g \<Longrightarrow> holds (calm X b) (on_node i g b)"
  unfolding calm_def by (rule on_node_keeps)

lemma calm_state:
  "graph_inv X b \<Longrightarrow> valid b i \<Longrightarrow> (\<And>s. ns_write_confirmed s \<Longrightarrow> ns_write_confirmed (h s)) \<Longrightarrow> holds (calm X b) (on_state i h b)"
  unfolding calm_def by (rule on_state_keeps)

lemma calm_edge:
  "graph_inv X b \<Longrightarrow> valid b dst \<Longrightarrow> (\<And>i. src = Some i \<Longrightarrow> valid b i) \<Longrightarrow>
    holds (calm X b) (add_edge src dst kind e evidence detail wg b)"
  by (rule holds_mono [OF add_edge_keeps]) (auto simp: calm_def)

lemma narrow_last_edge_keeps:
  assumes "graph_inv X b" and "mb_edges b \<noteq> []"
  shows "holds (calm X b) (narrow_last_edge f b)"
proof (cases "fu64 f ''range_start''")
  case (Some rs)
  show ?thesis unfolding narrow_last_edge_def Some option.case
    by (rule holds_mono [OF on_last_edge_keeps [OF assms]]) (auto simp: Let_def calm_def split: option.split)
qed (use assms in \<open>simp add: narrow_last_edge_def\<close>)

lemma begin_mutation_keeps:
  assumes inv: "graph_inv X b" and pv: "valid b prior"
  shows "holds (\<lambda>(found, b'). calm X b b' \<and> (\<forall>i. found = Some i \<longrightarrow> traced b' i)) (begin_mutation e uid start fin prior p b)"
proof -
  let ?key = "(uid, start, fin, kind_code AnonymousRegion)"
  obtain i b1 where new: "add_node (mutation_node e uid start fin p) b = (i, b1)"
    by (cases "add_node (mutation_node e uid start fin p) b")
  note b1 = add_node_keeps [OF new inv new_nodes(3)]
  have traced1: "traced b1 i" using b1(4,5) by (simp add: traced_def)
  let ?b2 = "b1\<lparr>mb_regions := omap_put ?key i (mb_regions b1)\<rparr>"
  note b2 = put_region [OF b1(1) traced1 refl, of ?key]
  have c2: "calm X b ?b2" using b2(1) quiet_trans [OF b1(3) b2(2)] by (simp add: calm_def)
  have traced2: "traced ?b2 i" using traced1 by (simp add: traced_def valid_def node_of_def)
  show ?thesis
    unfolding begin_mutation_def Let_def new prod.case
  proof (rule calm_bind [OF c2 calm_state [OF calm_inv [OF c2] traced_valid [OF traced2]]])
    fix b3
    assume b3: "calm X b b3" "calm X ?b2 b3"
    have t3: "traced b3 i" by (rule calm_traced [OF b3(2) traced2])
    have p3: "valid b3 prior" by (rule calm_valid [OF b3(1) pv])
    show "holds (\<lambda>(found, b'). calm X b b' \<and> (\<forall>i. found = Some i \<longrightarrow> traced b' i))
      (Option.bind (add_edge (Some prior) i MutatedFrom (Some e) ''CONFIRMED''
         ''bounded same-mapping byte mutation observed after prior confirmed execution; generation advances only if this mutated mapping is later actually executed''
         None b3) (\<lambda>b4.
       Option.bind (narrow_last_edge (te_fields e) b4) (\<lambda>b5. Some (Some i, b5))))"
    proof (rule holds_bindI [OF add_edge_keeps [OF calm_inv [OF b3(1)] traced_valid [OF t3]]])
      fix b4
      assume b4: "graph_inv X b4 \<and> quiet b3 b4 \<and> mb_edges b4 \<noteq> [] \<and> (MutatedFrom = ChildInherited \<longrightarrow> inherited b4 i) \<and>
        (\<forall>j. node_of b4 j = node_of b3 j \<and> state_of b4 j = state_of b3 j)"
      have c4: "calm X b b4" using calm_trans [OF b3(1), of b4] b4 by (simp add: calm_def)
      have t4: "traced b4 i" using b4 quiet_extends extends_traced t3 by blast
      show "holds (\<lambda>(found, b'). calm X b b' \<and> (\<forall>i. found = Some i \<longrightarrow> traced b' i))
        (Option.bind (narrow_last_edge (te_fields e) b4) (\<lambda>b5. Some (Some i, b5)))"
        by (rule calm_bind [OF c4 narrow_last_edge_keeps]) (use b4 calm_traced [OF _ t4] in \<open>auto\<close>)
    qed (use p3 in simp)
  qed simp
qed

lemma roll_keeps:
  assumes inv: "graph_inv X b"
  shows "holds (\<lambda>(found, b'). calm X b b' \<and> (\<forall>i. found = Some i \<longrightarrow> traced b' i)) (roll_same_mapping_mutation e uid b)"
proof -
  have prior: "valid b i" if "map_of (mb_regions b) key = Some i" for key i
    using region_traced [OF inv map_of_SomeD [OF that]] by auto
  show ?thesis
    unfolding roll_same_mapping_mutation_def
    using inv by (auto simp: Let_def prior begin_mutation_keeps split: option.split)
qed

text \<open>Operations that also return a node.\<close>

abbreviation aims :: "nat set \<Rightarrow> builder \<Rightarrow> nat \<times> builder \<Rightarrow> bool" where
  "aims X b \<equiv> \<lambda>(i, b'). calm X b b' \<and> traced b' i"

abbreviation may_aim :: "nat set \<Rightarrow> builder \<Rightarrow> nat option \<times> builder \<Rightarrow> bool" where
  "may_aim X b \<equiv> \<lambda>(found, b'). calm X b b' \<and> (\<forall>i. found = Some i \<longrightarrow> traced b' i)"

lemma backing_aims: "graph_inv X b \<Longrightarrow> holds (aims X b) (ensure_backing e uid kind bid b)"
  and region_aims: "graph_inv X b \<Longrightarrow> holds (aims X b) (event_region e uid cross b)"
  by (rule holds_mono [OF ensure_backing_keeps], auto simp: calm_def)
    (rule holds_mono [OF event_region_keeps], auto simp: calm_def)

lemma keeps_nodes:
  "keeps_node (\<lambda>n. n\<lparr>mn_creator_uid := cu, mn_creator_tid := ct, mn_cross := mn_cross n \<or> cross\<rparr>)"
  "keeps_node (\<lambda>n. n\<lparr>mn_writer_uid := wu, mn_writer_tid := wt, mn_write_first := (if mn_write_first n = 0 then q else mn_write_first n),
     mn_write_last := q, mn_evidence := ev\<rparr>)"
  "keeps_node (\<lambda>n. n\<lparr>mn_writer_gen := wg\<rparr>)"
  by (simp_all add: keeps_node_def)

lemma allocation_target:
  assumes inv: "graph_inv X b"
  shows "holds (may_aim X b)
    (case named_backing (te_fields e) of
       Some (bid, kind) \<Rightarrow> map_option (\<lambda>(i, b). (Some i, b)) (ensure_backing e (te_process_uid e) kind bid b)
     | None \<Rightarrow>
         if wanted then
           do {
             (i, b) \<leftarrow> event_region e (target_uid e) cross b;
             b \<leftarrow> on_state i (\<lambda>s. s\<lparr>ns_zero_basis := plain\<rparr>) b;
             b \<leftarrow> on_node i (\<lambda>n. n\<lparr>mn_creator_uid := te_process_uid e, mn_creator_tid := event_tid e,
                    mn_cross := mn_cross n \<or> cross\<rparr>) b;
             Some (Some i, b)
           }
         else Some (None, b))"
proof (cases "named_backing (te_fields e)")
  case (Some k)
  obtain bid kind where k: "k = (bid, kind)" by (cases k)
  show ?thesis
    unfolding Some k option.case prod.case holds_simps
    by (rule holds_mono [OF backing_aims [OF inv]]) auto
next
  case None
  have made: "holds (may_aim X b) (Option.bind (on_state i (\<lambda>s. s\<lparr>ns_zero_basis := plain\<rparr>) b1) (\<lambda>b.
      Option.bind (on_node i (\<lambda>n. n\<lparr>mn_creator_uid := te_process_uid e, mn_creator_tid := event_tid e,
        mn_cross := mn_cross n \<or> cross\<rparr>) b) (\<lambda>b. Some (Some i, b))))"
    if b1: "calm X b b1" "traced b1 i" for b1 i
  proof (rule calm_bind [OF b1(1) calm_state [OF calm_inv [OF b1(1)] traced_valid [OF b1(2)]]])
    fix b2
    assume b2: "calm X b b2" "calm X b1 b2"
    show "holds (may_aim X b) (Option.bind (on_node i (\<lambda>n. n\<lparr>mn_creator_uid := te_process_uid e, mn_creator_tid := event_tid e,
        mn_cross := mn_cross n \<or> cross\<rparr>) b2) (\<lambda>b. Some (Some i, b)))"
      by (rule calm_bind [OF b2(1) calm_node [OF calm_inv [OF b2(1)] _ keeps_nodes(1)]])
        (use calm_traced [OF b2(2) b1(2)] calm_traced in \<open>auto\<close>)
  qed simp
  show ?thesis
    unfolding None option.case
    by (cases wanted, simp only: if_True, rule holds_bindI [OF region_aims [OF inv]])
      (use made inv in \<open>auto\<close>)
qed

lemma allocation_calm:
  assumes inv: "graph_inv X b"
  shows "holds (calm X b) (allocation_event e b)"
  unfolding allocation_event_def Let_def
proof (rule holds_bindI [OF allocation_target [OF inv]])
  fix a
  assume a: "may_aim X b a"
  obtain found b1 where eq: "a = (found, b1)" by (cases a)
  then have b1: "calm X b b1" "\<And>i. found = Some i \<Longrightarrow> traced b1 i" using a by simp_all
  show "holds (calm X b) (case a of (found, b) \<Rightarrow> case found of None \<Rightarrow> Some b
      | Some i \<Rightarrow> add_edge (active_node b e) i AllocatedFrom (Some e) ''OBSERVED''
          ''allocation/mapping fact only; does not assign a generation'' (active_generation b e) b)"
  proof (cases found)
    case (Some i)
    show ?thesis
      unfolding eq prod.case Some option.case
      by (rule holds_mono [OF calm_edge [OF calm_inv [OF b1(1)] traced_valid [OF b1(2) [OF Some]]]])
        (use active_node_valid [OF calm_inv [OF b1(1)]] calm_trans [OF b1(1)] in \<open>auto\<close>)
  qed (use b1 in \<open>simp add: eq\<close>)
qed

lemma protect_target_aims:
  assumes inv: "graph_inv X b"
  shows "holds (may_aim X b) (protect_target e b)"
proof -
  have b1: "holds (may_aim X b) (map_option (\<lambda>(i, b). (Some i, b)) (ensure_backing e uid kind bid b))" for uid kind bid
    unfolding holds_simps by (rule holds_mono [OF backing_aims [OF inv]]) auto
  have b2: "holds (may_aim X b) (map_option (\<lambda>(i, b). (Some i, b)) (event_region e uid cross b))" for uid cross
    unfolding holds_simps by (rule holds_mono [OF region_aims [OF inv]]) auto
  let ?f = "te_fields e"
  define found where "found = Option.bind (first_some [fu64 ?f ''range_start'', fu64 ?f ''address'']) (\<lambda>s.
    existing_region (target_uid e) s
      (value_or (fu64 ?f ''range_end'') (plus64 s (max 1 (value_or (fu64 ?f ''size'') 1)))) b)"
  have b3: "traced b i" if "found = Some i" for i
    using that existing_region_traced [OF inv] unfolding found_def bind_eq_Some_conv by blast
  show ?thesis
  proof (cases "named_backing ?f")
    case (Some k)
    then show ?thesis unfolding protect_target_def Let_def Some option.case using b1 by (cases k) auto
  next
    case None
    show ?thesis
      unfolding protect_target_def Let_def None option.case found_def [symmetric]
    proof (cases found)
      case (Some i)
      then show "holds (may_aim X b) (case found of None \<Rightarrow>
          if field_is ?f ''materialization_candidate'' ''true'' \<or> field_is ?f ''armed_execute_breakpoint'' ''true'' \<or>
            target_uid e \<noteq> te_process_uid e \<or> relation_to_image ?f
          then map_option (\<lambda>(i, b). (Some i, b)) (event_region e (target_uid e) (target_uid e \<noteq> te_process_uid e) b)
          else Some (None, b) | Some i \<Rightarrow> Some (Some i, b))" using b3 inv by simp
    qed (use b2 inv in \<open>simp del: holds_simps(3)\<close>)
  qed
qed

lemma protect_calm:
  assumes inv: "graph_inv X b"
  shows "holds (calm X b) (protect_event e b)"
proof -
  have edge: "holds (calm X b) (Option.bind (on_state i (\<lambda>s. s\<lparr>ns_transition := True\<rparr>) b1) (add_edge (Some i) i k e' ev d g))"
    if b1: "calm X b b1" "traced b1 i" for i b1 k e' ev d g
  proof (rule calm_bind [OF b1(1) calm_state [OF calm_inv [OF b1(1)] traced_valid [OF b1(2)]]])
    fix b2
    assume b2: "calm X b b2" "calm X b1 b2"
    have t: "valid b2 i" using calm_traced [OF b2(2) b1(2)] by auto
    show "holds (calm X b) (add_edge (Some i) i k e' ev d g b2)"
      by (rule holds_mono [OF calm_edge [OF calm_inv [OF b2(1)] t]]) (use t calm_trans [OF b2(1)] in \<open>auto\<close>)
  qed simp
  show ?thesis
    unfolding protect_event_def
    by (cases "executable_protection (te_fields e)", simp only: not_True_eq_False if_False,
        rule holds_bindI [OF protect_target_aims [OF inv]])
      (use edge inv in \<open>auto split: option.split\<close>)
qed

lemma node_id_valid:
  assumes "graph_inv X b" and "n \<in> set (mb_nodes b)"
  shows "valid b (mn_id n)"
proof -
  have "map mn_id (mb_nodes b) = [1..<length (mb_nodes b) + 1]"
    using assms(1) unfolding graph_inv_def shape_def by blast
  then have "mn_id n \<in> set [1..<length (mb_nodes b) + 1]"
    using assms(2) by (metis imageI set_map)
  then show ?thesis unfolding set_upt valid_def by auto
qed

lemma find_in_set: "find P xs = Some x \<Longrightarrow> x \<in> set xs"
  by (auto simp: find_Some_iff)

lemma source_node_valid: "graph_inv X b \<Longrightarrow> source_node e b = Some n \<Longrightarrow> valid b (mn_id n)"
  by (auto simp: source_node_def bind_eq_Some_conv dest!: find_in_set intro: node_id_valid)

lemma write_target_aims:
  assumes inv: "graph_inv X b"
  shows "holds (aims X b) (write_target e mutation b)"
proof (cases "named_backing (te_fields e)")
  case (Some k)
  then show ?thesis using backing_aims [OF inv] by (cases k) (simp add: write_target_def)
next
  case None
  have rolled: "holds (may_aim X b) (if mutation then roll_same_mapping_mutation e (target_uid e) b else Some (None, b))"
    using roll_keeps [OF inv] inv by simp
  show ?thesis
    unfolding write_target_def None option.case
  proof (rule holds_bindI [OF rolled])
    fix a
    assume a: "may_aim X b a"
    obtain found b1 where eq: "a = (found, b1)" by (cases a)
    have b1: "calm X b b1" using a eq by simp
    show "holds (aims X b) (case a of (rolled, b) \<Rightarrow> case rolled of
        None \<Rightarrow> event_region e (target_uid e) (target_uid e \<noteq> te_process_uid e) b | Some i \<Rightarrow> Some (i, b))"
    proof (cases found)
      case None
      show ?thesis
        unfolding eq prod.case None option.case
        by (rule holds_mono [OF region_aims [OF calm_inv [OF b1]]]) (use calm_trans [OF b1] in auto)
    qed (use a in \<open>simp add: eq\<close>)
  qed
qed

lemma note_write_calm:
  assumes inv: "graph_inv X b" and i: "valid b i"
  shows "holds (calm X b) (note_write e mutation i b)"
  unfolding note_write_def
proof (rule calm_bind [where b = b and ?b1.0 = b, OF _ calm_state [OF inv i]])
  fix b1
  assume b1: "calm X b b1"
  show "holds (calm X b) (Option.bind (on_node i (\<lambda>n. n\<lparr>mn_writer_uid := te_process_uid e, mn_writer_tid := event_tid e,
      mn_write_first := (if mn_write_first n = 0 then te_seq e else mn_write_first n),
      mn_write_last := te_seq e, mn_evidence := ''CONFIRMED''\<rparr>) b1)
    (\<lambda>b2. if mutation then Some b2
       else Option.bind (on_state i (\<lambda>s. s\<lparr>ns_writer_gen := active_generation b e\<rparr>) b2)
         (on_node i (\<lambda>n. n\<lparr>mn_writer_gen := active_generation b e\<rparr>))))"
  proof (rule calm_bind [OF b1 calm_node [OF calm_inv [OF b1] calm_valid [OF b1 i] keeps_nodes(2)]])
    fix b2
    assume b2: "calm X b b2"
    have "holds (calm X b) (Option.bind (on_state i (\<lambda>s. s\<lparr>ns_writer_gen := active_generation b e\<rparr>) b2)
        (on_node i (\<lambda>n. n\<lparr>mn_writer_gen := active_generation b e\<rparr>)))"
    proof (rule calm_bind [OF b2 calm_state [OF calm_inv [OF b2] calm_valid [OF b2 i]]])
      fix b3
      assume b3: "calm X b b3"
      show "holds (calm X b) (on_node i (\<lambda>n. n\<lparr>mn_writer_gen := active_generation b e\<rparr>) b3)"
        by (rule holds_mono [OF calm_node [OF calm_inv [OF b3] calm_valid [OF b3 i] keeps_nodes(3)] calm_trans [OF b3]])
    qed simp
    then show "holds (calm X b) (if mutation then Some b2
       else Option.bind (on_state i (\<lambda>s. s\<lparr>ns_writer_gen := active_generation b e\<rparr>) b2)
         (on_node i (\<lambda>n. n\<lparr>mn_writer_gen := active_generation b e\<rparr>)))" using b2 by simp
  qed
qed (use inv in simp_all)

lemma write_edges_calm:
  assumes inv: "graph_inv X b" and i: "valid b i"
  shows "holds (calm X b) (write_edges e confirmed i uid b)"
proof -
  let ?st = "if confirmed then ''CONFIRMED'' else ''FAILED''"
  have mark: "holds (calm X b) (case source_node e b of None \<Rightarrow> Some b
      | Some n \<Rightarrow> on_state i (\<lambda>s. s\<lparr>ns_byte_source_gen := mn_generation n\<rparr>) b)"
    using calm_state [OF inv i] inv by (cases "source_node e b") simp_all
  show ?thesis
    unfolding write_edges_def Let_def
  proof (rule holds_bindI [OF mark])
    fix b1
    assume b1: "calm X b b1"
    have i1: "valid b1 i" by (rule calm_valid [OF b1 i])
    define n where "n = node_of b1 i"
    have first: "holds (calm X b1) (if mn_kind n = OriginalImageRegion
        then add_edge (mb_original b1 uid) i MutatedFrom (Some e) ?st
               ''original image region differs from the process-create baseline; incoming byte source may remain UNKNOWN''
               (active_generation b1 e) b1 else Some b1)"
      using calm_edge [OF calm_inv [OF b1] i1] pointer_valid_at(1) [OF calm_inv [OF b1]] calm_inv [OF b1] by auto
    have last: "holds (calm X b) (case source_node e b of
         Some src \<Rightarrow> add_edge (Some (mn_id src)) i WrittenFrom (Some e) ?st
           ''source buffer lies inside a generation-known runtime node'' (active_generation b2 e) b2
       | None \<Rightarrow>
           if mn_kind n = OriginalImageRegion then Some b2
           else add_edge (active_node b e) i MaterializedByRuntime (Some e) ?st
             ''runtime write observed; source byte generation intentionally UNKNOWN'' (active_generation b2 e) b2)"
      if b2: "calm X b b2" for b2
    proof -
      have go: "holds (calm X b) (add_edge src i k e' ev d g b2)" if "\<And>j. src = Some j \<Longrightarrow> valid b j" for src k e' ev d g
        by (rule holds_mono [OF calm_edge [OF calm_inv [OF b2] calm_valid [OF b2 i]]])
          (use that calm_valid [OF b2] calm_trans [OF b2] in auto)
      show ?thesis
      proof (cases "source_node e b")
        case None
        have "holds (calm X b) (add_edge (active_node b e) i k e' ev d g b2)" for k e' ev d g
          by (rule go) (rule active_node_valid [OF inv])
        then show ?thesis using b2 by (simp add: None)
      next
        case (Some src)
        have "holds (calm X b) (add_edge (Some (mn_id src)) i k e' ev d g b2)" for k e' ev d g
          by (rule go) (use source_node_valid [OF inv Some] in simp)
        then show ?thesis by (simp add: Some)
      qed
    qed
    show "holds (calm X b) (Option.bind (node_at b1 i) (\<lambda>n.
        Option.bind (if mn_kind n = OriginalImageRegion
            then add_edge (mb_original b1 uid) i MutatedFrom (Some e) ?st
               ''original image region differs from the process-create baseline; incoming byte source may remain UNKNOWN''
               (active_generation b1 e) b1 else Some b1) (\<lambda>b2.
          case source_node e b of None \<Rightarrow> if mn_kind n = OriginalImageRegion then Some b2
             else add_edge (active_node b e) i MaterializedByRuntime (Some e) ?st
               ''runtime write observed; source byte generation intentionally UNKNOWN'' (active_generation b2 e) b2
          | Some src \<Rightarrow> add_edge (Some (mn_id src)) i WrittenFrom (Some e) ?st
               ''source buffer lies inside a generation-known runtime node'' (active_generation b2 e) b2)))"
      unfolding node_at_valid [OF i1] bind.bind_lunit n_def [symmetric]
      by (rule calm_bind [OF b1 first]) (rule last)
  qed
qed

lemma write_calm:
  assumes inv: "graph_inv X b"
  shows "holds (calm X b) (write_event e b)"
proof -
  define confirmed where "confirmed = write_confirmed (te_fields e)"
  define mutation where "mutation = (confirmed \<and> field_is (te_fields e) ''runtime_mutation_generation_candidate'' ''true'')"
  define uid where "uid = (if named_backing (te_fields e) = None then target_uid e else te_process_uid e)"
  have tail: "holds (calm X b) (Option.bind (state_at b2 i) (\<lambda>s.
      if mutation \<and> ns_mutation_parent s \<noteq> None then Some b2
      else Option.bind (write_edges e confirmed i uid b2) (\<lambda>b.
        if confirmed then on_state i (\<lambda>s. s\<lparr>ns_write_edge := True\<rparr>) b else Some b)))"
    if b2: "calm X b b2" and i: "valid b2 i" for b2 i
  proof -
    have "holds (calm X b) (Option.bind (write_edges e confirmed i uid b2) (\<lambda>b.
        if confirmed then on_state i (\<lambda>s. s\<lparr>ns_write_edge := True\<rparr>) b else Some b))"
    proof (rule calm_bind [OF b2 write_edges_calm [OF calm_inv [OF b2] i]])
      fix b3
      assume b3: "calm X b b3" "calm X b2 b3"
      show "holds (calm X b) (if confirmed then on_state i (\<lambda>s. s\<lparr>ns_write_edge := True\<rparr>) b3 else Some b3)"
        using holds_mono [OF calm_state [OF calm_inv [OF b3(1)] calm_valid [OF b3(2) i]] calm_trans [OF b3(1)]] b3(1) by auto
    qed
    then show ?thesis using b2 i graph_inv_shape [OF calm_inv [OF b2]] by simp
  qed
  show ?thesis
    unfolding write_event_def Let_def confirmed_def [symmetric] mutation_def [symmetric] uid_def [symmetric]
  proof (rule holds_bindI [OF write_target_aims [OF inv]])
    fix a
    assume a: "aims X b a"
    obtain i b1 where eq: "a = (i, b1)" by (cases a)
    have b1: "calm X b b1" and i: "valid b1 i" using a eq by auto
    have noted: "holds (calm X b1) (if confirmed then note_write e mutation i b1 else Some b1)"
      using note_write_calm [OF calm_inv [OF b1] i] calm_inv [OF b1] by simp
    show "holds (calm X b) (case a of (i, b) \<Rightarrow>
        Option.bind (if confirmed then note_write e mutation i b else Some b) (\<lambda>b.
        Option.bind (state_at b i) (\<lambda>s.
          if mutation \<and> ns_mutation_parent s \<noteq> None then Some b
          else Option.bind (write_edges e confirmed i uid b) (\<lambda>b.
            if confirmed then on_state i (\<lambda>s. s\<lparr>ns_write_edge := True\<rparr>) b else Some b))))"
      unfolding eq prod.case
      by (rule calm_bind [OF b1 noted]) (rule tail, assumption, erule calm_valid, rule i)
  qed
qed

subsection \<open>Steps that may give one\<close>

definition grows :: "builder \<Rightarrow> builder \<Rightarrow> bool" where
  "grows b b' \<longleftrightarrow> graph_inv {} b' \<and> extends b b'"

lemma calm_grows: "calm {} b c \<Longrightarrow> grows b c"
  by (simp add: calm_def grows_def quiet_extends)

lemma grows_refl [simp]: "grows b b \<longleftrightarrow> graph_inv {} b"
  by (simp add: grows_def)

lemma grows_trans: "grows b c \<Longrightarrow> grows c d \<Longrightarrow> grows b d"
  by (auto simp: grows_def intro: extends_trans)

lemma grows_inv: "grows b c \<Longrightarrow> graph_inv {} c"
  by (simp add: grows_def)

lemma grows_traced: "grows b c \<Longrightarrow> traced b i \<Longrightarrow> traced c i"
  by (auto simp: grows_def dest: extends_traced)

lemma grows_valid: "grows b c \<Longrightarrow> valid b i \<Longrightarrow> valid c i"
  by (auto simp: grows_def dest: extends_valid)

lemma grows_bind:
  assumes "grows b b1" and "holds (grows b1) m" and "\<And>b2. grows b b2 \<Longrightarrow> grows b1 b2 \<Longrightarrow> holds P (f b2)"
  shows "holds P (Option.bind m f)"
  by (rule holds_bindI [OF assms(2)]) (rule assms(3), auto intro: grows_trans [OF assms(1)])

lemma grows_step:
  assumes "grows b b1" and "valid b1 i" and "graph_inv {} b1 \<Longrightarrow> valid b1 i \<Longrightarrow> holds (grows b1) m"
    and "\<And>b2. grows b b2 \<Longrightarrow> valid b2 i \<Longrightarrow> holds P (f b2)"
  shows "holds P (Option.bind m f)"
  by (rule grows_bind [OF assms(1) assms(3) [OF grows_inv [OF assms(1)] assms(2)]])
    (rule assms(4), assumption, erule grows_valid, rule assms(2))

lemma holds_grows: "holds (calm {} b) m \<Longrightarrow> holds (grows b) m"
  by (erule holds_mono) (rule calm_grows)

text \<open>A node whose generation stands for a confirmed write, and its execution.\<close>

definition backed :: "builder \<Rightarrow> nat \<Rightarrow> bool" where
  "backed b i \<longleftrightarrow> traced b i \<and> (mn_generation (node_of b i) \<noteq> None \<longrightarrow> ns_write_confirmed (state_of b i))"

lemma traced_backed: "graph_inv {} b \<Longrightarrow> traced b i \<Longrightarrow> backed b i"
  using graph_inv_at [of "{}" b i] by (auto simp: backed_def traced_def may_have_generation_def)

lemma not_original: "runtime_kind k \<Longrightarrow> k \<noteq> OriginalImage"
  by (auto simp: runtime_kind_def)

lemma assign_generation_keeps:
  assumes inv: "graph_inv {} b" and i: "traced b i"
  shows "holds (\<lambda>b'. graph_inv {i} b' \<and> extends b b' \<and> backed b' i) (assign_generation i b)"
proof (cases "mn_generation (node_of b i) \<noteq> None \<or> \<not> ns_write_confirmed (state_of b i)")
  case True
  then have "assign_generation i b = Some b"
    using traced_valid [OF i] graph_inv_shape [OF inv] by (simp add: assign_generation_def)
  then show ?thesis using graph_inv_mono [OF inv, of "{i}"] traced_backed [OF inv i] by simp
next
  case False
  define n where "n = (let g = next_generation b (node_of b i) (state_of b i) in (node_of b i)\<lparr>mn_generation := g,
    mn_evidence := (if g = None then ''PROVENANCE_UNKNOWN'' else ''CONFIRMED'')\<rparr>)"
  have n: "mn_id n = mn_id (node_of b i)" "mn_kind n = mn_kind (node_of b i)" by (simp_all add: n_def Let_def)
  have run: "assign_generation i b = Some (put_node i n b)"
    using False traced_valid [OF i] graph_inv_shape [OF inv] by (simp add: assign_generation_def n_def)
  have "graph_inv {i} (put_node i n b)"
    by (rule put_node_inv [OF graph_inv_mono [OF inv] traced_valid [OF i] n])
      (use i in \<open>auto simp: may_have_generation_def n traced_def dest: not_original\<close>)
  moreover have "backed (put_node i n b) i"
    using False i by (simp add: backed_def traced_def n)
  ultimately show ?thesis using put_node_extends(1) [OF traced_valid [OF i] n(2)] by (simp add: run)
qed

lemma executed_keeps:
  assumes inv: "graph_inv {i} b" and i: "backed b i" and g: "keeps_node g" "\<And>n. mn_executed (g n)"
  shows "holds (grows b) (on_node i g b)"
proof -
  let ?n = "g (node_of b i)"
  have t: "traced b i" using i by (simp add: backed_def)
  have n: "mn_id ?n = mn_id (node_of b i)" "mn_kind ?n = mn_kind (node_of b i)" "mn_generation ?n = mn_generation (node_of b i)"
    using g(1) by (simp_all add: keeps_node_def)
  have "graph_inv {i} (put_node i ?n b)"
    by (rule put_node_inv [OF inv traced_valid [OF t] n(1,2)])
      (use t in \<open>auto simp: may_have_generation_def n traced_def dest: not_original\<close>)
  then have "graph_inv {} (put_node i ?n b)"
    by (rule graph_inv_exempt) (use i t g(2) in \<open>auto simp: may_have_generation_def n backed_def traced_def dest: not_original\<close>)
  then show ?thesis using put_node_extends(1) [OF traced_valid [OF t] n(2)] traced_valid [OF t] by (simp add: grows_def)
qed

lemma unseen_calm:
  assumes inv: "graph_inv X b" and i: "valid b i"
  shows "holds (calm X b) (unseen_write_edge e i detail b)"
proof -
  have b: "calm X b b" using inv by simp
  have "holds (calm X b) (Option.bind (add_edge None i MaterializedByRuntime (Some e) ''CONFIRMED'' detail None b)
      (on_state i (\<lambda>s. s\<lparr>ns_write_edge := True\<rparr>)))"
  proof (rule calm_bind [OF b calm_edge [OF inv i]])
    fix b1
    assume b1: "calm X b b1"
    show "holds (calm X b) (on_state i (\<lambda>s. s\<lparr>ns_write_edge := True\<rparr>) b1)"
      by (rule holds_mono [OF calm_state [OF calm_inv [OF b1] calm_valid [OF b1 i]] calm_trans [OF b1]]) simp
  qed simp
  then show ?thesis
    using inv i graph_inv_shape [OF inv] by (simp add: unseen_write_edge_def)
qed

lemma confirm_aims:
  assumes b1: "aims X b (i, b1)" and h: "\<And>s. ns_write_confirmed s \<Longrightarrow> ns_write_confirmed (h s)"
  shows "holds (aims X b) (Option.bind (on_state i h b1) (\<lambda>b. Some (i, b)))"
proof -
  have c: "calm X b b1" and t: "traced b1 i" using b1 by simp_all
  show ?thesis
    by (rule calm_bind [OF c calm_state [OF calm_inv [OF c] traced_valid [OF t] h]]) (use calm_traced [OF _ t] in \<open>auto\<close>)
qed

lemma execute_target_aims:
  assumes inv: "graph_inv X b"
  shows "holds (aims X b) (execute_target e b)"
proof (cases "named_backing (te_fields e)")
  case (Some k)
  then show ?thesis
    unfolding execute_target_def Let_def
    by (cases k, simp only: option.case prod.case, intro holds_bindI [OF backing_aims [OF inv]])
      (auto simp only: prod.case intro!: confirm_aims, simp_all)
next
  case None
  let ?ex = "existing_region_for_execution e b"
  let ?f = "te_fields e"
  have tail: "holds (aims X b) (Option.bind (node_at b1 i) (\<lambda>n. Option.bind (on_state i (h n) b1) (\<lambda>b. Some (i, b))))"
    if "aims X b (i, b1)" "\<And>n s. ns_write_confirmed s \<Longrightarrow> ns_write_confirmed (h n s)" for i b1 h
    using confirm_aims [OF that(1), of "h (node_of b1 i)"] that traced_valid [of b1 i] by simp
  show ?thesis
    unfolding execute_target_def Let_def None option.case
  proof (rule holds_bindI [OF region_aims [OF inv, of e "te_process_uid e" False]])
    fix a
    assume a: "aims X b a"
    obtain made b1 where eq: "a = (made, b1)" by (cases a)
    define i where "i = value_or ?ex made"
    have "traced b1 i"
      using a existing_for_execution_traced [OF inv] calm_traced [of X b b1]
      by (cases ?ex) (simp_all add: i_def eq)
    then have aim: "aims X b (i, b1)" using a by (simp add: eq)
    show "holds (aims X b) (case a of (made, b1) \<Rightarrow> Option.bind (node_at b1 (value_or ?ex made)) (\<lambda>n.
        Option.bind (on_state (value_or ?ex made)
          (\<lambda>s. s\<lparr>ns_write_confirmed := ns_write_confirmed s \<or>
              (mb_region_capture b1 (te_process_uid e, mn_address n, plus64 (mn_address n) (mn_size n)) \<and> mn_kind n = AnonymousRegion) \<or>
              0 < value_or (fu64 ?f ''changed_bytes'') 0,
            ns_zero_basis := ns_zero_basis s \<or>
              (mb_region_capture b1 (te_process_uid e, mn_address n, plus64 (mn_address n) (mn_size n)) \<and> mn_kind n = AnonymousRegion)\<rparr>) b1)
        (\<lambda>b. Some (value_or ?ex made, b))))"
      unfolding eq prod.case i_def [symmetric] by (rule tail [OF aim]) simp_all
  qed
qed

lemma pointed_grows:
  assumes inv: "graph_inv {} b" and i: "valid b i"
  shows "grows b (b\<lparr>mb_latest := (mb_latest b)(u \<mapsto> i)\<rparr>)"
  using put_pointers [OF inv, of "b\<lparr>mb_latest := (mb_latest b)(u \<mapsto> i)\<rparr>"] pointer_valid [OF inv]
    ran_upd [OF pointer_valid(3) [OF inv] i] by (simp add: grows_def quiet_extends)

lemma enter_generated_grows:
  assumes inv: "graph_inv {} b" and i: "valid b i"
  shows "holds (grows b) (enter_generated e i b)"
proof (cases "mn_generation (node_of b i)")
  case (Some g)
  let ?c = "b\<lparr>mb_latest := (mb_latest b)(te_process_uid e \<mapsto> i)\<rparr>"
  have c: "grows b ?c" by (rule pointed_grows [OF inv i])
  have "valid ?c i" using i by (simp add: valid_def)
  then have "grows ?c (enter_thread e i g ?c)"
    using enter_thread_keeps [OF grows_inv [OF c]] by (simp add: grows_def quiet_extends)
  then show ?thesis using i grows_trans [OF c] by (simp add: enter_generated_def Some)
qed (use assms in \<open>simp add: enter_generated_def\<close>)

lemma mark_generated_grows:
  assumes inv: "graph_inv {} b" and i: "valid b i"
  shows "holds (grows b) (mark_generated e i b)"
  using put_pointers [OF inv, of "b\<lparr>mb_generated := insert (te_process_uid e) (mb_generated b)\<rparr>"] pointer_valid [OF inv] assms
  by (simp add: mark_generated_def grows_def quiet_extends)

lemma divergence_grows: "graph_inv {} b \<Longrightarrow> grows b (note_divergence d b)"
  using note_divergence_keeps [of "{}" b d] by (simp add: grows_def quiet_extends)

lemma note_changed_grows: "graph_inv {} b \<Longrightarrow> valid b i \<Longrightarrow> holds (grows b) (note_changed_image e i b)"
  by (simp add: note_changed_image_def divergence_grows)

lemma execution_edge_grows:
  assumes inv: "graph_inv {} b" and i: "valid b i"
  shows "holds (grows b) (execution_edge e i b)"
proof -
  have last: "holds (grows b) (case fu64 (te_fields e) ''address'' of None \<Rightarrow> Some c
      | Some a \<Rightarrow> on_last_edge (\<lambda>x. x\<lparr>me_address := a, me_size := 1\<rparr>) c)"
    if c: "graph_inv {} c" "quiet b c" "mb_edges c \<noteq> []" for c
  proof (cases "fu64 (te_fields e) ''address''")
    case (Some a)
    show ?thesis
      unfolding Some option.case
      by (rule holds_mono [OF on_last_edge_keeps [OF c(1,3)]])
        (use c(2) in \<open>auto simp: grows_def dest: quiet_extends intro: extends_trans\<close>)
  qed (use c in \<open>simp add: grows_def quiet_extends\<close>)
  show ?thesis
    unfolding execution_edge_def node_at_valid [OF i] bind.bind_lunit
    by (rule holds_bindI [OF add_edge_keeps [OF inv i]]) (use i last in \<open>auto\<close>)
qed

text \<open>The generation is given and the node executed in one go.\<close>

lemma assigned_grows:
  assumes inv: "graph_inv {} b" and i: "traced b i" and g: "keeps_node g" "\<And>n. mn_executed (g n)"
  shows "holds (grows b) (Option.bind (assign_generation i b) (on_node i g))"
proof (rule holds_bindI [OF assign_generation_keeps [OF inv i]])
  fix b1
  assume b1: "graph_inv {i} b1 \<and> extends b b1 \<and> backed b1 i"
  show "holds (grows b) (on_node i g b1)"
    by (rule holds_mono [OF executed_keeps [OF _ _ g]]) (use b1 in \<open>auto simp: grows_def intro: extends_trans\<close>)
qed

lemma executed_nodes:
  "keeps_node (executed_node e)" "mn_executed (executed_node e n)"
  "keeps_node (\<lambda>n. (first_execution e addr (n\<lparr>mn_executed := True\<rparr>))\<lparr>mn_evidence := ev n\<rparr>)"
  "mn_executed ((first_execution e addr (n\<lparr>mn_executed := True\<rparr>))\<lparr>mn_evidence := ev'\<rparr>)"
  by (simp_all add: keeps_node_def first_execution_def executed_node_def)

lemma execute_node_grows:
  assumes inv: "graph_inv {} b" and i: "traced b i"
  shows "holds (grows b) (execute_node e i b)"
  unfolding execute_node_def
proof (rule calm_bind [where b = b and ?b1.0 = b, OF _ calm_state [OF inv traced_valid [OF i]]])
  fix b1
  assume b1: "calm {} b b1"
  have i1: "traced b1 i" by (rule calm_traced [OF b1 i])
  show "holds (grows b) (Option.bind (unseen_write_edge e i
      ''nonzero execution-time bytes prove materialization of a runtime-created zero-based region/backing; writer identity, write time, and source byte generation remain UNKNOWN'' b1) (\<lambda>b2.
    Option.bind (on_state i (\<lambda>s. s\<lparr>ns_executor_gen := active_generation b2 e, ns_executor_tid := event_tid e\<rparr>) b2) (\<lambda>b3.
    Option.bind (assign_generation i b3) (on_node i (executed_node e)))))"
  proof (rule calm_bind [OF b1 unseen_calm [OF calm_inv [OF b1] traced_valid [OF i1]]])
    fix b2
    assume b2: "calm {} b b2" "calm {} b1 b2"
    have i2: "traced b2 i" by (rule calm_traced [OF b2(2) i1])
    show "holds (grows b) (Option.bind (on_state i (\<lambda>s. s\<lparr>ns_executor_gen := active_generation b2 e, ns_executor_tid := event_tid e\<rparr>) b2) (\<lambda>b3.
      Option.bind (assign_generation i b3) (on_node i (executed_node e))))"
    proof (rule calm_bind [OF b2(1) calm_state [OF calm_inv [OF b2(1)] traced_valid [OF i2]]])
      fix b3
      assume b3: "calm {} b b3" "calm {} b2 b3"
      show "holds (grows b) (Option.bind (assign_generation i b3) (on_node i (executed_node e)))"
        by (rule holds_mono [OF assigned_grows [OF calm_inv [OF b3(1)] calm_traced [OF b3(2) i2] executed_nodes(1,2)]])
          (rule grows_trans [OF calm_grows [OF b3(1)]])
    qed simp
  qed
qed (use inv in simp_all)

lemma execute_backing_grows:
  assumes inv: "graph_inv {} b" and i: "traced b i"
  shows "holds (grows b) (execute_backing e bid i b)"
  unfolding execute_backing_def
proof (rule calm_bind [where b = b and ?b1.0 = b, OF _ calm_state [OF inv traced_valid [OF i]]])
  fix b1
  assume b1: "calm {} b b1"
  have i1: "traced b1 i" by (rule calm_traced [OF b1 i])
  let ?g = "\<lambda>n. (first_execution e None (n\<lparr>mn_executed := True\<rparr>))\<lparr>
           mn_evidence := (if mn_generation n = None then ''PROVENANCE_UNKNOWN'' else ''CONFIRMED'')\<rparr>"
  show "holds (grows b) (Option.bind (unseen_write_edge e i
      ''runtime backing contains materialized bytes before exact exec handoff; writer identity, write time, and source byte generation remain UNKNOWN'' b1) (\<lambda>b2.
    Option.bind (assign_generation i b2) (on_node i ?g)))"
  proof (rule calm_bind [OF b1 unseen_calm [OF calm_inv [OF b1] traced_valid [OF i1]]])
    fix b2
    assume b2: "calm {} b b2" "calm {} b1 b2"
    show "holds (grows b) (Option.bind (assign_generation i b2) (on_node i ?g))"
      by (rule holds_mono [OF assigned_grows [OF calm_inv [OF b2(1)] calm_traced [OF b2(2) i1] executed_nodes(3,4)]])
        (rule grows_trans [OF calm_grows [OF b2(1)]])
  qed
qed (use inv in simp_all)

lemma execute_grows:
  assumes inv: "graph_inv {} b"
  shows "holds (grows b) (execute_event e b)"
  unfolding execute_event_def
proof (rule holds_bindI [OF execute_target_aims [OF inv]])
  fix a
  assume a: "aims {} b a"
  obtain i b1 where eq: "a = (i, b1)" by (cases a)
  have b1: "grows b b1" "traced b1 i" using a calm_grows by (simp_all add: eq)
  have rest: "holds (grows b) (Option.bind (execution_edge e i b2) (\<lambda>b3. Option.bind (mark_generated e i b3)
      (\<lambda>b4. Option.bind (enter_generated e i b4) (note_changed_image e i))))" if b2: "grows b b2" "valid b2 i" for b2
    by (rule grows_step [OF b2 execution_edge_grows], assumption, assumption,
        rule grows_step [OF _ _ mark_generated_grows], assumption+,
        rule grows_step [OF _ _ enter_generated_grows], assumption+,
        rule holds_mono [OF note_changed_grows grows_trans], erule grows_inv)
  show "holds (grows b) (case a of (i, b1) \<Rightarrow> Option.bind (execute_node e i b1) (\<lambda>b2.
      Option.bind (execution_edge e i b2) (\<lambda>b3. Option.bind (mark_generated e i b3)
      (\<lambda>b4. Option.bind (enter_generated e i b4) (note_changed_image e i)))))"
    unfolding eq prod.case
    by (rule grows_bind [OF b1(1) execute_node_grows [OF grows_inv [OF b1(1)] b1(2)]])
      (rule rest, assumption, rule traced_valid, erule grows_traced, rule b1(2))
qed

text \<open>A node that is given the generation and the state of another one, and the edge that says so.\<close>

lemma given_grows:
  assumes inv: "graph_inv {} b" and r: "traced b r" and src: "valid b src"
    and n: "mn_id n = mn_id (node_of b r)" "mn_kind n = mn_kind (node_of b r)"
    and conf: "mn_generation n \<noteq> None \<Longrightarrow> ns_write_confirmed s" and why: "mn_executed n \<or> k = ChildInherited"
  shows "holds (grows b) (add_edge (Some src) r k e ev d g (put_state r s (put_node r n b)))"
proof -
  let ?c = "put_node r n b"
  let ?d = "put_state r s ?c"
  have rv: "valid b r" and kind: "runtime_kind (mn_kind n)" using r by (simp_all add: traced_def n)
  have c: "graph_inv {r} ?c"
    by (rule put_node_inv [OF graph_inv_mono [OF inv] rv n]) (use kind in \<open>auto simp: may_have_generation_def dest: not_original\<close>)
  have d: "graph_inv {r} ?d"
    by (rule put_state_inv [OF c]) (use kind rv in \<open>auto simp: may_have_generation_def dest: not_original\<close>)
  have at: "node_of ?d r = n" "state_of ?d r = s" using rv graph_inv_shape [OF c] by simp_all
  have ext: "extends b ?d" using extends_trans [OF put_node_extends(1) [OF rv n(2)] quiet_extends [OF put_state_quiet]] .
  show ?thesis
  proof (rule holds_mono [OF add_edge_keeps [OF d]])
    fix b'
    assume b': "graph_inv {r} b' \<and> quiet ?d b' \<and> mb_edges b' \<noteq> [] \<and> (k = ChildInherited \<longrightarrow> inherited b' r) \<and>
      (\<forall>j. node_of b' j = node_of ?d j \<and> state_of b' j = state_of ?d j)"
    then have same: "node_of b' r = n" "state_of b' r = s" using at by simp_all
    have inv': "graph_inv {r} b'" and ex: "mn_executed n \<or> inherited b' r" using b' why by blast+
    have "graph_inv {} b'"
      by (rule graph_inv_exempt [OF inv']) (use ex conf kind in \<open>auto simp: may_have_generation_def same dest: not_original\<close>)
    then show "grows b b'" using extends_trans [OF ext quiet_extends] b' by (simp add: grows_def)
  qed (use rv src in simp_all)
qed

lemma given_nodes [simp]:
  "mn_id (handed_node e n m) = mn_id m" "mn_kind (handed_node e n m) = mn_kind m"
  "mn_generation (handed_node e n m) = mn_generation n" "mn_executed (handed_node e n m)"
  "mn_id (inherited_node n m) = mn_id m" "mn_kind (inherited_node n m) = mn_kind m"
  "mn_generation (inherited_node n m) = mn_generation n"
  by (simp_all add: handed_node_def inherited_node_def with_writer_def)

lemma put_node_shape: "shape b \<Longrightarrow> mn_id n = mn_id (node_of b i) \<Longrightarrow> shape (put_node i n b)"
  using map_put_node [of mn_id n b i] by (simp add: shape_def put_node_def)

lemma hand_over_grows:
  assumes inv: "graph_inv {} b" and i: "traced b i" and r: "traced b r"
  shows "holds (grows b) (hand_over e i r b)"
proof -
  have sh: "shape (put_node r (handed_node e (node_of b i) (node_of b r)) b)"
    by (rule put_node_shape) (use inv in auto)
  show ?thesis
    using traced_valid [OF i] traced_valid [OF r] graph_inv_shape [OF inv] sh traced_backed [OF inv i]
      given_grows [OF inv r traced_valid [OF i], where n = "handed_node e (node_of b i) (node_of b r)"]
    by (simp add: hand_over_def backed_def)
qed

lemma inherit_from_grows:
  assumes inv: "graph_inv {} b" and p: "traced b parent" and c: "traced b child"
  shows "holds (grows b) (inherit_from e parent child b)"
proof -
  have sh: "shape (put_node child (inherited_node (node_of b parent) (node_of b child)) b)"
    by (rule put_node_shape) (use inv in auto)
  show ?thesis
    using traced_valid [OF p] traced_valid [OF c] graph_inv_shape [OF inv] sh traced_backed [OF inv p]
      given_grows [OF inv c traced_valid [OF p], where n = "inherited_node (node_of b parent) (node_of b child)"]
    by (simp add: inherit_from_def backed_def)
qed

lemma handoff_grows:
  assumes inv: "graph_inv {} b"
  shows "holds (grows b) (exec_handoff e bid kind b)"
  unfolding exec_handoff_def
proof (rule holds_bindI [OF backing_aims [OF inv]])
  fix a
  assume a: "aims {} b a"
  obtain i b1 where eq: "a = (i, b1)" by (cases a)
  have b1: "grows b b1" "traced b1 i" using a calm_grows by (simp_all add: eq)
  have entered: "holds (grows b) (Option.bind (hand_over e i r b3) (enter_generated e r))"
    if b3: "grows b b3" "traced b3 i" "traced b3 r" for b3 r
    by (rule grows_step [OF b3(1) traced_valid [OF b3(3)] hand_over_grows [OF _ b3(2,3)]], assumption)
      (rule holds_mono [OF enter_generated_grows grows_trans], erule grows_inv)
  have rest: "holds (grows b) (Option.bind (ensure_region e (te_process_uid e) 0 1 ReplacementImage False b2)
      (\<lambda>(r, b3). Option.bind (hand_over e i r b3) (enter_generated e r)))" if b2: "grows b b2" "traced b2 i" for b2
  proof (rule holds_bindI [OF ensure_region_keeps [OF grows_inv [OF b2(1)]]])
    fix x
    assume x: "case x of (r, b3) \<Rightarrow> graph_inv {} b3 \<and> quiet b2 b3 \<and> traced b3 r"
    obtain r b3 where x': "x = (r, b3)" by (cases x)
    have b23: "grows b2 b3" using x by (simp add: x' grows_def quiet_extends)
    show "holds (grows b) (case x of (r, b3) \<Rightarrow> Option.bind (hand_over e i r b3) (enter_generated e r))"
      unfolding x' prod.case
      by (rule entered [OF grows_trans [OF b2(1) b23] grows_traced [OF b23 b2(2)]]) (use x x' in simp)
  qed simp
  show "holds (grows b) (case a of (i, b1) \<Rightarrow> Option.bind (execute_backing e bid i b1) (\<lambda>b2.
      Option.bind (ensure_region e (te_process_uid e) 0 1 ReplacementImage False b2)
        (\<lambda>(r, b3). Option.bind (hand_over e i r b3) (enter_generated e r))))"
    unfolding eq prod.case
    by (rule grows_bind [OF b1(1) execute_backing_grows [OF grows_inv [OF b1(1)] b1(2)]])
      (rule rest, assumption, erule grows_traced, rule b1(2))
qed

lemma inherit_backing_grows:
  assumes inv: "graph_inv {} b"
  shows "holds (grows b) (inherit_backing e bid b)"
proof (cases "find (\<lambda>((pu, k, bk), i). pu = te_parent_uid e \<and> bk = bid) (mb_backings b)")
  case (Some x)
  obtain pu k bk parent where x: "x = ((pu, k, bk), parent)" by (metis prod.exhaust)
  have p: "traced b parent" by (rule backing_traced [OF inv]) (use find_in_set [OF Some] x in simp)
  show ?thesis
    unfolding inherit_backing_def Some x option.case prod.case
  proof (rule holds_bindI [OF backing_aims [OF inv]])
    fix a
    assume a: "aims {} b a"
    obtain c b1 where eq: "a = (c, b1)" by (cases a)
    have b1: "grows b b1" "traced b1 c" using a calm_grows by (simp_all add: eq)
    show "holds (grows b) (case a of (child, b) \<Rightarrow> inherit_from e parent child b)"
      unfolding eq prod.case
      by (rule holds_mono [OF inherit_from_grows [OF grows_inv [OF b1(1)] grows_traced [OF b1(1) p] b1(2)] grows_trans [OF b1(1)]])
  qed
qed (use inv in \<open>simp add: inherit_backing_def\<close>)

lemma inherit_backings_grows: "graph_inv {} b \<Longrightarrow> holds (grows b) (inherit_backings e toks b)"
proof (induction e toks b rule: inherit_backings.induct)
  case (2 e tok toks b)
  show ?case
  proof (cases "parse_u64 tok")
    case (Some bid)
    obtain c where run: "inherit_backing e bid b = Some c" and c: "grows b c"
      using inherit_backing_grows [OF "2.prems", of e bid] by (auto simp: holds_def)
    have "holds (grows b) (inherit_backings e toks c)"
      by (rule holds_mono [OF "2.IH"(2) [OF Some run grows_inv [OF c]] grows_trans [OF c]])
    then show ?thesis by (simp add: Some run)
  qed (use 2 in simp)
qed simp

lemma start_thread_grows:
  assumes inv: "graph_inv {} b"
  shows "grows b (start_thread e b)"
proof -
  have node: "grows b c"
    if "\<And>j. j \<in> ran (mb_thread_node c) \<Longrightarrow> valid b j"
      "mb_nodes c = mb_nodes b" "mb_states c = mb_states b" "mb_edges c = mb_edges b" "mb_backings c = mb_backings b"
      "mb_regions c = mb_regions b" "mb_original c = mb_original b" "mb_latest c = mb_latest b" for c
    using put_pointers [OF inv that(2-6)] pointer_valid [OF inv] that(1,7,8) by (simp add: grows_def quiet_extends)
  have old: "valid b j" if "j \<in> ran (mb_thread_node b)" for j using pointer_valid(2) [OF inv] that by blast
  have new: "valid b j" if "mb_thread_node b u = Some i" "j \<in> ran ((mb_thread_node b)(t \<mapsto> i))" for i j u t
    using ran_upd [OF pointer_valid(2) [OF inv] pointer_valid_at(2) [OF inv that(1)]] that(2) by blast
  show ?thesis
    unfolding start_thread_def Let_def
    by (auto split: option.split intro!: node simp: inv intro: old new)
qed

lemma start_grows:
  assumes inv: "graph_inv {} b"
  shows "holds (grows b) (start_event e b)"
proof -
  have orig: "grows b (snd (ensure_original e b))"
    using ensure_original_keeps [OF inv, of e] by (auto simp: grows_def split: prod.splits)
  have "holds (grows b) (inherit_backings e toks (snd (ensure_original e b)))" for toks
    by (rule holds_mono [OF inherit_backings_grows [OF grows_inv [OF orig]] grows_trans [OF orig]])
  then show ?thesis
    unfolding start_event_def Let_def using start_thread_grows [OF inv] handoff_grows [OF inv] orig
    by (auto split: option.split)
qed

lemma handoff_divergence_grows:
  assumes inv: "graph_inv {} b"
  shows "holds (grows b) (handoff_divergence e b)"
proof -
  have "holds (\<lambda>_. True) (case mb_original b (te_process_uid e) of None \<Rightarrow> Some (te_image e)
      | Some i \<Rightarrow> map_option mn_image (node_at b i))"
    using pointer_valid_at(1) [OF inv] by (simp add: comp_def split: option.split)
  then show ?thesis
    unfolding handoff_divergence_def Let_def using inv divergence_grows [OF inv]
    by (auto elim!: holds_bindI split: option.split)
qed

lemma step_grows:
  assumes inv: "graph_inv {} b"
  shows "holds (grows b) (timeline_step e b)"
proof (cases "te_kind e = ProcessStart")
  case True
  have "holds (grows b) (Option.bind (start_event e b) (handoff_divergence e))"
  proof (rule holds_bindI [OF start_grows [OF inv]])
    fix c
    assume c: "grows b c"
    show "holds (grows b) (handoff_divergence e c)"
      by (rule holds_mono [OF handoff_divergence_grows [OF grows_inv [OF c]] grows_trans [OF c]])
  qed
  then show ?thesis by (simp add: timeline_step_def True)
next
  case False
  then show ?thesis
    using holds_grows [OF allocation_calm [OF inv]] holds_grows [OF write_calm [OF inv]] holds_grows [OF protect_calm [OF inv]]
      execute_grows [OF inv] inv
    by (simp add: timeline_step_def split: timeline_kind.split)
qed

text \<open>Steps of the other kinds leave the generations alone.\<close>

lemma step_calm:
  assumes inv: "graph_inv {} b" and kind: "te_kind e \<notin> {ProcessStart, MaterializedExecute}"
  shows "holds (calm {} b) (timeline_step e b)"
  using kind allocation_calm [OF inv] write_calm [OF inv] protect_calm [OF inv] inv
  by (simp add: timeline_step_def split: timeline_kind.split)

text \<open>Both phases of the builder repeat a step that keeps the invariant; then the whole phase does.\<close>

locale graph_phase =
  fixes step_once :: "'e \<Rightarrow> builder \<Rightarrow> builder option"
    and run_all :: "'e list \<Rightarrow> builder \<Rightarrow> builder option"
  assumes once: "graph_inv {} b \<Longrightarrow> holds (grows b) (step_once e b)"
    and run_Nil: "run_all [] b = Some b"
    and run_Cons: "run_all (e # es) b = Option.bind (step_once e b) (run_all es)"
begin

lemma phase_grows: "graph_inv {} b \<Longrightarrow> holds (grows b) (run_all es b)"
proof (induction es arbitrary: b)
  case (Cons e es)
  show ?case
    unfolding run_Cons
  proof (rule holds_bindI [OF once [OF Cons.prems]])
    fix c
    assume c: "grows b c"
    show "holds (grows b) (run_all es c)"
      by (rule holds_mono [OF Cons.IH [OF grows_inv [OF c]] grows_trans [OF c]])
  qed
qed (simp add: run_Nil)

lemma phase_total: "graph_inv {} b \<Longrightarrow> \<exists>c. run_all es b = Some c \<and> graph_inv {} c"
  using phase_grows [of b es] unfolding holds_def grows_def by blast

end

interpretation timeline: graph_phase timeline_step run_timeline
  by unfold_locales (simp_all add: step_grows)

subsection \<open>The start\<close>

lemma empty_inv: "graph_inv X empty_builder"
  by (simp add: graph_inv_def shape_def pointers_def empty_builder_def valid_def)

lemma index_artifact_frame:
  "mb_nodes (index_artifact files a b) = mb_nodes b \<and> mb_states (index_artifact files a b) = mb_states b \<and>
   mb_edges (index_artifact files a b) = mb_edges b \<and> mb_backings (index_artifact files a b) = mb_backings b \<and>
   mb_regions (index_artifact files a b) = mb_regions b \<and> mb_original (index_artifact files a b) = mb_original b \<and>
   mb_thread_node (index_artifact files a b) = mb_thread_node b \<and> mb_latest (index_artifact files a b) = mb_latest b"
  by (simp add: index_artifact_def Let_def split: option.split prod.split)

lemma index_artifacts_inv: "graph_inv {} b \<Longrightarrow> graph_inv {} (fold (index_artifact files) arts b)"
proof (induction arts arbitrary: b)
  case (Cons a arts)
  have "graph_inv {} (index_artifact files a b)"
    using put_pointers [OF Cons.prems] pointer_valid [OF Cons.prems] index_artifact_frame [of files a b] by simp
  then show ?case using Cons.IH by simp
qed simp

lemma start_inv: "graph_inv {} (start_builder files arts)"
  unfolding start_builder_def by (rule index_artifacts_inv [OF empty_inv])

subsection \<open>Artifacts\<close>

lemma sha_total: "\<exists>h. artifact_sha files a = Some h"
  by (auto simp: artifact_sha_def sha256_bytes_def md_digest_spec split: option.split)

lemma source_valid:
  assumes inv: "graph_inv {} b" and src: "find_source_for_artifact a b = Some i"
  shows "valid b i"
proof -
  have found: "valid b i" if "map_option mn_id (find P (mb_nodes b)) = Some i" for P i
    using that node_id_valid [OF inv] find_in_set by fastforce
  have backing: "valid b i" if "map_option snd (find P (mb_backings b)) = Some i" for P i
    using that backing_traced [OF inv] find_in_set by fastforce
  have named: "valid b i" if "map_of (mb_backings b) key = Some i" for key i
    using backing_traced [OF inv map_of_SomeD [OF that]] by auto
  show ?thesis
    using src pointer_valid_at [OF inv]
    unfolding find_source_for_artifact_def Let_def
    by (auto simp: bind_eq_Some_conv split: option.splits dest: named intro: found backing simp del: map_option_eq_Some)
qed

lemma artifact_kinds:
  "artifact_node_kind a = Some k \<Longrightarrow> k \<noteq> OriginalImage \<and> \<not> runtime_kind k"
  by (auto simp: artifact_node_kind_def runtime_kind_def split: if_splits)

lemma not_runtime: "k \<noteq> OriginalImage \<and> \<not> runtime_kind k \<Longrightarrow> mn_kind n = k \<Longrightarrow> may_have_generation x n s inh"
  by (simp add: may_have_generation_def)

lemma install_grows:
  assumes inv: "graph_inv {} b" and i: "valid b i"
  shows "holds (grows b) (install_artifact rp a i b)"
proof -
  define n where "n = node_of b i"
  define m where "m = with_execution n (with_writer n (empty_node\<lparr>mn_kind := InstalledImage,
             mn_generation := mn_generation n, mn_executed := True, mn_process_uid := ra_process_uid a,
             mn_pid := ra_pid a, mn_space := FileOffset, mn_basis := CurrentInputFile, mn_path := rp_target rp,
             mn_identity := rp_target rp, mn_sha256 := rp_new_sha256 rp, mn_evidence := ''UNPACKED_VALIDATED'',
             mn_detail := ''validated runtime-derived image transactionally installed''\<rparr>))"
  obtain j c where new: "add_node m b = (j, c)" by (cases "add_node m b")
  have "mn_kind m = InstalledImage" by (simp add: m_def with_execution_def with_writer_def)
  then have "may_have_generation False m fresh_state False" by (simp add: may_have_generation_def runtime_kind_def)
  note c = add_node_keeps [OF new inv this]
  have b: "grows b c" using c by (simp add: grows_def)
  show ?thesis
    unfolding install_artifact_def node_at_valid [OF i] bind.bind_lunit Let_def n_def [symmetric] m_def [symmetric] new prod.case
    by (rule grows_bind [OF b holds_grows [OF calm_edge [OF c(1,4)]]])
      (use grows_valid [OF b i] grows_trans [OF _ divergence_grows [OF grows_inv]] in \<open>auto\<close>)
qed

text \<open>The kinds of artifact nodes are outside the contract.\<close>

lemma copy_grows:
  assumes inv: "graph_inv {} b" and i: "valid b i" and kind: "mn_kind (node_of b i) = k" "k \<noteq> OriginalImage \<and> \<not> runtime_kind k"
    and g: "\<And>n. mn_id (g n) = mn_id n \<and> mn_kind (g n) = mn_kind n"
  shows "holds (grows b) (on_node i g b)"
  using put_node_inv [OF inv i, of "g (node_of b i)"] put_node_extends(1) [OF i, of "g (node_of b i)"] g i
    not_runtime [OF kind(2), of "g (node_of b i)"] kind(1)
  by (simp add: grows_def)

lemma add_artifact_grows:
  assumes inv: "graph_inv {} b"
  shows "holds (grows b) (add_artifact files rp a b)"
proof (cases "artifact_node_kind a")
  case (Some k)
  obtain sha where sha: "artifact_sha files a = Some sha" using sha_total by blast
  define n where "n = empty_node\<lparr>mn_kind := k, mn_process_uid := ra_process_uid a, mn_pid := ra_pid a,
                  mn_space := FileOffset, mn_basis := ArtifactFile, mn_path := ra_path a,
                  mn_identity := (if ra_path a = [] then ra_kind a else ra_path a), mn_sha256 := sha,
                  mn_evidence := ra_state a, mn_detail := ra_detail a,
                  mn_executed := contains_text ''EXEC_HANDOFF'' (ra_state a) \<or> ra_state a = ''UNPACKED_VALIDATED''\<rparr>"
  obtain i b1 where new: "add_node n b = (i, b1)" by (cases "add_node n b")
  have nk: "mn_kind n = k" by (simp add: n_def)
  note b1 = add_node_keeps [OF new inv not_runtime [OF artifact_kinds [OF Some] nk]]
  define b2 where "b2 = b1\<lparr>mb_artifacts := (mb_artifacts b1)(ra_path a \<mapsto> i)\<rparr>"
  have b2: "graph_inv {} b2" "quiet b1 b2"
    using put_pointers [OF b1(1), of b2] pointer_valid [OF b1(1)] by (simp_all add: b2_def)
  have g2: "grows b b2" using b1(2) b2 quiet_extends extends_trans by (auto simp: grows_def)
  have i2: "valid b2 i" and k2: "mn_kind (node_of b2 i) = k"
    using b1(4,5) nk by (simp_all add: b2_def valid_def node_of_def)
  define src where "src = find_source_for_artifact a b2"
  have copied: "holds (grows b2) (case src of None \<Rightarrow> Some b2
      | Some j \<Rightarrow> Option.bind (node_at b2 j) (\<lambda>m. on_node i (\<lambda>n. with_execution m (with_writer m (n\<lparr>mn_generation := mn_generation m\<rparr>))) b2))"
  proof (cases src)
    case src: (Some j)
    have "valid b2 j" using source_valid [OF b2(1)] src by (simp add: src_def)
    moreover have "holds (grows b2) (on_node i (\<lambda>n. with_execution m (with_writer m (n\<lparr>mn_generation := mn_generation m\<rparr>))) b2)" for m
      by (rule copy_grows [OF b2(1) i2 k2 artifact_kinds [OF Some]]) (simp add: with_execution_def with_writer_def)
    ultimately show ?thesis by (simp add: src)
  qed (use b2 in simp)
  show ?thesis
    unfolding add_artifact_def Some option.case sha bind.bind_lunit Let_def n_def [symmetric] new prod.case b2_def [symmetric] src_def [symmetric]
  proof (rule grows_bind [OF g2 copied])
    fix b3
    assume b3: "grows b b3" "grows b2 b3"
    have i3: "valid b3 i" by (rule grows_valid [OF b3(2) i2])
    have s3: "valid b3 j" if "src = Some j" for j
      using grows_valid [OF b3(2) source_valid [OF b2(1)]] that by (simp add: src_def)
    show "holds (grows b) (Option.bind (add_edge src i (if k = MemoryDump then DumpedAs else ReconstructedAs) None ''CONFIRMED''
          (if k = MemoryDump then ''captured runtime memory artifact''
           else ''runtime-derived reconstructed/snapshotted image artifact'') None b3)
        (\<lambda>b. case rp of Some r \<Rightarrow> if ra_state a = ''UNPACKED_VALIDATED'' \<and> rp_performed r then install_artifact r a i b else Some b
              | None \<Rightarrow> Some b))"
    proof (rule grows_bind [OF b3(1) holds_grows [OF calm_edge [OF grows_inv [OF b3(1)] i3 s3]]])
      fix b4
      assume b4: "grows b b4" "grows b3 b4"
      have "holds (grows b) (install_artifact r a i b4)" for r
        by (rule holds_mono [OF install_grows [OF grows_inv [OF b4(1)] grows_valid [OF b4(2) i3]] grows_trans [OF b4(1)]])
      then show "holds (grows b) (case rp of Some r \<Rightarrow> if ra_state a = ''UNPACKED_VALIDATED'' \<and> rp_performed r then install_artifact r a i b4 else Some b4
              | None \<Rightarrow> Some b4)" using b4(1) by (simp split: option.split)
    qed
  qed
qed (use inv in \<open>simp add: add_artifact_def\<close>)

interpretation artifacts: graph_phase "add_artifact files rp" "run_artifacts files rp" for files rp
  by unfold_locales (simp_all add: add_artifact_grows)

subsection \<open>The whole graph\<close>

lemma edge_final:
  assumes inv: "graph_inv {} b" and x: "x \<in> set (mb_edges b)"
  shows "\<exists>y. final_edge b x = Some y \<and> me_id y = me_id x \<and> me_source y = me_source x \<and> me_destination y = me_destination x \<and>
    me_kind y = me_kind x \<and> (me_kind x = MaterializedByRuntime \<longrightarrow> me_source_gen y = None)"
proof -
  have "edge_ok (length (mb_nodes b)) x" using inv x by (simp add: graph_inv_def shape_def)
  then have "valid b i" if "me_source x = Some i" for i using that by (simp add: edge_ok_def valid_def)
  then show ?thesis by (auto simp: final_edge_def split: option.split)
qed

lemma edges_final:
  assumes inv: "graph_inv {} b" and "set xs \<subseteq> set (mb_edges b)"
  shows "\<exists>ys. those (map (final_edge b) xs) = Some ys \<and> map me_id ys = map me_id xs \<and>
    list_all (edge_ok (length (mb_nodes b))) ys \<and> map me_kind ys = map me_kind xs \<and>
    (\<forall>y \<in> set ys. me_kind y = MaterializedByRuntime \<longrightarrow> me_source_gen y = None)"
  using assms(2)
proof (induction xs)
  case (Cons x xs)
  obtain y where y: "final_edge b x = Some y" "me_id y = me_id x" "me_source y = me_source x" "me_destination y = me_destination x"
      "me_kind y = me_kind x" "me_kind x = MaterializedByRuntime \<longrightarrow> me_source_gen y = None"
    using edge_final [OF inv, of x] Cons.prems by auto
  have "edge_ok (length (mb_nodes b)) x" using inv Cons.prems by (simp add: graph_inv_def shape_def)
  then have "edge_ok (length (mb_nodes b)) y" using y by (simp add: edge_ok_def)
  then show ?case using Cons y by auto
qed simp

lemma no_source_generation:
  "\<forall>y \<in> set ys. me_kind y = MaterializedByRuntime \<longrightarrow> me_source_gen y = None \<Longrightarrow>
    filter (\<lambda>x. me_kind x = MaterializedByRuntime \<and> me_source_gen x = None) ys = filter (\<lambda>x. me_kind x = MaterializedByRuntime) ys"
  by (rule filter_cong) auto

lemma graph_parts:
  obtains b es where "build_materialization_graph files r rp = Some \<lparr>mg_nodes = mb_nodes b, mg_edges = es,
      mg_divergences = mb_divergences b, mg_summary = summarize (rr_timed_out r) (mb_nodes b) es\<rparr>"
    and "graph_inv {} b" and "map me_id es = map me_id (mb_edges b)" and "list_all (edge_ok (length (mb_nodes b))) es"
    and "\<forall>y \<in> set es. me_kind y = MaterializedByRuntime \<longrightarrow> me_source_gen y = None"
proof -
  obtain b where b: "run_timeline (rr_timeline r) (start_builder files (rr_artifacts r)) = Some b" "graph_inv {} b"
    using timeline.phase_total [OF start_inv] by blast
  obtain c where c: "run_artifacts files rp (rr_artifacts r) b = Some c" "graph_inv {} c"
    using artifacts.phase_total [OF b(2)] by blast
  obtain es where "those (map (final_edge c) (mb_edges c)) = Some es" "map me_id es = map me_id (mb_edges c)"
      "list_all (edge_ok (length (mb_nodes c))) es" "\<forall>y \<in> set es. me_kind y = MaterializedByRuntime \<longrightarrow> me_source_gen y = None"
    using edges_final [OF c(2) subset_refl] by blast
  then show ?thesis using that [of c es] b(1) c by (simp add: build_materialization_graph_def)
qed

lemma graph_built: "\<exists>g. build_materialization_graph files r rp = Some g"
  using graph_parts [of files r rp] by metis

text \<open>C29: The graph of every run is built, whatever the events and artifacts hold: no lookup leaves the
  graph. Its nodes and edges are numbered from 1 in order, every edge joins nodes of the graph, and an edge
  of unknown origin has no source generation and is counted as such.\<close>

theorem materialization_graph_total:
  "\<exists>g. build_materialization_graph files r rp = Some g \<and> map mn_id (mg_nodes g) = [1..<length (mg_nodes g) + 1] \<and>
     map me_id (mg_edges g) = [1..<length (mg_edges g) + 1] \<and> list_all (edge_ok (length (mg_nodes g))) (mg_edges g) \<and>
     ms_unknown (mg_summary g) = length (filter (\<lambda>x. me_kind x = MaterializedByRuntime) (mg_edges g))"
proof -
  obtain b es where run: "build_materialization_graph files r rp = Some \<lparr>mg_nodes = mb_nodes b, mg_edges = es,
      mg_divergences = mb_divergences b, mg_summary = summarize (rr_timed_out r) (mb_nodes b) es\<rparr>"
    and b: "graph_inv {} b" and es: "map me_id es = map me_id (mb_edges b)" "list_all (edge_ok (length (mb_nodes b))) es"
      "\<forall>y \<in> set es. me_kind y = MaterializedByRuntime \<longrightarrow> me_source_gen y = None"
    using graph_parts by metis
  have ids: "map mn_id (mb_nodes b) = [1..<length (mb_nodes b) + 1]" "map me_id (mb_edges b) = [1..<length (mb_edges b) + 1]"
    using b unfolding graph_inv_def shape_def by blast+
  have "length es = length (mb_edges b)" using es(1) by (metis length_map)
  then show ?thesis
    unfolding run using es ids no_source_generation [OF es(3)] by (simp add: summarize_def Let_def)
qed

text \<open>The builders that events and artifacts, in any order, can lead to.\<close>

inductive reachable :: "artifact_files \<Rightarrow> replacement_report option \<Rightarrow> builder \<Rightarrow> bool"
  for files rp where
  start: "reachable files rp (start_builder files arts)"
| event: "reachable files rp b \<Longrightarrow> timeline_step e b = Some b' \<Longrightarrow> reachable files rp b'"
| artifact: "reachable files rp b \<Longrightarrow> add_artifact files rp a b = Some b' \<Longrightarrow> reachable files rp b'"

lemma reachable_inv: "reachable files rp b \<Longrightarrow> graph_inv {} b"
proof (induction rule: reachable.induct)
  case (event b e b')
  then show ?case using step_grows [of b e] by (simp add: grows_def)
next
  case (artifact b a b')
  then show ?case using add_artifact_grows [of b files rp a] by (simp add: grows_def)
qed (rule start_inv)

lemma run_reachable: "reachable files rp b \<Longrightarrow> run_timeline es b = Some b' \<Longrightarrow> reachable files rp b'"
  by (induction es arbitrary: b) (auto simp: bind_eq_Some_conv intro: reachable.event)

text \<open>C28: The contract of generations, in every builder that events and artifacts can lead to: a node with a
  generation is an original image of generation 0, or its write is confirmed and it was executed or
  inherited from the parent process, or it is an artifact, whose generation is that of its source.\<close>

theorem generation_contract:
  assumes "reachable files rp b" and "node_at b i = Some n" and "state_at b i = Some s" and "mn_generation n \<noteq> None"
  shows "(mn_kind n = OriginalImage \<and> mn_generation n = Some 0) \<or>
    (ns_write_confirmed s \<and> (mn_executed n \<or> list_ex (\<lambda>x. me_kind x = ChildInherited \<and> me_destination x = i) (mb_edges b))) \<or>
    mn_kind n \<in> {MemoryDump, ReconstructedImage, InstalledImage}"
proof -
  have inv: "graph_inv {} b" by (rule reachable_inv [OF assms(1)])
  have i: "valid b i" using assms(2) by (simp add: node_at_def valid_def split: if_splits)
  then have "n = node_of b i" "s = state_of b i" using assms(2,3) graph_inv_shape [OF inv] by simp_all
  then have "may_have_generation False n s (inherited b i)" using graph_inv_at [OF inv i] by simp
  then show ?thesis
    using assms(4) by (auto simp: may_have_generation_def runtime_kind_def inherited_def list_ex_iff)
qed

text \<open>A process that writes code and runs it.\<close>

definition sample_event :: "nat \<Rightarrow> nat \<Rightarrow> timeline_kind \<Rightarrow> text_fields \<Rightarrow> timeline_event" where
  "sample_event q uid k f =
     \<lparr>te_seq = q, te_t_us = 0, te_process_uid = uid, te_parent_uid = 0, te_pid = 10 * uid, te_kind = k,
      te_image = ''a.exe'', te_subject = [], te_fields = f\<rparr>"

definition sample_events :: "timeline_event list" where
  "sample_events =
     [sample_event 1 1 ProcessStart Map.empty,
      sample_event 2 1 MemoryWrite [''address'' \<mapsto> ''0x1000'', ''written_bytes'' \<mapsto> ''16''],
      sample_event 3 1 MaterializedExecute [''address'' \<mapsto> ''0x1000'']]"

lemma sample_numbers: "parse_u64 ''0x1000'' = Some 4096" "parse_u64 ''16'' = Some 16" "parse_u64 ''2'' = Some 2" "parse_u64 [] = None"
  by (simp_all add: parse_u64_def from_chars_def u64_max_def digit_value_def)

lemmas field_evals = fu64_def fu32_def u32_max_def event_tid_def sample_event_def handoff_subject_def named_backing_def
  target_uid_def field_is_def relation_to_image_def image_relation_def region_kind_def region_end_def plus64_def minus64_def
  wrap64_def wrap32_def

lemmas builder_evals = add_node_def add_edge_def on_node_def on_state_def node_at_def state_at_def on_last_edge_def
  enter_thread_def active_generation_def active_node_def ensure_original_def original_node_def ensure_region_def
  region_node_def event_region_def overlaps_def existing_region_for_execution_def empty_node_def fresh_state_def
  empty_builder_def start_builder_def

lemmas event_evals = timeline_step_def start_event_def handoff_divergence_def write_event_def write_confirmed_def
  write_target_def note_write_def write_edges_def source_node_def execute_event_def execute_target_def execute_node_def
  executed_node_def execution_edge_def mark_generated_def enter_generated_def note_changed_image_def unseen_write_edge_def
  assign_generation_def next_generation_def first_execution_def

lemma sample_timeline_run:
  "case run_timeline sample_events (start_builder (\<lambda>_. None) []) of
     None \<Rightarrow> False
   | Some b \<Rightarrow> map mn_generation (mb_nodes b) = [Some 0, Some 1] \<and> length (mb_states b) = 2"
  by (simp add: sample_events_def sample_numbers field_evals builder_evals event_evals Let_def)

theorem generation_contract_witness:
  "\<exists>b n s. run_timeline sample_events (start_builder (\<lambda>_. None) []) = Some b \<and> node_at b 2 = Some n \<and> state_at b 2 = Some s \<and>
     mn_generation n = Some 1 \<and>
     ((mn_kind n = OriginalImage \<and> mn_generation n = Some 0) \<or>
      (ns_write_confirmed s \<and> (mn_executed n \<or> list_ex (\<lambda>x. me_kind x = ChildInherited \<and> me_destination x = 2) (mb_edges b))) \<or>
      mn_kind n \<in> {MemoryDump, ReconstructedImage, InstalledImage})"
proof -
  obtain b where run: "run_timeline sample_events (start_builder (\<lambda>_. None) []) = Some b"
      and b: "map mn_generation (mb_nodes b) = [Some 0, Some 1]" "length (mb_states b) = 2"
    using sample_timeline_run by (auto split: option.splits)
  have "length (mb_nodes b) = 2" using arg_cong [OF b(1), of length] by simp
  moreover have "map mn_generation (mb_nodes b) ! 1 = Some 1" using b(1) by simp
  ultimately obtain n where n: "node_at b 2 = Some n" "mn_generation n = Some 1" by (simp add: node_at_def)
  obtain s where s: "state_at b 2 = Some s" using b(2) by (simp add: state_at_def)
  have "reachable (\<lambda>_. None) None b" by (rule run_reachable [OF reachable.start run])
  then show ?thesis using generation_contract [OF _ n(1) s] run n s by simp
qed

text \<open>C30: Allocations, writes and protections never give a generation: in every builder that a run can reach, an
  event that is no process start and no execution returns, keeps every generation as it was, and the nodes
  it makes have none.\<close>

theorem only_execution_assigns:
  assumes "reachable files rp b" and "te_kind e \<notin> {ProcessStart, MaterializedExecute}"
  shows "\<exists>b' k. timeline_step e b = Some b' \<and> map mn_generation (mb_nodes b') = map mn_generation (mb_nodes b) @ replicate k None"
  using step_calm [OF reachable_inv [OF assms(1)] assms(2)] by (auto simp: holds_def calm_def quiet_def)

theorem only_execution_assigns_witness:
  "\<exists>b' k. timeline_step (sample_event 2 1 MemoryWrite [''address'' \<mapsto> ''0x1000'']) (start_builder (\<lambda>_. None) []) = Some b' \<and>
     map mn_generation (mb_nodes b') = map mn_generation (mb_nodes (start_builder (\<lambda>_. None) [])) @ replicate k None"
  by (rule only_execution_assigns [OF reachable.start]) (simp add: sample_event_def)

text \<open>
  An execution in a region that another process wrote also leaves an anonymous region that nothing
  happened to: the default of \<open>value_or\<close> is made before it is known not to be needed.
\<close>

lemma execution_makes_phantom_region:
  "case run_timeline
      [sample_event 1 1 MemoryWrite [''target_process_uid'' \<mapsto> ''2'', ''address'' \<mapsto> ''0x1000'', ''written_bytes'' \<mapsto> ''16''],
       sample_event 2 2 MaterializedExecute [''address'' \<mapsto> ''0x1000'']] (start_builder (\<lambda>_. None) []) of
     None \<Rightarrow> False
   | Some b \<Rightarrow> map mn_kind (mb_nodes b) = [CrossProcessRegion, AnonymousRegion] \<and>
       map mn_executed (mb_nodes b) = [True, False] \<and>
       list_all (\<lambda>x. me_destination x = 1) (mb_edges b)"
  by (simp add: sample_numbers field_evals builder_evals event_evals Let_def)

end
