(* ===== verification/MaterializationReport.thy ===== *)
theory MaterializationReport
  imports MaterializationSafety CsvText
begin

section \<open>The materialization graph as files and as an artifact\<close>

text \<open>
  Models the writer of the two CSV files and \<open>finalize_materialization_graph\<close> in
  \<^verbatim>\<open>src/runtime/materialization_graph.cpp\<close>. What the directory and the two streams do is
  an argument; the contents of the files are texts.
\<close>

primrec node_kind_name :: "node_kind \<Rightarrow> string" where
  "node_kind_name OriginalImage = ''ORIGINAL_IMAGE''"
| "node_kind_name OriginalImageRegion = ''ORIGINAL_IMAGE_REGION''"
| "node_kind_name AnonymousRegion = ''ANONYMOUS_REGION''"
| "node_kind_name MemfdBacking = ''MEMFD_BACKING''"
| "node_kind_name TmpfileBacking = ''O_TMPFILE_BACKING''"
| "node_kind_name ReleasedFile = ''RELEASED_FILE''"
| "node_kind_name CrossProcessRegion = ''CROSS_PROCESS_REGION''"
| "node_kind_name ReplacementImage = ''REPLACEMENT_IMAGE''"
| "node_kind_name MemoryDump = ''MEMORY_DUMP''"
| "node_kind_name ReconstructedImage = ''RECONSTRUCTED_IMAGE''"
| "node_kind_name InstalledImage = ''INSTALLED_VALIDATED_IMAGE''"

primrec edge_kind_name :: "edge_kind \<Rightarrow> string" where
  "edge_kind_name AllocatedFrom = ''ALLOCATED_FROM''"
| "edge_kind_name WrittenFrom = ''WRITTEN_FROM''"
| "edge_kind_name MutatedFrom = ''MUTATED_FROM''"
| "edge_kind_name CopiedFrom = ''COPIED_FROM''"
| "edge_kind_name MaterializedByRuntime = ''MATERIALIZED_BY_RUNTIME''"
| "edge_kind_name ProtectedExecutable = ''PROTECTED_EXECUTABLE''"
| "edge_kind_name FirstExecutedAs = ''FIRST_EXECUTED_AS''"
| "edge_kind_name DumpedAs = ''DUMPED_AS''"
| "edge_kind_name ReconstructedAs = ''RECONSTRUCTED_AS''"
| "edge_kind_name ExecHandoffTo = ''EXEC_HANDOFF_TO''"
| "edge_kind_name InstalledAs = ''INSTALLED_AS''"
| "edge_kind_name ChildInherited = ''CHILD_INHERITED''"

text \<open>Line ends become spaces, so a value never leaves its line.\<close>

definition one_line :: "string \<Rightarrow> string" where
  "one_line s = map (\<lambda>c. if c = CHR 0x0A \<or> c = CHR 0x0D then CHR '' '' else c) s"

definition csvq :: "string \<Rightarrow> string" where
  "csvq s = CHR 0x22 # concat (map (\<lambda>c. if c = CHR 0x22 then [c, c]
     else if c = CHR 0x0A \<or> c = CHR 0x0D then '' '' else [c]) s) @ [CHR 0x22]"

definition optu :: "nat option \<Rightarrow> string" where
  "optu v = (case v of None \<Rightarrow> ''UNKNOWN'' | Some n \<Rightarrow> to_dec n)"

definition optid :: "nat option \<Rightarrow> string" where
  "optid v = (case v of None \<Rightarrow> [] | Some n \<Rightarrow> to_dec n)"

definition bool_text :: "bool \<Rightarrow> string" where
  "bool_text b = (if b then ''true'' else ''false'')"

definition node_line :: "mat_node \<Rightarrow> string" where
  "node_line n = csv_line
     [to_dec (mn_id n), node_kind_name (mn_kind n), optu (mn_generation n), bool_text (mn_executed n),
      to_dec (mn_process_uid n), to_dec (mn_pid n), optu (mn_thread n), to_dec (mn_creator_uid n), optu (mn_creator_tid n),
      to_dec (mn_writer_uid n), optu (mn_writer_tid n), optu (mn_writer_gen n), to_dec (mn_write_first n),
      to_dec (mn_write_last n), to_dec (mn_exec_uid n), optu (mn_exec_tid n), to_dec (mn_exec_seq n),
      ''0x'' @ to_hex (mn_exec_address n), to_dec (mn_seq n), to_dec (mn_t_us n), coordinate_space_name (mn_space n),
      coordinate_basis_name (mn_basis n), ''0x'' @ to_hex (mn_address n), to_dec (mn_size n), csvq (mn_identity n),
      csvq (mn_path n), to_dec (mn_device n), to_dec (mn_inode n), csvq (mn_sha256 n), csvq (mn_evidence n),
      csvq (mn_image n), bool_text (mn_cross n), csvq (mn_detail n)]"

definition nodes_header :: string where
  "nodes_header = ''node_id,kind,generation,executed,process_uid,pid,thread_id,creator_process_uid,creator_thread_id,writer_process_uid,writer_thread_id,writer_execution_generation,write_first_seq,write_last_seq,first_execution_process_uid,first_execution_thread_id,first_execution_seq,first_execution_address,seq,t_us,coordinate_space,coordinate_basis,address,size,backing_identity,backing_path,device,inode,sha256,evidence_state,image,cross_process,detail'' @ [newline]"

text \<open>The generation of an edge's destination; a number outside the graph would have none.\<close>

definition destination_generation :: "mat_graph \<Rightarrow> mat_edge \<Rightarrow> nat option" where
  "destination_generation g x =
     (if 0 < me_destination x \<and> me_destination x \<le> length (mg_nodes g)
      then mn_generation (mg_nodes g ! (me_destination x - 1)) else None)"

definition edge_line :: "mat_graph \<Rightarrow> mat_edge \<Rightarrow> string" where
  "edge_line g x = csv_line
     [to_dec (me_id x), optid (me_source x), to_dec (me_destination x), edge_kind_name (me_kind x), optu (me_source_gen x),
      optu (destination_generation g x), optu (me_writer_gen x), to_dec (me_process_uid x), optu (me_thread x),
      to_dec (me_seq x), to_dec (me_t_us x), csvq (me_evidence x), coordinate_basis_name (me_basis x),
      ''0x'' @ to_hex (me_address x), to_dec (me_size x), csvq (me_detail x)]"

definition edges_header :: string where
  "edges_header = ''edge_id,source_node,destination_node,kind,source_generation,destination_generation,writer_execution_generation,process_uid,thread_id,seq,t_us,evidence_state,coordinate_basis,address,size,detail'' @ [newline]"

definition nodes_csv :: "mat_graph \<Rightarrow> string" where
  "nodes_csv g = nodes_header @ concat (map node_line (mg_nodes g))"

definition edges_csv :: "mat_graph \<Rightarrow> string" where
  "edges_csv g = edges_header @ concat (map (edge_line g) (mg_edges g))"

text \<open>What the file system does: the message of a failed directory creation, and which streams open and stay good.\<close>

record csv_io =
  ci_directory_error :: "string option"
  ci_nodes_open :: bool
  ci_nodes_good :: bool
  ci_edges_open :: bool
  ci_edges_good :: bool

text \<open>The error, if any, and what was written to which file.\<close>

definition write_materialization_graph_csv ::
  "csv_io \<Rightarrow> mat_graph \<Rightarrow> path \<Rightarrow> path \<Rightarrow> string option \<times> (path \<times> string) list" where
  "write_materialization_graph_csv io g nodes edges =
     (case (if parent_path nodes = [] then None else ci_directory_error io) of
        Some m \<Rightarrow> (Some (''cannot create materialization graph directory: '' @ m), [])
      | None \<Rightarrow>
          if \<not> ci_nodes_open io then (Some (''cannot create '' @ nodes), [])
          else if \<not> ci_nodes_good io then (Some (''write failed for '' @ nodes), [(nodes, nodes_csv g)])
          else if \<not> ci_edges_open io then (Some (''cannot create '' @ edges), [(nodes, nodes_csv g)])
          else (if ci_edges_good io then None else Some (''write failed for '' @ edges),
                [(nodes, nodes_csv g), (edges, edges_csv g)]))"

text \<open>The divergences as one text that stops after 8,192 characters.\<close>

fun divergences_text :: "string \<Rightarrow> divergence list \<Rightarrow> string" where
  "divergences_text out [] = out"
| "divergences_text out (d # ds) =
     (let out1 = out @ (if out = [] then [] else ''; '') @ dv_kind d @ ''['' @ dv_expectation d @ '' -> '' @ dv_observation d @ '']''
      in if 8192 < length out1 then out1 @ ''; ...'' else divergences_text out1 ds)"

definition graph_artifact :: "mat_graph \<Rightarrow> path \<Rightarrow> path \<Rightarrow> string option \<Rightarrow> runtime_artifact" where
  "graph_artifact g np ep err =
     (let s = mg_summary g;
          f = [''nodes_path'' \<mapsto> np, ''edges_path'' \<mapsto> ep, ''generation_count'' \<mapsto> to_dec (ms_generations s),
               ''deepest_confirmed_generation'' \<mapsto> to_dec (ms_deepest s),
               ''executed_generation_count'' \<mapsto> to_dec (ms_executed s), ''image_generation_count'' \<mapsto> to_dec (ms_image s),
               ''memory_only_generation_count'' \<mapsto> to_dec (ms_memory_only s),
               ''cross_process_generation_count'' \<mapsto> to_dec (ms_cross s),
               ''provenance_unknown_edge_count'' \<mapsto> to_dec (ms_unknown s),
               ''node_count'' \<mapsto> to_dec (length (mg_nodes g)), ''edge_count'' \<mapsto> to_dec (length (mg_edges g)),
               ''semantic_divergence_count'' \<mapsto> to_dec (length (mg_divergences g)),
               ''partial'' \<mapsto> bool_text (ms_partial s),
               ''generation_contract'' \<mapsto> ''generation requires confirmed runtime materialization plus execution/exec-handoff; allocation/protection alone never assigns a generation'',
               ''source_generation_contract'' \<mapsto> ''MATERIALIZED_BY_RUNTIME retains source_generation=UNKNOWN unless exact source-byte generation is proven'']
      in \<lparr>ra_kind = ''materialization_graph'', ra_state = (if err = None then ''CONFIRMED'' else ''FAILED''), ra_path = np,
          ra_process_uid = 1, ra_pid = 0,
          ra_detail = (case err of
              None \<Rightarrow> ''causal runtime materialization/stage provenance graph built from Timeline and RuntimeArtifact facts''
            | Some m \<Rightarrow> ''materialization graph build succeeded but CSV persistence failed: '' @ m),
          ra_fields = (if mg_divergences g = [] then f
            else f(''semantic_divergences'' \<mapsto> divergences_text [] (mg_divergences g)))\<rparr>)"

definition finalize_materialization_graph ::
  "artifact_files \<Rightarrow> csv_io \<Rightarrow> path \<Rightarrow> replacement_report \<Rightarrow> runtime_report \<Rightarrow> (runtime_report \<times> (path \<times> string) list) option" where
  "finalize_materialization_graph files io dir rp r =
     map_option (\<lambda>g.
       let np = path_join dir ''materialization-graph.csv'';
           ep = path_join dir ''materialization-edges.csv'';
           (err, written) = write_materialization_graph_csv io g np ep
       in (r\<lparr>rr_artifacts := rr_artifacts r @ [graph_artifact g np ep err]\<rparr>, written))
     (build_materialization_graph files r (Some rp))"


subsection \<open>Reading the files back\<close>

lemma csvq_quote: "csvq s = csv_quote (one_line s)"
  by (induction s) (auto simp: csvq_def csv_quote_def one_line_def)

lemma kinds_plain [simp]: "csv_plain (node_kind_name k)"
  by (cases k) simp_all

lemma edge_kinds_plain [simp]: "csv_plain (edge_kind_name k)"
  by (cases k) simp_all

lemma spaces_plain [simp]: "csv_plain (coordinate_space_name sp)"
  by (cases sp) simp_all

lemma bases_plain [simp]: "csv_plain (coordinate_basis_name bs)"
  by (cases bs) simp_all

lemma digits_text_plain [simp]: "csv_plain (to_dec n)" "csv_plain (to_hex n)"
  by (simp_all add: to_dec_def to_hex_def digits_plain)

lemma options_plain [simp]: "csv_plain (optu v)" "csv_plain (optid v)" "csv_plain (bool_text t)"
  by (simp_all add: optu_def optid_def bool_text_def split: option.split)

text \<open>The fields of the rows.\<close>

definition node_fields :: "mat_node \<Rightarrow> csv_field list" where
  "node_fields n =
     map Plain
       [to_dec (mn_id n), node_kind_name (mn_kind n), optu (mn_generation n), bool_text (mn_executed n),
        to_dec (mn_process_uid n), to_dec (mn_pid n), optu (mn_thread n), to_dec (mn_creator_uid n), optu (mn_creator_tid n),
        to_dec (mn_writer_uid n), optu (mn_writer_tid n), optu (mn_writer_gen n), to_dec (mn_write_first n),
        to_dec (mn_write_last n), to_dec (mn_exec_uid n), optu (mn_exec_tid n), to_dec (mn_exec_seq n),
        ''0x'' @ to_hex (mn_exec_address n), to_dec (mn_seq n), to_dec (mn_t_us n), coordinate_space_name (mn_space n),
        coordinate_basis_name (mn_basis n), ''0x'' @ to_hex (mn_address n), to_dec (mn_size n)] @
     [Quoted (one_line (mn_identity n)), Quoted (one_line (mn_path n)), Plain (to_dec (mn_device n)), Plain (to_dec (mn_inode n)),
      Quoted (one_line (mn_sha256 n)), Quoted (one_line (mn_evidence n)), Quoted (one_line (mn_image n)),
      Plain (bool_text (mn_cross n)), Quoted (one_line (mn_detail n))]"

definition edge_fields :: "mat_graph \<Rightarrow> mat_edge \<Rightarrow> csv_field list" where
  "edge_fields g x =
     map Plain
       [to_dec (me_id x), optid (me_source x), to_dec (me_destination x), edge_kind_name (me_kind x), optu (me_source_gen x),
        optu (destination_generation g x), optu (me_writer_gen x), to_dec (me_process_uid x), optu (me_thread x),
        to_dec (me_seq x), to_dec (me_t_us x)] @
     [Quoted (one_line (me_evidence x)), Plain (coordinate_basis_name (me_basis x)), Plain (''0x'' @ to_hex (me_address x)),
      Plain (to_dec (me_size x)), Quoted (one_line (me_detail x))]"

lemma lines_of_graph_fields:
  "node_line = (\<lambda>n. csv_line (map field_text (node_fields n)))"
  "edge_line g = (\<lambda>x. csv_line (map field_text (edge_fields g x)))"
  by (simp_all add: fun_eq_iff node_line_def edge_line_def node_fields_def edge_fields_def csvq_quote)

lemma graph_fields_ok:
  "node_fields n \<noteq> [] \<and> list_all field_ok (node_fields n)"
  "edge_fields g x \<noteq> [] \<and> list_all field_ok (edge_fields g x)"
  by (simp_all add: node_fields_def edge_fields_def)

definition nodes_columns :: "string list" where
  "nodes_columns =
     [''node_id'', ''kind'', ''generation'', ''executed'', ''process_uid'', ''pid'', ''thread_id'', ''creator_process_uid'',
      ''creator_thread_id'', ''writer_process_uid'', ''writer_thread_id'', ''writer_execution_generation'',
      ''write_first_seq'', ''write_last_seq'', ''first_execution_process_uid'', ''first_execution_thread_id'',
      ''first_execution_seq'', ''first_execution_address'', ''seq'', ''t_us'', ''coordinate_space'', ''coordinate_basis'',
      ''address'', ''size'', ''backing_identity'', ''backing_path'', ''device'', ''inode'', ''sha256'', ''evidence_state'',
      ''image'', ''cross_process'', ''detail'']"

definition edges_columns :: "string list" where
  "edges_columns =
     [''edge_id'', ''source_node'', ''destination_node'', ''kind'', ''source_generation'', ''destination_generation'',
      ''writer_execution_generation'', ''process_uid'', ''thread_id'', ''seq'', ''t_us'', ''evidence_state'',
      ''coordinate_basis'', ''address'', ''size'', ''detail'']"

lemma graph_headers_of_columns:
  "nodes_header = csv_line (map field_text (map Plain nodes_columns))"
  "edges_header = csv_line (map field_text (map Plain edges_columns))"
  by (simp_all add: nodes_header_def edges_header_def nodes_columns_def edges_columns_def csv_line_def)

lemma graph_columns_ok:
  "map Plain nodes_columns \<noteq> [] \<and> list_all field_ok (map Plain nodes_columns)"
  "map Plain edges_columns \<noteq> [] \<and> list_all field_ok (map Plain edges_columns)"
  by (simp_all add: nodes_columns_def edges_columns_def)

text \<open>C31: the two files of the graph read back, under a reader of quoted CSV, as their column names and one
  row for each node and edge in order, with every number as it is and every text with its line ends turned
  into spaces: no identity, path or detail can break a row, shift a column or add one.\<close>

theorem materialization_csv_roundtrip:
  "read_csv (nodes_csv g) = Some (nodes_columns # map (map field_value \<circ> node_fields) (mg_nodes g)) \<and>
   read_csv (edges_csv g) = Some (edges_columns # map (map field_value \<circ> edge_fields g) (mg_edges g))"
  unfolding nodes_csv_def edges_csv_def lines_of_graph_fields graph_headers_of_columns
  using read_table [OF graph_columns_ok(1) graph_fields_ok(1), where xs = "mg_nodes g"]
    read_table [OF graph_columns_ok(2) graph_fields_ok(2), where xs = "mg_edges g"]
  unfolding field_value_Plain by (intro conjI)

text \<open>Whatever happens to the files, the report gets exactly one more artifact, and nothing else changes.\<close>

lemma write_complete:
  "fst (write_materialization_graph_csv io g np ep) = None \<longleftrightarrow>
    length (snd (write_materialization_graph_csv io g np ep)) = 2 \<and> ci_edges_good io"
  by (simp add: write_materialization_graph_csv_def split: option.split)

lemma finalize_appends:
  "\<exists>a ws. finalize_materialization_graph files io dir rp r = Some (r\<lparr>rr_artifacts := rr_artifacts r @ [a]\<rparr>, ws) \<and>
     ra_kind a = ''materialization_graph'' \<and> (ra_state a = ''CONFIRMED'' \<longleftrightarrow> length ws = 2 \<and> ci_edges_good io)"
proof -
  obtain g where g: "build_materialization_graph files r (Some rp) = Some g"
    using graph_built by blast
  define np where "np = path_join dir ''materialization-graph.csv''"
  define ep where "ep = path_join dir ''materialization-edges.csv''"
  obtain err ws where w: "write_materialization_graph_csv io g np ep = (err, ws)" by (metis surj_pair)
  have "finalize_materialization_graph files io dir rp r =
      Some (r\<lparr>rr_artifacts := rr_artifacts r @ [graph_artifact g np ep err]\<rparr>, ws)"
    unfolding finalize_materialization_graph_def g option.map Let_def np_def [symmetric] ep_def [symmetric] w prod.case ..
  moreover have "ra_kind (graph_artifact g np ep err) = ''materialization_graph''"
      "ra_state (graph_artifact g np ep err) = ''CONFIRMED'' \<longleftrightarrow> err = None"
    by (simp_all add: graph_artifact_def Let_def)
  ultimately show ?thesis using write_complete [of io g np ep] unfolding w fst_conv snd_conv by blast
qed

end
