(* ===== verification/ModelTrust.thy ===== *)
theory ModelTrust
  imports Prelude "HOL-Library.Char_ord" "HOL-Library.List_Lexorder" "HOL-Library.Product_Lexorder"
    "HOL-Library.Multiset"
begin

section \<open>Trust in semantic models: evidence levels and verdicts\<close>

text \<open>
  Models \<^verbatim>\<open>include/prts/model_trust.hpp\<close> and \<^verbatim>\<open>src/reference/model_trust.cpp\<close>.
  Facts about a semantic scope are grouped by scope and model, each group gets a verdict, and
  the verdicts are counted and folded into one guidance. The code computes a verdict by two
  passes over the group with running maxima and flags; \<open>verdict\<close> is its specification, which
  mentions only the facts at the strongest level present.
\<close>

subsection \<open>Data\<close>

datatype evidence_level =
    LevelNone | ModelInternalRoundTrip | OfflineModel | ChosenInputOracle
  | ExactKnownGoodReference | LowDisturbanceNativeBoundary | OriginalNativeResult

fun strength :: "evidence_level \<Rightarrow> nat" where
  "strength LevelNone = 0"
| "strength ModelInternalRoundTrip = 1"
| "strength OfflineModel = 2"
| "strength ChosenInputOracle = 3"
| "strength ExactKnownGoodReference = 4"
| "strength LowDisturbanceNativeBoundary = 5"
| "strength OriginalNativeResult = 6"

lemma strength_inj: "strength a = strength b \<longleftrightarrow> a = b"
  by (cases a; cases b) simp_all

instantiation evidence_level :: linorder
begin

definition less_eq_evidence_level :: "evidence_level \<Rightarrow> evidence_level \<Rightarrow> bool" where
  "less_eq_evidence_level a b \<longleftrightarrow> strength a \<le> strength b"

definition less_evidence_level :: "evidence_level \<Rightarrow> evidence_level \<Rightarrow> bool" where
  "less_evidence_level a b \<longleftrightarrow> strength a < strength b"

instance
  by standard
    (auto simp: less_eq_evidence_level_def less_evidence_level_def simp flip: strength_inj)

end

text \<open>The conversion of the running maximum back to the enumeration.\<close>

fun level_of :: "nat \<Rightarrow> evidence_level" where
  "level_of n =
     (if n = 0 then LevelNone else if n = 1 then ModelInternalRoundTrip
      else if n = 2 then OfflineModel else if n = 3 then ChosenInputOracle
      else if n = 4 then ExactKnownGoodReference else if n = 5 then LowDisturbanceNativeBoundary
      else OriginalNativeResult)"

lemma level_of_strength [simp]: "level_of (strength l) = l"
  by (cases l) simp_all

declare level_of.simps [simp del]

datatype reference_relation =
    NotApplicable | ExactMatch | SemanticMatch | ExactDifference | Unavailable

datatype semantic_state =
    SemUnresolved | SemModelOnly | StockCompatiblePartial | StockConfirmed
  | ModifiedUnresolved | ExactDeltaRecovered

datatype model_relation = RelNone | Supports | Contradicts

datatype trust_state =
    TrustUnresolved | ReferenceUnavailable | TrustModelOnly | StockModelPartial | StockModelSafe
  | ExactModifiedSemantics | UnresolvedModifiedRuntime | EvidenceConflictUnresolved
  | StaticModelContradictedByHigherEvidence

record trust_fact =
  t_plane :: string
  t_scope :: string
  t_reference_scope :: string
  t_model :: string
  t_level :: evidence_level
  t_reference :: reference_relation
  t_state :: semantic_state
  t_relation :: model_relation
  t_complete :: bool
  t_delta_items :: nat
  t_evidence :: string

record trust_assessment =
  a_scope :: string
  a_model :: string
  a_state :: trust_state
  a_ceiling :: evidence_level
  a_facts :: "nat list"

record trust_report =
  rep_facts :: "trust_fact list"
  rep_assessments :: "trust_assessment list"
  rep_guidance :: trust_state
  stock_safe_scopes :: nat
  stock_partial_scopes :: nat
  exact_modified_scopes :: nat
  unresolved_modified_scopes :: nat
  model_only_scopes :: nat
  reference_unavailable_scopes :: nat
  contradicted_model_scopes :: nat
  evidence_conflict_scopes :: nat
  unresolved_scopes :: nat

record exact_delta_evidence =
  e_plane :: string
  e_scope :: string
  e_reference_scope :: string
  e_model :: string
  e_exact_reference_confirmed :: bool
  e_modification_proven :: bool
  e_delta_recovered :: bool
  e_delta_complete :: bool
  e_delta_items :: nat
  e_evidence :: string

subsection \<open>Names in reports\<close>

primrec evidence_level_text :: "evidence_level \<Rightarrow> string" where
  "evidence_level_text OriginalNativeResult = ''ORIGINAL_NATIVE_RESULT''"
| "evidence_level_text LowDisturbanceNativeBoundary = ''LOW_DISTURBANCE_NATIVE_BOUNDARY''"
| "evidence_level_text ExactKnownGoodReference = ''EXACT_KNOWN_GOOD_REFERENCE''"
| "evidence_level_text ChosenInputOracle = ''CHOSEN_INPUT_ORACLE''"
| "evidence_level_text OfflineModel = ''OFFLINE_MODEL''"
| "evidence_level_text ModelInternalRoundTrip = ''MODEL_INTERNAL_ROUND_TRIP''"
| "evidence_level_text LevelNone = ''NONE''"

primrec reference_relation_text :: "reference_relation \<Rightarrow> string" where
  "reference_relation_text NotApplicable = ''NOT_APPLICABLE''"
| "reference_relation_text ExactMatch = ''EXACT_MATCH''"
| "reference_relation_text SemanticMatch = ''SEMANTIC_MATCH''"
| "reference_relation_text ExactDifference = ''EXACT_DIFFERENCE''"
| "reference_relation_text Unavailable = ''REFERENCE_UNAVAILABLE''"

primrec semantic_state_text :: "semantic_state \<Rightarrow> string" where
  "semantic_state_text SemUnresolved = ''UNRESOLVED''"
| "semantic_state_text SemModelOnly = ''MODEL_ONLY''"
| "semantic_state_text StockCompatiblePartial = ''STOCK_COMPATIBLE_PARTIAL''"
| "semantic_state_text StockConfirmed = ''STOCK_CONFIRMED''"
| "semantic_state_text ModifiedUnresolved = ''MODIFIED_UNRESOLVED''"
| "semantic_state_text ExactDeltaRecovered = ''EXACT_DELTA_RECOVERED''"

primrec model_relation_text :: "model_relation \<Rightarrow> string" where
  "model_relation_text RelNone = ''NONE''"
| "model_relation_text Supports = ''SUPPORTS_MODEL''"
| "model_relation_text Contradicts = ''CONTRADICTS_MODEL''"

primrec trust_state_text :: "trust_state \<Rightarrow> string" where
  "trust_state_text TrustUnresolved = ''UNRESOLVED_SEMANTICS''"
| "trust_state_text ReferenceUnavailable = ''NO_EXACT_REFERENCE''"
| "trust_state_text TrustModelOnly = ''MODEL_ONLY_CONCLUSION''"
| "trust_state_text StockModelPartial = ''STOCK_MODEL_PARTIAL''"
| "trust_state_text StockModelSafe = ''STOCK_MODEL_SAFE''"
| "trust_state_text ExactModifiedSemantics = ''EXACT_MODIFIED_SEMANTICS''"
| "trust_state_text UnresolvedModifiedRuntime = ''UNRESOLVED_MODIFIED_RUNTIME''"
| "trust_state_text EvidenceConflictUnresolved = ''EVIDENCE_CONFLICT_UNRESOLVED''"
| "trust_state_text StaticModelContradictedByHigherEvidence =
     ''STATIC_MODEL_CONTRADICTED_BY_HIGHER_EVIDENCE''"

lemma trust_state_text_inj: "trust_state_text a = trust_state_text b \<longleftrightarrow> a = b"
  by (cases a; cases b; simp)

subsection \<open>One group\<close>

definition backs_model :: "trust_fact \<Rightarrow> bool" where
  "backs_model f \<longleftrightarrow> t_relation f = Supports \<or> t_state f = StockConfirmed \<or>
     t_state f = StockCompatiblePartial \<or> t_state f = SemModelOnly"

text \<open>The first pass: ceiling, strongest support and strongest contradiction.\<close>

definition scan_fact :: "trust_fact \<Rightarrow> nat \<times> nat \<times> nat \<Rightarrow> nat \<times> nat \<times> nat" where
  "scan_fact f = (\<lambda>(ceiling, support, contradiction).
     (max ceiling (strength (t_level f)),
      (if backs_model f then max support (strength (t_level f)) else support),
      (if t_relation f = Contradicts then max contradiction (strength (t_level f))
       else contradiction)))"

record tier_flags =
  fl_stock :: bool
  fl_stock_partial :: bool
  fl_modified :: bool
  fl_exact_delta :: bool
  fl_model_only :: bool
  fl_stock_complete :: bool
  fl_reference_unavailable :: bool

definition no_flags :: tier_flags where
  "no_flags = \<lparr>fl_stock = False, fl_stock_partial = False, fl_modified = False,
     fl_exact_delta = False, fl_model_only = False, fl_stock_complete = False,
     fl_reference_unavailable = False\<rparr>"

text \<open>The second pass looks only at the facts of the ceiling level.\<close>

definition flag_fact :: "nat \<Rightarrow> trust_fact \<Rightarrow> tier_flags \<Rightarrow> tier_flags" where
  "flag_fact ceiling f fl =
     (if strength (t_level f) \<noteq> ceiling then fl
      else
        let fl1 = fl\<lparr>fl_reference_unavailable :=
          fl_reference_unavailable fl \<or> t_reference f = Unavailable\<rparr>
        in (case t_state f of
              StockConfirmed \<Rightarrow> fl1\<lparr>fl_stock := True,
                fl_stock_complete := fl_stock_complete fl1 \<or> t_complete f\<rparr>
            | StockCompatiblePartial \<Rightarrow> fl1\<lparr>fl_stock_partial := True\<rparr>
            | ModifiedUnresolved \<Rightarrow> fl1\<lparr>fl_modified := True\<rparr>
            | ExactDeltaRecovered \<Rightarrow> fl1\<lparr>fl_exact_delta := True\<rparr>
            | SemModelOnly \<Rightarrow> fl1\<lparr>fl_model_only := True\<rparr>
            | SemUnresolved \<Rightarrow> fl1))"

definition decide_flags :: "tier_flags \<Rightarrow> trust_state" where
  "decide_flags fl =
     (if (fl_stock fl \<or> fl_stock_partial fl) \<and> (fl_modified fl \<or> fl_exact_delta fl)
      then EvidenceConflictUnresolved
      else if fl_modified fl then UnresolvedModifiedRuntime
      else if fl_exact_delta fl then ExactModifiedSemantics
      else if fl_stock fl then (if fl_stock_complete fl then StockModelSafe else StockModelPartial)
      else if fl_stock_partial fl then StockModelPartial
      else if fl_model_only fl then TrustModelOnly
      else if fl_reference_unavailable fl then ReferenceUnavailable
      else TrustUnresolved)"

definition assess_group :: "trust_fact list \<Rightarrow> nat list \<Rightarrow> trust_assessment" where
  "assess_group facts indices =
     (if indices = [] then
        \<lparr>a_scope = [], a_model = [], a_state = TrustUnresolved, a_ceiling = LevelNone, a_facts = []\<rparr>
      else
        let group = map (\<lambda>i. facts ! i) indices;
            (ceiling, support, contradiction) = fold scan_fact group (0, 0, 0);
            out = \<lparr>a_scope = t_scope (facts ! hd indices), a_model = t_model (facts ! hd indices),
                   a_state = TrustUnresolved, a_ceiling = level_of ceiling, a_facts = indices\<rparr>
        in if 0 < contradiction \<and> contradiction = ceiling \<and> support < contradiction
           then out\<lparr>a_state := StaticModelContradictedByHigherEvidence\<rparr>
           else if 0 < contradiction \<and> contradiction = ceiling \<and> contradiction = support
           then out\<lparr>a_state := EvidenceConflictUnresolved\<rparr>
           else out\<lparr>a_state := decide_flags (fold (flag_fact ceiling) group no_flags)\<rparr>)"

subsection \<open>Counting and guidance\<close>

definition bump :: "nat \<Rightarrow> nat" where
  "bump n = wrap32 (Suc n)"

fun count_state :: "trust_state \<Rightarrow> trust_report \<Rightarrow> trust_report" where
  "count_state StockModelSafe r = r\<lparr>stock_safe_scopes := bump (stock_safe_scopes r)\<rparr>"
| "count_state StockModelPartial r = r\<lparr>stock_partial_scopes := bump (stock_partial_scopes r)\<rparr>"
| "count_state ExactModifiedSemantics r =
     r\<lparr>exact_modified_scopes := bump (exact_modified_scopes r)\<rparr>"
| "count_state UnresolvedModifiedRuntime r =
     r\<lparr>unresolved_modified_scopes := bump (unresolved_modified_scopes r)\<rparr>"
| "count_state TrustModelOnly r = r\<lparr>model_only_scopes := bump (model_only_scopes r)\<rparr>"
| "count_state ReferenceUnavailable r =
     r\<lparr>reference_unavailable_scopes := bump (reference_unavailable_scopes r)\<rparr>"
| "count_state StaticModelContradictedByHigherEvidence r =
     r\<lparr>contradicted_model_scopes := bump (contradicted_model_scopes r)\<rparr>"
| "count_state EvidenceConflictUnresolved r =
     r\<lparr>evidence_conflict_scopes := bump (evidence_conflict_scopes r)\<rparr>"
| "count_state TrustUnresolved r = r\<lparr>unresolved_scopes := bump (unresolved_scopes r)\<rparr>"

definition aggregate_guidance :: "trust_report \<Rightarrow> trust_state" where
  "aggregate_guidance r =
     (if contradicted_model_scopes r \<noteq> 0 then StaticModelContradictedByHigherEvidence
      else if unresolved_modified_scopes r \<noteq> 0 then UnresolvedModifiedRuntime
      else if evidence_conflict_scopes r \<noteq> 0 then EvidenceConflictUnresolved
      else
        let weak_or_partial = (unresolved_scopes r \<noteq> 0 \<or> model_only_scopes r \<noteq> 0 \<or>
              reference_unavailable_scopes r \<noteq> 0 \<or> stock_partial_scopes r \<noteq> 0)
        in if exact_modified_scopes r \<noteq> 0 \<and> \<not> weak_or_partial then ExactModifiedSemantics
           else if weak_or_partial then
             (if stock_safe_scopes r \<noteq> 0 \<or> stock_partial_scopes r \<noteq> 0 then StockModelPartial
              else if model_only_scopes r \<noteq> 0 \<and> reference_unavailable_scopes r = 0
              then TrustModelOnly
              else TrustUnresolved)
           else if stock_safe_scopes r \<noteq> 0 then StockModelSafe
           else TrustUnresolved)"

text \<open>
  A fact from an authenticated exact reference: nothing without both confirmation and proof of
  a modification.
\<close>

definition fact_from_exact_delta :: "exact_delta_evidence \<Rightarrow> trust_fact option" where
  "fact_from_exact_delta e =
     (if \<not> e_exact_reference_confirmed e \<or> \<not> e_modification_proven e \<or> e_scope e = [] then None
      else
        let complete_delta = (e_delta_recovered e \<and> e_delta_complete e)
        in Some \<lparr>t_plane = e_plane e, t_scope = e_scope e, t_reference_scope = e_reference_scope e,
             t_model = e_model e, t_level = ExactKnownGoodReference, t_reference = ExactDifference,
             t_state = (if complete_delta then ExactDeltaRecovered else ModifiedUnresolved),
             t_relation = RelNone, t_complete = complete_delta, t_delta_items = e_delta_items e,
             t_evidence = e_evidence e\<rparr>)"

text \<open>
  \<^verbatim>\<open>std::map<pair, vector>\<close>: an association list kept in key order;
  \<open>groups[key].push_back(i)\<close> inserts or appends.
\<close>

fun group_push :: "'k::linorder \<Rightarrow> 'v \<Rightarrow> ('k \<times> 'v list) list \<Rightarrow> ('k \<times> 'v list) list" where
  "group_push k v [] = [(k, [v])]"
| "group_push k v ((k', vs) # rest) =
     (if k = k' then (k', vs @ [v]) # rest
      else if k < k' then (k, [v]) # (k', vs) # rest
      else (k', vs) # group_push k v rest)"

definition fact_key :: "trust_fact \<Rightarrow> string \<times> string" where
  "fact_key f = (t_scope f, t_model f)"

definition group_facts :: "trust_fact list \<Rightarrow> ((string \<times> string) \<times> nat list) list" where
  "group_facts facts =
     fold (\<lambda>i g. if t_scope (facts ! i) = [] then g else group_push (fact_key (facts ! i)) i g)
       [0..<length facts] []"

definition empty_report :: "trust_fact list \<Rightarrow> trust_report" where
  "empty_report facts = \<lparr>rep_facts = facts, rep_assessments = [], rep_guidance = TrustUnresolved,
     stock_safe_scopes = 0, stock_partial_scopes = 0, exact_modified_scopes = 0,
     unresolved_modified_scopes = 0, model_only_scopes = 0, reference_unavailable_scopes = 0,
     contradicted_model_scopes = 0, evidence_conflict_scopes = 0, unresolved_scopes = 0\<rparr>"

definition add_assessment :: "trust_assessment \<Rightarrow> trust_report \<Rightarrow> trust_report" where
  "add_assessment a r =
     (let r1 = count_state (a_state a) r
      in r1\<lparr>rep_assessments := rep_assessments r1 @ [a]\<rparr>)"

definition build_trust_report :: "trust_fact list \<Rightarrow> trust_report" where
  "build_trust_report facts =
     (let out = fold (\<lambda>(key, indices). add_assessment (assess_group facts indices))
                  (group_facts facts) (empty_report facts)
      in out\<lparr>rep_guidance := aggregate_guidance out\<rparr>)"

fun find_loop ::
  "string \<Rightarrow> string \<Rightarrow> trust_assessment option \<Rightarrow> trust_assessment list \<Rightarrow> trust_assessment option"
where
  "find_loop scope model found [] = found"
| "find_loop scope model found (a # as) =
     (if a_scope a \<noteq> scope \<or> (model \<noteq> [] \<and> a_model a \<noteq> model) then find_loop scope model found as
      else if found \<noteq> None \<and> model = [] then None
      else find_loop scope model (Some a) as)"

definition find_trust_assessment :: "trust_report \<Rightarrow> string \<Rightarrow> string \<Rightarrow> trust_assessment option" where
  "find_trust_assessment r scope model = find_loop scope model None (rep_assessments r)"

subsection \<open>The verdict, from the strongest facts alone\<close>

primrec strongest :: "(trust_fact \<Rightarrow> bool) \<Rightarrow> trust_fact list \<Rightarrow> nat" where
  "strongest P [] = 0"
| "strongest P (f # fs) = max (if P f then strength (t_level f) else 0) (strongest P fs)"

abbreviation ceiling_strength :: "trust_fact list \<Rightarrow> nat" where
  "ceiling_strength fs \<equiv> strongest (\<lambda>_. True) fs"

definition top_facts :: "trust_fact list \<Rightarrow> trust_fact list" where
  "top_facts fs = filter (\<lambda>f. strength (t_level f) = ceiling_strength fs) fs"

definition verdict :: "bool \<Rightarrow> trust_fact list \<Rightarrow> trust_state" where
  "verdict has_evidence tops =
     (let any = (\<lambda>P. \<exists>f \<in> set tops. P f);
          is_state = (\<lambda>st f. t_state f = st)
      in if has_evidence \<and> any (\<lambda>f. t_relation f = Contradicts)
         then (if any backs_model then EvidenceConflictUnresolved
               else StaticModelContradictedByHigherEvidence)
         else if (any (is_state StockConfirmed) \<or> any (is_state StockCompatiblePartial)) \<and>
           (any (is_state ModifiedUnresolved) \<or> any (is_state ExactDeltaRecovered))
         then EvidenceConflictUnresolved
         else if any (is_state ModifiedUnresolved) then UnresolvedModifiedRuntime
         else if any (is_state ExactDeltaRecovered) then ExactModifiedSemantics
         else if any (is_state StockConfirmed)
         then (if any (\<lambda>f. t_state f = StockConfirmed \<and> t_complete f)
               then StockModelSafe else StockModelPartial)
         else if any (is_state StockCompatiblePartial) then StockModelPartial
         else if any (is_state SemModelOnly) then TrustModelOnly
         else if any (\<lambda>f. t_reference f = Unavailable) then ReferenceUnavailable
         else TrustUnresolved)"

lemma strongest_ge: "f \<in> set fs \<Longrightarrow> P f \<Longrightarrow> strength (t_level f) \<le> strongest P fs"
  by (induction fs) (auto simp: le_max_iff_disj)

lemma strongest_attained:
  "strongest P fs = 0 \<or> (\<exists>f \<in> set fs. P f \<and> strength (t_level f) = strongest P fs)"
  by (induction fs) (auto simp: max_def)

lemma strongest_le: "strongest P fs \<le> ceiling_strength fs"
  by (induction fs) (auto simp: le_max_iff_disj)

lemma strongest_cong: "set fs = set gs \<Longrightarrow> strongest P fs = strongest P gs"
  using strongest_attained [of P fs] strongest_attained [of P gs] strongest_ge [of _ fs P]
    strongest_ge [of _ gs P] by (metis le_antisym le0)

lemma fold_scan_fact:
  "fold scan_fact fs (a, b, c) =
     (max a (ceiling_strength fs), max b (strongest backs_model fs),
      max c (strongest (\<lambda>f. t_relation f = Contradicts) fs))"
  by (induction fs arbitrary: a b c) (simp_all add: scan_fact_def max.assoc)

lemma strongest_top_iff:
  "0 < ceiling_strength fs \<Longrightarrow>
    strongest P fs = ceiling_strength fs \<longleftrightarrow> (\<exists>f \<in> set (top_facts fs). P f)"
  using strongest_attained [of P fs] strongest_ge [of _ fs P] strongest_le [of P fs]
  by (fastforce simp: top_facts_def)

lemma fold_flags:
  "fold (flag_fact c) fs fl =
    (let hit = (\<lambda>P. \<exists>f \<in> set fs. strength (t_level f) = c \<and> P f) in
     fl\<lparr>fl_stock := fl_stock fl \<or> hit (\<lambda>f. t_state f = StockConfirmed),
       fl_stock_partial := fl_stock_partial fl \<or> hit (\<lambda>f. t_state f = StockCompatiblePartial),
       fl_modified := fl_modified fl \<or> hit (\<lambda>f. t_state f = ModifiedUnresolved),
       fl_exact_delta := fl_exact_delta fl \<or> hit (\<lambda>f. t_state f = ExactDeltaRecovered),
       fl_model_only := fl_model_only fl \<or> hit (\<lambda>f. t_state f = SemModelOnly),
       fl_stock_complete := fl_stock_complete fl \<or>
         hit (\<lambda>f. t_state f = StockConfirmed \<and> t_complete f),
       fl_reference_unavailable := fl_reference_unavailable fl \<or>
         hit (\<lambda>f. t_reference f = Unavailable)\<rparr>)"
proof (induction fs arbitrary: fl)
  case (Cons f fs)
  show ?case
    by (simp only: fold_simps Cons.IH o_apply)
      (cases "t_state f"; auto simp: flag_fact_def Let_def intro!: tier_flags.equality)
qed simp

lemma verdict_uncontradicted:
  "\<not> (b \<and> (\<exists>f \<in> set fs. t_relation f = Contradicts)) \<Longrightarrow> verdict b fs = verdict False fs"
  unfolding verdict_def Let_def by (simp only: if_False simp_thms)

lemma verdict_contradicted:
  "b \<Longrightarrow> \<exists>f \<in> set fs. t_relation f = Contradicts \<Longrightarrow>
    verdict b fs = (if \<exists>f \<in> set fs. backs_model f then EvidenceConflictUnresolved
      else StaticModelContradictedByHigherEvidence)"
  unfolding verdict_def Let_def by (simp only: if_True simp_thms)

lemma assess_group_verdict:
  assumes "indices \<noteq> []"
    and group_def: "grp = map (\<lambda>i. facts ! i) indices"
  shows "a_state (assess_group facts indices) = verdict (0 < ceiling_strength grp) (top_facts grp)"
    and "a_ceiling (assess_group facts indices) = level_of (ceiling_strength grp)"
    and "a_facts (assess_group facts indices) = indices"
    and "a_scope (assess_group facts indices) = t_scope (facts ! hd indices)"
    and "a_model (assess_group facts indices) = t_model (facts ! hd indices)"
proof -
  let ?c = "ceiling_strength grp"
  let ?s = "strongest backs_model grp"
  let ?k = "strongest (\<lambda>f. t_relation f = Contradicts) grp"
  have hit: "(\<exists>f \<in> set grp. strength (t_level f) = ?c \<and> P f) \<longleftrightarrow>
    (\<exists>f \<in> set (top_facts grp). P f)" for P
    by (auto simp: top_facts_def)
  have flags: "decide_flags (fold (flag_fact ?c) grp no_flags) = verdict False (top_facts grp)"
    by (simp add: fold_flags hit decide_flags_def verdict_def no_flags_def Let_def
        del: bex_simps)
  have le: "?s \<le> ?c" "?k \<le> ?c" by (rule strongest_le)+
  have contra: "0 < ?k \<and> ?k = ?c \<longleftrightarrow>
    0 < ?c \<and> (\<exists>f \<in> set (top_facts grp). t_relation f = Contradicts)"
    using strongest_top_iff [of grp "\<lambda>f. t_relation f = Contradicts"] by auto
  have backed: "0 < ?c \<Longrightarrow> ?s = ?c \<longleftrightarrow> (\<exists>f \<in> set (top_facts grp). backs_model f)"
    by (rule strongest_top_iff)
  show "a_state (assess_group facts indices) = verdict (0 < ?c) (top_facts grp)"
  proof (cases "0 < ?k \<and> ?k = ?c")
    case True
    with contra have c: "0 < ?c" "\<exists>f \<in> set (top_facts grp). t_relation f = Contradicts" by auto
    have "verdict (0 < ?c) (top_facts grp) =
      (if ?s = ?c then EvidenceConflictUnresolved else StaticModelContradictedByHigherEvidence)"
      using verdict_contradicted [OF c] backed [OF c(1)] by simp
    then show ?thesis using True le assms(1)
      by (auto simp: assess_group_def fold_scan_fact Let_def simp flip: group_def)
  next
    case False
    then have "verdict (0 < ?c) (top_facts grp) = verdict False (top_facts grp)"
      using contra by (intro verdict_uncontradicted) blast
    then show ?thesis using False le assms(1) flags
      by (auto simp: assess_group_def fold_scan_fact Let_def simp flip: group_def)
  qed
  show "a_ceiling (assess_group facts indices) = level_of ?c"
    using assms(1) by (simp add: assess_group_def fold_scan_fact Let_def flip: group_def)
  show "a_facts (assess_group facts indices) = indices"
    and "a_scope (assess_group facts indices) = t_scope (facts ! hd indices)"
    and "a_model (assess_group facts indices) = t_model (facts ! hd indices)"
    using assms(1) by (simp_all add: assess_group_def Let_def split: prod.splits)
qed

text \<open>The assessment of a whole list of facts.\<close>

abbreviation assess_all :: "trust_fact list \<Rightarrow> trust_assessment" where
  "assess_all fs \<equiv> assess_group fs [0..<length fs]"

lemma map_nth_upt: "map (\<lambda>i. fs ! i) [0..<length fs] = fs"
  by (rule map_nth)

lemma assess_all_verdict:
  "a_state (assess_all fs) = verdict (0 < ceiling_strength fs) (top_facts fs)"
proof (cases "fs = []")
  case True
  then show ?thesis by (simp add: assess_group_def verdict_def top_facts_def Let_def)
next
  case False
  then show ?thesis using assess_group_verdict(1) [of "[0..<length fs]" fs fs] by (simp add: map_nth)
qed

lemma strongest_append: "strongest P (fs @ gs) = max (strongest P fs) (strongest P gs)"
  by (induction fs) (simp_all add: max.assoc)

lemma verdict_cong: "set fs = set gs \<Longrightarrow> verdict b fs = verdict b gs"
  by (simp add: verdict_def)

subsection \<open>Grouping: the ordered map of buckets\<close>

text \<open>
  The contract of \<^verbatim>\<open>std::map<K, std::vector<V>>\<close> as the report builder uses it: a push
  appends to the bucket of its key and touches no other.
\<close>

locale bucket_map =
  fixes empty_map :: 'm
    and push :: "'k \<Rightarrow> 'v \<Rightarrow> 'm \<Rightarrow> 'm"
    and find :: "'m \<Rightarrow> 'k \<Rightarrow> 'v list option"
    and ok :: "'m \<Rightarrow> bool"
  assumes find_empty: "find empty_map k = None"
    and ok_empty: "ok empty_map"
    and ok_push: "ok m \<Longrightarrow> ok (push k v m)"
    and find_push: "ok m \<Longrightarrow> find (push k v m) k' =
      (if k' = k then Some (case find m k of None \<Rightarrow> [v] | Some vs \<Rightarrow> vs @ [v]) else find m k')"
begin

definition bucket :: "'m \<Rightarrow> 'k \<Rightarrow> 'v list" where
  "bucket m k = (case find m k of None \<Rightarrow> [] | Some vs \<Rightarrow> vs)"

lemma ok_fold: "ok m \<Longrightarrow> ok (fold (\<lambda>x. push (key x) x) xs m)"
  by (induction xs arbitrary: m) (simp_all add: ok_push)

lemma find_fold:
  "ok m \<Longrightarrow> find (fold (\<lambda>x. push (key x) x) xs m) k =
    (case filter (\<lambda>x. key x = k) xs of [] \<Rightarrow> find m k | y # ys \<Rightarrow> Some (bucket m k @ y # ys))"
proof (induction xs arbitrary: m)
  case (Cons x xs)
  from Cons.IH [OF ok_push [OF Cons.prems]] Cons.prems show ?case
    by (auto simp: find_push bucket_def split: list.splits option.splits)
qed simp

lemma find_buckets:
  "find (fold (\<lambda>x. push (key x) x) xs empty_map) k =
    (let ys = filter (\<lambda>x. key x = k) xs in if ys = [] then None else Some ys)"
  using find_fold [OF ok_empty, of key xs k]
  by (auto simp: bucket_def find_empty Let_def split: list.splits)

end

definition keys_ordered :: "('k::linorder \<times> 'v) list \<Rightarrow> bool" where
  "keys_ordered g \<longleftrightarrow> sorted_wrt (<) (map fst g)"

lemma fst_group_push: "fst ` set (group_push k v g) = insert k (fst ` set g)"
  by (induction k v g rule: group_push.induct) auto

lemma keys_ordered_push: "keys_ordered g \<Longrightarrow> keys_ordered (group_push k v g)"
proof (induction k v g rule: group_push.induct)
  case (2 k v k' vs rest)
  have keys: "fst ` set (group_push k v rest) = insert k (fst ` set rest)" by (rule fst_group_push)
  from "2.prems" have tail: "keys_ordered rest" and less: "\<forall>x \<in> fst ` set rest. k' < x"
    by (simp_all add: keys_ordered_def)
  consider "k = k'" | "k < k'" | "k' < k" by (rule linorder_less_linear [elim_format]) auto
  then show ?case
  proof cases
    case 3
    then have "\<forall>x \<in> fst ` set (group_push k v rest). k' < x" using keys less by simp
    moreover have "keys_ordered (group_push k v rest)" using "2.IH" 3 tail by simp
    ultimately show ?thesis using 3 by (auto simp: keys_ordered_def)
  qed (use "2.prems" less in \<open>auto simp: keys_ordered_def\<close>)
qed (simp add: keys_ordered_def)

lemma keys_ordered_Cons_absent:
  "keys_ordered ((k, x) # g) \<Longrightarrow> k' \<le> k \<Longrightarrow> map_of g k' = None"
  by (force simp: keys_ordered_def map_of_eq_None_iff)

lemma map_of_group_push:
  "keys_ordered g \<Longrightarrow> map_of (group_push k v g) k' =
    (if k' = k then Some (case map_of g k of None \<Rightarrow> [v] | Some vs \<Rightarrow> vs @ [v]) else map_of g k')"
proof (induction k v g rule: group_push.induct)
  case (2 k v k0 vs rest)
  have "keys_ordered rest" using "2.prems" by (simp add: keys_ordered_def)
  moreover have "k < k0 \<Longrightarrow> map_of rest k = None"
    using keys_ordered_Cons_absent [OF "2.prems", of k] by simp
  ultimately show ?case using "2.IH" by auto
qed simp

interpretation buckets: bucket_map "[]" group_push map_of keys_ordered
  by unfold_locales (simp_all add: keys_ordered_push map_of_group_push, simp add: keys_ordered_def)

definition scoped :: "trust_fact list \<Rightarrow> nat list" where
  "scoped facts = filter (\<lambda>i. t_scope (facts ! i) \<noteq> []) [0..<length facts]"

lemma group_facts_fold:
  "group_facts facts = fold (\<lambda>i. group_push (fact_key (facts ! i)) i) (scoped facts) []"
  by (simp add: group_facts_def scoped_def fold_filter flip: if_distribR)
    (rule fold_cong; auto simp: fun_eq_iff)

lemma group_facts_find:
  "map_of (group_facts facts) k =
    (let is = filter (\<lambda>i. fact_key (facts ! i) = k) (scoped facts)
     in if is = [] then None else Some is)"
  unfolding group_facts_fold by (rule buckets.find_buckets)

lemma group_facts_ordered: "keys_ordered (group_facts facts)"
  unfolding group_facts_fold by (rule buckets.ok_fold [OF buckets.ok_empty])

lemma group_facts_entry:
  "(k, is) \<in> set (group_facts facts) \<longleftrightarrow>
    is \<noteq> [] \<and> is = filter (\<lambda>i. fact_key (facts ! i) = k) (scoped facts)"
proof -
  have "distinct (map fst (group_facts facts))"
    using group_facts_ordered [of facts] by (simp add: keys_ordered_def strict_sorted_iff)
  then have "(k, is) \<in> set (group_facts facts) \<longleftrightarrow> map_of (group_facts facts) k = Some is"
    by simp
  then show ?thesis by (auto simp: group_facts_find Let_def)
qed

subsection \<open>The report\<close>

fun counter :: "trust_state \<Rightarrow> trust_report \<Rightarrow> nat" where
  "counter StockModelSafe r = stock_safe_scopes r"
| "counter StockModelPartial r = stock_partial_scopes r"
| "counter ExactModifiedSemantics r = exact_modified_scopes r"
| "counter UnresolvedModifiedRuntime r = unresolved_modified_scopes r"
| "counter TrustModelOnly r = model_only_scopes r"
| "counter ReferenceUnavailable r = reference_unavailable_scopes r"
| "counter StaticModelContradictedByHigherEvidence r = contradicted_model_scopes r"
| "counter EvidenceConflictUnresolved r = evidence_conflict_scopes r"
| "counter TrustUnresolved r = unresolved_scopes r"

lemma counter_count_state:
  "counter s (count_state t r) = (if s = t then bump (counter s r) else counter s r)"
  by (cases s; cases t) simp_all

lemma counter_assessments [simp]: "counter s (r\<lparr>rep_assessments := x\<rparr>) = counter s r"
  by (cases s) simp_all

lemma counter_guidance [simp]: "counter s (r\<lparr>rep_guidance := x\<rparr>) = counter s r"
  by (cases s) simp_all

lemma rep_count_state [simp]:
  "rep_assessments (count_state s r) = rep_assessments r" "rep_facts (count_state s r) = rep_facts r"
  by (cases s; simp)+

lemma counter_add_assessment:
  "counter s (add_assessment a r) =
    (if a_state a = s then bump (counter s r) else counter s r)"
  by (auto simp: add_assessment_def Let_def counter_count_state)

lemma wrap32_count: "wrap32 (Suc (wrap32 n)) = wrap32 (Suc n)"
  by (simp add: wrap32_def mod_Suc_eq)

lemma fold_add_assessments:
  "rep_assessments (fold (\<lambda>(k, is). add_assessment (assess_group fs is)) gs r) =
     rep_assessments r @ map (\<lambda>(k, is). assess_group fs is) gs"
  "rep_facts (fold (\<lambda>(k, is). add_assessment (assess_group fs is)) gs r) = rep_facts r"
  by (induction gs arbitrary: r) (auto simp: add_assessment_def Let_def)

lemma fold_counters:
  "counter s r = wrap32 n \<Longrightarrow>
    counter s (fold (\<lambda>(k, is). add_assessment (assess_group fs is)) gs r) =
      wrap32 (n + count_list (map (\<lambda>(k, is). a_state (assess_group fs is)) gs) s)"
proof (induction gs arbitrary: r n)
  case (Cons g gs)
  obtain k "is" where g: "g = (k, is)" by force
  let ?n = "if a_state (assess_group fs is) = s then Suc n else n"
  have "counter s (add_assessment (assess_group fs is) r) = wrap32 ?n"
    using Cons.prems by (simp add: counter_add_assessment bump_def wrap32_count)
  from Cons.IH [OF this] show ?case by (simp add: g)
qed simp

lemma counter_empty_report: "counter s (empty_report facts) = wrap32 0"
  by (cases s) (simp_all add: empty_report_def wrap32_def)

lemma build_assessments:
  "rep_assessments (build_trust_report facts) =
    map (\<lambda>(k, is). assess_group facts is) (group_facts facts)"
  by (simp add: build_trust_report_def Let_def fold_add_assessments empty_report_def)

lemma build_counter:
  "counter s (build_trust_report facts) =
    wrap32 (count_list (map a_state (rep_assessments (build_trust_report facts))) s)"
proof -
  have "map a_state (rep_assessments (build_trust_report facts)) =
    map (\<lambda>(k, is). a_state (assess_group facts is)) (group_facts facts)"
    by (simp add: build_assessments o_def case_prod_unfold)
  moreover have "counter s (build_trust_report facts) = counter s
    (fold (\<lambda>(k, is). add_assessment (assess_group facts is)) (group_facts facts) (empty_report facts))"
    by (simp add: build_trust_report_def Let_def)
  ultimately show ?thesis
    using fold_counters [OF counter_empty_report, of s facts "group_facts facts" facts] by simp
qed

lemma length_group_push: "length (group_push k v g) \<le> Suc (length g)"
  by (induction k v g rule: group_push.induct) auto

lemma length_group_facts: "length (group_facts facts) \<le> length facts"
proof -
  have "length (fold (\<lambda>i. group_push (fact_key (facts ! i)) i) xs g) \<le> length xs + length g" for xs g
  proof (induction xs arbitrary: g)
    case (Cons x xs)
    show ?case using Cons.IH [of "group_push (fact_key (facts ! x)) x g"]
        length_group_push [of "fact_key (facts ! x)" x g] by simp
  qed simp
  from this [of "scoped facts" "[]"] have "length (group_facts facts) \<le> length (scoped facts)"
    by (simp add: group_facts_fold)
  also have "\<dots> \<le> length [0..<length facts]" unfolding scoped_def by (rule length_filter_le)
  finally show ?thesis by simp
qed

lemma build_counter_zero:
  assumes "length facts \<le> u32_max"
  shows "counter s (build_trust_report facts) = 0 \<longleftrightarrow>
    (\<forall>a \<in> set (rep_assessments (build_trust_report facts)). a_state a \<noteq> s)"
proof -
  let ?as = "map a_state (rep_assessments (build_trust_report facts))"
  have "count_list ?as s \<le> length ?as" by (rule count_le_length)
  also have "\<dots> \<le> length facts" by (simp add: build_assessments length_group_facts)
  finally have "counter s (build_trust_report facts) = count_list ?as s"
    using assms by (simp add: build_counter)
  then show ?thesis by (auto simp: count_list_0_iff)
qed

lemma build_guidance:
  "rep_guidance (build_trust_report facts) = aggregate_guidance (build_trust_report facts)"
  by (simp add: build_trust_report_def Let_def aggregate_guidance_def)

lemma trust_safe_iff:
  "s = StockModelSafe \<longleftrightarrow> s \<noteq> StockModelPartial \<and> s \<noteq> ExactModifiedSemantics \<and>
    s \<noteq> UnresolvedModifiedRuntime \<and> s \<noteq> TrustModelOnly \<and> s \<noteq> ReferenceUnavailable \<and>
    s \<noteq> StaticModelContradictedByHigherEvidence \<and> s \<noteq> EvidenceConflictUnresolved \<and>
    s \<noteq> TrustUnresolved"
  by (cases s) simp_all

subsection \<open>Properties\<close>

text \<open>C7: Evidence weaker than the strongest in a group never changes its verdict: adding any
  facts below the ceiling, whatever they claim, leaves the state of the assessment as it was.\<close>

theorem weaker_evidence_never_wins:
  assumes "\<forall>f \<in> set weak. t_level f < a_ceiling (assess_all fs)"
  shows "a_state (assess_all (fs @ weak)) = a_state (assess_all fs)"
proof (cases "fs = []")
  case True
  then show ?thesis
    using assms by (cases weak) (auto simp: assess_group_def less_evidence_level_def)
next
  case False
  have "a_ceiling (assess_all fs) = level_of (ceiling_strength fs)"
    using assess_group_verdict(2) [of "[0..<length fs]" fs fs] False by (simp add: map_nth)
  moreover obtain l where "ceiling_strength fs = strength l"
    using strongest_attained [of "\<lambda>_. True" fs] strength.simps(1) by metis
  ultimately have weak: "\<forall>f \<in> set weak. strength (t_level f) < ceiling_strength fs"
    using assms by (simp add: less_evidence_level_def)
  then have "ceiling_strength weak \<le> ceiling_strength fs"
    using strongest_attained [of "\<lambda>_. True" weak] by force
  then have same: "ceiling_strength (fs @ weak) = ceiling_strength fs"
    by (simp add: strongest_append)
  have "top_facts (fs @ weak) = top_facts fs"
    using weak by (auto simp: top_facts_def same filter_empty_conv)
  then show ?thesis
    using assess_all_verdict [of "fs @ weak"] assess_all_verdict [of fs] by (simp only: same)
qed

text \<open>C37: The verdict of a group depends only on which facts are in it: order and repetition of
  the facts do not matter.\<close>

theorem verdict_order_independent:
  assumes "set fs = set gs"
  shows "a_state (assess_all fs) = a_state (assess_all gs)"
proof -
  have "ceiling_strength fs = ceiling_strength gs" by (rule strongest_cong [OF assms])
  moreover from this have "set (top_facts fs) = set (top_facts gs)"
    using assms by (simp add: top_facts_def)
  ultimately show ?thesis
    using verdict_cong [of "top_facts fs" "top_facts gs"] by (simp add: assess_all_verdict)
qed

text \<open>The report partitions the scoped facts: the assessments are exactly the assessed groups
  of facts with one common non-empty scope and model, every fact with a scope lies in exactly one
  of them, and they come in strictly increasing order of (scope, model).\<close>

lemma report_partitions_facts:
  fixes facts :: "trust_fact list"
  defines "rep \<equiv> build_trust_report facts"
  shows "(\<forall>i < length facts. t_scope (facts ! i) \<noteq> [] \<longrightarrow>
           (\<exists>!a. a \<in> set (rep_assessments rep) \<and> i \<in> set (a_facts a))) \<and>
         (\<forall>a \<in> set (rep_assessments rep). a_facts a \<noteq> [] \<and> a_scope a \<noteq> [] \<and>
           (\<forall>i \<in> set (a_facts a). i < length facts \<and>
              t_scope (facts ! i) = a_scope a \<and> t_model (facts ! i) = a_model a)) \<and>
         sorted_wrt (<) (map (\<lambda>a. (a_scope a, a_model a)) (rep_assessments rep))"
proof -
  have keyed: "(a_scope (assess_group facts is), a_model (assess_group facts is)) = k"
    if "(k, is) \<in> set (group_facts facts)" for k "is"
  proof -
    from that have ne: "is \<noteq> []" and sel: "is = filter (\<lambda>i. fact_key (facts ! i) = k) (scoped facts)"
      unfolding group_facts_entry by blast+
    from hd_in_set [OF ne] have "hd is \<in> set (filter (\<lambda>i. fact_key (facts ! i) = k) (scoped facts))"
      using sel by argo
    then show ?thesis using assess_group_verdict(4,5) [OF ne refl] by (simp add: fact_key_def)
  qed
  have entry: "a \<in> set (rep_assessments rep) \<longleftrightarrow>
    (\<exists>k is. (k, is) \<in> set (group_facts facts) \<and> a = assess_group facts is)" for a
    by (auto simp: rep_def build_assessments)
  have one: "\<exists>!a. a \<in> set (rep_assessments rep) \<and> i \<in> set (a_facts a)"
    if "i < length facts" and "t_scope (facts ! i) \<noteq> []" for i
  proof -
    let ?is = "filter (\<lambda>j. fact_key (facts ! j) = fact_key (facts ! i)) (scoped facts)"
    have mem: "i \<in> set ?is" using that by (simp add: scoped_def)
    then have ne: "?is \<noteq> []" by (metis empty_iff list.set(1))
    then have "(fact_key (facts ! i), ?is) \<in> set (group_facts facts)"
      unfolding group_facts_entry by blast
    then have "assess_group facts ?is \<in> set (rep_assessments rep)" unfolding entry by blast
    moreover have "i \<in> set (a_facts (assess_group facts ?is))"
      using mem assess_group_verdict(3) [OF ne refl] by simp
    moreover have "a = assess_group facts ?is"
      if "a \<in> set (rep_assessments rep)" and "i \<in> set (a_facts a)" for a
    proof -
      from that(1) obtain k "is" where m: "(k, is) \<in> set (group_facts facts)"
        and a: "a = assess_group facts is" unfolding entry by blast
      from m have ne: "is \<noteq> []"
        and sel: "is = filter (\<lambda>i. fact_key (facts ! i) = k) (scoped facts)"
        unfolding group_facts_entry by blast+
      have "i \<in> set is" using that(2) assess_group_verdict(3) [OF ne refl] by (simp add: a)
      then have "fact_key (facts ! i) = k" using arg_cong [OF sel, of set] by auto
      then show ?thesis using sel a by simp
    qed
    ultimately show ?thesis by blast
  qed
  have "a_facts a \<noteq> [] \<and> a_scope a \<noteq> [] \<and> (\<forall>i \<in> set (a_facts a). i < length facts \<and>
      t_scope (facts ! i) = a_scope a \<and> t_model (facts ! i) = a_model a)"
    if "a \<in> set (rep_assessments rep)" for a
  proof -
    from that obtain k "is" where m: "(k, is) \<in> set (group_facts facts)"
      and a: "a = assess_group facts is" by (auto simp: entry)
    from m have ne: "is \<noteq> []" and sel: "is = filter (\<lambda>i. fact_key (facts ! i) = k) (scoped facts)"
      unfolding group_facts_entry by blast+
    have af: "a_facts a = is" using assess_group_verdict(3) [OF ne refl] by (simp add: a)
    have each: "i < length facts \<and> t_scope (facts ! i) \<noteq> [] \<and> fact_key (facts ! i) = k"
      if "i \<in> set is" for i
      using that arg_cong [OF sel, of set] by (auto simp: scoped_def)
    have "hd is \<in> set is" using ne by simp
    from each [OF this] have "a_scope a \<noteq> []" using keyed [OF m] by (auto simp: a fact_key_def)
    with ne af each keyed [OF m] show ?thesis by (auto simp: a fact_key_def)
  qed
  moreover have "map (\<lambda>a. (a_scope a, a_model a)) (rep_assessments rep) = map fst (group_facts facts)"
    using keyed by (auto simp: rep_def build_assessments)
  ultimately show ?thesis
    using one group_facts_ordered [of facts] by (simp add: keys_ordered_def)
qed

text \<open>C6: The overall guidance is fail-closed: it says that the stock model is safe exactly when there is
  an assessed scope and every one of them is safe, and it reports a contradicted model exactly when
  some scope is contradicted by higher evidence. (The code counts scopes in 32-bit counters, so the
  statement is for reports of fewer than \<open>2^32\<close> facts.)\<close>

theorem guidance_fail_closed:
  fixes facts :: "trust_fact list"
  assumes "length facts \<le> u32_max"
  defines "rep \<equiv> build_trust_report facts"
  shows "(rep_guidance rep = StockModelSafe \<longleftrightarrow>
           rep_assessments rep \<noteq> [] \<and>
           list_all (\<lambda>a. a_state a = StockModelSafe) (rep_assessments rep)) \<and>
         (rep_guidance rep = StaticModelContradictedByHigherEvidence \<longleftrightarrow>
           list_ex (\<lambda>a. a_state a = StaticModelContradictedByHigherEvidence) (rep_assessments rep))"
proof -
  note zero = build_counter_zero [OF assms(1), folded rep_def]
  have z: "stock_safe_scopes rep = 0 \<longleftrightarrow> (\<forall>a \<in> set (rep_assessments rep). a_state a \<noteq> StockModelSafe)"
    "stock_partial_scopes rep = 0 \<longleftrightarrow> (\<forall>a \<in> set (rep_assessments rep). a_state a \<noteq> StockModelPartial)"
    "exact_modified_scopes rep = 0 \<longleftrightarrow>
      (\<forall>a \<in> set (rep_assessments rep). a_state a \<noteq> ExactModifiedSemantics)"
    "unresolved_modified_scopes rep = 0 \<longleftrightarrow>
      (\<forall>a \<in> set (rep_assessments rep). a_state a \<noteq> UnresolvedModifiedRuntime)"
    "model_only_scopes rep = 0 \<longleftrightarrow> (\<forall>a \<in> set (rep_assessments rep). a_state a \<noteq> TrustModelOnly)"
    "reference_unavailable_scopes rep = 0 \<longleftrightarrow>
      (\<forall>a \<in> set (rep_assessments rep). a_state a \<noteq> ReferenceUnavailable)"
    "contradicted_model_scopes rep = 0 \<longleftrightarrow>
      (\<forall>a \<in> set (rep_assessments rep). a_state a \<noteq> StaticModelContradictedByHigherEvidence)"
    "evidence_conflict_scopes rep = 0 \<longleftrightarrow>
      (\<forall>a \<in> set (rep_assessments rep). a_state a \<noteq> EvidenceConflictUnresolved)"
    "unresolved_scopes rep = 0 \<longleftrightarrow> (\<forall>a \<in> set (rep_assessments rep). a_state a \<noteq> TrustUnresolved)"
    using zero [of StockModelSafe] zero [of StockModelPartial] zero [of ExactModifiedSemantics]
      zero [of UnresolvedModifiedRuntime] zero [of TrustModelOnly] zero [of ReferenceUnavailable]
      zero [of StaticModelContradictedByHigherEvidence] zero [of EvidenceConflictUnresolved]
      zero [of TrustUnresolved] by simp_all
  have guide: "rep_guidance rep = aggregate_guidance rep" unfolding rep_def by (rule build_guidance)
  have only_safe: "(\<forall>a \<in> S. a_state a = StockModelSafe) \<longleftrightarrow>
    (\<forall>a \<in> S. a_state a \<noteq> StockModelPartial) \<and> (\<forall>a \<in> S. a_state a \<noteq> ExactModifiedSemantics) \<and>
    (\<forall>a \<in> S. a_state a \<noteq> UnresolvedModifiedRuntime) \<and> (\<forall>a \<in> S. a_state a \<noteq> TrustModelOnly) \<and>
    (\<forall>a \<in> S. a_state a \<noteq> ReferenceUnavailable) \<and>
    (\<forall>a \<in> S. a_state a \<noteq> StaticModelContradictedByHigherEvidence) \<and>
    (\<forall>a \<in> S. a_state a \<noteq> EvidenceConflictUnresolved) \<and> (\<forall>a \<in> S. a_state a \<noteq> TrustUnresolved)"
    for S :: "trust_assessment set"
    by (simp only: trust_safe_iff ball_conj_distrib)
  have "aggregate_guidance rep = StockModelSafe \<longleftrightarrow>
    stock_safe_scopes rep \<noteq> 0 \<and> stock_partial_scopes rep = 0 \<and> exact_modified_scopes rep = 0 \<and>
    unresolved_modified_scopes rep = 0 \<and> model_only_scopes rep = 0 \<and>
    reference_unavailable_scopes rep = 0 \<and> contradicted_model_scopes rep = 0 \<and>
    evidence_conflict_scopes rep = 0 \<and> unresolved_scopes rep = 0"
    by (auto simp: aggregate_guidance_def Let_def)
  also have "\<dots> \<longleftrightarrow> stock_safe_scopes rep \<noteq> 0 \<and>
      (\<forall>a \<in> set (rep_assessments rep). a_state a = StockModelSafe)"
    unfolding only_safe z(2-9) ..
  also have "\<dots> \<longleftrightarrow> rep_assessments rep \<noteq> [] \<and>
      (\<forall>a \<in> set (rep_assessments rep). a_state a = StockModelSafe)"
    unfolding z(1) by (cases "rep_assessments rep") auto
  finally have safe: "aggregate_guidance rep = StockModelSafe \<longleftrightarrow> rep_assessments rep \<noteq> [] \<and>
      (\<forall>a \<in> set (rep_assessments rep). a_state a = StockModelSafe)" .
  have "aggregate_guidance rep = StaticModelContradictedByHigherEvidence \<longleftrightarrow>
    contradicted_model_scopes rep \<noteq> 0"
    by (auto simp: aggregate_guidance_def Let_def)
  with safe z(7) guide show ?thesis by (simp add: list_all_iff list_ex_iff)
qed

text \<open>An upstream reference fact is only ever produced with a confirmed exact reference and a
  proven modification; the report built from it alone says "exact modified semantics" when the delta
  is complete and "unresolved modified runtime" otherwise, never that the stock model is usable.\<close>

lemma exact_delta_guidance:
  "(case fact_from_exact_delta e of
      None \<Rightarrow> \<not> (e_exact_reference_confirmed e \<and> e_modification_proven e \<and> e_scope e \<noteq> [])
    | Some f \<Rightarrow> e_exact_reference_confirmed e \<and> e_modification_proven e \<and> t_scope f \<noteq> [] \<and>
        rep_guidance (build_trust_report [f]) =
          (if e_delta_recovered e \<and> e_delta_complete e
           then ExactModifiedSemantics else UnresolvedModifiedRuntime))"
proof -
  have one: "rep_guidance (build_trust_report [f]) =
      aggregate_guidance (count_state (a_state (assess_group [f] [0])) (empty_report [f]))"
    if "t_scope f \<noteq> []" for f
    using that by (simp add: build_guidance) (simp add: build_trust_report_def Let_def
        group_facts_def aggregate_guidance_def add_assessment_def)
  show ?thesis
    by (auto simp: fact_from_exact_delta_def Let_def one assess_group_def scan_fact_def
        flag_fact_def no_flags_def decide_flags_def backs_model_def empty_report_def
        aggregate_guidance_def bump_def wrap32_def)
qed

text \<open>A concrete fact for the witnesses.\<close>

definition sample_fact ::
  "string \<Rightarrow> evidence_level \<Rightarrow> semantic_state \<Rightarrow> model_relation \<Rightarrow> trust_fact" where
  "sample_fact scope level st rel =
     \<lparr>t_plane = ''opcode'', t_scope = scope, t_reference_scope = [], t_model = ''stock'',
      t_level = level, t_reference = ExactMatch, t_state = st, t_relation = rel,
      t_complete = True, t_delta_items = 0, t_evidence = []\<rparr>"

lemmas trust_eval = sample_fact_def assess_group_def scan_fact_def flag_fact_def no_flags_def
  decide_flags_def backs_model_def level_of.simps less_evidence_level_def upt_rec

theorem weaker_evidence_never_wins_witness:
  "a_state (assess_all ([sample_fact ''VM'' ExactKnownGoodReference StockConfirmed Supports] @
      [sample_fact ''VM'' OfflineModel ModifiedUnresolved Contradicts])) = StockModelSafe"
proof -
  let ?fs = "[sample_fact ''VM'' ExactKnownGoodReference StockConfirmed Supports]"
  let ?weak = "[sample_fact ''VM'' OfflineModel ModifiedUnresolved Contradicts]"
  have "\<forall>f \<in> set ?weak. t_level f < a_ceiling (assess_all ?fs)" by (simp add: trust_eval)
  from weaker_evidence_never_wins [OF this] have
    "a_state (assess_all (?fs @ ?weak)) = a_state (assess_all ?fs)" .
  also have "\<dots> = StockModelSafe" by (simp add: trust_eval)
  finally show ?thesis .
qed

theorem verdict_order_independent_witness:
  "a_state (assess_all [sample_fact ''VM'' OfflineModel SemModelOnly Supports,
      sample_fact ''VM'' ChosenInputOracle SemUnresolved Contradicts]) =
    StaticModelContradictedByHigherEvidence"
proof -
  let ?f = "sample_fact ''VM'' OfflineModel SemModelOnly Supports"
  let ?g = "sample_fact ''VM'' ChosenInputOracle SemUnresolved Contradicts"
  have "set [?f, ?g] = set [?g, ?f, ?g]" by auto
  from verdict_order_independent [OF this]
  have "a_state (assess_all [?f, ?g]) = a_state (assess_all [?g, ?f, ?g])" .
  also have "\<dots> = StaticModelContradictedByHigherEvidence" by (simp add: trust_eval)
  finally show ?thesis .
qed

lemmas report_eval = build_trust_report_def group_facts_def fact_key_def empty_report_def
  add_assessment_def bump_def wrap32_def trust_eval

lemma report_partitions_facts_witness:
  "\<exists>!a. a \<in> set (rep_assessments (build_trust_report
      [sample_fact ''VM'' OfflineModel SemModelOnly Supports,
       sample_fact ''IO'' ChosenInputOracle StockConfirmed Supports])) \<and> 1 \<in> set (a_facts a)"
proof -
  let ?facts = "[sample_fact ''VM'' OfflineModel SemModelOnly Supports,
    sample_fact ''IO'' ChosenInputOracle StockConfirmed Supports]"
  have "1 < length ?facts" and "t_scope (?facts ! 1) \<noteq> []" by (simp_all add: sample_fact_def)
  with report_partitions_facts [of ?facts] show ?thesis by blast
qed

theorem guidance_fail_closed_witness:
  "rep_guidance (build_trust_report
      [sample_fact ''VM'' OriginalNativeResult StockConfirmed Supports]) = StockModelSafe"
proof -
  let ?facts = "[sample_fact ''VM'' OriginalNativeResult StockConfirmed Supports]"
  have "length ?facts \<le> u32_max" by (simp add: u32_max_def)
  from guidance_fail_closed [OF this] show ?thesis by (simp add: report_eval Let_def)
qed

end
