(* ===== verification/SemanticComposition.thy ===== *)
theory SemanticComposition
  imports ModelTrust StdPath
begin

section \<open>Cross-artifact semantic claims\<close>

text \<open>
  Models \<^verbatim>\<open>include/prts/semantic_composition.hpp\<close> and
  \<^verbatim>\<open>src/core/semantic_composition.cpp\<close>: a claim that a value or rule of one artifact
  interprets another is assessed against its own provenance chain. Every defect is reported as a
  reason; any reason leaves the claim unresolved. Reasons are a datatype, \<open>reason_text\<close> gives
  the message the code pushes.
\<close>

datatype relation_level = LevelUnspecified | SemanticValue | TransformationProvenance

datatype relation_kind =
    KindUnspecified | ValueInterpretation | RuntimeSemanticDependency
  | ProtocolSemanticDependency | SourceSemanticDelta | DeterministicTransformation

datatype composition_state = Unresolved | ModelOnly | Bounded | Confirmed

text \<open>The ambiguity flags are bits of a 32-bit mask and combine by or.\<close>

type_synonym ambiguity = u32

definition amb_none :: ambiguity where "amb_none = 0"
definition amb_source_candidate :: ambiguity where "amb_source_candidate = push_bit 0 1"
definition amb_target_candidate :: ambiguity where "amb_target_candidate = push_bit 1 1"
definition amb_direction :: ambiguity where "amb_direction = push_bit 2 1"
definition amb_producer :: ambiguity where "amb_producer = push_bit 3 1"
definition amb_runtime_binding :: ambiguity where "amb_runtime_binding = push_bit 4 1"
definition amb_version_mismatch :: ambiguity where "amb_version_mismatch = push_bit 5 1"
definition amb_transformation :: ambiguity where "amb_transformation = push_bit 6 1"

definition amb_union :: "ambiguity \<Rightarrow> ambiguity \<Rightarrow> ambiguity" where
  "amb_union a b = a OR b"

record provenance_step =
  ps_artifact :: path
  ps_coordinate :: string
  ps_operation :: string
  ps_level :: evidence_level
  ps_reference :: string

record composition_claim =
  c_source :: path
  c_target :: path
  c_result :: path
  c_scope :: string
  c_relation_level :: relation_level
  c_relation_kind :: relation_kind
  c_evidence :: evidence_level
  c_reference :: string
  c_source_coordinate :: string
  c_target_coordinate :: string
  c_transformation :: string
  c_ambiguity :: ambiguity
  c_ambiguity_reasons :: "string list"
  c_scope_complete :: bool
  c_contradicted :: bool
  c_chain :: "provenance_step list"

datatype composition_reason =
    SourceMissing | TargetMissing | SameArtifact | ScopeMissing | RelationLevelMissing
  | RelationKindMissing | KindNeedsL4 | ReferenceMissing | SourceCoordinateMissing
  | TargetCoordinateMissing | TransformationMissing | ChainMissing | ResultMissing
  | StepArtifactMissing nat | StepCoordinateMissing nat | StepOperationMissing nat
  | StepLevelMissing nat | StepReferenceMissing nat
  | BridgeLevelMissing | BridgeAboveChain | AmbiguityUnresolved | AmbiguityReason string
  | ContradictedByHigher | ModelCannotConfirm | ScopeIncomplete | IndependentlyEvidenced

definition step_prefix :: "nat \<Rightarrow> string" where
  "step_prefix i = ''provenance step '' @ to_dec i @ '' ''"

primrec reason_text :: "composition_reason \<Rightarrow> string" where
  "reason_text SourceMissing = ''source artifact is missing''"
| "reason_text TargetMissing = ''target artifact is missing''"
| "reason_text SameArtifact =
     ''L3/L4 composition requires distinct source and target artifacts''"
| "reason_text ScopeMissing = ''semantic scope is missing''"
| "reason_text RelationLevelMissing = ''semantic relation level is missing''"
| "reason_text RelationKindMissing = ''semantic relation kind is missing''"
| "reason_text KindNeedsL4 =
     ''deterministic transformation kind requires L4 transformation provenance''"
| "reason_text ReferenceMissing = ''reference/model id is missing''"
| "reason_text SourceCoordinateMissing = ''source coordinate is missing''"
| "reason_text TargetCoordinateMissing = ''target coordinate is missing''"
| "reason_text TransformationMissing = ''transformation description is missing''"
| "reason_text ChainMissing = ''provenance chain is missing''"
| "reason_text ResultMissing = ''L4 transformation provenance requires a result artifact''"
| "reason_text (StepArtifactMissing i) = step_prefix i @ ''artifact is missing''"
| "reason_text (StepCoordinateMissing i) = step_prefix i @ ''coordinate is missing''"
| "reason_text (StepOperationMissing i) = step_prefix i @ ''operation is missing''"
| "reason_text (StepLevelMissing i) = step_prefix i @ ''evidence level is missing''"
| "reason_text (StepReferenceMissing i) = step_prefix i @ ''reference/model id is missing''"
| "reason_text BridgeLevelMissing = ''bridge evidence level is missing''"
| "reason_text BridgeAboveChain =
     ''bridge evidence level exceeds provenance-chain evidence ceiling''"
| "reason_text AmbiguityUnresolved = ''semantic ambiguity is unresolved''"
| "reason_text (AmbiguityReason r) = ''ambiguity: '' @ r"
| "reason_text ContradictedByHigher = ''semantic claim is contradicted by higher-level evidence''"
| "reason_text ModelCannotConfirm =
     ''model/self-consistency evidence cannot confirm a cross-file semantic bridge''"
| "reason_text ScopeIncomplete =
     ''semantic bridge is evidenced but the stated scope is incomplete''"
| "reason_text IndependentlyEvidenced =
     ''semantic bridge is independently evidenced and complete for the stated scope''"

record composition_assessment =
  ca_state :: composition_state
  ca_ceiling :: evidence_level
  ca_reasons :: "composition_reason list"

definition same_artifact :: "path \<Rightarrow> path \<Rightarrow> bool" where
  "same_artifact a b \<longleftrightarrow>
     (if a = [] \<or> b = [] then False else lexically_normal a = lexically_normal b)"

definition has_ambiguity :: "composition_claim \<Rightarrow> bool" where
  "has_ambiguity c \<longleftrightarrow> c_ambiguity c \<noteq> amb_none \<or> c_ambiguity_reasons c \<noteq> []"

definition emit_if :: "bool \<Rightarrow> 'a \<Rightarrow> 'a list" where
  "emit_if b x = (if b then [x] else [])"

definition chain_ceiling :: "provenance_step list \<Rightarrow> evidence_level" where
  "chain_ceiling chain = fold (\<lambda>s c. max c (ps_level s)) chain LevelNone"

definition claim_reasons :: "composition_claim \<Rightarrow> composition_reason list" where
  "claim_reasons c =
     emit_if (c_source c = []) SourceMissing @
     emit_if (c_target c = []) TargetMissing @
     emit_if (same_artifact (c_source c) (c_target c)) SameArtifact @
     emit_if (c_scope c = []) ScopeMissing @
     emit_if (c_relation_level c = LevelUnspecified) RelationLevelMissing @
     emit_if (c_relation_kind c = KindUnspecified) RelationKindMissing @
     emit_if (c_relation_kind c = DeterministicTransformation \<and>
           c_relation_level c \<noteq> TransformationProvenance) KindNeedsL4 @
     emit_if (c_reference c = []) ReferenceMissing @
     emit_if (c_source_coordinate c = []) SourceCoordinateMissing @
     emit_if (c_target_coordinate c = []) TargetCoordinateMissing @
     emit_if (c_transformation c = []) TransformationMissing @
     emit_if (c_chain c = []) ChainMissing @
     emit_if (c_relation_level c = TransformationProvenance \<and> c_result c = []) ResultMissing"

definition step_reasons :: "nat \<Rightarrow> provenance_step \<Rightarrow> composition_reason list" where
  "step_reasons i s =
     emit_if (ps_artifact s = []) (StepArtifactMissing i) @
     emit_if (ps_coordinate s = []) (StepCoordinateMissing i) @
     emit_if (ps_operation s = []) (StepOperationMissing i) @
     emit_if (ps_level s = LevelNone) (StepLevelMissing i) @
     emit_if (ps_reference s = []) (StepReferenceMissing i)"

fun chain_reasons :: "nat \<Rightarrow> provenance_step list \<Rightarrow> composition_reason list" where
  "chain_reasons i [] = []"
| "chain_reasons i (s # ss) = step_reasons i s @ chain_reasons (Suc i) ss"

definition bridge_reasons :: "composition_claim \<Rightarrow> evidence_level \<Rightarrow> composition_reason list" where
  "bridge_reasons c ceiling =
     (if c_evidence c = LevelNone then [BridgeLevelMissing]
      else emit_if (ceiling < c_evidence c) BridgeAboveChain) @
     (if has_ambiguity c
      then AmbiguityUnresolved #
        map AmbiguityReason (filter (\<lambda>r. r \<noteq> []) (c_ambiguity_reasons c))
      else []) @
     emit_if (c_contradicted c) ContradictedByHigher"

definition assess_composition :: "composition_claim \<Rightarrow> composition_assessment" where
  "assess_composition c =
     (let ceiling = chain_ceiling (c_chain c);
          reasons = claim_reasons c @ chain_reasons 0 (c_chain c) @ bridge_reasons c ceiling;
          out = \<lparr>ca_state = Unresolved, ca_ceiling = ceiling, ca_reasons = reasons\<rparr>
      in if reasons \<noteq> [] then out
         else if c_evidence c \<le> OfflineModel
         then out\<lparr>ca_state := ModelOnly, ca_reasons := reasons @ [ModelCannotConfirm]\<rparr>
         else if \<not> c_scope_complete c
         then out\<lparr>ca_state := Bounded, ca_reasons := reasons @ [ScopeIncomplete]\<rparr>
         else out\<lparr>ca_state := Confirmed, ca_reasons := reasons @ [IndependentlyEvidenced]\<rparr>)"

fun relation_level_text :: "relation_level \<Rightarrow> string" where
  "relation_level_text LevelUnspecified = ''UNSPECIFIED''"
| "relation_level_text SemanticValue = ''L3_SEMANTIC_VALUE''"
| "relation_level_text TransformationProvenance = ''L4_TRANSFORMATION_PROVENANCE''"

fun relation_kind_text :: "relation_kind \<Rightarrow> string" where
  "relation_kind_text KindUnspecified = ''UNSPECIFIED''"
| "relation_kind_text ValueInterpretation = ''VALUE_INTERPRETATION''"
| "relation_kind_text RuntimeSemanticDependency = ''RUNTIME_SEMANTIC_DEPENDENCY''"
| "relation_kind_text ProtocolSemanticDependency = ''PROTOCOL_SEMANTIC_DEPENDENCY''"
| "relation_kind_text SourceSemanticDelta = ''SOURCE_SEMANTIC_DELTA''"
| "relation_kind_text DeterministicTransformation = ''DETERMINISTIC_TRANSFORMATION''"

fun composition_state_text :: "composition_state \<Rightarrow> string" where
  "composition_state_text Unresolved = ''UNRESOLVED''"
| "composition_state_text ModelOnly = ''MODEL_ONLY''"
| "composition_state_text Bounded = ''BOUNDED''"
| "composition_state_text Confirmed = ''CONFIRMED''"

subsection \<open>What a claim must have\<close>

lemma emit_if_eq_Nil [simp]: "emit_if b x = [] \<longleftrightarrow> \<not> b"
  by (simp add: emit_if_def)

text \<open>A claim that states everything it needs, over a complete chain.\<close>

definition well_stated :: "composition_claim \<Rightarrow> bool" where
  "well_stated c \<longleftrightarrow>
     c_source c \<noteq> [] \<and> c_target c \<noteq> [] \<and>
     lexically_normal (c_source c) \<noteq> lexically_normal (c_target c) \<and>
     c_scope c \<noteq> [] \<and> c_relation_level c \<noteq> LevelUnspecified \<and>
     c_relation_kind c \<noteq> KindUnspecified \<and>
     (c_relation_kind c = DeterministicTransformation \<longrightarrow>
        c_relation_level c = TransformationProvenance) \<and>
     (c_relation_level c = TransformationProvenance \<longrightarrow> c_result c \<noteq> []) \<and>
     c_reference c \<noteq> [] \<and> c_source_coordinate c \<noteq> [] \<and> c_target_coordinate c \<noteq> [] \<and>
     c_transformation c \<noteq> [] \<and> c_chain c \<noteq> [] \<and>
     (\<forall>s \<in> set (c_chain c). ps_artifact s \<noteq> [] \<and> ps_coordinate s \<noteq> [] \<and> ps_operation s \<noteq> [] \<and>
        ps_level s \<noteq> LevelNone \<and> ps_reference s \<noteq> [])"

text \<open>The bridge level is carried by some step at least as strong.\<close>

definition bridge_carried :: "composition_claim \<Rightarrow> bool" where
  "bridge_carried c \<longleftrightarrow> c_evidence c \<noteq> LevelNone \<and>
     (\<exists>s \<in> set (c_chain c). c_evidence c \<le> ps_level s)"

lemma claim_reasons_Nil:
  "claim_reasons c = [] \<and> chain_reasons 0 (c_chain c) = [] \<longleftrightarrow> well_stated c"
proof -
  have "chain_reasons i ss = [] \<longleftrightarrow> (\<forall>s \<in> set ss. ps_artifact s \<noteq> [] \<and> ps_coordinate s \<noteq> [] \<and>
      ps_operation s \<noteq> [] \<and> ps_level s \<noteq> LevelNone \<and> ps_reference s \<noteq> [])" for i ss
    by (induction ss arbitrary: i) (auto simp: step_reasons_def)
  then show ?thesis by (auto simp: claim_reasons_def well_stated_def same_artifact_def)
qed

lemma LevelNone_least [simp]: "LevelNone \<le> l"
  by (simp add: less_eq_evidence_level_def)

lemma fold_ceiling_ge:
  "l \<le> fold (\<lambda>s c. max c (ps_level s)) ss b \<longleftrightarrow> l \<le> b \<or> (\<exists>s \<in> set ss. l \<le> ps_level s)"
  by (induction ss arbitrary: b) (auto simp: le_max_iff_disj)

lemma chain_ceiling_ge:
  "l \<noteq> LevelNone \<Longrightarrow> l \<le> chain_ceiling ss \<longleftrightarrow> (\<exists>s \<in> set ss. l \<le> ps_level s)"
  using order_antisym [OF _ LevelNone_least, of l] by (auto simp: chain_ceiling_def fold_ceiling_ge)

lemma bridge_reasons_Nil:
  "bridge_reasons c (chain_ceiling (c_chain c)) = [] \<longleftrightarrow>
    bridge_carried c \<and> \<not> has_ambiguity c \<and> \<not> c_contradicted c"
  using chain_ceiling_ge [of "c_evidence c" "c_chain c"]
  by (auto simp: bridge_reasons_def bridge_carried_def not_less)

definition acceptable :: "composition_claim \<Rightarrow> bool" where
  "acceptable c \<longleftrightarrow>
     well_stated c \<and> bridge_carried c \<and> \<not> has_ambiguity c \<and> \<not> c_contradicted c"

lemma assess_reasons_Nil:
  "claim_reasons c @ chain_reasons 0 (c_chain c) @ bridge_reasons c (chain_ceiling (c_chain c)) = []
    \<longleftrightarrow> acceptable c"
  using claim_reasons_Nil [of c] bridge_reasons_Nil [of c] by (auto simp: acceptable_def)

lemma assess_composition_state:
  "ca_state (assess_composition c) =
    (if \<not> acceptable c then Unresolved
     else if c_evidence c \<le> OfflineModel then ModelOnly
     else if c_scope_complete c then Confirmed else Bounded)"
  unfolding assess_composition_def Let_def
  by (simp del: append_is_Nil_conv add: assess_reasons_Nil)

subsection \<open>Properties\<close>

text \<open>C8: A cross-file claim is confirmed exactly when it is stated completely (distinct artifacts, scope,
  coordinates, a chain without gaps, a result for L4), its bridge is carried by a step of the chain
  that is at least as strong and stronger than any offline model, it is unambiguous, not
  contradicted, and complete for its scope.\<close>

theorem composition_confirmed_iff:
  "ca_state (assess_composition c) = Confirmed \<longleftrightarrow>
     well_stated c \<and> c_scope_complete c \<and> \<not> c_contradicted c \<and>
     c_ambiguity c = amb_none \<and> c_ambiguity_reasons c = [] \<and>
     list_ex (\<lambda>s. OfflineModel < c_evidence c \<and> c_evidence c \<le> ps_level s) (c_chain c)"
proof -
  have "OfflineModel < l \<Longrightarrow> l \<noteq> LevelNone" for l
    by (auto simp: less_evidence_level_def)
  then show ?thesis
    by (auto simp: assess_composition_state acceptable_def bridge_carried_def has_ambiguity_def
        list_ex_iff less_le_not_le)
qed

text \<open>Ambiguity fails closed: a claim carrying any ambiguity bit or reason, however combined, or
  contradicted by higher evidence, stays unresolved, says so, and never gains a positive state by
  adding further ambiguity.\<close>

lemma ambiguity_fails_closed:
  assumes "c_ambiguity c \<noteq> amb_none \<or> c_ambiguity_reasons c \<noteq> [] \<or> c_contradicted c"
  shows "ca_state (assess_composition (c\<lparr>c_ambiguity := amb_union (c_ambiguity c) extra\<rparr>)) = Unresolved \<and>
    (AmbiguityUnresolved \<in> set (ca_reasons (assess_composition c)) \<or>
     ContradictedByHigher \<in> set (ca_reasons (assess_composition c)))"
proof -
  have "a OR b = 0 \<Longrightarrow> a = 0" for a b :: u32
    by (metis bit.conj_disj_distrib2 bit.conj_zero_left bit.disj_zero_right or.left_idem or_eq_0_iff)
  then have "\<not> acceptable (c\<lparr>c_ambiguity := amb_union (c_ambiguity c) extra\<rparr>)"
    using assms by (auto simp: acceptable_def has_ambiguity_def amb_union_def amb_none_def)
  moreover have "\<not> acceptable c" using assms by (auto simp: acceptable_def has_ambiguity_def)
  then have "ca_reasons (assess_composition c) = claim_reasons c @ chain_reasons 0 (c_chain c) @
      bridge_reasons c (chain_ceiling (c_chain c))"
    unfolding assess_composition_def Let_def
    by (simp del: append_is_Nil_conv add: assess_reasons_Nil)
  ultimately show ?thesis
    using assms by (auto simp: assess_composition_state bridge_reasons_def has_ambiguity_def emit_if_def)
qed

definition sample_claim :: "ambiguity \<Rightarrow> composition_claim" where
  "sample_claim amb =
     \<lparr>c_source = ''app/key.bin'', c_target = ''app/data.bin'', c_result = [], c_scope = ''xor key'',
      c_relation_level = SemanticValue, c_relation_kind = ValueInterpretation,
      c_evidence = ExactKnownGoodReference, c_reference = ''ref'', c_source_coordinate = ''0'',
      c_target_coordinate = ''16'', c_transformation = ''xor'', c_ambiguity = amb,
      c_ambiguity_reasons = [], c_scope_complete = True, c_contradicted = False,
      c_chain = [\<lparr>ps_artifact = ''app/key.bin'', ps_coordinate = ''0'', ps_operation = ''read'',
        ps_level = ExactKnownGoodReference, ps_reference = ''ref''\<rparr>]\<rparr>"

lemma sample_claim_confirmed: "ca_state (assess_composition (sample_claim amb_none)) = Confirmed"
  by (simp add: assess_composition_state acceptable_def well_stated_def bridge_carried_def
      has_ambiguity_def sample_claim_def amb_none_def less_eq_evidence_level_def
      lexically_normal_def is_absolute_def)

lemma ambiguity_fails_closed_witness:
  "ca_state (assess_composition (sample_claim (amb_union amb_direction amb_producer))) = Unresolved"
proof -
  let ?c = "sample_claim amb_direction"
  have "c_ambiguity ?c \<noteq> amb_none \<or> c_ambiguity_reasons ?c \<noteq> [] \<or> c_contradicted ?c"
    by (simp add: sample_claim_def amb_direction_def amb_none_def)
  from ambiguity_fails_closed [OF this, of amb_producer] show ?thesis
    by (simp add: sample_claim_def)
qed

end
