(* ===== verification/PyMarshal.thy ===== *)
theory PyMarshal
  imports Hashing "HOL-Library.List_Lexorder"
begin

section \<open>Python marshal streams\<close>

text \<open>
  Models \<^verbatim>\<open>src/formats/python_marshal.cpp\<close>. Objects are shared and may be cyclic, so they
  live in a store: a node is a number, a reference list says which numbers a stream can name
  again. The parser recurses at most 501 levels deep, as its depth counter does, and a read that
  meets the end of the input gives zero and records an error, without stopping by itself. The
  canonical form follows pointers; it has fuel for its recursion, and no fuel means that the code
  does not come back.
\<close>

subsection \<open>Objects\<close>

datatype mkind =
    KNullTag | KNone | KFalse | KTrue | KStopIter | KEllipsis | KInt | KLong | KFloat | KComplex | KBytes | KString
  | KTuple | KList | KDict | KSet | KFrozenSet | KSlice | KCode

primrec mkind_code :: "mkind \<Rightarrow> byte" where
  "mkind_code KNullTag = 0" | "mkind_code KNone = 1" | "mkind_code KFalse = 2" | "mkind_code KTrue = 3"
| "mkind_code KStopIter = 4" | "mkind_code KEllipsis = 5" | "mkind_code KInt = 6" | "mkind_code KLong = 7"
| "mkind_code KFloat = 8" | "mkind_code KComplex = 9" | "mkind_code KBytes = 10" | "mkind_code KString = 11"
| "mkind_code KTuple = 12" | "mkind_code KList = 13" | "mkind_code KDict = 14" | "mkind_code KSet = 15"
| "mkind_code KFrozenSet = 16" | "mkind_code KSlice = 17" | "mkind_code KCode = 18"

record code_data =
  cd_argcount :: u32
  cd_posonly :: u32
  cd_kwonly :: u32
  cd_nlocals :: u32
  cd_stacksize :: u32
  cd_flags :: u32
  cd_firstline :: u32
  cd_code :: "nat option"
  cd_consts :: "nat option"
  cd_names :: "nat option"
  cd_varnames :: "nat option"
  cd_freevars :: "nat option"
  cd_cellvars :: "nat option"
  cd_locals_names :: "nat option"
  cd_locals_kinds :: "nat option"
  cd_filename :: "nat option"
  cd_name :: "nat option"
  cd_qualname :: "nat option"
  cd_linetable :: "nat option"
  cd_exceptions :: "nat option"

definition empty_code :: code_data where
  "empty_code =
     \<lparr>cd_argcount = 0, cd_posonly = 0, cd_kwonly = 0, cd_nlocals = 0, cd_stacksize = 0, cd_flags = 0, cd_firstline = 0,
      cd_code = None, cd_consts = None, cd_names = None, cd_varnames = None, cd_freevars = None, cd_cellvars = None,
      cd_locals_names = None, cd_locals_kinds = None, cd_filename = None, cd_name = None, cd_qualname = None,
      cd_linetable = None, cd_exceptions = None\<rparr>"

record mnode =
  no_kind :: mkind
  no_int :: int
  no_blob :: bytes
  no_offset :: nat
  no_seq :: "nat list"
  no_dict :: "(nat \<times> nat) list"
  no_code :: code_data

definition new_mnode :: "mkind \<Rightarrow> mnode" where
  "new_mnode k = \<lparr>no_kind = k, no_int = 0, no_blob = [], no_offset = 0, no_seq = [], no_dict = [], no_code = empty_code\<rparr>"

record code_range =
  cr_offset :: nat
  cr_size :: nat
  cr_name :: string
  cr_filename :: string
  cr_qualname :: string
  cr_line :: int

text \<open>The reader: position, nodes that references can name, the store, and what goes to the result.\<close>

record mreader =
  mr_pos :: nat
  mr_refs :: "nat list"
  mr_store :: "mnode list"
  mr_error :: "(string \<times> nat) option"
  mr_objects :: nat
  mr_codes :: nat
  mr_ranges :: "code_range list"

definition start_reader :: mreader where
  "start_reader = \<lparr>mr_pos = 0, mr_refs = [], mr_store = [], mr_error = None, mr_objects = 0, mr_codes = 0, mr_ranges = []\<rparr>"

subsection \<open>Reading\<close>

text \<open>The first error stays.\<close>

definition mfail_at :: "string \<Rightarrow> nat \<Rightarrow> mreader \<Rightarrow> mreader" where
  "mfail_at s p r = (if mr_error r = None then r\<lparr>mr_error := Some (s, p)\<rparr> else r)"

definition mfail :: "string \<Rightarrow> mreader \<Rightarrow> mreader" where
  "mfail s r = mfail_at s (mr_pos r) r"

definition has_bytes :: "bytes \<Rightarrow> nat \<Rightarrow> mreader \<Rightarrow> bool" where
  "has_bytes d n r \<longleftrightarrow> n \<le> length d - min (mr_pos r) (length d)"

definition truncated :: "mreader \<Rightarrow> mreader" where
  "truncated = mfail ''marshal truncated''"

definition skip_bytes :: "nat \<Rightarrow> mreader \<Rightarrow> mreader" where
  "skip_bytes n r = r\<lparr>mr_pos := mr_pos r + n\<rparr>"

definition get_u8 :: "bytes \<Rightarrow> mreader \<Rightarrow> byte \<times> mreader" where
  "get_u8 d r = (if has_bytes d 1 r then (d ! mr_pos r, skip_bytes 1 r) else (0, truncated r))"

definition get_u32 :: "bytes \<Rightarrow> mreader \<Rightarrow> u32 \<times> mreader" where
  "get_u32 d r =
     (if has_bytes d 4 r then
        (let p = mr_pos r; b = (\<lambda>i. ucast (d ! (p + i)) :: u32) in
         (b 0 OR push_bit 8 (b 1) OR push_bit 16 (b 2) OR push_bit 24 (b 3), skip_bytes 4 r))
      else (0, truncated r))"

definition get_bytes :: "bytes \<Rightarrow> nat \<Rightarrow> mreader \<Rightarrow> bytes \<times> mreader" where
  "get_bytes d n r =
     (if has_bytes d n r then (take n (drop (mr_pos r) d), skip_bytes n r) else ([], truncated r))"

text \<open>A parse gives a value or, with the code, a null pointer; the error is in the reader.\<close>

type_synonym 'a parsed = "'a option \<times> mreader"

definition mthen :: "'a parsed \<Rightarrow> ('a \<Rightarrow> mreader \<Rightarrow> 'b parsed) \<Rightarrow> 'b parsed" where
  "mthen m f = (case m of (None, r) \<Rightarrow> (None, r) | (Some x, r) \<Rightarrow> f x r)"

definition need :: "bytes \<Rightarrow> nat \<Rightarrow> mreader \<Rightarrow> unit parsed" where
  "need d n r = (if has_bytes d n r then (Some (), r) else (None, truncated r))"

definition add_mnode :: "mkind \<Rightarrow> bool \<Rightarrow> mreader \<Rightarrow> nat \<times> mreader" where
  "add_mnode k ref r =
     (let i = length (mr_store r) in
      (i, r\<lparr>mr_store := mr_store r @ [new_mnode k], mr_refs := (if ref then mr_refs r @ [i] else mr_refs r),
            mr_objects := mr_objects r + 1\<rparr>))"

definition on_mnode :: "nat \<Rightarrow> (mnode \<Rightarrow> mnode) \<Rightarrow> mreader \<Rightarrow> mreader" where
  "on_mnode i g r = r\<lparr>mr_store := (mr_store r)[i := g (mr_store r ! i)]\<rparr>"

definition count_ok :: "bytes \<Rightarrow> int \<Rightarrow> nat \<Rightarrow> mreader \<Rightarrow> unit parsed" where
  "count_ok d n minbytes r =
     (if n < 0 \<or> 10000000 < n then (None, mfail ''marshal container length unreasonable'' r)
      else if minbytes \<noteq> 0 \<and> length d - mr_pos r < nat n * minbytes then (None, mfail ''marshal container exceeds input'' r)
      else (Some (), r))"

text \<open>Reading so many bytes into a new node, where the code has checked that they are there.\<close>

definition blob_node :: "bytes \<Rightarrow> nat \<Rightarrow> nat \<Rightarrow> mreader \<Rightarrow> nat parsed" where
  "blob_node d i n r =
     (let (bs, r1) = get_bytes d n r in (Some i, on_mnode i (\<lambda>x. x\<lparr>no_blob := bs\<rparr>) r1))"

definition placed_node :: "bytes \<Rightarrow> nat \<Rightarrow> nat \<Rightarrow> mreader \<Rightarrow> nat parsed" where
  "placed_node d i n r = blob_node d i n (on_mnode i (\<lambda>x. x\<lparr>no_offset := mr_pos r\<rparr>) r)"

subsection \<open>The parser\<close>

type_synonym obj_parser = "mreader \<Rightarrow> nat parsed"

fun read_ints :: "bytes \<Rightarrow> nat \<Rightarrow> mreader \<Rightarrow> u32 list parsed" where
  "read_ints d 0 r = (Some [], r)"
| "read_ints d (Suc n) r =
     mthen (need d 4 r) (\<lambda>_ r. let (v, r) = get_u32 d r in mthen (read_ints d n r) (\<lambda>vs r. (Some (v # vs), r)))"

fun read_objs :: "obj_parser \<Rightarrow> nat \<Rightarrow> mreader \<Rightarrow> nat list parsed" where
  "read_objs f 0 r = (Some [], r)"
| "read_objs f (Suc n) r = mthen (f r) (\<lambda>x r. mthen (read_objs f n r) (\<lambda>xs r. (Some (x # xs), r)))"

text \<open>The fields of a code object before Python 3.11 and since.\<close>

definition old_code :: "u32 list \<Rightarrow> nat list \<Rightarrow> nat list \<Rightarrow> u32 \<Rightarrow> nat \<Rightarrow> code_data" where
  "old_code is os ps line table =
     empty_code\<lparr>cd_argcount := is ! 0, cd_posonly := is ! 1, cd_kwonly := is ! 2, cd_nlocals := is ! 3,
       cd_stacksize := is ! 4, cd_flags := is ! 5, cd_code := Some (os ! 0), cd_consts := Some (os ! 1),
       cd_names := Some (os ! 2), cd_varnames := Some (ps ! 0), cd_freevars := Some (ps ! 1), cd_cellvars := Some (ps ! 2),
       cd_filename := Some (ps ! 3), cd_name := Some (ps ! 4), cd_firstline := line, cd_linetable := Some table\<rparr>"

definition new_code :: "u32 list \<Rightarrow> nat list \<Rightarrow> nat list \<Rightarrow> u32 \<Rightarrow> nat \<Rightarrow> nat \<Rightarrow> code_data" where
  "new_code is os ps line table exc =
     empty_code\<lparr>cd_argcount := is ! 0, cd_posonly := is ! 1, cd_kwonly := is ! 2,
       cd_stacksize := is ! 3, cd_flags := is ! 4, cd_code := Some (os ! 0), cd_consts := Some (os ! 1),
       cd_names := Some (os ! 2), cd_locals_names := Some (ps ! 0), cd_locals_kinds := Some (ps ! 1),
       cd_filename := Some (ps ! 2), cd_name := Some (ps ! 3), cd_qualname := Some (ps ! 4), cd_firstline := line,
       cd_linetable := Some table, cd_exceptions := Some exc\<rparr>"

definition code_fields :: "bytes \<Rightarrow> int \<Rightarrow> obj_parser \<Rightarrow> mreader \<Rightarrow> code_data parsed" where
  "code_fields d minor f r =
     mthen (read_ints d (if minor \<le> 10 then 6 else 5) r) (\<lambda>is r.
     mthen (read_objs f 3 r) (\<lambda>os r.
     mthen (read_objs f 5 r) (\<lambda>ps r.
     mthen (read_ints d 1 r) (\<lambda>ls r.
     mthen (read_objs f (if minor \<le> 10 then 1 else 2) r) (\<lambda>ts r.
       (Some (if minor \<le> 10 then old_code is os ps (ls ! 0) (ts ! 0) else new_code is os ps (ls ! 0) (ts ! 0) (ts ! 1)), r))))))"

definition blob_string :: "bytes \<Rightarrow> string" where
  "blob_string bs = map (\<lambda>b. char_of (unat b)) bs"

definition text_of :: "mnode list \<Rightarrow> nat option \<Rightarrow> string" where
  "text_of h x =
     (case x of None \<Rightarrow> [] | Some i \<Rightarrow> if no_kind (h ! i) = KString then blob_string (no_blob (h ! i)) else [])"

definition note_code_range :: "code_data \<Rightarrow> mreader \<Rightarrow> mreader" where
  "note_code_range c r =
     (case cd_code c of
        None \<Rightarrow> r
      | Some i \<Rightarrow>
          let n = mr_store r ! i in
          if no_kind n \<noteq> KBytes \<or>
             list_ex (\<lambda>x. cr_offset x = no_offset n \<and> cr_size x = length (no_blob n)) (mr_ranges r)
          then r
          else r\<lparr>mr_ranges := mr_ranges r @
            [\<lparr>cr_offset = no_offset n, cr_size = length (no_blob n), cr_name = text_of (mr_store r) (cd_name c),
              cr_filename = text_of (mr_store r) (cd_filename c), cr_qualname = text_of (mr_store r) (cd_qualname c),
              cr_line = sint (cd_firstline c)\<rparr>]\<rparr>)"

definition parse_code :: "bytes \<Rightarrow> int \<Rightarrow> obj_parser \<Rightarrow> nat \<Rightarrow> mreader \<Rightarrow> nat parsed" where
  "parse_code d minor f i r =
     mthen (code_fields d minor f (r\<lparr>mr_codes := mr_codes r + 1\<rparr>)) (\<lambda>c r.
       (Some i, note_code_range c (on_mnode i (\<lambda>n. n\<lparr>no_code := c\<rparr>) r)))"

fun seq_loop :: "obj_parser \<Rightarrow> nat \<Rightarrow> nat \<Rightarrow> mreader \<Rightarrow> nat parsed" where
  "seq_loop f i 0 r = (Some i, r)"
| "seq_loop f i (Suc n) r =
     mthen (f r) (\<lambda>x r. seq_loop f i n (on_mnode i (\<lambda>n. n\<lparr>no_seq := no_seq n @ [x]\<rparr>) r))"

fun dict_loop :: "obj_parser \<Rightarrow> nat \<Rightarrow> nat \<Rightarrow> mreader \<Rightarrow> nat parsed" where
  "dict_loop f i 0 r = (None, mfail ''marshal dict too large'' r)"
| "dict_loop f i (Suc n) r =
     mthen (f r) (\<lambda>k r.
       if no_kind (mr_store r ! k) = KNullTag then (Some i, r)
       else mthen (f r) (\<lambda>v r. dict_loop f i n (on_mnode i (\<lambda>n. n\<lparr>no_dict := no_dict n @ [(k, v)]\<rparr>) r)))"

text \<open>The objects by group of tags, after the node was made.\<close>

definition parse_long :: "bytes \<Rightarrow> nat \<Rightarrow> mreader \<Rightarrow> nat parsed" where
  "parse_long d i r =
     mthen (need d 4 r) (\<lambda>_ r.
       let (w, r) = get_u32 d r; sz = sint w; cnt = nat \<bar>sz\<bar> in
       if 10000000 < cnt \<or> length d - mr_pos r < cnt * 2 then (None, mfail ''marshal long digit count invalid'' r)
       else blob_node d i (cnt * 2) (on_mnode i (\<lambda>n. n\<lparr>no_int := sz\<rparr>) r))"

definition parse_complex :: "bytes \<Rightarrow> nat \<Rightarrow> mreader \<Rightarrow> nat parsed" where
  "parse_complex d i r =
     (let (a, r) = get_u8 d r in
      mthen (need d (unat a) r) (\<lambda>_ r.
        let (x, r) = get_bytes d (unat a) r; (b, r) = get_u8 d r in
        mthen (need d (unat b) r) (\<lambda>_ r.
          let (y, r) = get_bytes d (unat b) r in
          (Some i, on_mnode i (\<lambda>n. n\<lparr>no_blob := x @ [0] @ y\<rparr>) r))))"

definition parse_sized :: "bytes \<Rightarrow> nat \<Rightarrow> mreader \<Rightarrow> nat parsed" where
  "parse_sized d i r =
     (let (w, r) = get_u32 d r in
      mthen (count_ok d (sint w) 1 r) (\<lambda>_. placed_node d i (nat (sint w))))"

definition parse_short :: "bytes \<Rightarrow> nat \<Rightarrow> mreader \<Rightarrow> nat parsed" where
  "parse_short d i r =
     (let (len, r) = get_u8 d r in mthen (need d (unat len) r) (\<lambda>_. placed_node d i (unat len)))"

definition parse_ref :: "bytes \<Rightarrow> bool \<Rightarrow> nat \<Rightarrow> mreader \<Rightarrow> nat parsed" where
  "parse_ref d ref tagoff r =
     (if ref then (None, mfail_at ''marshal TYPE_REF unexpectedly carries FLAG_REF'' tagoff r)
      else
        let (w, r) = get_u32 d r; idx = sint w in
        if idx < 0 \<or> int (length (mr_refs r)) \<le> idx then (None, mfail_at ''marshal reference index invalid'' tagoff r)
        else (Some (mr_refs r ! nat idx), r))"

definition parse_seq :: "bytes \<Rightarrow> obj_parser \<Rightarrow> bool \<Rightarrow> nat \<Rightarrow> mreader \<Rightarrow> nat parsed" where
  "parse_seq d f small i r =
     (let (len, r) = (if small then (let (b, r) = get_u8 d r in (uint b, r)) else (let (w, r) = get_u32 d r in (sint w, r)))
      in mthen (count_ok d len 0 r) (\<lambda>_. seq_loop f i (nat len)))"

definition blob_after :: "bytes \<Rightarrow> nat \<Rightarrow> nat \<Rightarrow> mreader \<Rightarrow> nat parsed" where
  "blob_after d i n r = mthen (need d n r) (\<lambda>_. blob_node d i n)"

definition is_tag :: "char \<Rightarrow> string \<Rightarrow> bool" where
  "is_tag t cs \<longleftrightarrow> t \<in> set cs"

text \<open>The kind of node that a tag makes; references and slices are treated apart.\<close>

definition tag_kind :: "char \<Rightarrow> mkind option" where
  "tag_kind t =
     (if is_tag t ''0'' then Some KNullTag else if is_tag t ''N'' then Some KNone else if is_tag t ''F'' then Some KFalse
      else if is_tag t ''T'' then Some KTrue else if is_tag t ''S'' then Some KStopIter else if is_tag t ''.'' then Some KEllipsis
      else if is_tag t ''iI'' then Some KInt else if is_tag t ''l'' then Some KLong else if is_tag t ''fg'' then Some KFloat
      else if is_tag t ''xy'' then Some KComplex else if is_tag t ''s'' then Some KBytes else if is_tag t ''tuaAzZ'' then Some KString
      else if is_tag t '')('' then Some KTuple else if is_tag t ''['' then Some KList else if is_tag t ''<'' then Some KSet
      else if is_tag t ''>'' then Some KFrozenSet else if is_tag t ''{'' then Some KDict else if is_tag t '':'' then Some KSlice
      else if is_tag t ''c'' then Some KCode else None)"

definition parse_tagged :: "bytes \<Rightarrow> int \<Rightarrow> obj_parser \<Rightarrow> char \<Rightarrow> nat \<Rightarrow> mreader \<Rightarrow> nat parsed" where
  "parse_tagged d minor f t i r =
     (if is_tag t ''0NFTS.'' then (Some i, r)
      else if is_tag t ''i'' then
        mthen (need d 4 r) (\<lambda>_ r. let (w, r) = get_u32 d r in (Some i, on_mnode i (\<lambda>n. n\<lparr>no_int := sint w\<rparr>) r))
      else if is_tag t ''Ig'' then blob_after d i 8 r
      else if is_tag t ''l'' then parse_long d i r
      else if is_tag t ''f'' then (let (len, r) = get_u8 d r in blob_after d i (unat len) r)
      else if is_tag t ''x'' then parse_complex d i r
      else if is_tag t ''y'' then blob_after d i 16 r
      else if is_tag t ''stuaA'' then parse_sized d i r
      else if is_tag t ''zZ'' then parse_short d i r
      else if is_tag t '')([<>'' then parse_seq d f (is_tag t '')'') i r
      else if is_tag t ''{'' then dict_loop f i 10000000 r
      else if is_tag t '':'' then seq_loop f i 3 r
      else parse_code d minor f i r)"

definition obj_body :: "bytes \<Rightarrow> int \<Rightarrow> obj_parser \<Rightarrow> obj_parser" where
  "obj_body d minor f r0 =
     mthen (need d 1 r0) (\<lambda>_ r.
       let tagoff = mr_pos r0; (tc, r) = get_u8 d r; ref = (tc AND 0x80 \<noteq> 0); t = char_of (uint (tc AND 0x7f)) in
       if is_tag t ''r'' then parse_ref d ref tagoff r
       else if is_tag t '':'' \<and> minor < 14 then (None, mfail_at ''marshal slice tag before Python 3.14'' tagoff r)
       else case tag_kind t of
         None \<Rightarrow> (None, mfail_at (''unknown marshal tag 0x'' @ pad_zero 2 (to_hex (of_char t))) tagoff r)
       | Some k \<Rightarrow> let (i, r) = add_mnode k ref r in parse_tagged d minor f t i r)"

text \<open>As many levels as are left before the depth limit.\<close>

primrec marshal_obj :: "nat \<Rightarrow> bytes \<Rightarrow> int \<Rightarrow> obj_parser" where
  "marshal_obj 0 d minor = (\<lambda>r. (None, mfail ''marshal recursion depth exceeded'' r))"
| "marshal_obj (Suc n) d minor = obj_body d minor (marshal_obj n d minor)"

definition read_marshal :: "bytes \<Rightarrow> int \<Rightarrow> nat parsed" where
  "read_marshal d minor = marshal_obj 501 d minor start_reader"

subsection \<open>The canonical form\<close>

definition put_u32 :: "u32 \<Rightarrow> bytes" where
  "put_u32 v = map (\<lambda>i. ucast (drop_bit (8 * i) v)) [0..<4]"

definition put_u64 :: "u64 \<Rightarrow> bytes" where
  "put_u64 v = map (\<lambda>i. ucast (drop_bit (8 * i) v)) [0..<8]"

definition put_size :: "nat \<Rightarrow> bytes" where
  "put_size n = put_u64 (of_nat n)"

definition put_blob :: "bytes \<Rightarrow> bytes" where
  "put_blob b = put_size (length b) @ b"

text \<open>The output and the nodes on the path from the root; a null pointer and a node on the path are marked.\<close>

type_synonym canon_state = "bytes \<times> nat set"
type_synonym canon_fun = "nat option \<Rightarrow> canon_state \<Rightarrow> canon_state option"

fun canon_list :: "canon_fun \<Rightarrow> nat option list \<Rightarrow> canon_state \<Rightarrow> canon_state option" where
  "canon_list f [] s = Some s"
| "canon_list f (x # xs) s = Option.bind (f x s) (canon_list f xs)"

definition canon_one :: "canon_fun \<Rightarrow> nat \<Rightarrow> bytes option" where
  "canon_one f x = map_option fst (f (Some x) ([], {}))"

definition emit :: "bytes \<Rightarrow> canon_state \<Rightarrow> canon_state" where
  "emit bs s = (fst s @ bs, snd s)"

definition canon_unordered :: "canon_fun \<Rightarrow> nat list \<Rightarrow> canon_state \<Rightarrow> canon_state option" where
  "canon_unordered f xs s =
     map_option (\<lambda>bs. emit (concat (map put_blob (sort bs))) s) (those (map (canon_one f) xs))"

definition code_parts :: "code_data \<Rightarrow> nat option list" where
  "code_parts c =
     [cd_code c, cd_consts c, cd_names c] @
     (if cd_varnames c \<noteq> None then [cd_varnames c, cd_freevars c, cd_cellvars c] else [cd_locals_names c, cd_locals_kinds c]) @
     [cd_name c] @ (if cd_qualname c \<noteq> None then [cd_qualname c] else []) @
     (if cd_exceptions c \<noteq> None then [cd_exceptions c] else [])"

definition code_numbers :: "code_data \<Rightarrow> bytes" where
  "code_numbers c =
     concat (map put_u32 [cd_argcount c, cd_posonly c, cd_kwonly c, cd_nlocals c, cd_stacksize c, cd_flags c])"

definition canon_content :: "canon_fun \<Rightarrow> mnode \<Rightarrow> canon_state \<Rightarrow> canon_state option" where
  "canon_content f n s =
     (case no_kind n of
        KInt \<Rightarrow> Some (emit (put_u64 (word_of_int (no_int n)) @ put_blob (no_blob n)) s)
      | KLong \<Rightarrow> Some (emit (put_u64 (word_of_int (no_int n)) @ put_blob (no_blob n)) s)
      | KFloat \<Rightarrow> Some (emit (put_blob (no_blob n)) s)
      | KComplex \<Rightarrow> Some (emit (put_blob (no_blob n)) s)
      | KBytes \<Rightarrow> Some (emit (put_blob (no_blob n)) s)
      | KString \<Rightarrow> Some (emit (put_blob (no_blob n)) s)
      | KTuple \<Rightarrow> canon_list f (map Some (no_seq n)) (emit (put_size (length (no_seq n))) s)
      | KList \<Rightarrow> canon_list f (map Some (no_seq n)) (emit (put_size (length (no_seq n))) s)
      | KSlice \<Rightarrow> canon_list f (map Some (no_seq n)) (emit (put_size (length (no_seq n))) s)
      | KSet \<Rightarrow> canon_unordered f (no_seq n) (emit (put_size (length (no_seq n))) s)
      | KFrozenSet \<Rightarrow> canon_unordered f (no_seq n) (emit (put_size (length (no_seq n))) s)
      | KDict \<Rightarrow> canon_list f (concat (map (\<lambda>(k, v). [Some k, Some v]) (no_dict n))) (emit (put_size (length (no_dict n))) s)
      | KCode \<Rightarrow> canon_list f (code_parts (no_code n)) (emit (code_numbers (no_code n)) s)
      | _ \<Rightarrow> Some s)"

definition canon_body :: "mnode list \<Rightarrow> canon_fun \<Rightarrow> canon_fun" where
  "canon_body h f x s =
     (case x of
        None \<Rightarrow> Some (emit [0xff] s)
      | Some i \<Rightarrow>
          if i \<in> snd s then Some (emit [0xfe] s)
          else map_option (\<lambda>(out, act). (out, act - {i}))
            (canon_content f (h ! i) (fst s @ [mkind_code (no_kind (h ! i))], insert i (snd s))))"

primrec canon :: "nat \<Rightarrow> mnode list \<Rightarrow> canon_fun" where
  "canon 0 h = (\<lambda>x s. None)"
| "canon (Suc n) h = canon_body h (canon n h)"

subsection \<open>The semantic hash\<close>

record marshal_semantic =
  sm_valid :: bool
  sm_minor :: int
  sm_sha256 :: string
  sm_error :: "(string \<times> nat) option"
  sm_objects :: nat
  sm_codes :: nat
  sm_ranges :: "code_range list"

definition minor_from_version :: "int \<Rightarrow> int" where
  "minor_from_version v = (if 300 \<le> v then v mod 100 else if 30 \<le> v then v mod 10 else v)"

definition semantic_of :: "int \<Rightarrow> mreader \<Rightarrow> marshal_semantic" where
  "semantic_of minor r =
     \<lparr>sm_valid = False, sm_minor = minor, sm_sha256 = [], sm_error = mr_error r, sm_objects = mr_objects r,
      sm_codes = mr_codes r, sm_ranges = mr_ranges r\<rparr>"

text \<open>The errors after the parse replace the parser's.\<close>

definition semantic_hash_python_marshal :: "nat \<Rightarrow> bytes \<Rightarrow> int \<Rightarrow> marshal_semantic option" where
  "semantic_hash_python_marshal fuel d version =
     (let minor = minor_from_version version in
      if minor < 8 \<or> 14 < minor
      then Some ((semantic_of minor start_reader)\<lparr>sm_error := Some (''semantic marshal supports Python 3.8-3.14'', 0)\<rparr>)
      else case read_marshal d minor of
        (None, r) \<Rightarrow> Some (semantic_of minor r)
      | (Some root, r) \<Rightarrow>
          if no_kind (mr_store r ! root) \<noteq> KCode
          then Some ((semantic_of minor r)\<lparr>sm_error := Some (''marshal root is not a code object'', 0)\<rparr>)
          else if mr_pos r \<noteq> length d
          then Some ((semantic_of minor r)\<lparr>sm_error := Some (''trailing bytes after root marshal object'', mr_pos r)\<rparr>)
          else do {
            (c, _) \<leftarrow> canon fuel (mr_store r) (Some root) ([], {});
            h \<leftarrow> sha256_bytes c;
            Some ((semantic_of minor r)\<lparr>sm_sha256 := h, sm_valid := True\<rparr>)
          })"

end
