(* ===== verification/PyMarshalSafety.thy ===== *)
theory PyMarshalSafety
  imports PyMarshal
begin

section \<open>What a parsed marshal stream guarantees\<close>

text \<open>
  The code ranges that a successful parse reports lie in the input and do not overlap, so rewriting
  opcodes changes exactly the opcodes. The canonical form ends whenever no set contains itself, and
  is shown not to end for a short input in which one does.
\<close>

subsection \<open>Successful parses\<close>

definition ok :: "('a \<Rightarrow> mreader \<Rightarrow> bool) \<Rightarrow> 'a parsed \<Rightarrow> bool" where
  "ok P m \<longleftrightarrow> (case m of (None, r) \<Rightarrow> True | (Some x, r) \<Rightarrow> P x r)"

lemma ok_simps [simp]: "ok P (None, r)" "ok P (Some x, r) \<longleftrightarrow> P x r"
  by (simp_all add: ok_def)

lemma ok_mthen [simp]: "ok P (mthen m f) \<longleftrightarrow> ok (\<lambda>x r. ok P (f x r)) m"
  by (cases m) (simp add: ok_def mthen_def split: option.split)

lemma ok_mono: "ok P m \<Longrightarrow> (\<And>x r. P x r \<Longrightarrow> Q x r) \<Longrightarrow> ok Q m"
  by (cases m) (auto simp: ok_def split: option.splits)

text \<open>The byte ranges of the byte strings in the store, in the order of their making.\<close>

definition spans :: "mnode list \<Rightarrow> (nat \<times> nat) list" where
  "spans h = map (\<lambda>n. (no_offset n, length (no_blob n))) (filter (\<lambda>n. no_kind n = KBytes) h)"

definition range_pair :: "code_range \<Rightarrow> nat \<times> nat" where
  "range_pair x = (cr_offset x, cr_size x)"

text \<open>The nodes that a node points to.\<close>

definition code_nodes :: "code_data \<Rightarrow> nat option list" where
  "code_nodes c =
     [cd_code c, cd_consts c, cd_names c, cd_varnames c, cd_freevars c, cd_cellvars c, cd_locals_names c,
      cd_locals_kinds c, cd_filename c, cd_name c, cd_qualname c, cd_linetable c, cd_exceptions c]"

definition children :: "mnode \<Rightarrow> nat set" where
  "children n = set (no_seq n) \<union> fst ` set (no_dict n) \<union> snd ` set (no_dict n) \<union> {i. Some i \<in> set (code_nodes (no_code n))}"

lemma children_new [simp]: "children (new_mnode k) = {}"
  by (auto simp: children_def new_mnode_def code_nodes_def empty_code_def)

lemma new_kind [simp]: "no_kind (new_mnode k) = k"
  by (simp add: new_mnode_def)

lemma children_update [simp]:
  "children (n\<lparr>no_int := v\<rparr>) = children n" "children (n\<lparr>no_blob := bs\<rparr>) = children n"
  "children (n\<lparr>no_offset := p\<rparr>) = children n"
  by (simp_all add: children_def)

definition closed_store :: "mnode list \<Rightarrow> bool" where
  "closed_store h \<longleftrightarrow> (\<forall>n \<in> set h. \<forall>c \<in> children n. c < length h)"

definition reader_inv :: "bytes \<Rightarrow> mreader \<Rightarrow> bool" where
  "reader_inv d r \<longleftrightarrow>
     mr_pos r \<le> length d \<and> (\<forall>i \<in> set (mr_refs r). i < length (mr_store r)) \<and>
     sorted_wrt (\<lambda>a b. fst a + snd a \<le> fst b) (spans (mr_store r)) \<and>
     (\<forall>s \<in> set (spans (mr_store r)). fst s + snd s \<le> mr_pos r) \<and>
     set (map range_pair (mr_ranges r)) \<subseteq> set (spans (mr_store r)) \<and> distinct (map range_pair (mr_ranges r)) \<and>
     closed_store (mr_store r)"

lemma inv_move:
  assumes "reader_inv d r" and "mr_pos r \<le> mr_pos r'" "mr_pos r' \<le> length d" and "mr_store r' = mr_store r"
    "mr_refs r' = mr_refs r" "mr_ranges r' = mr_ranges r"
  shows "reader_inv d r'"
  using assms by (auto simp: reader_inv_def)

lemma inv_pos: "reader_inv d r \<Longrightarrow> mr_pos r \<le> length d"
  by (simp add: reader_inv_def)

lemma fail_frame [simp]:
  "mr_pos (mfail_at s p r) = mr_pos r" "mr_store (mfail_at s p r) = mr_store r" "mr_refs (mfail_at s p r) = mr_refs r"
  "mr_ranges (mfail_at s p r) = mr_ranges r"
  "mr_pos (truncated r) = mr_pos r" "mr_store (truncated r) = mr_store r" "mr_refs (truncated r) = mr_refs r"
  "mr_ranges (truncated r) = mr_ranges r"
  "mr_pos (skip_bytes n r) = mr_pos r + n" "mr_store (skip_bytes n r) = mr_store r" "mr_refs (skip_bytes n r) = mr_refs r"
  "mr_ranges (skip_bytes n r) = mr_ranges r"
  by (simp_all add: mfail_at_def mfail_def truncated_def skip_bytes_def)

lemma ok_need [simp]: "ok P (need d n r) \<longleftrightarrow> (has_bytes d n r \<longrightarrow> P () r)"
  by (simp add: need_def)

lemma has_bytes_room: "has_bytes d n r \<Longrightarrow> mr_pos r \<le> length d \<Longrightarrow> mr_pos r + n \<le> length d"
  by (simp add: has_bytes_def)

text \<open>A read moves forward inside the input and touches nothing else.\<close>

definition moved :: "bytes \<Rightarrow> mreader \<Rightarrow> mreader \<Rightarrow> bool" where
  "moved d r r' \<longleftrightarrow>
     mr_store r' = mr_store r \<and> mr_refs r' = mr_refs r \<and> mr_ranges r' = mr_ranges r \<and> mr_pos r \<le> mr_pos r' \<and>
     (mr_pos r \<le> length d \<longrightarrow> mr_pos r' \<le> length d)"

lemma moved_refl [simp]: "moved d r r"
  by (simp add: moved_def)

lemma moved_trans: "moved d r r' \<Longrightarrow> moved d r' r'' \<Longrightarrow> moved d r r''"
  by (simp add: moved_def)

lemma moved_inv: "reader_inv d r \<Longrightarrow> moved d r r' \<Longrightarrow> reader_inv d r'"
  using inv_move inv_pos unfolding moved_def by blast

lemma moved_get:
  "get_u8 d r = (b, r') \<Longrightarrow> moved d r r'" "get_u32 d r = (w, r') \<Longrightarrow> moved d r r'"
  by (auto simp: get_u8_def get_u32_def moved_def Let_def dest: has_bytes_room split: if_splits)

lemma moved_bytes: "get_bytes d n r = (bs, r') \<Longrightarrow> moved d r r' \<and> length bs + mr_pos r \<le> mr_pos r'"
  by (auto simp: get_bytes_def moved_def has_bytes_def split: if_splits)

lemma ok_count: "ok (\<lambda>_ r'. r' = r) (count_ok d n k r)"
  by (simp add: count_ok_def)

subsection \<open>Leaves\<close>

text \<open>
  What an object without parts does: one new node of its kind at the end of the store; if it is a
  byte string, its bytes lie between the old and the new position.
\<close>

definition made :: "bytes \<Rightarrow> mkind \<Rightarrow> mreader \<Rightarrow> nat \<Rightarrow> nat \<Rightarrow> mreader \<Rightarrow> bool" where
  "made d k r i j r' \<longleftrightarrow>
     j = i \<and> mr_refs r' = mr_refs r \<and> mr_ranges r' = mr_ranges r \<and> mr_pos r \<le> mr_pos r' \<and> mr_pos r' \<le> length d \<and>
     (\<exists>h x. mr_store r = h @ [new_mnode k] \<and> i = length h \<and> mr_store r' = h @ [x] \<and> no_kind x = k \<and> children x = {} \<and>
        (k = KBytes \<longrightarrow> mr_pos r \<le> no_offset x \<and> no_offset x + length (no_blob x) \<le> mr_pos r'))"

text \<open>A reader that has just made the node i of kind k.\<close>

definition fresh :: "bytes \<Rightarrow> mkind \<Rightarrow> nat \<Rightarrow> mreader \<Rightarrow> bool" where
  "fresh d k i r \<longleftrightarrow> mr_pos r \<le> length d \<and> (\<exists>h. mr_store r = h @ [new_mnode k] \<and> i = length h)"

lemma fresh_moved: "fresh d k i r \<Longrightarrow> moved d r r' \<Longrightarrow> fresh d k i r'"
  by (auto simp: fresh_def moved_def)

lemma made_moved: "moved d r r1 \<Longrightarrow> made d k r1 i j r' \<Longrightarrow> made d k r i j r'"
  by (auto simp: made_def moved_def)

lemma on_new_node:
  assumes "mr_store r = h @ [x]"
  shows "mr_store (on_mnode (length h) g r) = h @ [g x]" and "mr_refs (on_mnode i g r) = mr_refs r"
    and "mr_ranges (on_mnode i g r) = mr_ranges r" and "mr_pos (on_mnode i g r) = mr_pos r"
  using assms by (simp_all add: on_mnode_def)

lemma blob_made:
  assumes "fresh d k i r0" and "mr_store r = mr_store r0 \<or> (\<exists>h v. mr_store r0 = h @ [new_mnode k] \<and> mr_store r = h @ [(new_mnode k)\<lparr>no_int := v\<rparr>])"
    and "mr_refs r = mr_refs r0" "mr_ranges r = mr_ranges r0" "mr_pos r = mr_pos r0" and "k \<noteq> KBytes"
  shows "ok (made d k r0 i) (blob_node d i n r)"
proof -
  obtain h where h: "mr_store r0 = h @ [new_mnode k]" "i = length h" and p: "mr_pos r0 \<le> length d"
    using assms(1) by (auto simp: fresh_def)
  obtain y where y: "mr_store r = h @ [y]" "no_kind y = k" "children y = {}" using assms(2) h by auto
  obtain bs r1 where get: "get_bytes d n r = (bs, r1)" by (cases "get_bytes d n r")
  have m: "moved d r r1" using moved_bytes [OF get] by simp
  then have "mr_store r1 = h @ [y]" using y by (simp add: moved_def)
  from on_new_node [OF this] show ?thesis
    using m h y assms(3-6) p by (auto simp: blob_node_def get made_def moved_def)
qed

lemma blob_made_fresh: "fresh d k i r \<Longrightarrow> k \<noteq> KBytes \<Longrightarrow> ok (made d k r i) (blob_node d i n r)"
  by (rule blob_made) simp_all

lemma placed_made:
  assumes "fresh d k i r"
  shows "ok (made d k r i) (placed_node d i n r)"
proof -
  obtain h where h: "mr_store r = h @ [new_mnode k]" "i = length h" and p: "mr_pos r \<le> length d"
    using assms by (auto simp: fresh_def)
  let ?r = "on_mnode i (\<lambda>x. x\<lparr>no_offset := mr_pos r\<rparr>) r"
  obtain bs r1 where get: "get_bytes d n ?r = (bs, r1)" by (cases "get_bytes d n ?r")
  note r = on_new_node [OF h(1), where g = "\<lambda>x. x\<lparr>no_offset := mr_pos r\<rparr>", folded h(2)]
  have m: "moved d ?r r1" "length bs + mr_pos r \<le> mr_pos r1" using moved_bytes [OF get] r by simp_all
  then have "mr_store r1 = h @ [(new_mnode k)\<lparr>no_offset := mr_pos r\<rparr>]" using r(1) by (simp add: moved_def)
  from on_new_node [OF this] show ?thesis
    unfolding placed_node_def blob_node_def get prod.case Let_def
    using m h r p by (auto simp: made_def moved_def)
qed


lemma made_back:
  assumes "moved d r r1" and "ok (made d k r1 i) m"
  shows "ok (made d k r i) m"
  by (rule ok_mono [OF assms(2)]) (rule made_moved [OF assms(1)])

lemma unchanged_made: "fresh d k i r \<Longrightarrow> k \<noteq> KBytes \<Longrightarrow> made d k r i i r"
  by (auto simp: made_def fresh_def)

lemma blob_after_made: "fresh d k i r \<Longrightarrow> k \<noteq> KBytes \<Longrightarrow> ok (made d k r i) (blob_after d i n r)"
  by (simp add: blob_after_def blob_made_fresh)

lemma update_made:
  assumes "fresh d k i r" and "k \<noteq> KBytes" and "\<And>n. no_kind (g n) = no_kind n \<and> children (g n) = children n"
  shows "made d k r i i (on_mnode i g r)"
proof -
  obtain h where h: "mr_store r = h @ [new_mnode k]" "i = length h" "mr_pos r \<le> length d" using assms(1) by (auto simp: fresh_def)
  then show ?thesis using on_new_node [OF h(1)] assms(2,3) by (auto simp: made_def)
qed

lemma long_made:
  assumes "fresh d k i r" and "k \<noteq> KBytes"
  shows "ok (made d k r i) (parse_long d i r)"
proof -
  obtain w r1 where get: "get_u32 d r = (w, r1)" by (cases "get_u32 d r")
  note m = moved_get(2) [OF get]
  have f: "fresh d k i r1" by (rule fresh_moved [OF assms(1) m])
  let ?r = "on_mnode i (\<lambda>n. n\<lparr>no_int := sint w\<rparr>) r1"
  obtain h where h: "mr_store r1 = h @ [new_mnode k]" "i = length h" using f by (auto simp: fresh_def)
  have "ok (made d k r1 i) (blob_node d i n ?r)" for n
    by (rule blob_made [OF f]) (use on_new_node [OF h(1)] h assms(2) in auto)
  then have "ok (made d k r i) (blob_node d i n ?r)" for n by (rule made_back [OF m])
  then show ?thesis by (simp add: parse_long_def get Let_def)
qed

lemma complex_made:
  assumes "fresh d k i r" and "k \<noteq> KBytes"
  shows "ok (made d k r i) (parse_complex d i r)"
proof -
  obtain a r1 where a: "get_u8 d r = (a, r1)" by (cases "get_u8 d r")
  obtain x r2 where x: "get_bytes d (unat a) r1 = (x, r2)" by (cases "get_bytes d (unat a) r1")
  obtain b r3 where b: "get_u8 d r2 = (b, r3)" by (cases "get_u8 d r2")
  obtain y r4 where y: "get_bytes d (unat b) r3 = (y, r4)" by (cases "get_bytes d (unat b) r3")
  have m: "moved d r r4"
    using moved_get(1) [OF a] moved_bytes [OF x] moved_get(1) [OF b] moved_bytes [OF y] moved_trans by blast
  have "made d k r4 i i (on_mnode i (\<lambda>n. n\<lparr>no_blob := x @ [0] @ y\<rparr>) r4)"
    by (rule update_made [OF fresh_moved [OF assms(1) m] assms(2)]) simp
  then show ?thesis using made_moved [OF m] by (simp add: parse_complex_def a x b y)
qed

lemma sized_made:
  assumes "fresh d k i r"
  shows "ok (made d k r i) (parse_sized d i r)"
proof -
  obtain w r1 where get: "get_u32 d r = (w, r1)" by (cases "get_u32 d r")
  note m = moved_get(2) [OF get]
  have "ok (made d k r i) (placed_node d i n r1)" for n
    by (rule made_back [OF m placed_made [OF fresh_moved [OF assms m]]])
  then show ?thesis unfolding parse_sized_def get prod.case Let_def ok_mthen by (intro ok_mono [OF ok_count]) simp
qed

lemma short_made:
  assumes "fresh d k i r"
  shows "ok (made d k r i) (parse_short d i r)"
proof -
  obtain w r1 where get: "get_u8 d r = (w, r1)" by (cases "get_u8 d r")
  note m = moved_get(1) [OF get]
  have "ok (made d k r i) (placed_node d i n r1)" for n
    by (rule made_back [OF m placed_made [OF fresh_moved [OF assms m]]])
  then show ?thesis by (simp add: parse_short_def get)
qed

text \<open>A leaf keeps the invariant.\<close>

lemma spans_append: "spans (h @ [x]) = spans h @ (if no_kind x = KBytes then [(no_offset x, length (no_blob x))] else [])"
  by (simp add: spans_def)

lemma made_inv:
  assumes inv: "reader_inv d r" and new: "add_mnode k ref r = (i, r1)" and made: "made d k r1 i j r'"
  shows "reader_inv d r' \<and> j < length (mr_store r')"
proof -
  obtain x where x: "mr_store r' = mr_store r @ [x]" "no_kind x = k" "children x = {}" "i = length (mr_store r)"
      and kb: "k = KBytes \<Longrightarrow> mr_pos r \<le> no_offset x \<and> no_offset x + length (no_blob x) \<le> mr_pos r'"
      and p: "mr_pos r \<le> mr_pos r'" "mr_pos r' \<le> length d" and j: "j = i"
      and rest: "mr_refs r' = (if ref then mr_refs r @ [i] else mr_refs r)" "mr_ranges r' = mr_ranges r"
    using made new by (auto simp: made_def add_mnode_def Let_def)
  have "reader_inv d r'"
    using inv x kb p rest unfolding reader_inv_def by (auto simp: spans_append sorted_wrt_append closed_store_def less_Suc_eq intro: order_trans)
  then show ?thesis using x j by simp
qed

subsection \<open>Containers and code objects\<close>

lemma spans_update:
  assumes "\<And>n. no_kind (g n) = no_kind n \<and> no_offset (g n) = no_offset n \<and> no_blob (g n) = no_blob n"
  shows "spans (h[i := g (h ! i)]) = spans h"
proof (induction h arbitrary: i)
  case (Cons x h)
  then show ?case using assms by (cases i) (simp_all add: spans_def)
qed simp

lemma update_inv:
  assumes "reader_inv d r" and "\<And>n. no_kind (g n) = no_kind n \<and> no_offset (g n) = no_offset n \<and> no_blob (g n) = no_blob n"
    and "\<And>n. \<forall>c \<in> children (g n). c \<in> children n \<or> c < length (mr_store r)"
  shows "reader_inv d (on_mnode i g r) \<and> length (mr_store (on_mnode i g r)) = length (mr_store r)"
proof -
  have "closed_store ((mr_store r)[i := g (mr_store r ! i)])"
  proof (cases "i < length (mr_store r)")
    case True
    then have g: "\<forall>c \<in> children (g (mr_store r ! i)). c < length (mr_store r)"
      using assms(1,3) unfolding closed_store_def reader_inv_def by (meson nth_mem)
    have "set ((mr_store r)[i := g (mr_store r ! i)]) \<subseteq> insert (g (mr_store r ! i)) (set (mr_store r))"
      by (rule set_update_subset_insert)
    then show ?thesis using assms(1) g unfolding closed_store_def reader_inv_def by auto
  qed (use assms(1) in \<open>simp add: reader_inv_def list_update_beyond\<close>)
  then show ?thesis using assms(1) spans_update [OF assms(2)] by (simp add: reader_inv_def on_mnode_def)
qed

text \<open>A step that succeeded: the invariant, and a store that has only grown.\<close>

definition went_on :: "bytes \<Rightarrow> mreader \<Rightarrow> mreader \<Rightarrow> bool" where
  "went_on d r r' \<longleftrightarrow> reader_inv d r' \<and> length (mr_store r) \<le> length (mr_store r')"

lemma went_on_refl [simp]: "went_on d r r \<longleftrightarrow> reader_inv d r"
  by (simp add: went_on_def)

lemma went_on_trans: "went_on d r r1 \<Longrightarrow> went_on d r1 r2 \<Longrightarrow> went_on d r r2"
  by (simp add: went_on_def)

lemma went_on_inv: "went_on d r r' \<Longrightarrow> reader_inv d r'"
  by (simp add: went_on_def)

lemma moved_went_on: "reader_inv d r \<Longrightarrow> moved d r r' \<Longrightarrow> went_on d r r'"
  using moved_inv by (simp add: went_on_def moved_def)

lemma update_went_on:
  "reader_inv d r \<Longrightarrow> (\<And>n. no_kind (g n) = no_kind n \<and> no_offset (g n) = no_offset n \<and> no_blob (g n) = no_blob n) \<Longrightarrow>
    (\<And>n. \<forall>c \<in> children (g n). c \<in> children n \<or> c < length (mr_store r)) \<Longrightarrow> went_on d r (on_mnode i g r)"
  using update_inv [of d r g i] by (simp add: went_on_def)

definition gives_node :: "bytes \<Rightarrow> mreader \<Rightarrow> nat \<Rightarrow> mreader \<Rightarrow> bool" where
  "gives_node d r i r' \<longleftrightarrow> went_on d r r' \<and> i < length (mr_store r')"

lemma gives_node_back: "went_on d r r1 \<Longrightarrow> gives_node d r1 i r' \<Longrightarrow> gives_node d r i r'"
  using went_on_trans by (auto simp: gives_node_def)

text \<open>What is proved of the parser, level by level.\<close>

definition parses :: "bytes \<Rightarrow> obj_parser \<Rightarrow> bool" where
  "parses d f \<longleftrightarrow> (\<forall>r. reader_inv d r \<longrightarrow> ok (gives_node d r) (f r))"

lemma parsesD: "parses d f \<Longrightarrow> reader_inv d r \<Longrightarrow> ok (gives_node d r) (f r)"
  by (simp add: parses_def)

lemma later_node: "went_on d r r' \<Longrightarrow> i < length (mr_store r) \<Longrightarrow> i < length (mr_store r')"
  by (simp add: went_on_def)

lemma seq_gives:
  "parses d f \<Longrightarrow> reader_inv d r \<Longrightarrow> i < length (mr_store r) \<Longrightarrow> ok (gives_node d r) (seq_loop f i n r)"
proof (induction n arbitrary: r)
  case (Suc n)
  show ?case
    unfolding seq_loop.simps ok_mthen
  proof (rule ok_mono [OF parsesD [OF Suc.prems(1,2)]])
    fix x r1
    assume r1: "gives_node d r x r1"
    let ?r2 = "on_mnode i (\<lambda>n. n\<lparr>no_seq := no_seq n @ [x]\<rparr>) r1"
    have w1: "went_on d r r1" using r1 by (simp add: gives_node_def)
    have "went_on d r1 ?r2"
      by (rule update_went_on [OF went_on_inv [OF w1]]) (use r1 in \<open>auto simp: children_def gives_node_def\<close>)
    then have w2: "went_on d r ?r2" by (rule went_on_trans [OF w1])
    show "ok (gives_node d r) (seq_loop f i n ?r2)"
      by (rule ok_mono [OF Suc.IH [OF Suc.prems(1) went_on_inv [OF w2] later_node [OF w2 Suc.prems(3)]]])
        (rule gives_node_back [OF w2])
  qed
qed (simp add: gives_node_def)

lemma dict_gives:
  "parses d f \<Longrightarrow> reader_inv d r \<Longrightarrow> i < length (mr_store r) \<Longrightarrow> ok (gives_node d r) (dict_loop f i n r)"
proof (induction n arbitrary: r)
  case (Suc n)
  show ?case
    unfolding dict_loop.simps ok_mthen
  proof (rule ok_mono [OF parsesD [OF Suc.prems(1,2)]])
    fix k r1
    assume r1: "gives_node d r k r1"
    have w1: "went_on d r r1" using r1 by (simp add: gives_node_def)
    have rest: "ok (gives_node d r) (mthen (f r1) (\<lambda>v r. dict_loop f i n (on_mnode i (\<lambda>n. n\<lparr>no_dict := no_dict n @ [(k, v)]\<rparr>) r)))"
      unfolding ok_mthen
    proof (rule ok_mono [OF parsesD [OF Suc.prems(1) went_on_inv [OF w1]]])
      fix v r2
      assume r2: "gives_node d r1 v r2"
      let ?r3 = "on_mnode i (\<lambda>n. n\<lparr>no_dict := no_dict n @ [(k, v)]\<rparr>) r2"
      have w2: "went_on d r r2" using r2 went_on_trans [OF w1] by (simp add: gives_node_def)
      have "went_on d r2 ?r3"
        by (rule update_went_on [OF went_on_inv [OF w2]]) (use r1 r2 in \<open>auto simp: children_def gives_node_def went_on_def\<close>)
      then have w3: "went_on d r ?r3" by (rule went_on_trans [OF w2])
      show "ok (gives_node d r) (dict_loop f i n ?r3)"
        by (rule ok_mono [OF Suc.IH [OF Suc.prems(1) went_on_inv [OF w3] later_node [OF w3 Suc.prems(3)]]])
          (rule gives_node_back [OF w3])
    qed
    show "ok (gives_node d r) (if no_kind (mr_store r1 ! k) = KNullTag then (Some i, r1)
       else mthen (f r1) (\<lambda>v r. dict_loop f i n (on_mnode i (\<lambda>n. n\<lparr>no_dict := no_dict n @ [(k, v)]\<rparr>) r)))"
      using rest w1 later_node [OF w1 Suc.prems(3)] by (simp add: gives_node_def)
  qed
qed simp

lemma ints_move: "ok (\<lambda>vs r'. moved d r r') (read_ints d n r)"
proof (induction n arbitrary: r)
  case (Suc n)
  obtain v r1 where get: "get_u32 d r = (v, r1)" by (cases "get_u32 d r")
  show ?case
    using ok_mono [OF Suc.IH [of r1]] moved_trans [OF moved_get(2) [OF get]] by (simp add: get)
qed simp

lemma objs_give:
  "parses d f \<Longrightarrow> reader_inv d r \<Longrightarrow>
    ok (\<lambda>xs r'. went_on d r r' \<and> length xs = n \<and> (\<forall>x \<in> set xs. x < length (mr_store r'))) (read_objs f n r)"
proof (induction n arbitrary: r)
  case (Suc n)
  show ?case
    unfolding read_objs.simps ok_mthen
  proof (rule ok_mono [OF parsesD [OF Suc.prems]])
    fix x r1
    assume r1: "gives_node d r x r1"
    then have w1: "went_on d r r1" "x < length (mr_store r1)" by (simp_all add: gives_node_def)
    show "ok (\<lambda>xs r1. ok (\<lambda>xs r'. went_on d r r' \<and> length xs = Suc n \<and> (\<forall>x \<in> set xs. x < length (mr_store r'))) (Some (x # xs), r1))
        (read_objs f n r1)"
      by (rule ok_mono [OF Suc.IH [OF Suc.prems(1) went_on_inv [OF w1(1)]]])
        (use went_on_trans [OF w1(1)] later_node [OF _ w1(2)] in \<open>auto\<close>)
  qed
qed simp

lemma note_range_inv:
  assumes inv: "reader_inv d r" and c: "\<And>i. cd_code c = Some i \<Longrightarrow> i < length (mr_store r)"
  shows "went_on d r (note_code_range c r)"
proof (cases "cd_code c")
  case (Some i)
  define n where "n = mr_store r ! i"
  have n: "n \<in> set (mr_store r)" using c [OF Some] by (simp add: n_def)
  show ?thesis
  proof (cases "no_kind n \<noteq> KBytes \<or> list_ex (\<lambda>x. cr_offset x = no_offset n \<and> cr_size x = length (no_blob n)) (mr_ranges r)")
    case True
    then show ?thesis using inv by (simp add: note_code_range_def Some n_def)
  next
    case False
    have "(no_offset n, length (no_blob n)) \<in> set (spans (mr_store r))" using n False by (auto simp: spans_def)
    moreover have "(no_offset n, length (no_blob n)) \<notin> range_pair ` set (mr_ranges r)"
      using False by (auto simp: range_pair_def list_ex_iff)
    ultimately have "reader_inv d (note_code_range c r)"
      using inv False by (simp add: note_code_range_def Some Let_def n_def [symmetric] reader_inv_def range_pair_def)
    then show ?thesis using False by (simp add: note_code_range_def Some Let_def n_def [symmetric] went_on_def)
  qed
qed (use inv in \<open>simp add: note_code_range_def\<close>)

definition code_in :: "mreader \<Rightarrow> code_data \<Rightarrow> bool" where
  "code_in r c \<longleftrightarrow> (\<forall>i. Some i \<in> set (code_nodes c) \<longrightarrow> i < length (mr_store r))"

lemma fields_give:
  assumes f: "parses d f" and inv: "reader_inv d r"
  shows "ok (\<lambda>c r'. went_on d r r' \<and> code_in r' c) (code_fields d minor f r)" (is "ok ?P _")
proof -
  have tables: "ok ?P (mthen (read_objs f n r4) (\<lambda>ts r. (Some (C ts), r)))"
    if r4: "went_on d r r4" "\<forall>k \<in> K. k < length (mr_store r4)"
      and C: "\<And>ts. length ts = n \<Longrightarrow> {i. Some i \<in> set (code_nodes (C ts))} \<subseteq> K \<union> set ts" for n r4 K C
    unfolding ok_mthen
  proof (rule ok_mono [OF objs_give [OF f went_on_inv [OF r4(1)]]])
    fix ts r'
    assume ts: "went_on d r4 r' \<and> length ts = n \<and> (\<forall>x \<in> set ts. x < length (mr_store r'))"
    then have "code_in r' (C ts)" using C [of ts] r4(2) later_node [of d r4 r'] unfolding code_in_def by blast
    then show "ok ?P (Some (C ts), r')" using ts went_on_trans [OF r4(1)] by simp
  qed
  have line: "ok ?P (mthen (read_ints d m r3) (\<lambda>ls r. mthen (read_objs f n r) (\<lambda>ts r. (Some (C ls ts), r))))"
    if r3: "went_on d r r3" "\<forall>k \<in> K. k < length (mr_store r3)"
      and C: "\<And>ls ts. length ts = n \<Longrightarrow> {i. Some i \<in> set (code_nodes (C ls ts))} \<subseteq> K \<union> set ts" for m n r3 K C
    unfolding ok_mthen [of _ "read_ints d m r3"]
  proof (rule ok_mono [OF ints_move])
    fix ls r4
    assume "moved d r3 r4"
    then have w: "went_on d r3 r4" by (rule moved_went_on [OF went_on_inv [OF r3(1)]])
    show "ok ?P (mthen (read_objs f n r4) (\<lambda>ts r. (Some (C ls ts), r)))"
      by (rule tables [OF went_on_trans [OF r3(1) w] _ C]) (use later_node [OF w] r3(2) in auto)
  qed
  have parts: "ok ?P (mthen (read_objs f l r2) (\<lambda>ps r. mthen (read_ints d m r) (\<lambda>ls r. mthen (read_objs f n r) (\<lambda>ts r. (Some (C ps ls ts), r)))))"
    if r2: "went_on d r r2" "\<forall>k \<in> K. k < length (mr_store r2)"
      and C: "\<And>ps ls ts. length ps = l \<Longrightarrow> length ts = n \<Longrightarrow> {i. Some i \<in> set (code_nodes (C ps ls ts))} \<subseteq> (K \<union> set ps) \<union> set ts"
    for l m n r2 K C
    unfolding ok_mthen [of _ "read_objs f l r2"]
  proof (rule ok_mono [OF objs_give [OF f went_on_inv [OF r2(1)]]])
    fix ps r3
    assume r3: "went_on d r2 r3 \<and> length ps = l \<and> (\<forall>x \<in> set ps. x < length (mr_store r3))"
    show "ok ?P (mthen (read_ints d m r3) (\<lambda>ls r. mthen (read_objs f n r) (\<lambda>ts r. (Some (C ps ls ts), r))))"
      by (rule line [where K = "K \<union> set ps"]) (use r3 r2 went_on_trans later_node [of d r2 r3] C in \<open>auto\<close>)
  qed
  have all: "ok ?P (mthen (read_objs f k r1) (\<lambda>os r. mthen (read_objs f j r) (\<lambda>ps r.
      mthen (read_ints d m r) (\<lambda>ls r. mthen (read_objs f n r) (\<lambda>ts r. (Some (C os ps ls ts), r))))))"
    if r1: "went_on d r r1"
      and C: "\<And>os ps ls ts. length os = k \<Longrightarrow> length ps = j \<Longrightarrow> length ts = n \<Longrightarrow>
        {i. Some i \<in> set (code_nodes (C os ps ls ts))} \<subseteq> (set os \<union> set ps) \<union> set ts" for j k m n r1 C
    unfolding ok_mthen [of _ "read_objs f k r1"]
  proof (rule ok_mono [OF objs_give [OF f went_on_inv [OF r1]]])
    fix os r2
    assume r2: "went_on d r1 r2 \<and> length os = k \<and> (\<forall>x \<in> set os. x < length (mr_store r2))"
    show "ok ?P (mthen (read_objs f j r2) (\<lambda>ps r. mthen (read_ints d m r) (\<lambda>ls r. mthen (read_objs f n r) (\<lambda>ts r. (Some (C os ps ls ts), r)))))"
      by (rule parts [where K = "set os"]) (use r2 went_on_trans [OF r1] C in \<open>auto\<close>)
  qed
  have fields: "{i. Some i \<in> set (code_nodes (if minor \<le> 10 then old_code is os ps l (ts ! 0)
      else new_code is os ps l (ts ! 0) (ts ! 1)))} \<subseteq> (set os \<union> set ps) \<union> set ts"
    if "length os = 3" "length ps = 5" "length ts = (if minor \<le> 10 then 1 else 2)" for "is" os ps l ts
    using that by (auto simp: code_nodes_def new_code_def old_code_def empty_code_def)
  show ?thesis
    unfolding code_fields_def ok_mthen [of _ "read_ints d (if minor \<le> 10 then 6 else 5) r"]
  proof (rule ok_mono [OF ints_move], rule all)
    show "went_on d r r'" if "moved d r r'" for r' by (rule moved_went_on [OF inv that])
  qed (rule fields)
qed

lemma code_gives:
  assumes f: "parses d f" and inv: "reader_inv d r" and i: "i < length (mr_store r)"
  shows "ok (gives_node d r) (parse_code d minor f i r)"
proof -
  let ?r = "r\<lparr>mr_codes := mr_codes r + 1\<rparr>"
  have r: "reader_inv d ?r" "mr_store ?r = mr_store r" using inv by (simp_all add: reader_inv_def)
  show ?thesis
    unfolding parse_code_def ok_mthen
  proof (rule ok_mono [OF fields_give [OF f r(1)]])
    fix c :: code_data and r1
    assume c: "went_on d ?r r1 \<and> code_in r1 c"
    let ?r2 = "on_mnode i (\<lambda>n. n\<lparr>no_code := c\<rparr>) r1"
    have w1: "went_on d r r1" using c r(2) by (simp add: went_on_def)
    have w2: "went_on d r1 ?r2"
      by (rule update_went_on [OF went_on_inv [OF w1]]) (use c in \<open>auto simp: children_def code_in_def\<close>)
    have w3: "went_on d ?r2 (note_code_range c ?r2)"
      by (rule note_range_inv [OF went_on_inv [OF w2]]) (use c later_node [OF w2] in \<open>auto simp: code_in_def code_nodes_def\<close>)
    have w: "went_on d r (note_code_range c ?r2)" using went_on_trans [OF w1 went_on_trans [OF w2 w3]] .
    show "ok (gives_node d r) (Some i, note_code_range c ?r2)"
      using w later_node [OF w i] by (simp add: gives_node_def)
  qed
qed

lemma ref_gives:
  assumes inv: "reader_inv d r"
  shows "ok (gives_node d r) (parse_ref d ref p r)"
proof -
  obtain w r1 where get: "get_u32 d r = (w, r1)" by (cases "get_u32 d r")
  have w1: "went_on d r r1" by (rule moved_went_on [OF inv moved_get(2) [OF get]])
  have "mr_refs r1 ! i < length (mr_store r1)" if "i < length (mr_refs r1)" for i
    using went_on_inv [OF w1] that by (simp add: reader_inv_def)
  then show ?thesis using w1 by (auto simp: parse_ref_def get Let_def gives_node_def)
qed

lemma parse_seq_gives:
  assumes f: "parses d f" and inv: "reader_inv d r" and i: "i < length (mr_store r)"
  shows "ok (gives_node d r) (parse_seq d f small i r)"
proof -
  have run: "ok (gives_node d r) (mthen (count_ok d len 0 r1) (\<lambda>_. seq_loop f i (nat len)))" if m: "moved d r r1" for len r1
  proof -
    have w1: "went_on d r r1" by (rule moved_went_on [OF inv m])
    have "ok (gives_node d r) (seq_loop f i (nat len) r1)"
      by (rule ok_mono [OF seq_gives [OF f went_on_inv [OF w1] later_node [OF w1 i]]]) (rule gives_node_back [OF w1])
    then show ?thesis unfolding ok_mthen by (intro ok_mono [OF ok_count]) simp
  qed
  show ?thesis
  proof (cases small)
    case True
    obtain b r1 where get: "get_u8 d r = (b, r1)" by (cases "get_u8 d r")
    then show ?thesis using run [OF moved_get(1) [OF get], of "uint b"] True by (simp add: parse_seq_def get)
  next
    case False
    obtain w r1 where get: "get_u32 d r = (w, r1)" by (cases "get_u32 d r")
    then show ?thesis using run [OF moved_get(2) [OF get], of "sint w"] False by (simp add: parse_seq_def get)
  qed
qed

text \<open>A new node keeps the invariant unless it is a byte string, which is a leaf.\<close>

lemma new_went_on:
  assumes inv: "reader_inv d r" and new: "add_mnode k ref r = (i, r1)" and k: "k \<noteq> KBytes"
  shows "went_on d r r1 \<and> i < length (mr_store r1)"
proof -
  have "fresh d k i r1" using inv new by (auto simp: fresh_def add_mnode_def Let_def inv_pos)
  from made_inv [OF inv new unchanged_made [OF this k]] new show ?thesis
    by (auto simp: went_on_def add_mnode_def Let_def)
qed

lemma leaf_gives:
  assumes inv: "reader_inv d r" and new: "add_mnode k ref r = (i, r1)"
    and leaf: "fresh d k i r1 \<Longrightarrow> ok (made d k r1 i) m"
  shows "ok (gives_node d r) m"
proof (rule ok_mono [OF leaf])
  show "fresh d k i r1" using inv new by (auto simp: fresh_def add_mnode_def Let_def inv_pos)
  fix j r'
  assume made: "made d k r1 i j r'"
  then have "length (mr_store r) \<le> length (mr_store r')" using new by (auto simp: made_def add_mnode_def Let_def)
  then show "gives_node d r j r'" using made_inv [OF inv new made] by (simp add: gives_node_def went_on_def)
qed

lemma container_gives:
  assumes inv: "reader_inv d r" and new: "add_mnode k ref r = (i, r1)" and k: "k \<noteq> KBytes"
    and part: "reader_inv d r1 \<Longrightarrow> i < length (mr_store r1) \<Longrightarrow> ok (gives_node d r1) m"
  shows "ok (gives_node d r) m"
  using new_went_on [OF inv new k] part ok_mono gives_node_back went_on_inv by metis

lemma bytes_tag: "tag_kind t = Some k \<Longrightarrow> t \<noteq> CHR ''s'' \<Longrightarrow> k \<noteq> KBytes"
  by (auto simp: tag_kind_def is_tag_def split: if_splits)

lemma int_made:
  assumes "fresh d k i r" and "k \<noteq> KBytes"
  shows "ok (made d k r i) (mthen (need d 4 r) (\<lambda>_ r. let (w, r) = get_u32 d r in (Some i, on_mnode i (\<lambda>n. n\<lparr>no_int := sint w\<rparr>) r)))"
proof -
  obtain w r1 where get: "get_u32 d r = (w, r1)" by (cases "get_u32 d r")
  note m = moved_get(2) [OF get]
  have "made d k r1 i i (on_mnode i (\<lambda>n. n\<lparr>no_int := sint w\<rparr>) r1)"
    by (rule update_made [OF fresh_moved [OF assms(1) m] assms(2)]) simp
  then show ?thesis using made_moved [OF m] by (simp add: get)
qed

lemma float_made:
  assumes "fresh d k i r" and "k \<noteq> KBytes"
  shows "ok (made d k r i) (let (len, r) = get_u8 d r in blob_after d i (unat len) r)"
proof -
  obtain w r1 where get: "get_u8 d r = (w, r1)" by (cases "get_u8 d r")
  note m = moved_get(1) [OF get]
  show ?thesis using made_back [OF m blob_after_made [OF fresh_moved [OF assms(1) m] assms(2)]] by (simp add: get)
qed

lemma tagged_gives:
  assumes f: "parses d f" and inv: "reader_inv d r" and new: "add_mnode k ref r = (i, r1)" and k: "tag_kind t = Some k"
  shows "ok (gives_node d r) (parse_tagged d minor f t i r1)"
proof -
  note leaf = leaf_gives [OF inv new]
  have sized: "ok (gives_node d r) (parse_sized d i r1)" by (rule leaf) (rule sized_made)
  show ?thesis
  proof (cases "t = CHR ''s''")
    case True
    then show ?thesis using sized by (simp add: parse_tagged_def is_tag_def)
  next
    case False
    note nb = bytes_tag [OF k False] and part = container_gives [OF inv new bytes_tag [OF k False]]
    have 1: "ok (gives_node d r) (Some i, r1)" by (rule leaf) (simp add: unchanged_made nb)
    note 2 = leaf [OF int_made [OF _ nb]] leaf [OF blob_after_made [OF _ nb]] leaf [OF long_made [OF _ nb]]
      leaf [OF float_made [OF _ nb]] leaf [OF complex_made [OF _ nb]] leaf [OF short_made]
    note 3 = part [OF parse_seq_gives [OF f]] part [OF dict_gives [OF f]] part [OF seq_gives [OF f]] part [OF code_gives [OF f]]
    show ?thesis unfolding parse_tagged_def by (simp only: 1 2 3 sized if_split simp_thms)
  qed
qed

lemma body_parses:
  assumes f: "parses d f"
  shows "parses d (obj_body d minor f)"
  unfolding parses_def
proof (intro allI impI)
  fix r
  assume inv: "reader_inv d r"
  obtain tc r1 where get: "get_u8 d r = (tc, r1)" by (cases "get_u8 d r")
  have w1: "went_on d r r1" by (rule moved_went_on [OF inv moved_get(1) [OF get]])
  have ref: "ok (gives_node d r) (parse_ref d b p r1)" for b p
    by (rule ok_mono [OF ref_gives [OF went_on_inv [OF w1]]]) (rule gives_node_back [OF w1])
  have tagged: "ok (gives_node d r) (let (i, r) = add_mnode k b r1 in parse_tagged d minor f t i r)"
    if "tag_kind t = Some k" for k b t
  proof -
    obtain i r2 where new: "add_mnode k b r1 = (i, r2)" by (cases "add_mnode k b r1")
    have "ok (gives_node d r) (parse_tagged d minor f t i r2)"
      by (rule ok_mono [OF tagged_gives [OF f went_on_inv [OF w1] new that]]) (rule gives_node_back [OF w1])
    then show ?thesis by (simp add: new)
  qed
  show "ok (gives_node d r) (obj_body d minor f r)"
    unfolding obj_body_def ok_mthen ok_need get Let_def prod.case
    using ref tagged [unfolded Let_def] by (auto split: option.split)
qed

lemma obj_parses: "parses d (marshal_obj n d minor)"
  by (induction n) (simp_all add: body_parses, simp add: parses_def)

lemma start_reader_inv: "reader_inv d start_reader"
  by (simp add: reader_inv_def start_reader_def spans_def closed_store_def)

lemma read_gives: "read_marshal d minor = (Some root, r) \<Longrightarrow> reader_inv d r \<and> root < length (mr_store r)"
  using parsesD [OF obj_parses start_reader_inv, of d 501 minor] by (simp add: read_marshal_def gives_node_def went_on_def)

subsection \<open>The code ranges\<close>

definition apart :: "nat \<times> nat \<Rightarrow> nat \<times> nat \<Rightarrow> bool" where
  "apart a b \<longleftrightarrow> fst a + snd a \<le> fst b \<or> fst b + snd b \<le> fst a"

lemma spans_apart:
  assumes "sorted_wrt (\<lambda>a b. fst a + snd a \<le> fst b) xs" and "a \<in> set xs" "b \<in> set xs" "a \<noteq> b"
  shows "apart a b"
  using assms by (induction xs) (auto simp: apart_def)

lemma inv_ranges:
  assumes "reader_inv d r"
  shows "\<forall>x \<in> set (mr_ranges r). cr_offset x + cr_size x \<le> length d"
    and "i < length (mr_ranges r) \<Longrightarrow> j < length (mr_ranges r) \<Longrightarrow> i \<noteq> j \<Longrightarrow>
      apart (range_pair (mr_ranges r ! i)) (range_pair (mr_ranges r ! j))"
proof -
  have sub: "range_pair ` set (mr_ranges r) \<subseteq> set (spans (mr_store r))" using assms by (simp add: reader_inv_def)
  have "fst s + snd s \<le> length d" if "s \<in> set (spans (mr_store r))" for s
    using assms that by (auto simp: reader_inv_def)
  then show "\<forall>x \<in> set (mr_ranges r). cr_offset x + cr_size x \<le> length d" using sub by (force simp: range_pair_def)
  assume ij: "i < length (mr_ranges r)" "j < length (mr_ranges r)" "i \<noteq> j"
  then have "range_pair (mr_ranges r ! i) \<noteq> range_pair (mr_ranges r ! j)"
    using nth_eq_iff_index_eq [of "map range_pair (mr_ranges r)" i j] assms by (simp add: reader_inv_def)
  then show "apart (range_pair (mr_ranges r ! i)) (range_pair (mr_ranges r ! j))"
    using sub ij assms by (intro spans_apart [of "spans (mr_store r)"]) (auto simp: reader_inv_def)
qed

end
