(* ===== verification/PyMarshalCanon.thy ===== *)
theory PyMarshalCanon
  imports PyMarshalSafety "HOL-Library.Transitive_Closure_Table"
begin

section \<open>When the canonical form ends\<close>

text \<open>
  The canonical form marks a node that is on the path from the root, so cycles through tuples,
  lists, dictionaries and code objects end. The elements of a set are each written with a path of
  their own, so that they can be sorted: there the marks are lost. The form ends exactly when no set
  that the root leads to contains itself.
\<close>

subsection \<open>More fuel\<close>

definition refines :: "canon_fun \<Rightarrow> canon_fun \<Rightarrow> bool" where
  "refines f g \<longleftrightarrow> (\<forall>x s y. f x s = Some y \<longrightarrow> g x s = Some y)"

lemma refinesD: "refines f g \<Longrightarrow> f x s = Some y \<Longrightarrow> g x s = Some y"
  unfolding refines_def by blast

lemma list_refines: "refines f g \<Longrightarrow> canon_list f xs s = Some y \<Longrightarrow> canon_list g xs s = Some y"
  by (induction xs arbitrary: s) (auto dest: refinesD split: bind_splits)

lemma one_refines: "refines f g \<Longrightarrow> canon_one f x = Some y \<Longrightarrow> canon_one g x = Some y"
  by (auto simp: canon_one_def dest: refinesD)

lemma those_refines:
  "refines f g \<Longrightarrow> those (map (canon_one f) xs) = Some ys \<Longrightarrow> those (map (canon_one g) xs) = Some ys"
  by (induction xs arbitrary: ys) (auto dest: one_refines split: option.splits)

lemma unordered_refines: "refines f g \<Longrightarrow> canon_unordered f xs s = Some y \<Longrightarrow> canon_unordered g xs s = Some y"
  by (auto simp: canon_unordered_def dest: those_refines)

lemma content_refines: "refines f g \<Longrightarrow> canon_content f n s = Some y \<Longrightarrow> canon_content g n s = Some y"
  by (cases "no_kind n") (auto simp: canon_content_def dest: list_refines unordered_refines)

lemma body_refines: "refines f g \<Longrightarrow> refines (canon_body h f) (canon_body h g)"
  unfolding refines_def [of "canon_body h f"]
  by (auto simp: canon_body_def dest: content_refines split: option.splits if_splits)

lemma canon_refines_Suc: "refines (canon n h) (canon (Suc n) h)"
proof (induction n)
  case (Suc n)
  then show ?case using body_refines by simp
qed (simp add: refines_def)

lemma canon_more: "canon n h x s = Some y \<Longrightarrow> n \<le> m \<Longrightarrow> canon m h x s = Some y"
proof (induction m)
  case (Suc m)
  then show ?case using refinesD [OF canon_refines_Suc] by (cases "n = Suc m") auto
qed simp

subsection \<open>What is followed\<close>

definition set_kind :: "mkind \<Rightarrow> bool" where
  "set_kind k \<longleftrightarrow> k = KSet \<or> k = KFrozenSet"

text \<open>The pointers that the canonical form of a node follows, and those of its marked elements.\<close>

definition followed :: "mnode \<Rightarrow> nat option list" where
  "followed n =
     (case no_kind n of
        KTuple \<Rightarrow> map Some (no_seq n)
      | KList \<Rightarrow> map Some (no_seq n)
      | KSlice \<Rightarrow> map Some (no_seq n)
      | KSet \<Rightarrow> map Some (no_seq n)
      | KFrozenSet \<Rightarrow> map Some (no_seq n)
      | KDict \<Rightarrow> concat (map (\<lambda>(k, v). [Some k, Some v]) (no_dict n))
      | KCode \<Rightarrow> code_parts (no_code n)
      | _ \<Rightarrow> [])"

definition written_first :: "mnode \<Rightarrow> bytes" where
  "written_first n =
     (case no_kind n of
        KInt \<Rightarrow> put_u64 (word_of_int (no_int n)) @ put_blob (no_blob n)
      | KLong \<Rightarrow> put_u64 (word_of_int (no_int n)) @ put_blob (no_blob n)
      | KDict \<Rightarrow> put_size (length (no_dict n))
      | KCode \<Rightarrow> code_numbers (no_code n)
      | k \<Rightarrow> if k \<in> {KFloat, KComplex, KBytes, KString} then put_blob (no_blob n)
            else if k \<in> {KTuple, KList, KSlice} \<or> set_kind k then put_size (length (no_seq n)) else [])"

lemma content_ordered:
  "\<not> set_kind (no_kind n) \<Longrightarrow> canon_content f n s = canon_list f (followed n) (emit (written_first n) s)"
  by (cases "no_kind n") (simp_all add: canon_content_def followed_def written_first_def set_kind_def emit_def)

lemma content_set:
  "set_kind (no_kind n) \<Longrightarrow> canon_content f n s = canon_unordered f (no_seq n) (emit (written_first n) s)"
  by (auto simp: canon_content_def written_first_def set_kind_def)

lemma followed_set: "set_kind (no_kind n) \<Longrightarrow> followed n = map Some (no_seq n)"
  by (auto simp: followed_def set_kind_def)

lemma code_parts_nodes: "set (code_parts c) \<subseteq> set (code_nodes c)"
  by (auto simp: code_parts_def code_nodes_def)

lemma dict_parts: "Some c \<in> set (concat (map (\<lambda>(k, v). [Some k, Some v]) kvs)) \<Longrightarrow> c \<in> fst ` set kvs \<union> snd ` set kvs"
  by force

lemma followed_children: "Some c \<in> set (followed n) \<Longrightarrow> c \<in> children n"
  using code_parts_nodes [of "no_code n"] dict_parts [of c "no_dict n"]
  by (cases "no_kind n") (auto simp: followed_def children_def)

definition points :: "mnode list \<Rightarrow> nat \<Rightarrow> nat \<Rightarrow> bool" where
  "points h i c \<longleftrightarrow> i < length h \<and> Some c \<in> set (followed (h ! i))"

lemma points_in: "closed_store h \<Longrightarrow> points h i c \<Longrightarrow> c < length h"
  unfolding points_def closed_store_def by (blast dest: followed_children nth_mem)

definition contains_itself :: "mnode list \<Rightarrow> nat \<Rightarrow> bool" where
  "contains_itself h i \<longleftrightarrow> set_kind (no_kind (h ! i)) \<and> (points h)\<^sup>+\<^sup>+ i i"

text \<open>The marks of the path are left as they were.\<close>

definition keeps_acts :: "canon_fun \<Rightarrow> bool" where
  "keeps_acts f \<longleftrightarrow> (\<forall>x s y. f x s = Some y \<longrightarrow> snd y = snd s)"

lemma keepsD: "keeps_acts f \<Longrightarrow> f x s = Some y \<Longrightarrow> snd y = snd s"
  unfolding keeps_acts_def by blast

lemma list_acts: "keeps_acts f \<Longrightarrow> canon_list f xs s = Some y \<Longrightarrow> snd y = snd s"
proof (induction xs arbitrary: s)
  case (Cons x xs)
  then obtain t where "f x s = Some t" "canon_list f xs t = Some y" by (cases "f x s") auto
  then show ?case using Cons keepsD by metis
qed simp

lemma canon_keeps: "keeps_acts (canon n h)"
proof (induction n)
  case (Suc n)
  have "snd y = snd s" if run: "canon_body h (canon n h) x s = Some y" for x s y
  proof (cases "\<exists>i. x = Some i \<and> i \<notin> snd s")
    case True
    then obtain i where x: "x = Some i" "i \<notin> snd s" by blast
    let ?s = "(fst s @ [mkind_code (no_kind (h ! i))], insert i (snd s))"
    obtain z where z: "canon_content (canon n h) (h ! i) ?s = Some z" "snd y = snd z - {i}"
      using run x by (auto simp: canon_body_def)
    have "snd z = insert i (snd s)"
    proof (cases "set_kind (no_kind (h ! i))")
      case True
      then show ?thesis using z(1) by (auto simp: content_set canon_unordered_def emit_def)
    next
      case False
      then have "canon_list (canon n h) (followed (h ! i)) (emit (written_first (h ! i)) ?s) = Some z"
        using z(1) by (simp add: content_ordered)
      from list_acts [OF Suc.IH this] show ?thesis by (simp add: emit_def)
    qed
    then show ?thesis using z(2) x(2) by simp
  next
    case False
    then show ?thesis using run by (auto simp: canon_body_def emit_def split: option.splits if_splits)
  qed
  then show ?case by (simp add: keeps_acts_def)
qed (simp add: keeps_acts_def)

subsection \<open>A set that contains itself\<close>

lemma list_visits:
  "keeps_acts f \<Longrightarrow> canon_list f xs s = Some y \<Longrightarrow> x \<in> set xs \<Longrightarrow> \<exists>t. snd t = snd s \<and> f x t \<noteq> None"
proof (induction xs arbitrary: s)
  case (Cons a xs)
  then obtain t where t: "f a s = Some t" "canon_list f xs t = Some y" by (cases "f a s") auto
  show ?case
  proof (cases "x = a")
    case True
    then show ?thesis using t by blast
  next
    case False
    then show ?thesis using Cons t keepsD [OF Cons.prems(1) t(1)] by (metis set_ConsD)
  qed
qed simp

lemma those_all: "those (map g xs) = Some ys \<Longrightarrow> x \<in> set xs \<Longrightarrow> g x \<noteq> None"
  by (induction xs arbitrary: ys) (auto split: option.splits)

text \<open>A node that is written calls for each of its followed nodes, with these marks.\<close>

lemma canon_visits:
  assumes run: "canon (Suc n) h (Some i) s = Some y" and i: "i \<notin> snd s" and c: "points h i c"
  shows "\<exists>t. canon n h (Some c) t \<noteq> None \<and> snd t = (if set_kind (no_kind (h ! i)) then {} else insert i (snd s))"
proof -
  let ?s = "(fst s @ [mkind_code (no_kind (h ! i))], insert i (snd s))"
  obtain z where z: "canon_content (canon n h) (h ! i) ?s = Some z" using run i by (auto simp: canon_body_def)
  have c: "Some c \<in> set (followed (h ! i))" using c by (simp add: points_def)
  show ?thesis
  proof (cases "set_kind (no_kind (h ! i))")
    case True
    then have "c \<in> set (no_seq (h ! i))" using c by (auto simp: followed_set)
    moreover obtain bs where "those (map (canon_one (canon n h)) (no_seq (h ! i))) = Some bs"
      using z True by (auto simp: content_set canon_unordered_def)
    ultimately have "canon_one (canon n h) c \<noteq> None" by (rule those_all [rotated])
    then show ?thesis using True by (force simp: canon_one_def)
  next
    case False
    then have "canon_list (canon n h) (followed (h ! i)) (emit (written_first (h ! i)) ?s) = Some z"
      using z by (simp add: content_ordered)
    from list_visits [OF canon_keeps this c] show ?thesis using False by (auto simp: emit_def)
  qed
qed

lemma canon_descends:
  assumes "rtrancl_path (points h) c ps t" and "distinct (c # ps)" and "set (c # ps) \<inter> snd s = {}"
    and "canon n h (Some c) s = Some y"
  shows "\<exists>m s' y'. m \<le> n \<and> t \<notin> snd s' \<and> canon m h (Some t) s' = Some y'"
  using assms
proof (induction arbitrary: n s y rule: rtrancl_path.induct)
  case (base c)
  then show ?case by (intro exI [of _ n] exI [of _ s] exI [of _ y]) auto
next
  case (step c d ps t)
  obtain k where n: "n = Suc k" using step.prems(3) by (cases n) auto
  have "c \<notin> snd s" using step.prems(2) by simp
  from canon_visits [OF step.prems(3) [unfolded n] this step.hyps(1)]
  obtain s' where s': "canon k h (Some d) s' \<noteq> None"
      "snd s' = (if set_kind (no_kind (h ! c)) then {} else insert c (snd s))"
    by blast
  then have "set (d # ps) \<inter> snd s' = {}" using step.prems by auto
  then obtain m s'' y'' where "m \<le> k" "t \<notin> snd s''" "canon m h (Some t) s'' = Some y''"
    using step.IH [of s' k] step.prems(1) s'(1) by fastforce
  then show ?case using n le_SucI by blast
qed

lemma contains_itself_hangs:
  assumes "contains_itself h i"
  shows "i \<notin> snd s \<Longrightarrow> canon n h (Some i) s = None"
proof (induction n arbitrary: s rule: less_induct)
  case (less n)
  show ?case
  proof (rule ccontr)
    assume "canon n h (Some i) s \<noteq> None"
    then obtain y k where run: "canon n h (Some i) s = Some y" and n: "n = Suc k" by (cases n) auto
    obtain c where c: "points h i c" "(points h)\<^sup>*\<^sup>* c i" using assms by (metis contains_itself_def tranclpD)
    then obtain ps where ps: "rtrancl_path (points h) c ps i" "distinct (c # ps)"
      using rtrancl_path_distinct rtranclp_eq_rtrancl_path by metis
    have "\<exists>t. canon k h (Some c) t \<noteq> None \<and> snd t = {}"
      using canon_visits [OF run [unfolded n] less.prems c(1)] assms by (simp add: contains_itself_def)
    then obtain t where t: "canon k h (Some c) t \<noteq> None" "snd t = {}" by blast
    then obtain z where "canon k h (Some c) t = Some z" by auto
    from canon_descends [OF ps _ this] t(2) obtain m s' y' where "m \<le> k" "i \<notin> snd s'" "canon m h (Some i) s' = Some y'"
      by auto
    then show False using less.IH [of m s'] n by simp
  qed
qed

lemma reaches_hangs:
  assumes "(points h)\<^sup>*\<^sup>* root i" and "contains_itself h i"
  shows "canon n h (Some root) (out, {}) = None"
proof (rule ccontr)
  assume "canon n h (Some root) (out, {}) \<noteq> None"
  then obtain y where run: "canon n h (Some root) (out, {}) = Some y" by auto
  obtain ps where ps: "rtrancl_path (points h) root ps i" "distinct (root # ps)"
    using assms(1) rtrancl_path_distinct rtranclp_eq_rtrancl_path by metis
  from canon_descends [OF ps _ run] show False using contains_itself_hangs [OF assms(2)] by fastforce
qed

subsection \<open>No set that contains itself\<close>

definition rank_of :: "mnode list \<Rightarrow> nat \<Rightarrow> nat" where
  "rank_of h i = card {j. j < length h \<and> (points h)\<^sup>*\<^sup>* i j \<and> set_kind (no_kind (h ! j))}"

lemma rank_mono: "points h i c \<Longrightarrow> rank_of h c \<le> rank_of h i"
  unfolding rank_of_def by (rule card_mono) (auto intro: converse_rtranclp_into_rtranclp)

lemma rank_less:
  assumes "points h i c" and "set_kind (no_kind (h ! i))" and "\<not> contains_itself h i"
  shows "rank_of h c < rank_of h i"
  unfolding rank_of_def
proof (rule psubset_card_mono)
  let ?S = "\<lambda>x. {j. j < length h \<and> (points h)\<^sup>*\<^sup>* x j \<and> set_kind (no_kind (h ! j))}"
  have "i \<in> ?S i" using assms by (simp add: points_def)
  moreover have "i \<notin> ?S c" using assms rtranclp_into_tranclp2 [of "points h" i c i] by (auto simp: contains_itself_def)
  moreover have "?S c \<subseteq> ?S i" using assms(1) by (auto intro: converse_rtranclp_into_rtranclp)
  ultimately show "?S c \<subset> ?S i" by blast
qed simp

lemma list_returns:
  "keeps_acts f \<Longrightarrow> (\<And>x t. x \<in> set xs \<Longrightarrow> snd t = snd s \<Longrightarrow> f x t \<noteq> None) \<Longrightarrow> canon_list f xs s \<noteq> None"
proof (induction xs arbitrary: s)
  case (Cons x xs)
  obtain t where t: "f x s = Some t" using Cons.prems(2) [of x s] by auto
  have "canon_list f xs t \<noteq> None"
    by (rule Cons.IH [OF Cons.prems(1)]) (use Cons.prems(2) keepsD [OF Cons.prems(1) t] in simp)
  then show ?case using t by simp
qed simp

lemma those_returns: "(\<And>x. x \<in> set xs \<Longrightarrow> g x \<noteq> None) \<Longrightarrow> those (map g xs) \<noteq> None"
  by (induction xs) (auto split: option.split)

definition needed :: "mnode list \<Rightarrow> nat \<Rightarrow> nat set \<Rightarrow> nat" where
  "needed h i act = rank_of h i * (length h + 1) + (length h - card act) + 1"

lemma canon_returns:
  assumes h: "closed_store h"
  shows "i < length h \<Longrightarrow> snd s \<subseteq> {..<length h} \<Longrightarrow> (\<And>j. (points h)\<^sup>*\<^sup>* i j \<Longrightarrow> \<not> contains_itself h j) \<Longrightarrow>
    needed h i (snd s) \<le> n \<Longrightarrow> canon n h (Some i) s \<noteq> None"
proof (induction n arbitrary: i s)
  case (Suc n)
  show ?case
  proof (cases "i \<in> snd s")
    case False
    let ?s = "(fst s @ [mkind_code (no_kind (h ! i))], insert i (snd s))"
    have fin: "finite (snd s)" using Suc.prems(2) finite_subset by blast
    have "card (insert i (snd s)) \<le> length h"
      using card_mono [of "{..<length h}" "insert i (snd s)"] Suc.prems(1,2) by simp
    then have card: "card (insert i (snd s)) = card (snd s) + 1" "card (snd s) < length h" using False fin by simp_all
    have child: "canon n h (Some c) t \<noteq> None"
      if "points h i c" and t: "snd t = (if set_kind (no_kind (h ! i)) then {} else insert i (snd s))" for c t
    proof (rule Suc.IH)
      show "c < length h" by (rule points_in [OF h that(1)])
      show "snd t \<subseteq> {..<length h}" using t Suc.prems by auto
      show "\<not> contains_itself h j" if "(points h)\<^sup>*\<^sup>* c j" for j
        using Suc.prems(3) \<open>points h i c\<close> that by (meson converse_rtranclp_into_rtranclp)
      show "needed h c (snd t) \<le> n"
      proof (cases "set_kind (no_kind (h ! i))")
        case True
        have "rank_of h c < rank_of h i" by (rule rank_less [OF that(1) True]) (use Suc.prems(3) in blast)
        then have "(rank_of h c + 1) * (length h + 1) \<le> rank_of h i * (length h + 1)" by (intro mult_right_mono) simp_all
        then show ?thesis using Suc.prems(4) card t True by (simp add: needed_def)
      next
        case False
        have "rank_of h c * (length h + 1) \<le> rank_of h i * (length h + 1)"
          using rank_mono [OF that(1)] by (intro mult_right_mono) simp_all
        then show ?thesis using Suc.prems(4) card t False by (simp add: needed_def)
      qed
    qed
    have "canon_content (canon n h) (h ! i) ?s \<noteq> None"
    proof (cases "set_kind (no_kind (h ! i))")
      case True
      have "those (map (canon_one (canon n h)) (no_seq (h ! i))) \<noteq> None"
      proof (rule those_returns)
        fix c
        assume "c \<in> set (no_seq (h ! i))"
        then have "points h i c" using Suc.prems(1) True by (simp add: points_def followed_set)
        from child [OF this, of "([], {})"] True show "canon_one (canon n h) c \<noteq> None" by (simp add: canon_one_def)
      qed
      then show ?thesis using True by (auto simp: content_set canon_unordered_def)
    next
      case False
      have "canon_list (canon n h) (followed (h ! i)) (emit (written_first (h ! i)) ?s) \<noteq> None"
      proof (rule list_returns [OF canon_keeps])
        fix x and t :: canon_state
        assume x: "x \<in> set (followed (h ! i))" and t: "snd t = snd (emit (written_first (h ! i)) ?s)"
        have n: "n \<noteq> 0" using Suc.prems(4) card by (simp add: needed_def)
        show "canon n h x t \<noteq> None"
        proof (cases x)
          case None
          then show ?thesis using n by (cases n) (simp_all add: canon_body_def)
        next
          case (Some c)
          then have "points h i c" using x Suc.prems(1) by (simp add: points_def)
          from child [OF this] t False Some show ?thesis by (simp add: emit_def)
        qed
      qed
      then show ?thesis using False by (simp add: content_ordered)
    qed
    then show ?thesis using False by (auto simp: canon_body_def)
  qed (simp add: canon_body_def)
qed (simp add: needed_def)

subsection \<open>The hash\<close>

definition hashes_root :: "bytes \<Rightarrow> int \<Rightarrow> nat \<Rightarrow> mreader \<Rightarrow> bool" where
  "hashes_root d v root r \<longleftrightarrow>
     8 \<le> minor_from_version v \<and> minor_from_version v \<le> 14 \<and> read_marshal d (minor_from_version v) = (Some root, r) \<and>
     no_kind (mr_store r ! root) = KCode \<and> mr_pos r = length d"

lemma hash_of_root:
  assumes "hashes_root d v root r"
  shows "semantic_hash_python_marshal fuel d v =
    map_option (\<lambda>(c, _). (semantic_of (minor_from_version v) r)\<lparr>sm_sha256 := sha256_spec c, sm_valid := True\<rparr>)
      (canon fuel (mr_store r) (Some root) ([], {}))"
  using assms
  by (auto simp: hashes_root_def semantic_hash_python_marshal_def sha256.one_shot_ref split: bind_splits)

lemma hash_of_other:
  assumes "\<And>root r. \<not> hashes_root d v root r"
  shows "\<exists>s. \<forall>fuel. semantic_hash_python_marshal fuel d v = Some s"
proof (cases "minor_from_version v < 8 \<or> 14 < minor_from_version v")
  case True
  then show ?thesis by (auto simp: semantic_hash_python_marshal_def)
next
  case False
  obtain x r where x: "read_marshal d (minor_from_version v) = (x, r)" by (cases "read_marshal d (minor_from_version v)")
  then show ?thesis
    using False assms [of _ r] by (cases x) (auto simp: semantic_hash_python_marshal_def hashes_root_def Let_def)
qed

text \<open>
  C0: the semantic hash of a stream is computed, and more fuel does not change it, exactly when the
  stream is not a complete code object that leads to a set which contains itself. The depth limit of
  the parser, the bounds of its loops and the marks of the canonical form are enough for every other
  input.
\<close>

theorem marshal_hash_returns:
  "(\<exists>s enough. \<forall>more. semantic_hash_python_marshal (enough + more) d v = Some s) \<longleftrightarrow>
   \<not> (\<exists>root r i. hashes_root d v root r \<and> (points (mr_store r))\<^sup>*\<^sup>* root i \<and> contains_itself (mr_store r) i)"
proof (cases "\<exists>root r. hashes_root d v root r")
  case True
  then obtain root r where root: "hashes_root d v root r" by blast
  have one: "root' = root \<and> r' = r" if "hashes_root d v root' r'" for root' r'
    using root that by (simp add: hashes_root_def)
  have store: "closed_store (mr_store r)" "root < length (mr_store r)"
    using root read_gives unfolding hashes_root_def reader_inv_def by blast+
  show ?thesis
  proof (cases "\<exists>i. (points (mr_store r))\<^sup>*\<^sup>* root i \<and> contains_itself (mr_store r) i")
    case True
    then have "canon fuel (mr_store r) (Some root) ([], {}) = None" for fuel using reaches_hangs by blast
    then have "semantic_hash_python_marshal fuel d v = None" for fuel using hash_of_root [OF root] by simp
    then show ?thesis using True root by auto
  next
    case False
    have "canon (needed (mr_store r) root {}) (mr_store r) (Some root) ([], {}) \<noteq> None"
      by (rule canon_returns [OF store]) (use False in auto)
    then obtain c a where "canon (needed (mr_store r) root {}) (mr_store r) (Some root) ([], {}) = Some (c, a)" by auto
    then have "canon fuel (mr_store r) (Some root) ([], {}) = Some (c, a)" if "needed (mr_store r) root {} \<le> fuel" for fuel
      using canon_more that by blast
    then have "\<forall>fuel \<ge> needed (mr_store r) root {}. semantic_hash_python_marshal fuel d v =
        Some ((semantic_of (minor_from_version v) r)\<lparr>sm_sha256 := sha256_spec c, sm_valid := True\<rparr>)"
      using hash_of_root [OF root] by simp
    then have "\<exists>s enough. \<forall>more. semantic_hash_python_marshal (enough + more) d v = Some s" by (meson le_add1)
    then show ?thesis using False one by blast
  qed
next
  case False
  then show ?thesis using hash_of_other [of d v] by blast
qed

subsection \<open>A stream that is never hashed\<close>

definition zeros4 :: bytes where
  "zeros4 = [0, 0, 0, 0]"

text \<open>A code object of Python 3.8 whose constants are a set with one element: a reference to the set.\<close>

definition hung :: bytes where
  "hung = [0x63] @ concat (replicate 6 zeros4) @ [0x73] @ zeros4 @ [0xBC, 1, 0, 0, 0, 0x72] @ zeros4 @
     [0x29, 0, 0x29, 0, 0x29, 0, 0x29, 0, 0x7a, 0, 0x7a, 0] @ zeros4 @ [0x73] @ zeros4"

lemma minor_308 [simp]: "minor_from_version 308 = 8"
  by (simp add: minor_from_version_def)

text \<open>The samples nest three deep, so the rest of the depth limit is left symbolic.\<close>

lemma read_three: "read_marshal d minor = marshal_obj (Suc (Suc (Suc 498))) d minor start_reader"
  by (simp add: read_marshal_def)

lemma hung_reads:
  "case marshal_obj (Suc (Suc (Suc n))) hung 8 start_reader of (x, r) \<Rightarrow>
     x = Some 0 \<and> mr_pos r = length hung \<and> length (mr_store r) = 10 \<and> no_kind (mr_store r ! 0) = KCode \<and>
     cd_consts (no_code (mr_store r ! 0)) = Some 2 \<and> no_kind (mr_store r ! 2) = KSet \<and> no_seq (mr_store r ! 2) = [2]"
  by code_simp

text \<open>
  C0: a stream of 61 bytes is never hashed: the constants of its code object are a set whose only
  element is a reference to the set itself, and the canonical form follows it for ever.
\<close>

theorem marshal_hash_may_hang: "length hung = 61 \<and> (\<forall>fuel. semantic_hash_python_marshal fuel hung 308 = None)"
proof -
  obtain r where r: "read_marshal hung 8 = (Some 0, r)" "mr_pos r = length hung" "length (mr_store r) = 10"
      "no_kind (mr_store r ! 0) = KCode" "cd_consts (no_code (mr_store r ! 0)) = Some 2"
      "no_kind (mr_store r ! 2) = KSet" "no_seq (mr_store r ! 2) = [2]"
    using hung_reads [of 498] unfolding read_three by (auto split: prod.splits)
  then have "points (mr_store r) 0 2" "points (mr_store r) 2 2"
    by (simp_all add: points_def followed_def code_parts_def)
  then have "contains_itself (mr_store r) 2" using r(6) by (auto simp: contains_itself_def set_kind_def)
  then have "canon fuel (mr_store r) (Some 0) ([], {}) = None" for fuel
    using reaches_hangs [of "mr_store r" 0 2] \<open>points (mr_store r) 0 2\<close> by blast
  then have "semantic_hash_python_marshal fuel hung 308 = None" for fuel
    using hash_of_root [of hung 308 0 r] r by (simp add: hashes_root_def)
  moreover have "length hung = 61" by code_simp
  ultimately show ?thesis by blast
qed

end
