(* ===== verification/PyMarshalRewrite.thy ===== *)
theory PyMarshalRewrite
  imports PyMarshalCanon
begin

section \<open>Root code objects and opcode rewriting\<close>

text \<open>
  The operations of \<^verbatim>\<open>src/formats/python_marshal.cpp\<close> on a parsed stream: what the root code
  object holds, and the rewriting of the opcodes of every code object by a table. An opcode is the
  first byte of each two-byte unit of a code string. The table has one entry for each byte value;
  the handler table that gives the entries only has opcodes below 256
  (\<^verbatim>\<open>src/reference/cpython_opcode.cpp\<close>, \<open>validate_table\<close>).
\<close>

subsection \<open>The root code object\<close>

datatype marshal_scalar = OtherScalar | IntegerScalar int | StringScalar string

record root_code =
  rc_valid :: bool
  rc_minor :: int
  rc_offset :: nat
  rc_code :: bytes
  rc_constants :: "marshal_scalar list"
  rc_names :: "string list"
  rc_error :: "(string \<times> nat) option"

definition no_root :: "int \<Rightarrow> root_code" where
  "no_root minor =
     \<lparr>rc_valid = False, rc_minor = minor, rc_offset = 0, rc_code = [], rc_constants = [], rc_names = [], rc_error = None\<rparr>"

definition scalar_of :: "mnode \<Rightarrow> marshal_scalar" where
  "scalar_of n =
     (if no_kind n = KInt then IntegerScalar (no_int n)
      else if no_kind n = KString then StringScalar (blob_string (no_blob n)) else OtherScalar)"

definition part_of_kind :: "mnode list \<Rightarrow> mkind \<Rightarrow> nat option \<Rightarrow> mnode option" where
  "part_of_kind h k x =
     (case x of None \<Rightarrow> None | Some i \<Rightarrow> if no_kind (h ! i) = k then Some (h ! i) else None)"

definition root_parts :: "mnode list \<Rightarrow> code_data \<Rightarrow> root_code \<Rightarrow> root_code" where
  "root_parts h c out =
     (let refuse = (\<lambda>s. out\<lparr>rc_error := Some (s, 0)\<rparr>) in
      case part_of_kind h KBytes (cd_code c) of
        None \<Rightarrow> refuse ''root code object lacks bytecode bytes''
      | Some code \<Rightarrow>
      case part_of_kind h KTuple (cd_consts c) of
        None \<Rightarrow> refuse ''root code object co_consts is not a tuple''
      | Some consts \<Rightarrow>
      case part_of_kind h KTuple (cd_names c) of
        None \<Rightarrow> refuse ''root code object co_names is not a tuple''
      | Some names \<Rightarrow>
          let placed = out\<lparr>rc_offset := no_offset code\<rparr> in
          if list_ex (\<lambda>i. no_kind (h ! i) \<noteq> KString) (no_seq names)
          then placed\<lparr>rc_error := Some (''root code object co_names contains a non-string entry'', 0)\<rparr>
          else placed\<lparr>rc_code := no_blob code, rc_constants := map (\<lambda>i. scalar_of (h ! i)) (no_seq consts),
                 rc_names := map (\<lambda>i. blob_string (no_blob (h ! i))) (no_seq names), rc_valid := True\<rparr>)"

definition inspect_python_marshal_root_code :: "bytes \<Rightarrow> int \<Rightarrow> root_code" where
  "inspect_python_marshal_root_code d version =
     (let minor = minor_from_version version; out = no_root minor in
      if minor < 8 \<or> 14 < minor then out\<lparr>rc_error := Some (''marshal root inspection supports Python 3.8-3.14'', 0)\<rparr>
      else case read_marshal d minor of
        (None, r) \<Rightarrow> out\<lparr>rc_error := mr_error r\<rparr>
      | (Some root, r) \<Rightarrow>
          if no_kind (mr_store r ! root) \<noteq> KCode then out\<lparr>rc_error := Some (''marshal root is not a code object'', 0)\<rparr>
          else if mr_pos r \<noteq> length d
          then out\<lparr>rc_error := Some (''trailing bytes after root marshal object'', mr_pos r)\<rparr>
          else root_parts (mr_store r) (no_code (mr_store r ! root)) out)"

subsection \<open>Rewriting opcodes\<close>

type_synonym opcode_map = "int list"

record rewriting =
  rw_bytes :: bytes
  rw_units :: nat
  rw_rewritten :: nat
  rw_unmapped :: "byte set"

definition remap_unit :: "opcode_map \<Rightarrow> nat \<Rightarrow> rewriting \<Rightarrow> rewriting" where
  "remap_unit m off s =
     (let op = rw_bytes s ! off; mapped = m ! unat op; s = s\<lparr>rw_units := rw_units s + 1\<rparr> in
      if mapped < 0 \<or> 255 < mapped then s\<lparr>rw_unmapped := insert op (rw_unmapped s)\<rparr>
      else if mapped \<noteq> uint op
      then s\<lparr>rw_bytes := (rw_bytes s)[off := word_of_int mapped], rw_rewritten := rw_rewritten s + 1\<rparr>
      else s)"

definition range_units :: "code_range \<Rightarrow> nat list" where
  "range_units x = map (\<lambda>i. cr_offset x + 2 * i) [0..<cr_size x div 2]"

text \<open>The ranges in order; one that is refused ends the pass with its error.\<close>

fun remap_ranges :: "opcode_map \<Rightarrow> nat \<Rightarrow> code_range list \<Rightarrow> rewriting \<Rightarrow> string option \<times> rewriting" where
  "remap_ranges m len [] s = (None, s)"
| "remap_ranges m len (x # xs) s =
     (if odd (cr_size x) then (Some (''co_code payload size is not 2-byte aligned for code object '' @ cr_name x), s)
      else if len < cr_offset x \<or> len - cr_offset x < cr_size x then (Some ''co_code payload range exceeds marshal input'', s)
      else remap_ranges m len xs (fold (remap_unit m) (range_units x) s))"

record opcode_rewrite =
  ow_valid :: bool
  ow_changed :: bool
  ow_minor :: int
  ow_codes :: nat
  ow_units :: nat
  ow_rewritten :: nat
  ow_unmapped :: "nat list"
  ow_bytes :: bytes
  ow_error :: string

definition no_rewrite :: "int \<Rightarrow> opcode_rewrite" where
  "no_rewrite minor =
     \<lparr>ow_valid = False, ow_changed = False, ow_minor = minor, ow_codes = 0, ow_units = 0, ow_rewritten = 0,
      ow_unmapped = [], ow_bytes = [], ow_error = []\<rparr>"

definition layout_error :: "(string \<times> nat) option \<Rightarrow> string" where
  "layout_error e =
     (case e of
        None \<Rightarrow> ''marshal layout parse failed at +0x'' @ to_hex 0 @ '': ''
      | Some (s, p) \<Rightarrow> ''marshal layout parse failed at +0x'' @ to_hex p @ '': '' @ s)"

definition unmapped_error :: "nat list \<Rightarrow> string" where
  "unmapped_error ops =
     ''unmapped opcode(s) used in serialized co_code:'' @ concat (map (\<lambda>op. '' '' @ to_dec op) ops)"

definition remap_python_marshal_opcodes :: "nat \<Rightarrow> bytes \<Rightarrow> int \<Rightarrow> opcode_map \<Rightarrow> opcode_rewrite option" where
  "remap_python_marshal_opcodes fuel d version m =
     do {
       layout \<leftarrow> semantic_hash_python_marshal fuel d version;
       let out = no_rewrite (minor_from_version version);
       if \<not> sm_valid layout then Some (out\<lparr>ow_error := layout_error (sm_error layout)\<rparr>)
       else case remap_ranges m (length d) (sm_ranges layout) \<lparr>rw_bytes = d, rw_units = 0, rw_rewritten = 0, rw_unmapped = {}\<rparr> of
         (err, s) \<Rightarrow>
           let out = out\<lparr>ow_codes := sm_codes layout, ow_units := rw_units s, ow_rewritten := rw_rewritten s\<rparr> in
           case err of
             Some e \<Rightarrow> Some (out\<lparr>ow_error := e\<rparr>)
           | None \<Rightarrow>
               let ops = sorted_list_of_set (unat ` rw_unmapped s) in
               if ops \<noteq> [] then Some (out\<lparr>ow_unmapped := ops, ow_error := unmapped_error ops\<rparr>)
               else do {
                 verify \<leftarrow> semantic_hash_python_marshal fuel (rw_bytes s) version;
                 if \<not> sm_valid verify \<or> sm_codes verify \<noteq> sm_codes layout \<or> length (sm_ranges verify) \<noteq> length (sm_ranges layout)
                 then Some (out\<lparr>ow_error := ''normalized marshal failed structural re-parse''\<rparr>)
                 else Some (out\<lparr>ow_bytes := rw_bytes s, ow_changed := rw_rewritten s \<noteq> 0, ow_valid := True\<rparr>)
               }
     }"

text \<open>The table that a recovered dispatch gives.\<close>

record opcode_mapping =
  om_target :: "16 word"
  om_state :: string
  om_references :: "16 word list"

record dispatch_info =
  di_status :: string
  di_mappings :: "opcode_mapping list"

definition map_opcode :: "opcode_mapping \<Rightarrow> opcode_map \<Rightarrow> opcode_map" where
  "map_opcode om m =
     (let t = unat (om_target om) in
      if om_state om \<in> {''SLOT_MATCH'', ''SEMANTIC_SLOT_MATCH''} then m[t := sint (om_target om)]
      else if om_state om \<in> {''PERMUTED'', ''SEMANTIC_PERMUTED''} \<and> length (om_references om) = 1
      then m[t := sint (hd (om_references om))]
      else m)"

definition normalize_python_marshal_opcodes :: "nat \<Rightarrow> bytes \<Rightarrow> int \<Rightarrow> dispatch_info \<Rightarrow> opcode_rewrite option" where
  "normalize_python_marshal_opcodes fuel d version dispatch =
     (if di_status dispatch = ''REFERENCE_MATCH''
      then remap_python_marshal_opcodes fuel d version (map int [0..<256])
      else if di_status dispatch \<noteq> ''OPCODE_PERMUTATION''
      then Some ((no_rewrite (minor_from_version version))\<lparr>ow_error := ''dispatch is not a pure, validated opcode permutation''\<rparr>)
      else remap_python_marshal_opcodes fuel d version (fold map_opcode (di_mappings dispatch) (replicate 256 (-1))))"

subsection \<open>What a pass does\<close>

definition maps_byte :: "opcode_map \<Rightarrow> byte \<Rightarrow> bool" where
  "maps_byte m b \<longleftrightarrow> 0 \<le> m ! unat b \<and> m ! unat b \<le> 255"

definition new_opcode :: "opcode_map \<Rightarrow> byte \<Rightarrow> byte" where
  "new_opcode m b = (if maps_byte m b then word_of_int (m ! unat b) else b)"

lemma new_opcode_same: "maps_byte m b \<Longrightarrow> new_opcode m b = b \<longleftrightarrow> m ! unat b = uint b"
  by (auto simp: new_opcode_def maps_byte_def word_uint_eq_iff uint_word_of_int take_bit_int_eq_self)

lemma remap_unit_eq:
  "remap_unit m off s =
     (let b = rw_bytes s ! off in
      s\<lparr>rw_bytes := (rw_bytes s)[off := new_opcode m b], rw_units := rw_units s + 1,
        rw_rewritten := rw_rewritten s + (if new_opcode m b = b then 0 else 1),
        rw_unmapped := (if maps_byte m b then rw_unmapped s else insert b (rw_unmapped s))\<rparr>)"
proof (cases "maps_byte m (rw_bytes s ! off)")
  case True
  then have "\<not> (m ! unat (rw_bytes s ! off) < 0 \<or> 255 < m ! unat (rw_bytes s ! off))" by (simp add: maps_byte_def)
  then show ?thesis using True new_opcode_same [OF True]
    by (auto simp: remap_unit_def Let_def new_opcode_def)
next
  case False
  then have "m ! unat (rw_bytes s ! off) < 0 \<or> 255 < m ! unat (rw_bytes s ! off)" by (auto simp: maps_byte_def)
  then show ?thesis using False by (simp add: remap_unit_def Let_def new_opcode_def)
qed

text \<open>The state after units at the positions ps were rewritten.\<close>

definition after_pass :: "opcode_map \<Rightarrow> nat list \<Rightarrow> rewriting \<Rightarrow> rewriting \<Rightarrow> bool" where
  "after_pass m ps s s' \<longleftrightarrow>
     length (rw_bytes s') = length (rw_bytes s) \<and>
     (\<forall>p < length (rw_bytes s). rw_bytes s' ! p = (if p \<in> set ps then new_opcode m (rw_bytes s ! p) else rw_bytes s ! p)) \<and>
     rw_units s' = rw_units s + length ps \<and>
     rw_rewritten s' = rw_rewritten s + length (filter (\<lambda>p. new_opcode m (rw_bytes s ! p) \<noteq> rw_bytes s ! p) ps) \<and>
     rw_unmapped s' = rw_unmapped s \<union> {b. \<exists>p \<in> set ps. b = rw_bytes s ! p \<and> \<not> maps_byte m b}"

lemma after_unit: "q < length (rw_bytes s) \<Longrightarrow> after_pass m [q] s (remap_unit m q s)"
  by (auto simp: after_pass_def remap_unit_eq Let_def nth_list_update)

lemma after_trans:
  assumes p: "after_pass m ps s s'" and q: "after_pass m qs s' s''" and "set ps \<inter> set qs = {}"
    and qs: "\<forall>q \<in> set qs. q < length (rw_bytes s)"
  shows "after_pass m (ps @ qs) s s''"
proof -
  have same: "rw_bytes s' ! p = rw_bytes s ! p" if "p \<in> set qs" for p using that assms by (auto simp: after_pass_def)
  have f: "filter (\<lambda>p. new_opcode m (rw_bytes s' ! p) \<noteq> rw_bytes s' ! p) qs = filter (\<lambda>p. new_opcode m (rw_bytes s ! p) \<noteq> rw_bytes s ! p) qs"
    using same by (auto intro: filter_cong)
  have u: "{b. \<exists>p \<in> set qs. b = rw_bytes s' ! p \<and> \<not> maps_byte m b} = {b. \<exists>p \<in> set qs. b = rw_bytes s ! p \<and> \<not> maps_byte m b}"
    using same by auto
  show ?thesis
    unfolding after_pass_def
  proof (intro conjI)
    show "\<forall>p<length (rw_bytes s). rw_bytes s'' ! p = (if p \<in> set (ps @ qs) then new_opcode m (rw_bytes s ! p) else rw_bytes s ! p)"
      using p q same by (auto simp: after_pass_def)
    show "rw_unmapped s'' = rw_unmapped s \<union> {b. \<exists>p\<in>set (ps @ qs). b = rw_bytes s ! p \<and> \<not> maps_byte m b}"
      using p q unfolding after_pass_def u by auto
  qed (use p q f in \<open>simp_all add: after_pass_def\<close>)
qed

lemma after_fold:
  "distinct ps \<Longrightarrow> \<forall>p \<in> set ps. p < length (rw_bytes s) \<Longrightarrow> after_pass m ps s (fold (remap_unit m) ps s)"
proof (induction ps arbitrary: s)
  case (Cons q ps)
  have one: "after_pass m [q] s (remap_unit m q s)" by (rule after_unit) (use Cons.prems in simp)
  then have "length (rw_bytes (remap_unit m q s)) = length (rw_bytes s)" by (simp add: after_pass_def)
  then have "after_pass m ps (remap_unit m q s) (fold (remap_unit m) ps (remap_unit m q s))"
    by (intro Cons.IH) (use Cons.prems in auto)
  from after_trans [OF one this] Cons.prems show ?case by simp
qed (simp add: after_pass_def)

text \<open>The units of disjoint ranges are distinct.\<close>

lemma units_in_range: "p \<in> set (range_units x) \<Longrightarrow> cr_offset x \<le> p \<and> p < cr_offset x + cr_size x"
  by (auto simp: range_units_def)

lemma units_distinct: "distinct (range_units x)"
  by (simp add: range_units_def distinct_map inj_on_def)

definition ranges_apart :: "code_range list \<Rightarrow> bool" where
  "ranges_apart xs \<longleftrightarrow> (\<forall>i j. i < length xs \<longrightarrow> j < length xs \<longrightarrow> i \<noteq> j \<longrightarrow> apart (range_pair (xs ! i)) (range_pair (xs ! j)))"

lemma ranges_apart_Cons: "ranges_apart (x # xs) \<Longrightarrow> ranges_apart xs \<and> (\<forall>y \<in> set xs. apart (range_pair x) (range_pair y))"
proof
  assume a: "ranges_apart (x # xs)"
  then show "ranges_apart xs" unfolding ranges_apart_def by (metis Suc_less_eq length_Cons nat.inject nth_Cons_Suc)
  show "\<forall>y \<in> set xs. apart (range_pair x) (range_pair y)"
    using a unfolding ranges_apart_def by (metis Suc_less_eq Zero_not_Suc in_set_conv_nth length_Cons nth_Cons_0 nth_Cons_Suc zero_less_Suc)
qed

lemma apart_units:
  assumes "apart (range_pair x) (range_pair y)"
  shows "set (range_units x) \<inter> set (range_units y) = {}"
proof -
  have "False" if "p \<in> set (range_units x)" "p \<in> set (range_units y)" for p
    using units_in_range [OF that(1)] units_in_range [OF that(2)] assms by (auto simp: apart_def range_pair_def)
  then show ?thesis by auto
qed

lemma ranges_pass:
  assumes "remap_ranges m len xs s = (None, s')" and "ranges_apart xs" and "length (rw_bytes s) = len"
  shows "after_pass m (concat (map range_units xs)) s s' \<and> distinct (concat (map range_units xs)) \<and>
    (\<forall>x \<in> set xs. even (cr_size x) \<and> cr_offset x + cr_size x \<le> len)"
  using assms
proof (induction xs arbitrary: s)
  case (Cons x xs)
  let ?t = "fold (remap_unit m) (range_units x) s"
  have go: "even (cr_size x)" "cr_offset x + cr_size x \<le> len" "remap_ranges m len xs ?t = (None, s')"
    using Cons.prems(1) by (auto split: if_splits)
  have one: "after_pass m (range_units x) s ?t"
    by (rule after_fold [OF units_distinct]) (use units_in_range go(2) Cons.prems(3) in fastforce)
  then have len: "length (rw_bytes ?t) = len" using Cons.prems(3) by (simp add: after_pass_def)
  note split = ranges_apart_Cons [OF Cons.prems(2)]
  note ih = Cons.IH [OF go(3) conjunct1 [OF split] len]
  have apart: "set (range_units x) \<inter> set (concat (map range_units xs)) = {}" using split apart_units by fastforce
  have inside: "\<forall>q \<in> set (concat (map range_units xs)). q < length (rw_bytes s)"
    using ih units_in_range Cons.prems(3) by fastforce
  show ?case using after_trans [OF one conjunct1 [OF ih] apart inside] ih go apart units_distinct by auto
qed (simp add: after_pass_def)

text \<open>The positions of opcodes.\<close>

definition opcode_positions :: "code_range list \<Rightarrow> nat set" where
  "opcode_positions xs = {cr_offset x + 2 * i | x i. x \<in> set xs \<and> 2 * i < cr_size x}"

lemma positions_units:
  assumes "\<forall>x \<in> set xs. even (cr_size x)"
  shows "set (concat (map range_units xs)) = opcode_positions xs"
proof -
  have "set (range_units x) = {cr_offset x + 2 * i | i. 2 * i < cr_size x}" if "x \<in> set xs" for x
  proof -
    obtain k where "cr_size x = 2 * k" using assms \<open>x \<in> set xs\<close> by blast
    then show ?thesis by (auto simp: range_units_def)
  qed
  then show ?thesis by (auto simp: opcode_positions_def)
qed

lemma hash_valid:
  assumes "semantic_hash_python_marshal fuel d v = Some s" and "sm_valid s"
  shows "\<exists>root r. read_marshal d (minor_from_version v) = (Some root, r) \<and> no_kind (mr_store r ! root) = KCode \<and>
    mr_pos r = length d \<and> sm_ranges s = mr_ranges r \<and> sm_codes s = mr_codes r \<and> reader_inv d r"
proof -
  obtain x r where r: "read_marshal d (minor_from_version v) = (x, r)" by (cases "read_marshal d (minor_from_version v)")
  show ?thesis
    using assms r read_gives [of d "minor_from_version v" _ r]
    by (cases x) (auto simp: semantic_hash_python_marshal_def Let_def semantic_of_def split: if_splits bind_splits)
qed

lemma hash_ranges:
  assumes "semantic_hash_python_marshal fuel d v = Some s" and "sm_valid s"
  shows "ranges_apart (sm_ranges s)" "\<forall>x \<in> set (sm_ranges s). cr_offset x + cr_size x \<le> length d"
  using hash_valid [OF assms] inv_ranges by (auto simp: ranges_apart_def)

lemma remap_valid:
  assumes "remap_python_marshal_opcodes fuel d v m = Some w" and "ow_valid w"
  obtains s t where "semantic_hash_python_marshal fuel d v = Some s" "sm_valid s"
    "remap_ranges m (length d) (sm_ranges s) \<lparr>rw_bytes = d, rw_units = 0, rw_rewritten = 0, rw_unmapped = {}\<rparr> = (None, t)"
    "sorted_list_of_set (unat ` rw_unmapped t) = []" "ow_bytes w = rw_bytes t" "ow_units w = rw_units t"
    "ow_rewritten w = rw_rewritten t" "ow_changed w = (rw_rewritten t \<noteq> 0)"
  using assms
  by (auto simp: remap_python_marshal_opcodes_def Let_def no_rewrite_def split: bind_splits if_splits option.splits prod.splits)

text \<open>
  C0: a rewrite that succeeds changes exactly the opcodes. The output has the length of the input;
  at the opcode positions of the code ranges of the input stands what the table gives for the
  opcode that was there, each of them exactly once although the ranges were found by following
  shared objects; every other byte is unchanged; every opcode used has an entry between 0 and 255;
  and the counters are the numbers of opcode positions and of positions that changed.
\<close>

theorem marshal_remap_exact:
  assumes "remap_python_marshal_opcodes fuel d v m = Some w" and "ow_valid w"
  shows "\<exists>s. semantic_hash_python_marshal fuel d v = Some s \<and> sm_valid s \<and>
    (let ops = opcode_positions (sm_ranges s) in
      ops \<subseteq> {..<length d} \<and> length (ow_bytes w) = length d \<and>
      (\<forall>p < length d. ow_bytes w ! p = (if p \<in> ops then word_of_int (m ! unat (d ! p)) else d ! p)) \<and>
      (\<forall>p \<in> ops. 0 \<le> m ! unat (d ! p) \<and> m ! unat (d ! p) \<le> 255) \<and>
      ow_units w = card ops \<and> ow_rewritten w = card {p \<in> ops. ow_bytes w ! p \<noteq> d ! p} \<and>
      (ow_changed w \<longleftrightarrow> ow_bytes w \<noteq> d))"
proof -
  obtain s t where s: "semantic_hash_python_marshal fuel d v = Some s" "sm_valid s"
    and run: "remap_ranges m (length d) (sm_ranges s) \<lparr>rw_bytes = d, rw_units = 0, rw_rewritten = 0, rw_unmapped = {}\<rparr> = (None, t)"
    and none: "sorted_list_of_set (unat ` rw_unmapped t) = []"
    and w: "ow_bytes w = rw_bytes t" "ow_units w = rw_units t" "ow_rewritten w = rw_rewritten t" "ow_changed w = (rw_rewritten t \<noteq> 0)"
    using remap_valid [OF assms] by blast
  define ps where "ps = concat (map range_units (sm_ranges s))"
  define ops where "ops = opcode_positions (sm_ranges s)"
  have pass: "after_pass m ps \<lparr>rw_bytes = d, rw_units = 0, rw_rewritten = 0, rw_unmapped = {}\<rparr> t" and ps: "distinct ps"
    and r: "\<forall>x \<in> set (sm_ranges s). even (cr_size x) \<and> cr_offset x + cr_size x \<le> length d"
    using ranges_pass [OF run hash_ranges(1) [OF s]] by (simp_all add: ps_def)
  have ops: "set ps = ops" using positions_units r by (simp add: ps_def ops_def)
  have inside: "ops \<subseteq> {..<length d}" using r by (fastforce simp: ops_def opcode_positions_def)
  have "finite (unat ` rw_unmapped t)" by simp
  then have "rw_unmapped t = {}" using none by (metis image_is_empty sorted_list_of_set_eq_Nil_iff)
  then have maps: "\<forall>p \<in> ops. maps_byte m (d ! p)" using pass ops by (auto simp: after_pass_def)
  have bytes: "\<forall>p < length d. ow_bytes w ! p = (if p \<in> ops then new_opcode m (d ! p) else d ! p)" "length (ow_bytes w) = length d"
    using pass ops w by (simp_all add: after_pass_def)
  have count: "ow_rewritten w = card {p \<in> ops. ow_bytes w ! p \<noteq> d ! p}"
  proof -
    have "ow_rewritten w = length (filter (\<lambda>p. new_opcode m (d ! p) \<noteq> d ! p) ps)" using pass w by (simp add: after_pass_def)
    also have "\<dots> = card {p \<in> ops. new_opcode m (d ! p) \<noteq> d ! p}"
      using distinct_card [OF distinct_filter [OF ps], of "\<lambda>p. new_opcode m (d ! p) \<noteq> d ! p"] ops by simp
    also have "{p \<in> ops. new_opcode m (d ! p) \<noteq> d ! p} = {p \<in> ops. ow_bytes w ! p \<noteq> d ! p}"
      using bytes inside by auto
    finally show ?thesis .
  qed
  have "{p \<in> ops. ow_bytes w ! p \<noteq> d ! p} = {} \<longleftrightarrow> ow_bytes w = d"
    using bytes inside by (auto simp: list_eq_iff_nth_eq split: if_splits)
  moreover have "finite ops" using ops by blast
  ultimately have "ow_rewritten w = 0 \<longleftrightarrow> ow_bytes w = d" unfolding count by (subst card_0_eq) simp_all
  moreover have "ow_changed w \<longleftrightarrow> ow_rewritten w \<noteq> 0" using w by simp
  ultimately have "ow_changed w \<longleftrightarrow> ow_bytes w \<noteq> d" by blast
  moreover have "ow_units w = card ops"
    using pass w(2) distinct_card [OF ps] unfolding ops after_pass_def by simp
  ultimately show ?thesis
    using inside bytes maps count
    by (intro exI [of _ s] conjI s) (simp add: ops_def [symmetric] Let_def new_opcode_def maps_byte_def)
qed

subsection \<open>A sample\<close>

text \<open>A code object with one instruction, whose opcode is b and whose operand is 0.\<close>

definition tame_head :: "byte \<Rightarrow> bytes" where
  "tame_head b = [0x63] @ concat (replicate 6 zeros4) @ [0x73, 2, 0, 0, 0, b, 0] @
     [0x29, 0, 0x29, 0, 0x29, 0, 0x29, 0, 0x29, 0, 0x7a, 0, 0x7a, 0] @ zeros4 @ [0x73]"

definition tame :: "byte \<Rightarrow> bytes" where
  "tame b = tame_head b @ zeros4"

definition tame_range :: code_range where
  "tame_range = \<lparr>cr_offset = 30, cr_size = 2, cr_name = [], cr_filename = [], cr_qualname = [], cr_line = 0\<rparr>"

definition parses_tame :: "bytes \<Rightarrow> nat parsed \<Rightarrow> bool" where
  "parses_tame d m \<longleftrightarrow> (case m of (x, r) \<Rightarrow>
     x = Some 0 \<and> mr_pos r = length d \<and> no_kind (mr_store r ! 0) = KCode \<and>
     list_all (\<lambda>n. \<not> set_kind (no_kind n)) (mr_store r) \<and> mr_ranges r = [tame_range] \<and> mr_codes r = 1)"

lemma tame_reads: "parses_tame (tame b) (marshal_obj (Suc (Suc (Suc n))) (tame b) 8 start_reader)"
  by code_simp

lemma tame_hash:
  assumes "parses_tame d (marshal_obj (Suc (Suc (Suc 498))) d 8 start_reader)"
  shows "\<exists>s enough. sm_valid s \<and> sm_ranges s = [tame_range] \<and> sm_codes s = 1 \<and>
    sm_error s = mr_error (snd (read_marshal d 8)) \<and>
    (\<forall>fuel \<ge> enough. semantic_hash_python_marshal fuel d 308 = Some s)"
proof -
  obtain r where r: "read_marshal d 8 = (Some 0, r)" "mr_pos r = length d" "no_kind (mr_store r ! 0) = KCode"
      "list_all (\<lambda>n. \<not> set_kind (no_kind n)) (mr_store r)" "mr_ranges r = [tame_range]" "mr_codes r = 1"
    using assms unfolding read_three parses_tame_def by (auto split: prod.splits)
  have root: "hashes_root d 308 0 r" using r by (simp add: hashes_root_def)
  have none: "\<not> contains_itself (mr_store r) i" for i
  proof
    assume "contains_itself (mr_store r) i"
    moreover from this have "i < length (mr_store r)" by (auto simp: contains_itself_def points_def dest: tranclpD)
    ultimately show False using r(4) by (simp add: contains_itself_def list_all_length)
  qed
  have store: "closed_store (mr_store r)" "0 < length (mr_store r)" using read_gives [OF r(1)] by (simp_all add: reader_inv_def)
  have "canon (needed (mr_store r) 0 {}) (mr_store r) (Some 0) ([], {}) \<noteq> None"
    by (rule canon_returns [OF store]) (use none in auto)
  then obtain c a where "canon (needed (mr_store r) 0 {}) (mr_store r) (Some 0) ([], {}) = Some (c, a)" by auto
  then have "canon fuel (mr_store r) (Some 0) ([], {}) = Some (c, a)" if "needed (mr_store r) 0 {} \<le> fuel" for fuel
    using canon_more that by blast
  then show ?thesis using hash_of_root [OF root] r
    by (intro exI [of _ "(semantic_of 8 r)\<lparr>sm_sha256 := sha256_spec c, sm_valid := True\<rparr>"] exI [of _ "needed (mr_store r) 0 {}"])
      (simp add: semantic_of_def)
qed

definition tame_map :: opcode_map where
  "tame_map = (map int [0..<256])[9 := 100]"

lemma tame_rewrite:
  "remap_ranges tame_map (length (tame 9)) [tame_range] \<lparr>rw_bytes = tame 9, rw_units = 0, rw_rewritten = 0, rw_unmapped = {}\<rparr> =
     (None, \<lparr>rw_bytes = tame 100, rw_units = 1, rw_rewritten = 1, rw_unmapped = {}\<rparr>)"
  by code_simp

theorem marshal_remap_exact_witness:
  "\<exists>fuel w. remap_python_marshal_opcodes fuel (tame 9) 308 tame_map = Some w \<and> ow_valid w \<and> ow_bytes w = tame 100 \<and>
    (\<exists>s. semantic_hash_python_marshal fuel (tame 9) 308 = Some s \<and> ow_units w = card (opcode_positions (sm_ranges s)))"
proof -
  obtain s e where s: "sm_valid s" "sm_ranges s = [tame_range]" "sm_codes s = 1"
      "\<And>fuel. e \<le> fuel \<Longrightarrow> semantic_hash_python_marshal fuel (tame 9) 308 = Some s"
    using tame_hash [OF tame_reads] by blast
  obtain s' e' where s': "sm_valid s'" "sm_ranges s' = [tame_range]" "sm_codes s' = 1"
      "\<And>fuel. e' \<le> fuel \<Longrightarrow> semantic_hash_python_marshal fuel (tame 100) 308 = Some s'"
    using tame_hash [OF tame_reads] by blast
  define fuel where "fuel = max e e'"
  obtain w where w: "remap_python_marshal_opcodes fuel (tame 9) 308 tame_map = Some w" "ow_valid w" "ow_bytes w = tame 100"
    using s s' s(4) [of fuel] s'(4) [of fuel] tame_rewrite
    by (simp add: remap_python_marshal_opcodes_def Let_def fuel_def)
  from marshal_remap_exact [OF w(1,2)] w show ?thesis by (metis (mono_tags))
qed

lemma cut_reads: "parses_tame (tame_head b) (marshal_obj (Suc (Suc (Suc n))) (tame_head b) 8 start_reader) \<and>
    mr_error (snd (marshal_obj (Suc (Suc (Suc n))) (tame_head b) 8 start_reader)) = Some (''marshal truncated'', 51)"
  by code_simp

text \<open>
  A stream that ends after the tag of its last object, where the length should be, is hashed as
  valid: the reader takes the missing length as zero, and its error is not looked at.
\<close>

lemma truncated_stream_accepted:
  "\<exists>s enough. sm_valid s \<and> sm_error s = Some (''marshal truncated'', 51) \<and>
    (\<forall>fuel \<ge> enough. semantic_hash_python_marshal fuel (tame_head b) 308 = Some s)"
proof -
  have "mr_error (snd (read_marshal (tame_head b) 8)) = Some (''marshal truncated'', 51)"
    unfolding read_three using cut_reads by blast
  then show ?thesis using tame_hash [OF conjunct1 [OF cut_reads [of b 498]]] by metis
qed

end
