(* ===== verification/SemanticDelta.thy ===== *)
theory SemanticDelta
  imports ModelTrust
begin

section \<open>Semantic deltas against a reference\<close>

text \<open>
  Models \<^verbatim>\<open>include/prts/semantic_delta.hpp\<close> and \<^verbatim>\<open>src/reference/semantic_delta.cpp\<close>: when a
  bounded difference from a known-good reference may be claimed for one semantic scope, and which
  facts it contributes to the trust report. The exact conditions of the strongest claim are one
  equivalence; the guidance of a report built from the facts of one delta is computed in closed form,
  which ties this component to \<open>ModelTrust\<close>.
\<close>

subsection \<open>Data\<close>

datatype delta_class =
    ClassUnresolved | ExactDeclarativeDelta | BoundedStructuralDelta | ReferenceOnlyNoPayloadBinding
  | PayloadBoundButSemanticsTooGeneral | RequiresVmExecution | RequiresNativeRuntimeOracle

datatype reference_auth = AuthNone | AuthIdentityOnly | AuthExactKnownGoodReference

datatype delta_kind =
    KindUnknown | OpcodePermutation | SourcePatch | InterpreterDefinition | RuntimeBehaviorOverride | RuntimeMetadata

datatype completeness = CompletenessNone | MechanismOnly | PartialDelta | CompleteForDeclaredScope

datatype recoverability =
    RecoverabilityUnknown | Declarative | BoundedStructural | SemanticsTooGeneral | VmExecution | NativeRuntimeOracle

datatype payload_relation =
    Unproven | SameBundleOnly | DirectArtifactReference | WrapperInvocation | EmbeddedPayload | RuntimeConsumesPayload

datatype application_proof =
    ProofNone | RelationOnly | ExactStaticScope | ExactTransformClosure | NativeOracle | ProvenOutsideDeltaScope

record delta_identity =
  di_artifact_id :: string
  di_sha256 :: string
  di_exact_bytes :: bool

record delta_item =
  it_key :: string
  it_reference_value :: string
  it_modified_value :: string
  it_evidence :: string

record delta_evidence =
  d_plane :: string
  d_family :: string
  d_scope :: string
  d_model :: string
  d_reference :: delta_identity
  d_reference_auth :: reference_auth
  d_reference_authentication :: string
  d_modified :: delta_identity
  d_kind :: delta_kind
  d_items :: "delta_item list"
  d_completeness :: completeness
  d_recoverability :: recoverability
  d_modification_proven :: bool
  d_payload :: delta_identity
  d_payload_relation :: payload_relation
  d_payload_evidence :: string
  d_application :: application_proof
  d_application_evidence :: string
  d_ceiling :: evidence_level
  d_contradiction :: bool
  d_contradiction_level :: evidence_level
  d_contradiction_evidence :: string
  d_limitations :: string

record delta_assessment =
  as_valid :: bool
  as_class :: delta_class
  as_exact :: bool
  as_bound :: bool
  as_applicable :: bool
  as_complete :: bool
  as_scope :: string
  as_error :: string

primrec delta_class_text :: "delta_class \<Rightarrow> string" where
  "delta_class_text ExactDeclarativeDelta = ''EXACT_DECLARATIVE_DELTA''"
| "delta_class_text BoundedStructuralDelta = ''BOUNDED_STRUCTURAL_DELTA''"
| "delta_class_text ReferenceOnlyNoPayloadBinding = ''REFERENCE_ONLY_NO_PAYLOAD_BINDING''"
| "delta_class_text PayloadBoundButSemanticsTooGeneral = ''PAYLOAD_BOUND_BUT_SEMANTICS_TOO_GENERAL''"
| "delta_class_text RequiresVmExecution = ''REQUIRES_VM_EXECUTION''"
| "delta_class_text RequiresNativeRuntimeOracle = ''REQUIRES_NATIVE_RUNTIME_ORACLE''"
| "delta_class_text ClassUnresolved = ''UNRESOLVED''"

subsection \<open>Assessment\<close>

definition exact_identity :: "delta_identity \<Rightarrow> bool" where
  "exact_identity x \<longleftrightarrow> di_exact_bytes x \<and> di_artifact_id x \<noteq> [] \<and> di_sha256 x \<noteq> []"

definition payload_bound :: "payload_relation \<Rightarrow> bool" where
  "payload_bound x \<longleftrightarrow>
     x = DirectArtifactReference \<or> x = WrapperInvocation \<or> x = EmbeddedPayload \<or> x = RuntimeConsumesPayload"

definition application_exact :: "application_proof \<Rightarrow> bool" where
  "application_exact x \<longleftrightarrow> x = ExactStaticScope \<or> x = ExactTransformClosure \<or> x = NativeOracle"

definition classify_bound :: "delta_evidence \<Rightarrow> delta_assessment \<Rightarrow> delta_assessment" where
  "classify_bound e a =
     (if d_recoverability e = SemanticsTooGeneral then a\<lparr>as_class := PayloadBoundButSemanticsTooGeneral\<rparr>
      else if d_recoverability e = BoundedStructural then
        (if exact_identity (d_modified e) \<and> d_modification_proven e \<and> d_items e \<noteq> []
         then a\<lparr>as_class := BoundedStructuralDelta\<rparr> else a)
      else if d_recoverability e = Declarative then
        (let exact_reference =
               (d_reference_auth e = AuthExactKnownGoodReference \<and> exact_identity (d_reference e) \<and>
                d_reference_authentication e \<noteq> []);
             exact_modified = exact_identity (d_modified e);
             complete = (d_completeness e = CompleteForDeclaredScope);
             exact_ceiling = (strength ExactKnownGoodReference \<le> strength (d_ceiling e))
         in if exact_reference \<and> exact_modified \<and> d_modification_proven e \<and> complete \<and> d_items e \<noteq> [] \<and>
               as_applicable a \<and> exact_ceiling
            then a\<lparr>as_class := ExactDeclarativeDelta, as_exact := True\<rparr> else a)
      else a)"

definition assess_semantic_delta :: "delta_evidence \<Rightarrow> delta_assessment" where
  "assess_semantic_delta e =
     (let a = \<lparr>as_valid = False, as_class = ClassUnresolved, as_exact = False, as_bound = False,
                as_applicable = False, as_complete = False, as_scope = d_scope e, as_error = []\<rparr> in
      if d_scope e = [] \<or> d_model e = []
      then a\<lparr>as_error := ''semantic delta requires an explicit semantic_scope and model_id''\<rparr>
      else
        let bound = (payload_bound (d_payload_relation e) \<and> exact_identity (d_payload e) \<and> d_payload_evidence e \<noteq> []);
            a = a\<lparr>as_valid := True, as_complete := (d_completeness e = CompleteForDeclaredScope), as_bound := bound,
                  as_applicable := (bound \<and> application_exact (d_application e) \<and> d_application_evidence e \<noteq> [])\<rparr> in
        if d_contradiction e \<and> d_contradiction_evidence e = []
        then a\<lparr>as_valid := False, as_error := ''native contradiction requires concrete evidence''\<rparr>
        else if d_contradiction e \<or> d_recoverability e = NativeRuntimeOracle
        then a\<lparr>as_class := RequiresNativeRuntimeOracle\<rparr>
        else if d_recoverability e = VmExecution then a\<lparr>as_class := RequiresVmExecution\<rparr>
        else if \<not> bound then
          (if d_reference_auth e \<noteq> AuthNone \<or> d_modification_proven e \<or> d_items e \<noteq> []
           then a\<lparr>as_class := ReferenceOnlyNoPayloadBinding\<rparr> else a)
        else classify_bound e a)"

subsection \<open>Facts for the trust report\<close>

definition reference_fact :: "delta_evidence \<Rightarrow> bool \<Rightarrow> trust_fact" where
  "reference_fact e exact =
     \<lparr>t_plane = d_plane e, t_scope = d_scope e, t_reference_scope = di_artifact_id (d_reference e),
      t_model = d_model e, t_level = ExactKnownGoodReference, t_reference = ExactDifference,
      t_state = (if exact then ExactDeltaRecovered else ModifiedUnresolved), t_relation = RelNone,
      t_complete = exact, t_delta_items = (if exact then wrap32 (length (d_items e)) else 0),
      t_evidence =
        (if exact then d_application_evidence e
         else if d_limitations e \<noteq> [] then d_limitations e
         else if d_application_evidence e \<noteq> [] then d_application_evidence e
         else d_reference_authentication e)\<rparr>"

definition contradiction_fact :: "delta_evidence \<Rightarrow> trust_fact" where
  "contradiction_fact e =
     \<lparr>t_plane = (if d_plane e = [] then ''native_contradiction'' else d_plane e @ ''.native''),
      t_scope = d_scope e, t_reference_scope = [], t_model = d_model e, t_level = d_contradiction_level e,
      t_reference = NotApplicable, t_state = SemUnresolved, t_relation = Contradicts, t_complete = False,
      t_delta_items = 0, t_evidence = d_contradiction_evidence e\<rparr>"

definition reference_proven :: "delta_evidence \<Rightarrow> bool" where
  "reference_proven e \<longleftrightarrow>
     d_reference_auth e = AuthExactKnownGoodReference \<and> exact_identity (d_reference e) \<and>
     d_reference_authentication e \<noteq> [] \<and> d_modification_proven e"

definition facts_from_semantic_delta :: "delta_evidence \<Rightarrow> trust_fact list" where
  "facts_from_semantic_delta e =
     (let a = assess_semantic_delta e in
      if \<not> as_valid a then []
      else (if reference_proven e then [reference_fact e (as_exact a)] else []) @
           (if d_contradiction e then [contradiction_fact e] else []))"

subsection \<open>What is guaranteed\<close>

lemmas assess_defs = assess_semantic_delta_def classify_bound_def Let_def

lemma exact_iff_class: "as_exact (assess_semantic_delta e) \<longleftrightarrow> as_class (assess_semantic_delta e) = ExactDeclarativeDelta"
  by (simp add: assess_defs)

text \<open>
  C0: a delta is claimed to be exact for its scope exactly when the scope and the model are named, no
  native evidence contradicts it, the difference is declarative, complete for the scope and not
  empty, reference, modified artifact and payload are known byte for byte, the reference is
  authenticated, the modification is proven, the payload is bound to the modified artifact by one of
  the four direct relations and the application to it is proven exactly, each with evidence, and the
  evidence ceiling is at least that of an exact known-good reference.
\<close>

theorem exact_delta_iff:
  "as_class (assess_semantic_delta e) = ExactDeclarativeDelta \<longleftrightarrow>
     d_scope e \<noteq> [] \<and> d_model e \<noteq> [] \<and> \<not> d_contradiction e \<and> d_recoverability e = Declarative \<and>
     d_completeness e = CompleteForDeclaredScope \<and> d_items e \<noteq> [] \<and> reference_proven e \<and>
     exact_identity (d_modified e) \<and> exact_identity (d_payload e) \<and>
     d_payload_relation e \<in> {DirectArtifactReference, WrapperInvocation, EmbeddedPayload, RuntimeConsumesPayload} \<and>
     d_payload_evidence e \<noteq> [] \<and>
     d_application e \<in> {ExactStaticScope, ExactTransformClosure, NativeOracle} \<and> d_application_evidence e \<noteq> [] \<and>
     d_ceiling e \<in> {ExactKnownGoodReference, LowDisturbanceNativeBoundary, OriginalNativeResult}"
  by (cases "d_ceiling e") (auto simp: assess_defs payload_bound_def application_exact_def reference_proven_def)

lemma guidance_one:
  "t_scope f \<noteq> [] \<Longrightarrow> rep_guidance (build_trust_report [f]) =
     aggregate_guidance (count_state (a_state (assess_group [f] [0])) (empty_report [f]))"
  by (simp add: build_guidance)
    (simp add: build_trust_report_def Let_def group_facts_def aggregate_guidance_def add_assessment_def)

lemma guidance_two:
  "t_scope f \<noteq> [] \<Longrightarrow> fact_key g = fact_key f \<Longrightarrow> rep_guidance (build_trust_report [f, g]) =
     aggregate_guidance (count_state (a_state (assess_group [f, g] [0, 1])) (empty_report [f, g]))"
  by (simp add: build_guidance)
    (simp add: build_trust_report_def Let_def group_facts_def aggregate_guidance_def add_assessment_def fact_key_def upt_rec)

lemmas guidance_eval = assess_group_def scan_fact_def flag_fact_def no_flags_def decide_flags_def backs_model_def
  empty_report_def aggregate_guidance_def bump_def wrap32_def

text \<open>
  The guidance of a trust report that rests on the facts of one delta. A valid delta whose native
  contradiction is at least as strong as an exact reference, or stands alone, makes the model
  contradicted; otherwise an exact delta gives exact modified semantics, a proven modification that
  is not exact an unresolved modified runtime, and everything else nothing. A stock model is never
  called safe.
\<close>

lemma delta_guidance:
  "rep_guidance (build_trust_report (facts_from_semantic_delta e)) =
     (if \<not> as_valid (assess_semantic_delta e) then TrustUnresolved
      else if d_contradiction e \<and>
        (if reference_proven e then ExactKnownGoodReference \<le> d_contradiction_level e
         else d_contradiction_level e \<noteq> LevelNone)
      then StaticModelContradictedByHigherEvidence
      else if as_class (assess_semantic_delta e) = ExactDeclarativeDelta then ExactModifiedSemantics
      else if reference_proven e then UnresolvedModifiedRuntime
      else TrustUnresolved)"
proof (cases "as_valid (assess_semantic_delta e)")
  case False
  then show ?thesis
    by (simp add: facts_from_semantic_delta_def build_trust_report_def group_facts_def guidance_eval)
next
  case True
  then have scope: "d_scope e \<noteq> []" by (auto simp: assess_defs split: if_splits)
  have calm: "\<not> as_exact (assess_semantic_delta e)" if "d_contradiction e"
    using that by (simp add: assess_defs)
  consider (both) "reference_proven e" "d_contradiction e" | (reference) "reference_proven e" "\<not> d_contradiction e"
    | (native) "\<not> reference_proven e" "d_contradiction e" | (none) "\<not> reference_proven e" "\<not> d_contradiction e"
    by blast
  then show ?thesis
  proof cases
    case both
    then have "facts_from_semantic_delta e = [reference_fact e False, contradiction_fact e]"
      using True calm by (simp add: facts_from_semantic_delta_def Let_def)
    then show ?thesis using True both scope calm
      by (cases "d_contradiction_level e")
        (simp_all add: guidance_two fact_key_def reference_fact_def contradiction_fact_def guidance_eval
          exact_iff_class less_eq_evidence_level_def)
  next
    case reference
    then have "facts_from_semantic_delta e = [reference_fact e (as_exact (assess_semantic_delta e))]"
      using True by (simp add: facts_from_semantic_delta_def Let_def)
    then show ?thesis using True reference scope
      by (simp add: guidance_one reference_fact_def guidance_eval exact_iff_class)
  next
    case native
    then have "facts_from_semantic_delta e = [contradiction_fact e]"
      using True by (simp add: facts_from_semantic_delta_def Let_def)
    then show ?thesis using True native scope calm
      by (cases "d_contradiction_level e")
        (simp_all add: guidance_one contradiction_fact_def guidance_eval exact_iff_class)
  next
    case none
    then have "\<not> as_exact (assess_semantic_delta e)"
      by (auto simp: assess_defs reference_proven_def)
    with none True show ?thesis
      by (simp add: facts_from_semantic_delta_def build_trust_report_def group_facts_def guidance_eval exact_iff_class)
  qed
qed

end
