(* ===== verification/ReferenceRegistry.thy ===== *)
theory ReferenceRegistry
  imports Hashing
begin

section \<open>Selection of a reference\<close>

text \<open>
  Models \<^verbatim>\<open>include/prts/reference_registry.hpp\<close>, \<^verbatim>\<open>src/reference/reference_registry.cpp\<close> and the
  table \<^verbatim>\<open>src/reference/cpython_reference_registry.inc\<close>. A reference may be selected only when it
  is exactly the pinned release manifest, down to every item of its opcode table, and when it is the
  only admissible one. The hash of the table is computed by the model of \<open>Hashing\<close>.
\<close>

subsection \<open>Data\<close>

type_synonym semantic_item = "string \<times> 16 word"

record registry_entry =
  re_id :: string
  re_ecosystem :: string
  re_version :: string
  re_artifact_kind :: string
  re_scope :: string
  re_sha256 :: string
  re_table_sha256 :: string
  re_release :: string
  re_commit :: string
  re_path :: string
  re_authentication :: string
  re_constraints :: string
  re_minor :: int
  re_magic :: bytes
  re_needs_exact :: bool
  re_needs_magic :: bool
  re_items :: "semantic_item list"

datatype selection_state = SelNoReference | SelReferenceMatch | SelUnresolved | SelConflict

record selection_request =
  rq_ecosystem :: string
  rq_version :: string
  rq_artifact_kind :: string
  rq_scope :: string
  rq_minor :: int
  rq_magic :: "bytes option"
  rq_exact :: bool
  rq_conflict :: bool
  rq_conflict_evidence :: string

record selection_result =
  sr_state :: selection_state
  sr_selected :: "registry_entry option"
  sr_admissible :: "registry_entry list"
  sr_reason :: string

primrec selection_state_text :: "selection_state \<Rightarrow> string" where
  "selection_state_text SelNoReference = ''NO_REFERENCE''"
| "selection_state_text SelReferenceMatch = ''REFERENCE_MATCH''"
| "selection_state_text SelUnresolved = ''UNRESOLVED''"
| "selection_state_text SelConflict = ''CONFLICT''"

text \<open>The opcodes of CPython 3.8.5 by name.\<close>

definition kCPython385OpcodeItems :: "semantic_item list" where
  "kCPython385OpcodeItems =
   [
    (''POP_TOP'', 1), (''ROT_TWO'', 2), (''ROT_THREE'', 3), (''DUP_TOP'', 4), (''DUP_TOP_TWO'', 5), (''ROT_FOUR'', 6),
    (''NOP'', 9), (''UNARY_POSITIVE'', 10), (''UNARY_NEGATIVE'', 11), (''UNARY_NOT'', 12), (''UNARY_INVERT'', 15),
    (''BINARY_MATRIX_MULTIPLY'', 16), (''INPLACE_MATRIX_MULTIPLY'', 17), (''BINARY_POWER'', 19),
    (''BINARY_MULTIPLY'', 20), (''BINARY_MODULO'', 22), (''BINARY_ADD'', 23), (''BINARY_SUBTRACT'', 24),
    (''BINARY_SUBSCR'', 25), (''BINARY_FLOOR_DIVIDE'', 26), (''BINARY_TRUE_DIVIDE'', 27),
    (''INPLACE_FLOOR_DIVIDE'', 28), (''INPLACE_TRUE_DIVIDE'', 29), (''GET_AITER'', 50), (''GET_ANEXT'', 51),
    (''BEFORE_ASYNC_WITH'', 52), (''BEGIN_FINALLY'', 53), (''END_ASYNC_FOR'', 54), (''INPLACE_ADD'', 55),
    (''INPLACE_SUBTRACT'', 56), (''INPLACE_MULTIPLY'', 57), (''INPLACE_MODULO'', 59), (''STORE_SUBSCR'', 60),
    (''DELETE_SUBSCR'', 61), (''BINARY_LSHIFT'', 62), (''BINARY_RSHIFT'', 63), (''BINARY_AND'', 64),
    (''BINARY_XOR'', 65), (''BINARY_OR'', 66), (''INPLACE_POWER'', 67), (''GET_ITER'', 68),
    (''GET_YIELD_FROM_ITER'', 69), (''PRINT_EXPR'', 70), (''LOAD_BUILD_CLASS'', 71), (''YIELD_FROM'', 72),
    (''GET_AWAITABLE'', 73), (''INPLACE_LSHIFT'', 75), (''INPLACE_RSHIFT'', 76), (''INPLACE_AND'', 77),
    (''INPLACE_XOR'', 78), (''INPLACE_OR'', 79), (''WITH_CLEANUP_START'', 81), (''WITH_CLEANUP_FINISH'', 82),
    (''RETURN_VALUE'', 83), (''IMPORT_STAR'', 84), (''SETUP_ANNOTATIONS'', 85), (''YIELD_VALUE'', 86),
    (''POP_BLOCK'', 87), (''END_FINALLY'', 88), (''POP_EXCEPT'', 89), (''STORE_NAME'', 90), (''DELETE_NAME'', 91),
    (''UNPACK_SEQUENCE'', 92), (''FOR_ITER'', 93), (''UNPACK_EX'', 94), (''STORE_ATTR'', 95), (''DELETE_ATTR'', 96),
    (''STORE_GLOBAL'', 97), (''DELETE_GLOBAL'', 98), (''LOAD_CONST'', 100), (''LOAD_NAME'', 101),
    (''BUILD_TUPLE'', 102), (''BUILD_LIST'', 103), (''BUILD_SET'', 104), (''BUILD_MAP'', 105), (''LOAD_ATTR'', 106),
    (''COMPARE_OP'', 107), (''IMPORT_NAME'', 108), (''IMPORT_FROM'', 109), (''JUMP_FORWARD'', 110),
    (''JUMP_IF_FALSE_OR_POP'', 111), (''JUMP_IF_TRUE_OR_POP'', 112), (''JUMP_ABSOLUTE'', 113),
    (''POP_JUMP_IF_FALSE'', 114), (''POP_JUMP_IF_TRUE'', 115), (''LOAD_GLOBAL'', 116), (''SETUP_FINALLY'', 122),
    (''LOAD_FAST'', 124), (''STORE_FAST'', 125), (''DELETE_FAST'', 126), (''RAISE_VARARGS'', 130),
    (''CALL_FUNCTION'', 131), (''MAKE_FUNCTION'', 132), (''BUILD_SLICE'', 133), (''LOAD_CLOSURE'', 135),
    (''LOAD_DEREF'', 136), (''STORE_DEREF'', 137), (''DELETE_DEREF'', 138), (''CALL_FUNCTION_KW'', 141),
    (''CALL_FUNCTION_EX'', 142), (''SETUP_WITH'', 143), (''LIST_APPEND'', 145), (''SET_ADD'', 146), (''MAP_ADD'', 147),
    (''LOAD_CLASSDEREF'', 148), (''EXTENDED_ARG'', 144), (''BUILD_LIST_UNPACK'', 149), (''BUILD_MAP_UNPACK'', 150),
    (''BUILD_MAP_UNPACK_WITH_CALL'', 151), (''BUILD_TUPLE_UNPACK'', 152), (''BUILD_SET_UNPACK'', 153),
    (''SETUP_ASYNC_WITH'', 154), (''FORMAT_VALUE'', 155), (''BUILD_CONST_KEY_MAP'', 156), (''BUILD_STRING'', 157),
    (''BUILD_TUPLE_UNPACK_WITH_CALL'', 158), (''LOAD_METHOD'', 160), (''CALL_METHOD'', 161), (''CALL_FINALLY'', 162),
    (''POP_FINALLY'', 163)]"

subsection \<open>The pinned entry\<close>

definition pinned_entry :: registry_entry where
  "pinned_entry =
     \<lparr>re_id = ''cpython:3.8.5:Lib/opcode.py:named-semantics'', re_ecosystem = ''CPython'', re_version = ''3.8.5'',
      re_artifact_kind = ''Lib/opcode.py'', re_scope = ''cpython.opcode_module_named_semantics'',
      re_sha256 = ''e26b2952088b43e96b9f2bc7776330541cae9fb1f1f1ac48c0cd974cee908b04'',
      re_table_sha256 = ''5df532d1ac72dda063ad2aa8f92662e6ec9b01c297080016111a69f468cb4bad'',
      re_release = ''CPython v3.8.5'', re_commit = ''580fbb018fd0844806119614d752b41fc69660f9'',
      re_path = ''Lib/opcode.py'',
      re_authentication = ''official_release_tag+peeled_commit+exact_source_sha256+generated_table_check'',
      re_constraints = ''exact runtime patch 3.8.5; Python minor 38 container/PYZ agreement; pyc magic 550d0d0a; no competing admissible reference'',
      re_minor = 38, re_magic = [0x55, 0x0d, 0x0d, 0x0a], re_needs_exact = True, re_needs_magic = True,
      re_items = kCPython385OpcodeItems\<rparr>"

definition reference_registry :: "registry_entry list" where
  "reference_registry = [pinned_entry]"

definition text_bytes :: "string \<Rightarrow> bytes" where
  "text_bytes s = map (\<lambda>c. word_of_nat (of_char c)) s"

definition canonical_item :: "semantic_item \<Rightarrow> string" where
  "canonical_item x = fst x @ [CHR 0x09] @ to_dec (unat (snd x)) @ [CHR 0x0A]"

text \<open>The comparison with the pinned table and the text to be hashed, in one pass.\<close>

fun compare_items :: "semantic_item list \<Rightarrow> semantic_item list \<Rightarrow> string \<Rightarrow> string option" where
  "compare_items (got # gs) (want # es) acc =
     (if fst got \<noteq> fst want \<or> snd got \<noteq> snd want then None
      else compare_items gs es (acc @ canonical_item got))"
| "compare_items _ _ acc = Some acc"

definition reference_registry_entry_authenticated :: "registry_entry \<Rightarrow> bool" where
  "reference_registry_entry_authenticated e \<longleftrightarrow>
     (if re_id e \<noteq> ''cpython:3.8.5:Lib/opcode.py:named-semantics'' \<or> re_ecosystem e \<noteq> ''CPython'' \<or>
         re_version e \<noteq> ''3.8.5'' \<or> re_artifact_kind e \<noteq> ''Lib/opcode.py'' \<or>
         re_scope e \<noteq> ''cpython.opcode_module_named_semantics'' \<or>
         re_sha256 e \<noteq> ''e26b2952088b43e96b9f2bc7776330541cae9fb1f1f1ac48c0cd974cee908b04'' \<or>
         re_table_sha256 e \<noteq> ''5df532d1ac72dda063ad2aa8f92662e6ec9b01c297080016111a69f468cb4bad'' \<or>
         re_release e \<noteq> ''CPython v3.8.5'' \<or> re_commit e \<noteq> ''580fbb018fd0844806119614d752b41fc69660f9'' \<or>
         re_path e \<noteq> ''Lib/opcode.py'' \<or> re_minor e \<noteq> 38 \<or> re_magic e \<noteq> [0x55, 0x0d, 0x0d, 0x0a] \<or>
         \<not> re_needs_exact e \<or> \<not> re_needs_magic e \<or> length (re_items e) \<noteq> length kCPython385OpcodeItems
      then False
      else case compare_items (re_items e) kCPython385OpcodeItems [] of
        None \<Rightarrow> False
      | Some canonical \<Rightarrow> sha256_bytes (text_bytes canonical) = Some (re_table_sha256 e))"

definition authenticate_reference_bytes :: "registry_entry \<Rightarrow> bytes \<Rightarrow> bool" where
  "authenticate_reference_bytes e bs \<longleftrightarrow>
     reference_registry_entry_authenticated e \<and> sha256_bytes bs = Some (re_sha256 e)"

subsection \<open>Selection\<close>

definition all_zero :: "bytes \<Rightarrow> bool" where
  "all_zero a \<longleftrightarrow> list_all (\<lambda>x. x = 0) a"

text \<open>The body of the loop: every \<open>continue\<close> is a failing conjunct.\<close>

definition admissible_entry :: "selection_request \<Rightarrow> registry_entry \<Rightarrow> bool" where
  "admissible_entry q e \<longleftrightarrow>
     (if re_ecosystem e \<noteq> rq_ecosystem q \<or> re_version e \<noteq> rq_version q \<or> re_artifact_kind e \<noteq> rq_artifact_kind q \<or>
         re_scope e \<noteq> rq_scope q then False
      else if re_needs_exact e \<and> \<not> rq_exact q then False
      else if rq_minor q \<noteq> 0 \<and> re_minor e \<noteq> 0 \<and> rq_minor q \<noteq> re_minor e then False
      else if re_needs_magic e \<and> (rq_magic q = None \<or> all_zero (re_magic e) \<or> rq_magic q \<noteq> Some (re_magic e)) then False
      else reference_registry_entry_authenticated e)"

definition select_reference :: "registry_entry list \<Rightarrow> selection_request \<Rightarrow> selection_result" where
  "select_reference registry q =
     (let out = \<lparr>sr_state = SelNoReference, sr_selected = None, sr_admissible = [], sr_reason = []\<rparr> in
      if rq_conflict q then
        out\<lparr>sr_state := SelConflict,
          sr_reason := (if rq_conflict_evidence q = [] then ''runtime/container identity evidence conflicts''
                        else rq_conflict_evidence q)\<rparr>
      else if rq_ecosystem q = [] \<or> rq_version q = [] \<or> rq_artifact_kind q = [] \<or> rq_scope q = [] then
        out\<lparr>sr_state := SelUnresolved,
          sr_reason := ''reference selection requires ecosystem, exact version, artifact kind, and semantic scope''\<rparr>
      else
        let found = filter (admissible_entry q) registry; out = out\<lparr>sr_admissible := found\<rparr> in
        if found = [] then
          out\<lparr>sr_state := (if rq_exact q then SelNoReference else SelUnresolved),
            sr_reason := (if rq_exact q then ''no authenticated registry entry satisfies the exact runtime/container constraints''
                          else ''runtime identity is not exact; version-like evidence cannot select a reference'')\<rparr>
        else if length found \<noteq> 1 then
          out\<lparr>sr_state := SelUnresolved,
            sr_reason := ''multiple authenticated references remain admissible; first-match selection is forbidden''\<rparr>
        else out\<lparr>sr_selected := Some (hd found), sr_state := SelReferenceMatch,
               sr_reason := ''one authenticated release-pinned reference satisfies all validity constraints''\<rparr>)"

text \<open>The selection from the shipped registry.\<close>

definition select_shipped_reference :: "selection_request \<Rightarrow> selection_result" where
  "select_shipped_reference q = select_reference reference_registry q"

subsection \<open>What is guaranteed\<close>

lemma compare_items_pass:
  "length gs = length es \<Longrightarrow> compare_items gs es acc \<noteq> None \<Longrightarrow>
    gs = es \<and> compare_items gs es acc = Some (acc @ concat (map canonical_item es))"
proof (induction gs es acc rule: compare_items.induct)
  case (1 got gs want es acc)
  then show ?case by (cases got; cases want) (auto split: if_splits)
qed auto

lemma authenticated_pinned:
  assumes "reference_registry_entry_authenticated e"
  shows "e = pinned_entry\<lparr>re_authentication := re_authentication e, re_constraints := re_constraints e\<rparr>"
proof -
  have len: "length (re_items e) = length kCPython385OpcodeItems"
    using assms by (simp add: reference_registry_entry_authenticated_def split: if_splits)
  have "compare_items (re_items e) kCPython385OpcodeItems [] \<noteq> None"
    using assms by (simp add: reference_registry_entry_authenticated_def split: if_splits option.splits)
  from compare_items_pass [OF len this] have "re_items e = kCPython385OpcodeItems" by blast
  then show ?thesis
    using assms by (auto simp: reference_registry_entry_authenticated_def pinned_entry_def intro: registry_entry.equality split: if_splits)
qed

lemma selected_iff:
  "sr_selected (select_reference registry q) = Some e \<longleftrightarrow>
     \<not> rq_conflict q \<and> filter (admissible_entry q) registry = [e] \<and>
     rq_ecosystem q \<noteq> [] \<and> rq_version q \<noteq> [] \<and> rq_artifact_kind q \<noteq> [] \<and> rq_scope q \<noteq> []"
  by (cases "filter (admissible_entry q) registry") (auto simp: select_reference_def Let_def)

text \<open>The shipped entry passes if the code's table has the hash that the code states for it.\<close>

lemma compare_items_same: "compare_items es es acc = Some (acc @ concat (map canonical_item es))"
  by (induction es arbitrary: acc) auto

lemma pinned_authenticated:
  "reference_registry_entry_authenticated pinned_entry \<longleftrightarrow>
     sha256_spec (text_bytes (concat (map canonical_item kCPython385OpcodeItems))) = re_table_sha256 pinned_entry"
  unfolding reference_registry_entry_authenticated_def by (simp add: pinned_entry_def compare_items_same sha256.one_shot_ref)

lemma state_match_iff: "sr_state (select_reference registry q) = SelReferenceMatch \<longleftrightarrow> sr_selected (select_reference registry q) \<noteq> None"
  by (auto simp: select_reference_def Let_def)

text \<open>
  C0: whatever the registry holds, a reference is selected exactly when it is its only admissible
  entry and the request is free of conflicts; then it is the pinned CPython 3.8.5 entry with its whole
  opcode table, apart from its two descriptive texts, and the request named exactly this version,
  artifact and scope, proved the runtime identity exactly, showed the pyc magic 55 0d 0d 0a and did
  not name another Python minor. The state says REFERENCE_MATCH exactly when a reference is selected.
\<close>

theorem selected_reference_pinned:
  "(sr_selected (select_reference registry q) = Some e \<longleftrightarrow>
     filter (admissible_entry q) registry = [e] \<and> \<not> rq_conflict q \<and>
     e = pinned_entry\<lparr>re_authentication := re_authentication e, re_constraints := re_constraints e\<rparr> \<and>
     rq_exact q \<and> rq_ecosystem q = ''CPython'' \<and> rq_version q = ''3.8.5'' \<and>
     rq_artifact_kind q = ''Lib/opcode.py'' \<and> rq_scope q = ''cpython.opcode_module_named_semantics'' \<and>
     rq_magic q = Some [0x55, 0x0d, 0x0d, 0x0a] \<and> rq_minor q \<in> {0, 38}) \<and>
   (sr_state (select_reference registry q) = SelReferenceMatch \<longleftrightarrow> sr_selected (select_reference registry q) \<noteq> None)"
proof (rule conjI [OF _ state_match_iff], rule iffI)
  assume sel: "sr_selected (select_reference registry q) = Some e"
  then have found: "\<not> rq_conflict q" "filter (admissible_entry q) registry = [e]" by (simp_all add: selected_iff)
  have "e \<in> set (filter (admissible_entry q) registry)" unfolding found(2) by simp
  then have e: "admissible_entry q e" by simp
  then have auth: "reference_registry_entry_authenticated e" by (simp add: admissible_entry_def split: if_splits)
  have f: "re_ecosystem e = ''CPython''" "re_version e = ''3.8.5''" "re_artifact_kind e = ''Lib/opcode.py''"
      "re_scope e = ''cpython.opcode_module_named_semantics''" "re_needs_exact e" "re_needs_magic e" "re_minor e = 38"
      "re_magic e = [0x55, 0x0d, 0x0d, 0x0a]"
    using auth by (simp_all add: reference_registry_entry_authenticated_def split: if_splits)
  have same: "rq_ecosystem q = re_ecosystem e" "rq_version q = re_version e" "rq_artifact_kind q = re_artifact_kind e"
      "rq_scope q = re_scope e" "rq_exact q" "rq_magic q = Some (re_magic e)" "rq_minor q = 0 \<or> rq_minor q = re_minor e"
    using e f(5,6,7) by (simp_all add: admissible_entry_def split: if_splits)
  show "filter (admissible_entry q) registry = [e] \<and> \<not> rq_conflict q \<and>
     e = pinned_entry\<lparr>re_authentication := re_authentication e, re_constraints := re_constraints e\<rparr> \<and>
     rq_exact q \<and> rq_ecosystem q = ''CPython'' \<and> rq_version q = ''3.8.5'' \<and>
     rq_artifact_kind q = ''Lib/opcode.py'' \<and> rq_scope q = ''cpython.opcode_module_named_semantics'' \<and>
     rq_magic q = Some [0x55, 0x0d, 0x0d, 0x0a] \<and> rq_minor q \<in> {0, 38}"
    using found same authenticated_pinned [OF auth] unfolding f by simp
qed (simp add: selected_iff)

end
