(* ===== verification/UnityUsage.thy ===== *)
theory UnityUsage
  imports Prelude
begin

unbundle bit_operations_syntax

section \<open>Unity metadata usage tokens\<close>

text \<open>
  Models \<^verbatim>\<open>src/extract/unity_metadata_usage_codec.cpp\<close>: a 32-bit token holds a kind in its
  three top bits and an index below; the compact numbering skips kind 2, and a runtime token keeps
  its lowest bit set. The decoder is shown to be the inverse of \<open>usage_token\<close>, which packs the fields.
\<close>

datatype usage_kinds = Traditional | Compact
datatype usage_indices = DirectIndex | RuntimeToken

record usage_decoded =
  ud_valid :: bool
  ud_raw_kind :: u32
  ud_kind :: u32
  ud_index :: u32
  ud_low_bit :: bool

record method_decoded =
  md_valid :: bool
  md_invalid_usage :: bool
  md_raw_kind :: u32
  md_kind :: u32
  md_index :: u32
  md_low_bit :: bool

definition logical_usage_kind :: "u32 \<Rightarrow> usage_kinds \<Rightarrow> u32" where
  "logical_usage_kind raw p = (if p = Compact \<and> 1 < raw then raw + 1 else raw)"

definition unity_metadata_usage_kind_profile :: "int \<Rightarrow> string \<Rightarrow> usage_kinds option" where
  "unity_metadata_usage_kind_profile version variant =
     (if version = 24 \<or> version = 31 then Some Traditional
      else if version = 106 \<or> version = 107 then
        (if variant = ''106'' then Some Traditional else if variant = ''106.1'' then Some Compact else None)
      else if version = 108 then Some Compact
      else None)"

definition runtime_kind_compare_limit :: "usage_kinds \<Rightarrow> u32" where
  "runtime_kind_compare_limit p = (if p = Compact then 5 else 6)"

definition decode_unity_metadata_usage :: "u32 \<Rightarrow> usage_kinds \<Rightarrow> usage_indices \<Rightarrow> usage_decoded" where
  "decode_unity_metadata_usage encoded kinds indices =
     (let raw = drop_bit 29 encoded AND 7; kind = logical_usage_kind raw kinds; low = (encoded AND 1 \<noteq> 0);
          out = \<lparr>ud_valid = False, ud_raw_kind = raw, ud_kind = kind, ud_index = 0, ud_low_bit = low\<rparr> in
      if indices = RuntimeToken \<and> \<not> low then out
      else out\<lparr>ud_index := (if indices = RuntimeToken then drop_bit 1 (encoded AND 0x1ffffffe) else encoded AND 0x1fffffff),
               ud_valid := (1 \<le> kind \<and> kind \<le> 7)\<rparr>)"

definition decode_unity_encoded_method :: "u32 \<Rightarrow> usage_kinds \<Rightarrow> method_decoded" where
  "decode_unity_encoded_method encoded kinds =
     (let raw = drop_bit 29 encoded AND 7; kind = logical_usage_kind raw kinds;
          index = drop_bit 1 (encoded AND 0x1ffffffe); invalid = (kind = 0) in
      \<lparr>md_valid = (if invalid then index \<le> 4 else kind = 3 \<or> kind = 6), md_invalid_usage = invalid,
       md_raw_kind = raw, md_kind = kind, md_index = index, md_low_bit = (encoded AND 1 \<noteq> 0)\<rparr>)"

definition unity_encoded_method_invalid_name :: "u32 \<Rightarrow> string" where
  "unity_encoded_method_invalid_name i =
     (if i = 0 then ''NO_DATA'' else if i = 1 then ''AMBIGUOUS_METHOD'' else if i = 2 then ''AMBIGUOUS_STATIC_METHOD''
      else if i = 3 then ''ENTRY_POINT_NOT_FOUND'' else if i = 4 then ''STATIC_ENTRY_POINT_NOT_FOUND'' else '''')"

definition unity_metadata_usage_kind_name :: "u32 \<Rightarrow> string" where
  "unity_metadata_usage_kind_name k =
     (if k = 1 then ''TYPE_INFO'' else if k = 2 then ''TYPE'' else if k = 3 then ''METHOD_DEF''
      else if k = 4 then ''FIELD_INFO'' else if k = 5 then ''STRING_LITERAL'' else if k = 6 then ''METHOD_REF''
      else if k = 7 then ''FIELD_RVA'' else '''')"

subsection \<open>Decoding undoes packing\<close>

text \<open>The kinds that a numbering can write, and their code.\<close>

definition usage_kind_set :: "usage_kinds \<Rightarrow> u32 set" where
  "usage_kind_set p = (if p = Compact then {1, 3, 4, 5, 6, 7} else {1, 2, 3, 4, 5, 6, 7})"

definition raw_usage_kind :: "usage_kinds \<Rightarrow> u32 \<Rightarrow> u32" where
  "raw_usage_kind p k = (if p = Compact \<and> 2 < k then k - 1 else k)"

definition index_limit :: "usage_indices \<Rightarrow> u32" where
  "index_limit q = (if q = RuntimeToken then 0x10000000 else 0x20000000)"

definition usage_token :: "usage_kinds \<Rightarrow> usage_indices \<Rightarrow> u32 \<Rightarrow> u32 \<Rightarrow> u32" where
  "usage_token p q k i =
     push_bit 29 (raw_usage_kind p k) OR (if q = RuntimeToken then push_bit 1 i OR 1 else i)"

lemma masks: "(0x1fffffff :: u32) = mask 29" "(7 :: u32) = mask 3"
  by (simp_all add: mask_eq_exp_minus_1)

lemma mask28_bit: "bit (0xfffffff :: int) n \<longleftrightarrow> n < 28" "bit (0xfffffff :: nat) n \<longleftrightarrow> n < 28"
proof -
  have "(0xfffffff :: int) = mask 28" "(0xfffffff :: nat) = mask 28" by (simp_all add: mask_eq_exp_minus_1)
  then show "bit (0xfffffff :: int) n \<longleftrightarrow> n < 28" "bit (0xfffffff :: nat) n \<longleftrightarrow> n < 28"
    by (simp_all only: bit_mask_iff) auto
qed

lemma small_bits:
  fixes w :: u32
  shows "w < 2 ^ n \<Longrightarrow> n < 32 \<Longrightarrow> take_bit n w = w"
  by (metis less_mask_eq take_bit_eq_mask)

lemma token_parts:
  fixes e r l :: u32
  assumes "r < 8" "l < 0x20000000"
  shows "e = push_bit 29 r OR l \<longleftrightarrow> r = drop_bit 29 e AND 7 \<and> l = e AND 0x1fffffff"
proof
  have r: "take_bit 3 r = r" and l: "take_bit 29 l = l" using assms by (simp_all add: small_bits)
  assume e: "e = push_bit 29 r OR l"
  have "drop_bit 29 e AND 7 = take_bit 3 r"
    unfolding e masks by (subst l [symmetric], rule bit_word_eqI) (auto simp: bit_simps)
  moreover have "e AND 0x1fffffff = take_bit 29 l"
    unfolding e masks by (rule bit_word_eqI) (auto simp: bit_simps)
  ultimately show "r = drop_bit 29 e AND 7 \<and> l = e AND 0x1fffffff" using r l by simp
next
  assume "r = drop_bit 29 e AND 7 \<and> l = e AND 0x1fffffff"
  moreover have "push_bit 29 (drop_bit 29 e AND 7) OR (e AND 0x1fffffff) = e"
    unfolding masks by (rule bit_word_eqI) (auto simp: bit_simps)
  ultimately show "e = push_bit 29 r OR l" by simp
qed

lemma odd_bit: "bit (push_bit 1 x OR 1 :: u32) n \<longleftrightarrow> n < 32 \<and> (n = 0 \<or> bit x (n - 1))"
  by (simp only: bit_or_iff bit_push_bit_iff bit_1_iff possible_bit_word) auto

lemma index_bits: "(i :: u32) < 0x10000000 \<Longrightarrow> bit i n \<Longrightarrow> n < 28"
  using small_bits [of i 28] by (simp, metis bit_take_bit_iff)

lemma odd_parts:
  fixes l i :: u32
  assumes "i < 0x10000000" "l = e AND 0x1fffffff"
  shows "l = push_bit 1 i OR 1 \<longleftrightarrow> e AND 1 \<noteq> 0 \<and> i = drop_bit 1 (e AND 0x1ffffffe)"
proof -
  have i: "take_bit 28 i = i" using assms by (simp add: small_bits)
  have low: "e AND 1 \<noteq> 0 \<longleftrightarrow> bit e 0" by (simp add: and_one_eq odd_iff_mod_2_eq_one bit_0 flip: odd_iff_mod_2_eq_one)
  have index: "drop_bit 1 (e AND 0x1ffffffe) = drop_bit 1 l"
    unfolding assms(2) masks by (rule bit_word_eqI) (auto simp: bit_simps mask28_bit)
  have "l = push_bit 1 i OR 1" if "bit e 0" "i = drop_bit 1 l"
  proof (rule bit_word_eqI)
    fix n
    assume "n < LENGTH(32)"
    then show "bit l n \<longleftrightarrow> bit (push_bit 1 i OR 1) n"
      unfolding that(2) odd_bit using that(1) assms(2) by (cases n) (auto simp: bit_simps masks)
  qed
  moreover have "bit e 0 \<and> i = drop_bit 1 l" if "l = push_bit 1 i OR 1"
  proof
    have "bit l 0" using that by (simp add: bit_simps)
    then show "bit e 0" unfolding assms(2) by (simp add: bit_simps)
    show "i = drop_bit 1 l"
    proof (rule bit_word_eqI)
      fix n
      show "bit i n \<longleftrightarrow> bit (drop_bit 1 l) n"
        unfolding that bit_drop_bit_eq o_apply odd_bit using index_bits [OF assms(1), of n] by auto
    qed
  qed
  ultimately show ?thesis unfolding low index by blast
qed

lemma small_kinds: "(raw :: u32) < 8 \<Longrightarrow> raw \<in> {0, 1, 2, 3, 4, 5, 6, 7}"
proof -
  assume "raw < 8"
  then have "unat raw < 8" by (simp add: word_less_nat_alt)
  then have "unat raw \<in> {0, 1, 2, 3, 4, 5, 6, 7}" by auto
  then show ?thesis by (auto simp: word_unat_eq_iff)
qed

lemma kind_written: "k \<in> usage_kind_set p \<Longrightarrow> logical_usage_kind (raw_usage_kind p k) p = k \<and> 1 \<le> k \<and> k \<le> 7"
  by (cases p) (auto simp: usage_kind_set_def raw_usage_kind_def logical_usage_kind_def)

lemma kind_read:
  assumes "raw < 8" and "1 \<le> logical_usage_kind raw p" "logical_usage_kind raw p \<le> 7"
  shows "logical_usage_kind raw p \<in> usage_kind_set p \<and> raw_usage_kind p (logical_usage_kind raw p) = raw"
  using small_kinds [OF assms(1)] assms(2,3)
  by (cases p) (auto simp: usage_kind_set_def raw_usage_kind_def logical_usage_kind_def)

lemma kinds_exact:
  "raw < 8 \<Longrightarrow> k \<in> usage_kind_set p \<and> raw = raw_usage_kind p k \<longleftrightarrow>
    k = logical_usage_kind raw p \<and> 1 \<le> logical_usage_kind raw p \<and> logical_usage_kind raw p \<le> 7"
  using kind_written kind_read by metis

lemma raw_small: "drop_bit 29 (e :: u32) AND 7 < 8" "(e :: u32) AND 0x1fffffff < 0x20000000"
  "drop_bit 1 ((e :: u32) AND 0x1ffffffe) < 0x10000000"
proof -
  have "x AND 7 < 8" for x :: u32 using and_mask_less' [of 3 x] by (simp add: masks)
  then show "drop_bit 29 (e :: u32) AND 7 < 8" .
  show "(e :: u32) AND 0x1fffffff < 0x20000000" using and_mask_less' [of 29 e] by (simp add: masks)
  have "drop_bit 1 (e AND 0x1ffffffe) = drop_bit 1 e AND mask 28"
    by (rule bit_word_eqI) (auto simp: bit_simps mask28_bit)
  then show "drop_bit 1 ((e :: u32) AND 0x1ffffffe) < 0x10000000" using and_mask_less' [of 28 "drop_bit 1 e"] by simp
qed

lemma raw_kind_less: "k \<in> usage_kind_set p \<Longrightarrow> raw_usage_kind p k < 8"
  by (auto simp: usage_kind_set_def raw_usage_kind_def split: if_splits)

text \<open>
  C0: the decoder is the exact inverse of packing. A token decodes as valid with a kind and an index
  exactly when the kind is one that the numbering can write, the index fits its field and the token
  is the packed form of the two; and the kinds that are accepted are those whose code, less one, the
  runtime compares with its limit.
\<close>

theorem usage_tokens_exact:
  "(ud_valid (decode_unity_metadata_usage e p q) \<and> ud_kind (decode_unity_metadata_usage e p q) = k \<and>
      ud_index (decode_unity_metadata_usage e p q) = i \<longleftrightarrow>
    k \<in> usage_kind_set p \<and> i < index_limit q \<and> e = usage_token p q k i) \<and>
   (ud_valid (decode_unity_metadata_usage e p q) \<longleftrightarrow>
    ud_raw_kind (decode_unity_metadata_usage e p q) \<noteq> 0 \<and>
    ud_raw_kind (decode_unity_metadata_usage e p q) - 1 \<le> runtime_kind_compare_limit p \<and>
    (if q = RuntimeToken then ud_low_bit (decode_unity_metadata_usage e p q) else True))"
proof
  let ?raw = "drop_bit 29 e AND 7" and ?low = "e AND 0x1fffffff" and ?idx = "drop_bit 1 (e AND 0x1ffffffe)"
  have token: "e = usage_token p q k i \<longleftrightarrow>
      raw_usage_kind p k = ?raw \<and> (if q = RuntimeToken then e AND 1 \<noteq> 0 \<and> i = ?idx else i = ?low)"
    if "k \<in> usage_kind_set p" "i < index_limit q"
  proof (cases q)
    case DirectIndex
    then show ?thesis using token_parts [OF raw_kind_less [OF that(1)], of i e] that(2)
      by (simp add: usage_token_def index_limit_def)
  next
    case RuntimeToken
    have i: "push_bit 1 i OR 1 < (0x20000000 :: u32)" 
    proof -
      have "push_bit 1 i OR 1 = (push_bit 1 i OR 1) AND mask 29"
      proof (rule bit_word_eqI)
        fix n
        show "bit (push_bit 1 i OR 1) n \<longleftrightarrow> bit ((push_bit 1 i OR 1) AND mask 29) n"
          unfolding bit_and_iff bit_mask_iff odd_bit
          using index_bits [of i "n - 1"] that(2) RuntimeToken by (auto simp: index_limit_def)
      qed
      then show ?thesis using and_mask_less' [of 29 "push_bit 1 i OR 1"] by simp
    qed
    show ?thesis
      using token_parts [OF raw_kind_less [OF that(1)] i, of e] odd_parts [of i "push_bit 1 i OR 1" e]
        odd_parts [of i ?low e] that(2) RuntimeToken
      by (auto simp: usage_token_def index_limit_def)
  qed
  show "ud_valid (decode_unity_metadata_usage e p q) \<and> ud_kind (decode_unity_metadata_usage e p q) = k \<and>
      ud_index (decode_unity_metadata_usage e p q) = i \<longleftrightarrow>
    k \<in> usage_kind_set p \<and> i < index_limit q \<and> e = usage_token p q k i"
    using token kinds_exact [OF raw_small(1), of k p e] raw_small [of e]
    by (cases q) (auto simp: decode_unity_metadata_usage_def Let_def index_limit_def)
  show "ud_valid (decode_unity_metadata_usage e p q) \<longleftrightarrow>
    ud_raw_kind (decode_unity_metadata_usage e p q) \<noteq> 0 \<and>
    ud_raw_kind (decode_unity_metadata_usage e p q) - 1 \<le> runtime_kind_compare_limit p \<and>
    (if q = RuntimeToken then ud_low_bit (decode_unity_metadata_usage e p q) else True)"
    using small_kinds [OF raw_small(1) [of e]]
    by (cases p; cases q) (auto simp: decode_unity_metadata_usage_def Let_def logical_usage_kind_def runtime_kind_compare_limit_def)
qed

text \<open>A method token is accepted exactly if what it says has a name: one of the five failures, or a method kind.\<close>

lemma method_token_named:
  "md_valid (decode_unity_encoded_method e p) \<longleftrightarrow>
     (if md_invalid_usage (decode_unity_encoded_method e p)
      then unity_encoded_method_invalid_name (md_index (decode_unity_encoded_method e p)) \<noteq> []
      else unity_metadata_usage_kind_name (md_kind (decode_unity_encoded_method e p)) \<in> {''METHOD_DEF'', ''METHOD_REF''})"
proof -
  have "i \<le> 4 \<longleftrightarrow> i = 0 \<or> i = 1 \<or> i = 2 \<or> i = 3 \<or> i = 4" for i :: u32
  proof -
    have "unat i \<le> 4 \<longleftrightarrow> unat i = 0 \<or> unat i = 1 \<or> unat i = 2 \<or> unat i = 3 \<or> unat i = 4" by auto
    then show ?thesis by (simp add: word_le_nat_alt word_unat_eq_iff)
  qed
  then show ?thesis
    by (auto simp: decode_unity_encoded_method_def Let_def unity_encoded_method_invalid_name_def unity_metadata_usage_kind_name_def)
qed

end
