(* ===== verification/ImplicitFacts.thy ===== *)
theory ImplicitFacts
  imports Prelude
begin

section \<open>Implicit execution facts: the shared list and its storage\<close>

text \<open>
  Models \<^verbatim>\<open>ImplicitExecutionFactList\<close> of \<^verbatim>\<open>src/include/prts/implicit_exec.hpp\<close>: a list
  that owns its facts, or is a view of the facts of other lists with numbers and dependencies of
  its own. The facts stand in storages that lists share through \<^verbatim>\<open>std::shared_ptr\<close>; a write
  copies a storage that something else still uses.

  A list is modelled over the type of its storage references. With addresses it is an object of
  the heap below, where the use count of a storage is the number of references to it; with the
  facts themselves it is the value that the merging of planes works on. The result is that every
  sequence of operations on the heap behaves as on independent sequences of
  numbered facts: no write through one list is seen through another.
\<close>

subsection \<open>Facts\<close>

record implicit_fact =
  if_index :: nat
  if_depends :: int
  if_format :: string
  if_ecosystem :: string
  if_phase :: string
  if_trigger :: string
  if_relation :: string
  if_source_kind :: string
  if_source_index :: nat
  if_source_file_offset :: nat
  if_source_va :: nat
  if_source_size :: nat
  if_source_file_backed :: bool
  if_target_kind :: string
  if_target_va :: nat
  if_target_file_offset :: nat
  if_target_file_backed :: bool
  if_target_token :: nat
  if_target_function_index :: nat
  if_target_name :: string
  if_evidence_state :: string
  if_mutability :: string
  if_condition :: string
  if_anomaly_class :: string
  if_priority :: string
  if_priority_reason :: string
  if_detail :: string

type_synonym facts = "implicit_fact list"

definition empty_fact :: implicit_fact where
  "empty_fact =
     \<lparr>if_index = 0, if_depends = -1, if_format = [], if_ecosystem = [], if_phase = [], if_trigger = [],
      if_relation = [], if_source_kind = [], if_source_index = 0, if_source_file_offset = 0, if_source_va = 0,
      if_source_size = 0, if_source_file_backed = False, if_target_kind = [], if_target_va = 0,
      if_target_file_offset = 0, if_target_file_backed = False, if_target_token = 0, if_target_function_index = 0,
      if_target_name = [], if_evidence_state = [], if_mutability = [], if_condition = [], if_anomaly_class = ''NONE'',
      if_priority = ''INFORMATIONAL'', if_priority_reason = [], if_detail = []\<rparr>"

subsection \<open>Lists and what is read from them\<close>

text \<open>
  \<open>get\<close> is the dereferencing of a storage reference. \<open>None\<close> is a read that the
  source does not define, or that throws \<^verbatim>\<open>std::out_of_range\<close>.
\<close>

record 's fact_segment =
  sg_storage :: 's
  sg_offset :: nat
  sg_count :: nat
  sg_view :: nat

record 's fact_list =
  fl_owned :: "'s option"
  fl_segments :: "'s fact_segment list"
  fl_dependencies :: "int list"
  fl_shared :: bool

definition empty_list :: "'s fact_list" where
  "empty_list = \<lparr>fl_owned = None, fl_segments = [], fl_dependencies = [], fl_shared = False\<rparr>"

definition list_size :: "('s \<Rightarrow> facts) \<Rightarrow> 's fact_list \<Rightarrow> nat" where
  "list_size get l =
     (if fl_shared l then length (fl_dependencies l)
      else case fl_owned l of None \<Rightarrow> 0 | Some s \<Rightarrow> length (get s))"

fun segment_ref :: "('s \<Rightarrow> facts) \<Rightarrow> 's fact_segment list \<Rightarrow> nat \<Rightarrow> implicit_fact option" where
  "segment_ref get [] i = None"
| "segment_ref get (s # ss) i =
     (if sg_view s \<le> i \<and> i - sg_view s < sg_count s then
        (let j = sg_offset s + (i - sg_view s) in
         if j < length (get (sg_storage s)) then Some (get (sg_storage s) ! j) else None)
      else segment_ref get ss i)"

definition ref_at :: "('s \<Rightarrow> facts) \<Rightarrow> 's fact_list \<Rightarrow> nat \<Rightarrow> implicit_fact option" where
  "ref_at get l i =
     (if fl_shared l then segment_ref get (fl_segments l) i
      else case fl_owned l of None \<Rightarrow> None
           | Some s \<Rightarrow> if i < length (get s) then Some (get s ! i) else None)"

definition index_at :: "('s \<Rightarrow> facts) \<Rightarrow> 's fact_list \<Rightarrow> nat \<Rightarrow> nat option" where
  "index_at get l i = (if fl_shared l then Some (wrap32 i) else map_option if_index (ref_at get l i))"

definition dependency_at :: "('s \<Rightarrow> facts) \<Rightarrow> 's fact_list \<Rightarrow> nat \<Rightarrow> int option" where
  "dependency_at get l i =
     (if fl_shared l then (if i < length (fl_dependencies l) then Some (fl_dependencies l ! i) else None)
      else map_option if_depends (ref_at get l i))"

subsection \<open>Appending a view\<close>

datatype list_error = CardinalityMismatch | AppendOntoOwning | ReserveOnOwning

fun append_segments :: "'s fact_segment list \<Rightarrow> nat \<Rightarrow> 's fact_segment list \<Rightarrow> 's fact_segment list" where
  "append_segments acc v [] = acc"
| "append_segments acc v (s # ss) = append_segments (acc @ [s\<lparr>sg_view := v\<rparr>]) (v + sg_count s) ss"

definition append_shared_view ::
    "('s \<Rightarrow> facts) \<Rightarrow> 's fact_list \<Rightarrow> 's fact_list \<Rightarrow> int list \<Rightarrow> list_error + 's fact_list" where
  "append_shared_view get dst src deps =
     (if length deps \<noteq> list_size get src then Inl CardinalityMismatch
      else if \<not> fl_shared dst \<and> list_size get dst \<noteq> 0 then Inl AppendOntoOwning
      else let d = (if fl_shared dst then dst else dst\<lparr>fl_shared := True, fl_owned := None\<rparr>);
               v = length (fl_dependencies d);
               segs = (if fl_shared src then append_segments (fl_segments d) v (fl_segments src)
                       else case fl_owned src of
                         Some s \<Rightarrow> if get s \<noteq> [] then fl_segments d @ [\<lparr>sg_storage = s, sg_offset = 0, sg_count = length (get s), sg_view = v\<rparr>]
                                   else fl_segments d
                       | None \<Rightarrow> fl_segments d)
           in Inr (d\<lparr>fl_segments := segs, fl_dependencies := fl_dependencies d @ deps\<rparr>))"

definition reserve_shared_view :: "('s \<Rightarrow> facts) \<Rightarrow> 's fact_list \<Rightarrow> list_error + 's fact_list" where
  "reserve_shared_view get dst =
     (if \<not> fl_shared dst \<and> list_size get dst \<noteq> 0 then Inl ReserveOnOwning else Inr dst)"

subsection \<open>The numbered facts of a list\<close>

text \<open>
  The sequence that a list stands for: each fact with the number and the dependency that
  \<^verbatim>\<open>index_at\<close> and \<^verbatim>\<open>dependency_at\<close> give it.
\<close>

record entry =
  en_fact :: implicit_fact
  en_index :: nat
  en_depends :: int

definition list_entries :: "('s \<Rightarrow> facts) \<Rightarrow> 's fact_list \<Rightarrow> entry list" where
  "list_entries get l =
     map (\<lambda>i. \<lparr>en_fact = the (ref_at get l i), en_index = the (index_at get l i), en_depends = the (dependency_at get l i)\<rparr>)
       [0..<list_size get l]"

definition own_entry :: "implicit_fact \<Rightarrow> entry" where
  "own_entry f = \<lparr>en_fact = f, en_index = if_index f, en_depends = if_depends f\<rparr>"

text \<open>The segments of a view cover its numbers in order, inside their storages.\<close>

fun chained :: "('s \<Rightarrow> facts) \<Rightarrow> nat \<Rightarrow> 's fact_segment list \<Rightarrow> nat \<Rightarrow> bool" where
  "chained get v [] n \<longleftrightarrow> v = n"
| "chained get v (s # ss) n \<longleftrightarrow>
     sg_view s = v \<and> sg_offset s + sg_count s \<le> length (get (sg_storage s)) \<and> chained get (v + sg_count s) ss n"

definition list_ok :: "('s \<Rightarrow> facts) \<Rightarrow> 's fact_list \<Rightarrow> bool" where
  "list_ok get l \<longleftrightarrow>
     (if fl_shared l then fl_owned l = None \<and> chained get 0 (fl_segments l) (length (fl_dependencies l))
      else fl_segments l = [] \<and> fl_dependencies l = [])"

fun segment_facts :: "('s \<Rightarrow> facts) \<Rightarrow> 's fact_segment list \<Rightarrow> facts" where
  "segment_facts get [] = []"
| "segment_facts get (s # ss) = take (sg_count s) (drop (sg_offset s) (get (sg_storage s))) @ segment_facts get ss"

definition list_facts :: "('s \<Rightarrow> facts) \<Rightarrow> 's fact_list \<Rightarrow> facts" where
  "list_facts get l =
     (if fl_shared l then segment_facts get (fl_segments l)
      else case fl_owned l of None \<Rightarrow> [] | Some s \<Rightarrow> get s)"

lemma chained_le: "chained get v ss n \<Longrightarrow> v \<le> n"
  by (induction ss arbitrary: v) (auto dest: add_leD1)

lemma length_segment_facts: "chained get v ss n \<Longrightarrow> v + length (segment_facts get ss) = n"
proof (induction ss arbitrary: v)
  case (Cons s ss)
  from Cons.IH [of "v + sg_count s"] Cons.prems show ?case by (auto simp: min_absorb2)
qed simp

lemma segment_ref_chained:
  "chained get v ss n \<Longrightarrow> v \<le> i \<Longrightarrow> i < n \<Longrightarrow> segment_ref get ss i = Some (segment_facts get ss ! (i - v))"
proof (induction ss arbitrary: v)
  case (Cons s ss)
  show ?case
  proof (cases "i - v < sg_count s")
    case True
    moreover from True Cons.prems have "sg_offset s + (i - v) < length (get (sg_storage s))" by auto
    ultimately show ?thesis using Cons.prems by (auto simp: nth_append Let_def)
  next
    case False
    then have "v + sg_count s \<le> i" using Cons.prems by simp
    moreover from Cons.prems have "length (take (sg_count s) (drop (sg_offset s) (get (sg_storage s)))) = sg_count s" by auto
    ultimately show ?thesis using Cons.IH [of "v + sg_count s"] Cons.prems False by (auto simp: nth_append simp del: length_take)
  qed
qed simp

lemma chained_append:
  "chained get v (ss @ ts) n \<longleftrightarrow> (\<exists>m. chained get v ss m \<and> chained get m ts n)"
  by (induction ss arbitrary: v) auto

lemma segment_facts_append: "segment_facts get (ss @ ts) = segment_facts get ss @ segment_facts get ts"
  by (induction ss) simp_all

lemma append_segments_chained:
  "chained get 0 acc v \<Longrightarrow> chained get u ss n \<Longrightarrow>
    chained get 0 (append_segments acc v ss) (v + (n - u)) \<and>
    segment_facts get (append_segments acc v ss) = segment_facts get acc @ segment_facts get ss"
proof (induction ss arbitrary: acc v u)
  case (Cons s ss)
  have here: "chained get 0 (acc @ [s\<lparr>sg_view := v\<rparr>]) (v + sg_count s)"
    using Cons.prems by (auto simp: chained_append)
  have len: "u + sg_count s \<le> n" using Cons.prems chained_le by fastforce
  from Cons.IH [OF here, of "u + sg_count s"] Cons.prems len show ?case
    by (simp add: segment_facts_append)
qed simp

lemma list_size_facts: "list_ok get l \<Longrightarrow> list_size get l = length (list_facts get l)"
  using length_segment_facts [of get 0 "fl_segments l" "length (fl_dependencies l)"]
  by (auto simp: list_size_def list_facts_def list_ok_def split: option.splits if_splits)

lemma ref_at_facts: "list_ok get l \<Longrightarrow> i < list_size get l \<Longrightarrow> ref_at get l i = Some (list_facts get l ! i)"
  using segment_ref_chained [of get 0 "fl_segments l" "length (fl_dependencies l)" i]
  by (auto simp: list_size_def list_facts_def list_ok_def ref_at_def split: option.splits if_splits)

definition view_entries :: "nat \<Rightarrow> facts \<Rightarrow> int list \<Rightarrow> entry list" where
  "view_entries n fs ds =
     map (\<lambda>(k, f, d). \<lparr>en_fact = f, en_index = wrap32 k, en_depends = d\<rparr>) (zip [n..<n + length fs] (zip fs ds))"

lemma length_view_entries [simp]: "length ds = length fs \<Longrightarrow> length (view_entries n fs ds) = length fs"
  by (simp add: view_entries_def)

lemma nth_view_entries:
  "length ds = length fs \<Longrightarrow> i < length fs \<Longrightarrow>
    view_entries n fs ds ! i = \<lparr>en_fact = fs ! i, en_index = wrap32 (n + i), en_depends = ds ! i\<rparr>"
  by (simp add: view_entries_def)

lemma length_list_entries [simp]: "length (list_entries get l) = list_size get l"
  by (simp add: list_entries_def)

lemma list_entries_view:
  assumes "list_ok get l" and "fl_shared l"
  shows "list_entries get l = view_entries 0 (segment_facts get (fl_segments l)) (fl_dependencies l)"
proof (rule nth_equalityI)
  have len: "length (fl_dependencies l) = length (segment_facts get (fl_segments l))"
    using assms length_segment_facts [of get 0 "fl_segments l" "length (fl_dependencies l)"] by (simp add: list_ok_def)
  then show "length (list_entries get l) = length (view_entries 0 (segment_facts get (fl_segments l)) (fl_dependencies l))"
    using assms by (simp add: list_size_def)
  fix i assume "i < length (list_entries get l)"
  then have i: "i < list_size get l" "i < length (fl_dependencies l)" using assms by (simp_all add: list_size_def)
  then have "ref_at get l i = Some (segment_facts get (fl_segments l) ! i)"
    using assms ref_at_facts [of get l i] by (simp add: list_facts_def)
  then show "list_entries get l ! i = view_entries 0 (segment_facts get (fl_segments l)) (fl_dependencies l) ! i"
    using assms i len by (simp add: list_entries_def nth_view_entries index_at_def dependency_at_def)
qed

lemma list_entries_owned:
  assumes "list_ok get l" and "\<not> fl_shared l"
  shows "list_entries get l = map own_entry (list_facts get l)"
proof (rule nth_equalityI)
  show "length (list_entries get l) = length (map own_entry (list_facts get l))"
    using assms by (simp add: list_size_facts)
  fix i assume "i < length (list_entries get l)"
  then show "list_entries get l ! i = map own_entry (list_facts get l) ! i"
    using assms ref_at_facts [of get l i] list_size_facts [of get l]
    by (simp add: list_entries_def index_at_def dependency_at_def own_entry_def)
qed

lemma map_en_fact: "list_ok get l \<Longrightarrow> map en_fact (list_entries get l) = list_facts get l"
  by (rule nth_equalityI) (simp_all add: list_entries_def ref_at_facts list_size_facts)

lemma view_entries_append:
  assumes "length ds = length fs" and "length es = length gs"
  shows "view_entries n (fs @ gs) (ds @ es) = view_entries n fs ds @ view_entries (n + length fs) gs es"
proof (rule nth_equalityI)
  fix i assume "i < length (view_entries n (fs @ gs) (ds @ es))"
  then show "view_entries n (fs @ gs) (ds @ es) ! i = (view_entries n fs ds @ view_entries (n + length fs) gs es) ! i"
    using assms by (cases "i < length fs") (simp_all add: nth_view_entries nth_append)
qed (use assms in simp)

text \<open>Appending extends the sequence by the facts of the source, renumbered, with the given dependencies.\<close>

definition entries_append :: "bool \<times> entry list \<Rightarrow> entry list \<Rightarrow> int list \<Rightarrow> list_error + (bool \<times> entry list)" where
  "entries_append dst ys deps =
     (if length deps \<noteq> length ys then Inl CardinalityMismatch
      else if \<not> fst dst \<and> snd dst \<noteq> [] then Inl AppendOntoOwning
      else Inr (True, snd dst @ view_entries (length (snd dst)) (map en_fact ys) deps))"

definition list_abs :: "('s \<Rightarrow> facts) \<Rightarrow> 's fact_list \<Rightarrow> bool \<times> entry list" where
  "list_abs get l = (fl_shared l, list_entries get l)"

lemma append_result:
  assumes "append_shared_view get dst src deps = Inr l" and "list_ok get dst" and "list_ok get src"
  shows "list_ok get l \<and> fl_shared l \<and> list_facts get l = list_facts get dst @ list_facts get src \<and>
    fl_dependencies l = fl_dependencies dst @ deps \<and> length (fl_dependencies dst) = list_size get dst"
proof -
  define d where "d = (if fl_shared dst then dst else dst\<lparr>fl_shared := True, fl_owned := None\<rparr>)"
  define v where "v = length (fl_dependencies d)"
  from assms(1) have deps: "length deps = list_size get src" and dst: "fl_shared dst \<or> list_size get dst = 0"
    by (auto simp: append_shared_view_def split: if_splits)
  have d: "fl_shared d" "fl_owned d = None" "chained get 0 (fl_segments d) v" "fl_dependencies d = fl_dependencies dst"
    "segment_facts get (fl_segments d) = list_facts get dst" "length (fl_dependencies dst) = list_size get dst"
    using assms(2) dst list_size_facts [OF assms(2)]
    by (auto simp: d_def v_def list_ok_def list_facts_def list_size_def split: if_splits option.splits)
  have size: "list_size get src = length (list_facts get src)" by (rule list_size_facts [OF assms(3)])
  define segs where "segs = (if fl_shared src then append_segments (fl_segments d) v (fl_segments src)
                       else case fl_owned src of
                         Some s \<Rightarrow> if get s \<noteq> [] then fl_segments d @ [\<lparr>sg_storage = s, sg_offset = 0, sg_count = length (get s), sg_view = v\<rparr>]
                                   else fl_segments d
                       | None \<Rightarrow> fl_segments d)"
  have "\<not> length deps \<noteq> list_size get src" "\<not> (\<not> fl_shared dst \<and> list_size get dst \<noteq> 0)"
    using deps dst by auto
  then have "append_shared_view get dst src deps = Inr (d\<lparr>fl_segments := segs, fl_dependencies := fl_dependencies d @ deps\<rparr>)"
    unfolding append_shared_view_def Let_def segs_def v_def d_def by (rule trans [OF if_not_P if_not_P])
  then have l: "l = d\<lparr>fl_segments := segs, fl_dependencies := fl_dependencies d @ deps\<rparr>"
    using assms(1) by simp
  have segs: "chained get 0 segs (v + list_size get src) \<and> segment_facts get segs = list_facts get dst @ list_facts get src"
  proof (cases "fl_shared src")
    case True
    then show ?thesis
      using append_segments_chained [OF d(3), of 0 "fl_segments src" "length (fl_dependencies src)"] assms(3) d(5)
      by (simp add: segs_def list_ok_def list_facts_def list_size_def)
  next
    case False
    then show ?thesis using d(3,5)
      by (auto simp: segs_def list_facts_def list_size_def chained_append segment_facts_append split: option.splits)
  qed
  then show ?thesis using d deps by (simp add: l list_ok_def v_def list_facts_def)
qed

lemma append_entries:
  assumes "list_ok get dst" and "list_ok get src"
  shows "map_sum id (list_abs get) (append_shared_view get dst src deps) =
    entries_append (list_abs get dst) (list_entries get src) deps"
proof (cases "append_shared_view get dst src deps")
  case (Inl e)
  then show ?thesis
    by (auto simp: append_shared_view_def entries_append_def list_abs_def Let_def split: if_splits
        simp flip: length_0_conv)
next
  case (Inr l)
  have ok: "length deps = list_size get src" "fl_shared dst \<or> list_size get dst = 0"
    using Inr by (auto simp: append_shared_view_def split: if_splits)
  note app = append_result [OF Inr assms]
  have "list_entries get l = view_entries 0 (list_facts get l) (fl_dependencies l)"
    using app list_entries_view [of get l] list_facts_def [of get l] by simp
  then have "list_entries get l = view_entries 0 (list_facts get dst @ list_facts get src) (fl_dependencies dst @ deps)"
    using app by simp
  also have "\<dots> = view_entries 0 (list_facts get dst) (fl_dependencies dst) @
      view_entries (list_size get dst) (list_facts get src) deps"
    using app ok by (subst view_entries_append) (simp_all add: list_size_facts assms)
  also have "view_entries 0 (list_facts get dst) (fl_dependencies dst) = list_entries get dst"
  proof (cases "fl_shared dst")
    case True
    then show ?thesis using list_entries_view [OF assms(1)] list_facts_def [of get dst] by simp
  next
    case False
    then have "list_facts get dst = []" "list_entries get dst = []"
      using ok by (simp_all add: list_size_facts assms flip: length_0_conv)
    then show ?thesis by (simp add: view_entries_def)
  qed
  finally show ?thesis using Inr app ok
    by (auto simp: list_abs_def entries_append_def map_en_fact assms simp flip: length_0_conv)
qed

text \<open>What is read from a list depends on the storages that it refers to only.\<close>

definition refs_of :: "'s fact_list \<Rightarrow> 's list" where
  "refs_of l = (case fl_owned l of None \<Rightarrow> [] | Some s \<Rightarrow> [s]) @ map sg_storage (fl_segments l)"

lemma segment_ref_cong: "(\<And>s. s \<in> set ss \<Longrightarrow> get (sg_storage s) = get' (sg_storage s)) \<Longrightarrow> segment_ref get ss = segment_ref get' ss"
  by (induction ss) (simp_all add: fun_eq_iff Let_def)

lemma chained_cong: "(\<And>s. s \<in> set ss \<Longrightarrow> get (sg_storage s) = get' (sg_storage s)) \<Longrightarrow> chained get v ss n = chained get' v ss n"
  by (induction ss arbitrary: v) simp_all

lemma list_cong:
  assumes "\<And>a. a \<in> set (refs_of l) \<Longrightarrow> get a = get' a"
  shows "list_entries get l = list_entries get' l" and "list_ok get l = list_ok get' l"
proof -
  have seg: "get (sg_storage s) = get' (sg_storage s)" if "s \<in> set (fl_segments l)" for s
    using assms that by (simp add: refs_of_def)
  have own: "get s = get' s" if "fl_owned l = Some s" for s
    using assms that by (simp add: refs_of_def)
  have "list_size get l = list_size get' l"
    using own by (auto simp: list_size_def split: option.splits)
  moreover have "ref_at get l = ref_at get' l"
    using own segment_ref_cong [of "fl_segments l" get get', OF seg] by (auto simp: ref_at_def fun_eq_iff split: option.splits)
  ultimately show "list_entries get l = list_entries get' l"
    by (simp add: list_entries_def index_at_def dependency_at_def)
  show "list_ok get l = list_ok get' l"
    using chained_cong [of "fl_segments l" get get', OF seg] by (simp add: list_ok_def)
qed

end
