(* ===== verification/ImplicitFactHeap.thy ===== *)
theory ImplicitFactHeap
  imports ImplicitFacts
begin

section \<open>Lists of facts that share storages\<close>

text \<open>
  The copy-on-write discipline of \<^verbatim>\<open>ImplicitExecutionFactList\<close>
  (\<^verbatim>\<open>src/include/prts/implicit_exec.hpp\<close>): objects in a heap of storages, the use count of
  a storage, and the write that copies a storage in use elsewhere. Every sequence of operations is
  shown to have the effect of the same operations on independent sequences of numbered facts.
\<close>

subsection \<open>The heap\<close>

text \<open>
  Storages and list objects are numbered in the order of their creation. A destroyed object keeps
  its number and refers to nothing; storages are not reclaimed, which no operation observes.
\<close>

record fact_heap =
  hp_stores :: "facts list"
  hp_objects :: "nat fact_list list"

definition empty_heap :: fact_heap where
  "empty_heap = \<lparr>hp_stores = [], hp_objects = []\<rparr>"

definition stored :: "fact_heap \<Rightarrow> nat \<Rightarrow> facts" where
  "stored h a = (if a < length (hp_stores h) then hp_stores h ! a else [])"

definition use_count :: "fact_heap \<Rightarrow> nat \<Rightarrow> nat" where
  "use_count h a = count_list (concat (map refs_of (hp_objects h))) a"

definition owning :: "nat \<Rightarrow> nat fact_list" where
  "owning a = \<lparr>fl_owned = Some a, fl_segments = [], fl_dependencies = [], fl_shared = False\<rparr>"

definition put_owned :: "fact_heap \<Rightarrow> nat \<Rightarrow> facts \<Rightarrow> fact_heap" where
  "put_owned h x fs = \<lparr>hp_stores = hp_stores h @ [fs], hp_objects = (hp_objects h)[x := owning (length (hp_stores h))]\<rparr>"

definition own_fact :: "(nat \<Rightarrow> facts) \<Rightarrow> nat fact_list \<Rightarrow> nat \<Rightarrow> implicit_fact option" where
  "own_fact get l i = do {
     f \<leftarrow> ref_at get l i;
     n \<leftarrow> index_at get l i;
     d \<leftarrow> dependency_at get l i;
     Some (f\<lparr>if_index := n, if_depends := d\<rparr>)
   }"

fun own_facts :: "(nat \<Rightarrow> facts) \<Rightarrow> nat fact_list \<Rightarrow> nat list \<Rightarrow> facts option" where
  "own_facts get l [] = Some []"
| "own_facts get l (i # is) = do {
     f \<leftarrow> own_fact get l i;
     fs \<leftarrow> own_facts get l is;
     Some (f # fs)
   }"

definition ensure_owned_for_write :: "fact_heap \<Rightarrow> nat \<Rightarrow> fact_heap option" where
  "ensure_owned_for_write h x =
     (let l = hp_objects h ! x in
      if fl_shared l then map_option (put_owned h x) (own_facts (stored h) l [0..<list_size (stored h) l])
      else case fl_owned l of
        None \<Rightarrow> Some (put_owned h x [])
      | Some a \<Rightarrow> if use_count h a \<noteq> 1 then Some (put_owned h x (stored h a)) else Some h)"

definition push_back :: "fact_heap \<Rightarrow> nat \<Rightarrow> implicit_fact \<Rightarrow> fact_heap option" where
  "push_back h x f = do {
     h' \<leftarrow> ensure_owned_for_write h x;
     a \<leftarrow> fl_owned (hp_objects h' ! x);
     Some (h'\<lparr>hp_stores := (hp_stores h')[a := stored h' a @ [f]]\<rparr>)
   }"

subsection \<open>Operations on lists\<close>

text \<open>
  The default constructor, copies and moves, the destructor, and the members that write. \<open>None\<close> is an
  operation on an object that does not exist, a list moved to itself (its content is then unspecified) or a
  list appended to itself; an exception leaves the
  heap as it was.
\<close>

datatype list_op =
    Create
  | CopyOf nat
  | MoveOf nat
  | Assign nat nat
  | MoveAssign nat nat
  | Destroy nat
  | PushBack nat implicit_fact
  | AppendView nat nat "int list"
  | ReserveView nat

definition moved_from :: "'s fact_list \<Rightarrow> 's fact_list" where
  "moved_from l = \<lparr>fl_owned = None, fl_segments = [], fl_dependencies = [], fl_shared = fl_shared l\<rparr>"

definition with_objects :: "fact_heap \<Rightarrow> nat fact_list list \<Rightarrow> (list_error option \<times> fact_heap) option" where
  "with_objects h os = Some (None, h\<lparr>hp_objects := os\<rparr>)"

definition settle_write :: "fact_heap \<Rightarrow> nat \<Rightarrow> list_error + nat fact_list \<Rightarrow> (list_error option \<times> fact_heap) option" where
  "settle_write h x r =
     (case r of Inl e \<Rightarrow> Some (Some e, h) | Inr l \<Rightarrow> with_objects h ((hp_objects h)[x := l]))"

fun list_step :: "fact_heap \<Rightarrow> list_op \<Rightarrow> (list_error option \<times> fact_heap) option" where
  "list_step h Create = with_objects h (hp_objects h @ [empty_list])"
| "list_step h (CopyOf y) =
     (if y < length (hp_objects h) then with_objects h (hp_objects h @ [hp_objects h ! y]) else None)"
| "list_step h (MoveOf y) =
     (if y < length (hp_objects h)
      then with_objects h ((hp_objects h)[y := moved_from (hp_objects h ! y)] @ [hp_objects h ! y]) else None)"
| "list_step h (Assign x y) =
     (if x < length (hp_objects h) \<and> y < length (hp_objects h)
      then with_objects h ((hp_objects h)[x := hp_objects h ! y]) else None)"
| "list_step h (MoveAssign x y) =
     (if x < length (hp_objects h) \<and> y < length (hp_objects h) \<and> x \<noteq> y
      then with_objects h ((hp_objects h)[x := hp_objects h ! y, y := moved_from (hp_objects h ! y)]) else None)"
| "list_step h (Destroy x) =
     (if x < length (hp_objects h) then with_objects h ((hp_objects h)[x := empty_list]) else None)"
| "list_step h (PushBack x f) =
     (if x < length (hp_objects h) then map_option (Pair None) (push_back h x f) else None)"
| "list_step h (AppendView x y deps) =
     (if x < length (hp_objects h) \<and> y < length (hp_objects h) \<and> x \<noteq> y
      then settle_write h x (append_shared_view (stored h) (hp_objects h ! x) (hp_objects h ! y) deps) else None)"
| "list_step h (ReserveView x) =
     (if x < length (hp_objects h) then settle_write h x (reserve_shared_view (stored h) (hp_objects h ! x)) else None)"

fun list_run :: "fact_heap \<Rightarrow> list_op list \<Rightarrow> (list_error option list \<times> fact_heap) option" where
  "list_run h [] = Some ([], h)"
| "list_run h (p # ps) = do {
     (e, h') \<leftarrow> list_step h p;
     (es, h'') \<leftarrow> list_run h' ps;
     Some (e # es, h'')
   }"

subsection \<open>The same operations on independent sequences\<close>

type_synonym sequences = "(bool \<times> entry list) list"

definition numbered :: "entry \<Rightarrow> entry" where
  "numbered e = own_entry ((en_fact e)\<lparr>if_index := en_index e, if_depends := en_depends e\<rparr>)"

fun spec_step :: "sequences \<Rightarrow> list_op \<Rightarrow> (list_error option \<times> sequences) option" where
  "spec_step s Create = Some (None, s @ [(False, [])])"
| "spec_step s (CopyOf y) = (if y < length s then Some (None, s @ [s ! y]) else None)"
| "spec_step s (MoveOf y) = (if y < length s then Some (None, s[y := (fst (s ! y), [])] @ [s ! y]) else None)"
| "spec_step s (Assign x y) = (if x < length s \<and> y < length s then Some (None, s[x := s ! y]) else None)"
| "spec_step s (MoveAssign x y) =
     (if x < length s \<and> y < length s \<and> x \<noteq> y then Some (None, s[x := s ! y, y := (fst (s ! y), [])]) else None)"
| "spec_step s (Destroy x) = (if x < length s then Some (None, s[x := (False, [])]) else None)"
| "spec_step s (PushBack x f) =
     (if x < length s then Some (None, s[x := (False, map numbered (snd (s ! x)) @ [own_entry f])]) else None)"
| "spec_step s (AppendView x y deps) =
     (if x < length s \<and> y < length s \<and> x \<noteq> y
      then (case entries_append (s ! x) (snd (s ! y)) deps of
              Inl e \<Rightarrow> Some (Some e, s) | Inr l \<Rightarrow> Some (None, s[x := l])) else None)"
| "spec_step s (ReserveView x) =
     (if x < length s
      then Some (if \<not> fst (s ! x) \<and> snd (s ! x) \<noteq> [] then Some ReserveOnOwning else None, s) else None)"

fun spec_run :: "sequences \<Rightarrow> list_op list \<Rightarrow> (list_error option list \<times> sequences) option" where
  "spec_run s [] = Some ([], s)"
| "spec_run s (p # ps) = do {
     (e, s') \<leftarrow> spec_step s p;
     (es, s'') \<leftarrow> spec_run s' ps;
     Some (e # es, s'')
   }"

subsection \<open>The heap implements the sequences\<close>

definition heap_abs :: "fact_heap \<Rightarrow> sequences" where
  "heap_abs h = map (list_abs (stored h)) (hp_objects h)"

definition object_ok :: "fact_heap \<Rightarrow> nat fact_list \<Rightarrow> bool" where
  "object_ok h l \<longleftrightarrow> list_ok (stored h) l \<and> (\<forall>a \<in> set (refs_of l). a < length (hp_stores h))"

definition heap_ok :: "fact_heap \<Rightarrow> bool" where
  "heap_ok h \<longleftrightarrow> (\<forall>l \<in> set (hp_objects h). object_ok h l)"

lemma length_heap_abs [simp]: "length (heap_abs h) = length (hp_objects h)"
  by (simp add: heap_abs_def)

lemma nth_heap_abs [simp]: "x < length (hp_objects h) \<Longrightarrow> heap_abs h ! x = list_abs (stored h) (hp_objects h ! x)"
  by (simp add: heap_abs_def)

lemma heap_ok_nth: "heap_ok h \<Longrightarrow> x < length (hp_objects h) \<Longrightarrow> object_ok h (hp_objects h ! x)"
  by (simp add: heap_ok_def)

lemma stored_objects [simp]: "stored (h\<lparr>hp_objects := os\<rparr>) = stored h"
  by (simp add: stored_def fun_eq_iff)

lemma object_ok_objects [simp]: "object_ok (h\<lparr>hp_objects := os\<rparr>) = object_ok h"
  by (simp add: object_ok_def fun_eq_iff)

lemma empty_object [simp]: "object_ok h empty_list" "list_abs get empty_list = (False, [])"
  by (simp_all add: object_ok_def empty_list_def list_ok_def refs_of_def list_abs_def list_entries_def list_size_def)

lemma moved_object [simp]: "object_ok h (moved_from l)" "list_abs get (moved_from l) = (fl_shared l, [])"
  by (simp_all add: object_ok_def moved_from_def list_ok_def refs_of_def list_abs_def list_entries_def list_size_def)

lemma fst_list_abs [simp]: "fst (list_abs get l) = fl_shared l"
  and snd_list_abs [simp]: "snd (list_abs get l) = list_entries get l"
  by (simp_all add: list_abs_def)

text \<open>A use count of one means that no other object refers to the storage.\<close>

lemma count_list_concat: "count_list (concat xss) a = sum_list (map (\<lambda>xs. count_list xs a) xss)"
  by (induction xss) simp_all

lemma use_count_one:
  assumes one: "use_count h a = 1" and x: "x < length (hp_objects h)" and ax: "a \<in> set (refs_of (hp_objects h ! x))"
    and y: "y < length (hp_objects h)" and ne: "y \<noteq> x"
  shows "a \<notin> set (refs_of (hp_objects h ! y))"
proof -
  let ?c = "\<lambda>l. count_list (refs_of l) a"
  define os where "os = hp_objects h"
  have split: "os = take x os @ os ! x # drop (Suc x) os"
    using x by (simp add: id_take_nth_drop os_def)
  have "sum_list (map ?c os) = 1"
    using one by (simp add: use_count_def count_list_concat comp_def os_def)
  moreover have "0 < ?c (os ! x)" using ax count_list_0_iff [of "refs_of (os ! x)" a] by (simp add: os_def)
  moreover have "sum_list (map ?c os) = sum_list (map ?c (take x os)) + ?c (os ! x) + sum_list (map ?c (drop (Suc x) os))"
    by (subst split) simp
  ultimately have zero: "sum_list (map ?c (take x os)) = 0" "sum_list (map ?c (drop (Suc x) os)) = 0" by linarith+
  have "os ! y \<in> set (take x os) \<or> os ! y \<in> set (drop (Suc x) os)"
  proof (cases "y < x")
    case True
    then show ?thesis using y by (auto simp: os_def in_set_conv_nth intro!: exI [of _ y])
  next
    case False
    then have "drop (Suc x) os ! (y - Suc x) = os ! y" "y - Suc x < length (drop (Suc x) os)"
      using y ne by (simp_all add: os_def)
    then show ?thesis by (metis nth_mem)
  qed
  then have "?c (os ! y) = 0" using zero by auto
  then show ?thesis by (simp add: count_list_0_iff os_def)
qed

text \<open>An object keeps its meaning where the storages it refers to are kept.\<close>

lemma object_kept:
  assumes "object_ok h l" and "length (hp_stores h) \<le> length (hp_stores h')"
    and "\<And>a. a \<in> set (refs_of l) \<Longrightarrow> stored h' a = stored h a"
  shows "object_ok h' l \<and> list_abs (stored h') l = list_abs (stored h) l"
  using assms list_cong [of l "stored h'" "stored h"] by (force simp: object_ok_def list_abs_def)

lemma owning_simps [simp]:
  "refs_of (owning a) = [a]" "list_ok get (owning a)" "fl_owned (owning a) = Some a" "\<not> fl_shared (owning a)"
  by (simp_all add: owning_def refs_of_def list_ok_def)

lemma owned_abs: "list_ok get l \<Longrightarrow> \<not> fl_shared l \<Longrightarrow> fl_owned l = Some a \<Longrightarrow> list_abs get l = (False, map own_entry (get a))"
  by (simp add: list_abs_def list_entries_owned list_facts_def)

text \<open>An object that alone refers to its storage, as a write needs it.\<close>

definition sole_owner :: "fact_heap \<Rightarrow> nat \<Rightarrow> nat \<Rightarrow> bool" where
  "sole_owner h x a \<longleftrightarrow> x < length (hp_objects h) \<and> fl_owned (hp_objects h ! x) = Some a \<and> \<not> fl_shared (hp_objects h ! x) \<and>
     (\<forall>y < length (hp_objects h). y \<noteq> x \<longrightarrow> a \<notin> set (refs_of (hp_objects h ! y)))"

lemma put_owned_ok:
  assumes ok: "heap_ok h" and x: "x < length (hp_objects h)"
  shows "heap_ok (put_owned h x fs) \<and> heap_abs (put_owned h x fs) = (heap_abs h)[x := (False, map own_entry fs)] \<and>
    sole_owner (put_owned h x fs) x (length (hp_stores h))"
proof -
  let ?h = "put_owned h x fs" and ?n = "length (hp_stores h)"
  have objects: "hp_objects ?h = (hp_objects h)[x := owning ?n]" by (simp add: put_owned_def)
  have old: "stored ?h a = stored h a" if "a < ?n" for a
    using that by (simp add: put_owned_def stored_def nth_append)
  have new: "stored ?h ?n = fs" by (simp add: put_owned_def stored_def)
  have kept: "object_ok ?h l \<and> list_abs (stored ?h) l = list_abs (stored h) l" if "object_ok h l" for l
    using that by (intro object_kept) (auto simp: put_owned_def object_ok_def intro: old [unfolded put_owned_def])
  have own: "object_ok ?h (owning ?n)" "list_abs (stored ?h) (owning ?n) = (False, map own_entry fs)"
    by (simp_all add: object_ok_def put_owned_def owned_abs new [unfolded put_owned_def])
  have "heap_ok ?h"
    unfolding heap_ok_def objects using own(1) kept ok by (auto simp: heap_ok_def dest!: set_update_subset_insert [THEN subsetD])
  moreover have "heap_abs ?h = (heap_abs h)[x := (False, map own_entry fs)]"
  proof (rule nth_equalityI)
    show "length (heap_abs ?h) = length ((heap_abs h)[x := (False, map own_entry fs)])" by (simp add: objects)
    fix i assume "i < length (heap_abs ?h)"
    then have i: "i < length (hp_objects h)" by (simp add: objects)
    then show "heap_abs ?h ! i = (heap_abs h)[x := (False, map own_entry fs)] ! i"
      using own(2) kept [OF heap_ok_nth [OF ok i]] by (cases "i = x") (simp_all add: objects)
  qed
  moreover have "sole_owner ?h x ?n"
    unfolding sole_owner_def objects using x heap_ok_nth [OF ok] by (auto simp: object_ok_def)
  ultimately show ?thesis by simp
qed

lemma own_fact_Some:
  assumes "list_ok get l" and "i < list_size get l"
  shows "own_fact get l i = Some ((the (ref_at get l i))\<lparr>if_index := the (index_at get l i), if_depends := the (dependency_at get l i)\<rparr>)"
  using assms ref_at_facts [OF assms]
  by (auto simp: own_fact_def index_at_def dependency_at_def list_size_def split: option.splits)

lemma own_facts_Some:
  assumes "list_ok get l" and "\<And>i. i \<in> set is \<Longrightarrow> i < list_size get l"
  shows "own_facts get l is = Some (map (\<lambda>i. (the (ref_at get l i))\<lparr>if_index := the (index_at get l i), if_depends := the (dependency_at get l i)\<rparr>) is)"
  using assms by (induction "is") (simp_all add: own_fact_Some)

lemma own_facts_entries:
  assumes "list_ok get l"
  shows "\<exists>fs. own_facts get l [0..<list_size get l] = Some fs \<and> map own_entry fs = map numbered (list_entries get l)"
  using own_facts_Some [OF assms, of "[0..<list_size get l]"]
  by (simp add: numbered_def list_entries_def comp_def)

lemma numbered_own [simp]: "numbered (own_entry f) = own_entry f"
  by (simp add: numbered_def own_entry_def)

lemma ensure_owned_ok:
  assumes ok: "heap_ok h" and x: "x < length (hp_objects h)"
  shows "\<exists>h' a. ensure_owned_for_write h x = Some h' \<and> heap_ok h' \<and> sole_owner h' x a \<and>
    heap_abs h' = (heap_abs h)[x := (False, map numbered (snd (heap_abs h ! x)))]"
proof -
  define l where "l = hp_objects h ! x"
  have l: "list_ok (stored h) l" using heap_ok_nth [OF ok x] by (simp add: object_ok_def l_def)
  show ?thesis
  proof (cases "fl_shared l")
    case True
    obtain fs where fs: "own_facts (stored h) l [0..<list_size (stored h) l] = Some fs"
      "map own_entry fs = map numbered (list_entries (stored h) l)" using own_facts_entries [OF l] by blast
    have "ensure_owned_for_write h x = Some (put_owned h x fs)"
      using True fs(1) by (simp add: ensure_owned_for_write_def l_def)
    then show ?thesis using put_owned_ok [OF ok x, of fs] fs(2) x by (auto simp: l_def)
  next
    case False
    show ?thesis
    proof (cases "fl_owned l")
      case None
      have "list_entries (stored h) l = []" using l None False by (simp add: list_entries_owned list_facts_def)
      moreover have "ensure_owned_for_write h x = Some (put_owned h x [])"
        using None False by (simp add: ensure_owned_for_write_def l_def)
      ultimately show ?thesis using put_owned_ok [OF ok x, of "[]"] x by (auto simp: l_def)
    next
      case (Some a)
      have abs: "list_abs (stored h) l = (False, map own_entry (stored h a))" by (rule owned_abs [OF l False Some])
      then have same: "map numbered (snd (heap_abs h ! x)) = map own_entry (stored h a)"
        using x by (simp add: l_def list_abs_def)
      show ?thesis
      proof (cases "use_count h a = 1")
        case True
        have "sole_owner h x a"
        proof -
          have "a \<in> set (refs_of (hp_objects h ! x))" using Some by (simp add: l_def refs_of_def)
          then show ?thesis unfolding sole_owner_def using use_count_one [OF True x] Some False x by (simp add: l_def)
        qed
        moreover have "(heap_abs h)[x := (False, map numbered (snd (heap_abs h ! x)))] = heap_abs h"
          unfolding same using abs x by (simp add: l_def list_update_same_conv)
        moreover have "ensure_owned_for_write h x = Some h"
          using True Some False by (simp add: ensure_owned_for_write_def l_def)
        ultimately show ?thesis using ok by auto
      next
        case shared: False
        have "ensure_owned_for_write h x = Some (put_owned h x (stored h a))"
          using shared Some False by (simp add: ensure_owned_for_write_def l_def)
        then show ?thesis using put_owned_ok [OF ok x, of "stored h a"] by (auto simp: same)
      qed
    qed
  qed
qed

lemma push_back_ok:
  assumes ok: "heap_ok h" and x: "x < length (hp_objects h)"
  shows "\<exists>h'. push_back h x f = Some h' \<and> heap_ok h' \<and>
    heap_abs h' = (heap_abs h)[x := (False, map numbered (snd (heap_abs h ! x)) @ [own_entry f])]"
proof -
  obtain k a where k: "ensure_owned_for_write h x = Some k" "heap_ok k" "sole_owner k x a"
    "heap_abs k = (heap_abs h)[x := (False, map numbered (snd (heap_abs h ! x)))]"
    using ensure_owned_ok [OF ok x] by blast
  let ?h = "k\<lparr>hp_stores := (hp_stores k)[a := stored k a @ [f]]\<rparr>"
  have xk: "x < length (hp_objects k)" "fl_owned (hp_objects k ! x) = Some a" "\<not> fl_shared (hp_objects k ! x)"
    using k(3) by (simp_all add: sole_owner_def)
  have ax: "object_ok k (hp_objects k ! x)" "a < length (hp_stores k)"
    using heap_ok_nth [OF k(2) xk(1)] xk(2) by (simp_all add: object_ok_def refs_of_def)
  have at: "stored ?h b = (if b = a then stored k a @ [f] else stored k b)" for b
    using ax(2) by (simp add: stored_def)
  have other: "object_ok ?h (hp_objects k ! y) \<and> list_abs (stored ?h) (hp_objects k ! y) = list_abs (stored k) (hp_objects k ! y)"
    if "y < length (hp_objects k)" "y \<noteq> x" for y
    using that k(3) heap_ok_nth [OF k(2)] by (intro object_kept) (auto simp: at sole_owner_def)
  have lx: "list_ok get (hp_objects k ! x)" for get
    using ax(1) xk(3) by (simp add: object_ok_def list_ok_def)
  have here: "object_ok ?h (hp_objects k ! x)"
    using ax(1) lx by (simp add: object_ok_def)
  have absx: "list_abs (stored ?h) (hp_objects k ! x) = (False, map own_entry (stored k a) @ [own_entry f])"
    using owned_abs [OF lx xk(3) xk(2), of "stored ?h"] by (simp add: at)
  have "heap_abs k ! x = (False, map own_entry (stored k a))"
    using owned_abs [OF lx xk(3) xk(2)] xk(1) by simp
  then have num: "map numbered (snd (heap_abs h ! x)) = map own_entry (stored k a)" using k(4) x by simp
  have "heap_ok ?h"
    using other here by (force simp: heap_ok_def in_set_conv_nth)
  moreover have "heap_abs ?h = (heap_abs h)[x := (False, map numbered (snd (heap_abs h ! x)) @ [own_entry f])]"
  proof (rule nth_equalityI)
    have len: "length (hp_objects k) = length (hp_objects h)" using k(4) by (metis length_heap_abs length_list_update)
    then show "length (heap_abs ?h) = length ((heap_abs h)[x := (False, map numbered (snd (heap_abs h ! x)) @ [own_entry f])])"
      by simp
    fix i assume "i < length (heap_abs ?h)"
    then have i: "i < length (hp_objects k)" by simp
    show "heap_abs ?h ! i = (heap_abs h)[x := (False, map numbered (snd (heap_abs h ! x)) @ [own_entry f])] ! i"
    proof (cases "i = x")
      case True
      then show ?thesis using absx xk(1) x num by simp
    next
      case False
      then have "heap_abs ?h ! i = heap_abs k ! i" using other [OF i] i by simp
      also have "\<dots> = heap_abs h ! i" using k(4) False by simp
      finally show ?thesis using False by simp
    qed
  qed
  moreover have "push_back h x f = Some ?h" using k(1) xk(2) by (simp add: push_back_def)
  ultimately show ?thesis by blast
qed

lemma objects_replaced:
  assumes "heap_ok h" and "object_ok h l"
  shows "heap_ok (h\<lparr>hp_objects := (hp_objects h)[x := l]\<rparr>)"
    and "heap_abs (h\<lparr>hp_objects := (hp_objects h)[x := l]\<rparr>) = (heap_abs h)[x := list_abs (stored h) l]"
  using assms by (auto simp: heap_ok_def heap_abs_def map_update dest!: set_update_subset_insert [THEN subsetD])

lemma objects_added:
  assumes "heap_ok h" and "object_ok h l"
  shows "heap_ok (h\<lparr>hp_objects := hp_objects h @ [l]\<rparr>)"
    and "heap_abs (h\<lparr>hp_objects := hp_objects h @ [l]\<rparr>) = heap_abs h @ [list_abs (stored h) l]"
  using assms by (auto simp: heap_ok_def heap_abs_def)

lemma settle_write_ok:
  assumes "heap_ok h" and "\<And>l. r = Inr l \<Longrightarrow> object_ok h l"
  shows "\<exists>e h'. settle_write h x r = Some (e, h') \<and> heap_ok h' \<and>
    (case r of Inl k \<Rightarrow> e = Some k \<and> heap_abs h' = heap_abs h
     | Inr l \<Rightarrow> e = None \<and> heap_abs h' = (heap_abs h)[x := list_abs (stored h) l])"
  using assms objects_replaced [OF assms(1)]
  by (auto simp: settle_write_def with_objects_def split: sum.splits)

lemma append_segments_refs:
  "s \<in> set (append_segments acc v ss) \<Longrightarrow> sg_storage s \<in> sg_storage ` set acc \<union> sg_storage ` set ss"
  by (induction acc v ss rule: append_segments.induct) auto

lemma append_object:
  assumes "append_shared_view (stored h) dst src deps = Inr l" and "object_ok h dst" and "object_ok h src"
  shows "object_ok h l"
proof -
  have "list_ok (stored h) l" using append_result [OF assms(1)] assms(2,3) by (simp add: object_ok_def)
  moreover have "set (refs_of l) \<subseteq> set (refs_of dst) \<union> set (refs_of src)"
    using assms(1)
    by (auto simp: append_shared_view_def refs_of_def Let_def split: if_splits option.splits dest!: append_segments_refs)
  ultimately show ?thesis using assms(2,3) by (fastforce simp: object_ok_def)
qed

lemma list_step_refines:
  assumes ok: "heap_ok h"
  shows "map_option (map_prod id heap_abs) (list_step h p) = spec_step (heap_abs h) p \<and>
    (\<forall>e h'. list_step h p = Some (e, h') \<longrightarrow> heap_ok h')"
proof (cases p)
  case Create
  then show ?thesis using objects_added [OF ok, of empty_list] by (simp add: with_objects_def)
next
  case (CopyOf y)
  then show ?thesis using objects_added [OF ok heap_ok_nth [OF ok, of y]] by (simp add: with_objects_def)
next
  case (MoveOf y)
  show ?thesis
  proof (cases "y < length (hp_objects h)")
    case True
    let ?k = "h\<lparr>hp_objects := (hp_objects h)[y := moved_from (hp_objects h ! y)]\<rparr>"
    have k: "heap_ok ?k" "heap_abs ?k = (heap_abs h)[y := (fl_shared (hp_objects h ! y), [])]"
      using objects_replaced [OF ok, of "moved_from (hp_objects h ! y)" y] by simp_all
    have "object_ok ?k (hp_objects h ! y)" using heap_ok_nth [OF ok True] by simp
    from objects_added [OF k(1) this] k(2) True MoveOf show ?thesis by (simp add: with_objects_def)
  qed (simp add: MoveOf)
next
  case (Assign x y)
  then show ?thesis using objects_replaced [OF ok heap_ok_nth [OF ok, of y], of x] by (simp add: with_objects_def)
next
  case (MoveAssign x y)
  show ?thesis
  proof (cases "x < length (hp_objects h) \<and> y < length (hp_objects h) \<and> x \<noteq> y")
    case True
    let ?k = "h\<lparr>hp_objects := (hp_objects h)[x := hp_objects h ! y]\<rparr>"
    have y: "object_ok h (hp_objects h ! y)" using heap_ok_nth [OF ok] True by simp
    have k: "heap_ok ?k" "heap_abs ?k = (heap_abs h)[x := heap_abs h ! y]"
      using objects_replaced [OF ok y, of x] True by simp_all
    from objects_replaced [OF k(1), of "moved_from (hp_objects h ! y)" y] k(2) True MoveAssign show ?thesis
      by (simp add: with_objects_def)
  qed (auto simp: MoveAssign)
next
  case (Destroy x)
  then show ?thesis using objects_replaced [OF ok, of empty_list x] by (simp add: with_objects_def)
next
  case (PushBack x f)
  show ?thesis
  proof (cases "x < length (hp_objects h)")
    case True
    then show ?thesis using push_back_ok [OF ok True, of f] PushBack by auto
  qed (simp add: PushBack)
next
  case (AppendView x y deps)
  show ?thesis
  proof (cases "x < length (hp_objects h) \<and> y < length (hp_objects h) \<and> x \<noteq> y")
    case True
    let ?r = "append_shared_view (stored h) (hp_objects h ! x) (hp_objects h ! y) deps"
    have objs: "object_ok h (hp_objects h ! x)" "object_ok h (hp_objects h ! y)" using heap_ok_nth [OF ok] True by simp_all
    have "entries_append (heap_abs h ! x) (snd (heap_abs h ! y)) deps = map_sum id (list_abs (stored h)) ?r"
      using append_entries [of "stored h" "hp_objects h ! x" "hp_objects h ! y" deps] objs True by (simp add: object_ok_def)
    moreover have "\<And>l. ?r = Inr l \<Longrightarrow> object_ok h l" using append_object [OF _ objs] by blast
    ultimately show ?thesis using settle_write_ok [of h ?r x, OF ok] True AppendView
      by (cases ?r) auto
  qed (auto simp: AppendView)
next
  case (ReserveView x)
  show ?thesis
  proof (cases "x < length (hp_objects h)")
    case True
    let ?r = "reserve_shared_view (stored h) (hp_objects h ! x)"
    have r: "?r = (if \<not> fst (heap_abs h ! x) \<and> snd (heap_abs h ! x) \<noteq> [] then Inl ReserveOnOwning else Inr (hp_objects h ! x))"
      using True by (simp add: reserve_shared_view_def flip: length_0_conv)
    have "(heap_abs h)[x := list_abs (stored h) (hp_objects h ! x)] = heap_abs h"
      using True by (simp add: list_update_same_conv)
    moreover have "\<And>l. ?r = Inr l \<Longrightarrow> object_ok h l" using r heap_ok_nth [OF ok True] by (auto split: if_splits)
    ultimately show ?thesis using settle_write_ok [of h ?r x, OF ok] True r ReserveView by (auto split: if_splits)
  qed (simp add: ReserveView)
qed

lemma list_run_refines:
  "heap_ok h \<Longrightarrow> map_option (map_prod id heap_abs) (list_run h ps) = spec_run (heap_abs h) ps"
proof (induction ps arbitrary: h)
  case (Cons p ps)
  have step: "map_option (map_prod id heap_abs) (list_step h p) = spec_step (heap_abs h) p"
    and kept: "\<And>e h'. list_step h p = Some (e, h') \<Longrightarrow> heap_ok h'"
    using list_step_refines [OF Cons.prems, of p] by auto
  show ?case
  proof (cases "list_step h p")
    case None
    then show ?thesis using step by (simp flip: step)
  next
    case (Some r)
    obtain e h' where r: "r = (e, h')" by (cases r)
    then have ih: "map_option (map_prod id heap_abs) (list_run h' ps) = spec_run (heap_abs h') ps"
      using Cons.IH [OF kept] Some by blast
    show ?thesis using Some r by (cases "list_run h' ps") (auto simp flip: step ih)
  qed
qed simp

subsection \<open>Properties\<close>

text \<open>
  C0: Sharing of storages is not observable. Any sequence of constructions, copies, moves,
  assignments, destructions, pushes and view appends on lists of facts returns the same errors, and
  leaves every list with the same sequence of facts, numbers and dependencies, as the operations on
  independent sequences: a push through one list never changes what a copy or a view of it shows.
\<close>
theorem fact_lists_independent:
  "map_option (map_prod id heap_abs) (list_run empty_heap ps) = spec_run [] ps"
  using list_run_refines [of empty_heap ps] by (simp add: heap_ok_def empty_heap_def heap_abs_def)

end
