(* ===== verification/ImplicitMerge.thy ===== *)
theory ImplicitMerge
  imports ImplicitFacts CsvText
begin

section \<open>Merging the implicit execution planes\<close>

text \<open>
  Models \<^verbatim>\<open>src/core/implicit_exec.cpp\<close>: the planes of the formats become one plane whose
  facts are a view of theirs, with numbers of their own and dependencies that point at the renumbered
  facts; the merged plane is written as a CSV file. Lists refer to their facts directly
  (\<^verbatim>\<open>ImplicitFactHeap\<close> shows that sharing is not observable). The results are what the merged
  facts are, when the merged plane claims to be resolved, and that merging once more changes nothing.
\<close>

subsection \<open>Planes\<close>

record implicit_info =
  ii_state :: string
  ii_error :: string
  ii_informational :: nat
  ii_review :: nat
  ii_high :: nat
  ii_anomaly :: nat
  ii_unresolved :: nat
  ii_deterministic :: nat
  ii_raw_symbols :: nat
  ii_limited :: bool
  ii_facts :: "facts fact_list"

record plane_ref =
  pr_source :: string
  pr_info :: "implicit_info option"

definition empty_info :: implicit_info where
  "empty_info =
     \<lparr>ii_state = ''NOT_PRESENT'', ii_error = [], ii_informational = 0, ii_review = 0, ii_high = 0, ii_anomaly = 0,
      ii_unresolved = 0, ii_deterministic = 0, ii_raw_symbols = 0, ii_limited = False, ii_facts = empty_list\<rparr>"

text \<open>A list of this theory refers to the facts themselves.\<close>

definition facts_of :: "facts \<Rightarrow> facts" where
  "facts_of fs = fs"

abbreviation entries_of :: "facts fact_list \<Rightarrow> entry list" where
  "entries_of \<equiv> list_entries facts_of"

record merge_state =
  ms_out :: implicit_info
  ms_partial :: bool
  ms_failed :: bool
  ms_unsupported :: bool

definition append_error :: "string \<Rightarrow> string \<Rightarrow> implicit_info \<Rightarrow> implicit_info" where
  "append_error source err out =
     (if err = [] then out
      else out\<lparr>ii_error := ii_error out @ (if ii_error out = [] then [] else ''; '') @
             (if source = [] then ''implicit'' else source) @ '': '' @ err\<rparr>)"

definition note_state :: "string \<Rightarrow> merge_state \<Rightarrow> merge_state" where
  "note_state state m =
     (if state = ''RESOLVED'' then m
      else if state = ''PARTIAL'' then m\<lparr>ms_partial := True\<rparr>
      else if state = ''FAILED'' then m\<lparr>ms_failed := True\<rparr>
      else if state = ''UNSUPPORTED'' then m\<lparr>ms_unsupported := True\<rparr>
      else if state \<noteq> [] then m\<lparr>ms_partial := True\<rparr>
      else m)"

definition note_problem :: "string \<Rightarrow> string \<Rightarrow> merge_state \<Rightarrow> merge_state" where
  "note_problem source what m = m\<lparr>ms_partial := True, ms_out := append_error source what (ms_out m)\<rparr>"

text \<open>The map from local numbers to merged ones; the first fact with a number keeps it.\<close>

fun remap_loop :: "facts fact_list \<Rightarrow> nat \<Rightarrow> nat list \<Rightarrow> (nat \<rightharpoonup> nat) \<Rightarrow> bool \<Rightarrow> ((nat \<rightharpoonup> nat) \<times> bool) option" where
  "remap_loop l base [] remap duplicate = Some (remap, duplicate)"
| "remap_loop l base (i # is) remap duplicate = do {
     n \<leftarrow> index_at facts_of l i;
     (if remap n = None then remap_loop l base is (remap(n \<mapsto> wrap32 (base + wrap32 i))) duplicate
      else remap_loop l base is remap True)
   }"

definition count_fact :: "implicit_fact \<Rightarrow> implicit_info \<Rightarrow> implicit_info" where
  "count_fact f out =
     (let o1 = (if if_priority f = ''HIGH'' then out\<lparr>ii_high := ii_high out + 1\<rparr>
                else if if_priority f = ''REVIEW'' then out\<lparr>ii_review := ii_review out + 1\<rparr>
                else out\<lparr>ii_informational := ii_informational out + 1\<rparr>);
          o2 = (if if_anomaly_class f \<noteq> [] \<and> if_anomaly_class f \<noteq> ''NONE'' then o1\<lparr>ii_anomaly := ii_anomaly o1 + 1\<rparr> else o1)
      in if if_evidence_state f = ''UNRESOLVED_RUNTIME_SEMANTICS'' then o2\<lparr>ii_unresolved := ii_unresolved o2 + 1\<rparr> else o2)"

text \<open>\<^verbatim>\<open>static_cast<std::uint32_t>\<close> of a dependency that is not negative.\<close>

definition low32 :: "int \<Rightarrow> nat" where
  "low32 d = nat (d mod 4294967296)"

definition resolve_dependency :: "string \<Rightarrow> (nat \<rightharpoonup> nat) \<Rightarrow> int \<Rightarrow> merge_state \<Rightarrow> int \<times> merge_state" where
  "resolve_dependency source remap d m =
     (if 0 \<le> d then
        (case remap (low32 d) of
           Some n \<Rightarrow> (int n, m)
         | None \<Rightarrow> (-1, note_problem source (''missing dependency fact index '' @ to_dec (nat d)) m))
      else (-1, m))"

fun fact_loop :: "string \<Rightarrow> facts fact_list \<Rightarrow> (nat \<rightharpoonup> nat) \<Rightarrow> nat list \<Rightarrow> int list \<Rightarrow> merge_state \<Rightarrow> (int list \<times> merge_state) option" where
  "fact_loop source l remap [] deps m = Some (deps, m)"
| "fact_loop source l remap (i # is) deps m = do {
     f \<leftarrow> ref_at facts_of l i;
     d \<leftarrow> dependency_at facts_of l i;
     let (dependency, m') = resolve_dependency source remap d m;
     fact_loop source l remap is (deps @ [dependency]) (m'\<lparr>ms_out := count_fact f (ms_out m')\<rparr>)
   }"

text \<open>One plane. \<open>None\<close> is an undefined read or an exception that leaves the routine.\<close>

definition merge_plane :: "string \<Rightarrow> implicit_info \<Rightarrow> merge_state \<Rightarrow> merge_state option" where
  "merge_plane source info m = do {
     let out = ms_out m;
     let m1 = m\<lparr>ms_out := out\<lparr>ii_limited := (ii_limited out \<or> ii_limited info),
                               ii_deterministic := wrap64 (ii_deterministic out + ii_deterministic info),
                               ii_raw_symbols := wrap64 (ii_raw_symbols out + ii_raw_symbols info)\<rparr>\<rparr>;
     let m2 = note_state (ii_state info) m1;
     let m3 = m2\<lparr>ms_out := append_error source (ii_error info) (ms_out m2)\<rparr>;
     let l = ii_facts info;
     let base = wrap32 (list_size facts_of (ii_facts (ms_out m3)));
     (remap, duplicate) \<leftarrow> remap_loop l base [0..<list_size facts_of l] Map.empty False;
     let m4 = (if duplicate then note_problem source ''duplicate local fact index'' m3 else m3);
     (deps, m5) \<leftarrow> fact_loop source l remap [0..<list_size facts_of l] [] m4;
     (case append_shared_view facts_of (ii_facts (ms_out m5)) l deps of
        Inl e \<Rightarrow> None
      | Inr v \<Rightarrow> Some (m5\<lparr>ms_out := (ms_out m5)\<lparr>ii_facts := v\<rparr>\<rparr>))
   }"

definition active :: "plane_ref \<Rightarrow> (string \<times> implicit_info) list" where
  "active p = (case pr_info p of None \<Rightarrow> [] | Some i \<Rightarrow> if ii_state i \<noteq> ''NOT_PRESENT'' then [(pr_source p, i)] else [])"

definition active_planes :: "plane_ref list \<Rightarrow> (string \<times> implicit_info) list" where
  "active_planes ps = concat (map active ps)"

fun merge_loop :: "plane_ref list \<Rightarrow> merge_state \<Rightarrow> merge_state option" where
  "merge_loop [] m = Some m"
| "merge_loop (p # ps) m =
     (case pr_info p of
        None \<Rightarrow> merge_loop ps m
      | Some i \<Rightarrow> if ii_state i = ''NOT_PRESENT'' then merge_loop ps m
                  else Option.bind (merge_plane (pr_source p) i m) (merge_loop ps))"

definition merged_state :: "merge_state \<Rightarrow> string" where
  "merged_state m =
     (if list_size facts_of (ii_facts (ms_out m)) \<noteq> 0 then
        (if ms_partial m \<or> ms_failed m \<or> ms_unsupported m \<or> ii_limited (ms_out m) then ''PARTIAL'' else ''RESOLVED'')
      else if ms_failed m then ''FAILED''
      else if ms_partial m then ''PARTIAL''
      else if ms_unsupported m then ''UNSUPPORTED''
      else ''NOT_PRESENT'')"

definition merge_implicit_execution :: "plane_ref list \<Rightarrow> implicit_info option" where
  "merge_implicit_execution ps =
     (case reserve_shared_view facts_of (ii_facts empty_info) of
        Inl e \<Rightarrow> None
      | Inr l \<Rightarrow> map_option (\<lambda>m. (ms_out m)\<lparr>ii_state := merged_state m\<rparr>)
          (merge_loop ps \<lparr>ms_out = empty_info\<lparr>ii_facts := l\<rparr>, ms_partial = False, ms_failed = False, ms_unsupported = False\<rparr>))"

subsection \<open>The CSV file\<close>

definition flag_text :: "bool \<Rightarrow> string" where
  "flag_text b = (if b then ''1'' else ''0'')"

definition hex_when :: "bool \<Rightarrow> nat \<Rightarrow> string" where
  "hex_when b n = (if b then ''0x'' @ to_hex n else [])"

definition implicit_columns :: "string list" where
  "implicit_columns =
     [''fact_index'', ''depends_on_fact_index'', ''format'', ''ecosystem'', ''phase'', ''trigger'', ''relation'', ''source_kind'',
      ''source_index'', ''source_file_backed'', ''source_file_offset'', ''source_va'', ''source_size'', ''target_kind'', ''target_va'',
      ''target_file_backed'', ''target_file_offset'', ''target_token'', ''target_function_index'', ''target_name'', ''evidence_state'',
      ''mutability'', ''execution_condition'', ''anomaly_class'', ''priority'', ''priority_reason'', ''detail'']"

definition implicit_line :: "entry \<Rightarrow> string" where
  "implicit_line e = (let x = en_fact e in csv_line
     [to_dec (en_index e), if 0 \<le> en_depends e then to_dec (nat (en_depends e)) else [],
      csv_quote (if_format x), csv_quote (if_ecosystem x), csv_quote (if_phase x), csv_quote (if_trigger x),
      csv_quote (if_relation x), csv_quote (if_source_kind x), to_dec (if_source_index x), flag_text (if_source_file_backed x),
      hex_when (if_source_file_backed x) (if_source_file_offset x), hex_when (if_source_va x \<noteq> 0) (if_source_va x),
      to_dec (if_source_size x), csv_quote (if_target_kind x), hex_when (if_target_va x \<noteq> 0) (if_target_va x),
      flag_text (if_target_file_backed x), hex_when (if_target_file_backed x) (if_target_file_offset x),
      hex_when (if_target_token x \<noteq> 0) (if_target_token x), to_dec (if_target_function_index x), csv_quote (if_target_name x),
      csv_quote (if_evidence_state x), csv_quote (if_mutability x), csv_quote (if_condition x), csv_quote (if_anomaly_class x),
      csv_quote (if_priority x), csv_quote (if_priority_reason x), csv_quote (if_detail x)])"

fun implicit_rows :: "facts fact_list \<Rightarrow> nat list \<Rightarrow> string option" where
  "implicit_rows l [] = Some []"
| "implicit_rows l (i # is) = do {
     x \<leftarrow> ref_at facts_of l i;
     n \<leftarrow> index_at facts_of l i;
     d \<leftarrow> dependency_at facts_of l i;
     rest \<leftarrow> implicit_rows l is;
     Some (implicit_line \<lparr>en_fact = x, en_index = n, en_depends = d\<rparr> @ rest)
   }"

text \<open>Whether the stream opens and whether it is good when closed; the contents of the file that is left.\<close>

record implicit_extract =
  ie_success :: bool
  ie_csv :: "string option"
  ie_count :: nat
  ie_error :: string

definition refused_extract :: "string \<Rightarrow> implicit_extract" where
  "refused_extract why = \<lparr>ie_success = False, ie_csv = None, ie_count = 0, ie_error = why\<rparr>"

definition extract_implicit_execution ::
    "bool \<Rightarrow> bool \<Rightarrow> implicit_info \<Rightarrow> string \<Rightarrow> (implicit_extract \<times> string option) option" where
  "extract_implicit_execution opens good info csv =
     (if ii_state info = ''NOT_PRESENT'' then Some (refused_extract ''implicit execution plane is not present'', None)
      else if \<not> opens then Some (refused_extract ''cannot create implicit execution CSV'', None)
      else do {
        rows \<leftarrow> implicit_rows (ii_facts info) [0..<list_size facts_of (ii_facts info)];
        if \<not> good then Some (refused_extract ''write implicit execution CSV failed'', None)
        else Some (\<lparr>ie_success = True, ie_csv = Some csv, ie_count = list_size facts_of (ii_facts info), ie_error = []\<rparr>,
                   Some (csv_line implicit_columns @ rows))
      })"

subsection \<open>What the merged facts are\<close>

text \<open>
  The specification: every plane's entries in turn, numbered by their position, with dependencies
  that point at the first fact of the same plane that has the local number.
\<close>

fun find_index :: "nat \<Rightarrow> entry list \<Rightarrow> nat option" where
  "find_index n [] = None"
| "find_index n (e # es) = (if en_index e = n then Some 0 else map_option Suc (find_index n es))"

definition resolved :: "nat \<Rightarrow> entry list \<Rightarrow> int \<Rightarrow> int" where
  "resolved base es d =
     (if 0 \<le> d then case find_index (low32 d) es of Some j \<Rightarrow> int (wrap32 (base + j)) | None \<Rightarrow> -1 else -1)"

definition moved_entries :: "nat \<Rightarrow> entry list \<Rightarrow> entry list" where
  "moved_entries base es = view_entries base (map en_fact es) (map (resolved base es \<circ> en_depends) es)"

fun merged_entries :: "nat \<Rightarrow> entry list list \<Rightarrow> entry list" where
  "merged_entries base [] = []"
| "merged_entries base (es # ess) = moved_entries base es @ merged_entries (base + length es) ess"

text \<open>
  The local numbers are distinct, and every dependency, cut to 32 bits, is the number of some fact.
\<close>

definition consistent :: "entry list \<Rightarrow> bool" where
  "consistent es \<longleftrightarrow> distinct (map en_index es) \<and>
     (\<forall>e \<in> set es. 0 \<le> en_depends e \<longrightarrow> (\<exists>f \<in> set es. int (en_index f) = en_depends e mod 2 ^ 32))"

lemma consistent_compute:
  "consistent es \<longleftrightarrow> distinct (map en_index es) \<and>
     list_all (\<lambda>e. 0 \<le> en_depends e \<longrightarrow> list_ex (\<lambda>f. int (en_index f) = en_depends e mod 2 ^ 32) es) es"
  by (simp add: consistent_def list_all_iff list_ex_iff)

lemma wrap32_add: "wrap32 (wrap32 a + wrap32 b) = wrap32 (a + b)"
  by (simp add: wrap32_def mod_add_eq)

lemma length_moved [simp]: "length (moved_entries b es) = length es"
  by (simp add: moved_entries_def)

lemma find_index_append:
  "find_index n (xs @ ys) = (case find_index n xs of Some j \<Rightarrow> Some j | None \<Rightarrow> map_option (\<lambda>j. length xs + j) (find_index n ys))"
  by (induction xs) (auto split: option.splits simp: map_option_case)

lemma find_index_None: "find_index n es = None \<longleftrightarrow> n \<notin> en_index ` set es"
  by (induction es) auto

lemma find_index_Some: "find_index n es = Some j \<Longrightarrow> j < length es \<and> en_index (es ! j) = n"
  by (induction es arbitrary: j) (auto split: if_splits)

text \<open>The two loops over a plane.\<close>

lemma entry_reads:
  assumes "list_ok facts_of l" and "i < list_size facts_of l"
  shows "ref_at facts_of l i = Some (en_fact (entries_of l ! i))" "index_at facts_of l i = Some (en_index (entries_of l ! i))"
    "dependency_at facts_of l i = Some (en_depends (entries_of l ! i))"
  using assms ref_at_facts [OF assms]
  by (auto simp: list_entries_def index_at_def dependency_at_def list_size_def split: option.splits)

lemma remap_loop_result:
  assumes "list_ok facts_of l" and "k + length (drop k (entries_of l)) = list_size facts_of l"
    and "remap = (\<lambda>n. map_option (\<lambda>j. wrap32 (base + j)) (find_index n (take k (entries_of l))))"
    and "dup = (\<not> distinct (map en_index (take k (entries_of l))))"
  shows "remap_loop l (wrap32 base) [k..<list_size facts_of l] remap dup =
    Some (\<lambda>n. map_option (\<lambda>j. wrap32 (base + j)) (find_index n (entries_of l)), \<not> distinct (map en_index (entries_of l)))"
  using assms(2-)
proof (induction "list_size facts_of l - k" arbitrary: k remap dup)
  case 0
  then have "list_size facts_of l \<le> k" by simp
  with 0 show ?case by simp
next
  case (Suc m)
  let ?es = "entries_of l" and ?e = "entries_of l ! k"
  have k: "k < list_size facts_of l" "k < length ?es" using Suc(2) by simp_all
  have range: "[k..<list_size facts_of l] = k # [Suc k..<list_size facts_of l]" using k by (simp add: upt_conv_Cons)
  have take: "take (Suc k) ?es = take k ?es @ [?e]" using k by (simp add: take_Suc_conv_app_nth)
  have len: "length (take k ?es) = k" using k by simp
  have index: "index_at facts_of l k = Some (en_index ?e)" by (rule entry_reads [OF assms(1) k(1)])
  have m: "m = list_size facts_of l - Suc k" "Suc k + length (drop (Suc k) ?es) = list_size facts_of l" using Suc(2,3) k by simp_all
  show ?case
  proof (cases "remap (en_index ?e)")
    case None
    then have new: "find_index (en_index ?e) (take k ?es) = None" using Suc(4) by simp
    then have "en_index ?e \<notin> set (map en_index (take k ?es))" by (simp add: find_index_None)
    moreover have "remap(en_index ?e \<mapsto> wrap32 (wrap32 base + wrap32 k)) =
        (\<lambda>n. map_option (\<lambda>j. wrap32 (base + j)) (find_index n (take (Suc k) ?es)))"
      unfolding take using Suc(4) new len
      by (auto simp: fun_eq_iff find_index_append wrap32_add split: option.splits)
    ultimately show ?thesis
      using None Suc(1) [OF m(1) m(2)] Suc(5) take by (simp add: range index)
  next
    case (Some a)
    then have old: "find_index (en_index ?e) (take k ?es) \<noteq> None" using Suc(4) by auto
    have "remap_loop l (wrap32 base) [k..<list_size facts_of l] remap dup =
        remap_loop l (wrap32 base) [Suc k..<list_size facts_of l] remap True"
      using Some by (simp add: range index)
    moreover have "en_index ?e \<in> set (map en_index (take k ?es))" using old by (auto simp: find_index_None)
    then have "True = (\<not> distinct (map en_index (take (Suc k) ?es)))" unfolding take by simp
    moreover have "remap = (\<lambda>n. map_option (\<lambda>j. wrap32 (base + j)) (find_index n (take (Suc k) ?es)))"
      unfolding take using Suc(4) old by (auto simp: fun_eq_iff find_index_append split: option.splits)
    ultimately show ?thesis using Suc(1) [OF m(1) m(2), of remap True] by simp
  qed
qed

lemma remap_plane:
  assumes "list_ok facts_of l"
  shows "remap_loop l (wrap32 base) [0..<list_size facts_of l] Map.empty False =
    Some (\<lambda>n. map_option (\<lambda>j. wrap32 (base + j)) (find_index n (entries_of l)), \<not> distinct (map en_index (entries_of l)))"
  using remap_loop_result [OF assms, of 0 Map.empty base False] by simp

lemma append_error_keeps [simp]:
  "ii_facts (append_error s e out) = ii_facts out" "ii_limited (append_error s e out) = ii_limited out"
  "ii_high (append_error s e out) = ii_high out" "ii_review (append_error s e out) = ii_review out"
  "ii_informational (append_error s e out) = ii_informational out"
  by (simp_all add: append_error_def)

lemma note_problem_keeps [simp]:
  "ii_facts (ms_out (note_problem s e m)) = ii_facts (ms_out m)" "ii_limited (ms_out (note_problem s e m)) = ii_limited (ms_out m)"
  "ms_partial (note_problem s e m)" "ms_failed (note_problem s e m) = ms_failed m"
  "ms_unsupported (note_problem s e m) = ms_unsupported m"
  "ii_high (ms_out (note_problem s e m)) = ii_high (ms_out m)" "ii_review (ms_out (note_problem s e m)) = ii_review (ms_out m)"
  "ii_informational (ms_out (note_problem s e m)) = ii_informational (ms_out m)"
  by (simp_all add: note_problem_def)

lemma count_fact_keeps [simp]:
  "ii_facts (count_fact f out) = ii_facts out" "ii_limited (count_fact f out) = ii_limited out"
  by (simp_all add: count_fact_def Let_def)

text \<open>The facts of a priority class.\<close>

definition high_facts :: "facts \<Rightarrow> nat" where
  "high_facts fs = length (filter (\<lambda>f. if_priority f = ''HIGH'') fs)"

definition review_facts :: "facts \<Rightarrow> nat" where
  "review_facts fs = length (filter (\<lambda>f. if_priority f = ''REVIEW'') fs)"

lemma count_fact_priority:
  "ii_high (count_fact f out) = ii_high out + high_facts [f]"
  "ii_review (count_fact f out) = ii_review out + review_facts [f]"
  "ii_high (count_fact f out) + ii_review (count_fact f out) + ii_informational (count_fact f out) =
     ii_high out + ii_review out + ii_informational out + 1"
  by (auto simp: count_fact_def Let_def high_facts_def review_facts_def)

definition missing_dependency :: "entry list \<Rightarrow> entry \<Rightarrow> bool" where
  "missing_dependency es e \<longleftrightarrow> 0 \<le> en_depends e \<and> find_index (low32 (en_depends e)) es = None"

lemma resolve_result:
  assumes "remap = (\<lambda>n. map_option (\<lambda>j. wrap32 (base + j)) (find_index n es))"
  shows "resolve_dependency s remap (en_depends e) m =
    (resolved base es (en_depends e),
     if missing_dependency es e then note_problem s (''missing dependency fact index '' @ to_dec (nat (en_depends e))) m else m)"
  unfolding assms by (auto simp: resolve_dependency_def resolved_def missing_dependency_def split: option.splits)

lemma fact_loop_result:
  assumes l: "list_ok facts_of l"
    and remap: "remap = (\<lambda>n. map_option (\<lambda>j. wrap32 (base + j)) (find_index n (entries_of l)))"
    and k: "k \<le> list_size facts_of l"
  shows "\<exists>m'. fact_loop s l remap [k..<list_size facts_of l] deps m =
      Some (deps @ map (resolved base (entries_of l) \<circ> en_depends) (drop k (entries_of l)), m') \<and>
    ii_facts (ms_out m') = ii_facts (ms_out m) \<and> ii_limited (ms_out m') = ii_limited (ms_out m) \<and>
    ms_failed m' = ms_failed m \<and> ms_unsupported m' = ms_unsupported m \<and>
    ms_partial m' = (ms_partial m \<or> list_ex (missing_dependency (entries_of l)) (drop k (entries_of l))) \<and>
    ii_high (ms_out m') = ii_high (ms_out m) + high_facts (map en_fact (drop k (entries_of l))) \<and>
    ii_review (ms_out m') = ii_review (ms_out m) + review_facts (map en_fact (drop k (entries_of l))) \<and>
    ii_high (ms_out m') + ii_review (ms_out m') + ii_informational (ms_out m') =
      ii_high (ms_out m) + ii_review (ms_out m) + ii_informational (ms_out m) + (list_size facts_of l - k)"
  using k
proof (induction "list_size facts_of l - k" arbitrary: k deps m)
  case 0
  then have "k = list_size facts_of l" by simp
  then show ?case by (simp add: high_facts_def review_facts_def)
next
  case (Suc n)
  let ?es = "entries_of l" and ?e = "entries_of l ! k"
  have k: "k < list_size facts_of l" "k < length ?es" using Suc(2) by simp_all
  have range: "[k..<list_size facts_of l] = k # [Suc k..<list_size facts_of l]" using k by (simp add: upt_conv_Cons)
  have drop: "drop k ?es = ?e # drop (Suc k) ?es" using k by (simp add: Cons_nth_drop_Suc)
  define m1 where "m1 = (if missing_dependency ?es ?e
    then note_problem s (''missing dependency fact index '' @ to_dec (nat (en_depends ?e))) m else m)"
  define m2 where "m2 = m1\<lparr>ms_out := count_fact (en_fact ?e) (ms_out m1)\<rparr>"
  have step: "fact_loop s l remap [k..<list_size facts_of l] deps m =
      fact_loop s l remap [Suc k..<list_size facts_of l] (deps @ [resolved base ?es (en_depends ?e)]) m2"
    by (simp add: range entry_reads [OF l k(1)] resolve_result [OF remap] m1_def m2_def)
  have "n = list_size facts_of l - Suc k" "Suc k \<le> list_size facts_of l" using Suc(2) k by simp_all
  note ih = Suc(1) [OF this, of "deps @ [resolved base ?es (en_depends ?e)]" m2]
  have m1: "ii_facts (ms_out m1) = ii_facts (ms_out m)" "ii_limited (ms_out m1) = ii_limited (ms_out m)"
    "ms_failed m1 = ms_failed m" "ms_unsupported m1 = ms_unsupported m"
    "ms_partial m1 = (ms_partial m \<or> missing_dependency ?es ?e)" "ii_high (ms_out m1) = ii_high (ms_out m)"
    "ii_review (ms_out m1) = ii_review (ms_out m)" "ii_informational (ms_out m1) = ii_informational (ms_out m)"
    by (simp_all add: m1_def)
  have m2: "ii_facts (ms_out m2) = ii_facts (ms_out m)" "ii_limited (ms_out m2) = ii_limited (ms_out m)"
    "ms_failed m2 = ms_failed m" "ms_unsupported m2 = ms_unsupported m"
    "ms_partial m2 = (ms_partial m \<or> missing_dependency ?es ?e)"
    "ii_high (ms_out m2) = ii_high (ms_out m) + high_facts [en_fact ?e]"
    "ii_review (ms_out m2) = ii_review (ms_out m) + review_facts [en_fact ?e]"
    by (simp_all add: m2_def m1 count_fact_priority(1,2))
  have sum: "ii_high (ms_out m2) + ii_review (ms_out m2) + ii_informational (ms_out m2) =
      ii_high (ms_out m) + ii_review (ms_out m) + ii_informational (ms_out m) + 1"
    using count_fact_priority(3) [of "en_fact ?e" "ms_out m1"] unfolding m1 by (simp add: m2_def)
  have counts: "high_facts (map en_fact (drop k ?es)) = high_facts [en_fact ?e] + high_facts (map en_fact (drop (Suc k) ?es))"
    "review_facts (map en_fact (drop k ?es)) = review_facts [en_fact ?e] + review_facts (map en_fact (drop (Suc k) ?es))"
    by (simp_all add: drop high_facts_def review_facts_def)
  from ih obtain m' where m': "fact_loop s l remap [Suc k..<list_size facts_of l] (deps @ [resolved base ?es (en_depends ?e)]) m2 =
      Some ((deps @ [resolved base ?es (en_depends ?e)]) @ map (resolved base ?es \<circ> en_depends) (drop (Suc k) ?es), m')"
    "ii_facts (ms_out m') = ii_facts (ms_out m2)" "ii_limited (ms_out m') = ii_limited (ms_out m2)"
    "ms_failed m' = ms_failed m2" "ms_unsupported m' = ms_unsupported m2"
    "ms_partial m' = (ms_partial m2 \<or> list_ex (missing_dependency ?es) (drop (Suc k) ?es))"
    "ii_high (ms_out m') = ii_high (ms_out m2) + high_facts (map en_fact (drop (Suc k) ?es))"
    "ii_review (ms_out m') = ii_review (ms_out m2) + review_facts (map en_fact (drop (Suc k) ?es))"
    "ii_high (ms_out m') + ii_review (ms_out m') + ii_informational (ms_out m') =
      ii_high (ms_out m2) + ii_review (ms_out m2) + ii_informational (ms_out m2) + (list_size facts_of l - Suc k)"
    by blast
  show ?case
    unfolding step
  proof (intro exI conjI)
    show "fact_loop s l remap [Suc k..<list_size facts_of l] (deps @ [resolved base ?es (en_depends ?e)]) m2 =
        Some (deps @ map (resolved base ?es \<circ> en_depends) (drop k ?es), m')"
      using m'(1) by (simp add: drop)
    show "ms_partial m' = (ms_partial m \<or> list_ex (missing_dependency ?es) (drop k ?es))"
      unfolding m'(6) m2(5) by (simp add: drop)
    show "ii_high (ms_out m') + ii_review (ms_out m') + ii_informational (ms_out m') =
        ii_high (ms_out m) + ii_review (ms_out m) + ii_informational (ms_out m) + (list_size facts_of l - k)"
      unfolding m'(9) sum using k by simp
  qed (simp_all add: m'(2-5,7,8) m2(1-4,6,7) counts)
qed

definition doubtful :: "string \<Rightarrow> bool" where
  "doubtful state \<longleftrightarrow> state \<noteq> ''RESOLVED'' \<and> state \<noteq> ''FAILED'' \<and> state \<noteq> ''UNSUPPORTED'' \<and> state \<noteq> []"

lemma note_state_result:
  "ms_out (note_state st m) = ms_out m"
  "ms_partial (note_state st m) = (ms_partial m \<or> doubtful st)"
  "ms_failed (note_state st m) = (ms_failed m \<or> st = ''FAILED'')"
  "ms_unsupported (note_state st m) = (ms_unsupported m \<or> st = ''UNSUPPORTED'')"
  by (auto simp: note_state_def doubtful_def)

definition growing :: "implicit_info \<Rightarrow> bool" where
  "growing out \<longleftrightarrow> list_ok facts_of (ii_facts out) \<and> (fl_shared (ii_facts out) \<or> list_size facts_of (ii_facts out) = 0)"

lemma missing_dependency_iff:
  "missing_dependency es e \<longleftrightarrow> 0 \<le> en_depends e \<and> \<not> (\<exists>f \<in> set es. int (en_index f) = en_depends e mod 2 ^ 32)"
proof -
  have "low32 (en_depends e) = en_index f \<longleftrightarrow> int (en_index f) = en_depends e mod 2 ^ 32" for f
    by (auto simp: low32_def)
  then show ?thesis unfolding missing_dependency_def find_index_None image_iff by auto
qed

lemma missing_consistent: "list_ex (missing_dependency es) es \<or> \<not> distinct (map en_index es) \<longleftrightarrow> \<not> consistent es"
  by (auto simp: consistent_def missing_dependency_iff list_ex_iff)

lemma merge_plane_result:
  assumes m: "growing (ms_out m)" and l: "list_ok facts_of (ii_facts info)"
  shows "\<exists>m'. merge_plane source info m = Some m' \<and> growing (ms_out m') \<and>
    entries_of (ii_facts (ms_out m')) = entries_of (ii_facts (ms_out m)) @
      moved_entries (length (entries_of (ii_facts (ms_out m)))) (entries_of (ii_facts info)) \<and>
    ii_limited (ms_out m') = (ii_limited (ms_out m) \<or> ii_limited info) \<and>
    ms_failed m' = (ms_failed m \<or> ii_state info = ''FAILED'') \<and>
    ms_unsupported m' = (ms_unsupported m \<or> ii_state info = ''UNSUPPORTED'') \<and>
    ms_partial m' = (ms_partial m \<or> doubtful (ii_state info) \<or> \<not> consistent (entries_of (ii_facts info))) \<and>
    ii_high (ms_out m') = ii_high (ms_out m) + high_facts (map en_fact (entries_of (ii_facts info))) \<and>
    ii_review (ms_out m') = ii_review (ms_out m) + review_facts (map en_fact (entries_of (ii_facts info))) \<and>
    ii_high (ms_out m') + ii_review (ms_out m') + ii_informational (ms_out m') =
      ii_high (ms_out m) + ii_review (ms_out m) + ii_informational (ms_out m) + length (entries_of (ii_facts info))"
proof -
  let ?out = "ms_out m" and ?l = "ii_facts info" and ?es = "entries_of (ii_facts info)"
  let ?n = "list_size facts_of (ii_facts (ms_out m))"
  define m1 where "m1 = m\<lparr>ms_out := ?out\<lparr>ii_limited := (ii_limited ?out \<or> ii_limited info),
                               ii_deterministic := wrap64 (ii_deterministic ?out + ii_deterministic info),
                               ii_raw_symbols := wrap64 (ii_raw_symbols ?out + ii_raw_symbols info)\<rparr>\<rparr>"
  define m2 where "m2 = note_state (ii_state info) m1"
  define m3 where "m3 = m2\<lparr>ms_out := append_error source (ii_error info) (ms_out m2)\<rparr>"
  define m4 where "m4 = (if \<not> distinct (map en_index ?es) then note_problem source ''duplicate local fact index'' m3 else m3)"
  define remap where "remap = (\<lambda>n. map_option (\<lambda>j. wrap32 (?n + j)) (find_index n ?es))"
  have facts3: "ii_facts (ms_out m3) = ii_facts ?out"
    by (simp add: m3_def m2_def m1_def note_state_result)
  have m4: "ii_facts (ms_out m4) = ii_facts ?out" "ii_limited (ms_out m4) = (ii_limited ?out \<or> ii_limited info)"
    "ms_failed m4 = (ms_failed m \<or> ii_state info = ''FAILED'')" "ms_unsupported m4 = (ms_unsupported m \<or> ii_state info = ''UNSUPPORTED'')"
    "ms_partial m4 = (ms_partial m \<or> doubtful (ii_state info) \<or> \<not> distinct (map en_index ?es))"
    "ii_high (ms_out m4) = ii_high ?out" "ii_review (ms_out m4) = ii_review ?out" "ii_informational (ms_out m4) = ii_informational ?out"
    by (simp_all add: m4_def m3_def m2_def m1_def note_state_result)
  from fact_loop_result [OF l remap_def le0, of source "[]" m4] obtain m5 where
    loop: "fact_loop source ?l remap [0..<list_size facts_of ?l] [] m4 = Some ([] @ map (resolved ?n ?es \<circ> en_depends) (drop 0 ?es), m5)"
    and r: "ii_facts (ms_out m5) = ii_facts (ms_out m4)" "ii_limited (ms_out m5) = ii_limited (ms_out m4)"
    "ms_failed m5 = ms_failed m4" "ms_unsupported m5 = ms_unsupported m4"
    "ms_partial m5 = (ms_partial m4 \<or> list_ex (missing_dependency ?es) (drop 0 ?es))"
    "ii_high (ms_out m5) = ii_high (ms_out m4) + high_facts (map en_fact (drop 0 ?es))"
    "ii_review (ms_out m5) = ii_review (ms_out m4) + review_facts (map en_fact (drop 0 ?es))"
    "ii_high (ms_out m5) + ii_review (ms_out m5) + ii_informational (ms_out m5) =
      ii_high (ms_out m4) + ii_review (ms_out m4) + ii_informational (ms_out m4) + (list_size facts_of ?l - 0)"
    by blast
  note m5 = loop [unfolded append_Nil drop_0] r(1) [unfolded m4] r(2-4) r(5) [unfolded drop_0] r(6,7) [unfolded drop_0 m4]
    r(8) [unfolded minus_nat.diff_0 m4]
  let ?deps = "map (resolved ?n ?es \<circ> en_depends) ?es"
  have m_ok: "list_ok facts_of (ii_facts ?out)" "fl_shared (ii_facts ?out) \<or> list_size facts_of (ii_facts ?out) = 0"
    using m by (simp_all add: growing_def)
  have "entries_append (list_abs facts_of (ii_facts ?out)) ?es ?deps =
      Inr (True, entries_of (ii_facts ?out) @ moved_entries (length (entries_of (ii_facts ?out))) ?es)"
    using m_ok by (auto simp: entries_append_def list_abs_def moved_entries_def simp flip: length_0_conv)
  then obtain v where v: "append_shared_view facts_of (ii_facts ?out) ?l ?deps = Inr v"
    "list_abs facts_of v = (True, entries_of (ii_facts ?out) @ moved_entries (length (entries_of (ii_facts ?out))) ?es)"
    using append_entries [OF m_ok(1) l, of ?deps] by (cases "append_shared_view facts_of (ii_facts ?out) ?l ?deps") auto
  have ok: "list_ok facts_of v" using append_result [OF v(1) m_ok(1) l] by simp
  have "merge_plane source info m = Some (m5\<lparr>ms_out := (ms_out m5)\<lparr>ii_facts := v\<rparr>\<rparr>)"
    unfolding merge_plane_def Let_def m1_def [symmetric] m2_def [symmetric] m3_def [symmetric] facts3 remap_plane [OF l] remap_def [symmetric]
    by (simp add: m4_def [symmetric] m5(1,2) v(1))
  moreover have "growing ((ms_out m5)\<lparr>ii_facts := v\<rparr>)"
    using v(2) ok by (simp add: growing_def list_abs_def)
  moreover have "entries_of v = entries_of (ii_facts ?out) @ moved_entries (length (entries_of (ii_facts ?out))) ?es"
    using v(2) by (simp add: list_abs_def)
  moreover have "ms_partial m5 = (ms_partial m \<or> doubtful (ii_state info) \<or> \<not> consistent ?es)"
    unfolding m5(6) m4(5) using missing_consistent [of ?es] by blast
  ultimately show ?thesis using m5(9)
    by (intro exI [of _ "m5\<lparr>ms_out := (ms_out m5)\<lparr>ii_facts := v\<rparr>\<rparr>"]) (simp add: m5(3-5,7,8) m4)
qed

definition usable :: "plane_ref \<Rightarrow> bool" where
  "usable p \<longleftrightarrow> list_all (\<lambda>(s, i). list_ok facts_of (ii_facts i)) (active p)"

definition plane_entries :: "plane_ref list \<Rightarrow> entry list list" where
  "plane_entries ps = map (\<lambda>(s, i). entries_of (ii_facts i)) (active_planes ps)"

lemma active_planes_simps [simp]:
  "active_planes [] = []" "active_planes (p # ps) = active p @ active_planes ps"
  by (simp_all add: active_planes_def)

lemma plane_entries_simps [simp]:
  "plane_entries [] = []" "plane_entries (p # ps) = map (\<lambda>(s, i). entries_of (ii_facts i)) (active p) @ plane_entries ps"
  by (simp_all add: plane_entries_def)

lemma counts_append:
  "high_facts (xs @ ys) = high_facts xs + high_facts ys" "review_facts (xs @ ys) = review_facts xs + review_facts ys"
  by (simp_all add: high_facts_def review_facts_def)

lemma merge_loop_result:
  assumes "growing (ms_out m)" and "list_all usable ps"
  shows "\<exists>m'. merge_loop ps m = Some m' \<and> growing (ms_out m') \<and>
    entries_of (ii_facts (ms_out m')) = entries_of (ii_facts (ms_out m)) @
      merged_entries (length (entries_of (ii_facts (ms_out m)))) (plane_entries ps) \<and>
    ii_limited (ms_out m') = (ii_limited (ms_out m) \<or> list_ex (\<lambda>(s, i). ii_limited i) (active_planes ps)) \<and>
    ms_failed m' = (ms_failed m \<or> list_ex (\<lambda>(s, i). ii_state i = ''FAILED'') (active_planes ps)) \<and>
    ms_unsupported m' = (ms_unsupported m \<or> list_ex (\<lambda>(s, i). ii_state i = ''UNSUPPORTED'') (active_planes ps)) \<and>
    ms_partial m' = (ms_partial m \<or>
      list_ex (\<lambda>(s, i). doubtful (ii_state i) \<or> \<not> consistent (entries_of (ii_facts i))) (active_planes ps)) \<and>
    ii_high (ms_out m') = ii_high (ms_out m) + high_facts (map en_fact (concat (plane_entries ps))) \<and>
    ii_review (ms_out m') = ii_review (ms_out m) + review_facts (map en_fact (concat (plane_entries ps))) \<and>
    ii_high (ms_out m') + ii_review (ms_out m') + ii_informational (ms_out m') =
      ii_high (ms_out m) + ii_review (ms_out m) + ii_informational (ms_out m) + length (concat (plane_entries ps))"
  using assms
proof (induction ps arbitrary: m)
  case Nil
  then show ?case by (simp add: high_facts_def review_facts_def)
next
  case (Cons p ps)
  show ?case
  proof (cases "active p = []")
    case True
    then have "merge_loop (p # ps) m = merge_loop ps m" by (auto simp: active_def split: option.splits if_splits)
    with Cons.IH [OF Cons.prems(1)] Cons.prems(2) True show ?thesis by simp
  next
    case False
    then obtain i where i: "active p = [(pr_source p, i)]" "pr_info p = Some i" "ii_state i \<noteq> ''NOT_PRESENT''"
      by (auto simp: active_def split: option.splits if_splits)
    have "list_ok facts_of (ii_facts i)" using Cons.prems(2) i(1) by (simp add: usable_def)
    from merge_plane_result [OF Cons.prems(1) this, of "pr_source p"] obtain m1 where
      m1: "merge_plane (pr_source p) i m = Some m1" "growing (ms_out m1)"
      and r: "entries_of (ii_facts (ms_out m1)) = entries_of (ii_facts (ms_out m)) @
        moved_entries (length (entries_of (ii_facts (ms_out m)))) (entries_of (ii_facts i))"
        "ii_limited (ms_out m1) = (ii_limited (ms_out m) \<or> ii_limited i)"
        "ms_failed m1 = (ms_failed m \<or> ii_state i = ''FAILED'')"
        "ms_unsupported m1 = (ms_unsupported m \<or> ii_state i = ''UNSUPPORTED'')"
        "ms_partial m1 = (ms_partial m \<or> doubtful (ii_state i) \<or> \<not> consistent (entries_of (ii_facts i)))"
        "ii_high (ms_out m1) = ii_high (ms_out m) + high_facts (map en_fact (entries_of (ii_facts i)))"
        "ii_review (ms_out m1) = ii_review (ms_out m) + review_facts (map en_fact (entries_of (ii_facts i)))"
        "ii_high (ms_out m1) + ii_review (ms_out m1) + ii_informational (ms_out m1) =
          ii_high (ms_out m) + ii_review (ms_out m) + ii_informational (ms_out m) + length (entries_of (ii_facts i))"
      by blast
    have loop: "merge_loop (p # ps) m = merge_loop ps m1" using i m1(1) by simp
    have "list_all usable ps" using Cons.prems(2) by simp
    from Cons.IH [OF m1(2) this] obtain m2 where m2: "merge_loop ps m1 = Some m2" "growing (ms_out m2)"
      "entries_of (ii_facts (ms_out m2)) = entries_of (ii_facts (ms_out m1)) @
        merged_entries (length (entries_of (ii_facts (ms_out m1)))) (plane_entries ps)"
      "ii_limited (ms_out m2) = (ii_limited (ms_out m1) \<or> list_ex (\<lambda>(s, i). ii_limited i) (active_planes ps))"
      "ms_failed m2 = (ms_failed m1 \<or> list_ex (\<lambda>(s, i). ii_state i = ''FAILED'') (active_planes ps))"
      "ms_unsupported m2 = (ms_unsupported m1 \<or> list_ex (\<lambda>(s, i). ii_state i = ''UNSUPPORTED'') (active_planes ps))"
      "ms_partial m2 = (ms_partial m1 \<or>
        list_ex (\<lambda>(s, i). doubtful (ii_state i) \<or> \<not> consistent (entries_of (ii_facts i))) (active_planes ps))"
      "ii_high (ms_out m2) = ii_high (ms_out m1) + high_facts (map en_fact (concat (plane_entries ps)))"
      "ii_review (ms_out m2) = ii_review (ms_out m1) + review_facts (map en_fact (concat (plane_entries ps)))"
      "ii_high (ms_out m2) + ii_review (ms_out m2) + ii_informational (ms_out m2) =
        ii_high (ms_out m1) + ii_review (ms_out m1) + ii_informational (ms_out m1) + length (concat (plane_entries ps))"
      by blast
    have entries: "entries_of (ii_facts (ms_out m2)) = entries_of (ii_facts (ms_out m)) @
      merged_entries (length (entries_of (ii_facts (ms_out m)))) (plane_entries (p # ps))"
      unfolding m2(3) r(1) by (simp add: i(1))
    have sum: "ii_high (ms_out m2) + ii_review (ms_out m2) + ii_informational (ms_out m2) =
        ii_high (ms_out m) + ii_review (ms_out m) + ii_informational (ms_out m) + length (concat (plane_entries (p # ps)))"
      using m2(10) r(8) by (simp add: i(1))
    show ?thesis
      unfolding loop
    proof (intro exI conjI)
      show "merge_loop ps m1 = Some m2" by (rule m2(1))
      show "growing (ms_out m2)" by (rule m2(2))
    qed (rule entries sum | simp add: m2(4-9) r(2-7) i(1) counts_append disj_assoc)+
  qed
qed

text \<open>The whole routine.\<close>

definition start_merge :: merge_state where
  "start_merge = \<lparr>ms_out = empty_info, ms_partial = False, ms_failed = False, ms_unsupported = False\<rparr>"

lemma growing_start: "growing empty_info" "entries_of (ii_facts empty_info) = []"
  by (simp_all add: growing_def empty_info_def empty_list_def list_ok_def list_size_def list_entries_def)

lemma merge_is_loop:
  "merge_implicit_execution ps = map_option (\<lambda>m. (ms_out m)\<lparr>ii_state := merged_state m\<rparr>) (merge_loop ps start_merge)"
  by (simp add: merge_implicit_execution_def reserve_shared_view_def start_merge_def empty_info_def empty_list_def
      list_size_def)

lemma merge_result:
  assumes "list_all usable ps"
  obtains m out where "merge_loop ps start_merge = Some m" "merge_implicit_execution ps = Some out"
    "out = (ms_out m)\<lparr>ii_state := merged_state m\<rparr>" "growing out"
    "entries_of (ii_facts out) = merged_entries 0 (plane_entries ps)"
    "ii_limited out = list_ex (\<lambda>(s, i). ii_limited i) (active_planes ps)"
    "ms_failed m = list_ex (\<lambda>(s, i). ii_state i = ''FAILED'') (active_planes ps)"
    "ms_unsupported m = list_ex (\<lambda>(s, i). ii_state i = ''UNSUPPORTED'') (active_planes ps)"
    "ms_partial m = list_ex (\<lambda>(s, i). doubtful (ii_state i) \<or> \<not> consistent (entries_of (ii_facts i))) (active_planes ps)"
    "ii_high out = high_facts (map en_fact (concat (plane_entries ps)))"
    "ii_review out = review_facts (map en_fact (concat (plane_entries ps)))"
    "ii_high out + ii_review out + ii_informational out = length (concat (plane_entries ps))"
proof -
  have start: "growing (ms_out start_merge)" by (simp add: start_merge_def growing_start)
  from merge_loop_result [OF start assms] obtain m where m: "merge_loop ps start_merge = Some m" "growing (ms_out m)"
    "entries_of (ii_facts (ms_out m)) = entries_of (ii_facts (ms_out start_merge)) @
      merged_entries (length (entries_of (ii_facts (ms_out start_merge)))) (plane_entries ps)"
    "ii_limited (ms_out m) = (ii_limited (ms_out start_merge) \<or> list_ex (\<lambda>(s, i). ii_limited i) (active_planes ps))"
    "ms_failed m = (ms_failed start_merge \<or> list_ex (\<lambda>(s, i). ii_state i = ''FAILED'') (active_planes ps))"
    "ms_unsupported m = (ms_unsupported start_merge \<or> list_ex (\<lambda>(s, i). ii_state i = ''UNSUPPORTED'') (active_planes ps))"
    "ms_partial m = (ms_partial start_merge \<or>
      list_ex (\<lambda>(s, i). doubtful (ii_state i) \<or> \<not> consistent (entries_of (ii_facts i))) (active_planes ps))"
    "ii_high (ms_out m) = ii_high (ms_out start_merge) + high_facts (map en_fact (concat (plane_entries ps)))"
    "ii_review (ms_out m) = ii_review (ms_out start_merge) + review_facts (map en_fact (concat (plane_entries ps)))"
    "ii_high (ms_out m) + ii_review (ms_out m) + ii_informational (ms_out m) =
      ii_high (ms_out start_merge) + ii_review (ms_out start_merge) + ii_informational (ms_out start_merge) +
      length (concat (plane_entries ps))"
    by blast
  have zero: "entries_of (ii_facts (ms_out start_merge)) = []" "\<not> ii_limited (ms_out start_merge)" "\<not> ms_failed start_merge"
    "\<not> ms_unsupported start_merge" "\<not> ms_partial start_merge" "ii_high (ms_out start_merge) = 0"
    "ii_review (ms_out start_merge) = 0" "ii_informational (ms_out start_merge) = 0"
    by (simp_all add: start_merge_def growing_start) (simp_all add: empty_info_def)
  show ?thesis
  proof (rule that [OF m(1)])
    show "merge_implicit_execution ps = Some ((ms_out m)\<lparr>ii_state := merged_state m\<rparr>)"
      by (simp add: merge_is_loop m(1))
  qed (use m(2,10) zero in \<open>simp_all add: m(3-9) growing_def\<close>)
qed

subsection \<open>Properties\<close>

text \<open>
  C0: The merged plane. For planes whose lists are well formed the merging returns; its facts are
  the facts of the active planes in order, numbered by position, each dependency moved to the first
  fact of the same plane that has the local number, or cleared; and each fact is counted once, as
  high priority, as for review or as informational.
\<close>
theorem merged_facts_exact:
  assumes "list_all usable ps"
  shows "\<exists>out. merge_implicit_execution ps = Some out \<and> list_ok facts_of (ii_facts out) \<and>
    entries_of (ii_facts out) = merged_entries 0 (plane_entries ps) \<and>
    ii_high out = high_facts (map en_fact (concat (plane_entries ps))) \<and>
    ii_review out = review_facts (map en_fact (concat (plane_entries ps))) \<and>
    ii_high out + ii_review out + ii_informational out = length (concat (plane_entries ps))"
  by (rule merge_result [OF assms]) (simp add: growing_def)

text \<open>
  C0: When the merged plane claims to be resolved: exactly when it has at least one fact, and every
  active plane is resolved (or has no state), none was cut short, and in each the local numbers are
  distinct and every dependency, taken modulo 2^32 as the code does, is the number of a fact of
  that plane. (A dependency of 2^32 therefore counts as one on fact 0.)
\<close>
theorem merged_resolved_iff:
  assumes "list_all usable ps" and "merge_implicit_execution ps = Some out"
  shows "ii_state out = ''RESOLVED'' \<longleftrightarrow>
    concat (plane_entries ps) \<noteq> [] \<and>
    list_all (\<lambda>(s, i). (ii_state i = ''RESOLVED'' \<or> ii_state i = []) \<and> \<not> ii_limited i \<and> consistent (entries_of (ii_facts i)))
      (active_planes ps)"
proof (rule merge_result [OF assms(1)])
  fix m out'
  assume out: "merge_implicit_execution ps = Some out'" "out' = (ms_out m)\<lparr>ii_state := merged_state m\<rparr>"
    and e: "entries_of (ii_facts out') = merged_entries 0 (plane_entries ps)"
    and flags: "ii_limited out' = list_ex (\<lambda>(s, i). ii_limited i) (active_planes ps)"
      "ms_failed m = list_ex (\<lambda>(s, i). ii_state i = ''FAILED'') (active_planes ps)"
      "ms_unsupported m = list_ex (\<lambda>(s, i). ii_state i = ''UNSUPPORTED'') (active_planes ps)"
      "ms_partial m = list_ex (\<lambda>(s, i). doubtful (ii_state i) \<or> \<not> consistent (entries_of (ii_facts i))) (active_planes ps)"
  have len: "length (merged_entries b ess) = length (concat ess)" for b ess
    by (induction ess arbitrary: b) simp_all
  have same: "out = out'" using out(1) assms(2) by simp
  have size: "list_size facts_of (ii_facts (ms_out m)) = length (concat (plane_entries ps))"
    using arg_cong [OF e, of length] out(2) by (simp add: len)
  have "ii_state out' = ''RESOLVED'' \<longleftrightarrow> concat (plane_entries ps) \<noteq> [] \<and>
      \<not> (ms_partial m \<or> ms_failed m \<or> ms_unsupported m \<or> ii_limited out')"
    using out(2) size by (auto simp: merged_state_def)
  also have "\<dots> \<longleftrightarrow> concat (plane_entries ps) \<noteq> [] \<and>
      list_all (\<lambda>(s, i). (ii_state i = ''RESOLVED'' \<or> ii_state i = []) \<and> \<not> ii_limited i \<and> consistent (entries_of (ii_facts i)))
        (active_planes ps)"
    unfolding flags by (fastforce simp: list_ex_iff list_all_iff doubtful_def)
  finally show ?thesis unfolding same .
qed

text \<open>Merging a merged plane once more keeps the numbers, which are positions, and so the dependencies.\<close>

definition settled :: "entry list \<Rightarrow> bool" where
  "settled es \<longleftrightarrow> map en_index es = [0..<length es] \<and> list_all (\<lambda>e. en_depends e = -1 \<or> (0 \<le> en_depends e \<and> en_depends e < int (length es))) es"

lemma find_index_upt: "map en_index es = [b..<b + length es] \<Longrightarrow> b \<le> n \<Longrightarrow> n < b + length es \<Longrightarrow> find_index n es = Some (n - b)"
proof (induction es arbitrary: b)
  case (Cons e es)
  have "[b..<b + length (e # es)] = b # [Suc b..<Suc b + length es]" by (subst upt_conv_Cons) simp_all
  then have e: "en_index e = b" "map en_index es = [Suc b..<Suc b + length es]"
    using Cons.prems(1) by (simp_all del: upt_Suc)
  show ?case
  proof (cases "n = b")
    case False
    then show ?thesis using Cons.IH [OF e(2)] Cons.prems e(1) by (simp add: Suc_diff_Suc)
  qed (use e in simp)
qed simp

lemma low32_id: "0 \<le> d \<Longrightarrow> d < 4294967296 \<Longrightarrow> low32 d = nat d"
  by (simp add: low32_def)

lemma moved_settled:
  assumes s: "settled es" and short: "length es \<le> 4294967296"
  shows "moved_entries 0 es = es"
proof (rule nth_equalityI)
  fix i assume "i < length (moved_entries 0 es)"
  then have i: "i < length es" by simp
  have index: "en_index (es ! i) = i"
    using s i nth_map [OF i, of en_index] by (simp add: settled_def)
  have d: "en_depends (es ! i) = -1 \<or> 0 \<le> en_depends (es ! i) \<and> en_depends (es ! i) < int (length es)"
    using s i by (simp add: settled_def list_all_length)
  have "resolved 0 es (en_depends (es ! i)) = en_depends (es ! i)"
  proof (cases "0 \<le> en_depends (es ! i)")
    case True
    define n where "n = nat (en_depends (es ! i))"
    have n: "en_depends (es ! i) = int n" "n < length es" using True d by (simp_all add: n_def nat_less_iff)
    then have "low32 (en_depends (es ! i)) = n" using low32_id [of "int n"] short by simp
    moreover have "find_index n es = Some n"
      using find_index_upt [of es 0 n] s n(2) by (simp add: settled_def)
    moreover have "wrap32 n = n" using n(2) short by (simp add: wrap32_def)
    ultimately show ?thesis using n(1) by (simp add: resolved_def)
  next
    case False
    then show ?thesis using d by (simp add: resolved_def)
  qed
  then show "moved_entries 0 es ! i = es ! i"
    using i index short by (simp add: moved_entries_def nth_view_entries wrap32_def)
qed simp

lemma moved_facts: "map en_fact (moved_entries b es) = map en_fact es"
  by (rule nth_equalityI) (simp_all add: moved_entries_def nth_view_entries)

lemma length_merged [simp]: "length (merged_entries b ess) = length (concat ess)"
  by (induction ess arbitrary: b) simp_all

lemma merged_index:
  "b + length (concat ess) \<le> 4294967296 \<Longrightarrow> map en_index (merged_entries b ess) = [b..<b + length (concat ess)]"
proof (induction ess arbitrary: b)
  case (Cons es ess)
  have "map en_index (moved_entries b es) = [b..<b + length es]"
    by (rule nth_equalityI) (use Cons.prems in \<open>simp_all add: moved_entries_def nth_view_entries wrap32_def\<close>)
  moreover have "[b..<b + length (concat (es # ess))] = [b..<b + length es] @ [b + length es..<b + length es + length (concat ess)]"
    using upt_add_eq_append [of b "b + length es" "length (concat ess)"] by (simp add: add.assoc)
  ultimately show ?case using Cons.IH [of "b + length es"] Cons.prems by simp
qed simp

lemma merged_depends:
  "b + length (concat ess) \<le> 4294967296 \<Longrightarrow>
    list_all (\<lambda>e. en_depends e = -1 \<or> (int b \<le> en_depends e \<and> en_depends e < int (b + length (concat ess)))) (merged_entries b ess)"
proof (induction ess arbitrary: b)
  case (Cons es ess)
  have "en_depends (moved_entries b es ! i) = -1 \<or>
      (int b \<le> en_depends (moved_entries b es ! i) \<and> en_depends (moved_entries b es ! i) < int (b + length es))"
    if "i < length es" for i
  proof -
    have "wrap32 (b + j) = b + j \<and> j < length es" if "find_index n es = Some j" for n j
      using find_index_Some [OF that] Cons.prems by (simp add: wrap32_def)
    then show ?thesis using that
      by (auto simp: moved_entries_def nth_view_entries resolved_def split: option.splits)
  qed
  then have "list_all (\<lambda>e. en_depends e = -1 \<or> (int b \<le> en_depends e \<and> en_depends e < int (b + length (concat (es # ess))))) (moved_entries b es)"
    by (force simp: list_all_length)
  moreover have "list_all (\<lambda>e. en_depends e = -1 \<or> (int b \<le> en_depends e \<and> en_depends e < int (b + length (concat (es # ess)))))
      (merged_entries (b + length es) ess)"
    using Cons.IH [of "b + length es"] Cons.prems by (auto simp: add.assoc elim!: list.pred_mono_strong)
  ultimately show ?case by simp
qed simp

lemma merged_settled: "length (concat ess) \<le> 4294967296 \<Longrightarrow> settled (merged_entries 0 ess)"
  using merged_index [of 0 ess] merged_depends [of 0 ess] by (simp add: settled_def)

text \<open>
  C0: Merging is stable. Of fewer than 2^32 facts, every fact of a merged plane has its position as
  its number and depends on nothing or on a fact of the plane; so merging the merged plane again,
  under any name, returns the same numbered facts with the same dependencies.
\<close>
theorem merging_again_changes_nothing:
  assumes "list_all usable ps" and "length (concat (plane_entries ps)) \<le> 4294967296" and "merge_implicit_execution ps = Some out"
  shows "settled (entries_of (ii_facts out)) \<and>
    map_option (\<lambda>o'. entries_of (ii_facts o')) (merge_implicit_execution [\<lparr>pr_source = name, pr_info = Some out\<rparr>]) =
      Some (entries_of (ii_facts out))"
proof (rule merge_result [OF assms(1)])
  fix m out'
  assume out': "merge_implicit_execution ps = Some out'" "out' = (ms_out m)\<lparr>ii_state := merged_state m\<rparr>"
    "growing out'" "entries_of (ii_facts out') = merged_entries 0 (plane_entries ps)"
  have same: "out' = out" using out'(1) assms(3) by simp
  have s: "settled (entries_of (ii_facts out))"
    using merged_settled [OF assms(2)] out'(4) unfolding same by simp
  let ?p = "\<lparr>pr_source = name, pr_info = Some out\<rparr>"
  have "list_all usable [?p]" using out'(3) unfolding same by (simp add: usable_def active_def growing_def)
  from merge_result [OF this] obtain again where again: "merge_implicit_execution [?p] = Some again"
    "entries_of (ii_facts again) = merged_entries 0 (plane_entries [?p])" by metis
  have short: "length (entries_of (ii_facts out)) \<le> 4294967296"
    using arg_cong [OF out'(4), of length] assms(2) unfolding same by simp
  have "merged_entries 0 (plane_entries [?p]) = entries_of (ii_facts out)"
  proof (cases "ii_state out = ''NOT_PRESENT''")
    case True
    then have "list_size facts_of (ii_facts (ms_out m)) = 0"
      using out'(2) same by (auto simp: merged_state_def split: if_splits)
    then have "entries_of (ii_facts out) = []" using out'(2) same by (simp flip: length_0_conv)
    then show ?thesis using True by (simp add: active_def)
  next
    case False
    then show ?thesis using moved_settled [OF s short] by (simp add: active_def)
  qed
  then show ?thesis using s again by simp
qed

text \<open>The rows of the CSV file as fields.\<close>

definition implicit_fields :: "entry \<Rightarrow> csv_field list" where
  "implicit_fields e = (let x = en_fact e in
     [Plain (to_dec (en_index e)), Plain (if 0 \<le> en_depends e then to_dec (nat (en_depends e)) else []),
      Quoted (if_format x), Quoted (if_ecosystem x), Quoted (if_phase x), Quoted (if_trigger x),
      Quoted (if_relation x), Quoted (if_source_kind x), Plain (to_dec (if_source_index x)), Plain (flag_text (if_source_file_backed x)),
      Plain (hex_when (if_source_file_backed x) (if_source_file_offset x)), Plain (hex_when (if_source_va x \<noteq> 0) (if_source_va x)),
      Plain (to_dec (if_source_size x)), Quoted (if_target_kind x), Plain (hex_when (if_target_va x \<noteq> 0) (if_target_va x)),
      Plain (flag_text (if_target_file_backed x)), Plain (hex_when (if_target_file_backed x) (if_target_file_offset x)),
      Plain (hex_when (if_target_token x \<noteq> 0) (if_target_token x)), Plain (to_dec (if_target_function_index x)), Quoted (if_target_name x),
      Quoted (if_evidence_state x), Quoted (if_mutability x), Quoted (if_condition x), Quoted (if_anomaly_class x),
      Quoted (if_priority x), Quoted (if_priority_reason x), Quoted (if_detail x)])"

lemma implicit_line_fields: "implicit_line e = csv_line (map field_text (implicit_fields e))"
  by (simp add: implicit_line_def implicit_fields_def Let_def)

lemma flag_plain: "csv_plain (flag_text b)" "csv_plain (hex_when b n)" "csv_plain (to_dec n)"
  by (simp_all add: flag_text_def hex_when_def to_dec_def to_hex_def digits_plain)

lemma implicit_fields_ok: "implicit_fields e \<noteq> [] \<and> list_all field_ok (implicit_fields e)"
  by (simp add: implicit_fields_def Let_def flag_plain)

lemma columns_plain: "map Plain implicit_columns \<noteq> [] \<and> list_all field_ok (map Plain implicit_columns)"
  by (simp add: implicit_columns_def)

lemma entry_eta: "\<lparr>en_fact = en_fact e, en_index = en_index e, en_depends = en_depends e\<rparr> = e"
  by simp

lemma implicit_rows_entries:
  assumes "list_ok facts_of l" and "\<And>i. i \<in> set is \<Longrightarrow> i < list_size facts_of l"
  shows "implicit_rows l is = Some (concat (map (\<lambda>i. implicit_line (entries_of l ! i)) is))"
  using assms(2)
proof (induction "is")
  case (Cons i "is")
  then have "i < list_size facts_of l" by simp
  from entry_reads [OF assms(1) this] Cons show ?case by (simp add: entry_eta)
qed simp

text \<open>
  The CSV file of a plane whose list is well formed: it is written exactly when the plane is
  present and the stream opens and stays good, and reads back as one row for each fact, in order,
  with the number and dependency that the list shows and every text as it was.
\<close>
lemma implicit_csv_roundtrip:
  assumes "list_ok facts_of (ii_facts info)"
  shows "map_option (\<lambda>(r, content). (ie_success r, ie_count r, Option.bind content read_csv))
      (extract_implicit_execution opens good info csv) =
    Some (if ii_state info \<noteq> ''NOT_PRESENT'' \<and> opens \<and> good
      then (True, length (entries_of (ii_facts info)),
        Some (implicit_columns # map (map field_value \<circ> implicit_fields) (entries_of (ii_facts info))))
      else (False, 0, None))"
proof -
  let ?es = "entries_of (ii_facts info)"
  have rows: "implicit_rows (ii_facts info) [0..<list_size facts_of (ii_facts info)] = Some (concat (map implicit_line ?es))"
  proof -
    have "map (\<lambda>i. implicit_line (?es ! i)) [0..<length ?es] = map implicit_line ?es" by (rule nth_equalityI) simp_all
    then show ?thesis using implicit_rows_entries [OF assms, of "[0..<length ?es]"] by simp
  qed
  have lines: "implicit_line = (\<lambda>e. csv_line (map field_text (implicit_fields e)))"
    by (simp add: fun_eq_iff implicit_line_fields)
  have header: "csv_line implicit_columns = csv_line (map field_text (map Plain implicit_columns))"
    by (simp add: comp_def)
  have "read_csv (csv_line implicit_columns @ concat (map implicit_line ?es)) =
      Some (implicit_columns # map (map field_value \<circ> implicit_fields) ?es)"
    unfolding header lines using read_table [OF columns_plain implicit_fields_ok, where xs = ?es]
    by (simp only: field_value_Plain)
  then show ?thesis
    by (simp add: extract_implicit_execution_def rows refused_extract_def)
qed

text \<open>
  A dependency is looked up by its lower 32 bits: one beyond them is not reported as missing but
  resolved to another fact.
\<close>

definition owned_list :: "facts \<Rightarrow> facts fact_list" where
  "owned_list fs = \<lparr>fl_owned = Some fs, fl_segments = [], fl_dependencies = [], fl_shared = False\<rparr>"

definition plain_plane :: "string \<Rightarrow> facts \<Rightarrow> plane_ref" where
  "plain_plane source fs =
     \<lparr>pr_source = source, pr_info = Some (empty_info\<lparr>ii_state := ''RESOLVED'', ii_facts := owned_list fs\<rparr>)\<rparr>"

definition wide_planes :: "plane_ref list" where
  "wide_planes = [plain_plane ''PE'' [empty_fact, empty_fact\<lparr>if_index := 1, if_depends := 4294967296\<rparr>]]"

lemmas evaluate_merge = plain_plane_def owned_list_def empty_info_def empty_fact_def facts_of_def empty_list_def
  list_size_def list_entries_def ref_at_def index_at_def dependency_at_def wrap32_def low32_def

lemma wide_dependency_resolved:
  "map_option (\<lambda>o'. (ii_state o', map en_depends (entries_of (ii_facts o')))) (merge_implicit_execution wide_planes) =
    Some (''RESOLVED'', [-1, 0])"
  by (simp add: merge_is_loop start_merge_def wide_planes_def evaluate_merge merge_plane_def note_state_def append_error_def
      resolve_dependency_def count_fact_def append_shared_view_def merged_state_def Let_def upt_conv_Cons)

definition sample_planes :: "plane_ref list" where
  "sample_planes =
     [plain_plane ''ELF'' [empty_fact\<lparr>if_index := 7\<rparr>, empty_fact\<lparr>if_index := 9, if_depends := 7, if_priority := ''HIGH''\<rparr>],
      \<lparr>pr_source = ''DEX'', pr_info = None\<rparr>,
      plain_plane ''JVM'' [empty_fact, empty_fact\<lparr>if_index := 1, if_depends := 0\<rparr>]]"

lemma sample_usable: "list_all usable sample_planes"
  by (simp add: sample_planes_def usable_def active_def plain_plane_def owned_list_def list_ok_def)

lemma sample_merged: "merge_implicit_execution sample_planes = Some (the (merge_implicit_execution sample_planes))"
  by (rule merge_result [OF sample_usable]) simp

theorem merged_facts_exact_witness:
  "\<exists>out. merge_implicit_execution sample_planes = Some out \<and> ii_high out = 1 \<and>
    map (\<lambda>e. (en_index e, en_depends e)) (entries_of (ii_facts out)) = [(0, -1), (1, 0), (2, -1), (3, 2)]"
proof -
  have "map (\<lambda>e. (en_index e, en_depends e)) (merged_entries 0 (plane_entries sample_planes)) = [(0, -1), (1, 0), (2, -1), (3, 2)]"
    "high_facts (map en_fact (concat (plane_entries sample_planes))) = 1"
    by (simp_all add: sample_planes_def active_def evaluate_merge moved_entries_def view_entries_def resolved_def high_facts_def upt_conv_Cons)
  with merged_facts_exact [OF sample_usable] show ?thesis by metis
qed

theorem merged_resolved_iff_witness: "ii_state (the (merge_implicit_execution sample_planes)) = ''RESOLVED''"
proof -
  have "concat (plane_entries sample_planes) \<noteq> [] \<and>
    list_all (\<lambda>(s, i). (ii_state i = ''RESOLVED'' \<or> ii_state i = []) \<and> \<not> ii_limited i \<and> consistent (entries_of (ii_facts i)))
      (active_planes sample_planes)"
    by (simp add: sample_planes_def active_def evaluate_merge consistent_compute upt_conv_Cons)
  with merged_resolved_iff [OF sample_usable sample_merged] show ?thesis by blast
qed

theorem merging_again_changes_nothing_witness:
  "\<exists>out. merge_implicit_execution sample_planes = Some out \<and> settled (entries_of (ii_facts out)) \<and>
    map_option (\<lambda>o'. entries_of (ii_facts o')) (merge_implicit_execution [\<lparr>pr_source = ''all'', pr_info = Some out\<rparr>]) =
      Some (entries_of (ii_facts out))"
proof -
  have "length (concat (plane_entries sample_planes)) = 4"
    by (simp add: sample_planes_def active_def evaluate_merge)
  then have "length (concat (plane_entries sample_planes)) \<le> 4294967296" by simp
  from merging_again_changes_nothing [OF sample_usable this sample_merged, of "''all''"] sample_merged show ?thesis by blast
qed

lemma implicit_csv_roundtrip_witness:
  "map_option (\<lambda>(r, content). (ie_success r, ie_count r, Option.bind content read_csv))
      (extract_implicit_execution True True (empty_info\<lparr>ii_state := ''RESOLVED'', ii_facts := owned_list [empty_fact]\<rparr>) ''out.csv'') =
    Some (True, 1, Some [implicit_columns, map field_value (implicit_fields (own_entry empty_fact))])"
proof -
  let ?i = "empty_info\<lparr>ii_state := ''RESOLVED'', ii_facts := owned_list [empty_fact]\<rparr>"
  have ok: "list_ok facts_of (ii_facts ?i)" by (simp add: owned_list_def list_ok_def)
  have "entries_of (ii_facts ?i) = [own_entry empty_fact]"
    using list_entries_owned [OF ok] by (simp add: owned_list_def list_facts_def facts_of_def)
  moreover have "list_size facts_of (owned_list [empty_fact]) = 1"
    by (simp add: owned_list_def list_size_def facts_of_def)
  ultimately show ?thesis using implicit_csv_roundtrip [OF ok, of True True "''out.csv''"] by simp
qed

end
