(* ===== verification/Spec2Isabelle.thy ===== *)
theory Spec2Isabelle
  imports ZipMaterialize UnrealPakSafety UnrealIoSafety Unreal ReadyToRunSafety HermesSafety MaterializationReport ModelTrust SemanticComposition V8CodeCache PyMarshalRewrite
    SemanticDelta ReferenceRegistry UnityUsage ImplicitFactHeap ImplicitMerge
begin

section \<open>A verification library for auto-refirst\<close>

text \<open>
  \<^bold>\<open>The program.\<close> auto-refirst looks at an unknown file before a reverse engineer does: it maps
  the file, runs a set of recognizers over the bytes, opens containers, may run the sample under
  observation, and writes a report of findings, each with an evidence state and byte ranges. The C++
  code lies under \<^verbatim>\<open>src/\<close>, its interfaces under \<^verbatim>\<open>include/prts/\<close>. The parts work together as
  follows.

  \<^item> \<^verbatim>\<open>include/prts/finding.hpp\<close> is the vocabulary in which every recognizer reports: ranges with
    a coordinate space and basis, findings with positive and negative facts.
  \<^item> The recognizers under \<^verbatim>\<open>src/extract/\<close> take the mapped bytes and give an info record, from
    which a second function makes the finding.
  \<^item> \<^verbatim>\<open>src/extract/container_ingress.cpp\<close> decides which members of a ZIP file may be written to
    the working directory and writes them there; the orchestration then runs over the new files.
  \<^item> The runtime part records a timeline of events and artifacts;
    \<^verbatim>\<open>src/runtime/materialization_graph.cpp\<close> folds them into a graph that says which code was
    written by which.
  \<^item> \<^verbatim>\<open>src/reference/model_trust.cpp\<close> and \<^verbatim>\<open>src/core/semantic_composition.cpp\<close> weigh the
    evidence that the other parts deliver.

  \<^bold>\<open>Conventions.\<close> A byte is an 8-bit word and a span a list of bytes. An access outside a span is
  undefined in C++; here it has no value (\<open>None\<close>), so that memory safety is the statement that a
  result exists. An early return is a left sum. 64-bit arithmetic is kept on naturals with the
  wrap-around written out, or on words where the code shifts and masks. Strings are lists of
  characters, paths native POSIX strings. A structure is a record, an enumeration a datatype.

  \<^bold>\<open>Theories and sources.\<close>

  \<^item> \<open>Prelude\<close>: bytes, spans, early returns, decimal and hexadecimal text, and the interface
    \<open>le_reader\<close> of little-endian readers. \<open>Outcomes\<close>: the calculus in which staged recognizers are
    proved to decide a condition (\<open>decides\<close>, \<open>meets\<close>), and the overlap test after sorting.
    \<open>StdPath\<close>, \<open>FileSystem\<close>: what the code uses of \<^verbatim>\<open>std::filesystem\<close>; a file system is a map
    from name lists to files, directories and links. \<open>CsvText\<close>: quoted CSV and a reader for it.
  \<^item> \<open>Evidence\<close>: \<^verbatim>\<open>include/prts/finding.hpp\<close>.
  \<^item> \<open>Hashing\<close>: \<^verbatim>\<open>src/core/sha1.cpp\<close>, \<^verbatim>\<open>src/core/sha256.cpp\<close>. The buffered streams are proved
    to compute the hash of the padded message for every division of the input (the locale
    \<open>md_hash\<close>, interpreted for both), and HMAC and PBKDF2 to be those of the standards.
  \<^item> \<open>ZipNames\<close>, \<open>ZipInspect\<close>, \<open>ZipMaterialize\<close> with \<open>ZipSafety\<close>:
    \<^verbatim>\<open>src/extract/container_ingress.cpp\<close>. The name policy, the search for the end record, the
    comparison of central and local headers, budgets, collisions, and the writing of one member
    through a part file. An offered member has headers (or a data descriptor) that agree
    field by field and a path that cannot escape. When the status of the destination and of its
    temporary name can be read, a success placed what the closed stream kept of the bytes that the
    decompressor delivered, of the declared size and with a positive CRC verdict, and existing files
    stay as they are; lemmas show what goes wrong when that status cannot be read, and when closing
    the stream loses data.
  \<^item> \<open>UnrealText\<close>, \<open>UnrealRanges\<close>, \<open>UnrealPak\<close>, \<open>UnrealIoStore\<close>, \<open>Unreal\<close> with
    \<open>UnrealPakSafety\<close>, \<open>UnrealIoSafety\<close>: \<^verbatim>\<open>src/extract/unreal.cpp\<close>. Each format has a
    declarative description of a valid file, and the staged recognizer is proved to decide it.
  \<^item> \<open>ReadyToRun\<close>, \<open>ReadyToRunSafety\<close>: \<^verbatim>\<open>src/extract/readytorun.cpp\<close>, in the same way.
  \<^item> \<open>HermesOpcodes\<close>, \<open>HermesText\<close>, \<open>Hermes\<close>, \<open>HermesMaps\<close>, \<open>HermesSafety\<close>:
    \<^verbatim>\<open>src/extract/hermes.cpp\<close> and its opcode tables. The packed headers, tables and
    string entries have a specification as little-endian fields of the file; a valid result has its
    hash, tables, strings, functions and debug section as these fields say. A complete one has every
    body tiled by known opcodes, and lists each opcode that occurs with its count; the CSV maps read
    back.
  \<^item> \<open>PyMarshal\<close>, \<open>PyMarshalSafety\<close>, \<open>PyMarshalCanon\<close>, \<open>PyMarshalRewrite\<close>:
    \<^verbatim>\<open>src/formats/python_marshal.cpp\<close>. The parsed objects, which may be shared and cyclic, are
    nodes of a store. The code ranges of a parse lie in the input and are disjoint, so rewriting
    opcodes changes these and nothing else; the canonical form ends exactly when no set contains itself.
  \<^item> \<open>V8CodeCache\<close>: \<^verbatim>\<open>src/extract/v8_code_cache.cpp\<close>, parser and finding.
  \<^item> \<open>Timeline\<close>, \<open>MaterializationGraph\<close>, \<open>MaterializationSafety\<close>, \<open>MaterializationReport\<close>:
    \<^verbatim>\<open>src/runtime/materialization_graph.cpp\<close>. The builder is an explicit state; an inductive
    relation \<open>reachable\<close> holds the builders that events and artifacts can lead to, and the contract of
    generations (only confirmed writes that were executed or inherited have one) is an invariant of
    it. The two phases of the builder are interpretations of \<open>graph_phase\<close>.
  \<^item> \<open>ImplicitFacts\<close>, \<open>ImplicitFactHeap\<close>, \<open>ImplicitMerge\<close>:
    \<^verbatim>\<open>include/prts/implicit_exec.hpp\<close>, \<^verbatim>\<open>src/core/implicit_exec.cpp\<close>. Lists of facts are objects
    of a heap that share storages; the copy on write is proved to make them independent. Merging
    planes keeps their facts, moves their dependencies along and claims no more than the planes do.
  \<^item> \<open>ModelTrust\<close>: \<^verbatim>\<open>src/reference/model_trust.cpp\<close>. Grouping of facts, verdicts and guidance; weaker
    evidence never overturns stronger one, and the order of facts does not matter.
  \<^item> \<open>SemanticDelta\<close>: \<^verbatim>\<open>src/reference/semantic_delta.cpp\<close>. When a difference from a reference is
    claimed to be exact, and the guidance that the trust report draws from it.
  \<^item> \<open>ReferenceRegistry\<close>: \<^verbatim>\<open>src/reference/reference_registry.cpp\<close> and its table. Only the pinned
    release can be selected, and never the first of several.
  \<^item> \<open>UnityUsage\<close>: \<^verbatim>\<open>src/extract/unity_metadata_usage_codec.cpp\<close>. Decoding undoes packing.
  \<^item> \<open>SemanticComposition\<close>: \<^verbatim>\<open>src/core/semantic_composition.cpp\<close>. When a composed claim is
    confirmed, and that ambiguity fails closed.

  \<^bold>\<open>Bounds and fuel.\<close> Loops of the code that count down or run over a list are structural
  recursions. Where the bound of a loop is not visible (the end-record scan, the UTF decoders, the
  decoding of opcodes, the following of links) the recursion has a measure or a fuel that is at
  least the number of bytes left or of links that the system follows; the properties that state a
  result include that the fuel never ends first. The marshal parser recurses as deep as the code's
  own limit lets it; its canonical form has no limit in the code, so there fuel stands for the stack
  and the property says for which inputs some fuel is enough. The budgets of the code (numbers of members,
  functions, strings, decoded bytes) are the code's own constants.

  \<^bold>\<open>What is taken as given.\<close> The code under third-party directories and the operating system are
  arguments: miniz (an opened archive, entry records, and an extractor that delivers pieces and a
  checksum verdict), the PE parser as seen by the ReadyToRun recognizer, the contents of artifact
  files, and the success of stream operations. Theorems that need something of them say so as a
  hypothesis and have a witness in which the argument is a concrete function.

  \<^bold>\<open>Not modelled.\<close> Confidence numbers (floating point) other than whether they are positive. The
  executable-format readers, the .NET, Android, Dart, Unity, Godot, other Python and script recognizers and
  the detectors that disassemble (with the vendored Zydis) are not reached yet; they share the
  conventions above. Process control and debugging, memory mapping, the command line, the rendering
  of reports and the Qt front end are input and output of the operating system and hold no decision
  that the modelled parts rely on. Exceptions while a directory iterator is stepped are left out, and
  code that is compiled on Linux is modelled where the platforms differ.
\<close>

end
